(* ===== verification/Lan_Subnets.thy ===== *)
theory Lan_Subnets
  imports Prelude "HOL-Library.Word"
begin

unbundle bit_operations_syntax

text \<open>
  The part of Python's \<^verbatim>\<open>ipaddress\<close> module the overlap's LAN Device Tracking uses: IPv4
  addresses and networks (\<open>ip_address\<close>, \<open>ip_network(..., strict=False)\<close>, \<open>in\<close>,
  \<open>is_private\<close>, \<open>str\<close>). An address is a 32-bit word. IPv6 and the netmask spelling of a
  prefix (\<open>/255.255.255.0\<close>) are not modelled: they are refused here as a text that is no
  address is.
\<close>

type_synonym ipv4 = "32 word"

datatype network = Network (net_addr: ipv4) (net_prefix: nat)

text \<open>Decimal digits only, no sign, no leading zero, as \<open>ipaddress\<close> wants an octet.\<close>

definition parse_octet :: "string \<Rightarrow> nat option" where
  "parse_octet s =
     (if s = [] \<or> 3 < length s \<or> (1 < length s \<and> hd s = CHR ''0'') then None
      else case digits_val 0 s of
             None \<Rightarrow> None
           | Some n \<Rightarrow> (if n \<le> 255 then Some (nat n) else None))"

definition ip_address :: "string \<Rightarrow> ipv4 option" where
  "ip_address s =
     (case map parse_octet (split_on (CHR ''.'') s) of
        [Some a, Some b, Some c, Some d] \<Rightarrow>
          Some (word_of_nat (((a * 256 + b) * 256 + c) * 256 + d))
      | _ \<Rightarrow> None)"

text \<open>The netmask of a prefix length: its \<open>p\<close> high bits.\<close>

definition netmask :: "nat \<Rightarrow> ipv4" where
  "netmask p = push_bit (32 - p) (mask p)"

definition parse_prefix :: "string \<Rightarrow> nat option" where
  "parse_prefix s =
     (if s = [] then None
      else case digits_val 0 s of
             None \<Rightarrow> None
           | Some n \<Rightarrow> (if n \<le> 32 then Some (nat n) else None))"

text \<open>\<open>ip_network(s, strict=False)\<close>: host bits are cleared, \<open>None\<close> is the \<open>ValueError\<close>.\<close>

definition ip_network :: "string \<Rightarrow> network option" where
  "ip_network s =
     (case split_on (CHR ''/'') s of
        [a] \<Rightarrow> map_option (\<lambda>w. Network w 32) (ip_address a)
      | [a, p] \<Rightarrow>
          (case (ip_address a, parse_prefix p) of
             (Some w, Some n) \<Rightarrow> Some (Network (w AND netmask n) n)
           | _ \<Rightarrow> None)
      | _ \<Rightarrow> None)"

definition in_network :: "ipv4 \<Rightarrow> network \<Rightarrow> bool" where
  "in_network w n \<longleftrightarrow> w AND netmask (net_prefix n) = net_addr n"

definition broadcast :: "network \<Rightarrow> ipv4" where
  "broadcast n = net_addr n OR NOT (netmask (net_prefix n))"

definition private_networks :: "network list" where
  "private_networks =
     map (\<lambda>(w, p). Network (word_of_nat w) p)
       [(0, 8), (10 * 2 ^ 24, 8), (127 * 2 ^ 24, 8), (169 * 2 ^ 24 + 254 * 2 ^ 16, 16),
        (172 * 2 ^ 24 + 16 * 2 ^ 16, 12), (192 * 2 ^ 24, 29), (192 * 2 ^ 24 + 170, 31),
        (192 * 2 ^ 24 + 2 * 2 ^ 8, 24), (192 * 2 ^ 24 + 168 * 2 ^ 16, 16),
        (198 * 2 ^ 24 + 18 * 2 ^ 16, 15), (198 * 2 ^ 24 + 51 * 2 ^ 16 + 100 * 2 ^ 8, 24),
        (203 * 2 ^ 24 + 113 * 2 ^ 8, 24), (240 * 2 ^ 24, 4), (2 ^ 32 - 1, 32)]"

text \<open>Both ends of the network lie in one of the private ranges.\<close>

definition is_private :: "network \<Rightarrow> bool" where
  "is_private n \<longleftrightarrow>
     (\<exists>p \<in> set private_networks. in_network (net_addr n) p \<and> in_network (broadcast n) p)"

definition show_ip :: "ipv4 \<Rightarrow> string" where
  "show_ip w =
     (let n = unat w in
      dec (int (n div 2 ^ 24)) @ ''.'' @ dec (int (n div 2 ^ 16 mod 256)) @ ''.'' @
      dec (int (n div 2 ^ 8 mod 256)) @ ''.'' @ dec (int (n mod 256)))"

definition show_network :: "network \<Rightarrow> string" where
  "show_network n = show_ip (net_addr n) @ ''/'' @ dec (int (net_prefix n))"

lemma and_netmask_idem: "(w AND netmask p) AND netmask p = w AND netmask p"
  by (simp add: and.assoc)

text \<open>An address lies in the network written from it, whatever its host bits.\<close>

lemma in_own_network: "in_network w (Network (w AND netmask p) p)"
  by (simp add: in_network_def)

text \<open>Membership asks for the high bits only.\<close>

lemma in_network_bits:
  assumes "p \<le> 32"
  shows "in_network w (Network (v AND netmask p) p) \<longleftrightarrow>
         (\<forall>i. 32 - p \<le> i \<and> i < 32 \<longrightarrow> bit w i = bit v i)"
proof -
  have "bit (netmask p) i \<longleftrightarrow> 32 - p \<le> i \<and> i < 32" for i
    using assms by (auto simp: netmask_def bit_push_bit_iff bit_mask_iff)
  then show ?thesis
    by (auto simp: in_network_def bit_eq_iff bit_and_iff)
qed

end
