(* ===== verification/Json.thy ===== *)
theory Json
  imports Prelude
begin

text \<open>
  JSON values as they sit in the \<open>custom_properties\<close> and settings columns, and Python's
  conversions of them (\<open>bool\<close>, \<open>int\<close>, \<open>float\<close>, \<open>str\<close>) as the sources use them.
\<close>

section \<open>JSON values\<close>

datatype json = JNull | JBool bool | JInt int | JReal real | JStr string | JList "json list"

text \<open>\<open>int(x)\<close>; \<open>None\<close> is the \<open>TypeError\<close> or \<open>ValueError\<close> the callers catch.\<close>

fun json_int :: "json \<Rightarrow> int option" where
  "json_int (JBool b) = Some (if b then 1 else 0)"
| "json_int (JInt n) = Some n"
| "json_int (JReal r) = Some (if r < 0 then \<lceil>r\<rceil> else \<lfloor>r\<rfloor>)"
| "json_int (JStr s) = parse_int s"
| "json_int JNull = None"
| "json_int (JList xs) = None"

fun json_truthy :: "json \<Rightarrow> bool" where
  "json_truthy JNull = False"
| "json_truthy (JBool b) = b"
| "json_truthy (JInt n) = (n \<noteq> 0)"
| "json_truthy (JReal r) = (r \<noteq> 0)"
| "json_truthy (JStr s) = (s \<noteq> [])"
| "json_truthy (JList xs) = (xs \<noteq> [])"

text \<open>
  \<open>float(x)\<close> and \<open>str(x)\<close>. What Python takes as the text of a float, and how it writes a float
  or a list, are parameters.
\<close>

record py_text =
  float_of :: "string \<Rightarrow> real option"
  repr_of :: "json \<Rightarrow> string"

fun json_float :: "py_text \<Rightarrow> json \<Rightarrow> real option" where
  "json_float py (JBool b) = Some (if b then 1 else 0)"
| "json_float py (JInt n) = Some (of_int n)"
| "json_float py (JReal r) = Some r"
| "json_float py (JStr s) = float_of py s"
| "json_float py JNull = None"
| "json_float py (JList xs) = None"

fun json_str :: "py_text \<Rightarrow> json \<Rightarrow> string" where
  "json_str py (JStr s) = s"
| "json_str py (JInt n) = dec n"
| "json_str py (JBool b) = (if b then ''True'' else ''False'')"
| "json_str py JNull = ''None''"
| "json_str py j = repr_of py j"

text \<open>\<open>str(x or "")\<close>.\<close>

definition json_text :: "py_text \<Rightarrow> json \<Rightarrow> string" where
  "json_text py j = (if json_truthy j then json_str py j else [])"

end
