(* ===== verification/Accounts.thy ===== *)
theory Accounts
  imports Lan_Subnets Json
begin

text \<open>
  M3U accounts and their profiles as the connection accounting sees them
  (\<^verbatim>\<open>apps/m3u/models.py\<close>, the fields used), and the overlap's per-account settings read
  from an account's free-form \<open>custom_properties\<close> (\<^verbatim>\<open>apps/proxy/live_proxy/probation.py\<close>, Account settings).
\<close>

section \<open>Accounts and profiles\<close>

record account =
  acc_id :: int
  acc_name :: string
  server_url :: string
  acc_active :: bool
  account_type :: string
  username :: string
  password :: string
  server_group :: "int option"
  props :: "(string \<times> json) list"

record profile =
  prof_id :: int
  max_streams :: int
  prof_active :: bool
  is_default :: bool
  search_pattern :: string
  replace_pattern :: string
  m3u_account :: account

text \<open>A stream profile (\<^verbatim>\<open>core/models.py\<close>): how a stream is sent, of which only this matters here.\<close>

record stream_profile =
  sp_id :: int
  is_redirect :: bool

definition account_prop :: "account \<Rightarrow> string \<Rightarrow> json option" where
  "account_prop a k = map_of (props a) k"

section \<open>The overlap's settings\<close>

definition default_probation_seconds :: int where "default_probation_seconds = 10"
definition min_probation_seconds :: int where "min_probation_seconds = 1"
definition max_probation_seconds :: int where "max_probation_seconds = 120"
definition default_surf_delay_ms :: int where "default_surf_delay_ms = 500"
definition max_surf_delay_ms :: int where "max_surf_delay_ms = 2000"

lemmas window_bounds =
  default_probation_seconds_def min_probation_seconds_def max_probation_seconds_def
  default_surf_delay_ms_def max_surf_delay_ms_def

definition account_allows_probation :: "account \<Rightarrow> bool" where
  "account_allows_probation a \<longleftrightarrow> account_prop a ''probation_enabled'' = Some (JBool True)"

definition account_probation_seconds :: "account \<Rightarrow> int" where
  "account_probation_seconds a =
     (case json_int (case account_prop a ''probation_seconds'' of
                       None \<Rightarrow> JInt default_probation_seconds | Some j \<Rightarrow> j) of
        None \<Rightarrow> default_probation_seconds
      | Some seconds \<Rightarrow> min (max seconds min_probation_seconds) max_probation_seconds)"

definition account_stops_skipped_channels :: "account \<Rightarrow> bool" where
  "account_stops_skipped_channels a \<longleftrightarrow>
     account_prop a ''probation_stop_skipped'' = Some (JBool True)"

definition account_identifies_viewers :: "account \<Rightarrow> bool" where
  "account_identifies_viewers a \<longleftrightarrow>
     account_allows_probation a \<or> account_stops_skipped_channels a"

text \<open>\<open>_parse_subnets\<close>: networks that cannot be read, or are not local, are left out.\<close>

definition parse_subnets :: "string list \<Rightarrow> network list" where
  "parse_subnets subnets =
     filter is_private (List.map_filter (\<lambda>s. ip_network (strip s)) subnets)"

text \<open>\<open>re.split(r"[,\s]+", s)\<close>, for the uses below, where empty parts are dropped.\<close>

definition is_list_sep :: "char \<Rightarrow> bool" where
  "is_list_sep c \<longleftrightarrow> c = CHR '','' \<or> is_space c"

fun split_words :: "string \<Rightarrow> string \<Rightarrow> string list" where
  "split_words acc [] = (if acc = [] then [] else [rev acc])"
| "split_words acc (c # cs) =
     (if is_list_sep c then (if acc = [] then [] else [rev acc]) @ split_words [] cs
      else split_words (c # acc) cs)"

text \<open>
  The setting is a list, or one text with commas or spaces between the subnets. \<open>str(s)\<close> of
  the entries of a list that are no texts is not a network, so they are left out.
\<close>

fun json_strings :: "json list \<Rightarrow> string list" where
  "json_strings [] = []"
| "json_strings (JStr s # js) = (if s = [] then json_strings js else s # json_strings js)"
| "json_strings (_ # js) = json_strings js"

definition account_lan_subnets :: "account \<Rightarrow> network list" where
  "account_lan_subnets a =
     (case account_prop a ''probation_lan_subnets'' of
        Some (JStr s) \<Rightarrow> parse_subnets (split_words [] s)
      | Some (JList js) \<Rightarrow> parse_subnets (json_strings js)
      | _ \<Rightarrow> [])"

definition account_tracks_lan_devices :: "account \<Rightarrow> bool" where
  "account_tracks_lan_devices a \<longleftrightarrow>
     account_identifies_viewers a \<and> account_lan_subnets a \<noteq> []"

text \<open>
  \<open>parse_lan_subnets\<close>, the API's check of the setting: the entries as networks, each once,
  or the \<open>ValueError\<close> for the first bad entry.
\<close>

datatype subnet_error = Not_valid string | Not_local string

fun collect_subnets :: "string list \<Rightarrow> string list \<Rightarrow> subnet_error + string list" where
  "collect_subnets subnets [] = Inr subnets"
| "collect_subnets subnets (e # es) =
     (let entry = strip e in
      if entry = [] then collect_subnets subnets es
      else case ip_network entry of
             None \<Rightarrow> Inl (Not_valid entry)
           | Some n \<Rightarrow>
               (if \<not> is_private n then Inl (Not_local entry)
                else collect_subnets
                       (if show_network n \<in> set subnets then subnets
                        else subnets @ [show_network n]) es))"

definition parse_lan_subnets :: "string list + string \<Rightarrow> subnet_error + string list" where
  "parse_lan_subnets v =
     collect_subnets [] (case v of Inl entries \<Rightarrow> entries | Inr s \<Rightarrow> split_words [] s)"

definition account_surf_delay_seconds :: "account \<Rightarrow> real" where
  "account_surf_delay_seconds a =
     (let delay_ms =
        (case json_int (case account_prop a ''probation_surf_delay_ms'' of
                          None \<Rightarrow> JInt default_surf_delay_ms | Some j \<Rightarrow> j) of
           None \<Rightarrow> default_surf_delay_ms | Some n \<Rightarrow> n)
      in of_int (min (max delay_ms 0) max_surf_delay_ms) / 1000)"

text \<open>Which account a viewer's next channel prefers.\<close>

datatype preference = Order | Same | Alternate

definition account_switch_preference :: "account \<Rightarrow> preference" where
  "account_switch_preference a =
     (case account_prop a ''probation_account_preference'' of
        Some (JStr p) \<Rightarrow>
          (if p = ''order'' then Order
           else if p = ''same'' then Same
           else if p = ''alternate'' then Alternate
           else if account_prop a ''probation_sticky'' = Some (JBool True) then Same else Order)
      | _ \<Rightarrow>
          (if account_prop a ''probation_sticky'' = Some (JBool True) then Same else Order))"

definition account_keeps_viewers :: "account \<Rightarrow> bool" where
  "account_keeps_viewers a \<longleftrightarrow> account_switch_preference a = Same"

definition account_alternates_viewers :: "account \<Rightarrow> bool" where
  "account_alternates_viewers a \<longleftrightarrow> account_switch_preference a = Alternate"

section \<open>Whether a setting is in use anywhere\<close>

definition any_account_stops_skipped_channels :: "account list \<Rightarrow> bool" where
  "any_account_stops_skipped_channels as \<longleftrightarrow>
     (\<exists>a \<in> set as. acc_active a \<and> account_stops_skipped_channels a)"

definition any_account_allows_probation :: "account list \<Rightarrow> bool" where
  "any_account_allows_probation as \<longleftrightarrow> (\<exists>a \<in> set as. acc_active a \<and> account_allows_probation a)"

definition any_account_tracks_lan_devices :: "account list \<Rightarrow> bool" where
  "any_account_tracks_lan_devices as \<longleftrightarrow>
     (\<exists>a \<in> set as. acc_active a \<and> account_lan_subnets a \<noteq> [] \<and> account_identifies_viewers a)"

text \<open>
  \<open>_cached_flag\<close>: the cached answer, else the computed one, which is then cached; a
  computation that raises (\<open>None\<close>) answers no and is not cached. The state is the cache entry.
\<close>

definition cached_flag :: "bool option \<Rightarrow> bool option \<Rightarrow> bool \<times> bool option" where
  "cached_flag cached compute =
     (case cached of
        Some b \<Rightarrow> (b, cached)
      | None \<Rightarrow> (case compute of None \<Rightarrow> (False, None) | Some b \<Rightarrow> (b, Some b)))"

section \<open>Bounds\<close>

lemma probation_seconds_bounds:
  "min_probation_seconds \<le> account_probation_seconds a \<and>
   account_probation_seconds a \<le> max_probation_seconds"
  by (auto simp: account_probation_seconds_def window_bounds split: option.splits)

lemma probation_seconds_pos: "0 < account_probation_seconds a"
  using probation_seconds_bounds [of a] by (simp add: window_bounds)

lemma surf_delay_bounds: "0 \<le> account_surf_delay_seconds a \<and> account_surf_delay_seconds a \<le> 2"
  by (auto simp: account_surf_delay_seconds_def window_bounds Let_def split: option.splits)

lemma parse_subnets_private: "n \<in> set (parse_subnets ss) \<Longrightarrow> is_private n"
  by (simp add: parse_subnets_def)

lemma lan_subnets_private:
  assumes "n \<in> set (account_lan_subnets a)"
  shows "is_private n"
proof (cases "account_prop a ''probation_lan_subnets''")
  case None
  with assms show ?thesis by (simp add: account_lan_subnets_def)
next
  case (Some j)
  with assms show ?thesis
    by (cases j) (auto simp: account_lan_subnets_def dest: parse_subnets_private)
qed

lemma collect_subnets_distinct:
  "collect_subnets acc es = Inr r \<Longrightarrow> distinct acc \<Longrightarrow> distinct r"
  by (induction acc es rule: collect_subnets.induct)
    (auto simp: Let_def split: if_splits option.splits)

section \<open>Values the witnesses are evaluated on\<close>

definition ex_account :: account where
  "ex_account =
     \<lparr>acc_id = 1, acc_name = ''Provider'', server_url = ''http://host'', acc_active = True,
      account_type = ''STD'', username = ''user'', password = ''pw'', server_group = Some 7,
      props = [(''probation_enabled'', JBool True), (''probation_stop_skipped'', JBool True)]\<rparr>"

definition ex_profile :: profile where
  "ex_profile =
     \<lparr>prof_id = 1, max_streams = 2, prof_active = True, is_default = True, search_pattern = [],
      replace_pattern = [], m3u_account = ex_account\<rparr>"

lemma ex_profile_simps [simp]:
  "prof_id ex_profile = 1" "max_streams ex_profile = 2" "m3u_account ex_profile = ex_account"
  "server_group ex_account = Some 7"
  by (simp_all add: ex_profile_def ex_account_def)

lemma ex_account_allows [simp]: "account_allows_probation ex_account"
  by (simp add: account_allows_probation_def account_prop_def ex_account_def)

end
