(* ===== verification/Declared_Devices.thy ===== *)
theory Declared_Devices
  imports Json
begin

text \<open>
  What a player app says about itself (\<^verbatim>\<open>apps/proxy/live_proxy/app_devices.py\<close>): the app
  integration settings and their coercion, the declared headers of a request, the key a
  declared device is known by, and the shorter start grace of faster failover.
\<close>

section \<open>Settings\<close>

datatype setting = Switch bool | Seconds int | Text string

definition DEFAULTS :: "(string \<times> setting) list" where
  "DEFAULTS =
     [(''devices'', Switch False), (''switch_hints'', Switch False), (''reports'', Switch False),
      (''home_networks'', Text []), (''outside_max_quality'', Text []),
      (''stall_switch'', Switch False), (''own_stream'', Switch False),
      (''fast_failover'', Switch False), (''alternatives'', Switch False),
      (''fast_grace'', Seconds 5), (''fast_grace_many'', Seconds 3),
      (''guide_choice'', Switch False), (''guide_choice_sources'', Text []),
      (''one_device_users'', Text []), (''link_devices'', Switch False), (''link_users'', Text []),
      (''keep_past_days'', Seconds 0), (''rewind'', Switch True), (''rewind_minutes'', Seconds 60),
      (''rewind_max_pause_minutes'', Seconds 240), (''rewind_budget_gb'', Seconds 20),
      (''rewind_excluded_users'', Text []), (''look_back_priority'', Switch True),
      (''look_back_priority_notify'', Switch True)]"

definition GRACE_BOUNDS :: "int \<times> int" where
  "GRACE_BOUNDS = (1, 60)"

definition BOUNDS :: "(string \<times> (int \<times> int)) list" where
  "BOUNDS = [(''rewind_minutes'', (5, 240)), (''rewind_max_pause_minutes'', (15, 1440)),
             (''rewind_budget_gb'', (1, 4000))]"

definition MOST_DAYS :: int where "MOST_DAYS = 7"
definition MANY_ALTERNATIVES :: int where "MANY_ALTERNATIVES = 2"

definition QUALITY_LIMITS :: "string list" where
  "QUALITY_LIMITS = [''FHD'', ''HD'', ''SD'']"

definition id_list_settings :: "string list" where
  "id_list_settings =
     [''guide_choice_sources'', ''one_device_users'', ''link_users'', ''rewind_excluded_users'']"

text \<open>\<open>str(p).strip().isdigit()\<close>, then \<open>str(int(p))\<close>.\<close>

definition all_digits :: "string \<Rightarrow> bool" where
  "all_digits s \<longleftrightarrow> s \<noteq> [] \<and> list_all is_digit s"

definition id_part :: "string \<Rightarrow> string option" where
  "id_part p = (if all_digits (strip p) then map_option dec (parse_int p) else None)"

definition setting_bounds :: "string \<Rightarrow> int \<times> int" where
  "setting_bounds key = (case map_of BOUNDS key of Some b \<Rightarrow> b | None \<Rightarrow> GRACE_BOUNDS)"

text \<open>\<open>_as_kind\<close>: a setting as the kind its default is; \<open>None\<close> for a key that is no setting.\<close>

definition as_kind :: "py_text \<Rightarrow> string \<Rightarrow> json \<Rightarrow> setting option" where
  "as_kind py key value =
     (case map_of DEFAULTS key of
        None \<Rightarrow> None
      | Some (Switch _) \<Rightarrow> Some (Switch (json_truthy value))
      | Some (Seconds d) \<Rightarrow>
          Some (Seconds
            (if key = ''keep_past_days'' then
               (case json_float py (if json_truthy value then value else JInt 0) of
                  None \<Rightarrow> 0
                | Some r \<Rightarrow> max 0 (min MOST_DAYS (the (json_int (JReal r)))))
             else
               (case json_float py value of
                  None \<Rightarrow> d
                | Some r \<Rightarrow> (let (low, high) = setting_bounds key
                             in max low (min high (the (json_int (JReal r))))))))
      | Some (Text _) \<Rightarrow>
          Some (Text
            (if key \<in> set id_list_settings then
               join '','' (List.map_filter id_part
                 (case value of
                    JList js \<Rightarrow> map (json_str py) js
                  | _ \<Rightarrow> split_on (CHR '','') (json_text py value)))
             else
               (let text = strip (json_text py value) in
                if key = ''outside_max_quality''
                then (if upper text \<in> set QUALITY_LIMITS then upper text else [])
                else take 2000 text))))"

type_synonym settings = "(string \<times> setting) list"

text \<open>
  \<open>load_settings\<close> and \<open>save_settings\<close>: the stored row laid over the defaults; the given values
  laid over the settings there were. A value of a key that is no setting is dropped.
\<close>

definition overlay :: "py_text \<Rightarrow> settings \<Rightarrow> (string \<times> json) list \<Rightarrow> settings" where
  "overlay py base given =
     map (\<lambda>(k, d). (k, case map_of given k of
                          None \<Rightarrow> d
                        | Some v \<Rightarrow> (case as_kind py k v of None \<Rightarrow> d | Some s \<Rightarrow> s))) base"

definition HELD_SECONDS :: real where "HELD_SECONDS = 10"

definition load_settings ::
  "py_text \<Rightarrow> real \<Rightarrow> (real \<times> settings) option \<Rightarrow> (string \<times> json) list \<Rightarrow>
   settings \<times> (real \<times> settings) option" where
  "load_settings py now held stored =
     (case held of
        Some (t0, v) \<Rightarrow>
          (if now - t0 < HELD_SECONDS then (v, held)
           else (let values = overlay py DEFAULTS stored in (values, Some (now, values))))
      | None \<Rightarrow> (let values = overlay py DEFAULTS stored in (values, Some (now, values))))"

definition switch_on :: "settings \<Rightarrow> string \<Rightarrow> bool" where
  "switch_on st k \<longleftrightarrow> map_of st k = Some (Switch True)"

definition seconds_of :: "settings \<Rightarrow> string \<Rightarrow> int" where
  "seconds_of st k = (case map_of st k of Some (Seconds n) \<Rightarrow> n | _ \<Rightarrow> 0)"

definition text_of :: "settings \<Rightarrow> string \<Rightarrow> string" where
  "text_of st k = (case map_of st k of Some (Text t) \<Rightarrow> t | _ \<Rightarrow> [])"

text \<open>What saving the guide choice starts or stops in \<^verbatim>\<open>app_guides\<close>.\<close>

datatype guide_action = Start_preload | Forget_kept | End_preload

definition save_settings ::
  "py_text \<Rightarrow> settings \<Rightarrow> (string \<times> json) list \<Rightarrow> settings \<times> guide_action list" where
  "save_settings py before given =
     (let values = overlay py before given in
      (values,
       if switch_on values ''guide_choice'' \<noteq> switch_on before ''guide_choice'' then
         (if switch_on values ''guide_choice'' then [Start_preload]
          else [Forget_kept, End_preload])
       else []))"

section \<open>The headers of a request\<close>

record request =
  META :: "(string \<times> string) list"
  GET :: "(string \<times> string) list"

datatype said = Device | Device_name | Multiview | Previous | Max_video | Take_over

fun HEADERS :: "said \<Rightarrow> string \<times> string" where
  "HEADERS Device = (''HTTP_X_DISPATCH_DEVICE'', ''dm_device'')"
| "HEADERS Device_name = (''HTTP_X_DISPATCH_DEVICE_NAME'', ''dm_device_name'')"
| "HEADERS Multiview = (''HTTP_X_DISPATCH_MULTIVIEW'', ''dm_multiview'')"
| "HEADERS Previous = (''HTTP_X_DISPATCH_PREVIOUS_CHANNEL'', ''dm_previous'')"
| "HEADERS Max_video = (''HTTP_X_DISPATCH_MAX_VIDEO'', ''dm_max_video'')"
| "HEADERS Take_over = (''HTTP_X_DISPATCH_TAKE_OVER'', ''dm_take_over'')"

definition said :: "request \<Rightarrow> said \<Rightarrow> string" where
  "said req what =
     (case map_of (META req) (fst (HEADERS what)) of
        Some v \<Rightarrow> strip v
      | None \<Rightarrow> (case map_of (GET req) (snd (HEADERS what)) of Some v \<Rightarrow> strip v | None \<Rightarrow> []))"

definition id_char :: "char \<Rightarrow> bool" where
  "id_char c \<longleftrightarrow> is_letter c \<or> is_digit c \<or> c = CHR ''-''"

definition id_of_length :: "nat \<Rightarrow> nat \<Rightarrow> string \<Rightarrow> bool" where
  "id_of_length low high s \<longleftrightarrow> low \<le> length s \<and> length s \<le> high \<and> list_all id_char s"

definition declared_device :: "settings \<Rightarrow> request \<Rightarrow> string" where
  "declared_device st req =
     (let device = said req Device in
      if device = [] \<or> \<not> switch_on st ''devices'' then []
      else if id_of_length 8 64 device then device else [])"

definition declared_take_over :: "request \<Rightarrow> bool" where
  "declared_take_over req \<longleftrightarrow> lower (said req Take_over) \<in> {''1'', ''true'', ''yes''}"

definition declared_multiview :: "settings \<Rightarrow> request \<Rightarrow> string" where
  "declared_multiview st req =
     (let session = said req Multiview in
      if session = [] \<or> \<not> switch_on st ''devices'' then []
      else if id_of_length 1 64 session then session else [])"

text \<open>\<open>uuid_of\<close> is the database's: the UUID of the channel with a number id.\<close>

definition declared_previous_channel ::
  "(int \<Rightarrow> string option) \<Rightarrow> settings \<Rightarrow> request \<Rightarrow> string" where
  "declared_previous_channel uuid_of st req =
     (let channel = said req Previous in
      if channel = [] \<or> \<not> switch_on st ''switch_hints'' then []
      else if \<not> id_of_length 1 80 channel then []
      else if all_digits channel then
        (case parse_int channel of
           None \<Rightarrow> []
         | Some n \<Rightarrow> (case uuid_of n of None \<Rightarrow> [] | Some u \<Rightarrow> u))
      else channel)"

definition rstrip_P :: "string \<Rightarrow> string" where
  "rstrip_P s = rev (dropWhile (\<lambda>c. c = CHR ''P'') (rev s))"

definition declared_max_quality :: "settings \<Rightarrow> request \<Rightarrow> string" where
  "declared_max_quality st req =
     (let s = rstrip_P (upper (said req Max_video)) in
      if s = [] \<or> \<not> switch_on st ''devices'' then []
      else if s \<in> set QUALITY_LIMITS then s
      else if \<not> all_digits s then []
      else case parse_int s of
             None \<Rightarrow> []
           | Some height \<Rightarrow>
               (if 2000 \<le> height then []
                else if 1000 \<le> height then ''FHD''
                else if 700 \<le> height then ''HD''
                else if 0 < height then ''SD'' else []))"

definition device_key :: "int option \<Rightarrow> string \<Rightarrow> string" where
  "device_key user device =
     ''app|'' @ dec (case user of None \<Rightarrow> 0 | Some u \<Rightarrow> u) @ CHR ''|'' # device"

definition is_declared :: "string option \<Rightarrow> bool" where
  "is_declared key = (case key of None \<Rightarrow> False | Some k \<Rightarrow> k \<noteq> [] \<and> starts_with k ''app|'')"

section \<open>Faster failover\<close>

text \<open>How long a starting channel waits; \<open>None\<close> is the stock grace.\<close>

definition fast_grace_for :: "settings \<Rightarrow> int option \<Rightarrow> int option" where
  "fast_grace_for st remaining =
     (case remaining of
        None \<Rightarrow> None
      | Some n \<Rightarrow>
          (if n \<le> 0 \<or> \<not> switch_on st ''fast_failover'' then None
           else Some (seconds_of st (if MANY_ALTERNATIVES \<le> n then ''fast_grace_many''
                                     else ''fast_grace''))))"

definition fast_start_grace :: "settings \<Rightarrow> int option \<Rightarrow> int \<Rightarrow> int option" where
  "fast_start_grace st alternatives left_already =
     fast_grace_for st (map_option (\<lambda>n. n - left_already) alternatives)"

definition mark_fast_start :: "settings \<Rightarrow> request \<Rightarrow> int option \<Rightarrow> int option" where
  "mark_fast_start st req alternatives =
     (case alternatives of
        None \<Rightarrow> None
      | Some n \<Rightarrow>
          (if n = 0 \<or> declared_device st req = [] \<or> \<not> switch_on st ''fast_failover'' then None
           else Some n))"

definition rewind_for :: "settings \<Rightarrow> string \<Rightarrow> bool" where
  "rewind_for st user \<longleftrightarrow>
     switch_on st ''rewind'' \<and>
     user \<notin> set (filter (\<lambda>u. u \<noteq> []) (split_on (CHR '','') (text_of st ''rewind_excluded_users'')))"

section \<open>Settings stay of their kind\<close>

text \<open>What every setting satisfies, however the row was stored.\<close>

definition setting_ok :: "string \<Rightarrow> setting \<Rightarrow> bool" where
  "setting_ok key s =
     (case (map_of DEFAULTS key, s) of
        (Some (Switch _), Switch _) \<Rightarrow> True
      | (Some (Seconds _), Seconds n) \<Rightarrow>
          (if key = ''keep_past_days'' then 0 \<le> n \<and> n \<le> MOST_DAYS
           else fst (setting_bounds key) \<le> n \<and> n \<le> snd (setting_bounds key))
      | (Some (Text _), Text t) \<Rightarrow>
          (key = ''outside_max_quality'' \<longrightarrow> t = [] \<or> t \<in> set QUALITY_LIMITS) \<and>
          (key \<notin> set id_list_settings \<longrightarrow> length t \<le> 2000)
      | _ \<Rightarrow> False)"

definition settings_ok :: "settings \<Rightarrow> bool" where
  "settings_ok st \<longleftrightarrow> map fst st = map fst DEFAULTS \<and> (\<forall>(k, s) \<in> set st. setting_ok k s)"

lemma setting_bounds_order: "fst (setting_bounds key) \<le> snd (setting_bounds key)"
  by (auto simp: setting_bounds_def BOUNDS_def GRACE_BOUNDS_def)

lemma seconds_default_ok:
  "map_of DEFAULTS key = Some (Seconds d) \<Longrightarrow> setting_ok key (Seconds d)"
  by (auto simp: setting_ok_def DEFAULTS_def setting_bounds_def BOUNDS_def GRACE_BOUNDS_def
      MOST_DAYS_def split: if_splits)

lemma as_kind_ok:
  assumes "as_kind py key v = Some s"
  shows "setting_ok key s"
proof (cases "map_of DEFAULTS key")
  case None
  with assms show ?thesis by (simp add: as_kind_def)
next
  case (Some d)
  show ?thesis
  proof (cases d)
    case (Switch b)
    with Some assms show ?thesis by (auto simp: as_kind_def setting_ok_def)
  next
    case (Seconds n)
    show ?thesis
    proof (cases "json_float py v")
      case None
      with Some Seconds assms seconds_default_ok [of key n] show ?thesis
        by (auto simp: as_kind_def setting_ok_def MOST_DAYS_def split: option.splits if_splits)
    next
      case (Some r)
      with \<open>map_of DEFAULTS key = Some d\<close> Seconds assms setting_bounds_order [of key] show ?thesis
        by (auto simp: as_kind_def setting_ok_def MOST_DAYS_def case_prod_unfold Let_def split: option.splits if_splits)
    qed
  next
    case (Text t)
    have "''outside_max_quality'' \<notin> set id_list_settings" by (simp add: id_list_settings_def)
    moreover have "q \<in> set QUALITY_LIMITS \<Longrightarrow> length q \<le> 2000" for q
      by (auto simp: QUALITY_LIMITS_def)
    ultimately show ?thesis
      using Some Text assms by (auto simp: as_kind_def setting_ok_def Let_def)
  qed
qed

lemma overlay_ok: "settings_ok st \<Longrightarrow> settings_ok (overlay py st given)"
  by (auto simp: settings_ok_def overlay_def case_prod_beta comp_def as_kind_ok
      split: option.splits)

lemma defaults_ok: "settings_ok DEFAULTS"
  by (simp add: settings_ok_def DEFAULTS_def setting_ok_def setting_bounds_def BOUNDS_def
      GRACE_BOUNDS_def MOST_DAYS_def id_list_settings_def)

lemma load_settings_ok:
  "(\<forall>t v. held = Some (t, v) \<longrightarrow> settings_ok v) \<Longrightarrow>
   settings_ok (fst (load_settings py now held stored))"
  by (auto simp: load_settings_def Let_def overlay_ok defaults_ok split: option.splits)

lemma map_of_default_key:
  "settings_ok st \<Longrightarrow> map_of st k = Some s \<Longrightarrow> setting_ok k s"
  by (fastforce simp: settings_ok_def dest: map_of_SomeD)

lemma settings_key: "settings_ok st \<Longrightarrow> k \<in> fst ` set DEFAULTS \<Longrightarrow> \<exists>s. map_of st k = Some s"
  by (metis list.set_map map_of_eq_None_iff not_Some_eq settings_ok_def)

text \<open>The waits of faster failover stay within the grace's bounds.\<close>

lemma fast_grace_seconds:
  assumes "settings_ok st" and "k \<in> {''fast_grace'', ''fast_grace_many''}"
  shows "1 \<le> seconds_of st k \<and> seconds_of st k \<le> 60"
proof -
  have "k \<in> fst ` set DEFAULTS" using assms(2) by (auto simp: DEFAULTS_def)
  then obtain s where s: "map_of st k = Some s" using settings_key assms(1) by blast
  have "setting_ok k s" using map_of_default_key assms(1) s by blast
  then show ?thesis
    using assms(2) s
    by (cases s) (auto simp: setting_ok_def DEFAULTS_def seconds_of_def setting_bounds_def
        BOUNDS_def GRACE_BOUNDS_def)
qed

lemma fast_grace_bounds:
  assumes "settings_ok st" and "fast_grace_for st remaining = Some g"
  shows "1 \<le> g \<and> g \<le> 60"
  using assms fast_grace_seconds [OF assms(1)]
  by (auto simp: fast_grace_for_def split: option.splits if_splits)

section \<open>Declared devices are told apart\<close>

lemma declared_device_chars:
  assumes "declared_device st req = d" and "d \<noteq> []"
  shows "8 \<le> length d \<and> length d \<le> 64 \<and> list_all id_char d"
  using assms by (auto simp: declared_device_def id_of_length_def Let_def split: if_splits)

lemma id_char_no_bar: "list_all id_char d \<Longrightarrow> CHR ''|'' \<notin> set d"
  by (auto simp: list_all_iff id_char_def is_letter_def is_digit_def Let_def)

lemma dec_chars: "c \<in> set (dec i) \<Longrightarrow> is_digit c \<or> c = CHR ''-''"
  using nat_dec_digits by (auto simp: dec_def split: if_splits)

lemma dec_no_bar: "CHR ''|'' \<notin> set (dec i)"
  using dec_chars [of "CHR ''|''" i] by (auto simp: is_digit_def)

lemma device_key_parts:
  "split_on (CHR ''|'') (device_key u d) = [''app'', dec (case u of None \<Rightarrow> 0 | Some n \<Rightarrow> n)] @
     split_on (CHR ''|'') d"
proof -
  have "split_on (CHR ''|'') (''app'' @ CHR ''|'' # s) = ''app'' # split_on (CHR ''|'') s" for s
    by (rule split_on_append) simp
  then show ?thesis
    by (simp add: device_key_def split_on_append [OF dec_no_bar])
qed

lemma device_key_eq:
  assumes "device_key u d = device_key u' d'" and "list_all id_char d" and "list_all id_char d'"
  shows "(case u of None \<Rightarrow> 0 | Some n \<Rightarrow> n) = (case u' of None \<Rightarrow> 0 | Some n \<Rightarrow> n) \<and> d = d'"
proof -
  have "split_on (CHR ''|'') (device_key u d) = split_on (CHR ''|'') (device_key u' d')"
    using assms(1) by simp
  then show ?thesis
    unfolding device_key_parts
    using assms(2,3) by (simp add: split_on_no_sep id_char_no_bar)
qed

lemma device_key_declared: "is_declared (Some (device_key u d))"
  by (simp add: is_declared_def device_key_def)

section \<open>Properties\<close>

lemma save_settings_ok: "settings_ok st \<Longrightarrow> settings_ok (fst (save_settings py st given))"
  by (simp add: save_settings_def Let_def overlay_ok)

lemma saves_ok: "settings_ok st \<Longrightarrow> settings_ok (fold (\<lambda>given st. fst (save_settings py st given)) gs st)"
  by (induction gs arbitrary: st) (simp_all add: save_settings_ok)

text \<open>
  C27: Whatever JSON the settings row holds and whatever is saved over it, one save after another, the
  settings are typed: exactly the known keys, each with a value of its default's kind, every number
  of seconds inside its bounds, id lists and the quality limit in their form; so the wait for a
  stalled stream is from 1 to 60 seconds.
\<close>

theorem settings_stay_typed:
  "settings_ok (fold (\<lambda>given st. fst (save_settings py st given)) gs (fst (load_settings py t None stored))) \<and>
   1 \<le> seconds_of (fold (\<lambda>given st. fst (save_settings py st given)) gs (fst (load_settings py t None stored))) ''fast_grace'' \<and>
   seconds_of (fold (\<lambda>given st. fst (save_settings py st given)) gs (fst (load_settings py t None stored))) ''fast_grace'' \<le> 60"
proof -
  have "settings_ok (fold (\<lambda>given st. fst (save_settings py st given)) gs (fst (load_settings py t None stored)))"
    by (rule saves_ok, rule load_settings_ok) simp
  then show ?thesis using fast_grace_seconds by blast
qed

end
