(* ===== verification/Redis.thy ===== *)
theory Redis
  imports Prelude
begin

text \<open>
  The Redis server the sources keep their shared state in. Redis is not part of the
  repository, so it is a parameter: every operation that talks to it takes a
  \<open>redis_api\<close> record of the commands it uses and the store, and the locale \<open>redis\<close> states
  what the documentation promises of those commands. Keys are the values of
  \<open>rkey\<close>, one constructor per key format of the sources; \<open>key_string\<close> is the string a
  key of \<^verbatim>\<open>live_proxy/redis_keys.py\<close> is written as. \<open>mem_redis\<close> is a store in memory
  on which the laws are proved, for the witnesses.
\<close>

section \<open>Keys\<close>

text \<open>The key formats of \<^verbatim>\<open>apps/proxy/live_proxy/redis_keys.py\<close>, in its order.\<close>

datatype live_key =
    Channel_metadata string
  | Buffer_index string
  | Buffer_chunk string int
  | Channel_stopping string
  | Client_stop string string
  | Events_channel string
  | Switch_request string
  | Channel_owner string
  | Clients string
  | Last_client_disconnect string
  | Connection_attempt string
  | Last_data string
  | Switch_status string
  | Worker_heartbeat string
  | Chunk_timestamps string
  | Transcode_active string
  | Client_metadata string string
  | Output_buffer_index string string
  | Output_buffer_chunk string string int
  | Output_init string string
  | Output_state string string
  | Output_owner string string
  | Output_chunk_timestamps string string

definition live_channel :: "string \<Rightarrow> string \<Rightarrow> string" where
  "live_channel c rest = ''live:channel:'' @ c @ CHR '':'' # rest"

definition buffer_chunk_prefix :: "string \<Rightarrow> string" where
  "buffer_chunk_prefix c = live_channel c ''input:buffer:chunk:''"

definition output_buffer_chunk_prefix :: "string \<Rightarrow> string \<Rightarrow> string" where
  "output_buffer_chunk_prefix c fmt = live_channel c (''output:'' @ fmt @ '':buffer:chunk:'')"

fun key_string :: "live_key \<Rightarrow> string" where
  "key_string (Channel_metadata c) = live_channel c ''metadata''"
| "key_string (Buffer_index c) = live_channel c ''input:buffer:index''"
| "key_string (Buffer_chunk c i) = live_channel c (''input:buffer:chunk:'' @ dec i)"
| "key_string (Channel_stopping c) = live_channel c ''stopping''"
| "key_string (Client_stop c cl) = live_channel c (''client:'' @ cl @ '':stop'')"
| "key_string (Events_channel c) = ''live:events:'' @ c"
| "key_string (Switch_request c) = live_channel c ''switch_request''"
| "key_string (Channel_owner c) = live_channel c ''owner''"
| "key_string (Clients c) = live_channel c ''clients''"
| "key_string (Last_client_disconnect c) = live_channel c ''last_client_disconnect_time''"
| "key_string (Connection_attempt c) = live_channel c ''connection_attempt_time''"
| "key_string (Last_data c) = live_channel c ''last_data''"
| "key_string (Switch_status c) = live_channel c ''switch_status''"
| "key_string (Worker_heartbeat w) = ''live:worker:'' @ w @ '':heartbeat''"
| "key_string (Chunk_timestamps c) = live_channel c ''input:buffer:chunk_timestamps''"
| "key_string (Transcode_active c) = live_channel c ''transcode_active''"
| "key_string (Client_metadata c cl) = live_channel c (''clients:'' @ cl)"
| "key_string (Output_buffer_index c f) = live_channel c (''output:'' @ f @ '':buffer:index'')"
| "key_string (Output_buffer_chunk c f i) =
     live_channel c (''output:'' @ f @ '':buffer:chunk:'' @ dec i)"
| "key_string (Output_init c f) = live_channel c (''output:'' @ f @ '':init'')"
| "key_string (Output_state c f) = live_channel c (''output:'' @ f @ '':state'')"
| "key_string (Output_owner c f) = live_channel c (''output:'' @ f @ '':owner'')"
| "key_string (Output_chunk_timestamps c f) =
     live_channel c (''output:'' @ f @ '':buffer:chunk_timestamps'')"

text \<open>The identifiers a key is built from, none of which may hold the separator.\<close>

fun key_ids :: "live_key \<Rightarrow> string list" where
  "key_ids (Client_stop c cl) = [c, cl]"
| "key_ids (Client_metadata c cl) = [c, cl]"
| "key_ids (Output_buffer_index c f) = [c, f]"
| "key_ids (Output_buffer_chunk c f i) = [c, f]"
| "key_ids (Output_init c f) = [c, f]"
| "key_ids (Output_state c f) = [c, f]"
| "key_ids (Output_owner c f) = [c, f]"
| "key_ids (Output_chunk_timestamps c f) = [c, f]"
| "key_ids (Channel_metadata c) = [c]"
| "key_ids (Buffer_index c) = [c]"
| "key_ids (Buffer_chunk c i) = [c]"
| "key_ids (Channel_stopping c) = [c]"
| "key_ids (Events_channel c) = [c]"
| "key_ids (Switch_request c) = [c]"
| "key_ids (Channel_owner c) = [c]"
| "key_ids (Clients c) = [c]"
| "key_ids (Last_client_disconnect c) = [c]"
| "key_ids (Connection_attempt c) = [c]"
| "key_ids (Last_data c) = [c]"
| "key_ids (Switch_status c) = [c]"
| "key_ids (Worker_heartbeat c) = [c]"
| "key_ids (Chunk_timestamps c) = [c]"
| "key_ids (Transcode_active c) = [c]"

definition colon_free :: "live_key \<Rightarrow> bool" where
  "colon_free k \<longleftrightarrow> (\<forall>s \<in> set (key_ids k). CHR '':'' \<notin> set s)"

lemma split_live_channel:
  "CHR '':'' \<notin> set c \<Longrightarrow>
   split_on (CHR '':'') (live_channel c rest) = [''live'', ''channel'', c] @ split_on (CHR '':'') rest"
  by (simp add: live_channel_def split_on_append)

lemma split_prefix:
  "CHR '':'' \<notin> set c \<Longrightarrow>
   split_on (CHR '':'') (c @ CHR '':'' # rest) = c # split_on (CHR '':'') rest"
  by (rule split_on_append)

lemmas split_simps = split_live_channel split_prefix split_on_no_sep [of "CHR '':''"]
  dec_no_colon [THEN split_on_no_sep]

text \<open>The key split at its colons, which determines the key.\<close>

lemma key_segments:
  assumes "colon_free k"
  shows "split_on (CHR '':'') (key_string k) =
    (case k of
       Channel_metadata c \<Rightarrow> [''live'', ''channel'', c, ''metadata'']
     | Buffer_index c \<Rightarrow> [''live'', ''channel'', c, ''input'', ''buffer'', ''index'']
     | Buffer_chunk c i \<Rightarrow> [''live'', ''channel'', c, ''input'', ''buffer'', ''chunk'', dec i]
     | Channel_stopping c \<Rightarrow> [''live'', ''channel'', c, ''stopping'']
     | Client_stop c cl \<Rightarrow> [''live'', ''channel'', c, ''client'', cl, ''stop'']
     | Events_channel c \<Rightarrow> [''live'', ''events'', c]
     | Switch_request c \<Rightarrow> [''live'', ''channel'', c, ''switch_request'']
     | Channel_owner c \<Rightarrow> [''live'', ''channel'', c, ''owner'']
     | Clients c \<Rightarrow> [''live'', ''channel'', c, ''clients'']
     | Last_client_disconnect c \<Rightarrow> [''live'', ''channel'', c, ''last_client_disconnect_time'']
     | Connection_attempt c \<Rightarrow> [''live'', ''channel'', c, ''connection_attempt_time'']
     | Last_data c \<Rightarrow> [''live'', ''channel'', c, ''last_data'']
     | Switch_status c \<Rightarrow> [''live'', ''channel'', c, ''switch_status'']
     | Worker_heartbeat w \<Rightarrow> [''live'', ''worker'', w, ''heartbeat'']
     | Chunk_timestamps c \<Rightarrow> [''live'', ''channel'', c, ''input'', ''buffer'', ''chunk_timestamps'']
     | Transcode_active c \<Rightarrow> [''live'', ''channel'', c, ''transcode_active'']
     | Client_metadata c cl \<Rightarrow> [''live'', ''channel'', c, ''clients'', cl]
     | Output_buffer_index c f \<Rightarrow> [''live'', ''channel'', c, ''output'', f, ''buffer'', ''index'']
     | Output_buffer_chunk c f i \<Rightarrow>
         [''live'', ''channel'', c, ''output'', f, ''buffer'', ''chunk'', dec i]
     | Output_init c f \<Rightarrow> [''live'', ''channel'', c, ''output'', f, ''init'']
     | Output_state c f \<Rightarrow> [''live'', ''channel'', c, ''output'', f, ''state'']
     | Output_owner c f \<Rightarrow> [''live'', ''channel'', c, ''output'', f, ''owner'']
     | Output_chunk_timestamps c f \<Rightarrow>
         [''live'', ''channel'', c, ''output'', f, ''buffer'', ''chunk_timestamps''])"
  using assms by (cases k) (simp_all add: colon_free_def split_simps)

text \<open>Reading a split key back.\<close>

definition key_of_segments :: "string list \<Rightarrow> live_key option" where
  "key_of_segments ss =
     (case ss of
        [_, _, c] \<Rightarrow> Some (Events_channel c)
      | [_, b, c, d] \<Rightarrow>
          (if b = ''worker'' then Some (Worker_heartbeat c)
           else map_of
             [(''metadata'', Channel_metadata c), (''stopping'', Channel_stopping c),
              (''switch_request'', Switch_request c), (''owner'', Channel_owner c),
              (''clients'', Clients c), (''last_client_disconnect_time'', Last_client_disconnect c),
              (''connection_attempt_time'', Connection_attempt c), (''last_data'', Last_data c),
              (''switch_status'', Switch_status c), (''transcode_active'', Transcode_active c)] d)
      | [_, _, c, _, e] \<Rightarrow> Some (Client_metadata c e)
      | [_, _, c, d, e, f] \<Rightarrow>
          (if d = ''client'' then Some (Client_stop c e)
           else if d = ''input''
                then Some (if f = ''index'' then Buffer_index c else Chunk_timestamps c)
           else map_of [(''init'', Output_init c e), (''state'', Output_state c e),
                        (''owner'', Output_owner c e)] f)
      | [_, _, c, d, e, _, g] \<Rightarrow>
          (if d = ''input'' then map_option (Buffer_chunk c) (parse_int g)
           else Some (if g = ''index'' then Output_buffer_index c e
                      else Output_chunk_timestamps c e))
      | [_, _, c, _, e, _, _, h] \<Rightarrow> map_option (Output_buffer_chunk c e) (parse_int h)
      | _ \<Rightarrow> None)"

lemma key_of_segments_key_string:
  "colon_free k \<Longrightarrow> key_of_segments (split_on (CHR '':'') (key_string k)) = Some k"
  by (subst key_segments, assumption) (cases k; simp add: key_of_segments_def)

lemma key_string_inject:
  assumes "colon_free k" and "colon_free j" and "key_string k = key_string j"
  shows "k = j"
proof -
  have "Some k = key_of_segments (split_on (CHR '':'') (key_string k))"
    by (rule key_of_segments_key_string [OF assms(1), symmetric])
  also have "\<dots> = Some j"
    unfolding assms(3) by (rule key_of_segments_key_string [OF assms(2)])
  finally show ?thesis by (rule option.inject [THEN iffD1])
qed

text \<open>
  Every key the modelled code uses: the live proxy's, and the formats written out where they
  are used (\<^verbatim>\<open>connection_pool.py\<close>, \<^verbatim>\<open>models.py\<close>, \<^verbatim>\<open>probation.py\<close>, \<^verbatim>\<open>app_stalls.py\<close>,
  \<^verbatim>\<open>app_one_device.py\<close>, \<^verbatim>\<open>app_links.py\<close>, \<^verbatim>\<open>core/utils.py\<close>), and the catch-up's of \<^verbatim>\<open>timeshift/redis_keys.py\<close>. Their identifiers are database ids, UUIDs
  and names chosen by the code, and the prefixes differ, so distinct values are distinct keys.
\<close>

datatype rkey =
    Live live_key
  | Profile_connections int
  | Profile_credential_release int
  | Server_group_connections int string
  | Channel_stream int
  | Stream_profile int
  | Last_preempt int
  | Profile_channels int
  | Probation string
  | Last_profile string
  | Skipped_stopping string
  | Last_request string
  | Held_slots int
  | Held_login_slots rkey
  | Channel_viewers string
  | No_hold string
  | Pending_probations
  | Monitor_lease string
  | Abandoned_slots
  | Sweep_lock
  | Stalls_left string
  | Stalls_stalled string
  | Stalls_switching string
  | Stalls_held string string
  | Replaced string string
  | Task_lock string string
  | Catchup_pool string
  | Catchup_superseded string
  | Catchup_generation string string
  | Catchup_stop string string
  | Catchup_session string
  | Catchup_adopted_by string
  | Catchup_aliases string
  | Links string
  | Link_channel string
  | Link_group string
  | Link_requests string
  | Link_positions string
  | Client_device string
  | Worker_clients string string
  | Channel_activity string
  | Init_time string
  | Timeshift_client string string
  | Timeshift_clients string
  | Timeshift_metadata string
  | Timeshift_grace string string
  | Vod_connection string
  | Vod_stop string
  | Device_names
  | Named_key string

section \<open>Values\<close>

text \<open>
  What a key or a hash field holds. Redis keeps strings; the sources write integers
  (\<open>str(n)\<close>, read back with \<open>int\<close>, see \<open>parse_dec\<close>), times (\<open>str(t)\<close>, read back with \<open>float\<close>),
  other keys, texts, and two values joined by a bar (\<open>"expiry|reference"\<close>).
\<close>

datatype rval = VInt int | VTime real | VStr string | VKey rkey | VPair rval rval

text \<open>\<open>int(v)\<close>; \<open>None\<close> is the \<open>ValueError\<close> of a value that is no integer.\<close>

fun val_int :: "rval \<Rightarrow> int option" where
  "val_int (VInt n) = Some n"
| "val_int (VStr s) = parse_int s"
| "val_int _ = None"

text \<open>Python's truth of a value read from Redis, a string: only the empty one is false.\<close>

fun truthy :: "rval option \<Rightarrow> bool" where
  "truthy None = False"
| "truthy (Some (VStr s)) = (s \<noteq> [])"
| "truthy (Some _) = True"

section \<open>The commands and their laws\<close>

text \<open>
  A key is used as a counter (\<open>INCR\<close>, \<open>DECR\<close>, read as \<open>int(GET key or 0)\<close>), as a value
  (\<open>SET\<close>, \<open>GET\<close>), as a hash or as a set, and never as two of these. Each command is given
  by what it does to the four views; a time to live (\<open>r_expire\<close>) changes no view when it is set.
\<close>

record 's redis_api =
  r_count :: "'s \<Rightarrow> rkey \<Rightarrow> int"
  r_get :: "'s \<Rightarrow> rkey \<Rightarrow> rval option"
  r_hash :: "'s \<Rightarrow> rkey \<Rightarrow> (string \<times> rval) list"
  r_members :: "'s \<Rightarrow> rkey \<Rightarrow> string list"
  r_hkeys :: "'s \<Rightarrow> rkey list"
  r_incr :: "'s \<Rightarrow> rkey \<Rightarrow> 's"
  r_decr :: "'s \<Rightarrow> rkey \<Rightarrow> 's"
  r_setcount :: "'s \<Rightarrow> rkey \<Rightarrow> int \<Rightarrow> 's"
  r_set :: "'s \<Rightarrow> rkey \<Rightarrow> rval \<Rightarrow> 's"
  r_hset :: "'s \<Rightarrow> rkey \<Rightarrow> string \<Rightarrow> rval \<Rightarrow> 's"
  r_hdel :: "'s \<Rightarrow> rkey \<Rightarrow> string \<Rightarrow> 's"
  r_sadd :: "'s \<Rightarrow> rkey \<Rightarrow> string \<Rightarrow> 's"
  r_srem :: "'s \<Rightarrow> rkey \<Rightarrow> string \<Rightarrow> 's"
  r_del :: "'s \<Rightarrow> rkey \<Rightarrow> 's"
  r_expire :: "'s \<Rightarrow> rkey \<Rightarrow> int \<Rightarrow> 's"

abbreviation r_hget :: "'s redis_api \<Rightarrow> 's \<Rightarrow> rkey \<Rightarrow> string \<Rightarrow> rval option" where
  "r_hget R s k f \<equiv> map_of (r_hash R s k) f"

definition r_setex :: "'s redis_api \<Rightarrow> 's \<Rightarrow> rkey \<Rightarrow> int \<Rightarrow> rval \<Rightarrow> 's" where
  "r_setex R s k ttl v = r_expire R (r_set R s k v) k ttl"

text \<open>\<open>SET key value NX EX ttl\<close>: whether it was set, and the store.\<close>

definition r_setnx :: "'s redis_api \<Rightarrow> 's \<Rightarrow> rkey \<Rightarrow> int \<Rightarrow> rval \<Rightarrow> bool \<times> 's" where
  "r_setnx R s k ttl v =
     (case r_get R s k of None \<Rightarrow> (True, r_setex R s k ttl v) | Some _ \<Rightarrow> (False, s))"

definition r_exists :: "'s redis_api \<Rightarrow> 's \<Rightarrow> rkey \<Rightarrow> bool" where
  "r_exists R s k \<longleftrightarrow> r_get R s k \<noteq> None \<or> r_hash R s k \<noteq> [] \<or> r_members R s k \<noteq> []"

locale redis =
  fixes R :: "'s redis_api"
  assumes hash_distinct: "distinct (map fst (r_hash R s k))"
    and members_distinct: "distinct (r_members R s k)"
    and hkeys_distinct: "distinct (r_hkeys R s)"
    and set_hkeys: "set (r_hkeys R s) = {k. r_hash R s k \<noteq> []}"
    and count_incr: "r_count R (r_incr R s k) = (r_count R s)(k := r_count R s k + 1)"
    and get_incr: "r_get R (r_incr R s k) = r_get R s"
    and hash_incr: "r_hash R (r_incr R s k) = r_hash R s"
    and members_incr: "r_members R (r_incr R s k) = r_members R s"
    and count_decr: "r_count R (r_decr R s k) = (r_count R s)(k := r_count R s k - 1)"
    and get_decr: "r_get R (r_decr R s k) = r_get R s"
    and hash_decr: "r_hash R (r_decr R s k) = r_hash R s"
    and members_decr: "r_members R (r_decr R s k) = r_members R s"
    and count_setcount: "r_count R (r_setcount R s k n) = (r_count R s)(k := n)"
    and get_setcount: "r_get R (r_setcount R s k n) = r_get R s"
    and hash_setcount: "r_hash R (r_setcount R s k n) = r_hash R s"
    and members_setcount: "r_members R (r_setcount R s k n) = r_members R s"
    and count_set: "r_count R (r_set R s k v) = r_count R s"
    and get_set: "r_get R (r_set R s k v) = (r_get R s)(k \<mapsto> v)"
    and hash_set: "r_hash R (r_set R s k v) = r_hash R s"
    and members_set: "r_members R (r_set R s k v) = r_members R s"
    and count_hset: "r_count R (r_hset R s k f v) = r_count R s"
    and get_hset: "r_get R (r_hset R s k f v) = r_get R s"
    and hash_hset: "map_of (r_hash R (r_hset R s k f v) k) = (map_of (r_hash R s k))(f \<mapsto> v)"
    and hash_hset_other: "j \<noteq> k \<Longrightarrow> r_hash R (r_hset R s k f v) j = r_hash R s j"
    and members_hset: "r_members R (r_hset R s k f v) = r_members R s"
    and count_hdel: "r_count R (r_hdel R s k f) = r_count R s"
    and get_hdel: "r_get R (r_hdel R s k f) = r_get R s"
    and hash_hdel: "map_of (r_hash R (r_hdel R s k f) k) = (map_of (r_hash R s k))(f := None)"
    and hash_hdel_other: "j \<noteq> k \<Longrightarrow> r_hash R (r_hdel R s k f) j = r_hash R s j"
    and members_hdel: "r_members R (r_hdel R s k f) = r_members R s"
    and count_sadd: "r_count R (r_sadd R s k m) = r_count R s"
    and get_sadd: "r_get R (r_sadd R s k m) = r_get R s"
    and hash_sadd: "r_hash R (r_sadd R s k m) = r_hash R s"
    and members_sadd: "set (r_members R (r_sadd R s k m) k) = insert m (set (r_members R s k))"
    and members_sadd_other: "j \<noteq> k \<Longrightarrow> r_members R (r_sadd R s k m) j = r_members R s j"
    and count_srem: "r_count R (r_srem R s k m) = r_count R s"
    and get_srem: "r_get R (r_srem R s k m) = r_get R s"
    and hash_srem: "r_hash R (r_srem R s k m) = r_hash R s"
    and members_srem: "set (r_members R (r_srem R s k m) k) = set (r_members R s k) - {m}"
    and members_srem_other: "j \<noteq> k \<Longrightarrow> r_members R (r_srem R s k m) j = r_members R s j"
    and count_del: "r_count R (r_del R s k) = (r_count R s)(k := 0)"
    and get_del: "r_get R (r_del R s k) = (r_get R s)(k := None)"
    and hash_del: "r_hash R (r_del R s k) = (r_hash R s)(k := [])"
    and members_del: "r_members R (r_del R s k) = (r_members R s)(k := [])"
    and count_expire: "r_count R (r_expire R s k t) = r_count R s"
    and get_expire: "r_get R (r_expire R s k t) = r_get R s"
    and hash_expire: "r_hash R (r_expire R s k t) = r_hash R s"
    and members_expire: "r_members R (r_expire R s k t) = r_members R s"
begin

lemmas redis_laws [simp] =
  count_incr get_incr hash_incr members_incr count_decr get_decr hash_decr members_decr count_setcount get_setcount hash_setcount members_setcount count_set get_set hash_set members_set count_hset get_hset
  hash_hset hash_hset_other members_hset count_hdel get_hdel hash_hdel hash_hdel_other members_hdel count_sadd get_sadd hash_sadd members_sadd members_sadd_other count_srem get_srem hash_srem members_srem members_srem_other
  count_del get_del hash_del members_del count_expire get_expire hash_expire members_expire

text \<open>A field of any hash after a field was written or removed.\<close>

lemma hget_hdel:
  "r_hget R (r_hdel R s k f) j g = (if j = k \<and> g = f then None else r_hget R s j g)"
  by (cases "j = k") auto

lemma hget_hset:
  "r_hget R (r_hset R s k f v) j g = (if j = k \<and> g = f then Some v else r_hget R s j g)"
  by (cases "j = k") auto

lemma count_setex [simp]: "r_count R (r_setex R s k ttl v) = r_count R s"
  and get_setex [simp]: "r_get R (r_setex R s k ttl v) = (r_get R s)(k \<mapsto> v)"
  and hash_setex [simp]: "r_hash R (r_setex R s k ttl v) = r_hash R s"
  and members_setex [simp]: "r_members R (r_setex R s k ttl v) = r_members R s"
  by (simp_all add: r_setex_def)

lemma count_setnx [simp]: "r_count R (snd (r_setnx R s k ttl v)) = r_count R s"
  and hash_setnx [simp]: "r_hash R (snd (r_setnx R s k ttl v)) = r_hash R s"
  and members_setnx [simp]: "r_members R (snd (r_setnx R s k ttl v)) = r_members R s"
  by (simp_all add: r_setnx_def split: option.splits)

text \<open>Of two takers of a lock key exactly the first gets it.\<close>

lemma setnx_first: "r_get R s k = None \<Longrightarrow> fst (r_setnx R s k ttl v)"
  and setnx_second: "\<not> fst (r_setnx R (snd (r_setnx R s k ttl v)) k ttl' v')"
  by (simp_all add: r_setnx_def split: option.splits)

end

text \<open>Setting several fields of a hash (\<open>HSET key mapping\<close>).\<close>

definition hset_all :: "'s redis_api \<Rightarrow> rkey \<Rightarrow> (string \<times> rval) list \<Rightarrow> 's \<Rightarrow> 's" where
  "hset_all R k fs s = foldl (\<lambda>t (f, v). r_hset R t k f v) s fs"

context redis
begin

lemma hset_all_frame [simp]:
  "r_count R (hset_all R k fs s) = r_count R s"
  "r_get R (hset_all R k fs s) = r_get R s"
  "r_members R (hset_all R k fs s) = r_members R s"
  "j \<noteq> k \<Longrightarrow> r_hash R (hset_all R k fs s) j = r_hash R s j"
  unfolding hset_all_def by (induction fs arbitrary: s) (auto simp: case_prod_unfold)

lemma hget_hset_all:
  "r_hget R (hset_all R k fs s) k f = (case map_of (rev fs) f of None \<Rightarrow> r_hget R s k f | Some v \<Rightarrow> Some v)"
  unfolding hset_all_def
  by (induction fs arbitrary: s) (auto simp: hget_hset map_add_def split: option.splits)

lemma hset_all_nonempty: "fs \<noteq> [] \<Longrightarrow> r_hash R (hset_all R k fs s) k \<noteq> []"
proof
  assume "fs \<noteq> []" and "r_hash R (hset_all R k fs s) k = []"
  then have "map_of (rev fs) f = None" for f
    using hget_hset_all [of k fs s f] by (auto split: option.splits)
  with \<open>fs \<noteq> []\<close> show False by (simp add: map_of_eq_None_iff) (metis all_not_in_conv image_is_empty set_empty)
qed

end

section \<open>A store in memory\<close>

record mem =
  m_count :: "rkey \<Rightarrow> int"
  m_get :: "rkey \<Rightarrow> rval option"
  m_hash :: "(rkey \<times> (string \<times> rval) list) list"
  m_members :: "rkey \<Rightarrow> string list"

definition mem_empty :: mem where
  "mem_empty = \<lparr>m_count = (\<lambda>_. 0), m_get = (\<lambda>_. None), m_hash = [], m_members = (\<lambda>_. [])\<rparr>"

definition mem_lookup :: "mem \<Rightarrow> rkey \<Rightarrow> (string \<times> rval) list" where
  "mem_lookup s k = AList.clearjunk (case map_of (m_hash s) k of None \<Rightarrow> [] | Some h \<Rightarrow> h)"

definition mem_redis :: "mem redis_api" where
  "mem_redis =
     \<lparr>r_count = m_count,
      r_get = m_get,
      r_hash = mem_lookup,
      r_members = (\<lambda>s k. remdups (m_members s k)),
      r_hkeys = (\<lambda>s. remdups (filter (\<lambda>k. mem_lookup s k \<noteq> []) (map fst (m_hash s)))),
      r_incr = (\<lambda>s k. s\<lparr>m_count := (m_count s)(k := m_count s k + 1)\<rparr>),
      r_decr = (\<lambda>s k. s\<lparr>m_count := (m_count s)(k := m_count s k - 1)\<rparr>),
      r_setcount = (\<lambda>s k n. s\<lparr>m_count := (m_count s)(k := n)\<rparr>),
      r_set = (\<lambda>s k v. s\<lparr>m_get := (m_get s)(k \<mapsto> v)\<rparr>),
      r_hset = (\<lambda>s k f v. s\<lparr>m_hash := AList.update k (AList.update f v (mem_lookup s k)) (m_hash s)\<rparr>),
      r_hdel = (\<lambda>s k f. s\<lparr>m_hash := AList.update k (AList.delete f (mem_lookup s k)) (m_hash s)\<rparr>),
      r_sadd = (\<lambda>s k m. s\<lparr>m_members := (m_members s)(k := List.insert m (m_members s k))\<rparr>),
      r_srem = (\<lambda>s k m. s\<lparr>m_members := (m_members s)(k := filter (\<lambda>x. x \<noteq> m) (m_members s k))\<rparr>),
      r_del = (\<lambda>s k. s\<lparr>m_count := (m_count s)(k := 0), m_get := (m_get s)(k := None),
                        m_hash := AList.update k [] (m_hash s),
                        m_members := (m_members s)(k := [])\<rparr>),
      r_expire = (\<lambda>s k t. s)\<rparr>"

lemmas mem_redis_simps = mem_redis_def

lemma mem_lookup_update:
  "mem_lookup (s\<lparr>m_hash := AList.update k h (m_hash s)\<rparr>) j =
     (if j = k then AList.clearjunk h else mem_lookup s j)"
  by (simp add: mem_lookup_def update_conv')

lemma map_of_fst: "map_of xs k = Some v \<Longrightarrow> k \<in> fst ` set xs"
  by (force dest: map_of_SomeD)

interpretation mem: redis mem_redis
  by unfold_locales
    (auto simp: mem_redis_simps mem_lookup_update mem_lookup_def fun_eq_iff map_of_clearjunk update_conv'
       delete_conv' distinct_clearjunk List.insert_def map_of_fst split: option.splits)

end
