(* ===== verification/Viewers.thy ===== *)
theory Viewers
  imports Accounts Declared_Devices Redis
begin

text \<open>
  Who is asking for a stream (\<^verbatim>\<open>apps/proxy/live_proxy/probation.py\<close>, Viewer identity and
  Recognising the player of a request): the player app of a User-Agent, the viewer of a
  request or of a client already on a channel, the key a viewer is told apart by on an
  account, and the form it is kept in Redis in.
\<close>

section \<open>What the code reads besides Redis\<close>

text \<open>
  The database rows, settings, clock and addresses the operations read: the answers of
  \<open>in_use()\<close> and its siblings (see \<open>cached_flag\<close>), the configured media servers' hosts, the
  profiles, the default stream profile, the accounts Stream Check is checking while it runs,
  the app integration's settings, and the time.
\<close>

record env =
  in_use :: bool
  skipping_in_use :: bool
  lan_tracking_flag :: bool
  server_hosts :: "string list"
  profiles :: "profile list"
  default_stream_profile :: stream_profile
  stream_check :: "int list option"
  app_settings :: settings
  now :: real

definition lan_tracking_in_use :: "env \<Rightarrow> bool" where
  "lan_tracking_in_use e \<longleftrightarrow> (in_use e \<or> skipping_in_use e) \<and> lan_tracking_flag e"

definition profile_by_id :: "env \<Rightarrow> int \<Rightarrow> profile option" where
  "profile_by_id e pid = find (\<lambda>p. prof_id p = pid) (profiles e)"

section \<open>The player app of a User-Agent\<close>

definition media_server_names :: "string list" where
  "media_server_names = [''jellyfin'', ''emby'', ''plex'', ''lavf'']"

definition is_media_server :: "env \<Rightarrow> string option \<Rightarrow> string option \<Rightarrow> bool" where
  "is_media_server e user_agent ip \<longleftrightarrow>
     (case user_agent of
        Some ua \<Rightarrow> (\<exists>name \<in> set media_server_names. contains name (lower ua))
      | None \<Rightarrow> False) \<or>
     (case ip of Some a \<Rightarrow> a \<noteq> [] \<and> lower a \<in> set (server_hosts e) | None \<Rightarrow> False)"

definition is_recording :: "string option \<Rightarrow> bool" where
  "is_recording user_agent =
     (case user_agent of Some ua \<Rightarrow> starts_with ua ''Dispatcharr-DVR'' | None \<Rightarrow> False)"

text \<open>\<open>_VERSION_RE.sub("", s)\<close>: every \<open>\d+(?:[._]\d+)*\<close> removed.\<close>

fun skip_version :: "string \<Rightarrow> string" where
  "skip_version [] = []"
| "skip_version [c] = (if is_digit c then [] else [c])"
| "skip_version (c # d # cs) =
     (if is_digit c then skip_version (d # cs)
      else if (c = CHR ''.'' \<or> c = CHR ''_'') \<and> is_digit d then skip_version cs
      else c # d # cs)"

lemma skip_version_length: "length (skip_version s) \<le> length s"
  by (induction s rule: skip_version.induct) auto

function strip_versions :: "string \<Rightarrow> string" where
  "strip_versions [] = []"
| "strip_versions (c # cs) =
     (if is_digit c then strip_versions (skip_version cs) else c # strip_versions cs)"
  by pat_completeness auto
termination
  by (relation "measure length") (auto simp: le_imp_less_Suc skip_version_length)

text \<open>\<open>re.sub(r"\s+", " ", s)\<close>.\<close>

fun collapse_spaces :: "string \<Rightarrow> string" where
  "collapse_spaces [] = []"
| "collapse_spaces [c] = [if is_space c then CHR '' '' else c]"
| "collapse_spaces (c # d # cs) =
     (if is_space c
      then (if is_space d then collapse_spaces (d # cs) else CHR '' '' # collapse_spaces (d # cs))
      else c # collapse_spaces (d # cs))"

definition app_name :: "env \<Rightarrow> string option \<Rightarrow> string option \<Rightarrow> string option" where
  "app_name e user_agent ip =
     (case user_agent of
        None \<Rightarrow> None
      | Some ua \<Rightarrow>
          (if ua = [] \<or> is_media_server e user_agent ip \<or> is_recording user_agent then None
           else (let app = strip (collapse_spaces (strip_versions ua))
                 in if app = [] then None else Some app)))"

section \<open>Viewers\<close>

record viewer =
  v_ip :: "string option"
  user_id :: "int option"
  recording :: bool
  app :: "string option"
  server_device :: "string option"
  multiview :: "string option"
  max_quality :: "string option"

definition mk_viewer :: "string option \<Rightarrow> int option \<Rightarrow> viewer" where
  "mk_viewer ip user =
     \<lparr>v_ip = ip, user_id = user, recording = False, app = None, server_device = None,
      multiview = None, max_quality = None\<rparr>"

definition is_viewer_request :: "viewer option \<Rightarrow> bool" where
  "is_viewer_request v = (case v of None \<Rightarrow> False | Some w \<Rightarrow> \<not> recording w)"

text \<open>\<open>x or None\<close> of a text.\<close>

definition or_none :: "string \<Rightarrow> string option" where
  "or_none s = (if s = [] then None else Some s)"

text \<open>\<open>_server_device\<close>: what a media server answers, the four ways it is asked in turn.\<close>

record server_answers =
  sole_device :: "string option"
  switching_device :: "string option"
  awaited_device :: "string option"
  device_a_moment_ago :: "string option"

definition server_device_of ::
  "env \<Rightarrow> server_answers \<Rightarrow> string option \<Rightarrow> string option \<Rightarrow> string option" where
  "server_device_of e ans user_agent ip =
     (if \<not> is_media_server e user_agent ip then None
      else case sole_device ans of
        Some d \<Rightarrow> Some (''server|'' @ d)
      | None \<Rightarrow>
          (case switching_device ans of
             Some k \<Rightarrow> Some k
           | None \<Rightarrow>
               (case awaited_device ans of
                  Some d \<Rightarrow> Some (''server|'' @ d)
                | None \<Rightarrow> map_option (\<lambda>d. ''server|'' @ d) (device_a_moment_ago ans))))"

definition viewer_from_request ::
  "env \<Rightarrow> settings \<Rightarrow> server_answers \<Rightarrow> request \<Rightarrow> int option \<Rightarrow> string option \<Rightarrow>
   viewer option" where
  "viewer_from_request e st ans req user client_ip =
     (case client_ip of
        None \<Rightarrow> None
      | Some ip \<Rightarrow>
          (if ip = [] then None
           else
             (let user_agent = map_of (META req) ''HTTP_USER_AGENT'' in
              if is_recording user_agent
              then Some ((mk_viewer client_ip None)\<lparr>recording := True\<rparr>)
              else
                (let device = declared_device st req in
                 if device \<noteq> [] then
                   Some ((mk_viewer client_ip user)
                     \<lparr>app := app_name e user_agent client_ip,
                      server_device := Some (device_key user device),
                      multiview := or_none (declared_multiview st req),
                      max_quality := or_none (declared_max_quality st req)\<rparr>)
                 else
                   Some ((mk_viewer client_ip user)
                     \<lparr>app := app_name e user_agent client_ip,
                      server_device := server_device_of e ans user_agent client_ip\<rparr>)))))"

section \<open>Telling viewers apart\<close>

definition text_or :: "string \<Rightarrow> string option \<Rightarrow> string" where
  "text_or d s = (case s of None \<Rightarrow> d | Some t \<Rightarrow> t)"

definition uid :: "viewer \<Rightarrow> int" where
  "uid v = (case user_id v of None \<Rightarrow> 0 | Some n \<Rightarrow> n)"

definition viewer_key :: "viewer \<Rightarrow> string" where
  "viewer_key v = text_or ''None'' (v_ip v) @ CHR ''|'' # dec (uid v)"

definition player_key :: "viewer \<Rightarrow> string" where
  "player_key v =
     viewer_key v @ CHR ''|'' # text_or [] (app v) @ CHR ''|'' # text_or [] (server_device v)"

text \<open>
  \<open>_lan_device_key\<close>. (Only IPv4 addresses are read, see \<^verbatim>\<open>Lan_Subnets\<close>, so the IPv4-mapped
  IPv6 addresses the code also unwraps are no address here.)
\<close>

definition lan_device_key :: "viewer \<Rightarrow> account option \<Rightarrow> string option" where
  "lan_device_key v m3u =
     (case (m3u, app v, v_ip v) of
        (Some a, Some ap, Some ip) \<Rightarrow>
          (if recording v \<or> ap = [] \<or> \<not> account_tracks_lan_devices a then None
           else case ip_address ip of
                  None \<Rightarrow> None
                | Some w \<Rightarrow>
                    (if list_ex (in_network w) (account_lan_subnets a)
                     then Some (''lan|'' @ ip @ CHR ''|'' # dec (uid v) @ CHR ''|'' # ap)
                     else None))
      | _ \<Rightarrow> None)"

definition identity_key :: "viewer \<Rightarrow> account option \<Rightarrow> string" where
  "identity_key v m3u =
     (if recording v then ''recording|'' @ text_or ''None'' (v_ip v)
      else case server_device v of
             Some d \<Rightarrow> (if d \<noteq> [] then d else text_or (viewer_key v) (lan_device_key v m3u))
           | None \<Rightarrow> text_or (viewer_key v) (lan_device_key v m3u))"

definition is_identified :: "viewer option \<Rightarrow> account option \<Rightarrow> bool" where
  "is_identified v m3u =
     (case v of
        None \<Rightarrow> False
      | Some w \<Rightarrow> \<not> recording w \<and>
          (user_id w \<noteq> None \<or> server_device w \<noteq> None \<or> lan_device_key w m3u \<noteq> None))"

definition may_be_identified :: "env \<Rightarrow> viewer option \<Rightarrow> bool" where
  "may_be_identified e v =
     (case v of
        None \<Rightarrow> False
      | Some w \<Rightarrow> \<not> recording w \<and>
          (user_id w \<noteq> None \<or> server_device w \<noteq> None \<or>
           (text_or [] (app w) \<noteq> [] \<and> lan_tracking_in_use e)))"

text \<open>The reasons of \<open>why_not_identified\<close>, in the order the code tries them.\<close>

datatype not_identified =
  Server_did_not_say | No_overlap_account | No_player_named | No_lan_subnets | Outside_subnets

definition why_not_identified :: "env \<Rightarrow> viewer \<Rightarrow> not_identified" where
  "why_not_identified e v =
     (if is_media_server e (app v) (v_ip v) then Server_did_not_say
      else if user_id v \<noteq> None then No_overlap_account
      else if text_or [] (app v) = [] then No_player_named
      else if \<not> lan_tracking_in_use e then No_lan_subnets
      else Outside_subnets)"

section \<open>Viewers kept in Redis\<close>

definition client_user_id :: "string option \<Rightarrow> int option" where
  "client_user_id value =
     (case value of
        None \<Rightarrow> None
      | Some s \<Rightarrow> (if s = [] \<or> s = ''0'' then None else parse_int s))"

definition viewer_member :: "viewer \<Rightarrow> string" where
  "viewer_member v = player_key v"

definition viewer_from_member :: "string \<Rightarrow> viewer option" where
  "viewer_from_member member =
     (case split_on (CHR ''|'') member of
        [] \<Rightarrow> None
      | [_] \<Rightarrow> None
      | ip # user # rest \<Rightarrow>
          Some ((mk_viewer (Some ip) (client_user_id (Some user)))
            \<lparr>app := (case rest of [] \<Rightarrow> None | a # _ \<Rightarrow> or_none a),
             server_device := or_none (join ''|'' (tl rest))\<rparr>))"

text \<open>A client's metadata hash, its fields read as texts.\<close>

type_synonym client = "(string \<times> rval) list"

fun val_text :: "rval \<Rightarrow> string option" where
  "val_text (VStr s) = Some s"
| "val_text (VInt n) = Some (dec n)"
| "val_text _ = None"

definition client_field :: "client \<Rightarrow> string \<Rightarrow> string option" where
  "client_field c f = Option.bind (map_of c f) val_text"

definition client_viewer :: "env \<Rightarrow> client \<Rightarrow> viewer" where
  "client_viewer e c =
     \<lparr>v_ip = client_field c ''ip_address'',
      user_id = client_user_id (client_field c ''user_id''),
      recording = is_recording (client_field c ''user_agent''),
      app = app_name e (client_field c ''user_agent'') (client_field c ''ip_address''),
      server_device = or_none (text_or [] (client_field c ''server_device'')),
      multiview = or_none (text_or [] (client_field c ''multiview'')),
      max_quality = None\<rparr>"

definition is_viewer :: "env \<Rightarrow> viewer \<Rightarrow> client \<Rightarrow> account option \<Rightarrow> bool" where
  "is_viewer e v c m3u \<longleftrightarrow>
     \<not> recording (client_viewer e c) \<and> \<not> recording v \<and>
     identity_key (client_viewer e c) m3u = identity_key v m3u"

text \<open>\<open>record_client_viewer\<close>: a newly registered client, remembered with its viewer.\<close>

definition CHANNEL_VIEWERS_TTL :: int where "CHANNEL_VIEWERS_TTL = 24 * 60 * 60"

definition record_client_viewer ::
  "'s redis_api \<Rightarrow> env \<Rightarrow> string \<Rightarrow> string \<Rightarrow> viewer option \<Rightarrow> 's \<Rightarrow> 's" where
  "record_client_viewer R e channel client v s =
     (case v of
        None \<Rightarrow> s
      | Some w \<Rightarrow>
          (if recording w \<or>
              \<not> (in_use e \<or> skipping_in_use e \<or> is_declared (server_device w)) then s
           else
             (let key = Channel_viewers channel;
                  s1 = r_expire R (r_sadd R s key (viewer_member w)) key CHANNEL_VIEWERS_TTL;
                  meta = Live (Client_metadata channel client);
                  s2 = (case server_device w of
                          Some d \<Rightarrow> (if d = [] then s1 else r_hset R s1 meta ''server_device'' (VStr d))
                        | None \<Rightarrow> s1)
              in (case multiview w of
                    Some m \<Rightarrow> (if m = [] then s2 else r_hset R s2 meta ''multiview'' (VStr m))
                  | None \<Rightarrow> s2))))"

section \<open>An app update is not another app\<close>

text \<open>A version number as the User-Agents write it: digits, with dots or underscores between.\<close>

fun is_version :: "string \<Rightarrow> bool" where
  "is_version [] = False"
| "is_version [c] = is_digit c"
| "is_version (c # d # cs) =
     (is_digit c \<and>
      (is_version (d # cs) \<or> ((d = CHR ''.'' \<or> d = CHR ''_'') \<and> is_version cs)))"

text \<open>What follows a version in the text without belonging to it.\<close>

fun ends_version :: "string \<Rightarrow> bool" where
  "ends_version [] = True"
| "ends_version [c] = (\<not> is_digit c)"
| "ends_version (c # d # cs) =
     (\<not> is_digit c \<and> \<not> ((c = CHR ''.'' \<or> c = CHR ''_'') \<and> is_digit d))"

lemma skip_version_end: "ends_version b \<Longrightarrow> skip_version b = b"
  by (cases b rule: skip_version.cases) auto

lemma skip_version_digit: "is_digit c \<Longrightarrow> skip_version (c # cs) = skip_version cs"
  by (cases cs) auto

lemma sep_not_digit: "\<not> is_digit (CHR ''.'')" "\<not> is_digit (CHR ''_'')"
  by (simp_all add: is_digit_def)

lemma is_version_head: "is_version v \<Longrightarrow> v \<noteq> [] \<and> is_digit (hd v)"
  by (cases v rule: is_version.cases) auto

lemma skip_whole_version:
  "is_version v \<Longrightarrow> ends_version b \<Longrightarrow> skip_version (v @ b) = b"
proof (induction v rule: is_version.induct)
  case (2 c)
  then show ?case by (simp add: skip_version_digit skip_version_end)
next
  case (3 c d cs)
  from 3(3) have c: "is_digit c" by simp
  show ?case
  proof (cases "is_version (d # cs)")
    case True
    with 3(1,4) c show ?thesis by simp
  next
    case False
    with 3(3) have d: "d = CHR ''.'' \<or> d = CHR ''_''" and v: "is_version cs" by auto
    then obtain x xs where cs: "cs = x # xs" and x: "is_digit x"
      using is_version_head by (metis list.exhaust_sel)
    have "skip_version (cs @ b) = b" using 3(2,4) v by simp
    with cs x have "skip_version (xs @ b) = b" by (simp add: skip_version_digit)
    with c d cs x show ?thesis by (auto simp: sep_not_digit)
  qed
qed auto

text \<open>A text after which a version starts afresh.\<close>

definition closed :: "string \<Rightarrow> bool" where
  "closed a \<longleftrightarrow> a \<noteq> [] \<and> \<not> is_digit (last a) \<and> last a \<noteq> CHR ''.'' \<and> last a \<noteq> CHR ''_''"

lemma closed_Cons: "closed (c # cs) \<Longrightarrow> cs \<noteq> [] \<Longrightarrow> closed cs"
  by (simp add: closed_def)

lemma skip_version_append:
  "closed a \<Longrightarrow> skip_version (a @ b) = skip_version a @ b \<and> closed (skip_version a)"
proof (induction a rule: skip_version.induct)
  case (2 c)
  then show ?case by (cases b) (auto simp: closed_def)
next
  case (3 c d cs)
  from 3(3) have dcs: "closed (d # cs)" by (auto dest: closed_Cons)
  have "is_digit d \<Longrightarrow> closed cs"
    using dcs closed_Cons [of d cs] by (cases "cs = []") (auto simp: closed_def)
  with 3 dcs show ?case by (auto simp: sep_not_digit)
qed (simp add: closed_def)

lemma strip_versions_append:
  "a = [] \<or> closed a \<Longrightarrow> strip_versions (a @ b) = strip_versions a @ strip_versions b"
proof (induction a rule: strip_versions.induct)
  case (2 c cs)
  show ?case
  proof (cases "is_digit c")
    case True
    with 2(3) have "closed cs" using closed_Cons [of c cs] by (cases "cs = []") (auto simp: closed_def)
    with True 2(1) show ?thesis by (simp add: skip_version_append)
  next
    case False
    with 2(2,3) show ?thesis using closed_Cons [of c cs] by (cases "cs = []") auto
  qed
qed simp

lemma strip_versions_version:
  assumes "is_version v" and "ends_version b"
  shows "strip_versions (v @ b) = strip_versions b"
proof -
  obtain c cs where v: "v = c # cs" "is_digit c"
    using is_version_head [OF assms(1)] by (cases v) auto
  then have "skip_version (cs @ b) = b"
    using skip_whole_version [OF assms] by (simp add: skip_version_digit)
  with v show ?thesis by simp
qed

text \<open>Only the version differs: the same app.\<close>

lemma strip_versions_update:
  assumes "a = [] \<or> closed a" and "ends_version b" and "is_version v" and "is_version w"
  shows "strip_versions (a @ v @ b) = strip_versions (a @ w @ b)"
  using assms by (simp add: strip_versions_append strip_versions_version)

lemma skip_version_subset: "set (skip_version s) \<subseteq> set s"
  by (induction s rule: skip_version.induct) auto

lemma strip_versions_no_digit: "c \<in> set (strip_versions s) \<Longrightarrow> \<not> is_digit c"
  by (induction s rule: strip_versions.induct) (auto split: if_splits)

lemma collapse_spaces_set: "set (collapse_spaces s) \<subseteq> insert (CHR '' '') (set s)"
  by (induction s rule: collapse_spaces.induct) auto

lemma lstrip_set: "set (lstrip s) \<subseteq> set s"
  by (auto simp: lstrip_def dest: set_dropWhileD)

lemma strip_set: "set (strip s) \<subseteq> set s"
  using lstrip_set [of s] lstrip_set [of "rev (lstrip s)"] by (simp add: strip_def subset_trans)

lemma app_name_no_digit:
  assumes "app_name e ua ip = Some a"
  shows "\<forall>c \<in> set a. \<not> is_digit c"
proof -
  obtain u where a: "a = strip (collapse_spaces (strip_versions u))"
    using assms by (auto simp: app_name_def Let_def split: option.splits if_splits)
  have "\<not> is_digit (CHR '' '')" by (simp add: is_digit_def)
  moreover have "set a \<subseteq> insert (CHR '' '') (set (strip_versions u))"
    using a strip_set collapse_spaces_set by fast
  ultimately show ?thesis using strip_versions_no_digit by blast
qed

section \<open>Kept viewers are read back\<close>

definition bar_free :: "string \<Rightarrow> bool" where
  "bar_free s \<longleftrightarrow> CHR ''|'' \<notin> set s"

lemma join_Cons: "join sep ((c # p) # ps) = c # join sep (p # ps)"
  by (cases ps) auto

lemma join_Nil: "ps \<noteq> [] \<Longrightarrow> join sep ([] # ps) = sep @ join sep ps"
  by (cases ps) auto

lemma join_split: "join [sep] (split_on sep s) = s"
proof (induction s)
  case (Cons c cs)
  then show ?case
    using split_on_nonempty [of sep cs]
    by (cases "split_on sep cs") (auto simp: join_Cons join_Nil)
qed simp

lemma split_bar: "bar_free a \<Longrightarrow> split_on (CHR ''|'') (a @ CHR ''|'' # t) = a # split_on (CHR ''|'') t"
  by (simp add: bar_free_def split_on_append)

lemma bar_free_dec [simp]: "bar_free (dec i)"
  by (simp add: bar_free_def dec_no_bar)

text \<open>What a viewer that comes from a request or a client is like.\<close>

definition well_formed :: "viewer \<Rightarrow> bool" where
  "well_formed v \<longleftrightarrow>
     (\<exists>ip. v_ip v = Some ip \<and> bar_free ip) \<and> user_id v \<noteq> Some 0 \<and>
     (\<forall>a. app v = Some a \<longrightarrow> a \<noteq> [] \<and> bar_free a) \<and> server_device v \<noteq> Some []"

lemma client_user_id_dec [simp]: "client_user_id (Some (dec i)) = (if i = 0 then None else Some i)"
proof -
  have "dec 0 = ''0''" by code_simp
  then have "dec i = ''0'' \<longleftrightarrow> i = 0" by (metis dec_inj)
  then show ?thesis by (simp add: client_user_id_def)
qed

lemma viewer_member_round_trip:
  assumes "well_formed v"
  shows "viewer_from_member (viewer_member v) =
         Some (v\<lparr>recording := False, multiview := None, max_quality := None\<rparr>)"
proof -
  obtain ip where ip: "v_ip v = Some ip" "bar_free ip" using assms by (auto simp: well_formed_def)
  have app: "bar_free (text_or [] (app v))" and a: "or_none (text_or [] (app v)) = app v"
    using assms by (cases "app v"; auto simp: well_formed_def text_or_def bar_free_def or_none_def)+
  have d: "or_none (text_or [] (server_device v)) = server_device v"
    using assms by (cases "server_device v") (auto simp: well_formed_def text_or_def or_none_def)
  have u: "(if uid v = 0 then None else Some (uid v)) = user_id v"
    using assms by (cases "user_id v") (auto simp: well_formed_def uid_def)
  have "split_on (CHR ''|'') (viewer_member v) =
        ip # dec (uid v) # text_or [] (app v) # split_on (CHR ''|'') (text_or [] (server_device v))"
    using ip app by (simp add: viewer_member_def player_key_def viewer_key_def text_or_def split_bar)
  then show ?thesis
    using ip by (simp add: viewer_from_member_def mk_viewer_def join_split a d u)
qed

section \<open>One key, one viewer\<close>

lemma identity_key_cases:
  assumes "\<not> recording v" and "server_device v = None"
  shows "identity_key v m3u = viewer_key v \<or>
         (\<exists>ip a. v_ip v = Some ip \<and> app v = Some a \<and>
            identity_key v m3u = ''lan|'' @ ip @ CHR ''|'' # dec (uid v) @ CHR ''|'' # a)"
  using assms
  by (auto simp: identity_key_def lan_device_key_def text_or_def split: option.splits if_splits)

lemma split_viewer_key:
  "v_ip v = Some ip \<Longrightarrow> bar_free ip \<Longrightarrow> split_on (CHR ''|'') (viewer_key v) = [ip, dec (uid v)]"
  using split_on_no_sep [OF dec_no_bar] by (simp add: viewer_key_def text_or_def split_bar)

lemma split_lan:
  assumes "bar_free ip"
  shows "split_on (CHR ''|'') (''lan|'' @ ip @ CHR ''|'' # dec u @ CHR ''|'' # a) =
         [''lan'', ip, dec u] @ split_on (CHR ''|'') a"
proof -
  have "split_on (CHR ''|'') (''lan'' @ CHR ''|'' # t) = ''lan'' # split_on (CHR ''|'') t" for t
    by (rule split_bar) (simp add: bar_free_def)
  then show ?thesis using assms by (simp add: split_bar)
qed

lemma identity_key_parts:
  assumes "\<not> recording x" and "server_device x = None" and "v_ip x = Some k" and "bar_free k"
  shows "split_on (CHR ''|'') (identity_key x m3u) = [k, dec (uid x)] \<or>
    (\<exists>rest. rest \<noteq> [] \<and>
       split_on (CHR ''|'') (identity_key x m3u) = [''lan'', k, dec (uid x)] @ rest)"
  using identity_key_cases [OF assms(1,2), of m3u]
proof (elim disjE exE conjE)
  assume "identity_key x m3u = viewer_key x"
  then show ?thesis using split_viewer_key [OF assms(3,4)] by simp
next
  fix ip a
  assume ip: "v_ip x = Some ip"
    and key: "identity_key x m3u = ''lan|'' @ ip @ CHR ''|'' # dec (uid x) @ CHR ''|'' # a"
  from ip assms(3) have "ip = k" by simp
  then have "split_on (CHR ''|'') (identity_key x m3u) =
      [''lan'', k, dec (uid x)] @ split_on (CHR ''|'') a"
    unfolding key using split_lan [OF assms(4)] by (simp only:)
  then show ?thesis using split_on_nonempty by metis
qed

text \<open>A viewer no media server or app named is never taken for one of another address or login.\<close>

lemma identity_key_sound:
  assumes v: "\<not> recording v" "server_device v = None" "v_ip v = Some i" "bar_free i"
    and w: "\<not> recording w" "server_device w = None" "v_ip w = Some j" "bar_free j"
    and eq: "identity_key v m3u = identity_key w m3u"
  shows "i = j \<and> uid v = uid w"
  using identity_key_parts [OF v, of m3u] identity_key_parts [OF w, of m3u] unfolding eq by auto

text \<open>A device an app declared is a viewer of its own: nobody undeclared has its key.\<close>

lemma declared_key_apart:
  assumes "list_all id_char d" and "\<not> recording w" and "server_device w = None"
    and "v_ip w = Some j" and "bar_free j"
  shows "device_key u d \<noteq> identity_key w m3u"
proof
  assume "device_key u d = identity_key w m3u"
  then have "split_on (CHR ''|'') (identity_key w m3u) =
      [''app'', dec (case u of None \<Rightarrow> 0 | Some n \<Rightarrow> n), d]"
    using device_key_parts [of u d] split_on_no_sep [OF id_char_no_bar [OF assms(1)]] by simp
  then show False
    using identity_key_parts [OF assms(2-5), of m3u] by auto
qed

text \<open>Without LAN tracking on the account the player app does not count.\<close>

lemma identity_key_coarse:
  "\<not> recording v \<Longrightarrow> server_device v = None \<Longrightarrow> \<not> account_tracks_lan_devices a \<Longrightarrow>
   identity_key v (Some a) = viewer_key v"
  by (auto simp: identity_key_def lan_device_key_def text_or_def split: option.splits)

lemma is_identified_request: "is_identified (Some v) m3u \<Longrightarrow> \<not> recording v"
  by (simp add: is_identified_def)

lemma identified_may_be:
  assumes "is_identified (Some v) (Some a)" and "in_use e \<or> skipping_in_use e"
    and "account_tracks_lan_devices a \<Longrightarrow> lan_tracking_flag e"
  shows "may_be_identified e (Some v)"
  using assms
  by (auto simp: is_identified_def may_be_identified_def lan_device_key_def lan_tracking_in_use_def
      text_or_def split: option.splits if_splits)

section \<open>Values the witnesses are evaluated on\<close>

definition ex_env :: env where
  "ex_env =
     \<lparr>in_use = True, skipping_in_use = True, lan_tracking_flag = False, server_hosts = [],
      profiles = [ex_profile], default_stream_profile = \<lparr>sp_id = 1, is_redirect = False\<rparr>,
      stream_check = None, app_settings = DEFAULTS, now = 100\<rparr>"

lemma ex_env_simps [simp]:
  "in_use ex_env" "skipping_in_use ex_env" "profiles ex_env = [ex_profile]" "now ex_env = 100"
  "profile_by_id ex_env 1 = Some ex_profile"
  by (simp_all add: ex_env_def profile_by_id_def)

definition ex_viewer :: viewer where
  "ex_viewer = mk_viewer (Some ''10.0.0.5'') (Some 3)"

lemma ex_viewer_simps [simp]:
  "recording ex_viewer = False" "server_device ex_viewer = None" "user_id ex_viewer = Some 3"
  "v_ip ex_viewer = Some ''10.0.0.5''"
  by (simp_all add: ex_viewer_def mk_viewer_def)

lemma ex_viewer_key: "identity_key ex_viewer (Some ex_account) = ''10.0.0.5|3''"
  by code_simp

end
