(* ===== verification/Live_Channels.thy ===== *)
theory Live_Channels
  imports Viewers
begin

text \<open>
  The live channels as they stand in Redis and who is on them
  (\<^verbatim>\<open>apps/proxy/live_proxy/probation.py\<close>, Active channels and their clients;
  \<^verbatim>\<open>live_proxy/constants.py\<close>): a channel's metadata hash with its state and the profile it
  streams on, the clients' hashes, the markers of a stop under way, and the channels a
  viewer is watching.
\<close>

section \<open>Channel states\<close>

datatype channel_state =
  Initializing | Connecting | Waiting_for_clients | Active | Error_state | Stopping | Stopped | Buffering

fun state_text :: "channel_state \<Rightarrow> string" where
  "state_text Initializing = ''initializing''"
| "state_text Connecting = ''connecting''"
| "state_text Waiting_for_clients = ''waiting_for_clients''"
| "state_text Active = ''active''"
| "state_text Error_state = ''error''"
| "state_text Stopping = ''stopping''"
| "state_text Stopped = ''stopped''"
| "state_text Buffering = ''buffering''"

definition PRE_ACTIVE :: "channel_state list" where
  "PRE_ACTIVE = [Initializing, Connecting, Buffering, Waiting_for_clients]"

lemma state_text_inj [simp]: "state_text a = state_text b \<longleftrightarrow> a = b"
  by (cases a; cases b) simp_all

section \<open>Reading a channel\<close>

abbreviation metadata :: "string \<Rightarrow> rkey" where
  "metadata c \<equiv> Live (Channel_metadata c)"

definition channel_state_of :: "'s redis_api \<Rightarrow> 's \<Rightarrow> string \<Rightarrow> string option" where
  "channel_state_of R s c = Option.bind (r_hget R s (metadata c) ''state'') val_text"

text \<open>
  \<open>_active_channels\<close>: the channels that have a metadata hash, with the profile in it. The
  profile field is written as an integer only.
\<close>

definition profile_field :: "'s redis_api \<Rightarrow> 's \<Rightarrow> string \<Rightarrow> int option" where
  "profile_field R s c = Option.bind (r_hget R s (metadata c) ''m3u_profile'') val_int"

fun metadata_channel :: "rkey \<Rightarrow> string option" where
  "metadata_channel (Live (Channel_metadata c)) = Some c"
| "metadata_channel _ = None"

definition active_channels :: "'s redis_api \<Rightarrow> 's \<Rightarrow> (string \<times> int option) list" where
  "active_channels R s =
     map (\<lambda>c. (c, profile_field R s c)) (List.map_filter metadata_channel (r_hkeys R s))"

definition channel_clients :: "'s redis_api \<Rightarrow> 's \<Rightarrow> string \<Rightarrow> client list" where
  "channel_clients R s c =
     map (\<lambda>cl. r_hash R s (Live (Client_metadata c cl))) (r_members R s (Live (Clients c)))"

definition dispatcharr_is_stopping :: "'s redis_api \<Rightarrow> 's \<Rightarrow> string \<Rightarrow> bool" where
  "dispatcharr_is_stopping R s c \<longleftrightarrow>
     r_exists R s (Live (Channel_stopping c)) \<or>
     channel_state_of R s c = Some (state_text Stopping)"

definition being_stopped :: "'s redis_api \<Rightarrow> 's \<Rightarrow> string \<Rightarrow> bool" where
  "being_stopped R s c \<longleftrightarrow>
     r_exists R s (Live (Channel_stopping c)) \<or> r_exists R s (Skipped_stopping c) \<or>
     channel_state_of R s c = Some (state_text Stopping)"

definition stop_was_requested :: "'s redis_api \<Rightarrow> 's \<Rightarrow> string \<Rightarrow> bool" where
  "stop_was_requested R s c \<longleftrightarrow>
     r_exists R s (Live (Channel_stopping c)) \<or>
     channel_state_of R s c = Some (state_text Stopping) \<or>
     list_ex (\<lambda>cl. r_exists R s (Live (Client_stop c cl))) (r_members R s (Live (Clients c)))"

definition waiting_for_shutdown :: "'s redis_api \<Rightarrow> 's \<Rightarrow> string \<Rightarrow> bool" where
  "waiting_for_shutdown R s c \<longleftrightarrow>
     (case channel_state_of R s c of
        None \<Rightarrow> False
      | Some st \<Rightarrow> st \<notin> set (map state_text PRE_ACTIVE)) \<and>
     r_exists R s (Live (Last_client_disconnect c)) \<and>
     r_members R s (Live (Clients c)) = [] \<and>
     \<not> being_stopped R s c"

section \<open>Whose channel it is\<close>

definition only_viewer_was :: "'s redis_api \<Rightarrow> 's \<Rightarrow> string \<Rightarrow> viewer \<Rightarrow> account option \<Rightarrow> bool" where
  "only_viewer_was R s c v m3u \<longleftrightarrow>
     (let members = List.map_filter viewer_from_member (r_members R s (Channel_viewers c))
      in members \<noteq> [] \<and> list_all (\<lambda>m. identity_key m m3u = identity_key v m3u) members)"

text \<open>\<open>_accounts_for_profiles\<close>: loaded only while any account tracks LAN devices.\<close>

definition account_for_profile :: "env \<Rightarrow> int \<Rightarrow> account option" where
  "account_for_profile e pid =
     (if lan_tracking_in_use e then map_option m3u_account (profile_by_id e pid) else None)"

definition is_watching :: "'s redis_api \<Rightarrow> env \<Rightarrow> 's \<Rightarrow> viewer \<Rightarrow> string \<Rightarrow> int \<Rightarrow> bool" where
  "is_watching R e s v c pid \<longleftrightarrow>
     (let m3u = account_for_profile e pid; clients = channel_clients R s c in
      list_ex (\<lambda>cl. is_viewer e v cl m3u) clients \<or>
      (clients = [] \<and> waiting_for_shutdown R s c \<and> only_viewer_was R s c v m3u))"

fun watched_from ::
  "'s redis_api \<Rightarrow> env \<Rightarrow> 's \<Rightarrow> viewer \<Rightarrow> (string \<times> int option) list \<Rightarrow>
   (int \<times> string) list \<Rightarrow> (int \<times> string) list" where
  "watched_from R e s v [] watched = watched"
| "watched_from R e s v ((c, None) # cs) watched = watched_from R e s v cs watched"
| "watched_from R e s v ((c, Some pid) # cs) watched =
     watched_from R e s v cs
       (if pid \<in> fst ` set watched then watched
        else if is_watching R e s v c pid then watched @ [(pid, c)] else watched)"

definition watched_channels_by ::
  "'s redis_api \<Rightarrow> env \<Rightarrow> 's \<Rightarrow> viewer option \<Rightarrow> (int \<times> string) list" where
  "watched_channels_by R e s v =
     (case v of
        None \<Rightarrow> []
      | Some w \<Rightarrow> (if recording w then [] else watched_from R e s w (active_channels R s) []))"

section \<open>Lemmas\<close>

lemma watched_from_sound:
  "(pid, c) \<in> set (watched_from R e s v cs acc) \<Longrightarrow>
   (pid, c) \<in> set acc \<or> ((c, Some pid) \<in> set cs \<and> is_watching R e s v c pid)"
  by (induction R e s v cs acc rule: watched_from.induct) (auto split: if_splits)

lemma watched_from_mono: "set acc \<subseteq> set (watched_from R e s v cs acc)"
  by (induction R e s v cs acc rule: watched_from.induct) (auto split: if_splits)

lemma watched_from_complete:
  "(c, Some pid) \<in> set cs \<Longrightarrow> is_watching R e s v c pid \<Longrightarrow>
   pid \<in> fst ` set (watched_from R e s v cs acc)"
proof (induction R e s v cs acc rule: watched_from.induct)
  case (3 R e s v c' pid' cs watched)
  let ?w = "if pid' \<in> fst ` set watched then watched
            else if is_watching R e s v c' pid' then watched @ [(pid', c')] else watched"
  show ?case
  proof (cases "c = c' \<and> pid = pid'")
    case True
    then have "pid \<in> fst ` set ?w" using 3(3) by auto
    moreover have "fst ` set ?w \<subseteq> fst ` set (watched_from R e s v cs ?w)"
      by (intro image_mono watched_from_mono)
    ultimately show ?thesis unfolding watched_from.simps by blast
  next
    case False
    with 3 show ?thesis by auto
  qed
qed auto

lemma watched_from_distinct:
  "distinct (map fst acc) \<Longrightarrow> distinct (map fst (watched_from R e s v cs acc))"
  by (induction R e s v cs acc rule: watched_from.induct) auto

lemma active_channels_iff:
  assumes "set (r_hkeys R s) = {k. r_hash R s k \<noteq> []}"
  shows "(c, p) \<in> set (active_channels R s) \<longleftrightarrow>
         r_hash R s (metadata c) \<noteq> [] \<and> p = profile_field R s c"
proof -
  have "metadata_channel k = Some c \<longleftrightarrow> k = metadata c" for k c
    by (cases k rule: metadata_channel.cases) auto
  then have "c \<in> set (List.map_filter metadata_channel (r_hkeys R s)) \<longleftrightarrow>
      metadata c \<in> set (r_hkeys R s)"
    by (force simp: map_filter_def)
  then show ?thesis using assms by (auto simp: active_channels_def)
qed

text \<open>What a profile a viewer watches on means, for either direction.\<close>

lemma watched_sound:
  assumes "(pid, c) \<in> set (watched_channels_by R e s v)"
  shows "\<exists>w. v = Some w \<and> \<not> recording w \<and> (c, Some pid) \<in> set (active_channels R s) \<and>
             is_watching R e s w c pid"
  using assms watched_from_sound [of pid c R e s _ "active_channels R s" "[]"]
  by (auto simp: watched_channels_by_def split: option.splits if_splits)

lemma watched_complete:
  assumes "(c, Some pid) \<in> set (active_channels R s)" and "is_watching R e s w c pid"
    and "\<not> recording w"
  shows "\<exists>c'. (pid, c') \<in> set (watched_channels_by R e s (Some w))"
  using watched_from_complete [OF assms(1,2), of "[]"] assms(3)
  by (auto simp: watched_channels_by_def)

lemma watched_distinct: "distinct (map fst (watched_channels_by R e s v))"
  by (auto simp: watched_channels_by_def watched_from_distinct split: option.splits)

lemma waiting_not_stopped: "waiting_for_shutdown R s c \<Longrightarrow> \<not> being_stopped R s c"
  by (simp add: waiting_for_shutdown_def)

lemma stopping_kinds:
  "dispatcharr_is_stopping R s c \<Longrightarrow> being_stopped R s c \<and> stop_was_requested R s c"
  by (auto simp: dispatcharr_is_stopping_def being_stopped_def stop_was_requested_def)

end
