(* ===== verification/Slot_Holds.thy ===== *)
theory Slot_Holds
  imports Live_Channels
begin

text \<open>
  Holding a released slot for its viewer (\<^verbatim>\<open>apps/proxy/live_proxy/probation.py\<close>): a channel
  about to release its slot keeps it for the one viewer that was watching it, on the
  profile's counter and, where the account shares a login in a server group, on the login's
  counter too; others count the holds as taken; the viewer uses its hold up when it gets a
  slot again.
\<close>

section \<open>Holds\<close>

definition MAX_HOLD_TTL :: int where
  "MAX_HOLD_TTL = max_probation_seconds + 5"

text \<open>
  \<open>_parse_hold\<close>: the expiry and the reference (a login counter's key, a profile id) of a hold.
  A value that is no hold has expired.
\<close>

fun parse_hold :: "rval \<Rightarrow> real \<times> rval option" where
  "parse_hold (VPair (VTime t) (VStr s)) = (t, if s = [] then None else Some (VStr s))"
| "parse_hold (VPair (VTime t) r) = (t, Some r)"
| "parse_hold _ = (0, None)"

text \<open>The viewers on a channel with an address, each identity once: \<open>(key, viewer)\<close>.\<close>

fun distinct_viewers ::
  "env \<Rightarrow> account option \<Rightarrow> client list \<Rightarrow> (string \<times> viewer) list \<Rightarrow> (string \<times> viewer) list" where
  "distinct_viewers e m3u [] acc = acc"
| "distinct_viewers e m3u (c # cs) acc =
     (if text_or [] (client_field c ''ip_address'') = [] then distinct_viewers e m3u cs acc
      else
        (let v = client_viewer e c; k = identity_key v m3u in
         distinct_viewers e m3u cs (if k \<in> fst ` set acc then acc else acc @ [(k, v)])))"

text \<open>Whether, for whom and on which account a slot is held.\<close>

definition hold_for ::
  "'s redis_api \<Rightarrow> env \<Rightarrow> string \<Rightarrow> int \<Rightarrow> 's \<Rightarrow> (string \<times> profile) option" where
  "hold_for R e channel pid s =
     (case profile_by_id e pid of
        None \<Rightarrow> None
      | Some p \<Rightarrow>
          (if max_streams p = 0 \<or> \<not> account_allows_probation (m3u_account p) then None
           else case distinct_viewers e (Some (m3u_account p)) (channel_clients R s channel) [] of
                  [(k, v)] \<Rightarrow>
                    (if recording v \<or> \<not> is_identified (Some v) (Some (m3u_account p)) then None
                     else Some (k, p))
                | _ \<Rightarrow> None))"

fun credential_key :: "rval option \<Rightarrow> rkey option" where
  "credential_key (Some (VKey k)) = Some k"
| "credential_key _ = None"

definition hold_slot ::
  "'s redis_api \<Rightarrow> env \<Rightarrow> string \<Rightarrow> profile \<Rightarrow> 's \<Rightarrow> 's" where
  "hold_slot R e vkey p s =
     (let pid = prof_id p;
          expires_at = now e + of_int (account_probation_seconds (m3u_account p));
          cred = credential_key (r_get R s (Profile_credential_release pid));
          key = Held_slots pid;
          ref = (case cred of None \<Rightarrow> VStr [] | Some k \<Rightarrow> VKey k);
          s1 = r_expire R (r_hset R s key vkey (VPair (VTime expires_at) ref)) key MAX_HOLD_TTL
      in case cred of
           None \<Rightarrow> s1
         | Some k \<Rightarrow>
             r_expire R
               (r_hset R s1 (Held_login_slots k) vkey (VPair (VTime expires_at) (VInt pid)))
               (Held_login_slots k) MAX_HOLD_TTL)"

definition hold_slot_for_viewer ::
  "'s redis_api \<Rightarrow> env \<Rightarrow> string \<Rightarrow> int \<Rightarrow> 's \<Rightarrow> 's" where
  "hold_slot_for_viewer R e channel pid s =
     (if \<not> in_use e then s
      else
        (let s1 = r_del R s (Channel_viewers channel) in
         if r_exists R s1 (No_hold channel) \<or> stop_was_requested R s1 channel then s1
         else case hold_for R e channel pid s1 of
                None \<Rightarrow> s1
              | Some (k, p) \<Rightarrow> hold_slot R e k p s1))"

text \<open>
  \<open>slots_held_for_others\<close>: how many holds count for this request, and the store, from which
  the expired ones are removed.
\<close>

definition held_key :: "profile \<Rightarrow> rkey option \<Rightarrow> rkey" where
  "held_key p cred = (case cred of Some k \<Rightarrow> Held_login_slots k | None \<Rightarrow> Held_slots (prof_id p))"

definition live_holds :: "env \<Rightarrow> (string \<times> rval) list \<Rightarrow> (string \<times> rval) list" where
  "live_holds e holds = filter (\<lambda>(k, v). now e < fst (parse_hold v)) holds"

definition expired_holds :: "env \<Rightarrow> (string \<times> rval) list \<Rightarrow> string list" where
  "expired_holds e holds = map fst (filter (\<lambda>(k, v). fst (parse_hold v) \<le> now e) holds)"

definition by_recording :: "viewer option \<Rightarrow> bool" where
  "by_recording v = (case v of None \<Rightarrow> False | Some w \<Rightarrow> recording w)"

definition slots_held_for_others ::
  "'s redis_api \<Rightarrow> env \<Rightarrow> profile \<Rightarrow> viewer option \<Rightarrow> rkey option \<Rightarrow> 's \<Rightarrow> int \<times> 's" where
  "slots_held_for_others R e p v cred s =
     (if max_streams p = 0 \<or> by_recording v \<or> \<not> in_use e then (0, s)
      else
        (let key = held_key p cred;
             holds = r_hash R s key;
             own = map_option (\<lambda>w. identity_key w (Some (m3u_account p))) v;
             held = int (length (filter (\<lambda>(k, _). Some k \<noteq> own) (live_holds e holds)));
             s' = foldl (\<lambda>t f. r_hdel R t key f) s (expired_holds e holds)
         in if account_allows_probation (m3u_account p) then (held, s') else (0, s')))"

text \<open>A hold's reference, where it is a login counter's key or a profile id.\<close>

definition login_of_hold :: "rval \<Rightarrow> rkey option" where
  "login_of_hold v = credential_key (snd (parse_hold v))"

definition profile_of_hold :: "rval \<Rightarrow> int option" where
  "profile_of_hold v = Option.bind (snd (parse_hold v)) val_int"

definition drop_hold :: "'s redis_api \<Rightarrow> string \<Rightarrow> int \<Rightarrow> 's \<Rightarrow> bool \<times> 's" where
  "drop_hold R vkey pid s =
     (case r_hget R s (Held_slots pid) vkey of
        None \<Rightarrow> (False, s)
      | Some value \<Rightarrow>
          (let s1 = r_hdel R s (Held_slots pid) vkey in
           (True, case login_of_hold value of
                    Some k \<Rightarrow> r_hdel R s1 (Held_login_slots k) vkey
                  | None \<Rightarrow> s1)))"

definition drop_login_hold :: "'s redis_api \<Rightarrow> string \<Rightarrow> rkey \<Rightarrow> 's \<Rightarrow> bool \<times> 's" where
  "drop_login_hold R vkey cred s =
     (case r_hget R s (Held_login_slots cred) vkey of
        None \<Rightarrow> (False, s)
      | Some value \<Rightarrow>
          (let s1 = r_hdel R s (Held_login_slots cred) vkey in
           (True, case profile_of_hold value of
                    Some pid \<Rightarrow> r_hdel R s1 (Held_slots pid) vkey
                  | None \<Rightarrow> s1)))"

text \<open>\<open>take_held_slot\<close>; the flag is whether a hold was used up (and an event recorded).\<close>

definition take_held_slot ::
  "'s redis_api \<Rightarrow> env \<Rightarrow> profile \<Rightarrow> viewer option \<Rightarrow> 's \<Rightarrow> bool \<times> 's" where
  "take_held_slot R e p v s =
     (case v of
        None \<Rightarrow> (False, s)
      | Some w \<Rightarrow>
          (if recording w \<or> max_streams p = 0 \<or> \<not> in_use e then (False, s)
           else
             (let vkey = identity_key w (Some (m3u_account p));
                  (taken, s1) = drop_hold R vkey (prof_id p) s
              in case credential_key (r_get R s1 (Profile_credential_release (prof_id p))) of
                   None \<Rightarrow> (taken, s1)
                 | Some k \<Rightarrow>
                     (let (t2, s2) = drop_login_hold R vkey k s1 in (t2 \<or> taken, s2)))))"

section \<open>What a hold promises\<close>

text \<open>The viewers a counter's slots are held for now: what the operations above refine.\<close>

definition holders :: "'s redis_api \<Rightarrow> env \<Rightarrow> 's \<Rightarrow> rkey \<Rightarrow> string set" where
  "holders R e s key = {k. \<exists>v. r_hget R s key k = Some v \<and> now e < fst (parse_hold v)}"

lemma live_holds_keys:
  assumes "distinct (map fst (r_hash R s key))"
  shows "fst ` set (live_holds e (r_hash R s key)) = holders R e s key"
  using assms by (force simp: live_holds_def holders_def)

lemma live_holds_distinct:
  "distinct (map fst h) \<Longrightarrow> distinct (map fst (live_holds e h))"
  by (simp add: live_holds_def distinct_map_filter)

lemma length_filter_key:
  assumes "distinct (map fst h)"
  shows "length (filter (\<lambda>(k, _). Some k \<noteq> own) h) = card (fst ` set h - set_option own)"
proof -
  have "length (filter (\<lambda>(k, _). Some k \<noteq> own) h) =
        length (filter (\<lambda>k. Some k \<noteq> own) (map fst h))"
    by (simp add: filter_map comp_def case_prod_unfold)
  also have "\<dots> = card (set (filter (\<lambda>k. Some k \<noteq> own) (map fst h)))"
    using assms distinct_filter distinct_card [symmetric] by blast
  also have "set (filter (\<lambda>k. Some k \<noteq> own) (map fst h)) = fst ` set h - set_option own"
    by (cases own) auto
  finally show ?thesis .
qed

context redis
begin

lemma holders_finite: "finite (holders R e s key)"
  using live_holds_keys [OF hash_distinct, of e s key] by (metis List.finite_set finite_imageI)

lemma foldl_hdel:
  "r_count R (foldl (\<lambda>t f. r_hdel R t key f) s fs) = r_count R s"
  "r_get R (foldl (\<lambda>t f. r_hdel R t key f) s fs) = r_get R s"
  "r_members R (foldl (\<lambda>t f. r_hdel R t key f) s fs) = r_members R s"
  "j \<noteq> key \<Longrightarrow> r_hash R (foldl (\<lambda>t f. r_hdel R t key f) s fs) j = r_hash R s j"
  "r_hget R (foldl (\<lambda>t f. r_hdel R t key f) s fs) key k =
     (if k \<in> set fs then None else r_hget R s key k)"
  by (induction fs arbitrary: s) auto

text \<open>Counting holds counts the other holders, and changes nothing but expired holds.\<close>

lemma slots_held_count:
  assumes "max_streams p \<noteq> 0" and "\<not> by_recording v" and "in_use e"
    and "account_allows_probation (m3u_account p)"
  shows "fst (slots_held_for_others R e p v cred s) =
         int (card (holders R e s (held_key p cred) -
                    set_option (map_option (\<lambda>w. identity_key w (Some (m3u_account p))) v)))"
  using assms
  by (auto simp: slots_held_for_others_def Let_def length_filter_key live_holds_distinct
      hash_distinct live_holds_keys)

lemma slots_held_nonneg: "0 \<le> fst (slots_held_for_others R e p v cred s)"
  by (simp add: slots_held_for_others_def Let_def)

lemma slots_held_frame [simp]:
  "r_count R (snd (slots_held_for_others R e p v cred s)) = r_count R s"
  "r_get R (snd (slots_held_for_others R e p v cred s)) = r_get R s"
  "r_members R (snd (slots_held_for_others R e p v cred s)) = r_members R s"
  by (simp_all add: slots_held_for_others_def Let_def foldl_hdel)

lemma expired_hold_iff:
  "k \<in> set (expired_holds e (r_hash R s key)) \<longleftrightarrow>
   (\<exists>v. r_hget R s key k = Some v \<and> fst (parse_hold v) \<le> now e)"
  using hash_distinct [of s key] by (force simp: expired_holds_def)

lemma slots_held_holders:
  "holders R e (snd (slots_held_for_others R e p v cred s)) key = holders R e s key"
proof (cases "key = held_key p cred")
  case True
  then show ?thesis
    by (auto simp: slots_held_for_others_def Let_def holders_def foldl_hdel expired_hold_iff
        split: if_splits)
next
  case False
  then show ?thesis
    by (auto simp: slots_held_for_others_def Let_def holders_def foldl_hdel)
qed

lemma slots_held_off: "\<not> in_use e \<Longrightarrow> slots_held_for_others R e p v cred s = (0, s)"
  by (simp add: slots_held_for_others_def)

lemma slots_held_recording: "recording w \<Longrightarrow> slots_held_for_others R e p (Some w) cred s = (0, s)"
  by (simp add: slots_held_for_others_def by_recording_def)

text \<open>A hold made is a hold that counts, on the profile and on the shared login.\<close>

lemma expires_later: "now e < now e + of_int (account_probation_seconds a)"
  using probation_seconds_pos [of a] by simp

lemma hold_slot_holders:
  "holders R e (hold_slot R e k p s) (Held_slots (prof_id p)) =
     insert k (holders R e s (Held_slots (prof_id p)))"
  using expires_later [of e "m3u_account p"]
  by (auto simp: hold_slot_def Let_def holders_def split: option.splits if_splits)

lemma hold_slot_login_holders:
  "credential_key (r_get R s (Profile_credential_release (prof_id p))) = Some c \<Longrightarrow>
   holders R e (hold_slot R e k p s) (Held_login_slots c) =
     insert k (holders R e s (Held_login_slots c))"
  using expires_later [of e "m3u_account p"]
  by (auto simp: hold_slot_def Let_def holders_def split: option.splits if_splits)

lemma hold_slot_frame [simp]:
  "r_count R (hold_slot R e k p s) = r_count R s"
  "r_get R (hold_slot R e k p s) = r_get R s"
  "r_members R (hold_slot R e k p s) = r_members R s"
  by (simp_all add: hold_slot_def Let_def split: option.splits)

lemma hold_slot_for_viewer_frame [simp]:
  "r_count R (hold_slot_for_viewer R e c pid s) =
     (if in_use e then (r_count R s)(Channel_viewers c := 0) else r_count R s)"
  "r_get R (hold_slot_for_viewer R e c pid s) =
     (if in_use e then (r_get R s)(Channel_viewers c := None) else r_get R s)"
  by (simp_all add: hold_slot_for_viewer_def Let_def split: option.splits prod.splits)

text \<open>A hold is used up on both counters.\<close>

lemma drop_hold_frame [simp]:
  "r_count R (snd (drop_hold R k pid s)) = r_count R s"
  "r_get R (snd (drop_hold R k pid s)) = r_get R s"
  "r_members R (snd (drop_hold R k pid s)) = r_members R s"
  by (auto simp: drop_hold_def Let_def split: option.splits)

lemma drop_login_hold_frame [simp]:
  "r_count R (snd (drop_login_hold R k c s)) = r_count R s"
  "r_get R (snd (drop_login_hold R k c s)) = r_get R s"
  "r_members R (snd (drop_login_hold R k c s)) = r_members R s"
  by (auto simp: drop_login_hold_def Let_def split: option.splits)

lemma drop_hold_hget:
  "r_hget R (snd (drop_hold R k pid s)) key f =
     (if f = k \<and> (key = Held_slots pid \<or>
        (\<exists>c. Option.bind (r_hget R s (Held_slots pid) k) login_of_hold = Some c \<and>
             key = Held_login_slots c))
      then None else r_hget R s key f)"
proof (cases "r_hget R s (Held_slots pid) k")
  case None
  then show ?thesis by (auto simp: drop_hold_def)
next
  case (Some v)
  then show ?thesis by (cases "login_of_hold v") (auto simp: drop_hold_def Let_def hget_hdel)
qed

lemma drop_login_hold_hget:
  "r_hget R (snd (drop_login_hold R k c s)) key f =
     (if f = k \<and> (key = Held_login_slots c \<or>
        (\<exists>pid. Option.bind (r_hget R s (Held_login_slots c) k) profile_of_hold = Some pid \<and>
             key = Held_slots pid))
      then None else r_hget R s key f)"
proof (cases "r_hget R s (Held_login_slots c) k")
  case None
  then show ?thesis by (auto simp: drop_login_hold_def)
next
  case (Some v)
  then show ?thesis
    by (cases "profile_of_hold v") (auto simp: drop_login_hold_def Let_def hget_hdel)
qed

lemma drop_hold_own: "k \<notin> holders R e (snd (drop_hold R k pid s)) (Held_slots pid)"
  by (simp add: holders_def drop_hold_hget)

lemma drop_hold_other [simp]:
  "j \<noteq> k \<Longrightarrow> j \<in> holders R e (snd (drop_hold R k pid s)) key \<longleftrightarrow> j \<in> holders R e s key"
  by (simp add: holders_def drop_hold_hget)

lemma drop_login_hold_own:
  "k \<notin> holders R e (snd (drop_login_hold R k c s)) (Held_login_slots c)"
  by (simp add: holders_def drop_login_hold_hget)

lemma drop_login_hold_other [simp]:
  "j \<noteq> k \<Longrightarrow> j \<in> holders R e (snd (drop_login_hold R k c s)) key \<longleftrightarrow> j \<in> holders R e s key"
  by (simp add: holders_def drop_login_hold_hget)

lemma drop_login_hold_mono:
  "j \<notin> holders R e s key \<Longrightarrow> j \<notin> holders R e (snd (drop_login_hold R k c s)) key"
  by (simp add: holders_def drop_login_hold_hget)

text \<open>After a viewer has its slot again, none of its holds counts, and nobody else's is lost.\<close>

lemma take_held_slot_frame [simp]:
  "r_count R (snd (take_held_slot R e p v s)) = r_count R s"
  "r_get R (snd (take_held_slot R e p v s)) = r_get R s"
  "r_members R (snd (take_held_slot R e p v s)) = r_members R s"
  by (auto simp: take_held_slot_def Let_def case_prod_unfold split: option.splits)

lemma take_held_slot_unfold:
  assumes "\<not> recording w" and "max_streams p \<noteq> 0" and "in_use e"
    and "k = identity_key w (Some (m3u_account p))"
    and "s1 = snd (drop_hold R k (prof_id p) s)"
  shows "snd (take_held_slot R e p (Some w) s) =
    (case credential_key (r_get R s (Profile_credential_release (prof_id p))) of
       None \<Rightarrow> s1 | Some c \<Rightarrow> snd (drop_login_hold R k c s1))"
  using assms by (simp add: take_held_slot_def Let_def case_prod_unfold split: option.split)

lemma take_held_slot_taken:
  assumes "\<not> recording w" and "max_streams p \<noteq> 0" and "in_use e"
    and "k = identity_key w (Some (m3u_account p))"
    and "s' = snd (take_held_slot R e p (Some w) s)"
  shows "k \<notin> holders R e s' (Held_slots (prof_id p))"
    and "credential_key (r_get R s (Profile_credential_release (prof_id p))) = Some c \<Longrightarrow>
         k \<notin> holders R e s' (Held_login_slots c)"
  using drop_hold_own [of k e "prof_id p" s] drop_login_hold_own [of k e c]
  unfolding assms(5) take_held_slot_unfold [OF assms(1-4) refl]
  by (simp_all add: drop_login_hold_mono split: option.split)

lemma take_held_slot_others:
  assumes "\<not> recording w" and "max_streams p \<noteq> 0" and "in_use e"
    and "j \<noteq> identity_key w (Some (m3u_account p))"
  shows "j \<in> holders R e (snd (take_held_slot R e p (Some w) s)) key \<longleftrightarrow>
         j \<in> holders R e s key"
  unfolding take_held_slot_unfold [OF assms(1-3) refl refl]
  using assms(4) by (simp split: option.split)

end

section \<open>Properties\<close>

text \<open>
  C26: Slots held for others are counted exactly: once per other viewer with an unexpired hold on
  the counter asked about, never the viewer's own; and counting loses no hold that counts.
\<close>

theorem held_slots_counted:
  assumes "redis R" and "max_streams p \<noteq> 0" and "\<not> by_recording v" and "in_use e"
    and "account_allows_probation (m3u_account p)"
  shows "fst (slots_held_for_others R e p v cred s) =
         int (card (holders R e s (held_key p cred) -
                    set_option (map_option (\<lambda>w. identity_key w (Some (m3u_account p))) v))) \<and>
         holders R e (snd (slots_held_for_others R e p v cred s)) key = holders R e s key"
  using redis.slots_held_count [OF assms] redis.slots_held_holders [OF assms(1)] by simp

definition ex_held :: mem where
  "ex_held = hold_slot mem_redis ex_env ''10.0.0.5|3'' ex_profile mem_empty"

lemma held_slots_counted_witness:
  "fst (slots_held_for_others mem_redis ex_env ex_profile None None ex_held) =
     int (card (holders mem_redis ex_env ex_held (Held_slots 1)))"
  using held_slots_counted [OF mem.redis_axioms, of ex_profile None ex_env None ex_held]
  by (simp add: by_recording_def held_key_def)

text \<open>
  A slot held for a viewer counts as taken for every other request, on the profile and on the
  shared login; when the viewer has a slot of that profile again none of its holds counts any
  more, and no other viewer's hold is lost.
\<close>

theorem hold_made_and_used:
  assumes "redis R" and "max_streams p \<noteq> 0" and "in_use e" and "\<not> recording w"
    and "k = identity_key w (Some (m3u_account p))"
    and "credential_key (r_get R s (Profile_credential_release (prof_id p))) = Some c"
    and "made = hold_slot R e k p s" and "used = snd (take_held_slot R e p (Some w) made)"
  shows "holders R e made (Held_slots (prof_id p)) =
           insert k (holders R e s (Held_slots (prof_id p))) \<and>
         holders R e made (Held_login_slots c) = insert k (holders R e s (Held_login_slots c)) \<and>
         k \<notin> holders R e used (Held_slots (prof_id p)) \<union> holders R e used (Held_login_slots c) \<and>
         holders R e used key - {k} = holders R e made key - {k}"
  using redis.hold_slot_holders [OF assms(1)] redis.hold_slot_login_holders [OF assms(1,6)]
    redis.take_held_slot_taken [OF assms(1,4,2,3,5,8)]
    redis.take_held_slot_others [OF assms(1,4,2,3)] assms(5-8)
  by (auto simp: redis.hold_slot_frame [OF assms(1)])

definition ex_cred :: rkey where
  "ex_cred = Server_group_connections 7 ''user''"

lemma hold_made_and_used_witness:
  "''10.0.0.5|3'' \<notin> holders mem_redis ex_env
     (snd (take_held_slot mem_redis ex_env ex_profile (Some ex_viewer)
       (hold_slot mem_redis ex_env ''10.0.0.5|3'' ex_profile
         (r_set mem_redis mem_empty (Profile_credential_release 1) (VKey ex_cred)))))
     (Held_slots 1)"
  using hold_made_and_used [OF mem.redis_axioms, of ex_profile ex_env ex_viewer "''10.0.0.5|3''"
      "r_set mem_redis mem_empty (Profile_credential_release 1) (VKey ex_cred)" ex_cred _ _ "Held_slots 1",
      OF _ _ _ _ _ refl refl] ex_viewer_key
  by simp

end
