(* ===== verification/Credentials.thy ===== *)
theory Credentials
  imports Accounts
begin

text \<open>
  The provider login a profile plays with (\<^verbatim>\<open>apps/m3u/credentials.py\<close>,
  \<^verbatim>\<open>core/xtream_codes.py\<close> \<open>normalize_server_url\<close>, \<^verbatim>\<open>live_proxy/url_utils.py\<close>
  \<open>transform_url\<close>) and the fingerprint accounts with the same login share
  (\<^verbatim>\<open>apps/m3u/connection_pool.py\<close>). The hash and the regular expressions a user writes in a
  profile are parameters.
\<close>

section \<open>URLs\<close>

text \<open>The parts of \<open>urllib.parse.urlparse\<close> the code reads.\<close>

record url_parts =
  scheme :: string
  netloc :: string
  path :: string

fun until :: "(char \<Rightarrow> bool) \<Rightarrow> string \<Rightarrow> string" where
  "until P [] = []"
| "until P (c # cs) = (if P c then [] else c # until P cs)"

definition scheme_char :: "char \<Rightarrow> bool" where
  "scheme_char c \<longleftrightarrow> is_letter c \<or> is_digit c \<or> c \<in> {CHR ''+'', CHR ''-'', CHR ''.''}"

definition url_scheme :: "string \<Rightarrow> string" where
  "url_scheme s =
     (let p = until (\<lambda>c. c = CHR '':'') s in
      if p \<noteq> [] \<and> p \<noteq> s \<and> is_letter (hd p) \<and> list_all scheme_char p then p else [])"

text \<open>The parameters of the last path segment (after a semicolon) are no part of the path.\<close>

definition drop_params :: "string \<Rightarrow> string" where
  "drop_params p =
     (let segs = split_on (CHR ''/'') p
      in join ''/'' (butlast segs @ [until (\<lambda>c. c = CHR '';'') (last segs)]))"

definition urlparse :: "string \<Rightarrow> url_parts" where
  "urlparse s =
     (let sch = url_scheme s;
          rest = (if sch = [] then s else drop (length sch + 1) s);
          net = (if starts_with rest ''//''
                 then until (\<lambda>c. c \<in> {CHR ''/'', CHR ''?'', CHR ''#''}) (drop 2 rest) else []);
          tail = (if starts_with rest ''//'' then drop (2 + length net) rest else rest)
      in \<lparr>scheme = lower sch, netloc = net,
          path = drop_params (until (\<lambda>c. c = CHR ''?'' \<or> c = CHR ''#'') tail)\<rparr>)"

text \<open>\<open>urlunparse\<close> of a scheme, host and path, with nothing after them.\<close>

definition urlunparse :: "string \<Rightarrow> string \<Rightarrow> string \<Rightarrow> string" where
  "urlunparse sch net p =
     (let u = (if net \<noteq> [] \<or> (sch \<noteq> [] \<and> \<not> starts_with p ''//'')
               then ''//'' @ net @ (if p \<noteq> [] \<and> hd p \<noteq> CHR ''/'' then CHR ''/'' # p else p)
               else p)
      in if sch = [] then u else sch @ CHR '':'' # u)"

definition rstrip_slash :: "string \<Rightarrow> string" where
  "rstrip_slash s = rev (dropWhile (\<lambda>c. c = CHR ''/'') (rev s))"

definition ends_with :: "string \<Rightarrow> string \<Rightarrow> bool" where
  "ends_with s p \<longleftrightarrow> starts_with (rev s) (rev p)"

definition normalize_server_url :: "string \<Rightarrow> string" where
  "normalize_server_url url =
     (if url = [] then url
      else
        (let parsed = urlparse (strip url);
             p = rstrip_slash (path parsed);
             segs = split_on (CHR ''/'') p;
             p' = (if ends_with (last segs) ''.php''
                   then (if CHR ''/'' \<in> set p then join ''/'' (butlast segs) else [])
                   else p)
         in urlunparse (scheme parsed) (netloc parsed) p'))"

section \<open>Rewriting with a profile's patterns\<close>

text \<open>
  What the login depends on besides the account: SHA-256 as a text of hexadecimal digits;
  \<open>regex.subn(search, replace, text, timeout=...)\<close>, the rewritten text and the number of
  matches, \<open>None\<close> when it raises (a bad pattern, a time-out); the URLs of an account's streams.
\<close>

record logins =
  sha256 :: "string \<Rightarrow> string"
  regex_subn :: "string \<Rightarrow> string \<Rightarrow> string \<Rightarrow> (string \<times> nat) option"
  stream_urls :: "int \<Rightarrow> string list"

text \<open>\<open>_js_replace_to_python\<close>: \<open>$<name>\<close> to \<open>\g<name>\<close> and \<open>$1\<close> to \<open>\1\<close>.\<close>

fun js_names :: "string \<Rightarrow> string" where
  "js_names [] = []"
| "js_names [c] = [c]"
| "js_names (c # d # cs) =
     (let name = until (\<lambda>x. x = CHR ''>'') cs in
      if c = CHR ''$'' \<and> d = CHR ''<'' \<and> name \<noteq> [] \<and> name \<noteq> cs
      then CHR 0x5C # ''g<'' @ name @ js_names (drop (length name) cs)
      else c # js_names (d # cs))"

fun js_numbers :: "string \<Rightarrow> string" where
  "js_numbers [] = []"
| "js_numbers [c] = [c]"
| "js_numbers (c # d # cs) =
     (if c = CHR ''$'' \<and> is_digit d then CHR 0x5C # js_numbers (d # cs)
      else c # js_numbers (d # cs))"

definition js_replace_to_python :: "string \<Rightarrow> string" where
  "js_replace_to_python r = js_numbers (js_names r)"

definition transform_url :: "logins \<Rightarrow> string \<Rightarrow> string \<Rightarrow> string \<Rightarrow> string option" where
  "transform_url L url search replace =
     (if search = [] \<or> replace = [] then Some url
      else case regex_subn L search (js_replace_to_python replace) url of
             None \<Rightarrow> None
           | Some (url', n) \<Rightarrow> (if n = 0 then None else Some url'))"

definition has_patterns :: "profile \<Rightarrow> bool" where
  "has_patterns p \<longleftrightarrow> search_pattern p \<noteq> [] \<and> replace_pattern p \<noteq> []"

text \<open>\<open>get_transformed_credentials(account, profile)\<close> of a given profile: server, user, password.\<close>

definition get_transformed_credentials ::
  "logins \<Rightarrow> account \<Rightarrow> profile \<Rightarrow> (string \<times> string \<times> string) option" where
  "get_transformed_credentials L a p =
     (let base = normalize_server_url (server_url a) in
      if base = [] \<or> username a = [] \<or> password a = [] then None
      else if \<not> has_patterns p then Some (base, username a, password a)
      else
        (let complete = rstrip_slash base @ ''/live/'' @ username a @ ''/'' @ password a @ ''/1234.ts''
         in case regex_subn L (search_pattern p) (js_replace_to_python (replace_pattern p)) complete of
              None \<Rightarrow> None
            | Some (url, n) \<Rightarrow>
                (if n = 0 then None
                 else
                   (let parsed = urlparse url;
                        parts = filter (\<lambda>s. s \<noteq> []) (split_on (CHR ''/'') (path parsed));
                        k = length parts
                    in if k < 4 \<or> last parts \<noteq> ''1234.ts'' then None
                       else
                         (let base_parts = take (k - 4) parts;
                              base_path = (if base_parts = [] then [] else CHR ''/'' # join ''/'' base_parts)
                          in Some (scheme parsed @ ''://'' @ netloc parsed @ base_path,
                                   parts ! (k - 3), parts ! (k - 2)))))))"

definition build_xc_playback_url ::
  "string \<Rightarrow> string \<Rightarrow> string \<Rightarrow> string \<Rightarrow> string \<Rightarrow> string \<Rightarrow> string" where
  "build_xc_playback_url server user pass content_path stream_id extension =
     rstrip_slash server @ CHR ''/'' # content_path @ CHR ''/'' # user @ CHR ''/'' # pass @
       CHR ''/'' # stream_id @ CHR ''.'' # extension"

section \<open>Logins in stream URLs\<close>

definition content_paths :: "string list" where
  "content_paths = [''live'', ''movie'', ''series'']"

text \<open>
  The leftmost match of \<open>/(?:live|movie|series)/([^/]+)/([^/]+)/\<close>: a path segment of that
  name and the two after it, with a slash behind.
\<close>

fun find_credentials :: "string list \<Rightarrow> (string \<times> string) option" where
  "find_credentials (a # b # c # d # rest) =
     (if lower a \<in> set content_paths \<and> b \<noteq> [] \<and> c \<noteq> [] then Some (b, c)
      else find_credentials (b # c # d # rest))"
| "find_credentials _ = None"

definition extract_credentials_from_stream_url :: "string \<Rightarrow> (string \<times> string) option" where
  "extract_credentials_from_stream_url url =
     (if url = [] then None else find_credentials (tl (split_on (CHR ''/'') url)))"

section \<open>Fingerprints\<close>

definition normal_login :: "string \<Rightarrow> string \<Rightarrow> string" where
  "normal_login user pass = lower (strip user) @ CHR 0x00 # strip pass"

definition compute_credential_fingerprint :: "logins \<Rightarrow> string \<Rightarrow> string \<Rightarrow> string option" where
  "compute_credential_fingerprint L user pass =
     (if user = [] \<or> pass = [] then None else Some (sha256 L (normal_login user pass)))"

definition fingerprint_from_profile_stream_url :: "logins \<Rightarrow> profile \<Rightarrow> string option" where
  "fingerprint_from_profile_stream_url L p =
     (case filter (\<lambda>u. u \<noteq> []) (stream_urls L (acc_id (m3u_account p))) of
        [] \<Rightarrow> None
      | sample # _ \<Rightarrow>
          (case transform_url L sample (search_pattern p) (replace_pattern p) of
             None \<Rightarrow> None
           | Some url \<Rightarrow>
               (case extract_credentials_from_stream_url url of
                  None \<Rightarrow> None
                | Some (user, pass) \<Rightarrow> compute_credential_fingerprint L user pass)))"

definition get_profile_credential_fingerprint :: "logins \<Rightarrow> profile \<Rightarrow> string option" where
  "get_profile_credential_fingerprint L p =
     (let a = m3u_account p;
          transformed = (if account_type a = ''XC'' then get_transformed_credentials L a p else None);
          from_transform =
            (case transformed of
               None \<Rightarrow> None
             | Some (_, user, pass) \<Rightarrow> compute_credential_fingerprint L user pass)
      in case from_transform of
           Some fp \<Rightarrow> Some fp
         | None \<Rightarrow>
             (if account_type a = ''XC'' \<and> has_patterns p then None
              else case fingerprint_from_profile_stream_url L p of
                     Some fp \<Rightarrow> Some fp
                   | None \<Rightarrow> compute_credential_fingerprint L (username a) (password a)))"

section \<open>Lemmas\<close>

text \<open>Blanks around a login and the case of the user name do not matter.\<close>

lemma fingerprint_case_and_blanks:
  assumes "lower (strip user) = lower (strip user')" and "strip pass = strip pass'"
    and "user \<noteq> []" and "user' \<noteq> []" and "pass \<noteq> []" and "pass' \<noteq> []"
  shows "compute_credential_fingerprint L user pass = compute_credential_fingerprint L user' pass'"
  using assms by (simp add: compute_credential_fingerprint_def normal_login_def)

lemma fingerprint_none: "compute_credential_fingerprint L user pass = None \<longleftrightarrow> user = [] \<or> pass = []"
  by (simp add: compute_credential_fingerprint_def)

text \<open>A playback URL names the login it was built with.\<close>

definition slash_free :: "string \<Rightarrow> bool" where
  "slash_free s \<longleftrightarrow> CHR ''/'' \<notin> set s"

lemma split_slash: "slash_free a \<Longrightarrow> split_on (CHR ''/'') (a @ CHR ''/'' # t) = a # split_on (CHR ''/'') t"
  by (simp add: slash_free_def split_on_append)

lemma split_append_sep:
  "split_on sep (s @ sep # t) = split_on sep s @ split_on sep t"
  by (induction s) (auto split: list.splits)

lemma find_credentials_skip:
  "lower a \<notin> set content_paths \<Longrightarrow> find_credentials (a # ss) = find_credentials ss"
proof -
  assume a: "lower a \<notin> set content_paths"
  show ?thesis
  proof (cases ss)
    case (Cons b bs)
    note b = this
    show ?thesis
    proof (cases bs)
      case (Cons c cs)
      with a b show ?thesis by (cases cs) auto
    qed (simp add: b)
  qed simp
qed

lemma find_credentials_pre:
  "\<forall>a \<in> set pre. lower a \<notin> set content_paths \<Longrightarrow>
   find_credentials (pre @ ss) = find_credentials ss"
  by (induction pre) (simp_all add: find_credentials_skip)

lemma split_no_content:
  assumes "slash_free stream_id" and "slash_free extension"
  shows "split_on (CHR ''/'') (stream_id @ CHR ''.'' # extension) = [stream_id @ CHR ''.'' # extension]"
  using assms by (intro split_on_no_sep) (auto simp: slash_free_def)

lemma extract_built_url:
  assumes base: "\<forall>a \<in> set (split_on (CHR ''/'') (rstrip_slash server)). lower a \<notin> set content_paths"
    and kind: "content_path \<in> set content_paths"
    and login: "user \<noteq> []" "pass \<noteq> []" "slash_free user" "slash_free pass"
    and leaf: "slash_free stream_id" "slash_free extension"
  shows "extract_credentials_from_stream_url
           (build_xc_playback_url server user pass content_path stream_id extension) = Some (user, pass)"
proof -
  let ?b = "split_on (CHR ''/'') (rstrip_slash server)"
  let ?url = "build_xc_playback_url server user pass content_path stream_id extension"
  have kf: "slash_free content_path" and kl: "lower content_path = content_path"
    using kind by (auto simp: content_paths_def slash_free_def lower_def lower_char_def Let_def)
  have "split_on (CHR ''/'') ?url =
      ?b @ [content_path, user, pass, stream_id @ CHR ''.'' # extension]"
    using kf login leaf
    by (simp add: build_xc_playback_url_def split_append_sep split_no_content slash_free_def
        split_on_no_sep)
  moreover have "?b \<noteq> []" by simp
  ultimately have "tl (split_on (CHR ''/'') ?url) =
      tl ?b @ [content_path, user, pass, stream_id @ CHR ''.'' # extension]"
    by simp
  moreover have "\<forall>a \<in> set (tl ?b). lower a \<notin> set content_paths"
    using base list.set_sel(2) [of ?b] by auto
  ultimately have "find_credentials (tl (split_on (CHR ''/'') ?url)) = Some (user, pass)"
    using kind kl login(1,2) by (simp add: find_credentials_pre)
  moreover have "?url \<noteq> []" by (simp add: build_xc_playback_url_def)
  ultimately show ?thesis by (simp add: extract_credentials_from_stream_url_def)
qed

text \<open>Without patterns an XC profile plays with its account's own login.\<close>

lemma own_credentials:
  "\<not> has_patterns p \<Longrightarrow> get_transformed_credentials L a p = Some (u, user, pass) \<Longrightarrow>
   user = username a \<and> pass = password a"
  by (auto simp: get_transformed_credentials_def Let_def split: if_splits)

text \<open>An XC profile whose patterns fail has no login rather than the account's.\<close>

lemma failed_transform_no_login:
  "account_type (m3u_account p) = ''XC'' \<Longrightarrow> has_patterns p \<Longrightarrow>
   get_transformed_credentials L (m3u_account p) p = None \<Longrightarrow>
   get_profile_credential_fingerprint L p = None"
  by (simp add: get_profile_credential_fingerprint_def)

section \<open>Values the witnesses are evaluated on\<close>

definition ex_logins :: logins where
  "ex_logins =
     \<lparr>sha256 = (\<lambda>s. s), regex_subn = (\<lambda>_ _ u. Some (u, 1)), stream_urls = (\<lambda>_. [])\<rparr>"

lemma ex_fingerprint:
  "get_profile_credential_fingerprint ex_logins ex_profile = Some (''user'' @ CHR 0x00 # ''pw'')"
  by code_simp

end
