(* ===== verification/Pool_Interface.thy ===== *)
theory Pool_Interface
  imports Main
begin

text \<open>
  What every user of connection slots relies on (channels, previews, recordings, VOD): taking
  a slot of a profile succeeds only below its limit and then counts one more, giving one back
  counts one less and never below zero, and neither touches another profile. The lemmas are
  about any run of takes and gives, in whatever order the workers make them.
\<close>

text \<open>A run: takes (\<open>True\<close>) and gives of profiles, in the order they happen.\<close>

fun slot_run ::
  "('p \<Rightarrow> 's \<Rightarrow> bool \<times> 's) \<Rightarrow> ('p \<Rightarrow> 's \<Rightarrow> 's) \<Rightarrow> (bool \<times> 'p) list \<Rightarrow> 's \<Rightarrow> 's" where
  "slot_run t g [] s = s"
| "slot_run t g ((True, p) # es) s = slot_run t g es (snd (t p s))"
| "slot_run t g ((False, p) # es) s = slot_run t g es (g p s)"

text \<open>The takes of a profile that were granted, and the gives, along a run.\<close>

fun slots_granted ::
  "('p \<Rightarrow> 's \<Rightarrow> bool \<times> 's) \<Rightarrow> ('p \<Rightarrow> 's \<Rightarrow> 's) \<Rightarrow> (bool \<times> 'p) list \<Rightarrow> 'p \<Rightarrow> 's \<Rightarrow> nat" where
  "slots_granted t g [] q s = 0"
| "slots_granted t g ((True, p) # es) q s =
     (if p = q \<and> fst (t p s) then 1 else 0) + slots_granted t g es q (snd (t p s))"
| "slots_granted t g ((False, p) # es) q s = slots_granted t g es q (g p s)"

definition slots_given :: "(bool \<times> 'p) list \<Rightarrow> 'p \<Rightarrow> nat" where
  "slots_given es q = length (filter (\<lambda>(t, p). \<not> t \<and> p = q) es)"

locale slot_pool =
  fixes ok :: "'s \<Rightarrow> bool"
    and used :: "'s \<Rightarrow> 'p \<Rightarrow> int"
    and counted :: "'p \<Rightarrow> bool"
    and limit :: "'p \<Rightarrow> int"
    and take_slot :: "'p \<Rightarrow> 's \<Rightarrow> bool \<times> 's"
    and give_slot :: "'p \<Rightarrow> 's \<Rightarrow> 's"
  assumes take_ok: "ok s \<Longrightarrow> ok (snd (take_slot p s))"
    and give_ok: "ok s \<Longrightarrow> ok (give_slot p s)"
    and used_nonneg: "ok s \<Longrightarrow> 0 \<le> used s p"
    and take_used: "ok s \<Longrightarrow>
      used (snd (take_slot p s)) =
        (if fst (take_slot p s) \<and> counted p then (used s)(p := used s p + 1) else used s)"
    and take_limit: "ok s \<Longrightarrow> counted p \<Longrightarrow> fst (take_slot p s) \<Longrightarrow> used s p < limit p"
    and give_used: "ok s \<Longrightarrow> used (give_slot p s) = (used s)(p := max 0 (used s p - 1))"
begin

abbreviation run :: "(bool \<times> 'p) list \<Rightarrow> 's \<Rightarrow> 's" where
  "run \<equiv> slot_run take_slot give_slot"

abbreviation granted :: "(bool \<times> 'p) list \<Rightarrow> 'p \<Rightarrow> 's \<Rightarrow> nat" where
  "granted \<equiv> slots_granted take_slot give_slot"

lemma run_induct [case_names Nil Take Give]:
  assumes "\<And>s. P [] s"
    and "\<And>p es s. P es (snd (take_slot p s)) \<Longrightarrow> P ((True, p) # es) s"
    and "\<And>p es s. P es (give_slot p s) \<Longrightarrow> P ((False, p) # es) s"
  shows "P es s"
proof (induction es arbitrary: s)
  case (Cons e es)
  obtain t p where "e = (t, p)" by (cases e)
  with Cons assms(2,3) show ?case by (cases t) auto
qed (rule assms(1))

lemma run_ok: "ok s \<Longrightarrow> ok (run es s)"
  by (induction es s rule: run_induct) (auto intro: take_ok give_ok)

text \<open>No order of takes and gives lets a counted profile past its limit.\<close>

lemma run_limit:
  assumes "ok s" and "counted q" and "used s q \<le> limit q" and "0 \<le> limit q"
  shows "used (run es s) q \<le> limit q"
  using assms
proof (induction es s rule: run_induct)
  case (Take p es s)
  from Take(2,3) have "fst (take_slot q s) \<Longrightarrow> used s q + 1 \<le> limit q" using take_limit by fastforce
  with Take(2-5) have "used (snd (take_slot p s)) q \<le> limit q" by (auto simp: take_used)
  with Take show ?case by (simp add: take_ok)
next
  case (Give p es s)
  then have "used (give_slot p s) q \<le> limit q" by (auto simp: give_used)
  with Give show ?case by (simp add: give_ok)
qed simp

text \<open>
  What is in use afterwards is at least what was granted less what was given back, and at most
  what was in use before plus what was granted: no slot is counted twice, none is made up.
\<close>

lemma run_used_bounds:
  assumes "ok s" and "counted q"
  shows "used s q + int (granted es q s) - int (slots_given es q) \<le> used (run es s) q \<and>
         used (run es s) q \<le> used s q + int (granted es q s)"
  using assms
proof (induction es s rule: run_induct)
  case (Take p es s)
  have "used (snd (take_slot p s)) q = used s q + (if p = q \<and> fst (take_slot p s) then 1 else 0)"
    using Take(2,3) by (auto simp: take_used)
  moreover have "slots_given ((True, p) # es) q = slots_given es q" by (simp add: slots_given_def)
  ultimately show ?case using Take(1) [OF take_ok [OF Take(2)] Take(3)] by (auto split: if_splits)
next
  case (Give p es s)
  have "used (give_slot p s) q \<le> used s q"
    and "used s q - (if p = q then 1 else 0) \<le> used (give_slot p s) q"
    using Give(2) used_nonneg [of s q] by (auto simp: give_used)
  moreover have "slots_given ((False, p) # es) q = (if p = q then 1 else 0) + slots_given es q"
    by (simp add: slots_given_def)
  ultimately show ?case using Give(1) [OF give_ok [OF Give(2)] Give(3)] by (auto split: if_splits)
qed (simp add: slots_given_def)

end

end
