(* ===== verification/Connection_Pool.thy ===== *)
theory Connection_Pool
  imports Slot_Holds Credentials Pool_Interface
begin

text \<open>
  Connection slots of M3U profiles (\<^verbatim>\<open>apps/m3u/connection_pool.py\<close>): each profile has a
  counter in Redis of the streams it serves; a profile of an account in a server group counts
  on a second counter too, shared by every account with the same provider login. Slots are
  taken counter first (\<open>INCR\<close>, and \<open>DECR\<close> again when that was one too many), slots held for
  viewers that are switching channels count as taken.
\<close>

section \<open>Counters\<close>

definition credential_counter_key :: "logins \<Rightarrow> profile \<Rightarrow> int \<Rightarrow> rkey option" where
  "credential_counter_key L p gid =
     map_option (\<lambda>fp. Server_group_connections gid (take 16 fp))
       (get_profile_credential_fingerprint L p)"

definition get_enforced_server_group_for_profile :: "profile \<Rightarrow> int option" where
  "get_enforced_server_group_for_profile p = server_group (m3u_account p)"

definition get_profile_connection_count :: "'s redis_api \<Rightarrow> profile \<Rightarrow> 's \<Rightarrow> int" where
  "get_profile_connection_count R p s = r_count R s (Profile_connections (prof_id p))"

definition get_credential_connection_count :: "'s redis_api \<Rightarrow> logins \<Rightarrow> profile \<Rightarrow> 's \<Rightarrow> int" where
  "get_credential_connection_count R L p s =
     (case get_enforced_server_group_for_profile p of
        None \<Rightarrow> 0
      | Some g \<Rightarrow>
          (case credential_counter_key L p g of None \<Rightarrow> 0 | Some k \<Rightarrow> r_count R s k))"

section \<open>Capacity\<close>

definition profile_has_capacity_for_selection ::
  "'s redis_api \<Rightarrow> env \<Rightarrow> profile \<Rightarrow> viewer option \<Rightarrow> 's \<Rightarrow> bool \<times> 's" where
  "profile_has_capacity_for_selection R e p v s =
     (if max_streams p = 0 then (True, s)
      else
        (let (held, s1) = slots_held_for_others R e p v None s
         in (get_profile_connection_count R p s < max_streams p - held, s1)))"

definition group_has_capacity_for_profile ::
  "'s redis_api \<Rightarrow> logins \<Rightarrow> env \<Rightarrow> profile \<Rightarrow> viewer option \<Rightarrow> 's \<Rightarrow> bool \<times> 's" where
  "group_has_capacity_for_profile R L e p v s =
     (case get_enforced_server_group_for_profile p of
        None \<Rightarrow> (True, s)
      | Some g \<Rightarrow>
          (if max_streams p = 0 then (True, s)
           else case credential_counter_key L p g of
                  None \<Rightarrow> (False, s)
                | Some k \<Rightarrow>
                    (let (held, s1) = slots_held_for_others R e p v (Some k) s
                     in (r_count R s k < max_streams p - held, s1))))"

definition pool_has_capacity_for_profile ::
  "'s redis_api \<Rightarrow> logins \<Rightarrow> env \<Rightarrow> profile \<Rightarrow> viewer option \<Rightarrow> 's \<Rightarrow> bool \<times> 's" where
  "pool_has_capacity_for_profile R L e p v s =
     (let (ok, s1) = profile_has_capacity_for_selection R e p v s
      in if ok then group_has_capacity_for_profile R L e p v s1 else (False, s1))"

definition profile_available_for_channel_switch ::
  "'s redis_api \<Rightarrow> logins \<Rightarrow> env \<Rightarrow> profile \<Rightarrow> bool \<Rightarrow> 's \<Rightarrow> bool \<times> 's" where
  "profile_available_for_channel_switch R L e p already s =
     (if already then (True, s) else pool_has_capacity_for_profile R L e p None s)"

section \<open>Releasing\<close>

definition safe_decr :: "'s redis_api \<Rightarrow> rkey \<Rightarrow> 's \<Rightarrow> 's" where
  "safe_decr R key s =
     (if r_count R s key \<le> 0 then s
      else (let s1 = r_decr R s key
            in if r_count R s1 key < 0 then r_setcount R s1 key 0 else s1))"

definition remember_credential_release_key :: "'s redis_api \<Rightarrow> int \<Rightarrow> rkey \<Rightarrow> 's \<Rightarrow> 's" where
  "remember_credential_release_key R pid cred s =
     r_set R s (Profile_credential_release pid) (VKey cred)"

definition release_credential_slot_by_profile_id :: "'s redis_api \<Rightarrow> int \<Rightarrow> 's \<Rightarrow> bool \<times> 's" where
  "release_credential_slot_by_profile_id R pid s =
     (case credential_key (r_get R s (Profile_credential_release pid)) of
        None \<Rightarrow> (False, s)
      | Some k \<Rightarrow> (True, r_del R (safe_decr R k s) (Profile_credential_release pid)))"

definition release_profile_slot :: "'s redis_api \<Rightarrow> int \<Rightarrow> 's \<Rightarrow> 's" where
  "release_profile_slot R pid s =
     (let s1 = snd (release_credential_slot_by_profile_id R pid s)
      in if 0 < r_count R s1 (Profile_connections pid)
         then r_decr R s1 (Profile_connections pid) else s1)"

section \<open>Reserving\<close>

definition reserve_server_group_slot_for_profile ::
  "'s redis_api \<Rightarrow> logins \<Rightarrow> env \<Rightarrow> profile \<Rightarrow> int \<Rightarrow> viewer option \<Rightarrow> bool \<Rightarrow> 's \<Rightarrow>
   (bool \<times> rkey option) \<times> 's" where
  "reserve_server_group_slot_for_profile R L e p extra v respect_holds s =
     (case get_enforced_server_group_for_profile p of
        None \<Rightarrow> ((True, None), s)
      | Some g \<Rightarrow>
          (if max_streams p = 0 then ((True, None), s)
           else case credential_counter_key L p g of
                  None \<Rightarrow> ((False, None), s)
                | Some k \<Rightarrow>
                    (let (held, s1) =
                           (if respect_holds then slots_held_for_others R e p v (Some k) s
                            else (0, s));
                         s2 = r_incr R s1 k
                     in if r_count R s2 k \<le> max_streams p + extra - held
                        then ((True, Some k), s2)
                        else ((False, None), r_decr R s2 k))))"

datatype reserve_failure = Profile_full | Credential_full

type_synonym reservation = "bool \<times> int \<times> reserve_failure option"

definition reserve_credential_part ::
  "'s redis_api \<Rightarrow> logins \<Rightarrow> env \<Rightarrow> profile \<Rightarrow> int \<Rightarrow> viewer option \<Rightarrow> int \<Rightarrow> 's \<Rightarrow>
   reservation \<times> 's" where
  "reserve_credential_part R L e p extra v profile_count s =
     (let ((reserved, cred), s1) = reserve_server_group_slot_for_profile R L e p extra v True s
      in if \<not> reserved then
           (if 0 < max_streams p
            then ((False, profile_count - 1, Some Credential_full),
                  r_decr R s1 (Profile_connections (prof_id p)))
            else ((False, 0, Some Credential_full), s1))
         else
           ((True, profile_count, None),
            case cred of None \<Rightarrow> s1 | Some k \<Rightarrow> remember_credential_release_key R (prof_id p) k s1))"

definition reserve_profile_slot ::
  "'s redis_api \<Rightarrow> logins \<Rightarrow> env \<Rightarrow> profile \<Rightarrow> int \<Rightarrow> viewer option \<Rightarrow> 's \<Rightarrow> reservation \<times> 's" where
  "reserve_profile_slot R L e p extra v s =
     (let key = Profile_connections (prof_id p) in
      if 0 < max_streams p then
        (let (held, s1) = slots_held_for_others R e p v None s;
             s2 = r_incr R s1 key;
             n = r_count R s2 key
         in if max_streams p + extra - held < n
            then ((False, n - 1, Some Profile_full), r_decr R s2 key)
            else reserve_credential_part R L e p extra v n s2)
      else reserve_credential_part R L e p extra v 0 s)"

definition move_credential_slot_on_profile_switch ::
  "'s redis_api \<Rightarrow> logins \<Rightarrow> env \<Rightarrow> profile \<Rightarrow> profile \<Rightarrow> 's \<Rightarrow> bool \<times> 's" where
  "move_credential_slot_on_profile_switch R L e old new s =
     (if get_profile_credential_fingerprint L old = get_profile_credential_fingerprint L new
      then (True, s)
      else
        (let s1 = snd (release_credential_slot_by_profile_id R (prof_id old) s);
             ((reserved, cred), s2) = reserve_server_group_slot_for_profile R L e new 0 None True s1
         in if \<not> reserved then
              (let ((restored, k), s3) =
                     reserve_server_group_slot_for_profile R L e old 0 None False s2
               in (False, case k of
                            Some j \<Rightarrow> (if restored
                                      then remember_credential_release_key R (prof_id old) j s3
                                      else s3)
                          | None \<Rightarrow> s3))
            else (True, case cred of
                          None \<Rightarrow> s2
                        | Some k \<Rightarrow> remember_credential_release_key R (prof_id new) k s2)))"

section \<open>What the operations promise\<close>

lemma credential_counter_not_profile:
  "credential_counter_key L p g = Some k \<Longrightarrow> k \<noteq> Profile_connections i"
  by (auto simp: credential_counter_key_def)

text \<open>The login counter a profile's slot counts on, when it counts on one.\<close>

definition pooled_key :: "logins \<Rightarrow> profile \<Rightarrow> rkey option" where
  "pooled_key L p =
     (if max_streams p = 0 then None
      else Option.bind (get_enforced_server_group_for_profile p) (credential_counter_key L p))"

text \<open>A profile of a group whose login cannot be told never gets a slot.\<close>

definition login_unknown :: "logins \<Rightarrow> profile \<Rightarrow> bool" where
  "login_unknown L p \<longleftrightarrow>
     max_streams p \<noteq> 0 \<and>
     (case get_enforced_server_group_for_profile p of
        None \<Rightarrow> False
      | Some g \<Rightarrow> credential_counter_key L p g = None)"

lemma pooled_key_not_profile: "pooled_key L p = Some k \<Longrightarrow> k \<noteq> Profile_connections i"
  by (auto simp: pooled_key_def credential_counter_key_def bind_eq_Some_conv split: if_splits)

lemma pooled_login_known: "pooled_key L p = Some k \<Longrightarrow> \<not> login_unknown L p"
  by (auto simp: login_unknown_def pooled_key_def bind_eq_Some_conv split: if_splits)

abbreviation held :: "'s redis_api \<Rightarrow> env \<Rightarrow> profile \<Rightarrow> viewer option \<Rightarrow> rkey option \<Rightarrow> 's \<Rightarrow> int" where
  "held R e p v cred s \<equiv> fst (slots_held_for_others R e p v cred s)"

text \<open>
  The abstract pool: whether each of a slot's two counters has room, and the counters after a
  slot was taken or given back.
\<close>

definition profile_room :: "'s redis_api \<Rightarrow> env \<Rightarrow> profile \<Rightarrow> int \<Rightarrow> viewer option \<Rightarrow> 's \<Rightarrow> bool" where
  "profile_room R e p extra v s \<longleftrightarrow>
     (0 < max_streams p \<longrightarrow>
        r_count R s (Profile_connections (prof_id p)) < max_streams p + extra - held R e p v None s)"

definition login_room ::
  "'s redis_api \<Rightarrow> logins \<Rightarrow> env \<Rightarrow> profile \<Rightarrow> int \<Rightarrow> viewer option \<Rightarrow> bool \<Rightarrow> 's \<Rightarrow> bool" where
  "login_room R L e p extra v resp s \<longleftrightarrow>
     \<not> login_unknown L p \<and>
     (case pooled_key L p of
        None \<Rightarrow> True
      | Some k \<Rightarrow> r_count R s k < max_streams p + extra -
                    (if resp then held R e p v (Some k) s else 0))"

definition has_room ::
  "'s redis_api \<Rightarrow> logins \<Rightarrow> env \<Rightarrow> profile \<Rightarrow> int \<Rightarrow> viewer option \<Rightarrow> 's \<Rightarrow> bool" where
  "has_room R L e p extra v s \<longleftrightarrow> profile_room R e p extra v s \<and> login_room R L e p extra v True s"

definition bump :: "rkey option \<Rightarrow> int \<Rightarrow> (rkey \<Rightarrow> int) \<Rightarrow> rkey \<Rightarrow> int" where
  "bump k d c = (case k of None \<Rightarrow> c | Some j \<Rightarrow> c(j := c j + d))"

definition profile_key :: "profile \<Rightarrow> rkey option" where
  "profile_key p = (if 0 < max_streams p then Some (Profile_connections (prof_id p)) else None)"

lemma bump_simps [simp]: "bump None d c = c" "bump (Some j) d c = c(j := c j + d)"
  by (simp_all add: bump_def)

context redis
begin

lemma held_holders:
  assumes "\<And>key. holders R e s' key = holders R e s key"
  shows "held R e p v cred s' = held R e p v cred s"
proof (cases "max_streams p \<noteq> 0 \<and> \<not> by_recording v \<and> in_use e \<and>
    account_allows_probation (m3u_account p)")
  case True
  then show ?thesis by (simp add: slots_held_count assms)
next
  case False
  then show ?thesis by (auto simp: slots_held_for_others_def Let_def)
qed

lemma holders_frame [simp]:
  "holders R e (r_incr R s k) key = holders R e s key"
  "holders R e (r_decr R s k) key = holders R e s key"
  "holders R e (r_setcount R s k n) key = holders R e s key"
  "holders R e (r_set R s k v) key = holders R e s key"
  "holders R e (r_expire R s k t) key = holders R e s key"
  by (simp_all add: holders_def)

text \<open>The login part of a reservation.\<close>

lemma server_group_slot:
  "fst (reserve_server_group_slot_for_profile R L e p extra v resp s) =
     (if login_room R L e p extra v resp s then (True, pooled_key L p) else (False, None))"
  by (auto simp: reserve_server_group_slot_for_profile_def login_room_def login_unknown_def
      pooled_key_def Let_def case_prod_unfold split: option.splits)

lemma server_group_slot_count:
  "r_count R (snd (reserve_server_group_slot_for_profile R L e p extra v resp s)) =
     (if login_room R L e p extra v resp s then bump (pooled_key L p) 1 (r_count R s) else r_count R s)"
  by (auto simp: reserve_server_group_slot_for_profile_def login_room_def login_unknown_def
      pooled_key_def Let_def case_prod_unfold split: option.splits)

lemma server_group_slot_get [simp]:
  "r_get R (snd (reserve_server_group_slot_for_profile R L e p extra v resp s)) = r_get R s"
  by (auto simp: reserve_server_group_slot_for_profile_def Let_def case_prod_unfold
      split: option.splits)

lemma server_group_slot_members [simp]:
  "r_members R (snd (reserve_server_group_slot_for_profile R L e p extra v resp s)) = r_members R s"
  by (auto simp: reserve_server_group_slot_for_profile_def Let_def case_prod_unfold
      split: option.splits)

lemma server_group_slot_holders [simp]:
  "holders R e' (snd (reserve_server_group_slot_for_profile R L e' p extra v resp s)) key =
   holders R e' s key"
  using slots_held_holders [of e' p v _ s key]
  by (auto simp: reserve_server_group_slot_for_profile_def Let_def case_prod_unfold holders_def
      split: option.splits)


lemma login_room_cong:
  assumes "\<And>key. holders R e s' key = holders R e s key"
    and "\<And>k. pooled_key L p = Some k \<Longrightarrow> r_count R s' k = r_count R s k"
  shows "login_room R L e p extra v resp s' = login_room R L e p extra v resp s"
  using assms(2) by (simp add: login_room_def held_holders [of e s' s, OF assms(1)] split: option.split)

lemma after_profile_incr [simp]:
  "login_room R L e p extra v resp
     (r_incr R (snd (slots_held_for_others R e p v None s)) (Profile_connections i)) =
   login_room R L e p extra v resp s"
  by (rule login_room_cong) (auto simp: slots_held_holders dest: pooled_key_not_profile)

lemma after_held [simp]:
  "login_room R L e p extra v resp (snd (slots_held_for_others R e p v c s)) =
   login_room R L e p extra v resp s"
  by (rule login_room_cong) (simp_all add: slots_held_holders)

lemma reserve_credential_part_spec:
  "fst (fst (reserve_credential_part R L e p extra v n s)) = login_room R L e p extra v True s"
  "r_count R (snd (reserve_credential_part R L e p extra v n s)) =
     (if login_room R L e p extra v True s then bump (pooled_key L p) 1 (r_count R s)
      else bump (profile_key p) (- 1) (r_count R s))"
  "r_get R (snd (reserve_credential_part R L e p extra v n s)) =
     (if login_room R L e p extra v True s
      then (case pooled_key L p of None \<Rightarrow> r_get R s
            | Some k \<Rightarrow> (r_get R s)(Profile_credential_release (prof_id p) \<mapsto> VKey k))
      else r_get R s)"
  by (auto simp: reserve_credential_part_def case_prod_unfold server_group_slot
      server_group_slot_count profile_key_def remember_credential_release_key_def Let_def
      split: option.split)

text \<open>The whole reservation: it succeeds exactly when both counters have room.\<close>

lemma reserve_ok:
  "fst (fst (reserve_profile_slot R L e p extra v s)) = has_room R L e p extra v s"
  by (auto simp: reserve_profile_slot_def Let_def case_prod_unfold reserve_credential_part_spec
      has_room_def profile_room_def)

lemma reserve_count:
  "r_count R (snd (reserve_profile_slot R L e p extra v s)) =
     (if has_room R L e p extra v s
      then bump (pooled_key L p) 1 (bump (profile_key p) 1 (r_count R s)) else r_count R s)"
  by (auto simp: reserve_profile_slot_def Let_def case_prod_unfold reserve_credential_part_spec
      has_room_def profile_room_def profile_key_def)

lemma reserve_get:
  "r_get R (snd (reserve_profile_slot R L e p extra v s)) =
     (if has_room R L e p extra v s
      then (case pooled_key L p of None \<Rightarrow> r_get R s
            | Some k \<Rightarrow> (r_get R s)(Profile_credential_release (prof_id p) \<mapsto> VKey k))
      else r_get R s)"
  by (cases "pooled_key L p")
    (simp_all add: reserve_profile_slot_def Let_def case_prod_unfold reserve_credential_part_spec
      has_room_def profile_room_def)

lemma reserve_reason:
  "snd (snd (fst (reserve_profile_slot R L e p extra v s))) =
     (if has_room R L e p extra v s then None
      else if profile_room R e p extra v s then Some Credential_full else Some Profile_full)"
  by (auto simp: reserve_profile_slot_def Let_def case_prod_unfold reserve_credential_part_def
      server_group_slot has_room_def profile_room_def)

lemma reserve_reported_count:
  assumes "0 < max_streams p"
  shows "fst (snd (fst (reserve_profile_slot R L e p extra v s))) =
         r_count R (snd (reserve_profile_slot R L e p extra v s)) (Profile_connections (prof_id p))"
proof -
  have "bump (pooled_key L p) 1 c (Profile_connections (prof_id p)) = c (Profile_connections (prof_id p))"
    for c
    by (cases "pooled_key L p") (auto dest: pooled_key_not_profile)
  then show ?thesis
    using assms
    by (auto simp: reserve_profile_slot_def Let_def case_prod_unfold reserve_credential_part_def
        server_group_slot server_group_slot_count remember_credential_release_key_def
        split: option.split)
qed

text \<open>The check before reserving says what reserving would do.\<close>

lemma profile_room_cong:
  assumes "\<And>key. holders R e s' key = holders R e s key" and "r_count R s' = r_count R s"
  shows "profile_room R e p extra v s' = profile_room R e p extra v s"
  using assms(2) by (simp add: profile_room_def held_holders [of e s' s, OF assms(1)])

lemma pool_has_capacity_room:
  assumes "0 \<le> max_streams p"
  shows "fst (pool_has_capacity_for_profile R L e p v s) = has_room R L e p 0 v s"
proof -
  let ?s = "snd (slots_held_for_others R e p v None s)"
  have h: "held R e p v c ?s = held R e p v c s" for c
    by (rule held_holders) (rule slots_held_holders)
  have g: "fst (group_has_capacity_for_profile R L e p v t) = login_room R L e p 0 v True t" for t
    by (auto simp: group_has_capacity_for_profile_def login_room_def login_unknown_def
        pooled_key_def Let_def case_prod_unfold split: option.split)
  show ?thesis
    using assms
    by (auto simp: Let_def pool_has_capacity_for_profile_def profile_has_capacity_for_selection_def g
        has_room_def profile_room_def get_profile_connection_count_def case_prod_unfold h)
qed

end

section \<open>Counters never go wrong\<close>

text \<open>The keys that are slot counters, and the slots in use as the store has them.\<close>

fun is_counter :: "rkey \<Rightarrow> bool" where
  "is_counter (Profile_connections _) = True"
| "is_counter (Server_group_connections _ _) = True"
| "is_counter _ = False"

definition slots :: "'s redis_api \<Rightarrow> 's \<Rightarrow> rkey \<Rightarrow> int" where
  "slots R s k = (if is_counter k then r_count R s k else 0)"

text \<open>No counter is negative, and the keys remembered for a release are login counters.\<close>

definition pool_ok :: "'s redis_api \<Rightarrow> 's \<Rightarrow> bool" where
  "pool_ok R s \<longleftrightarrow>
     (\<forall>k. 0 \<le> slots R s k) \<and>
     (\<forall>pid k. credential_key (r_get R s (Profile_credential_release pid)) = Some k \<longrightarrow>
        (\<exists>g f. k = Server_group_connections g f))"

lemma credential_key_VKey [simp]: "credential_key (Some v) = Some k \<longleftrightarrow> v = VKey k"
  by (cases v) auto

lemma pooled_key_counter: "pooled_key L p = Some k \<Longrightarrow> \<exists>g f. k = Server_group_connections g f"
  by (auto simp: pooled_key_def credential_counter_key_def bind_eq_Some_conv split: if_splits)

context redis
begin

lemma safe_decr_count:
  "r_count R (safe_decr R k s) = (r_count R s)(k := if r_count R s k \<le> 0 then r_count R s k
                                                  else r_count R s k - 1)"
  by (auto simp: safe_decr_def Let_def)

lemma safe_decr_frame [simp]:
  "r_get R (safe_decr R k s) = r_get R s"
  "r_hash R (safe_decr R k s) = r_hash R s"
  "r_members R (safe_decr R k s) = r_members R s"
  by (simp_all add: safe_decr_def Let_def)

lemma release_credential_slots:
  "slots R (snd (release_credential_slot_by_profile_id R pid s)) =
     (case credential_key (r_get R s (Profile_credential_release pid)) of
        None \<Rightarrow> slots R s
      | Some k \<Rightarrow> (slots R s)(k := if slots R s k \<le> 0 then slots R s k else slots R s k - 1))"
  by (auto simp: release_credential_slot_by_profile_id_def slots_def safe_decr_count fun_eq_iff
      split: option.split)

lemma release_credential_get:
  "r_get R (snd (release_credential_slot_by_profile_id R pid s)) =
     (if credential_key (r_get R s (Profile_credential_release pid)) = None then r_get R s
      else (r_get R s)(Profile_credential_release pid := None))"
  by (simp add: release_credential_slot_by_profile_id_def split: option.split)

lemma release_get:
  "r_get R (release_profile_slot R pid s) =
     (if credential_key (r_get R s (Profile_credential_release pid)) = None then r_get R s
      else (r_get R s)(Profile_credential_release pid := None))"
  by (simp add: release_profile_slot_def Let_def release_credential_get)

lemma release_hash [simp]:
  "(\<And>q. k \<noteq> Profile_credential_release q) \<Longrightarrow>
   r_hash R (release_profile_slot R pid s) k = r_hash R s k"
  by (auto simp: release_profile_slot_def release_credential_slot_by_profile_id_def Let_def
      safe_decr_def fun_eq_iff split: option.split)

lemma release_slots:
  "slots R (release_profile_slot R pid s) =
     (let c = slots R (snd (release_credential_slot_by_profile_id R pid s));
          k = Profile_connections pid
      in c(k := if 0 < c k then c k - 1 else c k))"
  by (auto simp: release_profile_slot_def slots_def Let_def fun_eq_iff)

lemma reserve_slots:
  "slots R (snd (reserve_profile_slot R L e p extra v s)) =
     (if has_room R L e p extra v s
      then bump (pooled_key L p) 1 (bump (profile_key p) 1 (slots R s)) else slots R s)"
proof (cases "pooled_key L p")
  case None
  then show ?thesis
    by (auto simp: slots_def reserve_count profile_key_def fun_eq_iff)
next
  case (Some k)
  then show ?thesis
    using pooled_key_counter [OF Some]
    by (auto simp: slots_def reserve_count profile_key_def fun_eq_iff)
qed

lemma reserve_pool_ok:
  assumes "pool_ok R s"
  shows "pool_ok R (snd (reserve_profile_slot R L e p extra v s))"
  using assms pooled_key_counter [of L p]
  by (cases "pooled_key L p")
    (auto simp: pool_ok_def reserve_slots reserve_get profile_key_def)

lemma release_credential_pool_ok:
  assumes "pool_ok R s"
  shows "pool_ok R (snd (release_credential_slot_by_profile_id R pid s))"
  using assms
  by (cases "credential_key (r_get R s (Profile_credential_release pid))")
    (auto simp: pool_ok_def release_credential_slots release_credential_get)

lemma release_pool_ok:
  assumes "pool_ok R s"
  shows "pool_ok R (release_profile_slot R pid s)"
proof -
  have "pool_ok R (snd (release_credential_slot_by_profile_id R pid s))"
    by (rule release_credential_pool_ok [OF assms])
  then show ?thesis
    by (auto simp: pool_ok_def release_slots release_get release_credential_get Let_def)
qed

end

section \<open>The pool as its users see it\<close>

text \<open>A slot of a profile by its id, for a request without a viewer, without extra capacity.\<close>

definition take_profile_slot :: "'s redis_api \<Rightarrow> logins \<Rightarrow> env \<Rightarrow> int \<Rightarrow> 's \<Rightarrow> bool \<times> 's" where
  "take_profile_slot R L e pid s =
     (case profile_by_id e pid of
        None \<Rightarrow> (False, s)
      | Some p \<Rightarrow> (let (r, s1) = reserve_profile_slot R L e p 0 None s in (fst r, s1)))"

definition pid_counted :: "env \<Rightarrow> int \<Rightarrow> bool" where
  "pid_counted e pid \<longleftrightarrow>
     (case profile_by_id e pid of None \<Rightarrow> False | Some p \<Rightarrow> 0 < max_streams p)"

definition pid_limit :: "env \<Rightarrow> int \<Rightarrow> int" where
  "pid_limit e pid = (case profile_by_id e pid of None \<Rightarrow> 0 | Some p \<Rightarrow> max_streams p)"

definition pid_used :: "'s redis_api \<Rightarrow> 's \<Rightarrow> int \<Rightarrow> int" where
  "pid_used R s pid = slots R s (Profile_connections pid)"

lemma profile_by_id_id: "profile_by_id e pid = Some p \<Longrightarrow> prof_id p = pid"
  by (auto simp: profile_by_id_def find_Some_iff)

context redis
begin

lemma reserve_used:
  "pid_used R (snd (reserve_profile_slot R L e p extra v s)) =
     (if has_room R L e p extra v s \<and> 0 < max_streams p
      then (pid_used R s)(prof_id p := pid_used R s (prof_id p) + 1) else pid_used R s)"
proof -
  have "bump (pooled_key L p) 1 c (Profile_connections i) = c (Profile_connections i)" for c i
    by (cases "pooled_key L p") (auto dest: pooled_key_not_profile)
  then show ?thesis
    by (auto simp: pid_used_def fun_eq_iff reserve_slots profile_key_def)
qed

lemma release_used:
  assumes "pool_ok R s"
  shows "pid_used R (release_profile_slot R pid s) =
         (pid_used R s)(pid := max 0 (pid_used R s pid - 1))"
proof -
  let ?c = "slots R (snd (release_credential_slot_by_profile_id R pid s))"
  have c: "?c (Profile_connections i) = slots R s (Profile_connections i)" for i
    using assms
    by (cases "credential_key (r_get R s (Profile_credential_release pid))")
      (auto simp: release_credential_slots pool_ok_def)
  have "0 \<le> slots R s (Profile_connections pid)" using assms by (simp add: pool_ok_def)
  then show ?thesis by (auto simp: fun_eq_iff pid_used_def release_slots Let_def c)
qed

lemma room_below_limit:
  "has_room R L e p extra v s \<Longrightarrow> 0 < max_streams p \<Longrightarrow>
   slots R s (Profile_connections (prof_id p)) < max_streams p + extra"
  using slots_held_nonneg [of e p v None s]
  by (simp add: has_room_def profile_room_def slots_def)

lemma take_profile_slot_simps:
  "fst (take_profile_slot R L e pid s) =
     (case profile_by_id e pid of None \<Rightarrow> False | Some p \<Rightarrow> has_room R L e p 0 None s)"
  "snd (take_profile_slot R L e pid s) =
     (case profile_by_id e pid of None \<Rightarrow> s | Some p \<Rightarrow> snd (reserve_profile_slot R L e p 0 None s))"
  by (simp_all add: take_profile_slot_def case_prod_unfold Let_def reserve_ok split: option.split)

end

sublocale redis \<subseteq> pool: slot_pool "pool_ok R" "pid_used R" "pid_counted e" "pid_limit e"
  "take_profile_slot R L e" "release_profile_slot R"
  for e L
proof unfold_locales
  fix s pid
  assume ok: "pool_ok R s"
  show "pool_ok R (snd (take_profile_slot R L e pid s))"
    by (simp add: take_profile_slot_simps reserve_pool_ok ok split: option.split)
  show "pool_ok R (release_profile_slot R pid s)" by (rule release_pool_ok [OF ok])
  show "0 \<le> pid_used R s pid" using ok by (simp add: pool_ok_def pid_used_def)
  show "pid_used R (snd (take_profile_slot R L e pid s)) =
      (if fst (take_profile_slot R L e pid s) \<and> pid_counted e pid
       then (pid_used R s)(pid := pid_used R s pid + 1) else pid_used R s)"
    by (auto simp: take_profile_slot_simps reserve_used pid_counted_def profile_by_id_id
        split: option.split)
  show "pid_used R (release_profile_slot R pid s) =
      (pid_used R s)(pid := max 0 (pid_used R s pid - 1))"
    by (rule release_used [OF ok])
  assume "pid_counted e pid" and "fst (take_profile_slot R L e pid s)"
  then obtain p where "profile_by_id e pid = Some p" "0 < max_streams p" "has_room R L e p 0 None s"
    by (auto simp: take_profile_slot_simps pid_counted_def split: option.splits)
  then show "pid_used R s pid < pid_limit e pid"
    using room_below_limit [of L e p 0 None s] profile_by_id_id [of e pid p]
    by (simp add: pid_used_def pid_limit_def)
qed

section \<open>Reserve and release\<close>

context redis
begin

lemmas pool_run_limit = pool.run_limit
lemmas pool_run_used_bounds = pool.run_used_bounds

end

context redis
begin

text \<open>A slot taken and given back leaves every counter as it was.\<close>

lemma reserve_release:
  assumes ok: "pool_ok R s" and room: "has_room R L e p extra v s" and lim: "0 < max_streams p"
    and rel: "pooled_key L p = None \<Longrightarrow>
              credential_key (r_get R s (Profile_credential_release (prof_id p))) = None"
  shows "slots R (release_profile_slot R (prof_id p) (snd (reserve_profile_slot R L e p extra v s))) =
         slots R s"
proof -
  have nn: "0 \<le> slots R s k" for k using ok by (simp add: pool_ok_def)
  show ?thesis
  proof (cases "pooled_key L p")
    case None
    with rel room lim nn [of "Profile_connections (prof_id p)"] show ?thesis
      by (auto simp: release_slots release_credential_slots reserve_slots reserve_get
          profile_key_def Let_def fun_eq_iff add_increasing)
  next
    case (Some k)
    then obtain g f where "k = Server_group_connections g f" using pooled_key_counter by blast
    with Some room lim nn [of k] nn [of "Profile_connections (prof_id p)"] show ?thesis
      by (auto simp: release_slots release_credential_slots reserve_slots reserve_get
          profile_key_def Let_def fun_eq_iff add_increasing)
  qed
qed

text \<open>
  The login counter to release is remembered once per profile, not once per slot: of two slots
  on one profile of a server group, only one release finds it, and the login's count stays one
  too high.
\<close>

lemma reserve_twice_release_twice:
  assumes ok: "pool_ok R s" and k: "pooled_key L p = Some k" and lim: "0 < max_streams p"
    and s1: "s1 = snd (reserve_profile_slot R L e p extra v s)"
    and s2: "s2 = snd (reserve_profile_slot R L e p extra w s1)"
    and room: "has_room R L e p extra v s" "has_room R L e p extra w s1"
  shows "slots R (release_profile_slot R (prof_id p) (release_profile_slot R (prof_id p) s2)) =
         (slots R s)(k := slots R s k + 1)"
proof -
  have nn: "0 \<le> slots R s k" for k using ok by (simp add: pool_ok_def)
  obtain g f where kk: "k = Server_group_connections g f" using pooled_key_counter [OF k] by blast
  let ?P = "Profile_connections (prof_id p)"
  have c2: "slots R s2 = (slots R s)(?P := slots R s ?P + 2, k := slots R s k + 2)"
    unfolding s2 reserve_slots using room k lim kk
    by (auto simp: s1 reserve_slots profile_key_def fun_eq_iff)
  have g2: "r_get R s2 (Profile_credential_release (prof_id p)) = Some (VKey k)"
    unfolding s2 reserve_get using room k by simp
  let ?s3 = "release_profile_slot R (prof_id p) s2"
  have c3: "slots R ?s3 = (slots R s)(?P := slots R s ?P + 1, k := slots R s k + 1)"
    using nn [of k] nn [of ?P] kk
    by (auto simp: release_slots release_credential_slots c2 g2 Let_def fun_eq_iff)
  have "r_get R ?s3 (Profile_credential_release (prof_id p)) = None"
    by (simp add: release_get g2)
  then show ?thesis
    using nn [of k] nn [of ?P] kk
    by (auto simp: release_slots [of "prof_id p" ?s3] release_credential_slots c3 Let_def fun_eq_iff)
qed

section \<open>Moving between logins\<close>

text \<open>Where the login is the same, or the move succeeds, and where it does not.\<close>

lemma move_same_login:
  "get_profile_credential_fingerprint L old = get_profile_credential_fingerprint L new \<Longrightarrow>
   move_credential_slot_on_profile_switch R L e old new s = (True, s)"
  by (simp add: move_credential_slot_on_profile_switch_def)

lemma server_group_slot_slots:
  "slots R (snd (reserve_server_group_slot_for_profile R L e p extra v resp s)) =
     (if login_room R L e p extra v resp s then bump (pooled_key L p) 1 (slots R s) else slots R s)"
  using pooled_key_counter [of L p]
  by (cases "pooled_key L p") (auto simp: slots_def server_group_slot_count fun_eq_iff)

lemma move_ok:
  assumes "fst (move_credential_slot_on_profile_switch R L e old new s)"
    and "get_profile_credential_fingerprint L old \<noteq> get_profile_credential_fingerprint L new"
  shows "slots R (snd (move_credential_slot_on_profile_switch R L e old new s)) =
         bump (pooled_key L new) 1
           (slots R (snd (release_credential_slot_by_profile_id R (prof_id old) s)))"
proof -
  have r: "slots R (remember_credential_release_key R i j t) = slots R t" for i j t
    by (simp add: remember_credential_release_key_def slots_def fun_eq_iff)
  show ?thesis
    using assms
    by (auto simp: move_credential_slot_on_profile_switch_def Let_def case_prod_unfold
        server_group_slot server_group_slot_slots r split: if_splits option.splits)
qed

text \<open>
  A move that fails puts the old login's slot back when that login is within its limit; past
  the limit (an overlap slot) the slot is not put back, though the stream still plays.
\<close>

lemma move_failed:
  assumes ok: "pool_ok R s"
    and failed: "\<not> fst (move_credential_slot_on_profile_switch R L e old new s)"
    and k: "pooled_key L old = Some k"
    and rel: "r_get R s (Profile_credential_release (prof_id old)) = Some (VKey k)"
    and pos: "0 < slots R s k"
  shows "slots R (snd (move_credential_slot_on_profile_switch R L e old new s)) =
         (if slots R s k \<le> max_streams old then slots R s else (slots R s)(k := slots R s k - 1))"
proof -
  let ?s1 = "snd (release_credential_slot_by_profile_id R (prof_id old) s)"
  let ?s2 = "snd (reserve_server_group_slot_for_profile R L e new 0 None True ?s1)"
  have diff: "get_profile_credential_fingerprint L old \<noteq> get_profile_credential_fingerprint L new"
    and full: "\<not> login_room R L e new 0 None True ?s1"
    using failed
    by (auto simp: move_credential_slot_on_profile_switch_def Let_def case_prod_unfold
        server_group_slot split: if_splits)
  have kc: "is_counter k" using pooled_key_counter [OF k] by auto
  have c1: "slots R ?s1 = (slots R s)(k := slots R s k - 1)"
    using pos by (simp add: release_credential_slots rel)
  have c2: "slots R ?s2 = slots R ?s1" by (simp add: server_group_slot_slots full)
  have "\<not> login_unknown L old" using k by (rule pooled_login_known)
  then have room: "login_room R L e old 0 None False ?s2 \<longleftrightarrow> slots R s k \<le> max_streams old"
    using kc c1 c2 by (auto simp: login_room_def k slots_def fun_eq_iff split: if_splits)
  have r: "slots R (remember_credential_release_key R i j t) = slots R t" for i j t
    by (simp add: remember_credential_release_key_def slots_def fun_eq_iff)
  show ?thesis
    using diff full room c1 c2 k
    by (auto simp: move_credential_slot_on_profile_switch_def Let_def case_prod_unfold
        server_group_slot server_group_slot_slots r split: option.split)
qed

end

section \<open>Values the witnesses are evaluated on\<close>

definition ex_login :: rkey where
  "ex_login = Server_group_connections 7 (''user'' @ CHR 0x00 # ''pw'')"

lemma ex_pooled [simp]: "pooled_key ex_logins ex_profile = Some ex_login"
  by (simp add: pooled_key_def get_enforced_server_group_for_profile_def credential_counter_key_def
      ex_fingerprint ex_login_def)

lemma ex_login_known [simp]: "\<not> login_unknown ex_logins ex_profile"
  using ex_pooled by (rule pooled_login_known)

lemma mem_empty_views [simp]:
  "r_count mem_redis mem_empty = (\<lambda>_. 0)" "r_get mem_redis mem_empty = (\<lambda>_. None)"
  "r_hash mem_redis mem_empty = (\<lambda>_. [])" "r_members mem_redis mem_empty = (\<lambda>_. [])"
  by (simp_all add: mem_redis_def mem_empty_def mem_lookup_def fun_eq_iff)

lemma ex_pool_ok [simp]: "pool_ok mem_redis mem_empty"
  by (simp add: pool_ok_def slots_def)

lemma ex_no_holds [simp]: "holders mem_redis e mem_empty k = {}"
  by (simp add: holders_def)

lemma ex_held [simp]: "held mem_redis ex_env ex_profile None c mem_empty = 0"
  by (simp add: mem.slots_held_count by_recording_def)

lemma ex_room [simp]: "has_room mem_redis ex_logins ex_env ex_profile extra None mem_empty \<longleftrightarrow> - 2 < extra"
  by (auto simp: has_room_def profile_room_def login_room_def)

section \<open>Properties\<close>

text \<open>
  C1: A reservation is all or nothing, whatever the counters, holds and settings: it succeeds
  exactly when the profile's counter and, in a server group, the login's counter are both below
  the limit (plus the extra capacity, less the slots held for others); then each of the two
  counters is one higher and no other; otherwise every counter is as it was.
\<close>

theorem reserve_all_or_nothing:
  assumes "redis R"
  shows "(fst (fst (reserve_profile_slot R L e p extra v s)) \<longleftrightarrow> has_room R L e p extra v s) \<and>
         slots R (snd (reserve_profile_slot R L e p extra v s)) =
           (if has_room R L e p extra v s
            then bump (pooled_key L p) 1 (bump (profile_key p) 1 (slots R s)) else slots R s)"
  using redis.reserve_ok [OF assms] redis.reserve_slots [OF assms] by simp

lemma reserve_all_or_nothing_witness:
  "fst (fst (reserve_profile_slot mem_redis ex_logins ex_env ex_profile 0 None mem_empty)) \<and>
   slots mem_redis (snd (reserve_profile_slot mem_redis ex_logins ex_env ex_profile 0 None mem_empty))
     ex_login = 1"
  using reserve_all_or_nothing [OF mem.redis_axioms, of ex_logins ex_env ex_profile 0 None mem_empty]
  by (simp add: profile_key_def slots_def ex_login_def)

text \<open>
  C3: A slot that was reserved and is released again leaves every slot counter, the profile's and
  the login's, as it was before.
\<close>

theorem reserve_then_release:
  assumes "redis R" and "pool_ok R s" and "has_room R L e p extra v s" and "0 < max_streams p"
    and "pooled_key L p = None \<Longrightarrow>
         credential_key (r_get R s (Profile_credential_release (prof_id p))) = None"
  shows "slots R (release_profile_slot R (prof_id p) (snd (reserve_profile_slot R L e p extra v s))) =
         slots R s"
  using redis.reserve_release [OF assms(1-4)] assms(5) by blast

lemma reserve_then_release_witness:
  "slots mem_redis
     (release_profile_slot mem_redis 1
       (snd (reserve_profile_slot mem_redis ex_logins ex_env ex_profile 0 None mem_empty))) =
   slots mem_redis mem_empty"
  using reserve_then_release [OF mem.redis_axioms ex_pool_ok, of ex_logins ex_env ex_profile 0 None]
  by simp

text \<open>
  Of two streams on one profile of a server group, only the first release gives the login's
  slot back: the key to release is remembered per profile and forgotten at the first release.
  The login's counter stays one too high when both streams have ended.
\<close>

theorem second_release_keeps_login_slot:
  assumes "redis R" and "pool_ok R s" and "pooled_key L p = Some k" and "0 < max_streams p"
    and "has_room R L e p extra v s"
    and "has_room R L e p extra v (snd (reserve_profile_slot R L e p extra v s))"
  shows "slots R (release_profile_slot R (prof_id p) (release_profile_slot R (prof_id p)
           (snd (reserve_profile_slot R L e p extra v
             (snd (reserve_profile_slot R L e p extra v s)))))) =
         (slots R s)(k := slots R s k + 1)"
  using redis.reserve_twice_release_twice [OF assms(1-4) refl refl assms(5,6)] .

lemma ex_room_after:
  "has_room mem_redis ex_logins ex_env ex_profile 0 None
     (snd (reserve_profile_slot mem_redis ex_logins ex_env ex_profile 0 None mem_empty))"
proof -
  let ?s = "snd (reserve_profile_slot mem_redis ex_logins ex_env ex_profile 0 None mem_empty)"
  have "\<And>c. held mem_redis ex_env ex_profile None c ?s = 0"
    by code_simp
  then show ?thesis
    by (simp add: has_room_def profile_room_def login_room_def mem.reserve_count profile_key_def
        ex_login_def)
qed

lemma second_release_keeps_login_slot_witness:
  "slots mem_redis (release_profile_slot mem_redis 1 (release_profile_slot mem_redis 1
     (snd (reserve_profile_slot mem_redis ex_logins ex_env ex_profile 0 None
       (snd (reserve_profile_slot mem_redis ex_logins ex_env ex_profile 0 None mem_empty))))))
     ex_login = 1"
  using second_release_keeps_login_slot [OF mem.redis_axioms ex_pool_ok ex_pooled, of ex_env 0 None]
    ex_room_after
  by (simp add: slots_def)

text \<open>
  Switching a channel to a profile with another login that has no room leaves every counter as
  it was when the old login is within its limit. Past the limit (a slot of the overlap) the old
  login's slot is given up although the channel keeps playing on it.
\<close>

theorem failed_move_restores:
  assumes "redis R" and "pool_ok R s"
    and "\<not> fst (move_credential_slot_on_profile_switch R L e old new s)"
    and "pooled_key L old = Some k"
    and "r_get R s (Profile_credential_release (prof_id old)) = Some (VKey k)"
    and "0 < slots R s k"
  shows "slots R (snd (move_credential_slot_on_profile_switch R L e old new s)) =
         (if slots R s k \<le> max_streams old then slots R s else (slots R s)(k := slots R s k - 1))"
  using redis.move_failed [OF assms] .

definition ex_other :: profile where
  "ex_other = ex_profile\<lparr>prof_id := 2, m3u_account := ex_account\<lparr>username := []\<rparr>\<rparr>"

definition ex_reserved :: mem where
  "ex_reserved = snd (reserve_profile_slot mem_redis ex_logins ex_env ex_profile 0 None mem_empty)"

lemma ex_reserved_views:
  "pool_ok mem_redis ex_reserved"
  "r_get mem_redis ex_reserved (Profile_credential_release 1) = Some (VKey ex_login)"
  "slots mem_redis ex_reserved ex_login = 1"
  by (simp_all add: ex_reserved_def mem.reserve_pool_ok mem.reserve_get mem.reserve_slots
      profile_key_def slots_def ex_login_def)

lemma failed_move_restores_witness:
  "slots mem_redis
     (snd (move_credential_slot_on_profile_switch mem_redis ex_logins ex_env ex_profile ex_other
       ex_reserved)) = slots mem_redis ex_reserved"
proof -
  have "\<not> fst (move_credential_slot_on_profile_switch mem_redis ex_logins ex_env ex_profile ex_other
      ex_reserved)"
    unfolding ex_reserved_def by code_simp
  then show ?thesis
    using failed_move_restores [OF mem.redis_axioms ex_reserved_views(1) _ ex_pooled]
      ex_reserved_views(2,3)
    by simp
qed

text \<open>
  C4: The check before reserving is exact: it answers yes just when a reservation made now, for the
  same viewer and without extra capacity, would succeed.
\<close>

theorem capacity_check_exact:
  assumes "redis R" and "0 \<le> max_streams p"
  shows "fst (pool_has_capacity_for_profile R L e p v s) =
         fst (fst (reserve_profile_slot R L e p 0 v s))"
  using redis.pool_has_capacity_room [OF assms] redis.reserve_ok [OF assms(1)] by simp

lemma capacity_check_exact_witness:
  "fst (pool_has_capacity_for_profile mem_redis ex_logins ex_env ex_profile None mem_empty)"
  using capacity_check_exact [OF mem.redis_axioms, of ex_profile ex_logins ex_env None mem_empty]
    mem.reserve_ok [of ex_logins ex_env ex_profile 0 None mem_empty]
  by simp

end
