(* ===== verification/Streams.thy ===== *)
theory Streams
  imports Live_Channels "HOL-Library.Multiset"
begin

text \<open>
  Streams and channels (\<^verbatim>\<open>apps/channels/models.py\<close>, the fields used), how good a stream's
  picture is (\<^verbatim>\<open>channel_manager.py\<close> \<open>quality_of\<close>), and the order a channel's streams are tried
  in: within the quality a device can play (\<^verbatim>\<open>app_devices.py\<close>), and around a running Stream
  Check (\<^verbatim>\<open>stream_check.py\<close> \<open>viewer_order\<close>).
\<close>

section \<open>Streams and channels\<close>

record stream =
  str_id :: int
  str_name :: string
  resolution :: "string option"
  is_custom :: bool
  str_account :: "account option"

record channel =
  ch_id :: int
  ch_uuid :: string
  ch_streams :: "stream list"
  ch_stream_profile :: "stream_profile option"
  ch_override :: "stream_profile option option"

text \<open>\<open>_resolve_effective_fk\<close>: the override's value where a row and a value are there.\<close>

definition resolve_effective_fk :: "'a option option \<Rightarrow> 'a option \<Rightarrow> 'a option" where
  "resolve_effective_fk override own =
     (case override of Some (Some v) \<Rightarrow> Some v | _ \<Rightarrow> own)"

definition get_stream_profile :: "env \<Rightarrow> channel \<Rightarrow> stream_profile" where
  "get_stream_profile e ch =
     (case resolve_effective_fk (ch_override ch) (ch_stream_profile ch) of
        Some p \<Rightarrow> p | None \<Rightarrow> default_stream_profile e)"

definition account_profiles :: "env \<Rightarrow> account \<Rightarrow> profile list" where
  "account_profiles e a = filter (\<lambda>p. acc_id (m3u_account p) = acc_id a) (profiles e)"

section \<open>Picture quality\<close>

definition QUALITY_LABELS :: "string list" where
  "QUALITY_LABELS = [''4K'', ''FHD'', ''HD'', ''SD'']"

definition QUALITY_WORDS :: "(string \<times> string list) list" where
  "QUALITY_WORDS =
     [(''4K'', [''8k'', ''4k'', ''uhd'', ''2160p'']), (''FHD'', [''fhd'', ''1080p'', ''1080i'']),
      (''HD'', [''hd'', ''720p'']), (''SD'', [''sd'', ''576p'', ''576i'', ''480p'', ''480i''])]"

definition word_char :: "char \<Rightarrow> bool" where
  "word_char c \<longleftrightarrow> is_letter c \<or> is_digit c"

text \<open>
  \<open>_word_pattern(words).search(name)\<close>: one of the words, in any case, with neither a letter
  nor a digit before or behind it. The first argument is whether one is before.
\<close>

fun has_word :: "bool \<Rightarrow> string list \<Rightarrow> string \<Rightarrow> bool" where
  "has_word prev ws [] = False"
| "has_word prev ws (c # cs) =
     ((\<not> prev \<and>
       list_ex (\<lambda>w. starts_with (lower (c # cs)) w \<and>
                    (case drop (length w) (c # cs) of [] \<Rightarrow> True | d # _ \<Rightarrow> \<not> word_char d)) ws) \<or>
      has_word (word_char c) ws cs)"

definition height_rank :: "int \<Rightarrow> nat" where
  "height_rank h = (if 2000 \<le> h then 0 else if 1000 \<le> h then 1 else if 700 \<le> h then 2 else 3)"

definition measured_height :: "string option \<Rightarrow> int" where
  "measured_height res =
     (case res of
        None \<Rightarrow> 0
      | Some r \<Rightarrow>
          (if CHR ''x'' \<notin> set r then 0
           else (let behind = tl (dropWhile (\<lambda>c. c \<noteq> CHR ''x'') (lower r))
                 in case parse_int behind of None \<Rightarrow> 0 | Some h \<Rightarrow> h)))"

text \<open>
  \<open>quality_of\<close> by its rank, the index into \<open>QUALITY_LABELS\<close>; \<open>None\<close> is a stream that says
  nothing (the empty label).
\<close>

definition quality_of :: "stream \<Rightarrow> nat option" where
  "quality_of st =
     (let h = measured_height (resolution st) in
      if h \<noteq> 0 then Some (height_rank h)
      else List.find (\<lambda>i. has_word False (snd (QUALITY_WORDS ! i)) (str_name st)) [0..<4])"

text \<open>\<open>_lowest\<close>: the strictest limit, the empty text when there is none.\<close>

fun label_index :: "string list \<Rightarrow> string \<Rightarrow> nat option" where
  "label_index [] l = None"
| "label_index (x # xs) l = (if x = l then Some 0 else map_option Suc (label_index xs l))"

definition lowest :: "string list \<Rightarrow> string" where
  "lowest limits =
     (let given = List.map_filter (label_index QUALITY_LABELS) limits
      in if given = [] then [] else QUALITY_LABELS ! Max (set given))"

section \<open>The limit of a viewer\<close>

text \<open>\<open>arrtv|aeriotv[^ ]*-arr\<close> in the app name, in any case.\<close>

fun aerio_arr :: "string \<Rightarrow> bool" where
  "aerio_arr [] = False"
| "aerio_arr (c # cs) =
     ((starts_with (c # cs) ''aeriotv'' \<and>
       contains ''-arr'' (takeWhile (\<lambda>x. x \<noteq> CHR '' '') (drop 7 (c # cs)))) \<or> aerio_arr cs)"

definition is_arrtv :: "viewer option \<Rightarrow> bool" where
  "is_arrtv v =
     (case v of
        None \<Rightarrow> False
      | Some w \<Rightarrow> is_declared (server_device w) \<or>
          (let a = lower (text_or [] (app w)) in contains ''arrtv'' a \<or> aerio_arr a))"

text \<open>Whether an address is at home; \<open>None\<close> without home networks or an address.\<close>

definition at_home :: "string option \<Rightarrow> string \<Rightarrow> bool option" where
  "at_home ip networks_text =
     (case parse_lan_subnets (Inr networks_text) of
        Inl _ \<Rightarrow> None
      | Inr networks \<Rightarrow>
          (if networks = [] then None
           else case Option.bind ip ip_address of
                  None \<Rightarrow> None
                | Some w \<Rightarrow> Some (list_ex (in_network w) (List.map_filter ip_network networks))))"

definition where_is :: "env \<Rightarrow> viewer \<Rightarrow> string" where
  "where_is e v =
     (case at_home (v_ip v) (text_of (app_settings e) ''home_networks'') of
        None \<Rightarrow> ''any'' | Some True \<Rightarrow> ''home'' | Some False \<Rightarrow> ''away'')"

definition stall_switch_enabled :: "env \<Rightarrow> bool" where
  "stall_switch_enabled e \<longleftrightarrow>
     switch_on (app_settings e) ''devices'' \<and> switch_on (app_settings e) ''stall_switch''"

definition held_quality :: "'s redis_api \<Rightarrow> env \<Rightarrow> 's \<Rightarrow> viewer \<Rightarrow> string" where
  "held_quality R e s v =
     (case server_device v of
        None \<Rightarrow> []
      | Some d \<Rightarrow>
          (if \<not> is_declared (Some d) \<or> \<not> stall_switch_enabled e then []
           else case r_get R s (Stalls_held d (where_is e v)) of
                  Some (VStr q) \<Rightarrow> (if q \<in> set QUALITY_LIMITS then q else [])
                | _ \<Rightarrow> []))"

definition quality_limit_for :: "'s redis_api \<Rightarrow> env \<Rightarrow> 's \<Rightarrow> viewer option \<Rightarrow> string" where
  "quality_limit_for R e s v =
     (case v of
        None \<Rightarrow> []
      | Some w \<Rightarrow>
          (if \<not> is_arrtv v then []
           else
             (let st = app_settings e;
                  outside = text_of st ''outside_max_quality'';
                  away = at_home (v_ip w) (text_of st ''home_networks'') = Some False;
                  limit = lowest [if away then outside else [], text_or [] (max_quality w)]
              in if switch_on st ''stall_switch'' \<and> switch_on st ''devices'' \<and>
                    is_declared (server_device w)
                 then lowest [limit, held_quality R e s w] else limit)))"

section \<open>The order streams are tried in\<close>

definition within_limit :: "string \<Rightarrow> stream \<Rightarrow> bool" where
  "within_limit limit st =
     (case (quality_of st, label_index QUALITY_LABELS limit) of
        (Some r, Some most) \<Rightarrow> most \<le> r
      | _ \<Rightarrow> True)"

definition same_stream :: "stream \<Rightarrow> stream \<Rightarrow> bool" where
  "same_stream a b \<longleftrightarrow> str_id a = str_id b"

definition order_within :: "string \<Rightarrow> stream list \<Rightarrow> stream list" where
  "order_within limit ss =
     (if limit = [] then ss
      else
        (let real = filter (\<lambda>s. \<not> is_custom s) ss; allowed = filter (within_limit limit) real
         in if length allowed = length real then ss
            else allowed @ filter (\<lambda>s. \<not> list_ex (same_stream s) allowed) real @ filter is_custom ss))"

definition ordered_for :: "'s redis_api \<Rightarrow> env \<Rightarrow> 's \<Rightarrow> viewer option \<Rightarrow> stream list \<Rightarrow> stream list" where
  "ordered_for R e s v ss = order_within (quality_limit_for R e s v) ss"

text \<open>
  \<open>viewer_order\<close>: while Stream Check runs, the accounts the viewer watches through first, the
  ones being checked last, custom streams in their places.
\<close>

definition check_rank :: "int list \<Rightarrow> int list \<Rightarrow> stream \<Rightarrow> nat" where
  "check_rank watching checking st =
     (case str_account st of
        None \<Rightarrow> 1
      | Some a \<Rightarrow> if acc_id a \<in> set watching then 0 else if acc_id a \<in> set checking then 2 else 1)"

fun fill_places :: "stream list \<Rightarrow> stream list \<Rightarrow> stream list" where
  "fill_places [] ordered = []"
| "fill_places (s # ss) ordered =
     (if is_custom s then s # fill_places ss ordered
      else case ordered of [] \<Rightarrow> s # fill_places ss [] | t # ts \<Rightarrow> t # fill_places ss ts)"

definition watching_accounts :: "'s redis_api \<Rightarrow> env \<Rightarrow> 's \<Rightarrow> viewer option \<Rightarrow> int list" where
  "watching_accounts R e s v =
     List.map_filter (\<lambda>(pid, _). map_option (\<lambda>p. acc_id (m3u_account p)) (profile_by_id e pid))
       (watched_channels_by R e s v)"

definition viewer_order :: "'s redis_api \<Rightarrow> env \<Rightarrow> 's \<Rightarrow> viewer option \<Rightarrow> stream list \<Rightarrow> stream list" where
  "viewer_order R e s v ss =
     (case stream_check e of
        None \<Rightarrow> ss
      | Some checking \<Rightarrow>
          (let watching = watching_accounts R e s v in
           if checking = [] \<and> watching = [] then ss
           else fill_places ss
                  (sort_key (check_rank watching checking) (filter (\<lambda>s. \<not> is_custom s) ss))))"

section \<open>The limit a channel was started with\<close>

definition channel_limit_key :: "string \<Rightarrow> rkey" where
  "channel_limit_key c = Named_key (''live:app_devices:channel_limit:'' @ c)"

definition CHANNEL_LIMIT_TTL :: int where "CHANNEL_LIMIT_TTL = 24 * 3600"
definition LIMIT_BEFORE_START :: real where "LIMIT_BEFORE_START = 120"

definition remember_channel_limit ::
  "'s redis_api \<Rightarrow> env \<Rightarrow> string \<Rightarrow> viewer option \<Rightarrow> 's \<Rightarrow> 's" where
  "remember_channel_limit R e c v s =
     (let limit = quality_limit_for R e s v in
      if limit = [] then s
      else r_setex R s (channel_limit_key c) CHANNEL_LIMIT_TTL (VPair (VStr limit) (VTime (now e))))"

text \<open>A kept limit counts only for the run of the channel it was kept for.\<close>

definition limit_of_this_run :: "'s redis_api \<Rightarrow> 's \<Rightarrow> string \<Rightarrow> string" where
  "limit_of_this_run R s c =
     (case r_get R s (channel_limit_key c) of
        Some (VPair (VStr limit) (VTime kept)) \<Rightarrow>
          (case r_hget R s (metadata c) ''init_time'' of
             Some (VTime started) \<Rightarrow> (if kept < started - LIMIT_BEFORE_START then [] else limit)
           | _ \<Rightarrow> limit)
      | _ \<Rightarrow> [])"

text \<open>\<open>failover_order\<close>, over the stream ids of stock's alternates.\<close>

definition limits_in_use :: "settings \<Rightarrow> bool" where
  "limits_in_use st \<longleftrightarrow> switch_on st ''devices'' \<or> text_of st ''outside_max_quality'' \<noteq> []"

definition failover_order :: "'s redis_api \<Rightarrow> env \<Rightarrow> 's \<Rightarrow> string \<Rightarrow> int list \<Rightarrow> stream list \<Rightarrow> int list" where
  "failover_order R e s c alternates ss =
     (if \<not> limits_in_use (app_settings e) then alternates
      else
        (let limit = limit_of_this_run R s c in
         if limit = [] then alternates
         else
           (let custom = (\<lambda>i. list_ex (\<lambda>st. str_id st = i \<and> is_custom st) ss);
                fits = (\<lambda>i. case List.find (\<lambda>st. str_id st = i) (rev ss) of
                                None \<Rightarrow> True | Some st \<Rightarrow> within_limit limit st);
                real = filter (\<lambda>i. \<not> custom i) alternates;
                allowed = filter fits real
            in allowed @ filter (\<lambda>i. i \<notin> set allowed) real @ filter custom alternates)))"

section \<open>Ordering loses and repeats no stream\<close>

lemma mset_filter_split: "mset xs = mset (filter P xs) + mset (filter (\<lambda>x. \<not> P x) xs)"
  by (induction xs) auto

lemma not_allowed_iff:
  assumes "distinct (map str_id ss)" and "x \<in> set (filter Q ss)"
  shows "list_ex (same_stream x) (filter P (filter Q ss)) \<longleftrightarrow> P x"
proof -
  have "y = x" if "y \<in> set ss" "str_id y = str_id x" for y
    using that assms by (auto simp: distinct_map inj_on_def)
  then show ?thesis using assms(2) by (auto simp: list_ex_iff same_stream_def)
qed

text \<open>The streams within the limit first, then the better ones, then the custom ones.\<close>

lemma order_within_parts:
  assumes "distinct (map str_id ss)"
  shows "order_within limit ss = ss \<or>
    order_within limit ss =
      filter (within_limit limit) (filter (\<lambda>s. \<not> is_custom s) ss) @
      filter (\<lambda>s. \<not> within_limit limit s) (filter (\<lambda>s. \<not> is_custom s) ss) @ filter is_custom ss"
proof -
  have "filter (\<lambda>s. \<not> list_ex (same_stream s) (filter (within_limit limit) (filter (\<lambda>s. \<not> is_custom s) ss)))
          (filter (\<lambda>s. \<not> is_custom s) ss) =
        filter (\<lambda>s. \<not> within_limit limit s) (filter (\<lambda>s. \<not> is_custom s) ss)"
    by (rule filter_cong [OF refl]) (simp add: not_allowed_iff [OF assms] del: filter_filter)
  then show ?thesis by (simp add: order_within_def Let_def del: filter_filter)
qed

lemma order_within_mset:
  assumes "distinct (map str_id ss)"
  shows "mset (order_within limit ss) = mset ss"
proof -
  have "mset (filter (within_limit limit) (filter (\<lambda>s. \<not> is_custom s) ss)) +
        mset (filter (\<lambda>s. \<not> within_limit limit s) (filter (\<lambda>s. \<not> is_custom s) ss)) =
        mset (filter (\<lambda>s. \<not> is_custom s) ss)"
    using mset_filter_split [of "filter (\<lambda>s. \<not> is_custom s) ss" "within_limit limit"] by simp
  then show ?thesis
    using order_within_parts [OF assms, of limit] mset_filter_split [of ss is_custom]
    by (auto simp del: filter_filter mset_filter simp: add_ac)
qed

lemma fill_places_length: "length (fill_places ss os) = length ss"
  by (induction ss os rule: fill_places.induct) (auto split: list.splits)

lemma fill_places_custom:
  assumes "\<forall>t \<in> set ts. \<not> is_custom t"
  shows "map is_custom (fill_places ss ts) = map is_custom ss \<and>
         (\<forall>i < length ss. is_custom (ss ! i) \<longrightarrow> fill_places ss ts ! i = ss ! i)"
  using assms
proof (induction ss ts rule: fill_places.induct)
  case (2 s ss ordered)
  then show ?case by (cases ordered) (auto simp: nth_Cons split: nat.splits)
qed simp

lemma fill_places_mset:
  "length ts = length (filter (\<lambda>s. \<not> is_custom s) ss) \<Longrightarrow>
   mset (fill_places ss ts) = mset (filter is_custom ss) + mset ts"
proof (induction ss ts rule: fill_places.induct)
  case (2 s ss ordered)
  then show ?case by (cases ordered) auto
qed simp

lemma viewer_order_mset: "mset (viewer_order R e s v ss) = mset ss"
  using mset_filter_split [of ss is_custom]
  by (auto simp: viewer_order_def Let_def fill_places_mset split: option.splits)

lemma viewer_order_custom:
  "i < length ss \<Longrightarrow> is_custom (ss ! i) \<Longrightarrow> viewer_order R e s v ss ! i = ss ! i"
  using fill_places_custom [of "sort_key (check_rank _ _) (filter (\<lambda>s. \<not> is_custom s) ss)" ss]
  by (auto simp: viewer_order_def Let_def split: option.splits)

end
