(* ===== verification/Overlap.thy ===== *)
theory Overlap
  imports Connection_Pool Streams
begin

text \<open>
  Which account a switching viewer's next channel starts on, and the overlap slot
  (\<^verbatim>\<open>apps/proxy/live_proxy/probation.py\<close>, Account preference when switching and Overlap):
  staying on the same account, starting on another one, or one slot past the limit with a
  probation record that is resolved later. The log of switches kept for the settings page is
  written by these operations and read by none of them; it is left out.
\<close>

definition PROBATION_EXTRA_CAPACITY :: int where "PROBATION_EXTRA_CAPACITY = 1"
definition LAST_PROFILE_TTL :: int where "LAST_PROFILE_TTL = 60"
definition MONITOR_LEASE_TTL :: int where "MONITOR_LEASE_TTL = 20"

section \<open>The profile a viewer was last on\<close>

definition lan_last_key :: "viewer \<Rightarrow> string" where
  "lan_last_key v =
     ''lan|'' @ text_or ''None'' (v_ip v) @ CHR ''|'' # dec (uid v) @ CHR ''|'' # text_or [] (app v)"

definition last_profile_id :: "'s redis_api \<Rightarrow> 's \<Rightarrow> viewer \<Rightarrow> int option" where
  "last_profile_id R s v =
     (case r_get R s (Last_profile (viewer_key v)) of
        Some x \<Rightarrow> val_int x
      | None \<Rightarrow>
          (if text_or [] (app v) = [] then None
           else Option.bind (r_get R s (Last_profile (lan_last_key v))) val_int))"

definition remember_viewer_profile ::
  "'s redis_api \<Rightarrow> viewer option \<Rightarrow> profile \<Rightarrow> account \<Rightarrow> 's \<Rightarrow> 's" where
  "remember_viewer_profile R v p a s =
     (case v of
        None \<Rightarrow> s
      | Some w \<Rightarrow>
          (if recording w \<or> \<not> account_allows_probation a \<or> account_switch_preference a = Order
           then s
           else
             (let s1 = r_setex R s (Last_profile (viewer_key w)) LAST_PROFILE_TTL (VInt (prof_id p))
              in case lan_device_key w (Some a) of
                   None \<Rightarrow> s1
                 | Some k \<Rightarrow> r_setex R s1 (Last_profile k) LAST_PROFILE_TTL (VInt (prof_id p)))))"

section \<open>Assignments\<close>

text \<open>A channel's stream and the stream's profile, as every path that got a slot records them.\<close>

definition assign :: "'s redis_api \<Rightarrow> int \<Rightarrow> stream \<Rightarrow> profile \<Rightarrow> 's \<Rightarrow> 's" where
  "assign R owner st p s =
     r_set R (r_set R s (Channel_stream owner) (VInt (str_id st)))
       (Stream_profile (str_id st)) (VInt (prof_id p))"

definition default_first :: "profile list \<Rightarrow> profile list" where
  "default_first ps = sort_key (\<lambda>p. if is_default p then 0 else (1::nat)) ps"

type_synonym candidate = "stream \<times> profile"

definition channel_candidates ::
  "'s redis_api \<Rightarrow> env \<Rightarrow> 's \<Rightarrow> channel \<Rightarrow> (account \<Rightarrow> bool) \<Rightarrow> viewer option \<Rightarrow> candidate list" where
  "channel_candidates R e s ch account_filter v =
     concat (map (\<lambda>st.
       case str_account st of
         None \<Rightarrow> []
       | Some a \<Rightarrow>
           (if \<not> acc_active a \<or> \<not> account_filter a then []
            else map (Pair st) (default_first (filter prof_active (account_profiles e a)))))
       (ordered_for R e s v (ch_streams ch)))"

section \<open>The probation record\<close>

definition mark_probation ::
  "'s redis_api \<Rightarrow> env \<Rightarrow> channel \<Rightarrow> int \<Rightarrow> int \<Rightarrow> int \<Rightarrow> 's \<Rightarrow> 's" where
  "mark_probation R e ch stream_id profile_id seconds s =
     (let key = Probation (ch_uuid ch);
          s1 = foldl (\<lambda>t (f, v). r_hset R t key f v) s
                 [(''channel_id'', VInt (ch_id ch)), (''stream_id'', VInt stream_id),
                  (''profile_id'', VInt profile_id), (''started_at'', VTime (now e)),
                  (''deadline'', VTime (now e + of_int seconds))];
          s2 = r_sadd R (r_expire R s1 key (seconds + 120)) Pending_probations (ch_uuid ch)
      in r_setex R s2 (Monitor_lease (ch_uuid ch)) MONITOR_LEASE_TTL (VStr ''starting''))"

definition has_pending_probation :: "'s redis_api \<Rightarrow> 's \<Rightarrow> string \<Rightarrow> bool" where
  "has_pending_probation R s c \<longleftrightarrow> r_exists R s (Probation c)"

definition clear_probation :: "'s redis_api \<Rightarrow> string \<Rightarrow> 's \<Rightarrow> 's" where
  "clear_probation R c s =
     r_srem R (r_del R (r_del R s (Probation c)) (Monitor_lease c)) Pending_probations c"

section \<open>Staying on the same account\<close>

text \<open>What is done once a slot was reserved, with or without the overlap.\<close>

definition slot_given ::
  "'s redis_api \<Rightarrow> env \<Rightarrow> channel \<Rightarrow> viewer \<Rightarrow> bool \<Rightarrow> stream \<Rightarrow> profile \<Rightarrow> account \<Rightarrow> 's \<Rightarrow> 's" where
  "slot_given R e ch v on_overlap st p a s =
     (let s1 = assign R (ch_id ch) st p (snd (take_held_slot R e p (Some v) s));
          s2 = (if on_overlap
                then mark_probation R e ch (str_id st) (prof_id p) (account_probation_seconds a) s1
                else s1)
      in remember_viewer_profile R (Some v) p a s2)"

fun sticky_from ::
  "'s redis_api \<Rightarrow> logins \<Rightarrow> env \<Rightarrow> channel \<Rightarrow> viewer \<Rightarrow> int list \<Rightarrow> candidate list \<Rightarrow> 's \<Rightarrow>
   (int \<times> int) option \<times> 's" where
  "sticky_from R L e ch v watched [] s = (None, s)"
| "sticky_from R L e ch v watched ((st, p) # cs) s =
     (let (r, s1) = reserve_profile_slot R L e p 0 (Some v) s in
      if fst r
      then (Some (str_id st, prof_id p), slot_given R e ch v False st p (m3u_account p) s1)
      else if 0 < max_streams p \<and> prof_id p \<in> set watched then
        (let (r2, s2) = reserve_profile_slot R L e p PROBATION_EXTRA_CAPACITY (Some v) s1 in
         if fst r2
         then (Some (str_id st, prof_id p), slot_given R e ch v True st p (m3u_account p) s2)
         else sticky_from R L e ch v watched cs s2)
      else sticky_from R L e ch v watched cs s1)"

definition sticky_candidates ::
  "'s redis_api \<Rightarrow> env \<Rightarrow> 's \<Rightarrow> channel \<Rightarrow> viewer \<Rightarrow> candidate list" where
  "sticky_candidates R e s ch v =
     channel_candidates R e s ch
       (\<lambda>a. account_allows_probation a \<and> account_keeps_viewers a \<and> is_identified (Some v) (Some a))
       (Some v)"

definition preferred_profiles :: "'s redis_api \<Rightarrow> env \<Rightarrow> 's \<Rightarrow> viewer \<Rightarrow> int list" where
  "preferred_profiles R e s v =
     (let watched = map fst (watched_channels_by R e s (Some v)) in
      case last_profile_id R s v of
        None \<Rightarrow> watched
      | Some pid \<Rightarrow> (if pid = 0 \<or> pid \<in> set watched then watched else watched @ [pid]))"

definition reserve_sticky_slot ::
  "'s redis_api \<Rightarrow> logins \<Rightarrow> env \<Rightarrow> channel \<Rightarrow> viewer option \<Rightarrow> 's \<Rightarrow> (int \<times> int) option \<times> 's" where
  "reserve_sticky_slot R L e ch v s =
     (case v of
        None \<Rightarrow> (None, s)
      | Some w \<Rightarrow>
          (if recording w \<or> \<not> in_use e then (None, s)
           else
             (let cands = sticky_candidates R e s ch w in
              if cands = [] \<or> is_redirect (get_stream_profile e ch) then (None, s)
              else sticky_from R L e ch w (map fst (watched_channels_by R e s (Some w)))
                     (concat (map (\<lambda>pid. filter (\<lambda>(st, p). prof_id p = pid) cands)
                        (preferred_profiles R e s w))) s)))"

section \<open>Starting on another account\<close>

definition release_viewer_holds ::
  "'s redis_api \<Rightarrow> viewer \<Rightarrow> (int \<times> account) list \<Rightarrow> 's \<Rightarrow> 's" where
  "release_viewer_holds R v left s =
     foldl (\<lambda>t (pid, a). snd (drop_hold R (identity_key v (Some a)) pid t)) s left"

fun alternate_from ::
  "'s redis_api \<Rightarrow> logins \<Rightarrow> env \<Rightarrow> channel \<Rightarrow> viewer \<Rightarrow> (int \<times> account) list \<Rightarrow> candidate list \<Rightarrow>
   's \<Rightarrow> (int \<times> int) option \<times> 's" where
  "alternate_from R L e ch v left [] s = (None, s)"
| "alternate_from R L e ch v left ((st, p) # cs) s =
     (if prof_id p \<in> fst ` set left \<or> is_custom st then alternate_from R L e ch v left cs s
      else
        (let (r, s1) = reserve_profile_slot R L e p 0 (Some v) s in
         if \<not> fst r then alternate_from R L e ch v left cs s1
         else
           (let s2 = assign R (ch_id ch) st p s1;
                s3 = snd (take_held_slot R e p (Some v) s2);
                s4 = release_viewer_holds R v left s3
            in (Some (str_id st, prof_id p),
                remember_viewer_profile R (Some v) p (m3u_account p) s4))))"

text \<open>The profiles being left: watched on, last assigned or held, where the account alternates.\<close>

definition left_profiles ::
  "'s redis_api \<Rightarrow> env \<Rightarrow> 's \<Rightarrow> viewer \<Rightarrow> (int \<times> account) list \<Rightarrow> (int \<times> account) list" where
  "left_profiles R e s v accounts =
     filter (\<lambda>(pid, a).
       (pid \<in> fst ` set (watched_channels_by R e s (Some v)) \<or> last_profile_id R s v = Some pid \<or>
        r_hget R s (Held_slots pid) (identity_key v (Some a)) \<noteq> None) \<and>
       account_allows_probation a \<and> account_alternates_viewers a \<and> is_identified (Some v) (Some a))
       accounts"

definition reserve_alternate_slot ::
  "'s redis_api \<Rightarrow> logins \<Rightarrow> env \<Rightarrow> channel \<Rightarrow> viewer option \<Rightarrow> 's \<Rightarrow> (int \<times> int) option \<times> 's" where
  "reserve_alternate_slot R L e ch v s =
     (case v of
        None \<Rightarrow> (None, s)
      | Some w \<Rightarrow>
          (if recording w \<or> \<not> in_use e then (None, s)
           else
             (let cands = channel_candidates R e s ch account_allows_probation v;
                  accounts = map (\<lambda>(st, p). (prof_id p, m3u_account p)) cands
              in if \<not> list_ex (\<lambda>(_, a). account_alternates_viewers a) accounts then (None, s)
                 else
                   (let left = left_profiles R e s w accounts in
                    if left = [] \<or> is_redirect (get_stream_profile e ch) then (None, s)
                    else alternate_from R L e ch w left cands s))))"

section \<open>The overlap slot\<close>

fun overlap_from ::
  "'s redis_api \<Rightarrow> logins \<Rightarrow> env \<Rightarrow> channel \<Rightarrow> viewer \<Rightarrow> candidate list \<Rightarrow> 's \<Rightarrow>
   (int \<times> int) option \<times> 's" where
  "overlap_from R L e ch v [] s = (None, s)"
| "overlap_from R L e ch v ((st, p) # cs) s =
     (let (r, s1) = reserve_profile_slot R L e p PROBATION_EXTRA_CAPACITY (Some v) s in
      if \<not> fst r then overlap_from R L e ch v cs s1
      else
        (let s2 = assign R (ch_id ch) st p s1;
             s3 = mark_probation R e ch (str_id st) (prof_id p)
                    (account_probation_seconds (m3u_account p)) s2;
             s4 = snd (take_held_slot R e p (Some v) s3)
         in (Some (str_id st, prof_id p),
             remember_viewer_profile R (Some v) p (m3u_account p) s4)))"

text \<open>
  The pairs found full that the overlap may use: a limited profile of an account that has it on
  and tells this viewer apart, that the viewer is watching on.
\<close>

definition overlap_candidates ::
  "'s redis_api \<Rightarrow> env \<Rightarrow> 's \<Rightarrow> viewer \<Rightarrow> candidate list \<Rightarrow> candidate list" where
  "overlap_candidates R e s v full =
     filter (\<lambda>(st, p). 0 < max_streams p \<and> account_allows_probation (m3u_account p) \<and>
               is_identified (Some v) (Some (m3u_account p))) full"

definition reserve_overlap_slot ::
  "'s redis_api \<Rightarrow> logins \<Rightarrow> env \<Rightarrow> channel \<Rightarrow> viewer option \<Rightarrow> candidate list \<Rightarrow> 's \<Rightarrow>
   (int \<times> int) option \<times> 's" where
  "reserve_overlap_slot R L e ch v full s =
     (case v of
        None \<Rightarrow> (None, s)
      | Some w \<Rightarrow>
          (if recording w then (None, s)
           else
             (let cands = overlap_candidates R e s w full in
              if cands = [] \<or> is_redirect (get_stream_profile e ch) then (None, s)
              else
                (let watched = map fst (watched_channels_by R e s v) in
                 overlap_from R L e ch w (filter (\<lambda>(st, p). prof_id p \<in> set watched) cands) s))))"

definition profile_within_limits :: "'s redis_api \<Rightarrow> logins \<Rightarrow> profile \<Rightarrow> 's \<Rightarrow> bool" where
  "profile_within_limits R L p s \<longleftrightarrow>
     max_streams p = 0 \<or>
     (get_profile_connection_count R p s \<le> max_streams p \<and>
      (get_enforced_server_group_for_profile p = None \<or>
       get_credential_connection_count R L p s \<le> max_streams p))"

section \<open>What a slot given does to the pool\<close>

text \<open>The part of the store the pool's accounting rests on.\<close>

definition pool_view :: "'s redis_api \<Rightarrow> 's \<Rightarrow> (rkey \<Rightarrow> int) \<times> (int \<Rightarrow> rval option)" where
  "pool_view R s = (slots R s, \<lambda>pid. r_get R s (Profile_credential_release pid))"

definition slot_taken ::
  "logins \<Rightarrow> profile \<Rightarrow> (rkey \<Rightarrow> int) \<times> (int \<Rightarrow> rval option) \<Rightarrow>
   (rkey \<Rightarrow> int) \<times> (int \<Rightarrow> rval option)" where
  "slot_taken L p v =
     (bump (pooled_key L p) 1 (bump (profile_key p) 1 (fst v)),
      case pooled_key L p of None \<Rightarrow> snd v | Some k \<Rightarrow> (snd v)(prof_id p \<mapsto> VKey k))"

text \<open>The keys the assignment of a channel is read from.\<close>

fun assignment_key :: "rkey \<Rightarrow> bool" where
  "assignment_key (Channel_stream _) = True"
| "assignment_key (Stream_profile _) = True"
| "assignment_key _ = False"

text \<open>The profiles a slot may be taken on.\<close>

definition usable :: "env \<Rightarrow> profile \<Rightarrow> bool" where
  "usable e p \<longleftrightarrow> p \<in> set (profiles e) \<and> prof_active p"

text \<open>
  What every path that looks for a slot does: without one the pool is as it was; with one
  exactly that profile's slot is taken, which was less than \<open>extra\<close> past its limit before, and
  the channel's assignment says so.
\<close>

definition slot_outcome ::
  "'s redis_api \<Rightarrow> logins \<Rightarrow> int \<Rightarrow> int \<Rightarrow> (profile \<Rightarrow> bool) \<Rightarrow> (int \<times> int) option \<Rightarrow>
   's \<Rightarrow> 's \<Rightarrow> bool" where
  "slot_outcome R L extra owner P res s s' \<longleftrightarrow>
     (case res of
        None \<Rightarrow> pool_view R s' = pool_view R s \<and> (\<forall>k. assignment_key k \<longrightarrow> r_get R s' k = r_get R s k)
      | Some (sid, pid) \<Rightarrow>
          (\<exists>p. prof_id p = pid \<and> P p \<and> pool_view R s' = slot_taken L p (pool_view R s) \<and>
             (0 < max_streams p \<longrightarrow>
                slots R s (Profile_connections pid) < max_streams p + extra)) \<and>
          r_get R s' (Channel_stream owner) = Some (VInt sid) \<and>
          r_get R s' (Stream_profile sid) = Some (VInt pid))"

lemma slot_outcome_granted:
  assumes "P p" and "pool_view R s' = slot_taken L p (pool_view R s)"
    and "0 < max_streams p \<Longrightarrow> slots R s (Profile_connections (prof_id p)) < max_streams p + extra"
    and "r_get R s' (Channel_stream owner) = Some (VInt sid)"
    and "r_get R s' (Stream_profile sid) = Some (VInt (prof_id p))"
  shows "slot_outcome R L extra owner P (Some (sid, prof_id p)) s s'"
  using assms by (auto simp: slot_outcome_def)

lemma pool_ok_view: "pool_view R s' = pool_view R s \<Longrightarrow> pool_ok R s' = pool_ok R s"
  by (simp add: pool_view_def pool_ok_def fun_eq_iff)

context redis
begin

lemma assign_get:
  "r_get R (assign R i st p s) =
     (r_get R s)(Channel_stream i \<mapsto> VInt (str_id st), Stream_profile (str_id st) \<mapsto> VInt (prof_id p))"
  by (simp add: assign_def)

lemma assign_view [simp]: "slots R (assign R i st p s) = slots R s"
  "pool_view R (assign R i st p s) = pool_view R s"
  by (simp_all add: assign_def slots_def pool_view_def fun_eq_iff)

lemma remember_get:
  "(\<forall>x. k \<noteq> Last_profile x) \<Longrightarrow> r_get R (remember_viewer_profile R v p a s) k = r_get R s k"
  by (auto simp: remember_viewer_profile_def Let_def split: option.splits)

lemma remember_view [simp]:
  "slots R (remember_viewer_profile R v p a s) = slots R s"
  "pool_view R (remember_viewer_profile R v p a s) = pool_view R s"
  by (auto simp: remember_viewer_profile_def Let_def slots_def pool_view_def fun_eq_iff
      split: option.split)

lemma mark_probation_frame [simp]:
  "r_count R (mark_probation R e ch i j n s) = r_count R s"
  "r_get R (mark_probation R e ch i j n s) =
     (r_get R s)(Monitor_lease (ch_uuid ch) \<mapsto> VStr ''starting'')"
  by (simp_all add: mark_probation_def Let_def)

lemma mark_probation_view [simp]:
  "slots R (mark_probation R e ch i j n s) = slots R s"
  "pool_view R (mark_probation R e ch i j n s) = pool_view R s"
  by (simp_all add: slots_def pool_view_def fun_eq_iff)

lemma take_held_view [simp]:
  "slots R (snd (take_held_slot R e p v s)) = slots R s"
  "pool_view R (snd (take_held_slot R e p v s)) = pool_view R s"
  by (simp_all add: slots_def pool_view_def fun_eq_iff)

lemma release_holds_frame [simp]:
  "r_count R (release_viewer_holds R v left s) = r_count R s"
  "r_get R (release_viewer_holds R v left s) = r_get R s"
  by (induction left arbitrary: s) (simp_all add: release_viewer_holds_def case_prod_unfold)

lemma release_holds_view [simp]:
  "slots R (release_viewer_holds R v left s) = slots R s"
  "pool_view R (release_viewer_holds R v left s) = pool_view R s"
  by (simp_all add: slots_def pool_view_def fun_eq_iff)

lemma reserve_assignment [simp]:
  "assignment_key k \<Longrightarrow> r_get R (snd (reserve_profile_slot R L e p x v s)) k = r_get R s k"
  by (cases k) (auto simp: reserve_get split: option.split)

lemma reserve_failed_view:
  "\<not> fst (fst (reserve_profile_slot R L e p x v s)) \<Longrightarrow>
   pool_view R (snd (reserve_profile_slot R L e p x v s)) = pool_view R s"
  by (simp add: pool_view_def reserve_slots reserve_ok reserve_get)

lemma reserve_granted_view:
  "fst (fst (reserve_profile_slot R L e p x v s)) \<Longrightarrow>
   pool_view R (snd (reserve_profile_slot R L e p x v s)) = slot_taken L p (pool_view R s)"
  by (auto simp: pool_view_def reserve_slots reserve_ok reserve_get slot_taken_def
      split: option.split)

lemma reserve_granted_room:
  "fst (fst (reserve_profile_slot R L e p x v s)) \<Longrightarrow> 0 < max_streams p \<Longrightarrow>
   slots R s (Profile_connections (prof_id p)) < max_streams p + x"
  by (rule room_below_limit) (simp_all add: reserve_ok)

lemma view_slots: "pool_view R s' = pool_view R s \<Longrightarrow> slots R s' = slots R s"
  by (simp add: pool_view_def)

lemma slot_given_view [simp]: "pool_view R (slot_given R e ch v b st p a s) = pool_view R s"
  by (simp add: slot_given_def Let_def)

lemma slot_given_get:
  "r_get R (slot_given R e ch v b st p a s) (Channel_stream (ch_id ch)) = Some (VInt (str_id st))"
  "r_get R (slot_given R e ch v b st p a s) (Stream_profile (str_id st)) = Some (VInt (prof_id p))"
  by (simp_all add: slot_given_def Let_def remember_get assign_get)

lemma slot_outcome_after:
  assumes "pool_view R s1 = pool_view R s"
    and "\<forall>k. assignment_key k \<longrightarrow> r_get R s1 k = r_get R s k"
    and "slot_outcome R L x i P res s1 s'"
  shows "slot_outcome R L x i P res s s'"
  using assms(2,3) unfolding slot_outcome_def assms(1) view_slots [OF assms(1)]
  by (auto split: option.splits)

lemma slot_outcome_mono:
  "slot_outcome R L x i P res s s' \<Longrightarrow> (\<And>p. P p \<Longrightarrow> Q p) \<Longrightarrow> x \<le> y \<Longrightarrow> slot_outcome R L y i Q res s s'"
  by (fastforce simp: slot_outcome_def split: option.splits)

lemma slot_outcome_none: "slot_outcome R L x i P None s s"
  by (simp add: slot_outcome_def)

text \<open>Each search through candidates has such an outcome, with one of its candidates.\<close>

lemma sticky_from_outcome:
  "slot_outcome R L 1 (ch_id ch) (\<lambda>p. p \<in> snd ` set cs)
     (fst (sticky_from R L e ch v watched cs s)) s (snd (sticky_from R L e ch v watched cs s))"
proof (induction cs arbitrary: s)
  case Nil
  show ?case by (simp add: slot_outcome_none)
next
  case (Cons c cs)
  obtain st p where c: "c = (st, p)" by (cases c)
  let ?r = "reserve_profile_slot R L e p 0 (Some v) s"
  let ?r2 = "reserve_profile_slot R L e p PROBATION_EXTRA_CAPACITY (Some v) (snd ?r)"
  have rec: "slot_outcome R L 1 (ch_id ch) (\<lambda>q. q \<in> snd ` set (c # cs))
      (fst (sticky_from R L e ch v watched cs t)) s (snd (sticky_from R L e ch v watched cs t))"
    if "pool_view R t = pool_view R s" "\<forall>k. assignment_key k \<longrightarrow> r_get R t k = r_get R s k" for t
    by (rule slot_outcome_mono [OF slot_outcome_after [OF that Cons.IH]]) auto
  consider (one) "fst (fst ?r)" | (two) "\<not> fst (fst ?r)" "0 < max_streams p"
      "prof_id p \<in> set watched" "fst (fst ?r2)"
    | (three) "\<not> fst (fst ?r)" "0 < max_streams p" "prof_id p \<in> set watched" "\<not> fst (fst ?r2)"
    | (four) "\<not> fst (fst ?r)" "\<not> (0 < max_streams p \<and> prof_id p \<in> set watched)"
    by blast
  then show ?case
  proof cases
    case one
    then show ?thesis
      using reserve_granted_room [of L e p 0 "Some v" s]
      by (auto simp: c Let_def case_prod_unfold slot_outcome_def slot_given_get
          reserve_granted_view)
  next
    case two
    then show ?thesis
      using reserve_granted_room [of L e p 1 "Some v" "snd ?r"]
        view_slots [OF reserve_failed_view [of L e p 0 "Some v" s]]
      by (auto simp: c Let_def case_prod_unfold slot_outcome_def slot_given_get
          reserve_granted_view reserve_failed_view PROBATION_EXTRA_CAPACITY_def)
  next
    case three
    then show ?thesis
      using rec [of "snd ?r2"] by (simp add: c Let_def case_prod_unfold reserve_failed_view)
  next
    case four
    then show ?thesis
      using rec [of "snd ?r"] by (auto simp: c Let_def case_prod_unfold reserve_failed_view)
  qed
qed

lemma alternate_from_outcome:
  "slot_outcome R L 0 (ch_id ch)
     (\<lambda>p. \<exists>st. (st, p) \<in> set cs \<and> \<not> is_custom st \<and> prof_id p \<notin> fst ` set left)
     (fst (alternate_from R L e ch v left cs s)) s (snd (alternate_from R L e ch v left cs s))"
proof (induction cs arbitrary: s)
  case Nil
  show ?case by (simp add: slot_outcome_none)
next
  case (Cons c cs)
  obtain st p where c: "c = (st, p)" by (cases c)
  let ?r = "reserve_profile_slot R L e p 0 (Some v) s"
  let ?P = "\<lambda>q. \<exists>st. (st, q) \<in> set (c # cs) \<and> \<not> is_custom st \<and> prof_id q \<notin> fst ` set left"
  have rec: "slot_outcome R L 0 (ch_id ch) ?P
      (fst (alternate_from R L e ch v left cs t)) s (snd (alternate_from R L e ch v left cs t))"
    if "pool_view R t = pool_view R s" "\<forall>k. assignment_key k \<longrightarrow> r_get R t k = r_get R s k" for t
    by (rule slot_outcome_mono [OF slot_outcome_after [OF that Cons.IH]]) auto
  show ?case
  proof (cases "prof_id p \<in> fst ` set left \<or> is_custom st")
    case True
    then show ?thesis using rec [of s] by (simp add: c)
  next
    case False
    show ?thesis
    proof (cases "fst (fst ?r)")
      case True
      with False show ?thesis
        using reserve_granted_room [of L e p 0 "Some v" s]
        by (auto simp: c Let_def case_prod_unfold slot_outcome_def reserve_granted_view
            remember_get assign_get)
    next
      case not_granted: False
      with False show ?thesis
        using rec [of "snd ?r"] by (simp add: c Let_def case_prod_unfold reserve_failed_view)
    qed
  qed
qed

lemma overlap_from_outcome:
  "slot_outcome R L 1 (ch_id ch) (\<lambda>p. p \<in> snd ` set cs)
     (fst (overlap_from R L e ch v cs s)) s (snd (overlap_from R L e ch v cs s))"
proof (induction cs arbitrary: s)
  case Nil
  show ?case by (simp add: slot_outcome_none)
next
  case (Cons c cs)
  obtain st p where c: "c = (st, p)" by (cases c)
  let ?r = "reserve_profile_slot R L e p PROBATION_EXTRA_CAPACITY (Some v) s"
  show ?case
  proof (cases "fst (fst ?r)")
    case True
    then show ?thesis
      using reserve_granted_room [of L e p 1 "Some v" s]
      by (auto simp: c Let_def case_prod_unfold slot_outcome_def reserve_granted_view
          remember_get assign_get PROBATION_EXTRA_CAPACITY_def)
  next
    case False
    have "slot_outcome R L 1 (ch_id ch) (\<lambda>q. q \<in> snd ` set (c # cs))
        (fst (overlap_from R L e ch v cs (snd ?r))) s (snd (overlap_from R L e ch v cs (snd ?r)))"
      by (rule slot_outcome_mono [OF slot_outcome_after [OF _ _ Cons.IH]])
        (use False in \<open>auto simp: reserve_failed_view\<close>)
    with False show ?thesis by (simp add: c Let_def case_prod_unfold)
  qed
qed

lemma candidates_active:
  "(st, p) \<in> set (channel_candidates R e s ch f v) \<Longrightarrow> usable e p"
  by (auto simp: usable_def account_profiles_def channel_candidates_def default_first_def split: option.splits if_splits)

lemma sticky_candidates_of:
  "(st, p) \<in> set (sticky_candidates R e s ch v) \<Longrightarrow>
   \<exists>a. str_account st = Some a \<and> acc_active a \<and> prof_active p \<and> account_keeps_viewers a \<and>
       is_identified (Some v) (Some a) \<and> p \<in> set (account_profiles e a)"
  by (auto simp: sticky_candidates_def channel_candidates_def default_first_def
      split: option.splits if_splits dest!: sym [of "Some _" "str_account _"])

lemma reserve_sticky_outcome:
  "slot_outcome R L 1 (ch_id ch) (usable e)
     (fst (reserve_sticky_slot R L e ch v s)) s (snd (reserve_sticky_slot R L e ch v s))"
proof (cases v)
  case None
  then show ?thesis by (simp add: reserve_sticky_slot_def slot_outcome_none)
next
  case (Some w)
  let ?cs = "concat (map (\<lambda>pid. filter (\<lambda>(st, p). prof_id p = pid) (sticky_candidates R e s ch w))
      (preferred_profiles R e s w))"
  have "slot_outcome R L 1 (ch_id ch) (usable e)
      (fst (sticky_from R L e ch w ws ?cs s)) s (snd (sticky_from R L e ch w ws ?cs s))" for ws
    by (rule slot_outcome_mono [OF sticky_from_outcome])
      (auto simp: sticky_candidates_def dest: candidates_active)
  with Some show ?thesis by (auto simp: reserve_sticky_slot_def Let_def slot_outcome_none)
qed

lemma reserve_alternate_outcome:
  "slot_outcome R L 0 (ch_id ch) (usable e)
     (fst (reserve_alternate_slot R L e ch v s)) s (snd (reserve_alternate_slot R L e ch v s))"
proof -
  have "slot_outcome R L 0 (ch_id ch) (usable e)
      (fst (alternate_from R L e ch w left (channel_candidates R e s ch f v) s)) s
      (snd (alternate_from R L e ch w left (channel_candidates R e s ch f v) s))" for w left f
    by (rule slot_outcome_mono [OF alternate_from_outcome]) (auto dest: candidates_active)
  then show ?thesis
    by (auto simp: reserve_alternate_slot_def Let_def slot_outcome_none split: option.split)
qed

text \<open>The overlap slot is only on a profile the viewer is watching on, of an account that allows it.\<close>

lemma reserve_overlap_outcome:
  "slot_outcome R L 1 (ch_id ch)
     (\<lambda>p. p \<in> snd ` set full \<and> 0 < max_streams p \<and> account_allows_probation (m3u_account p) \<and>
          is_identified v (Some (m3u_account p)) \<and>
          (\<exists>c. (prof_id p, c) \<in> set (watched_channels_by R e s v)))
     (fst (reserve_overlap_slot R L e ch v full s)) s (snd (reserve_overlap_slot R L e ch v full s))"
  (is "slot_outcome R L 1 (ch_id ch) ?P _ _ _")
proof (cases v)
  case None
  then show ?thesis by (simp add: reserve_overlap_slot_def slot_outcome_none)
next
  case (Some w)
  let ?cs = "filter (\<lambda>(st, p). prof_id p \<in> set (map fst (watched_channels_by R e s v)))
      (overlap_candidates R e s w full)"
  have "slot_outcome R L 1 (ch_id ch) ?P
      (fst (overlap_from R L e ch w ?cs s)) s (snd (overlap_from R L e ch w ?cs s))"
    by (rule slot_outcome_mono [OF overlap_from_outcome])
      (use Some in \<open>force simp: overlap_candidates_def\<close>)+
  with Some show ?thesis by (auto simp: reserve_overlap_slot_def Let_def slot_outcome_none)
qed

end

end
