(* ===== verification/Channel_Streams.thy ===== *)
theory Channel_Streams
  imports Overlap
begin

text \<open>
  A channel's stream and its slot (\<^verbatim>\<open>apps/channels/models.py\<close>): a stream on its own (a preview)
  and a channel get a stream with a slot, and give both back; a running channel moves to
  another profile; and the channel that would have to make way is picked.
\<close>

datatype stream_error = No_streams | No_compatible_profile | All_profiles_full | No_active_profiles

text \<open>\<open>(stream id, profile id, slot_reserved)\<close>, or the error.\<close>

type_synonym stream_result = "stream_error + (int \<times> int \<times> bool)"

definition get_int :: "'s redis_api \<Rightarrow> 's \<Rightarrow> rkey \<Rightarrow> int option" where
  "get_int R s k = Option.bind (r_get R s k) val_int"

section \<open>A stream on its own\<close>

fun first_slot ::
  "'s redis_api \<Rightarrow> logins \<Rightarrow> env \<Rightarrow> stream \<Rightarrow> profile list \<Rightarrow> 's \<Rightarrow> (int \<times> int) option \<times> 's" where
  "first_slot R L e st [] s = (None, s)"
| "first_slot R L e st (p # ps) s =
     (if \<not> prof_active p then first_slot R L e st ps s
      else
        (let (r, s1) = reserve_profile_slot R L e p 0 None s in
         if fst r then (Some (str_id st, prof_id p), assign R (str_id st) st p s1)
         else first_slot R L e st ps s1))"

text \<open>
  The default profile first. \<open>None\<close> where the code fails on a stream whose account has no
  default profile (\<open>profile.id\<close> of \<open>None\<close>) or that has no account.
\<close>

definition default_then_rest :: "profile list \<Rightarrow> profile list option" where
  "default_then_rest ps =
     (case List.find is_default ps of
        None \<Rightarrow> None
      | Some d \<Rightarrow> Some (d # filter (\<lambda>p. \<not> is_default p) ps))"

definition stream_get_stream ::
  "'s redis_api \<Rightarrow> logins \<Rightarrow> env \<Rightarrow> stream \<Rightarrow> 's \<Rightarrow> stream_result option \<times> 's" where
  "stream_get_stream R L e st s =
     (case get_int R s (Stream_profile (str_id st)) of
        Some pid \<Rightarrow> (Some (Inr (str_id st, pid, False)), s)
      | None \<Rightarrow>
          (case Option.bind (str_account st) (\<lambda>a. default_then_rest (account_profiles e a)) of
             None \<Rightarrow> (None, s)
           | Some ps \<Rightarrow>
               (case first_slot R L e st ps s of
                  (Some (sid, pid), s1) \<Rightarrow> (Some (Inr (sid, pid, True)), s1)
                | (None, s1) \<Rightarrow> (Some (Inl All_profiles_full), s1))))"

definition stream_release_stream :: "'s redis_api \<Rightarrow> int \<Rightarrow> 's \<Rightarrow> bool \<times> 's" where
  "stream_release_stream R sid s =
     (case get_int R s (Stream_profile sid) of
        None \<Rightarrow> (False, s)
      | Some pid \<Rightarrow> (True, release_profile_slot R pid (r_del R s (Stream_profile sid))))"

section \<open>The channel that would make way\<close>

definition PREEMPT_COOLDOWN :: real where "PREEMPT_COOLDOWN = 30"

text \<open>A channel's number in its keys, where it is one (\<open>int(parts[2])\<close>).\<close>

definition numbered_channels :: "'s redis_api \<Rightarrow> 's \<Rightarrow> int \<Rightarrow> int list" where
  "numbered_channels R s pid =
     List.map_filter (\<lambda>c. if profile_field R s c = Some pid then parse_int c else None)
       (List.map_filter metadata_channel (r_hkeys R s))"

definition preempt_ids :: "'s redis_api \<Rightarrow> 's \<Rightarrow> int \<Rightarrow> int list" where
  "preempt_ids R s pid =
     (let indexed = List.map_filter parse_int (r_members R s (Profile_channels pid))
      in remdups (if indexed = [] then numbered_channels R s pid else indexed))"

definition flag_on :: "rval option \<Rightarrow> bool" where
  "flag_on v =
     (case Option.bind v val_text of None \<Rightarrow> False | Some t \<Rightarrow> t \<in> {''1'', ''true'', ''True''})"

fun val_real :: "rval \<Rightarrow> real option" where
  "val_real (VTime t) = Some t"
| "val_real (VInt n) = Some (of_int n)"
| "val_real _ = None"

record impact =
  has_viewers :: nat
  viewer_level :: int
  viewer_count :: nat
  started_at :: real

definition channel_impact :: "'s redis_api \<Rightarrow> env \<Rightarrow> 's \<Rightarrow> int \<Rightarrow> impact" where
  "channel_impact R e s ch =
     (let c = dec ch;
          members = r_members R s (Live (Clients c));
          levels = map (\<lambda>cl. case Option.bind (r_hget R s (Live (Client_metadata c cl)) ''user_level'') val_int
                             of None \<Rightarrow> 0 | Some l \<Rightarrow> l) members
      in \<lparr>has_viewers = (if members = [] then 0 else 1),
          viewer_level = (if levels = [] then 0 else Max (set levels)),
          viewer_count = length members,
          started_at = (case Option.bind (r_hget R s (metadata c) ''started_at_ts'') val_real of
                          None \<Rightarrow> now e | Some t \<Rightarrow> t)\<rparr>)"

definition may_preempt :: "'s redis_api \<Rightarrow> env \<Rightarrow> 's \<Rightarrow> int \<Rightarrow> int list \<Rightarrow> int \<Rightarrow> bool" where
  "may_preempt R e s requester_level exclude ch \<longleftrightarrow>
     ch \<notin> set exclude \<and>
     (case Option.bind (r_get R s (Last_preempt ch)) val_real of
        None \<Rightarrow> True | Some t \<Rightarrow> t = 0 \<or> PREEMPT_COOLDOWN \<le> now e - t) \<and>
     viewer_level (channel_impact R e s ch) < requester_level \<and>
     \<not> flag_on (r_hget R s (metadata (dec ch)) ''protected'') \<and>
     \<not> flag_on (r_hget R s (metadata (dec ch)) ''recording'')"

text \<open>Whether one impact is less than another, in the order of the code's score tuples.\<close>

definition less_impact :: "impact \<Rightarrow> impact \<Rightarrow> bool" where
  "less_impact a b \<longleftrightarrow>
     (has_viewers a, viewer_level a) \<noteq> (has_viewers b, viewer_level b) \<and>
       (has_viewers a < has_viewers b \<or>
        (has_viewers a = has_viewers b \<and> viewer_level a < viewer_level b)) \<or>
     (has_viewers a, viewer_level a) = (has_viewers b, viewer_level b) \<and>
       (viewer_count a < viewer_count b \<or>
        (viewer_count a = viewer_count b \<and> started_at a < started_at b))"

text \<open>The first of the least (the sort is stable).\<close>

fun least_impact :: "(int \<times> impact) list \<Rightarrow> (int \<times> impact) option" where
  "least_impact [] = None"
| "least_impact (c # cs) =
     (case least_impact cs of
        None \<Rightarrow> Some c
      | Some d \<Rightarrow> if less_impact (snd d) (snd c) then Some d else Some c)"

definition pick_channel_to_preempt ::
  "'s redis_api \<Rightarrow> env \<Rightarrow> int \<Rightarrow> int \<Rightarrow> int list \<Rightarrow> 's \<Rightarrow> int option \<times> 's" where
  "pick_channel_to_preempt R e pid requester_level exclude s =
     (case least_impact (map (\<lambda>ch. (ch, channel_impact R e s ch))
             (filter (may_preempt R e s requester_level exclude) (preempt_ids R s pid))) of
        None \<Rightarrow> (None, s)
      | Some (ch, _) \<Rightarrow> (Some ch, r_setex R s (Last_preempt ch) 3600 (VTime (now e))))"

section \<open>Assignments that are still good\<close>

definition channel_proxy_is_active :: "'s redis_api \<Rightarrow> 's \<Rightarrow> string \<Rightarrow> bool" where
  "channel_proxy_is_active R s c \<longleftrightarrow>
     r_exists R s (metadata c) \<and>
     (case channel_state_of R s c of
        None \<Rightarrow> False
      | Some st \<Rightarrow> st \<in> set (map state_text [Active, Waiting_for_clients, Buffering, Initializing, Connecting]))"

definition stream_assignment_is_reusable :: "'s redis_api \<Rightarrow> 's \<Rightarrow> string \<Rightarrow> int \<Rightarrow> bool" where
  "stream_assignment_is_reusable R s c sid \<longleftrightarrow>
     channel_proxy_is_active R s c \<or>
     (\<not> r_exists R s (metadata c) \<and> r_get R s (Stream_profile sid) \<noteq> None)"

definition release_stale_stream_assignment :: "'s redis_api \<Rightarrow> channel \<Rightarrow> int \<Rightarrow> 's \<Rightarrow> 's" where
  "release_stale_stream_assignment R ch sid s =
     (let pid = (case get_int R s (Stream_profile sid) of
                   Some p \<Rightarrow> Some p | None \<Rightarrow> profile_field R s (ch_uuid ch));
          s1 = (case pid of Some p \<Rightarrow> release_profile_slot R p s | None \<Rightarrow> s)
      in r_del R (r_del R s1 (Channel_stream (ch_id ch))) (Stream_profile sid))"

section \<open>A channel gets a stream\<close>

text \<open>What the walk over the streams remembers: streams seen, pairs found full, and how many
  of them the overlap was already asked about.\<close>

record walk =
  maxed_out :: bool
  active_profiles :: bool
  full_pairs :: "candidate list"
  overlap_checked :: nat

definition new_walk :: walk where
  "new_walk = \<lparr>maxed_out = False, active_profiles = False, full_pairs = [], overlap_checked = 0\<rparr>"

definition normal_slot_given ::
  "'s redis_api \<Rightarrow> env \<Rightarrow> channel \<Rightarrow> viewer option \<Rightarrow> stream \<Rightarrow> profile \<Rightarrow> 's \<Rightarrow> 's" where
  "normal_slot_given R e ch v st p s =
     remember_viewer_profile R v p (m3u_account p)
       (snd (take_held_slot R e p v (assign R (ch_id ch) st p s)))"

fun walk_profiles ::
  "'s redis_api \<Rightarrow> logins \<Rightarrow> env \<Rightarrow> channel \<Rightarrow> viewer option \<Rightarrow> int \<Rightarrow> stream \<Rightarrow> profile list \<Rightarrow> walk \<Rightarrow>
   's \<Rightarrow> (int \<times> int) option \<times> walk \<times> 's" where
  "walk_profiles R L e ch v level st [] w s = (None, w, s)"
| "walk_profiles R L e ch v level st (p # ps) w s =
     (let (r, s1) = reserve_profile_slot R L e p 0 v s in
      if fst r
      then (Some (str_id st, prof_id p), w\<lparr>active_profiles := True\<rparr>, normal_slot_given R e ch v st p s1)
      else
        (let s2 = snd (pick_channel_to_preempt R e (prof_id p) level [] s1)
         in walk_profiles R L e ch v level st ps
              (w\<lparr>active_profiles := True, maxed_out := True, full_pairs := full_pairs w @ [(st, p)]\<rparr>) s2))"

definition stream_profiles :: "env \<Rightarrow> stream \<Rightarrow> profile list option" where
  "stream_profiles e st =
     (case str_account st of
        None \<Rightarrow> None
      | Some a \<Rightarrow>
          (if \<not> acc_active a then None
           else default_then_rest (filter prof_active (account_profiles e a))))"

text \<open>The overlap is asked before a custom stream, once for the pairs found full so far.\<close>

definition overlap_before_custom ::
  "'s redis_api \<Rightarrow> logins \<Rightarrow> env \<Rightarrow> channel \<Rightarrow> viewer option \<Rightarrow> stream \<Rightarrow> walk \<Rightarrow> 's \<Rightarrow>
   (int \<times> int) option \<times> walk \<times> 's" where
  "overlap_before_custom R L e ch v st w s =
     (if is_custom st \<and> overlap_checked w < length (full_pairs w)
      then (let (o1, s0) = reserve_overlap_slot R L e ch v (full_pairs w) s
            in (o1, w\<lparr>overlap_checked := length (full_pairs w)\<rparr>, s0))
      else (None, w, s))"

fun walk_streams ::
  "'s redis_api \<Rightarrow> logins \<Rightarrow> env \<Rightarrow> channel \<Rightarrow> viewer option \<Rightarrow> int \<Rightarrow> stream list \<Rightarrow> walk \<Rightarrow> 's \<Rightarrow>
   (int \<times> int) option \<times> walk \<times> 's" where
  "walk_streams R L e ch v level [] w s = (None, w, s)"
| "walk_streams R L e ch v level (st # sts) w s =
     (case overlap_before_custom R L e ch v st w s of
        (Some r, w1, s1) \<Rightarrow> (Some r, w1, s1)
      | (None, w1, s1) \<Rightarrow>
          (case stream_profiles e st of
             None \<Rightarrow> walk_streams R L e ch v level sts w1 s1
           | Some ps \<Rightarrow>
               (case walk_profiles R L e ch v level st ps w1 s1 of
                  (Some r, w2, s2) \<Rightarrow> (Some r, w2, s2)
                | (None, w2, s2) \<Rightarrow> walk_streams R L e ch v level sts w2 s2)))"

definition walk_error :: "walk \<Rightarrow> stream_error" where
  "walk_error w =
     (if maxed_out w then All_profiles_full
      else if active_profiles w then No_compatible_profile else No_active_profiles)"

definition assign_new_stream ::
  "'s redis_api \<Rightarrow> logins \<Rightarrow> env \<Rightarrow> channel \<Rightarrow> viewer option \<Rightarrow> int \<Rightarrow> 's \<Rightarrow> stream_result \<times> 's" where
  "assign_new_stream R L e ch v level s =
     (case walk_streams R L e ch v level
             (viewer_order R e s v (ordered_for R e s v (ch_streams ch))) new_walk s of
        (Some (sid, pid), w, s1) \<Rightarrow> (Inr (sid, pid, True), s1)
      | (None, w, s1) \<Rightarrow>
          (if maxed_out w \<and> overlap_checked w < length (full_pairs w) then
             (case reserve_overlap_slot R L e ch v (full_pairs w) s1 of
                (Some (sid, pid), s2) \<Rightarrow> (Inr (sid, pid, True), s2)
              | (None, s2) \<Rightarrow> (Inl (walk_error w), s2))
           else (Inl (walk_error w), s1)))"

text \<open>The account preference, for a viewer's request, then the channel's order.\<close>

definition get_new_stream ::
  "'s redis_api \<Rightarrow> logins \<Rightarrow> env \<Rightarrow> channel \<Rightarrow> viewer option \<Rightarrow> int \<Rightarrow> 's \<Rightarrow> stream_result \<times> 's" where
  "get_new_stream R L e ch v level s =
     (if is_viewer_request v then
        (case reserve_sticky_slot R L e ch v s of
           (Some (sid, pid), s1) \<Rightarrow> (Inr (sid, pid, True), s1)
         | (None, s1) \<Rightarrow>
             (case reserve_alternate_slot R L e ch v s1 of
                (Some (sid, pid), s2) \<Rightarrow> (Inr (sid, pid, True), s2)
              | (None, s2) \<Rightarrow> assign_new_stream R L e ch v level s2))
      else assign_new_stream R L e ch v level s)"

text \<open>
  A redirect is issued to one user: no assignment, only a profile with room among those the
  user may use (\<open>allowed\<close>, by account; \<open>None\<close> where the user is not restricted).
\<close>

fun first_with_room ::
  "'s redis_api \<Rightarrow> logins \<Rightarrow> env \<Rightarrow> viewer option \<Rightarrow> candidate list \<Rightarrow> 's \<Rightarrow> (int \<times> int) option \<times> 's" where
  "first_with_room R L e v [] s = (None, s)"
| "first_with_room R L e v ((st, p) # cs) s =
     (let (ok, s1) = pool_has_capacity_for_profile R L e p v s
      in if ok then (Some (str_id st, prof_id p), s1) else first_with_room R L e v cs s1)"

definition redirect_candidates ::
  "(int \<Rightarrow> profile list) \<Rightarrow> stream list \<Rightarrow> candidate list" where
  "redirect_candidates allowed ss =
     concat (map (\<lambda>st. case str_account st of
                         None \<Rightarrow> [] | Some a \<Rightarrow> map (Pair st) (allowed (acc_id a))) ss)"

record requester =
  user_level :: int
  allowed_profiles :: "(int \<Rightarrow> profile list) option"

definition get_assigned_stream ::
  "'s redis_api \<Rightarrow> logins \<Rightarrow> env \<Rightarrow> channel \<Rightarrow> viewer option \<Rightarrow> int \<Rightarrow> 's \<Rightarrow> stream_result \<times> 's" where
  "get_assigned_stream R L e ch v level s =
     (case get_int R s (Channel_stream (ch_id ch)) of
        None \<Rightarrow> get_new_stream R L e ch v level s
      | Some sid \<Rightarrow>
          (if stream_assignment_is_reusable R s (ch_uuid ch) sid then
             (case get_int R s (Stream_profile sid) of
                Some pid \<Rightarrow> (Inr (sid, pid, False), s)
              | None \<Rightarrow> get_new_stream R L e ch v level s)
           else get_new_stream R L e ch v level (release_stale_stream_assignment R ch sid s)))"

definition get_stream ::
  "'s redis_api \<Rightarrow> logins \<Rightarrow> env \<Rightarrow> channel \<Rightarrow> requester option \<Rightarrow> viewer option \<Rightarrow> 's \<Rightarrow>
   stream_result \<times> 's" where
  "get_stream R L e ch req v s =
     (if ch_streams ch = [] then (Inl No_streams, s)
      else
        (let s0 = remember_channel_limit R e (ch_uuid ch) v s;
             level = (case req of None \<Rightarrow> 100 | Some r \<Rightarrow> user_level r)
         in case (if is_redirect (get_stream_profile e ch) then Option.bind req allowed_profiles else None) of
              Some allowed \<Rightarrow>
                (case first_with_room R L e v
                        (redirect_candidates allowed (ordered_for R e s0 v (ch_streams ch))) s0 of
                   (Some (sid, pid), s1) \<Rightarrow> (Inr (sid, pid, False), s1)
                 | (None, s1) \<Rightarrow> (Inl No_compatible_profile, s1))
            | None \<Rightarrow> get_assigned_stream R L e ch v level s0))"

section \<open>A channel gives its stream back\<close>

definition clear_assignment_fields :: "'s redis_api \<Rightarrow> string \<Rightarrow> 's \<Rightarrow> 's" where
  "clear_assignment_fields R c s =
     r_hdel R (r_hdel R s (metadata c) ''stream_id'') (metadata c) ''m3u_profile''"

definition stream_field :: "'s redis_api \<Rightarrow> 's \<Rightarrow> string \<Rightarrow> int option" where
  "stream_field R s c = Option.bind (r_hget R s (metadata c) ''stream_id'') val_int"

definition hold_and_release :: "'s redis_api \<Rightarrow> env \<Rightarrow> string \<Rightarrow> int \<Rightarrow> 's \<Rightarrow> 's" where
  "hold_and_release R e c pid s = release_profile_slot R pid (hold_slot_for_viewer R e c pid s)"

definition release_stream :: "'s redis_api \<Rightarrow> env \<Rightarrow> channel \<Rightarrow> 's \<Rightarrow> bool \<times> 's" where
  "release_stream R e ch s =
     (let c = ch_uuid ch; key = Channel_stream (ch_id ch) in
      case get_int R s key of
        None \<Rightarrow>
          (case (stream_field R s c, profile_field R s c) of
             (Some sid, Some pid) \<Rightarrow>
               (let s1 = r_del R (r_del R s key) (Stream_profile sid)
                in (True, hold_and_release R e c pid (clear_assignment_fields R c s1)))
           | _ \<Rightarrow> (False, s))
      | Some sid \<Rightarrow>
          (let s1 = r_del R s key in
           case get_int R s1 (Stream_profile sid) of
             Some pid \<Rightarrow>
               (True, clear_assignment_fields R c
                        (hold_and_release R e c pid (r_del R s1 (Stream_profile sid))))
           | None \<Rightarrow>
               (case profile_field R s1 c of
                  Some pid \<Rightarrow> (True, clear_assignment_fields R c (hold_and_release R e c pid s1))
                | None \<Rightarrow> (False, s1))))"

section \<open>A channel moves to another profile\<close>

text \<open>\<open>None\<close> where a profile's row is gone (\<open>DoesNotExist\<close>).\<close>

definition update_stream_profile ::
  "'s redis_api \<Rightarrow> logins \<Rightarrow> env \<Rightarrow> channel \<Rightarrow> int \<Rightarrow> 's \<Rightarrow> bool option \<times> 's" where
  "update_stream_profile R L e ch new_pid s =
     (case get_int R s (Channel_stream (ch_id ch)) of
        None \<Rightarrow> (Some False, s)
      | Some sid \<Rightarrow>
          (case get_int R s (Stream_profile sid) of
             None \<Rightarrow> (Some False, s)
           | Some pid \<Rightarrow>
               (if pid = new_pid then (Some True, s)
                else case (profile_by_id e pid, profile_by_id e new_pid) of
                       (Some old, Some new) \<Rightarrow>
                         (let (ok, s1) = move_credential_slot_on_profile_switch R L e old new s in
                          if \<not> ok then (Some False, s1)
                          else
                            (let s2 = (if 0 < r_count R s1 (Profile_connections pid)
                                       then r_decr R s1 (Profile_connections pid) else s1);
                                 s3 = r_set R s2 (Stream_profile sid) (VInt new_pid)
                             in (Some True, r_incr R s3 (Profile_connections new_pid))))
                     | _ \<Rightarrow> (None, s))))"

section \<open>What getting a stream does\<close>

definition granted_slot :: "stream_result \<Rightarrow> (int \<times> int) option" where
  "granted_slot r = (case r of Inl _ \<Rightarrow> None | Inr (sid, pid, _) \<Rightarrow> Some (sid, pid))"

lemma granted_slot_simps [simp]:
  "granted_slot (Inl x) = None" "granted_slot (Inr (sid, pid, b)) = Some (sid, pid)"
  by (simp_all add: granted_slot_def)

definition walk_ok :: "env \<Rightarrow> walk \<Rightarrow> bool" where
  "walk_ok e w \<longleftrightarrow> (\<forall>(st, p) \<in> set (full_pairs w). usable e p)"

lemma walk_ok_new [simp]: "walk_ok e new_walk"
  by (simp add: walk_ok_def new_walk_def)

lemma default_then_rest_set: "default_then_rest ps = Some qs \<Longrightarrow> p \<in> set qs \<Longrightarrow> p \<in> set ps"
  by (auto simp: default_then_rest_def find_Some_iff split: option.splits)

lemma stream_profiles_usable: "stream_profiles e st = Some ps \<Longrightarrow> p \<in> set ps \<Longrightarrow> usable e p"
  by (auto simp: stream_profiles_def usable_def account_profiles_def
      dest!: default_then_rest_set split: option.splits if_splits)

context redis
begin

lemma pick_frame [simp]:
  "pool_view R (snd (pick_channel_to_preempt R e i l x s)) = pool_view R s"
  "assignment_key k \<Longrightarrow> r_get R (snd (pick_channel_to_preempt R e i l x s)) k = r_get R s k"
  by (auto simp: pick_channel_to_preempt_def pool_view_def slots_def fun_eq_iff
      split: option.split)

lemma normal_slot_given_view:
  "pool_view R (normal_slot_given R e ch v st p s) = pool_view R s"
  "r_get R (normal_slot_given R e ch v st p s) (Channel_stream (ch_id ch)) = Some (VInt (str_id st))"
  "r_get R (normal_slot_given R e ch v st p s) (Stream_profile (str_id st)) = Some (VInt (prof_id p))"
  by (simp_all add: normal_slot_given_def remember_get assign_get)

lemma walk_profiles_outcome:
  assumes "\<forall>p \<in> set ps. usable e p" and "walk_ok e w"
    and "walk_profiles R L e ch v level st ps w s = (res, w', s')"
  shows "slot_outcome R L 0 (ch_id ch) (usable e) res s s' \<and> walk_ok e w'"
  using assms
proof (induction ps arbitrary: w s)
  case Nil
  then show ?case by (auto simp: slot_outcome_none)
next
  case (Cons p ps)
  let ?r = "reserve_profile_slot R L e p 0 v s"
  show ?case
  proof (cases "fst (fst ?r)")
    case True
    then have "slot_outcome R L 0 (ch_id ch) (usable e) (Some (str_id st, prof_id p)) s
        (normal_slot_given R e ch v st p (snd ?r))"
      using Cons.prems(1) reserve_granted_room [of L e p 0 v s]
      by (intro slot_outcome_granted [where p = p])
        (simp_all add: normal_slot_given_view reserve_granted_view)
    with True Cons.prems show ?thesis
      by (auto simp: Let_def case_prod_unfold walk_ok_def)
  next
    case False
    let ?s2 = "snd (pick_channel_to_preempt R e (prof_id p) level [] (snd ?r))"
    let ?w = "w\<lparr>active_profiles := True, maxed_out := True, full_pairs := full_pairs w @ [(st, p)]\<rparr>"
    have "walk_ok e ?w" using Cons.prems(1,2) by (auto simp: walk_ok_def)
    moreover have "walk_profiles R L e ch v level st ps ?w ?s2 = (res, w', s')"
      using Cons.prems(3) False by (simp add: Let_def case_prod_unfold)
    ultimately have "slot_outcome R L 0 (ch_id ch) (usable e) res ?s2 s' \<and> walk_ok e w'"
      using Cons.IH Cons.prems(1) by simp
    then show ?thesis
      using slot_outcome_after [of ?s2 s] False by (simp add: reserve_failed_view)
  qed
qed

lemma overlap_outcome_usable:
  assumes "walk_ok e w"
  shows "slot_outcome R L 1 (ch_id ch) (usable e)
     (fst (reserve_overlap_slot R L e ch v (full_pairs w) s)) s
     (snd (reserve_overlap_slot R L e ch v (full_pairs w) s))"
  by (rule slot_outcome_mono [OF reserve_overlap_outcome])
    (use assms in \<open>force simp: walk_ok_def\<close>)+

lemma slot_outcome_trans:
  assumes "slot_outcome R L y i Q None s s1" and "slot_outcome R L x i P res s1 s'"
  shows "slot_outcome R L x i P res s s'"
  using assms(1) slot_outcome_after [OF _ _ assms(2)] by (simp add: slot_outcome_def)

lemma walk_streams_outcome:
  assumes "walk_ok e w" and "walk_streams R L e ch v level sts w s = (res, w', s')"
  shows "slot_outcome R L 1 (ch_id ch) (usable e) res s s' \<and> walk_ok e w'"
  using assms
proof (induction sts arbitrary: w s)
  case Nil
  then show ?case by (auto simp: slot_outcome_none)
next
  case (Cons st sts)
  obtain o1 w1 s1 where e: "overlap_before_custom R L e ch v st w s = (o1, w1, s1)"
    by (cases "overlap_before_custom R L e ch v st w s")
  have ok1: "walk_ok e w1" and out1: "slot_outcome R L 1 (ch_id ch) (usable e) o1 s s1"
    using e Cons.prems(1) overlap_outcome_usable [OF Cons.prems(1), of L ch v s]
    by (auto simp: overlap_before_custom_def walk_ok_def slot_outcome_none case_prod_unfold Let_def
        split: if_splits)
  have w: "(case o1 of Some r \<Rightarrow> (Some r, w1, s1)
      | None \<Rightarrow> (case stream_profiles e st of
           None \<Rightarrow> walk_streams R L e ch v level sts w1 s1
         | Some ps \<Rightarrow> (case walk_profiles R L e ch v level st ps w1 s1 of
               (Some r, w2, s2) \<Rightarrow> (Some r, w2, s2)
             | (None, w2, s2) \<Rightarrow> walk_streams R L e ch v level sts w2 s2))) = (res, w', s')"
    using Cons.prems(2) e by (cases o1) auto
  show ?case
  proof (cases o1)
    case (Some r)
    with w out1 ok1 show ?thesis by simp
  next
    case None
    note o1 = None
    show ?thesis
    proof (cases "stream_profiles e st")
      case None
      with w o1 have "walk_streams R L e ch v level sts w1 s1 = (res, w', s')" by simp
      from Cons.IH [OF ok1 this] show ?thesis using slot_outcome_trans out1 o1 by blast
    next
      case (Some ps)
      obtain r2 w2 s2 where p: "walk_profiles R L e ch v level st ps w1 s1 = (r2, w2, s2)"
        by (cases "walk_profiles R L e ch v level st ps w1 s1")
      have out2: "slot_outcome R L 0 (ch_id ch) (usable e) r2 s1 s2" and ok2: "walk_ok e w2"
        using walk_profiles_outcome [OF _ ok1 p] stream_profiles_usable [OF Some] by auto
      show ?thesis
      proof (cases r2)
        case (Some r)
        with w o1 p \<open>stream_profiles e st = Some ps\<close> have "res = r2" "w' = w2" "s' = s2" by auto
        then show ?thesis
          using slot_outcome_trans [OF out1 [unfolded o1] slot_outcome_mono [OF out2]] ok2 by auto
      next
        case None
        with w o1 p Some have "walk_streams R L e ch v level sts w2 s2 = (res, w', s')" by simp
        from Cons.IH [OF ok2 this] show ?thesis
          using slot_outcome_trans out1 out2 o1 None by blast
      qed
    qed
  qed
qed

lemma assign_new_stream_outcome:
  "slot_outcome R L 1 (ch_id ch) (usable e)
     (granted_slot (fst (assign_new_stream R L e ch v level s))) s
     (snd (assign_new_stream R L e ch v level s))"
proof -
  obtain r w s1 where w: "walk_streams R L e ch v level
      (viewer_order R e s v (ordered_for R e s v (ch_streams ch))) new_walk s = (r, w, s1)"
    by (cases "walk_streams R L e ch v level
      (viewer_order R e s v (ordered_for R e s v (ch_streams ch))) new_walk s")
  have out: "slot_outcome R L 1 (ch_id ch) (usable e) r s s1" and ok: "walk_ok e w"
    using walk_streams_outcome [OF walk_ok_new w] by auto
  show ?thesis
  proof (cases r)
    case (Some x)
    with w out show ?thesis by (cases x) (simp add: assign_new_stream_def)
  next
    case None
    obtain r2 s2 where o: "reserve_overlap_slot R L e ch v (full_pairs w) s1 = (r2, s2)"
      by (cases "reserve_overlap_slot R L e ch v (full_pairs w) s1")
    have "slot_outcome R L 1 (ch_id ch) (usable e) r2 s s2"
      using slot_outcome_trans [OF out [unfolded None] overlap_outcome_usable [OF ok, of L ch v s1]] o
      by simp
    with w out None o show ?thesis
      by (cases r2) (auto simp: assign_new_stream_def split: prod.splits)
  qed
qed

text \<open>
  A channel without an assignment: a stream with exactly one new slot, of a usable profile that
  was at most at its limit, or an error and every counter and assignment as before.
\<close>

lemma get_new_stream_outcome:
  "slot_outcome R L 1 (ch_id ch) (usable e)
     (granted_slot (fst (get_new_stream R L e ch v level s))) s
     (snd (get_new_stream R L e ch v level s))"
proof (cases "is_viewer_request v")
  case False
  then show ?thesis by (simp add: get_new_stream_def assign_new_stream_outcome)
next
  case True
  obtain r1 s1 where st: "reserve_sticky_slot R L e ch v s = (r1, s1)"
    by (cases "reserve_sticky_slot R L e ch v s")
  have o1: "slot_outcome R L 1 (ch_id ch) (usable e) r1 s s1"
    using reserve_sticky_outcome [of L ch e v s] st by simp
  obtain r2 s2 where al: "reserve_alternate_slot R L e ch v s1 = (r2, s2)"
    by (cases "reserve_alternate_slot R L e ch v s1")
  have o2: "slot_outcome R L 1 (ch_id ch) (usable e) r2 s1 s2"
    using slot_outcome_mono [OF reserve_alternate_outcome [of L ch e v s1], of "usable e" 1] al
    by simp
  show ?thesis
  proof (cases r1)
    case (Some x)
    with st o1 True show ?thesis by (cases x) (simp add: get_new_stream_def)
  next
    case None
    note r1 = None
    have o2': "slot_outcome R L 1 (ch_id ch) (usable e) r2 s s2"
      using slot_outcome_trans [OF o1 [unfolded r1] o2] .
    show ?thesis
    proof (cases r2)
      case (Some x)
      with st al o2' r1 True show ?thesis by (cases x) (simp add: get_new_stream_def)
    next
      case None
      with st al r1 True slot_outcome_trans [OF o2' [unfolded None] assign_new_stream_outcome]
      show ?thesis by (simp add: get_new_stream_def)
    qed
  qed
qed

end

section \<open>What giving a stream back does\<close>

text \<open>A release as the pool sees it.\<close>

definition slot_returned ::
  "int \<Rightarrow> (rkey \<Rightarrow> int) \<times> (int \<Rightarrow> rval option) \<Rightarrow> (rkey \<Rightarrow> int) \<times> (int \<Rightarrow> rval option)" where
  "slot_returned pid v =
     (let c = (case credential_key (snd v pid) of
                 None \<Rightarrow> fst v
               | Some k \<Rightarrow> (fst v)(k := if fst v k \<le> 0 then fst v k else fst v k - 1));
          P = Profile_connections pid
      in (c(P := if 0 < c P then c P - 1 else c P),
          if credential_key (snd v pid) = None then snd v else (snd v)(pid := None)))"

lemma slot_taken_returned:
  assumes "\<And>k. 0 \<le> fst v k"
    and "pooled_key L p = None \<Longrightarrow> credential_key (snd v (prof_id p)) = None"
    and "max_streams p \<le> 0 \<Longrightarrow> fst v (Profile_connections (prof_id p)) = 0"
  shows "fst (slot_returned (prof_id p) (slot_taken L p v)) = fst v"
proof (cases "pooled_key L p")
  case None
  have "0 \<le> fst v (Profile_connections (prof_id p))" using assms(1) .
  with None assms(2,3) show ?thesis
    by (auto simp: slot_returned_def slot_taken_def profile_key_def Let_def fun_eq_iff)
next
  case (Some k)
  then obtain g f where k: "k = Server_group_connections g f" using pooled_key_counter by blast
  have "0 \<le> fst v k" "0 \<le> fst v (Profile_connections (prof_id p))" using assms(1) by simp_all
  with assms(3) Some k show ?thesis
    by (auto simp: slot_returned_def slot_taken_def profile_key_def Let_def fun_eq_iff)
qed

context redis
begin

lemma release_view: "pool_view R (release_profile_slot R pid s) = slot_returned pid (pool_view R s)"
  by (auto simp: pool_view_def slot_returned_def release_slots release_get release_credential_slots
      Let_def fun_eq_iff split: option.split)

lemma del_view [simp]:
  "pool_view R (r_del R s (Channel_stream i)) = pool_view R s"
  "pool_view R (r_del R s (Stream_profile i)) = pool_view R s"
  by (simp_all add: pool_view_def slots_def fun_eq_iff)

lemma clear_fields_frame [simp]:
  "r_count R (clear_assignment_fields R c s) = r_count R s"
  "r_get R (clear_assignment_fields R c s) = r_get R s"
  "pool_view R (clear_assignment_fields R c s) = pool_view R s"
  "stream_field R (clear_assignment_fields R c s) c = None"
  "profile_field R (clear_assignment_fields R c s) c = None"
  by (simp_all add: clear_assignment_fields_def pool_view_def slots_def fun_eq_iff stream_field_def
      profile_field_def hget_hdel)

lemma hold_view [simp]: "pool_view R (hold_slot_for_viewer R e c pid s) = pool_view R s"
  by (simp add: pool_view_def slots_def fun_eq_iff)

lemma hold_and_release_view [simp]:
  "pool_view R (hold_and_release R e c pid s) = slot_returned pid (pool_view R s)"
  by (simp add: hold_and_release_def release_view)

lemma hold_and_release_get [simp]:
  "assignment_key k \<Longrightarrow> r_get R (hold_and_release R e c pid s) k = r_get R s k"
  by (cases k) (simp_all add: hold_and_release_def release_get)

lemma hold_hash_metadata:
  "r_hash R (hold_slot_for_viewer R e c pid s) (metadata d) = r_hash R s (metadata d)"
  by (auto simp: hold_slot_for_viewer_def hold_slot_def Let_def split: option.split)

lemma hold_and_release_fields [simp]:
  "stream_field R (hold_and_release R e c pid s) d = stream_field R s d"
  "profile_field R (hold_and_release R e c pid s) d = profile_field R s d"
  by (simp_all add: hold_and_release_def stream_field_def profile_field_def hold_hash_metadata)

lemma release_assigned:
  assumes "r_get R s (Channel_stream (ch_id ch)) = Some (VInt sid)"
    and "r_get R s (Stream_profile sid) = Some (VInt pid)"
  shows "fst (release_stream R e ch s)"
    and "pool_view R (snd (release_stream R e ch s)) = slot_returned pid (pool_view R s)"
  using assms by (simp_all add: release_stream_def get_int_def Let_def)

text \<open>A channel gives its slot back once: the second release finds nothing.\<close>

lemma release_stream_once:
  assumes "fst (release_stream R e ch s)"
  shows "release_stream R e' ch (snd (release_stream R e ch s)) =
         (False, snd (release_stream R e ch s))"
proof -
  have *: "release_stream R e' ch t = (False, t)"
    if "get_int R t (Channel_stream (ch_id ch)) = None" "stream_field R t (ch_uuid ch) = None" for t
    using that by (simp add: release_stream_def Let_def)
  have "get_int R (snd (release_stream R e ch s)) (Channel_stream (ch_id ch)) = None"
    using assms
    by (auto simp: release_stream_def Let_def get_int_def clear_assignment_fields_def
        split: option.splits prod.splits)
  moreover have "stream_field R (snd (release_stream R e ch s)) (ch_uuid ch) = None"
    using assms
    by (auto simp: release_stream_def Let_def split: option.splits)
  ultimately show ?thesis by (rule *)
qed

end

section \<open>The whole handler\<close>

context redis
begin

lemma first_slot_got:
  "first_slot R L e st ps t = (Some (i, q), s') \<Longrightarrow>
   r_get R s' (Channel_stream (str_id st)) = Some (VInt (str_id st)) \<and>
   r_get R s' (Stream_profile (str_id st)) = Some (VInt q) \<and> i = str_id st"
  by (induction ps arbitrary: t)
    (auto simp: Let_def case_prod_unfold assign_get split: if_splits)

lemma remember_limit_frame [simp]:
  "pool_view R (remember_channel_limit R e c v s) = pool_view R s"
  "assignment_key k \<Longrightarrow> r_get R (remember_channel_limit R e c v s) k = r_get R s k"
  by (auto simp: remember_channel_limit_def channel_limit_key_def Let_def pool_view_def slots_def
      fun_eq_iff)

lemma get_stream_unassigned:
  assumes "get_int R s (Channel_stream (ch_id ch)) = None"
    and "\<not> is_redirect (get_stream_profile e ch)"
  shows "slot_outcome R L 1 (ch_id ch) (usable e)
           (granted_slot (fst (get_stream R L e ch req v s))) s (snd (get_stream R L e ch req v s))"
proof (cases "ch_streams ch = []")
  case True
  then show ?thesis by (simp add: get_stream_def slot_outcome_none)
next
  case False
  let ?s0 = "remember_channel_limit R e (ch_uuid ch) v s"
  have "get_int R ?s0 (Channel_stream (ch_id ch)) = None" using assms(1) by (simp add: get_int_def)
  with False assms(2) have
    "get_stream R L e ch req v s =
       get_new_stream R L e ch v (case req of None \<Rightarrow> 100 | Some r \<Rightarrow> user_level r) ?s0"
    by (simp add: get_stream_def get_assigned_stream_def Let_def)
  then show ?thesis
    using slot_outcome_after [OF _ _ get_new_stream_outcome, of ?s0 s] by simp
qed

lemma new_stream_reserved:
  "fst (get_new_stream R L e ch v level s) = Inr (sid, pid, b) \<Longrightarrow> b"
  by (auto simp: get_new_stream_def assign_new_stream_def split: prod.splits option.splits if_splits)

lemma get_stream_reserved:
  assumes "get_int R s (Channel_stream (ch_id ch)) = None"
    and "\<not> is_redirect (get_stream_profile e ch)"
    and "fst (get_stream R L e ch req v s) = Inr (sid, pid, b)"
  shows b
proof -
  have "get_int R (remember_channel_limit R e (ch_uuid ch) v s) (Channel_stream (ch_id ch)) = None"
    using assms(1) by (simp add: get_int_def)
  with assms(2,3) show ?thesis
    by (auto simp: get_stream_def get_assigned_stream_def Let_def dest: new_stream_reserved
        split: if_splits)
qed

lemma get_then_release:
  assumes ok: "pool_ok R s" and free: "get_int R s (Channel_stream (ch_id ch)) = None"
    and nr: "\<not> is_redirect (get_stream_profile e ch)"
    and got: "fst (get_stream R L e ch req v s) = Inr (sid, pid, b)"
    and rel: "\<And>q. credential_key (r_get R s (Profile_credential_release q)) = None"
    and unl: "\<And>p. p \<in> set (profiles e) \<Longrightarrow> max_streams p \<le> 0 \<Longrightarrow>
                slots R s (Profile_connections (prof_id p)) = 0"
    and s': "s' = snd (get_stream R L e ch req v s)"
  shows "fst (release_stream R e' ch s')"
    and "slots R (snd (release_stream R e' ch s')) = slots R s"
proof -
  have "slot_outcome R L 1 (ch_id ch) (usable e) (Some (sid, pid)) s s'"
    using get_stream_unassigned [OF free nr, of L req v] got s' by simp
  then obtain p where p: "prof_id p = pid" "usable e p"
      and view: "pool_view R s' = slot_taken L p (pool_view R s)"
      and get: "r_get R s' (Channel_stream (ch_id ch)) = Some (VInt sid)"
        "r_get R s' (Stream_profile sid) = Some (VInt pid)"
    by (auto simp: slot_outcome_def)
  show "fst (release_stream R e' ch s')" by (rule release_assigned [OF get])
  have "fst (slot_returned (prof_id p) (slot_taken L p (pool_view R s))) = fst (pool_view R s)"
    using ok rel unl p(2)
    by (intro slot_taken_returned) (auto simp: pool_view_def pool_ok_def usable_def)
  then have "fst (pool_view R (snd (release_stream R e' ch s'))) = fst (pool_view R s)"
    using release_assigned(2) [OF get, of e'] view p(1) by simp
  then show "slots R (snd (release_stream R e' ch s')) = slots R s"
    by (simp add: pool_view_def)
qed

text \<open>A moved channel: one slot less on the old profile, one more on the new.\<close>

lemma update_profile_moved:
  assumes "r_get R s (Channel_stream (ch_id ch)) = Some (VInt sid)"
    and "r_get R s (Stream_profile sid) = Some (VInt pid)" and "pid \<noteq> new_pid"
    and "profile_by_id e pid = Some old" and "profile_by_id e new_pid = Some new"
    and "m = move_credential_slot_on_profile_switch R L e old new s"
  shows "update_stream_profile R L e ch new_pid s =
     (if fst m then (Some True, snd (update_stream_profile R L e ch new_pid s))
      else (Some False, snd m))"
    and "fst m \<Longrightarrow>
      slots R (snd (update_stream_profile R L e ch new_pid s)) =
        (let c = slots R (snd m); old_k = Profile_connections pid; new_k = Profile_connections new_pid
         in c(old_k := if 0 < c old_k then c old_k - 1 else c old_k, new_k := c new_k + 1))"
  using assms
  by (auto simp: update_stream_profile_def get_int_def case_prod_unfold Let_def slots_def fun_eq_iff)

lemma move_profile_used:
  "pid_used R (snd (move_credential_slot_on_profile_switch R L e old new s)) = pid_used R s"
  if "pool_ok R s"
proof -
  let ?s1 = "snd (release_credential_slot_by_profile_id R (prof_id old) s)"
  have 1: "pid_used R ?s1 = pid_used R s"
    using that
    by (cases "credential_key (r_get R s (Profile_credential_release (prof_id old)))")
      (auto simp: pid_used_def release_credential_slots pool_ok_def fun_eq_iff)
  have 2: "pid_used R (snd (reserve_server_group_slot_for_profile R L e p x v b t)) = pid_used R t"
    for p x v b t
    using pooled_key_not_profile [of L p]
    by (cases "pooled_key L p") (auto simp: pid_used_def server_group_slot_slots fun_eq_iff)
  have 3: "pid_used R (remember_credential_release_key R i k t) = pid_used R t" for i k t
    by (simp add: pid_used_def slots_def remember_credential_release_key_def fun_eq_iff)
  show ?thesis
    by (auto simp: move_credential_slot_on_profile_switch_def Let_def case_prod_unfold 1 2 3
        split: option.split)
qed

end

section \<open>Values the witnesses are evaluated on\<close>

definition ex_stream :: stream where
  "ex_stream = \<lparr>str_id = 10, str_name = ''News HD'', resolution = None, is_custom = False,
                str_account = Some ex_account\<rparr>"

definition ex_channel :: channel where
  "ex_channel = \<lparr>ch_id = 5, ch_uuid = ''c5'', ch_streams = [ex_stream], ch_stream_profile = None,
                 ch_override = None\<rparr>"

lemma ex_channel_simps [simp]:
  "ch_id ex_channel = 5" "\<not> is_redirect (get_stream_profile ex_env ex_channel)"
  by (simp_all add: ex_channel_def get_stream_profile_def resolve_effective_fk_def ex_env_def)

lemma ex_got:
  "fst (get_stream mem_redis ex_logins ex_env ex_channel None None mem_empty) = Inr (10, 1, True)"
  by code_simp

section \<open>Properties\<close>

text \<open>
  C28: A channel without an assignment that asks for a stream either gets one, on an active profile
  that was at most at its limit (so at most one past it now), with exactly that profile's slot
  and its login's slot taken and the channel's assignment written; or it gets an error, and
  every counter and every assignment is as it was.
\<close>

theorem get_stream_takes_one_slot:
  assumes "redis R" and "get_int R s (Channel_stream (ch_id ch)) = None"
    and "\<not> is_redirect (get_stream_profile e ch)"
    and "get_stream R L e ch req v s = (r, s')"
  shows "case r of
      Inl _ \<Rightarrow> slots R s' = slots R s \<and> (\<forall>k. assignment_key k \<longrightarrow> r_get R s' k = r_get R s k)
    | Inr (sid, pid, reserved) \<Rightarrow>
        reserved \<and>
        (\<exists>p. prof_id p = pid \<and> p \<in> set (profiles e) \<and> prof_active p \<and>
           slots R s' = bump (pooled_key L p) 1 (bump (profile_key p) 1 (slots R s)) \<and>
           (0 < max_streams p \<longrightarrow> slots R s' (Profile_connections pid) \<le> max_streams p + 1)) \<and>
        r_get R s' (Channel_stream (ch_id ch)) = Some (VInt sid) \<and>
        r_get R s' (Stream_profile sid) = Some (VInt pid)"
proof -
  have out: "slot_outcome R L 1 (ch_id ch) (usable e) (granted_slot r) s s'"
    using redis.get_stream_unassigned [OF assms(1-3), of L req v] assms(4) by simp
  have key: "bump (pooled_key L p) 1 c (Profile_connections i) = c (Profile_connections i)" for p c i
    by (cases "pooled_key L p") (auto dest: pooled_key_not_profile)
  show ?thesis
  proof (cases r)
    case (Inl x)
    with out show ?thesis by (simp add: slot_outcome_def pool_view_def)
  next
    case (Inr x)
    obtain sid pid b where x: "x = (sid, pid, b)" by (cases x)
    have b using redis.get_stream_reserved [OF assms(1-3), of L req v sid pid b] assms(4) Inr x by simp
    obtain p where p: "prof_id p = pid" "usable e p"
        and view: "pool_view R s' = slot_taken L p (pool_view R s)"
        and room: "0 < max_streams p \<longrightarrow> slots R s (Profile_connections pid) < max_streams p + 1"
        and get: "r_get R s' (Channel_stream (ch_id ch)) = Some (VInt sid)"
          "r_get R s' (Stream_profile sid) = Some (VInt pid)"
      using out Inr x by (auto simp: slot_outcome_def)
    have sl: "slots R s' = bump (pooled_key L p) 1 (bump (profile_key p) 1 (slots R s))"
      using arg_cong [OF view, of fst] by (simp add: pool_view_def slot_taken_def)
    then have "0 < max_streams p \<longrightarrow> slots R s' (Profile_connections pid) \<le> max_streams p + 1"
      using room p(1) by (simp add: key profile_key_def)
    with \<open>b\<close> p get sl Inr x show ?thesis unfolding usable_def by auto
  qed
qed

lemma get_stream_takes_one_slot_witness:
  "slots mem_redis (snd (get_stream mem_redis ex_logins ex_env ex_channel None None mem_empty))
     (Profile_connections 1) = 1"
proof -
  obtain s' where s': "get_stream mem_redis ex_logins ex_env ex_channel None None mem_empty =
      (Inr (10, 1, True), s')"
    using ex_got by (metis prod.collapse)
  show ?thesis
    using get_stream_takes_one_slot [OF mem.redis_axioms _ ex_channel_simps(2) s'] s'
    by (auto simp: get_int_def slots_def ex_env_def profile_key_def ex_login_def)
qed

text \<open>
  What a channel's start took its stop gives back: after releasing the stream it got, every slot
  counter is as before the start; and however often the stop is repeated, nothing more is
  given back.
\<close>

theorem stream_slot_round_trip:
  assumes "redis R" and "pool_ok R s" and "get_int R s (Channel_stream (ch_id ch)) = None"
    and "\<not> is_redirect (get_stream_profile e ch)"
    and "get_stream R L e ch req v s = (Inr (sid, pid, b), s')"
    and "\<And>q. credential_key (r_get R s (Profile_credential_release q)) = None"
    and "\<And>p. p \<in> set (profiles e) \<Longrightarrow> max_streams p \<le> 0 \<Longrightarrow>
           slots R s (Profile_connections (prof_id p)) = 0"
    and "release_stream R e' ch s' = (ok, s'')"
  shows "ok \<and> slots R s'' = slots R s \<and> release_stream R e'' ch s'' = (False, s'')"
proof -
  have got: "fst (get_stream R L e ch req v s) = Inr (sid, pid, b)"
    and s': "s' = snd (get_stream R L e ch req v s)"
    using assms(5) by simp_all
  have rel: "fst (release_stream R e' ch s') = ok" "snd (release_stream R e' ch s') = s''"
    using assms(8) by simp_all
  have ok: "ok" and "slots R s'' = slots R s"
    using redis.get_then_release [OF assms(1-4) got assms(6,7) s', of e'] unfolding rel by blast+
  moreover have "release_stream R e'' ch s'' = (False, s'')"
    using redis.release_stream_once [OF assms(1), of e' ch s' e''] ok unfolding rel by blast
  ultimately show ?thesis by simp
qed

lemma stream_slot_round_trip_witness:
  "slots mem_redis
     (snd (release_stream mem_redis ex_env ex_channel
       (snd (get_stream mem_redis ex_logins ex_env ex_channel None None mem_empty)))) =
   slots mem_redis mem_empty"
proof -
  obtain s' where s': "get_stream mem_redis ex_logins ex_env ex_channel None None mem_empty =
      (Inr (10, 1, True), s')"
    using ex_got by (metis prod.collapse)
  obtain b s'' where s'': "release_stream mem_redis ex_env ex_channel s' = (b, s'')"
    by (cases "release_stream mem_redis ex_env ex_channel s'")
  have "slots mem_redis s'' = slots mem_redis mem_empty"
    using stream_slot_round_trip [OF mem.redis_axioms ex_pool_ok _ ex_channel_simps(2) s' _ _ s'']
    by (simp add: get_int_def slots_def)
  with s' s'' show ?thesis by simp
qed

text \<open>
  A preview of a stream writes the assignment key of the channel whose number is the stream's.
  That channel, when it is not running, is then given the previewed stream and its profile, with
  no slot of its own, whatever streams it has.
\<close>

theorem preview_taken_for_channel:
  assumes "redis R" and "get_int R s (Stream_profile (str_id st)) = None"
    and "fst (stream_get_stream R L e st s) = Some (Inr (sid, pid, True))"
    and "ch_id ch = str_id st" and "ch_streams ch \<noteq> []"
    and "\<not> is_redirect (get_stream_profile e' ch)"
    and "\<not> r_exists R (remember_channel_limit R e' (ch_uuid ch) v
                         (snd (stream_get_stream R L e st s))) (metadata (ch_uuid ch))"
  shows "fst (get_stream R L e' ch req v (snd (stream_get_stream R L e st s))) =
         Inr (str_id st, pid, False)"
proof -
  let ?s = "snd (stream_get_stream R L e st s)"
  have "r_get R ?s (Channel_stream (str_id st)) = Some (VInt (str_id st)) \<and>
        r_get R ?s (Stream_profile (str_id st)) = Some (VInt pid)"
    using assms(2,3)
    by (auto simp: stream_get_stream_def dest: redis.first_slot_got [OF assms(1)]
        split: option.splits prod.splits)
  then show ?thesis
    using assms(4-7)
    by (simp add: get_stream_def get_assigned_stream_def get_int_def Let_def
        stream_assignment_is_reusable_def redis.remember_limit_frame [OF assms(1)])
qed

definition ex_preview :: stream where
  "ex_preview = ex_stream\<lparr>str_id := 5\<rparr>"

lemma ex_preview_simps [simp]: "str_id ex_preview = 5" "ch_streams ex_channel \<noteq> []"
  by (simp_all add: ex_preview_def ex_channel_def)

lemma preview_taken_for_channel_witness:
  "fst (get_stream mem_redis ex_logins ex_env ex_channel None None
     (snd (stream_get_stream mem_redis ex_logins ex_env ex_preview mem_empty))) = Inr (5, 1, False)"
proof -
  have "fst (stream_get_stream mem_redis ex_logins ex_env ex_preview mem_empty) =
      Some (Inr (5, 1, True))"
    by code_simp
  moreover have "\<not> r_exists mem_redis (remember_channel_limit mem_redis ex_env (ch_uuid ex_channel)
      None (snd (stream_get_stream mem_redis ex_logins ex_env ex_preview mem_empty)))
      (metadata (ch_uuid ex_channel))"
    by code_simp
  ultimately show ?thesis
    using preview_taken_for_channel [OF mem.redis_axioms, of mem_empty ex_preview ex_logins ex_env
        5 1 ex_channel ex_env None None]
    by (simp add: get_int_def)
qed

text \<open>
  No channel is ever picked to make way while channels are known by their UUIDs: the picker
  reads a channel's number out of its metadata key, where the UUID stands, and the index of
  channels per profile it asks first is written by nothing.
\<close>

theorem nothing_to_preempt:
  assumes "r_members R s (Profile_channels pid) = []"
    and "\<And>c. metadata c \<in> set (r_hkeys R s) \<Longrightarrow> parse_int c = None"
  shows "pick_channel_to_preempt R e pid level exclude s = (None, s)"
proof -
  have m: "metadata_channel k = Some c \<Longrightarrow> k = metadata c" for k c
    by (cases k rule: metadata_channel.cases) auto
  have "numbered_channels R s pid = []"
    using assms(2) by (fastforce simp: numbered_channels_def map_filter_def filter_empty_conv dest: m)
  then show ?thesis
    using assms(1) by (simp add: pick_channel_to_preempt_def preempt_ids_def)
qed

lemma nothing_to_preempt_witness:
  "pick_channel_to_preempt mem_redis ex_env 1 100 []
     (r_hset mem_redis mem_empty (metadata ''3f2a-c5'') ''m3u_profile'' (VInt 1)) =
   (None, r_hset mem_redis mem_empty (metadata ''3f2a-c5'') ''m3u_profile'' (VInt 1))"
proof (rule nothing_to_preempt)
  let ?s = "r_hset mem_redis mem_empty (metadata ''3f2a-c5'') ''m3u_profile'' (VInt 1)"
  show "r_members mem_redis ?s (Profile_channels 1) = []" by simp
  have "r_hkeys mem_redis ?s = [metadata ''3f2a-c5'']" by code_simp
  moreover have "parse_int ''3f2a-c5'' = None" by code_simp
  ultimately show "metadata c \<in> set (r_hkeys mem_redis ?s) \<Longrightarrow> parse_int c = None" for c by simp
qed

text \<open>
  C29: Moving a running channel to another profile moves exactly one slot from the old profile's
  counter to the new one's and records the new profile; a refused move leaves every profile's
  counter as it was.
\<close>

theorem profile_switch_moves_one_slot:
  assumes "redis R" and "pool_ok R s"
    and "r_get R s (Channel_stream (ch_id ch)) = Some (VInt sid)"
    and "r_get R s (Stream_profile sid) = Some (VInt pid)" and "pid \<noteq> new_pid"
    and "profile_by_id e pid = Some old" and "profile_by_id e new_pid = Some new"
    and "update_stream_profile R L e ch new_pid s = (res, s')"
  shows "(res = Some True \<and> r_get R s' (Stream_profile sid) = Some (VInt new_pid) \<and>
            pid_used R s' = (pid_used R s)(pid := max 0 (pid_used R s pid - 1),
                                           new_pid := pid_used R s new_pid + 1)) \<or>
         (res = Some False \<and> pid_used R s' = pid_used R s)"
proof -
  define m where "m = move_credential_slot_on_profile_switch R L e old new s"
  have used: "pid_used R (snd m) = pid_used R s"
    unfolding m_def by (rule redis.move_profile_used [OF assms(1,2)])
  have nn: "0 \<le> pid_used R s pid" using assms(2) by (simp add: pool_ok_def pid_used_def)
  have moved: "update_stream_profile R L e ch new_pid s =
      (if fst m then (Some True, snd (update_stream_profile R L e ch new_pid s))
       else (Some False, snd m))"
    using redis.update_profile_moved(1) [OF assms(1,3-7) m_def] .
  show ?thesis
  proof (cases "fst m")
    case False
    with moved assms(8) used show ?thesis by simp
  next
    case True
    have sl: "slots R s' = (let c = slots R (snd m); old_k = Profile_connections pid;
          new_k = Profile_connections new_pid
        in c(old_k := if 0 < c old_k then c old_k - 1 else c old_k, new_k := c new_k + 1))"
      using redis.update_profile_moved(2) [OF assms(1,3-7) m_def True] assms(8) by simp
    have "pid_used R s' = (pid_used R s)(pid := max 0 (pid_used R s pid - 1),
        new_pid := pid_used R s new_pid + 1)"
      using sl used nn assms(5) by (auto simp: pid_used_def Let_def fun_eq_iff)
    moreover have "res = Some True" using moved assms(8) True by simp
    moreover have "r_get R s' (Stream_profile sid) = Some (VInt new_pid)"
      using assms(3-8) True
      by (auto simp: update_stream_profile_def get_int_def m_def case_prod_unfold Let_def
          redis.get_set [OF assms(1)] redis.get_incr [OF assms(1)] split: if_splits)
    ultimately show ?thesis by simp
  qed
qed

definition ex_env2 :: env where
  "ex_env2 = ex_env\<lparr>profiles := [ex_profile, ex_profile\<lparr>prof_id := 3\<rparr>]\<rparr>"

definition ex_playing :: mem where
  "ex_playing = snd (get_stream mem_redis ex_logins ex_env2 ex_channel None None mem_empty)"

lemma profile_switch_moves_one_slot_witness:
  "pid_used mem_redis (snd (update_stream_profile mem_redis ex_logins ex_env2 ex_channel 3 ex_playing)) 3 = 1"
proof -
  have nr: "\<not> is_redirect (get_stream_profile ex_env2 ex_channel)" by code_simp
  obtain s where s: "get_stream mem_redis ex_logins ex_env2 ex_channel None None mem_empty = (Inr (10, 1, True), s)"
  proof -
    have "fst (get_stream mem_redis ex_logins ex_env2 ex_channel None None mem_empty) = Inr (10, 1, True)"
      by code_simp
    then show ?thesis using that by (metis prod.collapse)
  qed
  have out: "slot_outcome mem_redis ex_logins 1 5 (usable ex_env2) (Some (10, 1)) mem_empty s"
    using mem.get_stream_unassigned [OF _ nr, of mem_empty ex_logins None None] s
    by (simp add: get_int_def)
  then obtain p where "prof_id p = 1" "usable ex_env2 p"
      and view: "pool_view mem_redis s = slot_taken ex_logins p (pool_view mem_redis mem_empty)"
      and get: "r_get mem_redis s (Channel_stream 5) = Some (VInt 10)"
        "r_get mem_redis s (Stream_profile 10) = Some (VInt 1)"
    by (auto simp: slot_outcome_def)
  then have p: "p = ex_profile" by (auto simp: usable_def ex_env2_def)
  have sl: "slots mem_redis s = bump (pooled_key ex_logins p) 1 (bump (profile_key p) 1 (\<lambda>_. 0))"
  proof -
    have "slots mem_redis mem_empty = (\<lambda>_. 0)" by (simp add: slots_def fun_eq_iff)
    then show ?thesis using arg_cong [OF view, of fst] by (simp add: pool_view_def slot_taken_def)
  qed
  have rel: "(\<lambda>q. r_get mem_redis s (Profile_credential_release q)) = (\<lambda>_. None)(1 \<mapsto> VKey ex_login)"
    using arg_cong [OF view, of snd] p by (simp add: pool_view_def slot_taken_def)
  have ok: "pool_ok mem_redis s"
    using fun_cong [OF rel] p sl
    by (auto simp: pool_ok_def profile_key_def ex_login_def split: if_splits)
  obtain r s' where u: "update_stream_profile mem_redis ex_logins ex_env2 ex_channel 3 s = (r, s')"
    by (cases "update_stream_profile mem_redis ex_logins ex_env2 ex_channel 3 s")
  have "fst (update_stream_profile mem_redis ex_logins ex_env2 ex_channel 3 ex_playing) = Some True"
    unfolding ex_playing_def by code_simp
  then have r: "r = Some True" using s u by (simp add: ex_playing_def)
  have "pid_used mem_redis s' 3 = 1"
    using profile_switch_moves_one_slot [OF mem.redis_axioms ok _ _ _ _ _ u, of 10 1 ex_profile
        "ex_profile\<lparr>prof_id := 3\<rparr>"] get r sl p
    by (simp add: ex_env2_def profile_by_id_def pid_used_def profile_key_def ex_login_def)
  then show ?thesis using s u by (simp add: ex_playing_def)
qed

end
