(* ===== verification/Force_Close.thy ===== *)
theory Force_Close
  imports Channel_Streams
begin

text \<open>
  Stopping the channels a viewer has left (\<^verbatim>\<open>apps/proxy/live_proxy/probation.py\<close>, Stop Skipped
  Channels): Force Close on Identified Traffic, the app's word that it is leaving a channel,
  the background stop and the wait for it, the surfing delay, and the retry delay of a
  provider that refuses; with the parts of \<^verbatim>\<open>captions/__init__.py\<close>, \<^verbatim>\<open>media_servers.py\<close>,
  \<^verbatim>\<open>app_own_streams.py\<close> and \<^verbatim>\<open>services/channel_service.py\<close> they call. The event log is not
  modelled; what other greenlets and workers do while one of them sleeps is a parameter.
\<close>

section \<open>Rows and answers read besides Redis\<close>

record site =
  channel_rows :: "channel list"
  stream_rows :: "(string \<times> stream) list"
  recorded_names :: "string list"

definition channel_by_uuid :: "site \<Rightarrow> string \<Rightarrow> channel option" where
  "channel_by_uuid X c = List.find (\<lambda>ch. ch_uuid ch = c) (channel_rows X)"

definition stream_by_id :: "site \<Rightarrow> int \<Rightarrow> stream option" where
  "stream_by_id X sid = map_option snd (List.find (\<lambda>(h, st). str_id st = sid) (stream_rows X))"

section \<open>Helpers that read along, and recordings\<close>

definition HELPER_USER_AGENTS :: "string list" where
  "HELPER_USER_AGENTS = [''DispatchMore-Captions/'', ''DispatchMore-Rewind/'']"

definition is_caption_client :: "string option \<Rightarrow> bool" where
  "is_caption_client ua = list_ex (starts_with (text_or [] ua)) HELPER_USER_AGENTS"

text \<open>
  \<open>_bare_channel_name\<close>: bracketed decoration out, then letters and digits only. The heavy
  bar is its three bytes; letters outside ASCII are no letters here.
\<close>

function strip_pair :: "string \<Rightarrow> string \<Rightarrow> string \<Rightarrow> string" where
  "strip_pair opener closer text =
     (case cut opener text of
        None \<Rightarrow> text
      | Some (b, rest) \<Rightarrow>
          (case cut closer rest of
             None \<Rightarrow> text
           | Some (_, a) \<Rightarrow>
               (if length opener + length closer < 2 then text
                else strip_pair opener closer (b @ '' '' @ a))))"
  by pat_completeness auto
termination
  by (relation "measure (\<lambda>(o1, c, t). length t)") (auto dest!: cut_length)

declare strip_pair.simps [simp del]

definition heavy_bar :: string where
  "heavy_bar = [char_of (226::nat), char_of (148::nat), char_of (131::nat)]"

definition is_alnum :: "char \<Rightarrow> bool" where
  "is_alnum c \<longleftrightarrow> is_digit c \<or> (97 \<le> (of_char c :: nat) \<and> (of_char c :: nat) \<le> 122) \<or>
     (65 \<le> (of_char c :: nat) \<and> (of_char c :: nat) \<le> 90)"

definition bare_channel_name :: "string \<Rightarrow> string" where
  "bare_channel_name name =
     filter is_alnum (lower
       (foldl (\<lambda>t (o1, c). strip_pair o1 c t) name
          [(heavy_bar, heavy_bar), (''['', '']''), (''('', '')''), (''|'', ''|'')]))"

definition same_channel :: "string \<Rightarrow> string \<Rightarrow> bool" where
  "same_channel reported name \<longleftrightarrow>
     bare_channel_name name \<noteq> [] \<and> bare_channel_name name = bare_channel_name reported"

definition resolve_channel_display_name :: "'s redis_api \<Rightarrow> 's \<Rightarrow> string \<Rightarrow> string" where
  "resolve_channel_display_name R s c =
     (case Option.bind (r_hget R s (metadata c) ''channel_name'') val_text of
        None \<Rightarrow> c | Some n \<Rightarrow> if n = [] then c else n)"

definition is_being_recorded :: "'s redis_api \<Rightarrow> site \<Rightarrow> 's \<Rightarrow> string \<Rightarrow> bool" where
  "is_being_recorded R X s c \<longleftrightarrow>
     list_ex (\<lambda>theirs. same_channel theirs (resolve_channel_display_name R s c)) (recorded_names X)"

section \<open>Stopping a channel\<close>

definition SKIPPED_STOPPING_TTL :: int where "SKIPPED_STOPPING_TTL = 30"

definition release_channel_slot_now ::
  "'s redis_api \<Rightarrow> env \<Rightarrow> site \<Rightarrow> string \<Rightarrow> bool \<Rightarrow> 's \<Rightarrow> 's" where
  "release_channel_slot_now R e X c hold s =
     (case channel_by_uuid X c of
        None \<Rightarrow> s
      | Some ch \<Rightarrow>
          snd (release_stream R e ch
            (if hold then s else r_setex R s (No_hold c) 30 (VStr ''1''))))"

text \<open>The release; the slower full stop (\<open>stop_channel\<close>) is spawned and runs on its own.\<close>

definition stop_channel_now ::
  "'s redis_api \<Rightarrow> env \<Rightarrow> site \<Rightarrow> bool \<Rightarrow> string \<Rightarrow> 's \<Rightarrow> 's" where
  "stop_channel_now R e X hold c s =
     release_channel_slot_now R e X c hold
       (r_setex R s (Skipped_stopping c) SKIPPED_STOPPING_TTL (VStr ''1''))"

text \<open>
  \<open>_stop_channel\<close>: \<open>stopping_here\<close> says whether this worker is stopping it already, and
  \<open>full_stop\<close> is \<open>ChannelService.stop_channel\<close>.
\<close>

definition stop_channel ::
  "'s redis_api \<Rightarrow> (string \<Rightarrow> bool) \<Rightarrow> (string \<Rightarrow> 's \<Rightarrow> 's) \<Rightarrow> string \<Rightarrow> 's \<Rightarrow> 's" where
  "stop_channel R stopping_here full_stop c s =
     (let s1 = (if stopping_here c \<or> dispatcharr_is_stopping R s c \<or> \<not> r_exists R s (metadata c)
                then s else full_stop c s)
      in r_del R s1 (Skipped_stopping c))"

definition clear_leftover_stop_marker :: "'s redis_api \<Rightarrow> string \<Rightarrow> 's \<Rightarrow> bool \<times> 's" where
  "clear_leftover_stop_marker R c s =
     (if \<not> r_exists R s (Live (Channel_stopping c)) \<or> r_exists R s (metadata c) then (False, s)
      else (True, r_del R s (Live (Channel_stopping c))))"

definition is_channel_teardown_active :: "'s redis_api \<Rightarrow> (string \<Rightarrow> bool) \<Rightarrow> 's \<Rightarrow> string \<Rightarrow> bool" where
  "is_channel_teardown_active R stopping_here s c \<longleftrightarrow>
     stopping_here c \<or> r_exists R s (Live (Channel_stopping c)) \<or>
     channel_state_of R s c = Some (state_text Stopping)"

text \<open>The check of \<open>wait_for_stop_to_finish\<close>'s loop, with the marker it may clear.\<close>

definition still_stopping ::
  "'s redis_api \<Rightarrow> (string \<Rightarrow> bool) \<Rightarrow> string \<Rightarrow> 's \<Rightarrow> bool \<times> 's" where
  "still_stopping R stopping_here c s =
     (if r_exists R s (Skipped_stopping c) then (True, s)
      else (let s1 = snd (clear_leftover_stop_marker R c s)
            in (is_channel_teardown_active R stopping_here s1 c, s1)))"

text \<open>
  The loop, on \<open>fuel\<close> checks: \<open>elapsed n\<close> is the time gone at check \<open>n\<close>, and \<open>others n\<close> what the
  other greenlets and workers do during the sleep after it. \<open>None\<close> where the fuel ends first.
\<close>

definition STOP_WAIT_SECONDS :: real where "STOP_WAIT_SECONDS = 5"
definition STOP_WAIT_POLL_INTERVAL :: real where "STOP_WAIT_POLL_INTERVAL = 1 / 10"

fun wait_loop ::
  "'s redis_api \<Rightarrow> (string \<Rightarrow> bool) \<Rightarrow> (nat \<Rightarrow> real) \<Rightarrow> (nat \<Rightarrow> 's \<Rightarrow> 's) \<Rightarrow> string \<Rightarrow> nat \<Rightarrow> nat \<Rightarrow> 's \<Rightarrow>
   's option" where
  "wait_loop R here elapsed others c 0 n s = None"
| "wait_loop R here elapsed others c (Suc fuel) n s =
     (case still_stopping R here c s of
        (False, s1) \<Rightarrow> Some s1
      | (True, s1) \<Rightarrow>
          (if STOP_WAIT_SECONDS \<le> elapsed n then Some s1
           else wait_loop R here elapsed others c fuel (Suc n) (others n s1)))"

definition wait_for_stop_to_finish ::
  "'s redis_api \<Rightarrow> env \<Rightarrow> (string \<Rightarrow> bool) \<Rightarrow> (nat \<Rightarrow> real) \<Rightarrow> (nat \<Rightarrow> 's \<Rightarrow> 's) \<Rightarrow> string \<Rightarrow> nat \<Rightarrow> 's \<Rightarrow>
   (bool \<times> 's) option" where
  "wait_for_stop_to_finish R e here elapsed others c fuel s =
     (if \<not> in_use e then Some (False, s)
      else
        (let (cleared, s1) = clear_leftover_stop_marker R c s in
         if \<not> r_exists R s1 (Skipped_stopping c) then Some (cleared, s1)
         else map_option (Pair True) (wait_loop R here elapsed others c fuel 0 s1)))"

section \<open>A provider that refuses\<close>

definition REFUSAL_RETRY_SECONDS :: real where "REFUSAL_RETRY_SECONDS = 3 / 2"

definition refusal_retry_delay ::
  "'s redis_api \<Rightarrow> env \<Rightarrow> site \<Rightarrow> 's \<Rightarrow> int option \<Rightarrow> int \<Rightarrow> bool \<Rightarrow> real" where
  "refusal_retry_delay R e X s stream_id failures refused =
     (case stream_id of
        None \<Rightarrow> 0
      | Some sid \<Rightarrow>
          (if \<not> refused \<or> sid = 0 \<or> \<not> in_use e then 0
           else
             (let acct = (case Option.bind (get_int R s (Stream_profile sid)) (profile_by_id e) of
                            Some p \<Rightarrow> Some (m3u_account p)
                          | None \<Rightarrow> Option.bind (stream_by_id X sid) str_account)
              in case acct of
                   None \<Rightarrow> 0
                 | Some a \<Rightarrow> (if account_allows_probation a
                              then REFUSAL_RETRY_SECONDS * of_int failures else 0))))"

section \<open>The surfing delay\<close>

definition surf_streams :: "site \<Rightarrow> string \<Rightarrow> stream list" where
  "surf_streams X c =
     (case channel_by_uuid X c of
        Some ch \<Rightarrow> ch_streams ch
      | None \<Rightarrow> map snd (filter (\<lambda>(h, st). h = c) (stream_rows X)))"

definition surf_counts :: "viewer option \<Rightarrow> stream \<Rightarrow> account option" where
  "surf_counts v st =
     (case str_account st of
        None \<Rightarrow> None
      | Some a \<Rightarrow>
          (if \<not> acc_active a \<or> \<not> account_allows_probation a \<or> \<not> is_identified v (Some a) \<or>
              account_surf_delay_seconds a \<le> 0
           then None else Some a))"

definition surf_delay_for_channel :: "site \<Rightarrow> string \<Rightarrow> viewer option \<Rightarrow> real \<times> real" where
  "surf_delay_for_channel X c v =
     foldl (\<lambda>(delay, window) a.
              (max delay (account_surf_delay_seconds a),
               max window (of_int (account_probation_seconds a))))
       (0, 0) (List.map_filter (surf_counts v) (surf_streams X c))"

text \<open>
  A viewer's latest request is \<open>"time|token|channel"\<close>. \<open>running\<close> is \<open>check_if_channel_exists\<close>
  and \<open>others\<close> what happens during the delay.
\<close>

fun request_parts :: "rval \<Rightarrow> (real \<times> string \<times> string) option" where
  "request_parts (VPair (VTime t) (VPair (VStr token) (VStr c))) = Some (t, token, c)"
| "request_parts _ = None"

definition skipped_while_surfing ::
  "'s redis_api \<Rightarrow> env \<Rightarrow> site \<Rightarrow> string \<Rightarrow> bool \<Rightarrow> ('s \<Rightarrow> 's) \<Rightarrow> viewer option \<Rightarrow> string \<Rightarrow> 's \<Rightarrow>
   bool \<times> 's" where
  "skipped_while_surfing R e X token running others v c s =
     (case v of
        None \<Rightarrow> (False, s)
      | Some w \<Rightarrow>
          (if \<not> may_be_identified e v \<or> \<not> in_use e then (False, s)
           else
             (let key = Last_request (player_key w);
                  s1 = r_setex R s key max_probation_seconds
                         (VPair (VTime (now e)) (VPair (VStr token) (VStr c)))
              in case Option.bind (r_get R s key) request_parts of
                   None \<Rightarrow> (False, s1)
                 | Some (previous_time, _, previous_channel) \<Rightarrow>
                     (let (delay, window) = surf_delay_for_channel X c v in
                      if previous_channel = c \<or> running \<or> delay \<le> 0 \<or>
                         window < now e - previous_time
                      then (False, s1)
                      else
                        (let s2 = others s1 in
                         case Option.bind (r_get R s2 key) request_parts of
                           Some (_, t, _) \<Rightarrow> (t \<noteq> token, s2)
                         | None \<Rightarrow> (True, s2))))))"

section \<open>Force Close on Identified Traffic\<close>

definition GUESSED_WINDOW_SECONDS :: real where "GUESSED_WINDOW_SECONDS = 10"

definition client_real :: "client \<Rightarrow> string \<Rightarrow> real option" where
  "client_real c f = Option.bind (map_of c f) val_real"

text \<open>When the viewer joined a channel, for each of its clients; empty when it is shared.\<close>

fun joined_times :: "env \<Rightarrow> viewer \<Rightarrow> account option \<Rightarrow> client list \<Rightarrow> real list \<Rightarrow> real list" where
  "joined_times e v m3u [] joined = joined"
| "joined_times e v m3u (c # cs) joined =
     (if is_caption_client (client_field c ''user_agent'') then joined_times e v m3u cs joined
      else case client_real c ''connected_at'' of
             None \<Rightarrow> []
           | Some t \<Rightarrow>
               (if \<not> is_viewer e v c m3u then []
                else if text_or [] (multiview v) \<noteq> [] \<and> client_field c ''multiview'' = multiview v
                then []
                else joined_times e v m3u cs (joined @ [t])))"

definition left_candidate ::
  "'s redis_api \<Rightarrow> env \<Rightarrow> site \<Rightarrow> 's \<Rightarrow> viewer \<Rightarrow> string \<Rightarrow> string \<times> int option \<Rightarrow>
   (string \<times> int \<times> real) option" where
  "left_candidate R e X s v requested ch =
     (case ch of
        (c, None) \<Rightarrow> None
      | (c, Some pid) \<Rightarrow>
          (if c = requested \<or> r_exists R s (Skipped_stopping c) \<or> dispatcharr_is_stopping R s c \<or>
              is_being_recorded R X s c
           then None
           else
             (let joined = joined_times e v (account_for_profile e pid) (channel_clients R s c) []
              in if joined = [] then None else Some (c, pid, Min (set joined)))))"

definition may_stop :: "env \<Rightarrow> viewer \<Rightarrow> bool \<Rightarrow> string \<times> int \<times> real \<Rightarrow> bool" where
  "may_stop e v certain cand =
     (case cand of
        (c, pid, joined_at) \<Rightarrow>
          (case profile_by_id e pid of
             None \<Rightarrow> False
           | Some p \<Rightarrow>
               account_stops_skipped_channels (m3u_account p) \<and>
               is_identified (Some v) (Some (m3u_account p)) \<and>
               \<not> (server_device v \<noteq> None \<and> \<not> is_declared (server_device v) \<and> \<not> certain \<and>
                  GUESSED_WINDOW_SECONDS < now e - joined_at)))"

definition stop_skipped_channels ::
  "'s redis_api \<Rightarrow> env \<Rightarrow> site \<Rightarrow> viewer option \<Rightarrow> string \<Rightarrow> bool \<Rightarrow> bool \<Rightarrow> 's \<Rightarrow>
   string list \<times> 's" where
  "stop_skipped_channels R e X v requested hold certain s =
     (case v of
        None \<Rightarrow> ([], s)
      | Some w \<Rightarrow>
          (if \<not> may_be_identified e v \<or> text_or [] (multiview w) \<noteq> [] \<or> \<not> skipping_in_use e
           then ([], s)
           else
             (let stopped = map fst (filter (may_stop e w certain)
                    (List.map_filter (left_candidate R e X s w requested) (active_channels R s)))
              in (stopped, foldl (\<lambda>t c. stop_channel_now R e X hold c t) s stopped))))"

text \<open>Once a media server has named its player, there is no guess.\<close>

definition settle_media_server_start ::
  "'s redis_api \<Rightarrow> env \<Rightarrow> site \<Rightarrow> string \<Rightarrow> string \<Rightarrow> 's \<Rightarrow> string list \<times> 's" where
  "settle_media_server_start R e X c device s =
     (if device = [] \<or> c = [] \<or> \<not> skipping_in_use e then ([], s)
      else stop_skipped_channels R e X
             (Some ((mk_viewer (Some []) None)\<lparr>server_device := Some device\<rparr>)) c False True s)"

section \<open>The app says which channel it is leaving\<close>

definition own_stream_key :: "viewer \<Rightarrow> string \<Rightarrow> rkey" where
  "own_stream_key v c =
     Named_key (''live:app_devices:own:'' @
       (if is_declared (server_device v) then text_or [] (server_device v)
        else ''ip|'' @ text_or ''None'' (v_ip v) @ ''|'' @ dec (uid v)) @ '':'' @ c)"

definition own_stream_running :: "'s redis_api \<Rightarrow> 's \<Rightarrow> string \<Rightarrow> bool" where
  "own_stream_running R s session \<longleftrightarrow>
     (case channel_state_of R s session of
        None \<Rightarrow> False
      | Some st \<Rightarrow> st \<noteq> [] \<and> st \<notin> set (map state_text [Error_state, Stopping, Stopped]))"

definition session_for :: "'s redis_api \<Rightarrow> 's \<Rightarrow> viewer option \<Rightarrow> string \<Rightarrow> string" where
  "session_for R s v c =
     (case v of
        None \<Rightarrow> []
      | Some w \<Rightarrow>
          (case r_get R s (own_stream_key w c) of
             Some (VStr own) \<Rightarrow>
               (if c \<noteq> [] \<and> own \<noteq> [] \<and> own_stream_running R s own then own else [])
           | _ \<Rightarrow> []))"

definition left_channel :: "'s redis_api \<Rightarrow> 's \<Rightarrow> viewer option \<Rightarrow> string \<Rightarrow> string" where
  "left_channel R s v c = (let own = session_for R s v c in if own = [] then c else own)"

definition forget_clients :: "'s redis_api \<Rightarrow> string \<Rightarrow> 's \<Rightarrow> 's" where
  "forget_clients R c s =
     foldl (\<lambda>t cl. r_del R t (Live (Client_metadata c cl))) s (r_members R s (Live (Clients c)))"

definition leave_previous_channel ::
  "'s redis_api \<Rightarrow> env \<Rightarrow> site \<Rightarrow> viewer option \<Rightarrow> string \<Rightarrow> string \<Rightarrow> 's \<Rightarrow> bool \<times> 's" where
  "leave_previous_channel R e X v previous_uuid requested s =
     (let c = left_channel R s v previous_uuid;
          clients = channel_clients R s c;
          device = Option.bind v server_device
      in if c = [] \<or> c = requested \<or> \<not> is_viewer_request v \<or> \<not> is_declared device \<or>
            \<not> r_exists R s (metadata c) \<or> r_exists R s (Skipped_stopping c) \<or>
            dispatcharr_is_stopping R s c \<or> is_being_recorded R X s c \<or>
            clients = [] \<or> list_ex (\<lambda>cl. server_device (client_viewer e cl) \<noteq> device) clients
         then (False, s)
         else (True, forget_clients R c (stop_channel_now R e X True c s)))"

section \<open>Whose channels are stopped\<close>

text \<open>A client that says the channel is this viewer's alone, or nothing about it.\<close>

definition own_client :: "env \<Rightarrow> viewer \<Rightarrow> account option \<Rightarrow> client \<Rightarrow> bool" where
  "own_client e v m3u c \<longleftrightarrow>
     client_real c ''connected_at'' \<noteq> None \<and> is_viewer e v c m3u \<and>
     \<not> (text_or [] (multiview v) \<noteq> [] \<and> client_field c ''multiview'' = multiview v)"

abbreviation helper_client :: "client \<Rightarrow> bool" where
  "helper_client c \<equiv> is_caption_client (client_field c ''user_agent'')"

lemma joined_times_eq:
  "joined_times e v m3u cs acc =
     (if \<forall>c \<in> set cs. helper_client c \<or> own_client e v m3u c
      then acc @ List.map_filter (\<lambda>c. client_real c ''connected_at'') (filter (\<lambda>c. \<not> helper_client c) cs)
      else [])"
  by (induction e v m3u cs acc rule: joined_times.induct)
    (auto simp: own_client_def map_filter_simps split: option.splits)

lemma joined_times_iff:
  "joined_times e v m3u cs [] \<noteq> [] \<longleftrightarrow>
     (\<forall>c \<in> set cs. helper_client c \<or> own_client e v m3u c) \<and> (\<exists>c \<in> set cs. \<not> helper_client c)"
proof -
  have "List.map_filter (\<lambda>c. client_real c ''connected_at'') (filter (\<lambda>c. \<not> helper_client c) cs) \<noteq> []
        \<longleftrightarrow> (\<exists>c \<in> set cs. \<not> helper_client c)"
    if "\<forall>c \<in> set cs. helper_client c \<or> own_client e v m3u c"
    using that by (auto simp: map_filter_def filter_empty_conv own_client_def)
  then show ?thesis by (auto simp: joined_times_eq)
qed

definition left_behind ::
  "'s redis_api \<Rightarrow> env \<Rightarrow> site \<Rightarrow> 's \<Rightarrow> viewer \<Rightarrow> string \<Rightarrow> string \<Rightarrow> int \<Rightarrow> bool" where
  "left_behind R e X s v requested c pid \<longleftrightarrow>
     (c, Some pid) \<in> set (active_channels R s) \<and> c \<noteq> requested \<and>
     \<not> r_exists R s (Skipped_stopping c) \<and> \<not> dispatcharr_is_stopping R s c \<and>
     \<not> is_being_recorded R X s c \<and>
     (\<forall>cl \<in> set (channel_clients R s c). helper_client cl \<or> own_client e v (account_for_profile e pid) cl) \<and>
     (\<exists>cl \<in> set (channel_clients R s c). \<not> helper_client cl)"

lemma left_candidate_iff:
  "left_candidate R e X s v requested (c, p) = Some (c', pid, t) \<and>
     (c, p) \<in> set (active_channels R s) \<longleftrightarrow>
   c' = c \<and> p = Some pid \<and> left_behind R e X s v requested c pid \<and>
     t = Min (set (joined_times e v (account_for_profile e pid) (channel_clients R s c) []))"
  using joined_times_iff [of e v "account_for_profile e pid" "channel_clients R s c"]
  by (cases p) (auto simp: left_candidate_def left_behind_def Let_def)

text \<open>Which channels are stopped, in both directions.\<close>

lemma stopped_iff:
  assumes "may_be_identified e (Some v)" and "text_or [] (multiview v) = []" and "skipping_in_use e"
  shows "c \<in> set (fst (stop_skipped_channels R e X (Some v) requested hold certain s)) \<longleftrightarrow>
    (\<exists>pid. left_behind R e X s v requested c pid \<and>
       may_stop e v certain
         (c, pid, Min (set (joined_times e v (account_for_profile e pid) (channel_clients R s c) []))))"
proof -
  have "x \<in> set (List.map_filter (left_candidate R e X s v requested) (active_channels R s)) \<longleftrightarrow>
      (\<exists>c p. left_candidate R e X s v requested (c, p) = Some x \<and> (c, p) \<in> set (active_channels R s))" for x
    by (auto simp: map_filter_member)
  then have "(c, pid, t) \<in> set (List.map_filter (left_candidate R e X s v requested) (active_channels R s)) \<longleftrightarrow>
      left_behind R e X s v requested c pid \<and>
      t = Min (set (joined_times e v (account_for_profile e pid) (channel_clients R s c) []))" for c pid t
    by (auto simp: left_candidate_iff)
  moreover have "c \<in> set (map fst (filter P xs)) \<longleftrightarrow> (\<exists>pid t. (c, pid, t) \<in> set xs \<and> P (c, pid, t))"
    for P and xs :: "(string \<times> int \<times> real) list"
    by force
  ultimately show ?thesis
    unfolding stop_skipped_channels_def using assms by (simp add: Let_def del: set_map set_filter)
qed

lemma stopped_on:
  assumes "c \<in> set (fst (stop_skipped_channels R e X v requested hold certain s))"
  obtains w where "v = Some w" and "\<not> recording w" and "may_be_identified e (Some w)"
    and "skipping_in_use e" and "text_or [] (multiview w) = []"
proof -
  from assms obtain w where w: "v = Some w" by (cases v) (simp_all add: stop_skipped_channels_def)
  with assms have "may_be_identified e (Some w) \<and> skipping_in_use e \<and> text_or [] (multiview w) = []"
    by (simp add: stop_skipped_channels_def split: if_splits)
  with w that show thesis by (simp add: may_be_identified_def)
qed

lemma stop_skipped_shape:
  obtains cs where "stop_skipped_channels R e X v requested hold certain s =
    (cs, foldl (\<lambda>t c. stop_channel_now R e X hold c t) s cs)"
proof -
  have "\<exists>cs. stop_skipped_channels R e X v requested hold certain s =
      (cs, foldl (\<lambda>t c. stop_channel_now R e X hold c t) s cs)"
    unfolding stop_skipped_channels_def Let_def by (cases v) (auto intro: exI [of _ "[]"])
  with that show thesis by blast
qed

section \<open>What stopping changes\<close>

context redis
begin

lemma hold_and_release_other:
  assumes "(\<exists>c. k = Skipped_stopping c) \<or> (\<exists>l. k = Live l)"
  shows "r_get R (hold_and_release R e c pid s) k = r_get R s k"
  using assms by (auto simp: hold_and_release_def release_get)

lemma release_stream_get:
  assumes "(\<exists>c. k = Skipped_stopping c) \<or> (\<exists>l. k = Live l)"
  shows "r_get R (snd (release_stream R e ch s)) k = r_get R s k"
proof -
  have "k \<noteq> Channel_stream i" "k \<noteq> Stream_profile i" for i using assms by auto
  then show ?thesis
    by (simp add: release_stream_def Let_def hold_and_release_other [OF assms] split: option.split)
qed

lemma release_now_get:
  "(\<exists>c. k = Skipped_stopping c) \<or> (\<exists>l. k = Live l) \<Longrightarrow>
   r_get R (release_channel_slot_now R e X c hold s) k = r_get R s k"
  by (auto simp: release_channel_slot_now_def release_stream_get split: option.splits)

lemma stop_now_marker:
  "r_get R (stop_channel_now R e X hold c s) (Skipped_stopping d) =
     (if d = c then Some (VStr ''1'') else r_get R s (Skipped_stopping d))"
  by (simp add: stop_channel_now_def release_now_get)

lemma stop_all_markers:
  "c \<in> set cs \<or> r_get R s (Skipped_stopping c) \<noteq> None \<Longrightarrow>
   r_get R (foldl (\<lambda>t c. stop_channel_now R e X hold c t) s cs) (Skipped_stopping c) \<noteq> None"
  by (induction cs arbitrary: s) (auto simp: stop_now_marker)

lemma stopped_marked:
  assumes "c \<in> set (fst (stop_skipped_channels R e X v requested hold certain s))"
  shows "r_exists R (snd (stop_skipped_channels R e X v requested hold certain s)) (Skipped_stopping c)"
proof -
  obtain cs where cs: "stop_skipped_channels R e X v requested hold certain s =
      (cs, foldl (\<lambda>t c. stop_channel_now R e X hold c t) s cs)"
    by (rule stop_skipped_shape)
  then show ?thesis using assms by (simp add: r_exists_def stop_all_markers)
qed

lemma stop_now_slots:
  assumes "channel_by_uuid X c = Some ch" and "r_get R s (Channel_stream (ch_id ch)) = Some (VInt sid)"
    and "r_get R s (Stream_profile sid) = Some (VInt pid)"
  shows "pool_view R (stop_channel_now R e X hold c s) = slot_returned pid (pool_view R s)"
proof -
  have "pool_view R (r_setex R t (Skipped_stopping c') n v) = pool_view R t"
    "pool_view R (r_setex R t (No_hold c') n v) = pool_view R t" for t c' n v
    by (simp_all add: pool_view_def slots_def fun_eq_iff)
  then show ?thesis
    using assms by (simp add: stop_channel_now_def release_channel_slot_now_def release_assigned)
qed

end

section \<open>Waiting for a stop\<close>

text \<open>The store at each check of the loop.\<close>

fun polled ::
  "'s redis_api \<Rightarrow> (string \<Rightarrow> bool) \<Rightarrow> (nat \<Rightarrow> 's \<Rightarrow> 's) \<Rightarrow> string \<Rightarrow> nat \<Rightarrow> 's \<Rightarrow> 's" where
  "polled R here others c 0 s = s"
| "polled R here others c (Suc n) s =
     others n (snd (still_stopping R here c (polled R here others c n s)))"

abbreviation check_result where
  "check_result R here others c s n \<equiv> still_stopping R here c (polled R here others c n s)"

lemma wait_loop_from:
  assumes "n \<le> k" and "k < n + fuel"
    and "\<forall>j. n \<le> j \<and> j < k \<longrightarrow> fst (check_result R here others c s j) \<and> elapsed j < STOP_WAIT_SECONDS"
    and "\<not> fst (check_result R here others c s k) \<or> STOP_WAIT_SECONDS \<le> elapsed k"
  shows "wait_loop R here elapsed others c fuel n (polled R here others c n s) =
         Some (snd (check_result R here others c s k))"
  using assms
proof (induction fuel arbitrary: n)
  case (Suc fuel)
  obtain b s1 where check: "check_result R here others c s n = (b, s1)" by (cases "check_result R here others c s n")
  show ?case
  proof (cases "n = k")
    case True
    with Suc.prems(4) check show ?thesis by (cases b) auto
  next
    case False
    then have "b" "elapsed n < STOP_WAIT_SECONDS" using Suc.prems(1,3) check by auto
    moreover have "wait_loop R here elapsed others c fuel (Suc n) (polled R here others c (Suc n) s) =
        Some (snd (check_result R here others c s k))"
      using Suc.prems False by (intro Suc.IH) auto
    ultimately show ?thesis using check by simp
  qed
qed simp


lemma first_end:
  assumes "P (k::nat)"
  obtains j where "j \<le> k" and "P j" and "\<forall>i<j. \<not> P i"
  using assms by (metis LeastI Least_le not_less_Least)

context redis
begin

text \<open>A closed channel's slot is held for the device that left it.\<close>

lemma forget_clients_frame:
  "pool_view R (forget_clients R c s) = pool_view R s"
  "holders R e (forget_clients R c s) (Held_slots q) = holders R e s (Held_slots q)"
proof -
  have "pool_view R (foldl (\<lambda>t cl. r_del R t (Live (Client_metadata c cl))) s cls) = pool_view R s \<and>
        r_hash R (foldl (\<lambda>t cl. r_del R t (Live (Client_metadata c cl))) s cls) (Held_slots q) =
        r_hash R s (Held_slots q)" for cls s
    by (induction cls arbitrary: s) (simp_all add: pool_view_def slots_def fun_eq_iff)
  then show "pool_view R (forget_clients R c s) = pool_view R s"
    "holders R e (forget_clients R c s) (Held_slots q) = holders R e s (Held_slots q)"
    by (simp_all add: forget_clients_def holders_def)
qed

lemma distinct_viewers_one:
  assumes "\<forall>c \<in> set cs. text_or [] (client_field c ''ip_address'') \<noteq> [] \<and>
             identity_key (client_viewer e c) m3u = k"
    and "fst ` set acc \<subseteq> {k}" and "acc \<noteq> []"
  shows "distinct_viewers e m3u cs acc = acc"
  using assms by (induction cs arbitrary: acc) (auto simp: Let_def image_iff neq_Nil_conv)

lemma distinct_viewers_all:
  assumes "cs \<noteq> []"
    and "\<forall>c \<in> set cs. text_or [] (client_field c ''ip_address'') \<noteq> [] \<and>
             identity_key (client_viewer e c) m3u = k"
  shows "distinct_viewers e m3u cs [] = [(k, client_viewer e (hd cs))]"
  using assms by (cases cs) (simp_all add: distinct_viewers_one [where k = k])

lemma hold_for_device:
  assumes "profile_by_id e pid = Some p" and "max_streams p \<noteq> 0"
    and "account_allows_probation (m3u_account p)" and "channel_clients R s c \<noteq> []"
    and "\<forall>cl \<in> set (channel_clients R s c). text_or [] (client_field cl ''ip_address'') \<noteq> [] \<and>
           \<not> recording (client_viewer e cl) \<and> server_device (client_viewer e cl) = Some d"
    and "d \<noteq> []"
  shows "hold_for R e c pid s = Some (d, p)"
proof -
  have key: "identity_key (client_viewer e cl) m3u = d" if "cl \<in> set (channel_clients R s c)" for cl m3u
    using that assms(5,6) by (simp add: identity_key_def)
  have hd: "hd (channel_clients R s c) \<in> set (channel_clients R s c)" using assms(4) by simp
  have "distinct_viewers e (Some (m3u_account p)) (channel_clients R s c) [] =
      [(d, client_viewer e (hd (channel_clients R s c)))]"
    using assms(4,5) key by (intro distinct_viewers_all) auto
  then show ?thesis
    using assms(1-3) bspec [OF assms(5) hd] by (simp add: hold_for_def is_identified_def)
qed

lemma stop_now_holds:
  assumes "channel_by_uuid X c = Some ch" and "ch_uuid ch = c"
    and "r_get R s (Channel_stream (ch_id ch)) = Some (VInt sid)"
    and "r_get R s (Stream_profile sid) = Some (VInt pid)" and "in_use e"
    and "\<not> r_exists R s (No_hold c)" and "\<not> stop_was_requested R s c"
    and "hold_for R e c pid s = Some (d, p)"
  shows "d \<in> holders R e (stop_channel_now R e X True c s) (Held_slots (prof_id p))"
proof -
  define t where "t = r_del R (r_del R (r_setex R s (Skipped_stopping c) SKIPPED_STOPPING_TTL (VStr ''1''))
      (Channel_stream (ch_id ch))) (Stream_profile sid)"
  have stop: "stop_channel_now R e X True c s = clear_assignment_fields R c (hold_and_release R e c pid t)"
    using assms(1-4)
    by (simp add: stop_channel_now_def release_channel_slot_now_def release_stream_def get_int_def
        Let_def t_def)
  define u where "u = r_del R t (Channel_viewers c)"
  have live: "r_hash R u (Live k) = r_hash R s (Live k)" "r_members R u (Live k) = r_members R s (Live k)"
    "r_get R u (Live k) = r_get R s (Live k)" for k
    by (simp_all add: u_def t_def)
  have "channel_clients R u c = channel_clients R s c" by (simp add: channel_clients_def live)
  then have "hold_for R e c pid u = hold_for R e c pid s" unfolding hold_for_def by (rule arg_cong)
  with assms(8) have "hold_for R e c pid u = Some (d, p)" by simp
  moreover have "\<not> stop_was_requested R u c"
    using assms(7) by (simp add: stop_was_requested_def r_exists_def channel_state_of_def live)
  moreover have "\<not> r_exists R u (No_hold c)"
    using assms(6) by (simp add: r_exists_def u_def t_def)
  ultimately have "hold_slot_for_viewer R e c pid t = hold_slot R e d p u"
    using assms(5) by (simp add: hold_slot_for_viewer_def u_def)
  then have "d \<in> holders R e (hold_slot_for_viewer R e c pid t) (Held_slots (prof_id p))"
    by (simp add: hold_slot_holders)
  then show ?thesis
    by (simp add: stop holders_def clear_assignment_fields_def hold_and_release_def)
qed

end

section \<open>Properties\<close>

text \<open>
  C30: Force Close stops only a channel its viewer has left: not the one asked for, not one a media
  server records, not one already stopping, and one nobody else is on: every client of it is a
  helper or the same identity, on the account of its profile, which asks for it and identifies the viewer.
\<close>

theorem only_left_channels_stopped:
  assumes "c \<in> set (fst (stop_skipped_channels R e X v requested hold certain s))"
  shows "\<exists>w pid p. v = Some w \<and> \<not> recording w \<and> c \<noteq> requested \<and>
    (c, Some pid) \<in> set (active_channels R s) \<and> profile_by_id e pid = Some p \<and>
    account_stops_skipped_channels (m3u_account p) \<and> is_identified v (Some (m3u_account p)) \<and>
    \<not> is_being_recorded R X s c \<and> \<not> dispatcharr_is_stopping R s c \<and>
    (\<exists>cl \<in> set (channel_clients R s c). \<not> helper_client cl) \<and>
    (\<forall>cl \<in> set (channel_clients R s c). \<not> helper_client cl \<longrightarrow>
       \<not> recording (client_viewer e cl) \<and>
       identity_key (client_viewer e cl) (account_for_profile e pid) =
       identity_key w (account_for_profile e pid))"
proof -
  obtain w where w: "v = Some w" "\<not> recording w" "text_or [] (multiview w) = []"
      and on: "may_be_identified e (Some w)" "skipping_in_use e"
    using assms by (rule stopped_on)
  then obtain pid where pid: "left_behind R e X s w requested c pid"
      and stop: "may_stop e w certain
         (c, pid, Min (set (joined_times e w (account_for_profile e pid) (channel_clients R s c) [])))"
    using assms on stopped_iff [of e w c R X requested hold certain s] by auto
  obtain p where "profile_by_id e pid = Some p" "account_stops_skipped_channels (m3u_account p)"
      "is_identified v (Some (m3u_account p))"
    using stop w(1) by (auto simp: may_stop_def split: option.splits)
  with pid w show ?thesis
    by (fastforce simp: left_behind_def own_client_def is_viewer_def)
qed

text \<open>
  A channel Force Close is stopping is not stopped again while its marker stands, whoever asks
  for whatever channel: no slot is given back twice.
\<close>

theorem no_channel_stopped_twice:
  assumes "redis R"
    and "stop_skipped_channels R e X v requested hold certain s = (stopped, s')"
  shows "set stopped \<inter> set (fst (stop_skipped_channels R e' X' v' requested' hold' certain' s')) = {}"
proof -
  have "\<not> (c \<in> set stopped \<and> c \<in> set (fst (stop_skipped_channels R e' X' v' requested' hold' certain' s')))" for c
  proof
    assume c: "c \<in> set stopped \<and> c \<in> set (fst (stop_skipped_channels R e' X' v' requested' hold' certain' s'))"
    then have marked: "r_exists R s' (Skipped_stopping c)"
      using redis.stopped_marked [OF assms(1), of c e X v requested hold certain s] assms(2) by simp
    obtain w' where "v' = Some w'" "may_be_identified e' (Some w')" "skipping_in_use e'"
        "text_or [] (multiview w') = []"
      using conjunct2 [OF c] by (rule stopped_on)
    with c marked show False
      using stopped_iff [of e' w' c R X' requested' hold' certain' s'] by (auto simp: left_behind_def)
  qed
  then show ?thesis by blast
qed

text \<open>
  A request for a channel being stopped waits for at most fifty polls of a tenth of a second
  whatever the others do meanwhile, and goes on at the first check that finds the stop over.
\<close>

theorem wait_for_stop_ends:
  assumes "in_use e" and "\<And>n. real n * STOP_WAIT_POLL_INTERVAL \<le> elapsed n"
    and "s1 = snd (clear_leftover_stop_marker R c s)" and "r_exists R s1 (Skipped_stopping c)"
  shows "\<exists>k \<le> 50. wait_for_stop_to_finish R e here elapsed others c 51 s =
           Some (True, snd (check_result R here others c s1 k)) \<and>
         (\<not> fst (check_result R here others c s1 k) \<or> STOP_WAIT_SECONDS \<le> elapsed k) \<and>
         (\<forall>j<k. fst (check_result R here others c s1 j) \<and> elapsed j < STOP_WAIT_SECONDS)"
proof -
  let ?P = "\<lambda>k. \<not> fst (check_result R here others c s1 k) \<or> STOP_WAIT_SECONDS \<le> elapsed k"
  have "?P 50" using assms(2) [of 50] by (simp add: STOP_WAIT_SECONDS_def STOP_WAIT_POLL_INTERVAL_def)
  then obtain k where k: "k \<le> 50" "?P k" "\<forall>i<k. \<not> ?P i" by (rule first_end [of ?P 50]) auto
  then have "wait_loop R here elapsed others c 51 0 (polled R here others c 0 s1) =
      Some (snd (check_result R here others c s1 k))"
    by (intro wait_loop_from) auto
  then have "wait_for_stop_to_finish R e here elapsed others c 51 s =
      Some (True, snd (check_result R here others c s1 k))"
    using assms(1,3,4) by (simp add: wait_for_stop_to_finish_def case_prod_unfold del: wait_loop.simps)
  with k show ?thesis by (auto simp: not_le)
qed

text \<open>
  Of two requests of a surfing viewer, the second made during the first one's delay, the first
  channel is never requested from the provider and the second is, when nothing follows it.
\<close>

theorem surf_last_request_wins:
  assumes "redis R" and "may_be_identified e (Some w)" and "in_use e"
    and "r_get R s (Last_request (player_key w)) = Some (VPair (VTime t) (VPair (VStr tok) (VStr before)))"
    and "before \<noteq> c1" and "surf_delay_for_channel X c1 (Some w) = (delay, window)" and "0 < delay"
    and "now e - t \<le> window" and "tok1 \<noteq> tok2"
    and "second = skipped_while_surfing R e' X tok2 running2 id (Some w) c2"
    and "may_be_identified e' (Some w)" and "in_use e'"
    and "skipped_while_surfing R e X tok1 False (\<lambda>s. snd (second s)) (Some w) c1 s = (skip1, s')"
  shows "skip1 \<and> \<not> fst (second (r_setex R s (Last_request (player_key w)) max_probation_seconds
                               (VPair (VTime (now e)) (VPair (VStr tok1) (VStr c1)))))"
proof -
  have get: "r_get R (r_setex R s k n v) k = Some v" for s k n v
    by (simp add: redis.get_setex [OF assms(1)])
  have second: "\<not> fst (second s) \<and> r_get R (snd (second s)) (Last_request (player_key w)) =
      Some (VPair (VTime (now e')) (VPair (VStr tok2) (VStr c2)))" for s
    unfolding assms(10) skipped_while_surfing_def using assms(11,12)
    by (auto simp: Let_def get split: option.split prod.split)
  have "skip1"
    using assms(13,2-9) second
    by (auto simp: skipped_while_surfing_def Let_def)
  with second show ?thesis by simp
qed

text \<open>
  C31: A channel an app says it leaves is closed only when all its clients are that device's; its
  slot goes back at once, and on an account with the overlap it is held for the device.
\<close>

theorem left_channel_slot_held:
  assumes "redis R" and "leave_previous_channel R e X (Some w) previous requested s = (True, s')"
    and "c = left_channel R s (Some w) previous" and "channel_by_uuid X c = Some ch" and "ch_uuid ch = c"
    and "r_get R s (Channel_stream (ch_id ch)) = Some (VInt sid)"
    and "r_get R s (Stream_profile sid) = Some (VInt pid)"
    and "in_use e" and "profile_by_id e pid = Some p" and "max_streams p \<noteq> 0"
    and "account_allows_probation (m3u_account p)" and "\<not> r_exists R s (No_hold c)"
    and "\<not> stop_was_requested R s c"
    and "\<forall>cl \<in> set (channel_clients R s c). text_or [] (client_field cl ''ip_address'') \<noteq> [] \<and>
           \<not> recording (client_viewer e cl)"
  shows "\<exists>d. server_device w = Some d \<and>
    (\<forall>cl \<in> set (channel_clients R s c). server_device (client_viewer e cl) = Some d) \<and>
    slots R s' = fst (slot_returned pid (pool_view R s)) \<and>
    d \<in> holders R e s' (Held_slots pid)"
proof -
  obtain d where d: "server_device w = Some d" "d \<noteq> []"
      and all: "\<forall>cl \<in> set (channel_clients R s c). server_device (client_viewer e cl) = Some d"
      and some: "channel_clients R s c \<noteq> []"
      and s': "s' = forget_clients R c (stop_channel_now R e X True c s)"
    using assms(2,3)
    by (auto simp: leave_previous_channel_def is_declared_def Let_def list_ex_iff
        split: if_splits option.splits)
  have pid: "prof_id p = pid" using assms(9) by (auto simp: profile_by_id_def find_Some_iff)
  have "hold_for R e c pid s = Some (d, p)"
    using assms(9-11,14) some all d(2)
    by (intro redis.hold_for_device [OF assms(1)]) auto
  then have "d \<in> holders R e (stop_channel_now R e X True c s) (Held_slots pid)"
    using redis.stop_now_holds [OF assms(1,4-8,12,13)] pid by blast
  moreover have "slots R s' = fst (slot_returned pid (pool_view R s))"
    using arg_cong [OF redis.stop_now_slots [OF assms(1,4,6,7), of e True], of fst]
      arg_cong [OF redis.forget_clients_frame(1) [OF assms(1)], of fst]
    by (simp add: s' pool_view_def)
  ultimately show ?thesis
    using d(1) all redis.forget_clients_frame(2) [OF assms(1)] by (auto simp: s')
qed


definition ex_site :: site where
  "ex_site = \<lparr>channel_rows = [ex_channel], stream_rows = [], recorded_names = []\<rparr>"

definition ex_phone :: viewer where
  "ex_phone = ex_viewer\<lparr>server_device := Some ''app|3|phone''\<rparr>"

text \<open>The phone watches the channel, which has the provider's slot.\<close>

definition ex_watched :: mem where
  "ex_watched =
     \<lparr>m_count = (\<lambda>k. if k = Profile_connections 1 then 1 else 0),
      m_get = [Channel_stream 5 \<mapsto> VInt 10, Stream_profile 10 \<mapsto> VInt 1],
      m_hash =
        [(metadata ''c5'', [(''m3u_profile'', VInt 1), (''state'', VStr ''active'')]),
         (Live (Client_metadata ''c5'' ''k1''),
          [(''ip_address'', VStr ''10.0.0.5''), (''connected_at'', VTime 60),
           (''server_device'', VStr ''app|3|phone'')])],
      m_members = (\<lambda>k. if k = Live (Clients ''c5'') then [''k1''] else [])\<rparr>"

lemma ex_stopped:
  "fst (stop_skipped_channels mem_redis ex_env ex_site (Some ex_phone) ''c6'' False False ex_watched) = [''c5'']"
  by code_simp

lemma only_left_channels_stopped_witness:
  "(''c5'', Some 1) \<in> set (active_channels mem_redis ex_watched)"
proof -
  have "profile_by_id ex_env pid = Some p \<Longrightarrow> pid = 1" for pid p
    by (auto simp: ex_env_def profile_by_id_def split: if_splits)
  then show ?thesis
    using only_left_channels_stopped [of "''c5''" mem_redis ex_env ex_site "Some ex_phone" "''c6''" False False
        ex_watched]
    by (auto simp: ex_stopped)
qed

lemma no_channel_stopped_twice_witness:
  "''c5'' \<notin> set (fst (stop_skipped_channels mem_redis ex_env ex_site (Some ex_phone) ''c7'' False False
     (snd (stop_skipped_channels mem_redis ex_env ex_site (Some ex_phone) ''c6'' False False ex_watched))))"
  using no_channel_stopped_twice [OF mem.redis_axioms, of ex_env ex_site "Some ex_phone" "''c6''" False False
      ex_watched _ _ ex_env ex_site "Some ex_phone" "''c7''" False False, OF prod.collapse [symmetric]]
  by (auto simp: ex_stopped)

definition ex_stopping :: mem where
  "ex_stopping = r_set mem_redis mem_empty (Skipped_stopping ''c5'') (VStr ''1'')"

lemma wait_for_stop_ends_witness:
  "\<exists>s'. wait_for_stop_to_finish mem_redis ex_env (\<lambda>_. False) (\<lambda>n. real n / 10) (\<lambda>n s. s) ''c5'' 51
     ex_stopping = Some (True, s')"
  using wait_for_stop_ends [of ex_env "\<lambda>n. real n / 10" "snd (clear_leftover_stop_marker mem_redis ''c5'' ex_stopping)"
      mem_redis "''c5''" ex_stopping "\<lambda>_. False" "\<lambda>n s. s"]
  by (auto simp: STOP_WAIT_POLL_INTERVAL_def clear_leftover_stop_marker_def r_exists_def ex_stopping_def)

lemma surf_last_request_wins_witness:
  "fst (skipped_while_surfing mem_redis ex_env ex_site ''t1'' False
     (\<lambda>s. snd (skipped_while_surfing mem_redis ex_env ex_site ''t2'' False id (Some ex_phone) ''c6'' s))
     (Some ex_phone) ''c5''
     (r_set mem_redis mem_empty (Last_request (player_key ex_phone))
       (VPair (VTime 98) (VPair (VStr ''t0'') (VStr ''c4'')))))"
proof -
  have may: "may_be_identified ex_env (Some ex_phone)" by code_simp
  have "fst (surf_delay_for_channel ex_site ''c5'' (Some ex_phone)) = 1 / 2"
    "snd (surf_delay_for_channel ex_site ''c5'' (Some ex_phone)) = 10"
    by code_simp+
  then have "surf_delay_for_channel ex_site ''c5'' (Some ex_phone) = (1 / 2, 10)"
    by (metis prod.collapse)
  then show ?thesis
    using surf_last_request_wins [where R = mem_redis and e = ex_env and e' = ex_env and w = ex_phone and
        s = "r_set mem_redis mem_empty (Last_request (player_key ex_phone))
              (VPair (VTime 98) (VPair (VStr ''t0'') (VStr ''c4'')))" and t = 98 and tok = "''t0''" and
        before = "''c4''" and ?c1.0 = "''c5''" and X = ex_site and delay = "1 / 2" and
        window = 10 and ?tok1.0 = "''t1''" and ?tok2.0 = "''t2''" and ?running2.0 = False and ?c2.0 = "''c6''",
        OF mem.redis_axioms may _ _ _ _ _ _ _ refl may _ prod.collapse [symmetric]]
    by simp
qed

lemma left_channel_slot_held_witness:
  "''app|3|phone'' \<in> holders mem_redis ex_env
     (snd (leave_previous_channel mem_redis ex_env ex_site (Some ex_phone) ''c5'' ''c6'' ex_watched)) (Held_slots 1)"
proof -
  have left: "left_channel mem_redis ex_watched (Some ex_phone) ''c5'' = ''c5''" by code_simp
  have done1: "fst (leave_previous_channel mem_redis ex_env ex_site (Some ex_phone) ''c5'' ''c6'' ex_watched)"
    by code_simp
  have row: "channel_by_uuid ex_site ''c5'' = Some ex_channel"
    by (simp add: channel_by_uuid_def ex_site_def ex_channel_def)
  have get: "r_get mem_redis ex_watched (Channel_stream 5) = Some (VInt 10)"
    "r_get mem_redis ex_watched (Stream_profile 10) = Some (VInt 1)" by code_simp+
  have rest: "\<not> r_exists mem_redis ex_watched (No_hold ''c5'')"
    "\<not> stop_was_requested mem_redis ex_watched ''c5''"
    "list_all (\<lambda>cl. text_or [] (client_field cl ''ip_address'') \<noteq> [] \<and> \<not> recording (client_viewer ex_env cl))
       (channel_clients mem_redis ex_watched ''c5'')" by code_simp+
  have dev: "server_device ex_phone = Some ''app|3|phone''" by (simp add: ex_phone_def)
  obtain s' where s': "leave_previous_channel mem_redis ex_env ex_site (Some ex_phone) ''c5'' ''c6'' ex_watched =
      (True, s')"
    using done1 by (metis prod.collapse)
  show ?thesis
    using left_channel_slot_held [OF mem.redis_axioms s' left [symmetric] row _ _ get(2), of ex_profile]
      get(1) rest dev s'
    by (simp add: list_all_iff ex_channel_def)
qed

end
