(* ===== verification/Probation.thy ===== *)
theory Probation
  imports Force_Close
begin

text \<open>
  The end of an overlap (\<^verbatim>\<open>apps/proxy/live_proxy/probation.py\<close>): what becomes of a channel
  that runs on a slot past its profile's limit, the monitor that asks until that is known,
  and the recovery of a monitor that died. Moving a channel (\<open>get_stream_info_for_switch\<close>
  and \<open>ChannelService.change_stream_url\<close>) and stopping it (\<open>ChannelService.stop_channel\<close>)
  are parameters that say whether they succeeded, failed or raised; events are not modelled.
\<close>

datatype outcome = Gone | Ended | Confirmed | Pending | Migrated | Stopped_it | Failed

definition MAX_RESOLVE_ATTEMPTS :: int where "MAX_RESOLVE_ATTEMPTS = 3"

text \<open>The actions on a channel, each with the store after it; \<open>None\<close> is an exception.\<close>

record 's actions =
  switch_to :: "string \<Rightarrow> int \<Rightarrow> int \<Rightarrow> 's \<Rightarrow> bool option \<times> 's"
  full_stop :: "string \<Rightarrow> 's \<Rightarrow> unit option \<times> 's"

section \<open>Channels nobody watches any more\<close>

fun stop_idle ::
  "'s redis_api \<Rightarrow> env \<Rightarrow> site \<Rightarrow> int \<Rightarrow> string \<Rightarrow> string list \<Rightarrow> 's \<Rightarrow> string list \<times> 's" where
  "stop_idle R e X pid probation [] s = ([], s)"
| "stop_idle R e X pid probation (c # cs) s =
     (if profile_field R s c \<noteq> Some pid \<or> c = probation \<or> \<not> waiting_for_shutdown R s c
      then stop_idle R e X pid probation cs s
      else (let (stopped, s1) = stop_idle R e X pid probation cs (stop_channel_now R e X False c s)
            in (c # stopped, s1)))"

definition stop_idle_channels ::
  "'s redis_api \<Rightarrow> env \<Rightarrow> site \<Rightarrow> int \<Rightarrow> string \<Rightarrow> 's \<Rightarrow> string list \<times> 's" where
  "stop_idle_channels R e X pid probation s =
     stop_idle R e X pid probation (map fst (active_channels R s)) s"

section \<open>Moving to another profile\<close>

definition migration_candidates :: "env \<Rightarrow> channel \<Rightarrow> int \<Rightarrow> int \<Rightarrow> candidate list" where
  "migration_candidates e ch stream_id pid =
     filter (\<lambda>(st, p). str_id st \<noteq> stream_id \<and> prof_id p \<noteq> pid)
       (concat (map (\<lambda>st. case str_account st of
                            None \<Rightarrow> []
                          | Some a \<Rightarrow>
                              (if \<not> acc_active a then []
                               else map (Pair st) (default_first (filter prof_active (account_profiles e a)))))
          (sort_key (\<lambda>st. if is_custom st then 1 else 0::nat) (ch_streams ch))))"

text \<open>\<open>None\<close> where a switch raised.\<close>

fun migrate ::
  "'s redis_api \<Rightarrow> logins \<Rightarrow> env \<Rightarrow> 's actions \<Rightarrow> string \<Rightarrow> candidate list \<Rightarrow> 's \<Rightarrow> bool option \<times> 's" where
  "migrate R L e A c [] s = (Some False, s)"
| "migrate R L e A c ((st, p) # cs) s =
     (let (room, s1) = pool_has_capacity_for_profile R L e p None s in
      if \<not> room then migrate R L e A c cs s1
      else case switch_to A c (str_id st) (prof_id p) s1 of
             (None, s2) \<Rightarrow> (None, s2)
           | (Some True, s2) \<Rightarrow> (Some True, s2)
           | (Some False, s2) \<Rightarrow> migrate R L e A c cs s2)"

definition migrate_to_free_profile ::
  "'s redis_api \<Rightarrow> logins \<Rightarrow> env \<Rightarrow> 's actions \<Rightarrow> channel \<Rightarrow> int \<Rightarrow> int \<Rightarrow> 's \<Rightarrow> bool option \<times> 's" where
  "migrate_to_free_profile R L e A ch stream_id pid s =
     migrate R L e A (ch_uuid ch) (migration_candidates e ch stream_id pid) s"

section \<open>One look at a probation\<close>

record probation_record =
  p_channel :: int
  p_stream :: int
  p_profile :: int
  p_deadline :: real

definition probation_fields :: "(string \<times> rval) list \<Rightarrow> probation_record option" where
  "probation_fields h =
     (case (Option.bind (map_of h ''channel_id'') val_int, Option.bind (map_of h ''stream_id'') val_int,
            Option.bind (map_of h ''profile_id'') val_int, Option.bind (map_of h ''deadline'') val_real) of
        (Some c, Some st, Some p, Some d) \<Rightarrow>
          Some \<lparr>p_channel = c, p_stream = st, p_profile = p, p_deadline = d\<rparr>
      | _ \<Rightarrow> None)"

text \<open>Whether the channel still streams what it went on probation with.\<close>

definition still_on :: "'s redis_api \<Rightarrow> 's \<Rightarrow> probation_record \<Rightarrow> bool" where
  "still_on R s r \<longleftrightarrow>
     get_int R s (Channel_stream (p_channel r)) = Some (p_stream r) \<and>
     get_int R s (Stream_profile (p_stream r)) = Some (p_profile r)"

text \<open>The profile is within its limits, perhaps once its idle channels are stopped.\<close>

definition settle_limits ::
  "'s redis_api \<Rightarrow> logins \<Rightarrow> env \<Rightarrow> site \<Rightarrow> profile \<Rightarrow> string \<Rightarrow> 's \<Rightarrow> bool \<times> 's" where
  "settle_limits R L e X p c s =
     (if profile_within_limits R L p s then (True, s)
      else (let (stopped, s1) = stop_idle_channels R e X (prof_id p) c s
            in (stopped \<noteq> [] \<and> profile_within_limits R L p s1, s1)))"

text \<open>The window is over and the profile still past its limit: this was no switch.\<close>

definition end_overlap ::
  "'s redis_api \<Rightarrow> logins \<Rightarrow> env \<Rightarrow> site \<Rightarrow> 's actions \<Rightarrow> string \<Rightarrow> probation_record \<Rightarrow> 's \<Rightarrow>
   outcome option \<times> 's" where
  "end_overlap R L e X A c r s =
     (let key = Probation c;
          attempts = (case Option.bind (r_hget R s key ''attempts'') val_int of None \<Rightarrow> 0 | Some n \<Rightarrow> n) + 1;
          s1 = r_hset R s key ''attempts'' (VInt attempts)
      in if MAX_RESOLVE_ATTEMPTS < attempts then (Some Failed, clear_probation R c s1)
         else
           (let (migrated, s2) =
              (case List.find (\<lambda>ch. ch_id ch = p_channel r) (channel_rows X) of
                 None \<Rightarrow> (Some False, s1)
               | Some ch \<Rightarrow> migrate_to_free_profile R L e A ch (p_stream r) (p_profile r) s1)
            in if migrated = Some True then (Some Migrated, clear_probation R c s2)
               else
                 (case full_stop A c (r_setex R s2 (No_hold c) 30 (VStr ''1'')) of
                    (None, s3) \<Rightarrow> (None, s3)
                  | (Some _, s3) \<Rightarrow> (Some Stopped_it, clear_probation R c s3))))"

definition resolve_probation ::
  "'s redis_api \<Rightarrow> logins \<Rightarrow> env \<Rightarrow> site \<Rightarrow> 's actions \<Rightarrow> string \<Rightarrow> 's \<Rightarrow> outcome option \<times> 's" where
  "resolve_probation R L e X A c s =
     (let h = r_hash R s (Probation c) in
      if h = [] then (Some Gone, r_srem R s Pending_probations c)
      else case probation_fields h of
             None \<Rightarrow> (Some Gone, clear_probation R c s)
           | Some r \<Rightarrow>
               (if \<not> still_on R s r then (Some Ended, clear_probation R c s)
                else case profile_by_id e (p_profile r) of
                       None \<Rightarrow> (Some Ended, clear_probation R c s)
                     | Some p \<Rightarrow>
                         (let (within_limits, s1) = settle_limits R L e X p c s in
                          if within_limits then (Some Confirmed, clear_probation R c s1)
                          else if now e < p_deadline r then (Some Pending, s1)
                          else end_overlap R L e X A c r s1)))"

section \<open>The monitor\<close>

text \<open>
  A turn of the monitor's loop: \<open>None\<close> ends it, otherwise it sleeps and looks again. The lease
  says which worker's monitor a channel's is.
\<close>

definition monitor_turn ::
  "'s redis_api \<Rightarrow> logins \<Rightarrow> env \<Rightarrow> site \<Rightarrow> 's actions \<Rightarrow> string \<Rightarrow> string \<Rightarrow> 's \<Rightarrow> bool \<times> 's" where
  "monitor_turn R L e X A c token s =
     (let owner = Option.bind (r_get R s (Monitor_lease c)) val_text in
      if owner \<noteq> None \<and> owner \<noteq> Some [] \<and> owner \<noteq> Some token then (False, s)
      else (let (r, s1) = resolve_probation R L e X A c
                            (r_setex R s (Monitor_lease c) MONITOR_LEASE_TTL (VStr token))
            in (r = Some Pending, s1)))"

text \<open>
  The loop on \<open>fuel\<close> turns: \<open>clock n\<close> is the time at turn \<open>n\<close>, \<open>others n\<close> what happens during the
  sleep after it.
\<close>

fun monitor ::
  "'s redis_api \<Rightarrow> logins \<Rightarrow> env \<Rightarrow> site \<Rightarrow> 's actions \<Rightarrow> string \<Rightarrow> string \<Rightarrow> (nat \<Rightarrow> real) \<Rightarrow>
   (nat \<Rightarrow> 's \<Rightarrow> 's) \<Rightarrow> nat \<Rightarrow> nat \<Rightarrow> 's \<Rightarrow> 's option" where
  "monitor R L e X A c token clock others 0 n s = None"
| "monitor R L e X A c token clock others (Suc fuel) n s =
     (case monitor_turn R L (e\<lparr>now := clock n\<rparr>) X A c token s of
        (False, s1) \<Rightarrow> Some s1
      | (True, s1) \<Rightarrow> monitor R L e X A c token clock others fuel (Suc n) (others n s1))"

definition start_probation_monitor :: "'s redis_api \<Rightarrow> string \<Rightarrow> string \<Rightarrow> 's \<Rightarrow> 's" where
  "start_probation_monitor R c token s =
     r_setex R s (Monitor_lease c) MONITOR_LEASE_TTL (VStr token)"

text \<open>
  Probations whose monitor is gone: the channels this worker takes over, each with its own
  token (\<open>token c\<close>), and the store with their leases.
\<close>

fun recover_each ::
  "'s redis_api \<Rightarrow> (string \<Rightarrow> string) \<Rightarrow> string list \<Rightarrow> 's \<Rightarrow> string list \<times> 's" where
  "recover_each R token [] s = ([], s)"
| "recover_each R token (c # cs) s =
     (if \<not> r_exists R s (Probation c)
      then recover_each R token cs (r_srem R s Pending_probations c)
      else
        (let (got, s1) = r_setnx R s (Monitor_lease c) MONITOR_LEASE_TTL (VStr (token c));
             (taken, s2) = recover_each R token cs s1
         in (if got then c # taken else taken, s2)))"

definition recover_unmonitored_probations ::
  "'s redis_api \<Rightarrow> (string \<Rightarrow> string) \<Rightarrow> 's \<Rightarrow> string list \<times> 's" where
  "recover_unmonitored_probations R token s =
     recover_each R token (r_members R s Pending_probations) s"

section \<open>What stopping idle channels leaves alone\<close>

context redis
begin

lemma hold_hash_probation [simp]:
  "r_hash R (hold_slot_for_viewer R e d pid s) (Probation c) = r_hash R s (Probation c)"
  by (auto simp: hold_slot_for_viewer_def hold_slot_def Let_def split: option.split)

lemma release_stream_hash_probation [simp]:
  "r_hash R (snd (release_stream R e ch s)) (Probation c) = r_hash R s (Probation c)"
  by (simp add: release_stream_def Let_def hold_and_release_def clear_assignment_fields_def
      split: option.split)

lemma stop_now_hash_probation [simp]:
  "r_hash R (stop_channel_now R e X hold d s) (Probation c) = r_hash R s (Probation c)"
  by (simp add: stop_channel_now_def release_channel_slot_now_def split: option.split)

lemma stop_idle_hash:
  "r_hash R (snd (stop_idle R e X pid d cs s)) (Probation c) = r_hash R s (Probation c)"
  by (induction cs arbitrary: s) (simp_all add: case_prod_unfold Let_def)

end

lemma stop_idle_none: "fst (stop_idle R e X pid d cs s) = [] \<Longrightarrow> snd (stop_idle R e X pid d cs s) = s"
  by (induction cs arbitrary: s) (auto simp: case_prod_unfold Let_def split: if_splits)

lemma settle_limits_hash:
  "redis R \<Longrightarrow> r_hash R (snd (settle_limits R L e X p c s)) (Probation d) = r_hash R s (Probation d)"
  by (simp add: settle_limits_def stop_idle_channels_def case_prod_unfold Let_def redis.stop_idle_hash)

lemma settle_limits_exact:
  "fst (settle_limits R L e X p c s) =
   profile_within_limits R L p (snd (settle_limits R L e X p c s))"
  using stop_idle_none [of R e X "prof_id p" c "map fst (active_channels R s)" s]
  by (auto simp: settle_limits_def stop_idle_channels_def case_prod_unfold Let_def)

definition forgotten :: "'s redis_api \<Rightarrow> string \<Rightarrow> 's \<Rightarrow> bool" where
  "forgotten R c s \<longleftrightarrow>
     r_hash R s (Probation c) = [] \<and> c \<notin> set (r_members R s Pending_probations)"

context redis
begin

lemma clear_forgotten: "forgotten R c (clear_probation R c s)"
  by (simp add: forgotten_def clear_probation_def)

lemma end_overlap_outcome:
  "end_overlap R L e X A c r s = (Some x, s') \<Longrightarrow>
   forgotten R c s' \<and> x \<in> {Failed, Migrated, Stopped_it}"
  by (auto simp: end_overlap_def Let_def clear_forgotten split: if_splits option.splits prod.splits)

end

text \<open>The outcomes, with what each says of the profile and the record.\<close>

lemma resolve_cases:
  assumes "redis R" and "resolve_probation R L e X A c s = (r, s')"
  obtains (none) "r \<in> {Some Gone, Some Ended}" "forgotten R c s'"
  | (settled) pr p within_limits s1 where
      "probation_fields (r_hash R s (Probation c)) = Some pr" "still_on R s pr"
      "profile_by_id e (p_profile pr) = Some p" "settle_limits R L e X p c s = (within_limits, s1)"
      "(r, s') = (if within_limits then (Some Confirmed, clear_probation R c s1)
                  else if now e < p_deadline pr then (Some Pending, s1)
                  else end_overlap R L e X A c pr s1)"
proof -
  note def = assms(2) [unfolded resolve_probation_def Let_def]
  show thesis
  proof (cases "r_hash R s (Probation c) = []")
    case True
    then have "forgotten R c s'"
      using def by (auto simp: forgotten_def redis.hash_srem [OF assms(1)] redis.members_srem [OF assms(1)])
    with True def none show thesis by simp
  next
    case some: False
    show thesis
    proof (cases "probation_fields (r_hash R s (Probation c))")
      case None
      with some def none redis.clear_forgotten [OF assms(1)] show thesis by auto
    next
      case (Some pr)
      show thesis
      proof (cases "still_on R s pr \<and> profile_by_id e (p_profile pr) \<noteq> None")
        case False
        with some Some def none redis.clear_forgotten [OF assms(1)] show thesis
          by (auto split: if_splits)
      next
        case True
        then obtain p where p: "still_on R s pr" "profile_by_id e (p_profile pr) = Some p" by auto
        obtain w s1 where w: "settle_limits R L e X p c s = (w, s1)"
          by (cases "settle_limits R L e X p c s")
        from def some Some p w
        have "(r, s') = (if w then (Some Confirmed, clear_probation R c s1)
                  else if now e < p_deadline pr then (Some Pending, s1)
                  else end_overlap R L e X A c pr s1)"
          by simp
        with settled Some p w show thesis by blast
      qed
    qed
  qed
qed

lemma resolve_pending:
  assumes "redis R" and "resolve_probation R L e X A c s = (Some Pending, s')"
  obtains pr where "probation_fields (r_hash R s (Probation c)) = Some pr" and "now e < p_deadline pr"
    and "r_hash R s' (Probation c) = r_hash R s (Probation c)"
  using assms
proof (cases rule: resolve_cases)
  case (settled pr p w s1)
  have "\<not> w \<and> now e < p_deadline pr \<and> s' = s1"
    using settled(5) redis.end_overlap_outcome [OF assms(1), of L e X A c pr s1 Pending s']
    by (auto split: if_splits)
  moreover have "r_hash R s1 (Probation c) = r_hash R s (Probation c)"
    using settle_limits_hash [OF assms(1), of L e X p c s c] settled(4) by simp
  ultimately show thesis using settled(1) that by blast
qed simp

text \<open>Whatever the record says, its window is over by then.\<close>

definition window_by :: "'s redis_api \<Rightarrow> string \<Rightarrow> real \<Rightarrow> 's \<Rightarrow> bool" where
  "window_by R c t s \<longleftrightarrow>
     (\<forall>pr. probation_fields (r_hash R s (Probation c)) = Some pr \<longrightarrow> p_deadline pr \<le> t)"

lemma monitor_turn_again:
  assumes "redis R" and "monitor_turn R L e X A c token s = (True, s')" and "window_by R c t s"
  shows "now e < t \<and> window_by R c t s'"
proof -
  let ?s = "r_setex R s (Monitor_lease c) MONITOR_LEASE_TTL (VStr token)"
  have "resolve_probation R L e X A c ?s = (Some Pending, s')"
    using assms(2) by (auto simp: monitor_turn_def Let_def case_prod_unfold prod_eq_iff split: if_splits)
  then obtain pr where "probation_fields (r_hash R ?s (Probation c)) = Some pr" "now e < p_deadline pr"
      and "r_hash R s' (Probation c) = r_hash R ?s (Probation c)"
    by (rule resolve_pending [OF assms(1)])
  then show ?thesis
    using assms(3) by (auto simp: window_by_def redis.hash_setex [OF assms(1)] dest: order.strict_trans2)
qed

lemma monitor_ends_from:
  assumes "redis R" and "\<And>n s. window_by R c t s \<Longrightarrow> window_by R c t (others n s)"
    and "t \<le> clock (n + k)" and "window_by R c t s"
  shows "\<exists>s'. monitor R L e X A c token clock others (Suc k) n s = Some s'"
  using assms(3,4)
proof (induction k arbitrary: n s)
  case 0
  obtain b s1 where turn: "monitor_turn R L (e\<lparr>now := clock n\<rparr>) X A c token s = (b, s1)"
    by (cases "monitor_turn R L (e\<lparr>now := clock n\<rparr>) X A c token s")
  have "\<not> b" using monitor_turn_again [OF assms(1) _ 0(2)] turn 0(1) by (cases b) force+
  with turn show ?case by simp
next
  case (Suc k)
  obtain b s1 where turn: "monitor_turn R L (e\<lparr>now := clock n\<rparr>) X A c token s = (b, s1)"
    by (cases "monitor_turn R L (e\<lparr>now := clock n\<rparr>) X A c token s")
  show ?case
  proof (cases b)
    case True
    then have "window_by R c t (others n s1)"
      using monitor_turn_again [OF assms(1) _ Suc(3), of L "e\<lparr>now := clock n\<rparr>" X A token s1] turn
      by (intro assms(2)) simp
    then show ?thesis using Suc.IH [of "Suc n"] Suc.prems(1) turn True by simp
  next
    case False
    with turn show ?thesis by simp
  qed
qed

section \<open>One monitor for a probation\<close>

context redis
begin

lemma recover_each_keeps:
  "r_get R s (Monitor_lease c) \<noteq> None \<Longrightarrow>
     r_get R (snd (recover_each R token cs s)) (Monitor_lease c) = r_get R s (Monitor_lease c)"
  by (induction cs arbitrary: s) (auto simp: case_prod_unfold Let_def r_setnx_def split: option.splits)

lemma recover_each_taken:
  assumes "c \<in> set (fst (recover_each R token cs s))"
  shows "r_get R s (Monitor_lease c) = None \<and>
     r_get R (snd (recover_each R token cs s)) (Monitor_lease c) = Some (VStr (token c))"
  using assms
proof (induction cs arbitrary: s)
  case (Cons a cs)
  show ?case
  proof (cases "r_exists R s (Probation a)")
    case False
    with Cons.IH [of "r_srem R s Pending_probations a"] Cons.prems show ?thesis by simp
  next
    case True
    let ?n = "r_setnx R s (Monitor_lease a) MONITOR_LEASE_TTL (VStr (token a))"
    show ?thesis
    proof (cases "c \<in> set (fst (recover_each R token cs (snd ?n)))")
      case in_rest: True
      have "r_get R (snd ?n) (Monitor_lease c) = None" using Cons.IH [OF in_rest] ..
      then have "r_get R s (Monitor_lease c) = None"
        by (auto simp: r_setnx_def split: option.splits if_splits)
      with Cons.IH [OF in_rest] True show ?thesis by (simp add: case_prod_unfold Let_def)
    next
      case False
      then have "c = a" "fst ?n" using Cons.prems True by (auto simp: case_prod_unfold Let_def split: if_splits)
      then have "r_get R s (Monitor_lease c) = None \<and> r_get R (snd ?n) (Monitor_lease c) = Some (VStr (token c))"
        by (auto simp: r_setnx_def split: option.splits)
      then show ?thesis
        using True recover_each_keeps [of "snd ?n" c token cs] by (simp add: case_prod_unfold Let_def)
    qed
  qed
qed simp

end


section \<open>Properties\<close>

lemma within_limits_clear:
  "redis R \<Longrightarrow> profile_within_limits R L p (clear_probation R c s) = profile_within_limits R L p s"
  by (auto simp: profile_within_limits_def get_profile_connection_count_def
      get_credential_connection_count_def clear_probation_def redis.count_srem redis.count_del
      redis.get_srem redis.get_del credential_counter_key_def split: option.splits)

text \<open>
  C32: Looking at a probation leaves it alone only while its window is open and the profile is still
  past its limit; it is confirmed only with the profile within its limits, moved, stopped or
  given up only after the window with the profile past them; and every outcome but these
  exceptions forgets the record.
\<close>

theorem probation_outcome:
  assumes "redis R" and "resolve_probation R L e X A c s = (r, s')"
  shows "(r \<noteq> None \<and> r \<noteq> Some Pending \<longrightarrow> forgotten R c s') \<and>
    (r \<notin> {Some Gone, Some Ended} \<longrightarrow>
      (\<exists>pr p within_limits s1. probation_fields (r_hash R s (Probation c)) = Some pr \<and> still_on R s pr \<and>
        profile_by_id e (p_profile pr) = Some p \<and> settle_limits R L e X p c s = (within_limits, s1) \<and>
        within_limits = profile_within_limits R L p s1 \<and> (r = Some Confirmed) = within_limits \<and>
        (r = Some Pending) = (\<not> within_limits \<and> now e < p_deadline pr) \<and>
        (r = Some Pending \<longrightarrow> s' = s1 \<and> r_hash R s' (Probation c) = r_hash R s (Probation c))))"
  using assms
proof (cases rule: resolve_cases)
  case none
  then show ?thesis by auto
next
  case (settled pr p w s1)
  have exact: "w = profile_within_limits R L p s1"
    using settle_limits_exact [of R L e X p c s] settled(4) by simp
  have hash: "r_hash R s1 (Probation c) = r_hash R s (Probation c)"
    using settle_limits_hash [OF assms(1), of L e X p c s c] settled(4) by simp
  show ?thesis
  proof (cases "w \<or> now e < p_deadline pr")
    case True
    with settled exact hash redis.clear_forgotten [OF assms(1), of c s1] show ?thesis
      by (auto split: if_splits)
  next
    case False
    then have e: "end_overlap R L e X A c pr s1 = (r, s')" using settled(5) by simp
    have "r = None \<or> (\<exists>x. r = Some x \<and> forgotten R c s' \<and> x \<in> {Failed, Migrated, Stopped_it})"
      using redis.end_overlap_outcome [OF assms(1), of L e X A c pr s1] e by (cases r) auto
    with settled exact False show ?thesis by auto
  qed
qed

text \<open>
  The monitor always ends: once the clock has passed the window that the record says, and
  others do not lengthen, at most one more turn is taken.
\<close>

theorem monitor_ends:
  assumes "redis R" and "\<And>n. start + real n / 2 \<le> clock n" and "window_by R c t s"
    and "\<And>n s. window_by R c t s \<Longrightarrow> window_by R c t (others n s)"
  shows "\<exists>s'. monitor R L e X A c token clock others (Suc (nat \<lceil>2 * (t - start)\<rceil>)) 0 s = Some s'"
proof (rule monitor_ends_from [OF assms(1,4)])
  have "2 * (t - start) \<le> real (nat \<lceil>2 * (t - start)\<rceil>)" by linarith
  then show "t \<le> clock (0 + nat \<lceil>2 * (t - start)\<rceil>)"
    using assms(2) [of "nat \<lceil>2 * (t - start)\<rceil>"] by simp
qed (auto intro: assms(3))

text \<open>
  Two workers recovering unwatched probations one after the other never take over the same one,
  and each one taken is under the taker's own lease.
\<close>

theorem one_monitor_per_probation:
  assumes "redis R" and "recover_unmonitored_probations R token s = (taken, s')"
    and "recover_unmonitored_probations R token' s' = (taken', s'')"
  shows "set taken \<inter> set taken' = {} \<and>
         (\<forall>c \<in> set taken. r_get R s'' (Monitor_lease c) = Some (VStr (token c)))"
proof -
  have lease: "r_get R s' (Monitor_lease c) = Some (VStr (token c))" if "c \<in> set taken" for c
    using redis.recover_each_taken [OF assms(1), of c token "r_members R s Pending_probations" s] that assms(2)
    by (simp add: recover_unmonitored_probations_def)
  moreover have "r_get R s' (Monitor_lease c) = None" if "c \<in> set taken'" for c
    using redis.recover_each_taken [OF assms(1), of c token' "r_members R s' Pending_probations" s'] that assms(3)
    by (simp add: recover_unmonitored_probations_def)
  ultimately have "set taken \<inter> set taken' = {}" by fastforce
  moreover have "r_get R s'' (Monitor_lease c) = Some (VStr (token c))" if "c \<in> set taken" for c
    using redis.recover_each_keeps [OF assms(1), of s' c token' "r_members R s' Pending_probations"]
      lease [OF that] assms(3)
    by (simp add: recover_unmonitored_probations_def)
  ultimately show ?thesis by blast
qed

text \<open>A third connection on the profile of two, and no actions that succeed.\<close>

definition ex_overlap :: mem where
  "ex_overlap =
     ex_watched\<lparr>m_count := (\<lambda>k. if k = Profile_connections 1 then 3 else 0),
       m_hash := (Probation ''c5'', [(''channel_id'', VInt 5), (''stream_id'', VInt 10),
                    (''profile_id'', VInt 1), (''started_at'', VTime 95), (''deadline'', VTime 105)]) #
                 m_hash ex_watched,
       m_members := (\<lambda>k. if k = Pending_probations then [''c5''] else m_members ex_watched k)\<rparr>"

definition no_actions :: "mem actions" where
  "no_actions = \<lparr>switch_to = (\<lambda>_ _ _ s. (Some False, s)), full_stop = (\<lambda>_ s. (Some (), s))\<rparr>"

lemma ex_overlap_simps:
  "probation_fields (r_hash mem_redis ex_overlap (Probation ''c5'')) =
     Some \<lparr>p_channel = 5, p_stream = 10, p_profile = 1, p_deadline = 105\<rparr>"
  by (simp add: probation_fields_def mem_redis_def mem_lookup_def ex_overlap_def)

lemma probation_outcome_witness:
  "forgotten mem_redis ''c5''
     (snd (resolve_probation mem_redis ex_logins (ex_env\<lparr>now := 106\<rparr>) ex_site no_actions ''c5'' ex_overlap))"
proof -
  have "fst (resolve_probation mem_redis ex_logins (ex_env\<lparr>now := 106\<rparr>) ex_site no_actions ''c5'' ex_overlap) =
      Some Stopped_it"
    by code_simp
  then obtain s' where "resolve_probation mem_redis ex_logins (ex_env\<lparr>now := 106\<rparr>) ex_site no_actions ''c5''
      ex_overlap = (Some Stopped_it, s')"
    by (metis prod.collapse)
  then show ?thesis using probation_outcome [OF mem.redis_axioms] by fastforce
qed

lemma monitor_ends_witness:
  "\<exists>s'. monitor mem_redis ex_logins ex_env ex_site no_actions ''c5'' ''w1'' (\<lambda>n. 100 + real n / 2) (\<lambda>n s. s)
     (Suc (nat \<lceil>2 * (105 - 100 :: real)\<rceil>)) 0 ex_overlap = Some s'"
  by (rule monitor_ends [OF mem.redis_axioms]) (simp_all add: window_by_def ex_overlap_simps)

lemma one_monitor_per_probation_witness:
  "''c5'' \<notin> set (fst (recover_unmonitored_probations mem_redis (\<lambda>_. ''w2'')
     (snd (recover_unmonitored_probations mem_redis (\<lambda>_. ''w1'') ex_overlap))))"
proof -
  have "fst (recover_unmonitored_probations mem_redis (\<lambda>_. ''w1'') ex_overlap) = [''c5'']"
    by code_simp
  then show ?thesis
    using one_monitor_per_probation [OF mem.redis_axioms prod.collapse [symmetric] prod.collapse [symmetric],
        of "\<lambda>_. ''w1''" ex_overlap "\<lambda>_. ''w2''"]
    by auto
qed

end
