(* ===== verification/Sweep.thy ===== *)
theory Sweep
  imports Probation
begin

text \<open>
  Slots a crash left counted (\<^verbatim>\<open>apps/proxy/live_proxy/probation.py\<close>, \<open>release_abandoned_slots\<close>):
  an assignment whose channel has had no expiring key for a minute is removed and its slot
  given back. The scans of the key space are parameters: the owners of the assignments, and
  the live channels' keys with their times to live.
\<close>

definition ABANDONED_SLOT_GRACE :: real where "ABANDONED_SLOT_GRACE = 60"
definition SWEEP_INTERVAL :: int where "SWEEP_INTERVAL = 30"

text \<open>\<open>_live_channel_ids\<close>: the channels with a key that expires, from the keys and their TTLs.\<close>

definition live_channel_ids :: "(string \<times> int option) list \<Rightarrow> string list" where
  "live_channel_ids keys =
     List.map_filter (\<lambda>(key, ttl).
       case (split_on (CHR '':'') key, ttl) of
         (_ # _ # c # _, Some t) \<Rightarrow> if 0 \<le> t then Some c else None
       | _ \<Rightarrow> None) keys"

definition assignment_channel_ids :: "site \<Rightarrow> int \<Rightarrow> int \<Rightarrow> string list" where
  "assignment_channel_ids X owner sid =
     (case List.find (\<lambda>ch. ch_id ch = owner) (channel_rows X) of
        None \<Rightarrow> [] | Some ch \<Rightarrow> [ch_uuid ch]) @
     (if owner = sid
      then (case List.find (\<lambda>(h, st). str_id st = sid) (stream_rows X) of
              None \<Rightarrow> [] | Some (h, _) \<Rightarrow> if h = [] then [] else [h])
      else [])"

text \<open>An assignment: its owner, its stream, and whether a channel of it runs.\<close>

type_synonym assignment = "int \<times> int \<times> bool"

definition assignments_of ::
  "'s redis_api \<Rightarrow> site \<Rightarrow> string list \<Rightarrow> int list \<Rightarrow> 's \<Rightarrow> assignment list" where
  "assignments_of R X live owners s =
     List.map_filter (\<lambda>owner.
       map_option (\<lambda>sid. (owner, sid, list_ex (\<lambda>c. c \<in> set live) (assignment_channel_ids X owner sid)))
         (get_int R s (Channel_stream owner))) owners"

definition first_seen :: "'s redis_api \<Rightarrow> 's \<Rightarrow> int \<Rightarrow> real option" where
  "first_seen R s owner = map_option (\<lambda>v. case v of VTime t \<Rightarrow> t | _ \<Rightarrow> fst (parse_hold v)) (r_hget R s Abandoned_slots (dec owner))"

text \<open>One assignment of a channel that does not run.\<close>

definition sweep_one ::
  "'s redis_api \<Rightarrow> real \<Rightarrow> int set \<Rightarrow> (int \<Rightarrow> real option) \<Rightarrow> int \<Rightarrow> int \<Rightarrow> 's \<Rightarrow> bool \<times> 's" where
  "sweep_one R t streams_in_use seen owner sid s =
     (case seen owner of
        None \<Rightarrow> (False, r_hset R s Abandoned_slots (dec owner) (VTime t))
      | Some since \<Rightarrow>
          (if t - since < ABANDONED_SLOT_GRACE then (False, s)
           else
             (let s1 = r_del R s (Channel_stream owner) in
              case get_int R s1 (Stream_profile sid) of
                None \<Rightarrow> (False, s1)
              | Some pid \<Rightarrow>
                  (if sid \<in> streams_in_use then (False, s1)
                   else (True, release_profile_slot R pid (r_del R s1 (Stream_profile sid)))))))"

text \<open>The walk: the owners released, those still under watch, and the store.\<close>

fun sweep_each ::
  "'s redis_api \<Rightarrow> real \<Rightarrow> int set \<Rightarrow> (int \<Rightarrow> real option) \<Rightarrow> assignment list \<Rightarrow> 's \<Rightarrow>
   int list \<times> int list \<times> 's" where
  "sweep_each R t busy seen [] s = ([], [], s)"
| "sweep_each R t busy seen ((owner, sid, running) # as) s =
     (if running then sweep_each R t busy seen as s
      else
        (let (released, s1) = sweep_one R t busy seen owner sid s;
             watch = (case seen owner of None \<Rightarrow> True | Some since \<Rightarrow> t - since < ABANDONED_SLOT_GRACE);
             (rs, ws, s2) = sweep_each R t busy seen as s1
         in (if released then owner # rs else rs, if watch then owner # ws else ws, s2)))"

definition forget_finished :: "'s redis_api \<Rightarrow> (string \<times> rval) list \<Rightarrow> int list \<Rightarrow> 's \<Rightarrow> 's" where
  "forget_finished R seen watched s =
     foldl (\<lambda>u f. r_hdel R u Abandoned_slots f) s
       (filter (\<lambda>f. f \<notin> set (map dec watched)) (map fst seen))"

definition release_abandoned_slots ::
  "'s redis_api \<Rightarrow> env \<Rightarrow> site \<Rightarrow> (string \<times> int option) list \<Rightarrow> int list \<Rightarrow> 's \<Rightarrow> int list \<times> 's" where
  "release_abandoned_slots R e X keys owners s =
     (case r_setnx R s Sweep_lock SWEEP_INTERVAL (VStr ''1'') of
        (False, s0) \<Rightarrow> ([], s0)
      | (True, s0) \<Rightarrow>
          (let seen = r_hash R s0 Abandoned_slots in
           if owners = [] \<and> seen = [] then ([], s0)
           else
             (let as = assignments_of R X (live_channel_ids keys) owners s0;
                  busy = set (map (\<lambda>(_, sid, _). sid) (filter (\<lambda>(_, _, running). running) as));
                  (released, watched, s1) = sweep_each R (now e) busy (first_seen R s0) as s0
              in (released, r_expire R (forget_finished R seen watched s1) Abandoned_slots
                              (10 * 60)))))"

section \<open>What one walk does\<close>

abbreviation watched_yet :: "real \<Rightarrow> (int \<Rightarrow> real option) \<Rightarrow> int \<Rightarrow> bool" where
  "watched_yet t seen owner \<equiv>
     (case seen owner of None \<Rightarrow> True | Some since \<Rightarrow> t - since < ABANDONED_SLOT_GRACE)"

lemma sweep_each_cons:
  "sweep_each R t busy seen ((owner, sid, running) # as) s =
     (if running then sweep_each R t busy seen as s
      else (let one = sweep_one R t busy seen owner sid s; rest = sweep_each R t busy seen as (snd one)
            in (if fst one then owner # fst rest else fst rest,
                if watched_yet t seen owner then owner # fst (snd rest) else fst (snd rest),
                snd (snd rest))))"
  by (simp add: case_prod_unfold Let_def)

declare sweep_each.simps(2) [simp del]

lemma sweep_one_released:
  "fst (sweep_one R t busy seen owner sid s) \<Longrightarrow>
   sid \<notin> busy \<and> (\<exists>since. seen owner = Some since \<and> ABANDONED_SLOT_GRACE \<le> t - since)"
  by (auto simp: sweep_one_def Let_def split: option.splits if_splits)

lemma sweep_each_released:
  "owner \<in> set (fst (sweep_each R t busy seen as s)) \<Longrightarrow>
   \<exists>sid since. (owner, sid, False) \<in> set as \<and> sid \<notin> busy \<and> seen owner = Some since \<and>
     ABANDONED_SLOT_GRACE \<le> t - since"
proof (induction as arbitrary: s)
  case (Cons a as)
  obtain o1 sid running where a: "a = (o1, sid, running)" by (cases a)
  from Cons.prems consider (rest) u where "owner \<in> set (fst (sweep_each R t busy seen as u))"
    | (own) "\<not> running" "owner = o1" "fst (sweep_one R t busy seen o1 sid s)"
    by (auto simp: a sweep_each_cons Let_def split: if_splits)
  then show ?case
  proof cases
    case rest
    then show ?thesis using Cons.IH by force
  next
    case own
    then show ?thesis using sweep_one_released [OF own(3)] a by auto
  qed
qed simp

lemma sweep_each_watched:
  "(owner, sid, False) \<in> set as \<Longrightarrow> watched_yet t seen owner \<Longrightarrow>
   owner \<in> set (fst (snd (sweep_each R t busy seen as s)))"
  by (induction as arbitrary: s) (auto simp: sweep_each_cons Let_def)

context redis
begin

lemma sweep_one_view:
  "\<exists>pids. pool_view R (snd (sweep_one R t busy seen owner sid s)) =
            foldl (\<lambda>v pid. slot_returned pid v) (pool_view R s) pids \<and>
          length pids = (if fst (sweep_one R t busy seen owner sid s) then 1 else 0)"
proof -
  have "pool_view R (r_hset R s k f v) = pool_view R s" for s k f v
    by (simp add: pool_view_def slots_def fun_eq_iff)
  note simps = sweep_one_def Let_def this release_view
  show ?thesis
  proof (cases "fst (sweep_one R t busy seen owner sid s)")
    case True
    then obtain pid where "get_int R (r_del R s (Channel_stream owner)) (Stream_profile sid) = Some pid"
      by (auto simp: simps split: option.splits if_splits)
    with True show ?thesis
      by (intro exI [of _ "[pid]"]) (auto simp: simps split: option.splits if_splits)
  next
    case False
    then show ?thesis
      by (intro exI [of _ "[]"]) (auto simp: simps split: option.splits if_splits)
  qed
qed

lemma sweep_each_view:
  "\<exists>pids. length pids = length (fst (sweep_each R t busy seen as s)) \<and>
     pool_view R (snd (snd (sweep_each R t busy seen as s))) =
       foldl (\<lambda>v pid. slot_returned pid v) (pool_view R s) pids"
proof (induction as arbitrary: s)
  case (Cons a as)
  obtain o1 sid running where a: "a = (o1, sid, running)" by (cases a)
  show ?case
  proof (cases running)
    case True
    with Cons a show ?thesis by (simp add: sweep_each_cons)
  next
    case False
    let ?one = "sweep_one R t busy seen o1 sid s"
    obtain p1 where p1: "pool_view R (snd ?one) = foldl (\<lambda>v pid. slot_returned pid v) (pool_view R s) p1"
        "length p1 = (if fst ?one then 1 else 0)"
      using sweep_one_view by blast
    obtain p2 where p2: "length p2 = length (fst (sweep_each R t busy seen as (snd ?one)))"
        "pool_view R (snd (snd (sweep_each R t busy seen as (snd ?one)))) =
           foldl (\<lambda>v pid. slot_returned pid v) (pool_view R (snd ?one)) p2"
      using Cons.IH by blast
    show ?thesis
      using False p1 p2 by (intro exI [of _ "p1 @ p2"]) (simp add: a sweep_each_cons Let_def)
  qed
qed simp

lemma view_expire [simp]: "pool_view R (r_expire R s k n) = pool_view R s"
  by (simp add: pool_view_def slots_def fun_eq_iff)

lemma view_setex: "k = Sweep_lock \<Longrightarrow> pool_view R (r_setex R s k n v) = pool_view R s"
  by (simp add: pool_view_def slots_def fun_eq_iff)

text \<open>The walk leaves other assignments, streams and first sightings as they are.\<close>

lemma sweep_one_other:
  "o1 \<noteq> owner \<Longrightarrow> r_get R (snd (sweep_one R t busy seen o1 sid s)) (Channel_stream owner) =
     r_get R s (Channel_stream owner)"
  "o1 \<noteq> owner \<Longrightarrow> r_hget R (snd (sweep_one R t busy seen o1 sid s)) Abandoned_slots (dec owner) =
     r_hget R s Abandoned_slots (dec owner)"
  "sid \<noteq> st \<Longrightarrow> r_get R (snd (sweep_one R t busy seen o1 sid s)) (Stream_profile st) =
     r_get R s (Stream_profile st)"
  by (auto simp: sweep_one_def Let_def hget_hset release_get split: option.split)

lemma sweep_each_other:
  "owner \<notin> fst ` set as \<Longrightarrow> r_get R (snd (snd (sweep_each R t busy seen as s))) (Channel_stream owner) =
     r_get R s (Channel_stream owner)"
  "owner \<notin> fst ` set as \<Longrightarrow> r_hget R (snd (snd (sweep_each R t busy seen as s))) Abandoned_slots (dec owner) =
     r_hget R s Abandoned_slots (dec owner)"
  "st \<notin> (fst \<circ> snd) ` set as \<Longrightarrow> r_get R (snd (snd (sweep_each R t busy seen as s))) (Stream_profile st) =
     r_get R s (Stream_profile st)"
  by (induction as arbitrary: s) (auto simp: sweep_each_cons Let_def sweep_one_other)

lemma sweep_each_first_sight:
  assumes "(owner, sid, False) \<in> set as" and "seen owner = None" and "distinct (map fst as)"
    and "\<forall>(o1, st, run) \<in> set as. st = sid \<longrightarrow> o1 = owner"
  shows "r_hget R (snd (snd (sweep_each R t busy seen as s))) Abandoned_slots (dec owner) = Some (VTime t) \<and>
    r_get R (snd (snd (sweep_each R t busy seen as s))) (Channel_stream owner) = r_get R s (Channel_stream owner) \<and>
    r_get R (snd (snd (sweep_each R t busy seen as s))) (Stream_profile sid) = r_get R s (Stream_profile sid)"
  using assms
proof (induction as arbitrary: s)
  case (Cons a as)
  obtain o1 st running where a: "a = (o1, st, running)" by (cases a)
  show ?case
  proof (cases "o1 = owner")
    case True
    then have out: "owner \<notin> fst ` set as" using Cons.prems(3) a by auto
    then have "(owner, sid, False) = a" using Cons.prems(1) by force
    then have "st = sid" "\<not> running" using a by auto
    moreover have "sid \<notin> (fst \<circ> snd) ` set as" using out Cons.prems(4) by force
    ultimately show ?thesis
      using True out Cons.prems(2) by (simp add: a sweep_each_cons Let_def sweep_each_other sweep_one_def)
  next
    case False
    then have "st \<noteq> sid" using Cons.prems(4) a by auto
    with False Cons show ?thesis by (auto simp: a sweep_each_cons Let_def sweep_one_other)
  qed
qed simp

lemma sweep_each_second_sight:
  assumes "(owner, sid, False) \<in> set as" and "seen owner = Some since" and "distinct (map fst as)"
    and "\<forall>(o1, st, run) \<in> set as. st = sid \<longrightarrow> o1 = owner"
    and "ABANDONED_SLOT_GRACE \<le> t - since" and "sid \<notin> busy"
    and "get_int R s (Stream_profile sid) = Some pid"
  shows "owner \<in> set (fst (sweep_each R t busy seen as s))"
  using assms
proof (induction as arbitrary: s)
  case (Cons a as)
  obtain o1 st running where a: "a = (o1, st, running)" by (cases a)
  show ?case
  proof (cases "o1 = owner")
    case True
    then have "owner \<notin> fst ` set as" using Cons.prems(3) a by auto
    then have "(owner, sid, False) = a" using Cons.prems(1) by force
    then have "fst (sweep_one R t busy seen o1 st s)" "\<not> running"
      using Cons.prems a by (auto simp: sweep_one_def Let_def get_int_def)
    with True show ?thesis by (simp add: a sweep_each_cons Let_def)
  next
    case False
    then have "st \<noteq> sid" using Cons.prems(4) a by auto
    then have "get_int R (snd (sweep_one R t busy seen o1 st s)) (Stream_profile sid) = Some pid"
      using Cons.prems(7) by (simp add: get_int_def sweep_one_other)
    with False Cons show ?thesis by (auto simp: a sweep_each_cons Let_def)
  qed
qed simp

end

section \<open>A whole sweep\<close>

lemma assignments_member:
  "(owner, sid, run) \<in> set (assignments_of R X live owners s) \<longleftrightarrow>
   owner \<in> set owners \<and> get_int R s (Channel_stream owner) = Some sid \<and>
   run = list_ex (\<lambda>c. c \<in> set live) (assignment_channel_ids X owner sid)"
  by (auto simp: assignments_of_def map_filter_member)

lemma assignments_distinct: "distinct owners \<Longrightarrow> distinct (map fst (assignments_of R X live owners s))"
proof -
  have "map fst (assignments_of R X live owners s) =
      filter (\<lambda>owner. get_int R s (Channel_stream owner) \<noteq> None) owners"
    by (induction owners) (auto simp: assignments_of_def map_filter_simps)
  then show "distinct owners \<Longrightarrow> ?thesis" by simp
qed

text \<open>Nobody but the owner has the stream, and nothing of it runs.\<close>

definition abandoned ::
  "'s redis_api \<Rightarrow> site \<Rightarrow> (string \<times> int option) list \<Rightarrow> int list \<Rightarrow> 's \<Rightarrow> int \<Rightarrow> int \<Rightarrow> bool" where
  "abandoned R X keys owners s owner sid \<longleftrightarrow>
     distinct owners \<and> owner \<in> set owners \<and> get_int R s (Channel_stream owner) = Some sid \<and>
     (\<forall>o1 \<in> set owners. get_int R s (Channel_stream o1) = Some sid \<longrightarrow> o1 = owner) \<and>
     set (assignment_channel_ids X owner sid) \<inter> set (live_channel_ids keys) = {}"

lemma abandoned_some: "abandoned R X keys owners s owner sid \<Longrightarrow> owner \<in> set owners"
  unfolding abandoned_def by blast

definition busy_streams :: "assignment list \<Rightarrow> int set" where
  "busy_streams as = set (map (\<lambda>(_, sid, _). sid) (filter (\<lambda>(_, _, running). running) as))"

lemma busy_streams_iff: "sid \<in> busy_streams as \<longleftrightarrow> (\<exists>owner. (owner, sid, True) \<in> set as)"
  by (force simp: busy_streams_def)

lemma abandoned_assignment:
  assumes "abandoned R X keys owners s owner sid"
    and "as = assignments_of R X (live_channel_ids keys) owners s"
  shows "(owner, sid, False) \<in> set as" and "distinct (map fst as)"
    and "\<forall>(o1, st, run) \<in> set as. st = sid \<longrightarrow> o1 = owner" and "sid \<notin> busy_streams as"
proof -
  have mem: "(o1, st, run) \<in> set as \<longleftrightarrow> o1 \<in> set owners \<and> get_int R s (Channel_stream o1) = Some st \<and>
      run = (set (assignment_channel_ids X o1 st) \<inter> set (live_channel_ids keys) \<noteq> {})" for o1 st run
    unfolding assms(2) assignments_member by (auto simp: list_ex_iff)
  note own = assms(1) [unfolded abandoned_def]
  show "(owner, sid, False) \<in> set as" using own by (simp add: mem)
  show "distinct (map fst as)" using own by (simp add: assms(2) assignments_distinct)
  have one: "o1 = owner" if "(o1, sid, run) \<in> set as" for o1 run
    using that own unfolding mem by blast
  then show "\<forall>(o1, st, run) \<in> set as. st = sid \<longrightarrow> o1 = owner" by auto
  show "sid \<notin> busy_streams as"
  proof
    assume "sid \<in> busy_streams as"
    then obtain o1 where "(o1, sid, True) \<in> set as" by (auto simp: busy_streams_iff)
    then have "(owner, sid, True) \<in> set as" using one by blast
    with own show False by (simp add: mem)
  qed
qed

lemma sweep_unfold:
  assumes "redis R" and "r_get R s Sweep_lock = None" and "owners \<noteq> []"
  obtains s0 as where
    "release_abandoned_slots R e X keys owners s =
       (fst (sweep_each R (now e) (busy_streams as) (first_seen R s) as s0),
        r_expire R (forget_finished R (r_hash R s Abandoned_slots)
                      (fst (snd (sweep_each R (now e) (busy_streams as) (first_seen R s) as s0)))
                      (snd (snd (sweep_each R (now e) (busy_streams as) (first_seen R s) as s0))))
          Abandoned_slots 600)"
    "as = assignments_of R X (live_channel_ids keys) owners s"
    "r_hash R s0 = r_hash R s" "pool_view R s0 = pool_view R s"
    "\<And>k. k \<noteq> Sweep_lock \<Longrightarrow> r_get R s0 k = r_get R s k"
proof -
  let ?s0 = "r_setex R s Sweep_lock SWEEP_INTERVAL (VStr ''1'')"
  have lock: "r_setnx R s Sweep_lock SWEEP_INTERVAL (VStr ''1'') = (True, ?s0)"
    using assms(2) by (simp add: r_setnx_def)
  have hash: "r_hash R ?s0 = r_hash R s" by (rule redis.hash_setex [OF assms(1)])
  have get: "k \<noteq> Sweep_lock \<Longrightarrow> r_get R ?s0 k = r_get R s k" for k
    by (simp add: redis.get_setex [OF assms(1)])
  have view: "pool_view R ?s0 = pool_view R s" using redis.view_setex [OF assms(1)] by blast
  have as: "assignments_of R X live owners ?s0 = assignments_of R X live owners s" for live
    by (simp add: assignments_of_def get_int_def get)
  have seen: "first_seen R ?s0 = first_seen R s" by (simp add: first_seen_def fun_eq_iff hash)
  show thesis
    by (rule that [of "assignments_of R X (live_channel_ids keys) owners s" ?s0])
      (use assms(3) in \<open>simp_all add: release_abandoned_slots_def lock Let_def hash seen as get view
         busy_streams_def case_prod_unfold\<close>)
qed

lemma forget_finished_keeps:
  assumes "redis R" and "owner \<in> set watched"
  shows "r_hget R (forget_finished R seen watched s) Abandoned_slots (dec owner) =
         r_hget R s Abandoned_slots (dec owner)"
  using assms(2) by (simp add: forget_finished_def redis.foldl_hdel [OF assms(1)])

lemma forget_finished_get:
  "redis R \<Longrightarrow> r_get R (forget_finished R seen watched s) = r_get R s"
  "redis R \<Longrightarrow> pool_view R (forget_finished R seen watched s) = pool_view R s"
  by (simp_all add: forget_finished_def redis.foldl_hdel pool_view_def slots_def fun_eq_iff)


section \<open>Properties\<close>

text \<open>
  C33: A sweep gives back only slots whose channel, and every other channel of the same stream, had
  no key that expires, and which an earlier sweep had found so a minute before; and it gives
  back exactly one slot for each assignment it reports.
\<close>

theorem only_abandoned_released:
  assumes "redis R" and "release_abandoned_slots R e X keys owners s = (released, s')"
  shows "(\<forall>owner \<in> set released. \<exists>sid since.
            get_int R s (Channel_stream owner) = Some sid \<and> first_seen R s owner = Some since \<and>
            ABANDONED_SLOT_GRACE \<le> now e - since \<and>
            (\<forall>o1 \<in> insert owner (set owners). get_int R s (Channel_stream o1) = Some sid \<longrightarrow>
               set (assignment_channel_ids X o1 sid) \<inter> set (live_channel_ids keys) = {})) \<and>
         (\<exists>pids. length pids = length released \<and>
            pool_view R s' = foldl (\<lambda>v pid. slot_returned pid v) (pool_view R s) pids)"
proof (cases "r_get R s Sweep_lock = None \<and> owners \<noteq> []")
  case False
  have "pool_view R (r_setex R s Sweep_lock n v) = pool_view R s" for n v
    using redis.view_setex [OF assms(1)] by blast
  moreover have "pool_view R (r_expire R (forget_finished R h [] u) k 600) = pool_view R u" for h u k
    by (simp add: redis.view_expire [OF assms(1)] forget_finished_get(2) [OF assms(1)])
  ultimately have "released = [] \<and> pool_view R s' = pool_view R s"
    using False assms(2)
    by (auto simp: release_abandoned_slots_def r_setnx_def Let_def assignments_of_def map_filter_simps
        split: option.splits if_splits)
  then show ?thesis by (auto intro: exI [of _ "[]"])
next
  case True
  then obtain s0 as where run: "release_abandoned_slots R e X keys owners s =
       (fst (sweep_each R (now e) (busy_streams as) (first_seen R s) as s0),
        r_expire R (forget_finished R (r_hash R s Abandoned_slots)
                      (fst (snd (sweep_each R (now e) (busy_streams as) (first_seen R s) as s0)))
                      (snd (snd (sweep_each R (now e) (busy_streams as) (first_seen R s) as s0))))
          Abandoned_slots 600)"
      and as: "as = assignments_of R X (live_channel_ids keys) owners s"
      and view: "pool_view R s0 = pool_view R s"
    using sweep_unfold [OF assms(1), of s owners e X keys] by metis
  have "\<exists>sid since. get_int R s (Channel_stream owner) = Some sid \<and> first_seen R s owner = Some since \<and>
      ABANDONED_SLOT_GRACE \<le> now e - since \<and>
      (\<forall>o1 \<in> insert owner (set owners). get_int R s (Channel_stream o1) = Some sid \<longrightarrow>
         set (assignment_channel_ids X o1 sid) \<inter> set (live_channel_ids keys) = {})"
    if owner: "owner \<in> set released" for owner
  proof -
    have "owner \<in> set (fst (sweep_each R (now e) (busy_streams as) (first_seen R s) as s0))"
      using owner assms(2) run by simp
    then obtain sid since where o1: "(owner, sid, False) \<in> set as" "sid \<notin> busy_streams as"
        "first_seen R s owner = Some since" "ABANDONED_SLOT_GRACE \<le> now e - since"
      by (blast dest: sweep_each_released)
    have idle: "set (assignment_channel_ids X o2 sid) \<inter> set (live_channel_ids keys) = {}"
      if "o2 \<in> set owners" "get_int R s (Channel_stream o2) = Some sid" for o2
      using o1(2) that unfolding busy_streams_iff as assignments_member by (auto simp: list_ex_iff)
    have "owner \<in> set owners" "get_int R s (Channel_stream owner) = Some sid"
      using o1(1) unfolding as assignments_member by auto
    with o1(3,4) idle show ?thesis by blast
  qed
  then have all: "\<forall>owner \<in> set released. \<exists>sid since. get_int R s (Channel_stream owner) = Some sid \<and>
      first_seen R s owner = Some since \<and> ABANDONED_SLOT_GRACE \<le> now e - since \<and>
      (\<forall>o1 \<in> insert owner (set owners). get_int R s (Channel_stream o1) = Some sid \<longrightarrow>
         set (assignment_channel_ids X o1 sid) \<inter> set (live_channel_ids keys) = {})"
    by blast
  obtain pids where pids: "length pids = length released"
      and      "pool_view R (snd (snd (sweep_each R (now e) (busy_streams as) (first_seen R s) as s0))) =
         foldl (\<lambda>v pid. slot_returned pid v) (pool_view R s) pids"
    using redis.sweep_each_view [OF assms(1), of "now e" "busy_streams as" "first_seen R s" as s0] assms(2) run view
    by auto
  moreover have "pool_view R (snd (release_abandoned_slots R e X keys owners s)) =
      pool_view R (snd (snd (sweep_each R (now e) (busy_streams as) (first_seen R s) as s0)))"
    unfolding run by (simp add: forget_finished_get(2) [OF assms(1)] redis.view_expire [OF assms(1)])
  ultimately have "pool_view R s' = foldl (\<lambda>v pid. slot_returned pid v) (pool_view R s) pids"
    unfolding assms(2) by simp
  with pids(1) all show ?thesis by blast
qed

text \<open>
  C34: The slot of an abandoned assignment comes back: the first sweep that sees it notes the time
  and leaves it; a sweep a minute later, with nothing of it changed, releases it.
\<close>

theorem abandoned_slot_comes_back:
  assumes "redis R" and "abandoned R X keys owners s owner sid"
    and "get_int R s (Stream_profile sid) = Some pid" and "first_seen R s owner = None"
    and "r_get R s Sweep_lock = None"
    and "s1 = snd (release_abandoned_slots R e X keys owners s)"
    and "\<And>k. k \<in> {Channel_stream owner, Stream_profile sid} \<Longrightarrow> r_get R t k = r_get R s1 k"
    and "r_hget R t Abandoned_slots (dec owner) = r_hget R s1 Abandoned_slots (dec owner)"
    and "r_get R t Sweep_lock = None" and "now e + ABANDONED_SLOT_GRACE \<le> now e'"
    and "abandoned R X keys' owners' t owner sid"
  shows "owner \<notin> set (fst (release_abandoned_slots R e X keys owners s)) \<and>
         owner \<in> set (fst (release_abandoned_slots R e' X keys' owners' t))"
proof -
  have ne: "owners \<noteq> []" "owners' \<noteq> []"
    using abandoned_some [OF assms(2)] abandoned_some [OF assms(11)] by auto
  obtain s0 as where run: "release_abandoned_slots R e X keys owners s =
       (fst (sweep_each R (now e) (busy_streams as) (first_seen R s) as s0),
        r_expire R (forget_finished R (r_hash R s Abandoned_slots)
                      (fst (snd (sweep_each R (now e) (busy_streams as) (first_seen R s) as s0)))
                      (snd (snd (sweep_each R (now e) (busy_streams as) (first_seen R s) as s0))))
          Abandoned_slots 600)"
      and as: "as = assignments_of R X (live_channel_ids keys) owners s"
      and s0: "\<And>k. k \<noteq> Sweep_lock \<Longrightarrow> r_get R s0 k = r_get R s k"
    using sweep_unfold [OF assms(1,5) ne(1), of e X keys] by metis
  note ab = abandoned_assignment [OF assms(2) as]
  let ?w = "sweep_each R (now e) (busy_streams as) (first_seen R s) as s0"
  have first: "r_hget R (snd (snd ?w)) Abandoned_slots (dec owner) = Some (VTime (now e)) \<and>
      r_get R (snd (snd ?w)) (Channel_stream owner) = r_get R s0 (Channel_stream owner) \<and>
      r_get R (snd (snd ?w)) (Stream_profile sid) = r_get R s0 (Stream_profile sid)"
    using ab(1) assms(4) ab(2,3) by (rule redis.sweep_each_first_sight [OF assms(1)])
  have "owner \<in> set (fst (snd ?w))" using ab(1) by (rule sweep_each_watched) (simp add: assms(4))
  then have seen: "first_seen R t owner = Some (now e)"
    using first run assms(6,8) forget_finished_keeps [OF assms(1)]
    by (simp add: first_seen_def redis.hash_expire [OF assms(1)])
  have get: "get_int R t (Stream_profile sid) = Some pid"
    using assms(3,6,7) first run s0 forget_finished_get(1) [OF assms(1)]
    by (simp add: get_int_def redis.get_expire [OF assms(1)])
  have none: "owner \<notin> set (fst ?w)" using sweep_each_released assms(4) by fastforce
  obtain t0 bs where run': "fst (release_abandoned_slots R e' X keys' owners' t) =
       fst (sweep_each R (now e') (busy_streams bs) (first_seen R t) bs t0)"
      and bs: "bs = assignments_of R X (live_channel_ids keys') owners' t"
      and t0: "\<And>k. k \<noteq> Sweep_lock \<Longrightarrow> r_get R t0 k = r_get R t k"
    using sweep_unfold [OF assms(1,9) ne(2), of e' X keys'] by (metis fst_conv)
  note ab' = abandoned_assignment [OF assms(11) bs]
  have "owner \<in> set (fst (sweep_each R (now e') (busy_streams bs) (first_seen R t) bs t0))"
    using ab'(1) seen ab'(2,3) _ ab'(4)
    by (rule redis.sweep_each_second_sight [OF assms(1)]) (use assms(10) get t0 in \<open>simp_all add: get_int_def\<close>)
  with none run run' show ?thesis by simp
qed

definition ex_crashed :: mem where
  "ex_crashed = mem_empty\<lparr>m_count := (\<lambda>k. if k = Profile_connections 1 then 1 else 0),
     m_get := [Channel_stream 5 \<mapsto> VInt 10, Stream_profile 10 \<mapsto> VInt 1]\<rparr>"

definition ex_crash_seen :: mem where
  "ex_crash_seen =
     r_del mem_redis (snd (release_abandoned_slots mem_redis ex_env ex_site [] [5] ex_crashed)) Sweep_lock"

lemma ex_crashed_get: "r_get mem_redis ex_crashed = [Channel_stream 5 \<mapsto> VInt 10, Stream_profile 10 \<mapsto> VInt 1]"
  by (simp add: ex_crashed_def mem_redis_def mem_empty_def)

lemma ex_crash_abandoned: "abandoned mem_redis ex_site [] [5] ex_crashed 5 10"
  by (simp add: abandoned_def get_int_def ex_crashed_get live_channel_ids_def map_filter_simps)

lemma abandoned_slot_comes_back_witness:
  "5 \<in> set (fst (release_abandoned_slots mem_redis (ex_env\<lparr>now := 160\<rparr>) ex_site [] [5] ex_crash_seen))"
proof -
  have seen: "r_get mem_redis ex_crash_seen (Channel_stream 5) = Some (VInt 10)"
    "r_get mem_redis ex_crash_seen (Stream_profile 10) = Some (VInt 1)" by code_simp+
  then have ab: "abandoned mem_redis ex_site [] [5] ex_crash_seen 5 10"
    by (simp add: abandoned_def get_int_def live_channel_ids_def map_filter_simps)
  have none: "first_seen mem_redis ex_crashed 5 = None" by code_simp
  show ?thesis
    by (rule conjunct2 [OF abandoned_slot_comes_back [OF mem.redis_axioms ex_crash_abandoned _ none _ refl _ _ _ _ ab]])
      (auto simp: get_int_def ex_crashed_get ex_crash_seen_def ABANDONED_SLOT_GRACE_def mem.get_del mem.hash_del)
qed

lemma only_abandoned_released_witness:
  "\<exists>pids. length pids = 1 \<and>
     pool_view mem_redis (snd (release_abandoned_slots mem_redis (ex_env\<lparr>now := 160\<rparr>) ex_site [] [5] ex_crash_seen)) =
       foldl (\<lambda>v pid. slot_returned pid v) (pool_view mem_redis ex_crash_seen) pids"
proof -
  have "fst (release_abandoned_slots mem_redis (ex_env\<lparr>now := 160\<rparr>) ex_site [] [5] ex_crash_seen) = [5]"
    by code_simp
  then show ?thesis
    using only_abandoned_released [OF mem.redis_axioms prod.collapse [symmetric],
        of "ex_env\<lparr>now := 160\<rparr>" ex_site "[]" "[5]" ex_crash_seen]
    by simp
qed

end
