(* ===== verification/Stream_Buffer.thy ===== *)
theory Stream_Buffer
  imports Prelude "HOL-Library.Word" "HOL-Library.Char_ord" "HOL-Library.List_Lexorder"
    "HOL-Library.Product_Lexorder"
begin

text \<open>
  The buffer of a live stream (\<^verbatim>\<open>apps/proxy/live_proxy/input/buffer.py\<close>): bytes come in in any
  pieces, are cut into whole transport stream packets and stored in numbered chunks of one
  size; clients read chunks by number, jump to the oldest one left, or to one received some
  time ago; with the walk of a client over them (\<^verbatim>\<open>output/ts/generator.py\<close>). The store is the part of Redis a buffer uses: the counter of its chunks, the
  chunks themselves (which expire) and the sorted set of the times they were received.
  (Without Redis nothing is stored, and the buffer is not modelled.)
\<close>

type_synonym bytes = "8 word list"

definition TS_PACKET_SIZE :: nat where "TS_PACKET_SIZE = 188"

section \<open>The store\<close>

record chunk_store =
  head_index :: int
  chunks :: "int \<Rightarrow> bytes option"
  stamps :: "(int \<times> real) list"

text \<open>\<open>ZADD\<close> of one member and \<open>ZREMRANGEBYSCORE key -inf t\<close>.\<close>

definition zadd :: "int \<Rightarrow> real \<Rightarrow> (int \<times> real) list \<Rightarrow> (int \<times> real) list" where
  "zadd i t z = (i, t) # filter (\<lambda>(j, _). j \<noteq> i) z"

definition zrem_up_to :: "real \<Rightarrow> (int \<times> real) list \<Rightarrow> (int \<times> real) list" where
  "zrem_up_to t z = filter (\<lambda>(_, u). t < u) z"

text \<open>Members of a sorted set are ordered by score, then by their text.\<close>

definition zscore :: "int \<times> real \<Rightarrow> real \<times> string" where
  "zscore m = (snd m, dec (fst m))"

fun zfirst :: "(real \<times> string \<Rightarrow> real \<times> string \<Rightarrow> bool) \<Rightarrow> (int \<times> real) list \<Rightarrow> (int \<times> real) option" where
  "zfirst before [] = None"
| "zfirst before (m # ms) =
     (case zfirst before ms of
        None \<Rightarrow> Some m
      | Some n \<Rightarrow> if before (zscore n) (zscore m) then Some n else Some m)"

section \<open>The buffer\<close>

record stream_buffer =
  index :: int
  write_buffer :: bytes
  partial_packet :: bytes
  target_chunk_size :: nat
  chunk_ttl :: real
  stopping :: bool

definition new_buffer :: "chunk_store \<Rightarrow> nat \<Rightarrow> real \<Rightarrow> stream_buffer" where
  "new_buffer s target ttl =
     \<lparr>index = head_index s, write_buffer = [], partial_packet = [], target_chunk_size = target,
      chunk_ttl = ttl, stopping = False\<rparr>"

text \<open>A full chunk written: the counter, the chunk, its time, the times that are too old.\<close>

definition store_chunk :: "real \<Rightarrow> real \<Rightarrow> bytes \<Rightarrow> chunk_store \<Rightarrow> chunk_store" where
  "store_chunk t ttl data s =
     (let i = head_index s + 1 in
      s\<lparr>head_index := i, chunks := (chunks s)(i \<mapsto> data),
        stamps := zrem_up_to (t - ttl) (zadd i t (stamps s))\<rparr>)"

text \<open>The loop over full chunks; it does not end for chunks of no size.\<close>

function write_full :: "real \<Rightarrow> stream_buffer \<times> chunk_store \<Rightarrow> stream_buffer \<times> chunk_store" where
  "write_full t (b, s) =
     (if target_chunk_size b = 0 \<or> length (write_buffer b) < target_chunk_size b then (b, s)
      else
        (let s1 = store_chunk t (chunk_ttl b) (take (target_chunk_size b) (write_buffer b)) s
         in write_full t
              (b\<lparr>write_buffer := drop (target_chunk_size b) (write_buffer b), index := head_index s1\<rparr>, s1)))"
  by pat_completeness auto
termination
  by (relation "measure (\<lambda>(t, b, s). length (write_buffer b))") auto

declare write_full.simps [simp del]

text \<open>\<open>None\<close> where the code does not return (a chunk size of nought).\<close>

definition add_chunk ::
  "real \<Rightarrow> bytes \<Rightarrow> stream_buffer \<Rightarrow> chunk_store \<Rightarrow> (bool \<times> stream_buffer \<times> chunk_store) option" where
  "add_chunk t chunk b s =
     (if chunk = [] \<or> stopping b then Some (False, b, s)
      else
        (let combined = partial_packet b @ chunk;
             whole = length combined div TS_PACKET_SIZE * TS_PACKET_SIZE
         in if whole = 0 then Some (True, b\<lparr>partial_packet := combined\<rparr>, s)
            else if target_chunk_size b = 0 then None
            else Some (True, write_full t
                   (b\<lparr>partial_packet := drop whole combined,
                      write_buffer := write_buffer b @ take whole combined\<rparr>, s))))"

definition reset_buffer_position :: "stream_buffer \<Rightarrow> stream_buffer" where
  "reset_buffer_position b = b\<lparr>write_buffer := [], partial_packet := []\<rparr>"

definition stop_buffer :: "stream_buffer \<Rightarrow> stream_buffer" where
  "stop_buffer b =
     (if write_buffer b = [] then b\<lparr>stopping := True\<rparr>
      else b\<lparr>stopping := True, write_buffer := [], partial_packet := []\<rparr>)"

section \<open>Reading\<close>

definition fetch :: "chunk_store \<Rightarrow> int \<Rightarrow> int \<Rightarrow> bytes list" where
  "fetch s start_id end_id = List.map_filter (chunks s) [start_id..end_id - 1]"

definition fetch_count :: "int \<Rightarrow> int" where
  "fetch_count behind = (if 100 < behind then 15 else if 50 < behind then 10 else if 20 < behind then 5 else 3)"

definition get_chunks :: "int option \<Rightarrow> stream_buffer \<Rightarrow> chunk_store \<Rightarrow> bytes list \<times> stream_buffer" where
  "get_chunks start b s =
     (let start_id = (case start of None \<Rightarrow> max 0 (index b - 10) | Some i \<Rightarrow> i) + 1;
          end_id = min (head_index s + 1) (start_id + fetch_count (head_index s - start_id));
          found = fetch s start_id end_id
      in if end_id \<le> start_id then ([], b)
         else (found, if found = [] then b else b\<lparr>index := end_id - 1\<rparr>))"

definition get_chunks_exact :: "int \<Rightarrow> int \<Rightarrow> stream_buffer \<Rightarrow> chunk_store \<Rightarrow> bytes list \<times> stream_buffer" where
  "get_chunks_exact start count b s =
     (let start_id = start + 1 in
      if head_index s < start_id then ([], b)
      else
        (let found = fetch s start_id (min (start_id + count) (head_index s + 1));
             last_id = start_id + int (length found) - 1
         in (found, if found \<noteq> [] \<and> index b < last_id then b\<lparr>index := last_id\<rparr> else b)))"

definition MIN_CHUNKS :: int where "MIN_CHUNKS = 3"
definition MAX_CHUNKS :: int where "MAX_CHUNKS = 20"
definition TARGET_SIZE :: nat where "TARGET_SIZE = 1024 * 1024"
definition MAX_SIZE :: nat where "MAX_SIZE = 2 * 1024 * 1024"

lemmas read_limits = MIN_CHUNKS_def MAX_CHUNKS_def

definition chunk_count_for :: "int \<Rightarrow> int" where
  "chunk_count_for behind =
     (if behind \<le> MIN_CHUNKS then max 1 behind else if behind \<le> MAX_CHUNKS then behind else MAX_CHUNKS)"

definition total_size :: "bytes list \<Rightarrow> nat" where
  "total_size cs = sum_list (map length cs)"

definition get_optimized_client_data ::
  "int \<Rightarrow> stream_buffer \<Rightarrow> chunk_store \<Rightarrow> (bytes list \<times> int) \<times> stream_buffer" where
  "get_optimized_client_data client b s =
     (let behind = index b - client;
          count = chunk_count_for behind;
          (found, b1) = get_chunks_exact client count b s
      in if 3 < count \<and> found = [] \<and> 10 < behind then (([], client), b1)
         else if total_size found < TARGET_SIZE \<and> count < behind then
           (let (more, b2) = get_chunks_exact (client + count) (min (MAX_CHUNKS - count) (behind - count)) b1 s
            in if total_size found + total_size more \<le> MAX_SIZE
               then ((found @ more, client + count + int (length more)), b2)
               else ((found, client + count), b2))
         else ((found, client + count), b1))"

section \<open>Where to jump to\<close>

text \<open>The binary search of \<open>_FIND_OLDEST_CHUNK_LUA\<close>; \<open>result\<close> is the best so far.\<close>

function search_oldest :: "(int \<Rightarrow> bool) \<Rightarrow> int \<Rightarrow> int \<Rightarrow> int \<Rightarrow> int" where
  "search_oldest there low high result =
     (if high < low then result
      else (let mid = (low + high) div 2 in
            if there mid then search_oldest there low (mid - 1) mid
            else search_oldest there (mid + 1) high result))"
  by pat_completeness auto
termination
  by (relation "measure (\<lambda>(_, low, high, _). nat (high - low + 1))") auto

declare search_oldest.simps [simp del]

definition find_oldest_chunk :: "(int \<Rightarrow> bool) \<Rightarrow> int \<Rightarrow> int \<Rightarrow> int" where
  "find_oldest_chunk there low high = (if \<not> there high then - 1 else search_oldest there low high high)"

definition find_oldest_available_chunk :: "int \<Rightarrow> stream_buffer \<Rightarrow> chunk_store \<Rightarrow> int option" where
  "find_oldest_available_chunk client b s =
     (let low = client + 1; high = index b in
      if high < low then None
      else (let r = find_oldest_chunk (\<lambda>i. chunks s i \<noteq> None) low high
            in if r = - 1 then None else Some (r - 1)))"

text \<open>The chunk received last before a time, or the oldest time there is.\<close>

definition find_chunk_index_by_time :: "real \<Rightarrow> real \<Rightarrow> chunk_store \<Rightarrow> int option" where
  "find_chunk_index_by_time t seconds_behind s =
     (case zfirst (\<lambda>a b. b < a) (filter (\<lambda>(_, u). u \<le> t - seconds_behind) (stamps s)) of
        Some (i, _) \<Rightarrow>
          (if i = - 1
           then map_option (\<lambda>(j, _). max 0 (j - 1)) (zfirst (\<lambda>a b. a < b) (stamps s))
           else Some (max 0 (i - 1)))
      | None \<Rightarrow> map_option (\<lambda>(j, _). max 0 (j - 1)) (zfirst (\<lambda>a b. a < b) (stamps s)))"

section \<open>A client's walk\<close>

text \<open>Where a new client starts (\<open>_setup_streaming\<close>).\<close>

definition start_position :: "real \<Rightarrow> real \<Rightarrow> stream_buffer \<Rightarrow> chunk_store \<Rightarrow> int" where
  "start_position t behind_seconds b s =
     (if behind_seconds \<le> 0 then index b
      else case find_chunk_index_by_time t behind_seconds s of
             Some i \<Rightarrow> max 0 i
           | None \<Rightarrow> (case find_oldest_available_chunk 0 b s of Some i \<Rightarrow> max 0 i | None \<Rightarrow> index b))"

text \<open>
  A turn of \<open>_stream_data_generator\<close>: chunks are sent and the position moves on, or a client
  behind the head jumps and tries again at once, or it waits (a pause, a keepalive packet, the
  checks for a ghost and for a timeout).
\<close>

datatype client_turn = Send "bytes list" int | Jump int | Wait

definition client_turn :: "int \<Rightarrow> int \<Rightarrow> stream_buffer \<Rightarrow> chunk_store \<Rightarrow> client_turn \<times> stream_buffer" where
  "client_turn initial_behind client b s =
     (let ((found, next), b1) = get_optimized_client_data client b s in
      if found \<noteq> [] then (Send found next, b1)
      else if 0 < index b1 - client then
        (Jump (case find_oldest_available_chunk client b1 s of
                 Some i \<Rightarrow> i
               | None \<Rightarrow> max client (index b1 - initial_behind)), b1)
      else (Wait, b1))"

definition is_ghost_client :: "nat \<Rightarrow> int \<Rightarrow> stream_buffer \<Rightarrow> bool" where
  "is_ghost_client consecutive_empty client b \<longleftrightarrow> 100 < consecutive_empty \<and> client + 50 < index b"

section \<open>What is stored\<close>

text \<open>The bytes that came in after the chunk \<open>i\<close>: chunks, whole packets, and a part of one.\<close>

definition chunk_bytes :: "chunk_store \<Rightarrow> int \<Rightarrow> int \<Rightarrow> bytes" where
  "chunk_bytes s i j = concat (List.map_filter (chunks s) [i + 1..j])"

definition bytes_since :: "int \<Rightarrow> stream_buffer \<Rightarrow> chunk_store \<Rightarrow> bytes" where
  "bytes_since i b s = chunk_bytes s i (head_index s) @ write_buffer b @ partial_packet b"

definition stored_ok :: "int \<Rightarrow> stream_buffer \<Rightarrow> chunk_store \<Rightarrow> bool" where
  "stored_ok i b s \<longleftrightarrow>
     i \<le> head_index s \<and> index b = head_index s \<and> 0 < target_chunk_size b \<and>
     TS_PACKET_SIZE dvd target_chunk_size b \<and> \<not> stopping b \<and>
     TS_PACKET_SIZE dvd length (write_buffer b) \<and>
     (\<forall>k. i < k \<and> k \<le> head_index s \<longrightarrow> (\<exists>d. chunks s k = Some d \<and> length d = target_chunk_size b))"

definition buffer_ok :: "int \<Rightarrow> stream_buffer \<Rightarrow> chunk_store \<Rightarrow> bool" where
  "buffer_ok i b s \<longleftrightarrow>
     stored_ok i b s \<and> length (write_buffer b) < target_chunk_size b \<and>
     length (partial_packet b) < TS_PACKET_SIZE"

lemma chunk_bytes_step:
  assumes "i \<le> j" and "chunks s (j + 1) = Some d"
  shows "chunk_bytes s i (j + 1) = chunk_bytes s i j @ d"
proof -
  have "[i + 1..j + 1] = [i + 1..j] @ [j + 1]" using assms(1) upto_rec2 [of "i + 1" "j + 1"] by simp
  then show ?thesis by (simp add: chunk_bytes_def map_filter_simps assms(2))
qed

lemma chunk_bytes_cong:
  assumes "\<And>k. i < k \<Longrightarrow> k \<le> j \<Longrightarrow> chunks s' k = chunks s k"
  shows "chunk_bytes s' i j = chunk_bytes s i j"
proof -
  have "List.map_filter (chunks s') [i + 1..j] = List.map_filter (chunks s) [i + 1..j]"
    unfolding map_filter_def using assms by (auto intro!: arg_cong [of _ _ "map _"] filter_cong map_cong)
  then show ?thesis by (simp add: chunk_bytes_def)
qed

lemma store_chunk_bytes:
  assumes "i \<le> head_index s"
  shows "chunk_bytes (store_chunk t ttl d s) i (head_index s + 1) = chunk_bytes s i (head_index s) @ d"
proof -
  have "chunk_bytes (store_chunk t ttl d s) i (head_index s) = chunk_bytes s i (head_index s)"
    by (rule chunk_bytes_cong) (simp add: store_chunk_def Let_def)
  then show ?thesis
    using assms chunk_bytes_step [of i "head_index s" "store_chunk t ttl d s" d]
    by (simp add: store_chunk_def Let_def)
qed

lemma store_chunk_simps [simp]:
  "head_index (store_chunk t ttl d s) = head_index s + 1"
  "chunks (store_chunk t ttl d s) = (chunks s)(head_index s + 1 \<mapsto> d)"
  by (simp_all add: store_chunk_def Let_def)

lemma write_full_spec:
  assumes "stored_ok i b s" and "write_full t (b, s) = (b', s')"
  shows "bytes_since i b' s' = bytes_since i b s \<and> stored_ok i b' s' \<and>
    length (write_buffer b') < target_chunk_size b' \<and> partial_packet b' = partial_packet b"
  using assms
proof (induction "length (write_buffer b)" arbitrary: b s rule: less_induct)
  case less
  let ?T = "target_chunk_size b"
  note ok = less.prems(1) [unfolded stored_ok_def]
  show ?case
  proof (cases "length (write_buffer b) < ?T")
    case True
    with less.prems show ?thesis by (simp add: stored_ok_def write_full.simps [of t b s])
  next
    case False
    let ?s = "store_chunk t (chunk_ttl b) (take ?T (write_buffer b)) s"
    let ?b = "b\<lparr>write_buffer := drop ?T (write_buffer b), index := head_index ?s\<rparr>"
    have "write_full t (?b, ?s) = (b', s')"
      using less.prems ok False write_full.simps [of t b s] by (simp add: Let_def)
    moreover have "stored_ok i ?b ?s"
      using ok False by (auto simp: stored_ok_def dvd_diff_nat)
    moreover have "length (write_buffer ?b) < length (write_buffer b)"
      using ok False by (auto intro!: diff_less)
    ultimately have "bytes_since i b' s' = bytes_since i ?b ?s \<and> stored_ok i b' s' \<and>
        length (write_buffer b') < target_chunk_size b' \<and> partial_packet b' = partial_packet ?b"
      using less.hyps by blast
    moreover have "bytes_since i ?b ?s = bytes_since i b s"
      using ok store_chunk_bytes [of i s t "chunk_ttl b" "take ?T (write_buffer b)"] by (simp add: bytes_since_def)
    ultimately show ?thesis by simp
  qed
qed

lemma add_chunk_spec:
  assumes "buffer_ok i b s"
  obtains r b' s' where "add_chunk t piece b s = Some (r, b', s')" and "buffer_ok i b' s'"
    and "bytes_since i b' s' = bytes_since i b s @ piece"
proof (cases "piece = []")
  case True
  with that [of False b s] assms show thesis by (simp add: add_chunk_def)
next
  case False
  define combined where "combined = partial_packet b @ piece"
  define whole where "whole = length combined div TS_PACKET_SIZE * TS_PACKET_SIZE"
  have ps: "TS_PACKET_SIZE = 188" by (rule TS_PACKET_SIZE_def)
  note ok = assms [unfolded buffer_ok_def]
  have on: "\<not> stopping b" "target_chunk_size b \<noteq> 0" using ok by (simp_all add: stored_ok_def)
  have rest: "length (drop whole combined) < TS_PACKET_SIZE"
  proof -
    have "whole = length combined - length combined mod 188" by (simp add: whole_def ps minus_mod_eq_div_mult)
    then show ?thesis by (simp add: ps)
  qed
  show thesis
  proof (cases "whole = 0")
    case True
    have "add_chunk t piece b s = Some (True, b\<lparr>partial_packet := combined\<rparr>, s)"
      using False on True by (simp add: add_chunk_def Let_def combined_def whole_def)
    then show thesis
      by (rule that) (use ok rest True in
        \<open>simp_all add: buffer_ok_def stored_ok_def bytes_since_def combined_def\<close>)
  next
    case some: False
    let ?b = "b\<lparr>partial_packet := drop whole combined, write_buffer := write_buffer b @ take whole combined\<rparr>"
    obtain b' s' where w: "write_full t (?b, s) = (b', s')" by (cases "write_full t (?b, s)")
    have "length (take whole combined) = whole" "TS_PACKET_SIZE dvd whole"
      by (simp_all add: whole_def ps min_absorb2)
    then have "stored_ok i ?b s" using ok by (simp add: stored_ok_def)
    then have spec: "bytes_since i b' s' = bytes_since i ?b s \<and> stored_ok i b' s' \<and>
        length (write_buffer b') < target_chunk_size b' \<and> partial_packet b' = partial_packet ?b"
      using w by (rule write_full_spec)
    have "add_chunk t piece b s = Some (True, b', s')"
      using False on some w by (simp add: add_chunk_def Let_def combined_def whole_def)
    moreover have "buffer_ok i b' s'" using spec rest by (simp add: buffer_ok_def)
    moreover have "bytes_since i ?b s = bytes_since i b s @ piece"
      by (simp add: bytes_since_def) (simp add: combined_def)
    ultimately show thesis using that spec by metis
  qed
qed

section \<open>Feeding a buffer and reading it\<close>

text \<open>Pieces as they arrive, each with its time.\<close>

fun feed :: "(real \<times> bytes) list \<Rightarrow> stream_buffer \<Rightarrow> chunk_store \<Rightarrow> (stream_buffer \<times> chunk_store) option" where
  "feed [] b s = Some (b, s)"
| "feed ((t, piece) # ps) b s =
     (case add_chunk t piece b s of None \<Rightarrow> None | Some (_, b1, s1) \<Rightarrow> feed ps b1 s1)"

text \<open>What a client is sent in \<open>n\<close> reads, and where it is then.\<close>

fun read_on :: "nat \<Rightarrow> int \<Rightarrow> stream_buffer \<Rightarrow> chunk_store \<Rightarrow> bytes \<times> int" where
  "read_on 0 client b s = ([], client)"
| "read_on (Suc n) client b s =
     (case client_turn 0 client b s of
        (Send found next, b1) \<Rightarrow> (let (rest, end_at) = read_on n next b1 s in (concat found @ rest, end_at))
      | (Jump next, b1) \<Rightarrow> read_on n next b1 s
      | (Wait, b1) \<Rightarrow> ([], client))"

lemma feed_spec:
  assumes "buffer_ok i b s"
  shows "\<exists>b' s'. feed ps b s = Some (b', s') \<and> buffer_ok i b' s' \<and>
           bytes_since i b' s' = bytes_since i b s @ concat (map snd ps)"
  using assms
proof (induction ps arbitrary: b s)
  case (Cons p ps)
  obtain t piece where p: "p = (t, piece)" by (cases p)
  obtain r b1 s1 where "add_chunk t piece b s = Some (r, b1, s1)" "buffer_ok i b1 s1"
      "bytes_since i b1 s1 = bytes_since i b s @ piece"
    using add_chunk_spec [OF Cons.prems] by metis
  with Cons.IH [of b1 s1] p show ?case by auto
qed simp

lemma new_buffer_ok:
  "0 < n \<Longrightarrow> TS_PACKET_SIZE dvd n \<Longrightarrow> buffer_ok (head_index s) (new_buffer s n ttl) s"
  by (auto simp: buffer_ok_def stored_ok_def new_buffer_def TS_PACKET_SIZE_def)

lemma new_buffer_bytes: "bytes_since (head_index s) (new_buffer s n ttl) s = []"
  by (simp add: bytes_since_def chunk_bytes_def new_buffer_def map_filter_simps)

subsection \<open>A read\<close>

lemma fetch_all:
  assumes "\<And>k. i < k \<Longrightarrow> k \<le> j \<Longrightarrow> chunks s k \<noteq> None"
  shows "length (fetch s (i + 1) (j + 1)) = nat (j - i)"
proof -
  have "List.map_filter (chunks s) [i + 1..j] = map (the \<circ> chunks s) [i + 1..j]"
    using assms by (auto simp: map_filter_def intro!: arg_cong [of _ _ "map _"] filter_True)
  then show ?thesis by (simp add: fetch_def)
qed

lemma fetch_bytes: "concat (fetch s (i + 1) (j + 1)) = chunk_bytes s i j"
  by (simp add: fetch_def chunk_bytes_def)

lemma chunk_bytes_append:
  assumes "i \<le> j" and "j \<le> k"
  shows "chunk_bytes s i k = chunk_bytes s i j @ chunk_bytes s j k"
proof -
  have "[i + 1..k] = [i + 1..j] @ [j + 1..k]"
    using assms upto_split2 [of "i + 1" j k] by (cases "i = j") simp_all
  then show ?thesis by (simp add: chunk_bytes_def)
qed

lemma chunk_count_bounds:
  "1 \<le> chunk_count_for n" "chunk_count_for n \<le> MAX_CHUNKS" "1 \<le> n \<Longrightarrow> chunk_count_for n \<le> n"
  "n \<le> MAX_CHUNKS \<Longrightarrow> 1 \<le> n \<Longrightarrow> chunk_count_for n = n"
  by (auto simp: chunk_count_for_def read_limits)

text \<open>The second read of \<open>get_optimized_client_data\<close> never asks for anything.\<close>

lemma no_second_read:
  "chunk_count_for n < n \<Longrightarrow> min (MAX_CHUNKS - chunk_count_for n) (n - chunk_count_for n) = 0"
  by (auto simp: chunk_count_for_def read_limits split: if_splits)

lemma exact_none: "fst (get_chunks_exact i 0 b s) = []" "snd (get_chunks_exact i 0 b s) = b"
  by (simp_all add: get_chunks_exact_def fetch_def Let_def map_filter_simps min_def)

lemma optimized_read:
  "get_optimized_client_data client b s =
     (let n = index b - client; r = get_chunks_exact client (chunk_count_for n) b s
      in ((fst r, if 3 < chunk_count_for n \<and> fst r = [] \<and> 10 < n then client
                  else client + chunk_count_for n), snd r))"
proof -
  let ?n = "index b - client"
  let ?r = "get_chunks_exact client (chunk_count_for ?n) b s"
  have second: "get_chunks_exact j (min (MAX_CHUNKS - chunk_count_for ?n) (?n - chunk_count_for ?n)) c s = ([], c)"
    if "chunk_count_for ?n < ?n" for j c
    using no_second_read [OF that] exact_none by (metis prod.collapse)
  have "total_size (fst ?r) < TARGET_SIZE \<Longrightarrow> total_size (fst ?r) + total_size [] \<le> MAX_SIZE"
    by (simp add: total_size_def TARGET_SIZE_def MAX_SIZE_def)
  then show ?thesis
    by (auto simp: get_optimized_client_data_def Let_def case_prod_unfold second)
qed

lemma client_read:
  assumes "\<And>k. client < k \<Longrightarrow> k \<le> head_index s \<Longrightarrow> chunks s k \<noteq> None"
    and "index b = head_index s" and "client < head_index s"
  obtains n where "1 \<le> n" and "client + n \<le> head_index s" and
    "client_turn x client b s = (Send (fetch s (client + 1) (client + n + 1)) (client + n), b)"
proof -
  define n where "n = chunk_count_for (index b - client)"
  have n: "1 \<le> n" "client + n \<le> head_index s"
    using assms chunk_count_bounds [of "index b - client"] by (simp_all add: n_def)
  have len: "length (fetch s (client + 1) (client + n + 1)) = nat n"
    using assms(1) n fetch_all [of client "client + n" s] by simp
  have "get_chunks_exact client n b s = (fetch s (client + 1) (client + n + 1), b)"
    using assms(2,3) n len by (simp add: get_chunks_exact_def Let_def min_def add.commute add.left_commute)
  moreover have "fetch s (client + 1) (client + n + 1) \<noteq> []" using len n by force
  ultimately have "client_turn x client b s = (Send (fetch s (client + 1) (client + n + 1)) (client + n), b)"
    by (simp add: client_turn_def optimized_read Let_def flip: n_def)
  with n that show thesis by blast
qed

lemma read_on_all:
  assumes "\<And>k. client < k \<Longrightarrow> k \<le> head_index s \<Longrightarrow> chunks s k \<noteq> None"
    and "index b = head_index s" and "client \<le> head_index s" and "nat (head_index s - client) \<le> n"
  shows "read_on n client b s = (chunk_bytes s client (head_index s), head_index s)"
  using assms
proof (induction n arbitrary: client)
  case 0
  then show ?case by (simp add: chunk_bytes_def map_filter_simps)
next
  case (Suc n)
  show ?case
  proof (cases "client = head_index s")
    case True
    then have "fst (get_chunks_exact client 1 b s) = []" "snd (get_chunks_exact client 1 b s) = b"
      by (simp_all add: get_chunks_exact_def)
    then have "client_turn 0 client b s = (Wait, b)"
      using True Suc.prems(2) by (simp add: client_turn_def optimized_read Let_def chunk_count_for_def read_limits)
    with True show ?thesis by (simp add: chunk_bytes_def map_filter_simps)
  next
    case False
    then have lt: "client < head_index s" using Suc.prems(3) by simp
    obtain k where k: "1 \<le> k" "client + k \<le> head_index s"
      and turn: "client_turn 0 client b s = (Send (fetch s (client + 1) (client + k + 1)) (client + k), b)"
      using client_read [OF Suc.prems(1,2) lt] by metis
    have "read_on n (client + k) b s = (chunk_bytes s (client + k) (head_index s), head_index s)"
      using Suc.prems k by (intro Suc.IH) auto
    then show ?thesis
      using k turn chunk_bytes_append [of client "client + k" "head_index s" s]
      by (simp add: fetch_bytes)
  qed
qed

section \<open>The binary search\<close>

text \<open>Of a range of chunks only the newest are left.\<close>

definition newest_left :: "(int \<Rightarrow> bool) \<Rightarrow> int \<Rightarrow> int \<Rightarrow> bool" where
  "newest_left there first_id last_id \<longleftrightarrow>
     (\<forall>i j. first_id \<le> i \<and> i \<le> j \<and> j \<le> last_id \<and> there i \<longrightarrow> there j)"

lemma search_oldest_least:
  assumes "newest_left there first_id last_id"
    and "first_id \<le> low" and "low \<le> high + 1" and "high \<le> result" and "result \<le> high + 1"
    and "there result" and "low \<le> result" and "result \<le> last_id"
    and "\<forall>i. first_id \<le> i \<and> i < low \<longrightarrow> \<not> there i"
    and "r = search_oldest there low high result"
  shows "there r \<and> first_id \<le> r \<and> r \<le> last_id \<and> (\<forall>i. first_id \<le> i \<and> i < r \<longrightarrow> \<not> there i)"
  using assms
proof (induction there low high result rule: search_oldest.induct)
  case (1 there low high result)
  show ?case
  proof (cases "high < low")
    case True
    with 1(4-) show ?thesis by (auto simp: search_oldest.simps [of there low high result])
  next
    case False
    let ?mid = "(low + high) div 2"
    have mid: "low \<le> ?mid" "?mid \<le> high" using False by auto
    show ?thesis
    proof (cases "there ?mid")
      case True
      have "r = search_oldest there low (?mid - 1) ?mid"
        using 1(12) False True by (simp add: search_oldest.simps [of there low high result] Let_def)
      then show ?thesis using False True mid 1(4-11) by (intro 1(1) [OF False refl True 1(3)]) auto
    next
      case gone: False
      have "r = search_oldest there (?mid + 1) high result"
        using 1(12) False gone by (simp add: search_oldest.simps [of there low high result] Let_def)
      moreover have "?mid \<noteq> result" using gone 1(8) by metis
      moreover have "\<not> there i" if "first_id \<le> i" "i < ?mid + 1" for i
      proof -
        have "i \<le> ?mid" "?mid \<le> last_id" using that(2) mid 1(6,10) by auto
        then show ?thesis using that(1) gone 1(3) unfolding newest_left_def by blast
      qed
      ultimately show ?thesis using False gone mid 1(4-10) by (intro 1(2) [OF False refl gone 1(3)]) auto
    qed
  qed
qed

lemma search_oldest_range:
  "first_id \<le> result \<Longrightarrow> result \<le> last_id \<Longrightarrow> first_id \<le> low \<Longrightarrow> high \<le> last_id \<Longrightarrow>
   first_id \<le> search_oldest there low high result \<and> search_oldest there low high result \<le> last_id"
proof (induction there low high result rule: search_oldest.induct)
  case (1 there low high result)
  then show ?case
    by (cases "high < low"; cases "there ((low + high) div 2)")
      (simp_all add: search_oldest.simps [of there low high result] Let_def)
qed

lemma find_oldest_none: "\<not> there high \<Longrightarrow> find_oldest_chunk there low high = - 1"
  by (simp add: find_oldest_chunk_def)

lemma find_oldest_available_range:
  "find_oldest_available_chunk client b s = Some i \<Longrightarrow> client \<le> i \<and> i < index b"
  using search_oldest_range [of "client + 1" "index b" "index b" "client + 1" "index b" "\<lambda>i. chunks s i \<noteq> None"]
  by (auto simp: find_oldest_available_chunk_def find_oldest_chunk_def Let_def split: if_splits)

lemma exact_index: "index b \<le> head_index s \<Longrightarrow>
    index b \<le> index (snd (get_chunks_exact i n b s)) \<and> index (snd (get_chunks_exact i n b s)) \<le> head_index s"
proof -
  have "length (fetch s (i + 1) (min (i + 1 + n) (head_index s + 1))) \<le> nat (min (i + 1 + n) (head_index s + 1) - (i + 1))"
    unfolding fetch_def map_filter_def by (simp add: order.trans [OF length_filter_le])
  then show "index b \<le> head_index s \<Longrightarrow>
    index b \<le> index (snd (get_chunks_exact i n b s)) \<and> index (snd (get_chunks_exact i n b s)) \<le> head_index s"
    by (auto simp: get_chunks_exact_def Let_def)
qed

section \<open>Properties\<close>

text \<open>
  C35: Nothing that comes in is lost, repeated or moved: whatever pieces the bytes arrive in, the
  chunks stored since, the packets waiting and the part of a packet kept make up exactly the
  bytes that came in; every chunk has the one size, and what waits is less than a chunk of
  whole packets and less than a packet.
\<close>

theorem stream_bytes_kept:
  assumes "0 < n" and "TS_PACKET_SIZE dvd n" and "b = new_buffer s n ttl"
  shows "\<exists>b' s'. feed ps b s = Some (b', s') \<and>
    chunk_bytes s' (head_index s) (head_index s') @ write_buffer b' @ partial_packet b' =
      concat (map snd ps) \<and>
    buffer_ok (head_index s) b' s'"
proof -
  have "buffer_ok (head_index s) b s" using assms by (simp add: new_buffer_ok)
  then obtain b' s' where "feed ps b s = Some (b', s')" "buffer_ok (head_index s) b' s'"
      "bytes_since (head_index s) b' s' = bytes_since (head_index s) b s @ concat (map snd ps)"
    using feed_spec [of "head_index s" b s ps] by blast
  moreover have "bytes_since (head_index s) b s = []" by (simp add: assms(3) new_buffer_bytes)
  ultimately show ?thesis by (auto simp: bytes_since_def)
qed

definition ex_store :: chunk_store where
  "ex_store = \<lparr>head_index = 0, chunks = (\<lambda>_. None), stamps = []\<rparr>"

lemma stream_bytes_kept_witness:
  "\<exists>b' s'. feed [(1, [1, 2]), (2, replicate 300 3)] (new_buffer ex_store 188 60) ex_store = Some (b', s') \<and>
    chunk_bytes s' 0 (head_index s') @ write_buffer b' @ partial_packet b' = [1, 2] @ replicate 300 3"
  using stream_bytes_kept [of 188 "new_buffer ex_store 188 60" ex_store 60 "[(1, [1, 2]), (2, replicate 300 3)]"]
  by (auto simp: TS_PACKET_SIZE_def ex_store_def)

text \<open>
  C36: A client that starts where the stream did and reads until it is at the head has been sent
  every byte stored, in order: with what still waits in the buffer, all that came in.
\<close>

theorem reader_gets_every_byte:
  assumes "0 < n" and "TS_PACKET_SIZE dvd n" and "feed ps (new_buffer s n ttl) s = Some (b', s')"
    and "nat (head_index s' - head_index s) \<le> reads"
  shows "snd (read_on reads (head_index s) b' s') = head_index s' \<and>
    fst (read_on reads (head_index s) b' s') @ write_buffer b' @ partial_packet b' = concat (map snd ps)"
proof -
  obtain b1 s1 where "feed ps (new_buffer s n ttl) s = Some (b1, s1)" "buffer_ok (head_index s) b1 s1"
      "bytes_since (head_index s) b1 s1 = concat (map snd ps)"
    using feed_spec [OF new_buffer_ok [OF assms(1,2), of s ttl], of ps] by (auto simp: new_buffer_bytes)
  then have ok: "buffer_ok (head_index s) b' s'" and bytes: "bytes_since (head_index s) b' s' = concat (map snd ps)"
    using assms(3) by simp_all
  have "read_on reads (head_index s) b' s' = (chunk_bytes s' (head_index s) (head_index s'), head_index s')"
    using ok assms(4) by (intro read_on_all) (auto simp: buffer_ok_def stored_ok_def)
  with bytes show ?thesis by (simp add: bytes_since_def)
qed

lemma reader_gets_every_byte_witness:
  "\<exists>b' s'. feed [(1, replicate 188 (7::8 word))] (new_buffer ex_store 188 60) ex_store = Some (b', s') \<and>
    fst (read_on (nat (head_index s')) 0 b' s') @ write_buffer b' @ partial_packet b' = replicate 188 7"
proof -
  have h: "head_index ex_store = 0" by (simp add: ex_store_def)
  have n: "(0::nat) < 188" "TS_PACKET_SIZE dvd 188" by (simp_all add: TS_PACKET_SIZE_def)
  obtain b' s' where f: "feed [(1, replicate 188 (7::8 word))] (new_buffer ex_store 188 60) ex_store = Some (b', s')"
    using feed_spec [OF new_buffer_ok [OF n, of ex_store 60], of "[(1, replicate 188 7)]"] by blast
  then show ?thesis
    using reader_gets_every_byte [OF n f, of "nat (head_index s')"] h by auto
qed

text \<open>
  When the chunks left are the newest ones, the binary search run in Redis finds the oldest of
  them, as a scan from the low end would; it ends on any chunks.
\<close>

theorem oldest_chunk_exact:
  assumes "0 \<le> client" and "client < index b" and "chunks s (index b) \<noteq> None"
    and "newest_left (\<lambda>i. chunks s i \<noteq> None) (client + 1) (index b)"
  shows "find_oldest_available_chunk client b s =
         map_option (\<lambda>i. i - 1) (List.find (\<lambda>i. chunks s i \<noteq> None) [client + 1..index b])"
proof -
  let ?there = "\<lambda>i. chunks s i \<noteq> None"
  define r where "r = search_oldest ?there (client + 1) (index b) (index b)"
  have r: "?there r \<and> client + 1 \<le> r \<and> r \<le> index b \<and> (\<forall>i. client + 1 \<le> i \<and> i < r \<longrightarrow> \<not> ?there i)"
    by (rule search_oldest_least [where first_id = "client + 1" and last_id = "index b" and
          low = "client + 1" and high = "index b" and result = "index b"])
      (use assms in \<open>auto simp: r_def\<close>)
  have "find_oldest_available_chunk client b s = Some (r - 1)"
  proof -
    have "find_oldest_chunk ?there (client + 1) (index b) = r"
      unfolding find_oldest_chunk_def r_def using assms(3) by simp
    then show ?thesis
      unfolding find_oldest_available_chunk_def Let_def using assms(1,2) r by auto
  qed
  moreover have "List.find ?there [client + 1..index b] = Some r"
  proof -
    have "[client + 1..index b] = [client + 1..r - 1] @ r # [r + 1..index b]"
      using r upto_rec1 [of r "index b"] upto_split1 [of "client + 1" r "index b"] by simp
    moreover have "List.find ?there [client + 1..r - 1] = None"
      using r by (simp add: find_None_iff)
    ultimately show ?thesis using r by (simp add: find_append)
  qed
  ultimately show ?thesis by simp
qed

definition ex_expired :: chunk_store where
  "ex_expired = \<lparr>head_index = 9, chunks = (\<lambda>i. if 6 \<le> i \<and> i \<le> 9 then Some [0] else None), stamps = []\<rparr>"

definition ex_buffer :: stream_buffer where
  "ex_buffer = new_buffer ex_expired 188 60"

lemma ex_buffer_index [simp]: "index ex_buffer = 9"
  by (simp add: ex_buffer_def new_buffer_def ex_expired_def)

lemma oldest_chunk_exact_witness:
  "find_oldest_available_chunk 0 ex_buffer ex_expired =
     map_option (\<lambda>i. i - 1) (List.find (\<lambda>i. chunks ex_expired i \<noteq> None) [1..9])"
proof -
  have "newest_left (\<lambda>i. chunks ex_expired i \<noteq> None) (0 + 1) (index ex_buffer)"
    by (simp add: newest_left_def ex_expired_def)
  moreover have "chunks ex_expired (index ex_buffer) \<noteq> None" by (simp add: ex_expired_def)
  ultimately show ?thesis using oldest_chunk_exact [of 0 ex_buffer ex_expired] by simp
qed

text \<open>
  A turn sends a client at most twenty chunks, the ones stored under the numbers it moves
  over and no others; it never goes back, and never past the newest chunk known.
\<close>

theorem client_turn_bounds:
  assumes "index b \<le> head_index s" and "client \<le> head_index s" and "0 \<le> initial_behind"
    and "client_turn initial_behind client b s = (turn, b')"
  shows "(case turn of
      Send found next \<Rightarrow> length found \<le> 20 \<and> found = fetch s (client + 1) (next + 1) \<and>
        client < next \<and> next \<le> head_index s
    | Jump next \<Rightarrow> client \<le> next \<and> next \<le> head_index s
    | Wait \<Rightarrow> True) \<and> index b \<le> index b' \<and> index b' \<le> head_index s"
proof -
  define n where "n = chunk_count_for (index b - client)"
  define r where "r = get_chunks_exact client n b s"
  define nxt where "nxt = (if 3 < n \<and> fst r = [] \<and> 10 < index b - client then client else client + n)"
  have n: "1 \<le> n" "n \<le> 20" "index b - client \<ge> 1 \<Longrightarrow> n \<le> index b - client" "index b - client \<le> 1 \<Longrightarrow> n = 1"
    using chunk_count_bounds [of "index b - client"]
    by (simp_all add: n_def read_limits) (simp add: chunk_count_for_def read_limits)
  have read: "get_optimized_client_data client b s = ((fst r, nxt), snd r)"
    by (simp add: optimized_read Let_def n_def r_def nxt_def)
  have idx: "index b \<le> index (snd r)" "index (snd r) \<le> head_index s"
    using exact_index [OF assms(1)] by (simp_all add: r_def)
  show ?thesis
  proof (cases "fst r = []")
    case False
    then have turn: "turn = Send (fst r) nxt" "b' = snd r" "nxt = client + n"
      using assms(4) by (simp_all add: client_turn_def read nxt_def)
    have lt: "client < head_index s" using False by (simp add: r_def get_chunks_exact_def Let_def split: if_splits)
    have le: "client + n \<le> head_index s" using n(3,4) lt assms(1) by (cases "1 \<le> index b - client") auto
    have "fst r = fetch s (client + 1) (nxt + 1)"
      using lt le turn(3) by (simp add: r_def get_chunks_exact_def Let_def min_def add.commute add.left_commute)
    moreover have "length (fetch s (client + 1) (nxt + 1)) \<le> nat n"
      using turn(3) unfolding fetch_def map_filter_def by (simp add: order.trans [OF length_filter_le])
    ultimately show ?thesis using turn n(1,2) le idx by simp
  next
    case True
    then have "turn = (if 0 < index (snd r) - client then
          Jump (case find_oldest_available_chunk client (snd r) s of
                  Some i \<Rightarrow> i | None \<Rightarrow> max client (index (snd r) - initial_behind)) else Wait)" "b' = snd r"
      using assms(4) by (auto simp: client_turn_def read split: if_splits)
    then show ?thesis
      using idx assms(2,3) find_oldest_available_range [of client "snd r" s] by (auto split: option.split)
  qed
qed

lemma client_turn_bounds_witness:
  "\<exists>found next b'. client_turn 4 5 ex_buffer ex_expired = (Send found next, b') \<and> next \<le> 9"
proof -
  obtain n where "client_turn 4 5 ex_buffer ex_expired =
      (Send (fetch ex_expired (5 + 1) (5 + n + 1)) (5 + n), ex_buffer)"
    by (rule client_read [of 5 ex_expired ex_buffer 4]) (simp_all add: ex_expired_def)
  then show ?thesis
    using client_turn_bounds [of ex_buffer ex_expired 5 4] by (auto simp: ex_expired_def)
qed

text \<open>
  A client a few chunks behind a head whose chunks have all expired is sent round the loop at
  once, from the same place: it neither waits nor comes to the checks for a ghost and for a
  timeout, which only a turn that waits makes, for as long as nothing new is stored.
\<close>

theorem expired_client_spins:
  assumes "client < index b" and "index b - client \<le> initial_behind" and "index b \<le> head_index s"
    and "\<And>k. client < k \<Longrightarrow> k \<le> index b \<Longrightarrow> chunks s k = None"
  shows "client_turn initial_behind client b s = (Jump client, b)"
proof -
  define n where "n = chunk_count_for (index b - client)"
  have n: "1 \<le> n" "n \<le> index b - client"
    using chunk_count_bounds [of "index b - client"] assms(1) by (simp_all add: n_def)
  have "fetch s (client + 1) (min (client + 1 + n) (head_index s + 1)) = []"
    unfolding fetch_def map_filter_def using n assms(3,4) by (simp add: filter_empty_conv)
  then have none: "get_chunks_exact client n b s = ([], b)"
    by (simp add: get_chunks_exact_def Let_def)
  have "find_oldest_available_chunk client b s = None"
    using assms(1,4) by (simp add: find_oldest_available_chunk_def find_oldest_none Let_def)
  then show ?thesis
    using assms(1,2) none by (simp add: client_turn_def optimized_read Let_def max_def flip: n_def)
qed

lemma expired_client_spins_witness:
  "client_turn 4 7 (ex_buffer\<lparr>index := 9\<rparr>) (ex_expired\<lparr>chunks := (\<lambda>_. None)\<rparr>) =
     (Jump 7, ex_buffer\<lparr>index := 9\<rparr>)"
  by (rule expired_client_spins) (simp_all add: ex_expired_def)

end
