(* ===== verification/Catchup_Ranges.thy ===== *)
theory Catchup_Ranges
  imports Prelude Complex_Main
begin

text \<open>
  The byte ranges of catch-up streams (\<^verbatim>\<open>apps/timeshift/views.py\<close>): the client's and the
  provider's range headers, the ranges of a presentation inside the archive it was cut from,
  the length headers sent downstream, which requests are probes of the end or a restart, and
  where in an open archive a time lies. Times are read by \<open>parse_catchup_timestamp\<close>, whose
  answers are arguments, in seconds; floats are reals.
\<close>

section \<open>Prefixes and numbers\<close>

definition after_prefix :: "string \<Rightarrow> string \<Rightarrow> string option" where
  "after_prefix p s = (if starts_with s p then Some (drop (length p) s) else None)"

lemma after_prefix_append [simp]: "after_prefix p (p @ s) = Some s"
  by (simp add: after_prefix_def)

text \<open>\<open>int(s) if s else d\<close>; \<open>None\<close> outside is the \<open>ValueError\<close>.\<close>

definition int_or :: "'a \<Rightarrow> (int \<Rightarrow> 'a) \<Rightarrow> string \<Rightarrow> 'a option" where
  "int_or d f s = (if s = [] then Some d else map_option f (parse_int s))"

section \<open>Range headers\<close>

definition parse_client_range :: "string option \<Rightarrow> (int \<times> int option) option" where
  "parse_client_range header =
     (case Option.bind header (\<lambda>h. Option.bind (after_prefix ''bytes='' h) (split_first (CHR ''-''))) of
        None \<Rightarrow> None
      | Some (start_str, end_str) \<Rightarrow>
          (case (int_or 0 id start_str, int_or None Some end_str) of
             (Some start, Some end_at) \<Rightarrow> Some (start, end_at)
           | _ \<Rightarrow> None))"

definition parse_range_start :: "string option \<Rightarrow> int option" where
  "parse_range_start header = map_option fst (parse_client_range header)"

text \<open>A client range as the code writes it.\<close>

definition client_range_text :: "int \<Rightarrow> int option \<Rightarrow> string" where
  "client_range_text start end_at =
     ''bytes='' @ dec start @ CHR ''-'' # (case end_at of None \<Rightarrow> [] | Some e \<Rightarrow> dec e)"

record content_range =
  range_start :: int
  range_end :: "int option"
  range_total :: "int option"

definition parse_content_range_header :: "string \<Rightarrow> content_range option" where
  "parse_content_range_header header =
     (case Option.bind (after_prefix ''bytes '' header) (split_last (CHR ''/'')) of
        None \<Rightarrow> None
      | Some (range_part, total_part) \<Rightarrow>
          (case split_first (CHR ''-'') range_part of
             None \<Rightarrow> None
           | Some (start_str, end_str) \<Rightarrow>
               (case (int_or 0 id start_str, int_or None Some end_str,
                      if total_part = ''*'' then Some None else map_option Some (parse_int total_part)) of
                  (Some start, Some end_at, Some whole) \<Rightarrow>
                    Some \<lparr>range_start = start, range_end = end_at, range_total = whole\<rparr>
                | _ \<Rightarrow> None)))"

definition content_range_text :: "int \<Rightarrow> int \<Rightarrow> int \<Rightarrow> string" where
  "content_range_text start end_at whole =
     ''bytes '' @ dec start @ CHR ''-'' # dec end_at @ CHR ''/'' # dec whole"

text \<open>The provider's answer: its \<^verbatim>\<open>Content-Range\<close> (empty when absent) and \<^verbatim>\<open>Content-Length\<close>.\<close>

definition extract_representation_length :: "string \<Rightarrow> string \<Rightarrow> int option" where
  "extract_representation_length upstream_range content_length =
     (case Option.bind (parse_content_range_header upstream_range) range_total of
        Some n \<Rightarrow> Some n
      | None \<Rightarrow> (if content_length = [] then None else parse_int content_length))"

section \<open>A presentation inside an archive\<close>

definition map_client_range_through_presentation :: "string option \<Rightarrow> int option \<Rightarrow> string option" where
  "map_client_range_through_presentation header byte_base =
     (case (byte_base, parse_client_range header) of
        (Some base, Some (start, end_at)) \<Rightarrow>
          Some (client_range_text (base + start) (map_option (\<lambda>e. base + e) end_at))
      | _ \<Rightarrow> header)"

definition presentation_relative_content_range :: "string \<Rightarrow> int option \<Rightarrow> int option \<Rightarrow> string" where
  "presentation_relative_content_range upstream byte_base pres_length =
     (case (byte_base, pres_length, parse_content_range_header upstream) of
        (Some base, Some len, Some r) \<Rightarrow>
          (case range_end r of
             None \<Rightarrow> upstream
           | Some e \<Rightarrow>
               (let rel_start = range_start r - base; rel_end = e - base in
                if rel_start < 0 \<or> rel_end < rel_start then upstream
                else content_range_text rel_start rel_end len))
      | _ \<Rightarrow> upstream)"

definition cap_open_ended_range :: "string option \<Rightarrow> int option \<Rightarrow> string option" where
  "cap_open_ended_range header max_span =
     (case (parse_client_range header, max_span) of
        (Some (start, None), Some n) \<Rightarrow>
          (if n \<le> 0 then header else Some (client_range_text start (Some (start + n - 1))))
      | _ \<Rightarrow> header)"

section \<open>Length headers\<close>

definition build_downstream_length_headers ::
  "string option \<Rightarrow> int \<Rightarrow> int option \<Rightarrow> string \<Rightarrow> string \<Rightarrow> bool \<Rightarrow> (string \<times> string) list" where
  "build_downstream_length_headers header status rep_length upstream_range upstream_length streaming =
     (let parsed = (if upstream_range = [] then None else parse_content_range_header upstream_range);
          known = (case rep_length of Some n \<Rightarrow> Some n | None \<Rightarrow> Option.bind parsed range_total);
          no_range = (case header of None \<Rightarrow> True | Some h \<Rightarrow> h = []);
          full = (case known of
                    Some n \<Rightarrow> [(''Content-Length'', dec n)]
                  | None \<Rightarrow> (if upstream_length = [] then [] else [(''Content-Length'', upstream_length)]))
      in (''Accept-Ranges'', ''bytes'') #
         (if status = 206 then
            (if upstream_range \<noteq> [] then [(''Content-Range'', upstream_range)]
             else case (parse_client_range header, known) of
                    (Some (start, end_at), Some n) \<Rightarrow>
                      [(''Content-Range'', content_range_text start
                          (case end_at of None \<Rightarrow> n - 1 | Some e \<Rightarrow> min e (n - 1)) n)]
                  | _ \<Rightarrow> []) @
            (if upstream_length \<noteq> [] then [(''Content-Length'', upstream_length)]
             else case Option.bind parsed range_end of
                    Some e \<Rightarrow> [(''Content-Length'', dec (e - (case parsed of Some r \<Rightarrow> range_start r | None \<Rightarrow> 0) + 1))]
                  | None \<Rightarrow> [])
          else if streaming \<and> status = 200 \<and> no_range then full
          else if \<not> streaming then full
          else []))"

section \<open>What a request is\<close>

definition EOF_PROBE_TAIL_BYTES :: int where "EOF_PROBE_TAIL_BYTES = 2097152"
definition EOF_PROBE_UNKNOWN_LENGTH_MIN :: int where "EOF_PROBE_UNKNOWN_LENGTH_MIN = 100000000"

text \<open>\<open>length_text\<close> is the length kept for the session, where there is one.\<close>

definition is_near_eof_probe :: "string option \<Rightarrow> string option \<Rightarrow> bool" where
  "is_near_eof_probe header length_text =
     (case parse_range_start header of
        None \<Rightarrow> False
      | Some start \<Rightarrow>
          (case Option.bind length_text parse_int of
             Some whole \<Rightarrow> max 0 (whole - EOF_PROBE_TAIL_BYTES) \<le> start
           | None \<Rightarrow> EOF_PROBE_UNKNOWN_LENGTH_MIN \<le> start))"

definition is_full_restart_range :: "string option \<Rightarrow> bool" where
  "is_full_restart_range header =
     (case header of
        None \<Rightarrow> True
      | Some h \<Rightarrow> h = [] \<or> parse_client_range header = Some (0, None))"

definition should_displace_busy_playback :: "string option \<Rightarrow> string option \<Rightarrow> string option \<Rightarrow> bool" where
  "should_displace_busy_playback header length_text serving_range =
     (case parse_range_start header of
        None \<Rightarrow> False
      | Some start \<Rightarrow>
          \<not> is_near_eof_probe header length_text \<and>
          (if start = 0 then serving_range = Some ''none'' else True))"

definition should_displace_busy_pool ::
  "string option \<Rightarrow> string option \<Rightarrow> string option \<Rightarrow> string option \<Rightarrow> string \<Rightarrow> bool" where
  "should_displace_busy_pool header length_text serving_range pool_media media =
     ((case pool_media of None \<Rightarrow> True | Some m \<Rightarrow> m = media) \<and>
      should_displace_busy_playback header length_text serving_range)"

definition should_preempt_plain_reconnect ::
  "string option \<Rightarrow> bool \<Rightarrow> bool \<Rightarrow> string option \<Rightarrow> string \<Rightarrow> bool" where
  "should_preempt_plain_reconnect header pool_exists pool_busy pool_media media \<longleftrightarrow>
     is_full_restart_range header \<and> pool_exists \<and> pool_busy \<and>
     (case pool_media of None \<Rightarrow> True | Some m \<Rightarrow> m = media)"

text \<open>\<open>_store_pool_serving_range\<close>, the value kept.\<close>

definition serving_range_of :: "string option \<Rightarrow> string" where
  "serving_range_of header =
     (case header of
        None \<Rightarrow> ''none''
      | Some h \<Rightarrow>
          (if h = [] then ''none'' else if parse_range_start header = Some 0 then ''start'' else ''range''))"

section \<open>A time in an open archive\<close>

datatype scrub = Same int | Scrub int int

text \<open>
  \<open>_resolve_session_archive_scrub\<close>: the archive's length in bytes and its duration, and the times
  asked for and of the archive's start, where they can be read.
\<close>

definition resolve_session_archive_scrub ::
  "bool \<Rightarrow> int option \<Rightarrow> real option \<Rightarrow> real option \<Rightarrow> real option \<Rightarrow> scrub option" where
  "resolve_session_archive_scrub has_url len duration requested anchor =
     (case (len, duration, requested, anchor) of
        (Some n, Some d, Some t, Some a) \<Rightarrow>
          (if \<not> has_url \<or> n \<le> 0 \<or> d \<le> 0 then None
           else
             (let offset_secs = t - a in
              if \<bar>offset_secs\<bar> < 1 then Some (Same n)
              else if offset_secs < 0 \<or> d \<le> offset_secs then None
              else
                (let byte_offset = \<lfloor>offset_secs / d * of_int n\<rfloor> div 188 * 188;
                     remaining = n - byte_offset
                 in if remaining \<le> 0 then None else Some (Scrub byte_offset remaining))))
      | _ \<Rightarrow> None)"

section \<open>Lemmas\<close>

lemma dec_no_dash: "0 \<le> i \<Longrightarrow> CHR ''-'' \<notin> set (dec i)"
proof -
  have "\<not> is_digit (CHR ''-'')" by (simp add: is_digit_def)
  then show "0 \<le> i \<Longrightarrow> ?thesis" using nat_dec_digits [of "nat i"] by (auto simp: dec_def)
qed

lemma dec_no_slash: "CHR ''/'' \<notin> set (dec i)"
proof -
  have "\<not> is_digit (CHR ''/'')" by (simp add: is_digit_def)
  then show ?thesis using nat_dec_digits by (auto simp: dec_def)
qed

lemma int_or_dec [simp]: "int_or d f (dec i) = Some (f i)"
  by (simp add: int_or_def)

lemma int_or_empty [simp]: "int_or d f [] = Some d"
  by (simp add: int_or_def)

lemma parse_client_range_text:
  "0 \<le> start \<Longrightarrow> parse_client_range (Some (client_range_text start end_at)) = Some (start, end_at)"
  unfolding parse_client_range_def client_range_text_def Option.bind.simps after_prefix_append
  by (simp add: split_first_append [OF dec_no_dash] split: option.split)

lemma parse_content_range_text:
  assumes "0 \<le> start"
  shows "parse_content_range_header (content_range_text start end_at whole) =
    Some \<lparr>range_start = start, range_end = Some end_at, range_total = Some whole\<rparr>"
proof -
  have body: "dec start @ CHR ''-'' # dec end_at @ CHR ''/'' # dec whole =
      (dec start @ CHR ''-'' # dec end_at) @ CHR ''/'' # dec whole" by simp
  have "dec whole \<noteq> ''*''"
  proof
    assume "dec whole = ''*''"
    then have "parse_int ''*'' = Some whole" by (metis parse_dec)
    moreover have "parse_int ''*'' = None" by code_simp
    ultimately show False by simp
  qed
  then show ?thesis
    unfolding parse_content_range_header_def content_range_text_def after_prefix_append Option.bind.simps body
      split_last_append [OF dec_no_slash] option.case prod.case split_first_append [OF dec_no_dash [OF assms]]
    by simp
qed

section \<open>Properties\<close>

lemma packet_floor_bounds:
  fixes x :: int
  shows "x div 188 * 188 \<le> x" "x < x div 188 * 188 + 188"
  using div_mult_mod_eq [of x 188] pos_mod_bound [of 188 x] pos_mod_sign [of 188 x] by linarith+

text \<open>
  A client that asks for bytes start to e of a presentation is given exactly those: the provider
  is asked for the same bytes of the archive, base further on, and when it answers with that range
  the header sent to the client names the range it asked for, out of the presentation's length.
\<close>

theorem presentation_round_trip:
  assumes "0 \<le> base" "0 \<le> start" "start \<le> e"
  shows "parse_client_range (map_client_range_through_presentation
             (Some (client_range_text start (Some e))) (Some base)) = Some (base + start, Some (base + e)) \<and>
         presentation_relative_content_range (content_range_text (base + start) (base + e) whole)
             (Some base) (Some len) = content_range_text start e len"
proof
  have "0 \<le> base + start" using assms by simp
  then show "parse_client_range (map_client_range_through_presentation
             (Some (client_range_text start (Some e))) (Some base)) = Some (base + start, Some (base + e))"
    by (simp add: map_client_range_through_presentation_def parse_client_range_text assms)
  show "presentation_relative_content_range (content_range_text (base + start) (base + e) whole)
             (Some base) (Some len) = content_range_text start e len"
    using assms \<open>0 \<le> base + start\<close>
    by (simp add: presentation_relative_content_range_def parse_content_range_text Let_def)
qed

lemma presentation_round_trip_witness:
  "parse_client_range (map_client_range_through_presentation
       (Some (client_range_text 188 (Some 375))) (Some 9400)) = Some (9588, Some 9775)"
  using presentation_round_trip [of 9400 188 375 100000 20000] by simp

text \<open>
  C38: Where a time lands in an open archive: on a packet boundary inside the archive, at most one packet
  before the byte the time stands for, with the rest of the archive remaining; and of two times the
  later never lands before the earlier.
\<close>

theorem scrub_in_archive:
  assumes "resolve_session_archive_scrub True (Some n) (Some d) (Some t) (Some a) = Some (Scrub off left)"
  shows "0 \<le> off \<and> off < n \<and> off mod 188 = 0 \<and> left = n - off \<and>
         of_int off \<le> (t - a) / d * of_int n \<and> (t - a) / d * of_int n < of_int off + 188 \<and>
         (resolve_session_archive_scrub True (Some n) (Some d) (Some t') (Some a) = Some (Scrub off' left') \<longrightarrow>
            t \<le> t' \<longrightarrow> off \<le> off')"
proof -
  have shape: "0 < n \<and> 0 < d \<and> 0 \<le> s - a \<and> s - a < d \<and> o' = \<lfloor>(s - a) / d * of_int n\<rfloor> div 188 * 188 \<and> l' = n - o' \<and> o' < n"
    if "resolve_session_archive_scrub True (Some n) (Some d) (Some s) (Some a) = Some (Scrub o' l')" for s o' l'
    using that by (auto simp: resolve_session_archive_scrub_def Let_def split: if_splits)
  note here = shape [OF assms]
  define x where "x = (t - a) / d * of_int n"
  have "0 \<le> x" using here by (simp add: x_def)
  have off: "off = \<lfloor>x\<rfloor> div 188 * 188" using here by (simp add: x_def)
  have "0 \<le> off" using \<open>0 \<le> x\<close> unfolding off by (simp add: pos_imp_zdiv_nonneg_iff)
  moreover have "of_int off \<le> x" "x < of_int off + 188"
    using packet_floor_bounds [of "\<lfloor>x\<rfloor>"] floor_correct [of x] unfolding off [symmetric] by linarith+
  moreover have "off mod 188 = 0" using here by simp
  moreover have "off \<le> off'" if "resolve_session_archive_scrub True (Some n) (Some d) (Some t') (Some a) =
      Some (Scrub off' left')" "t \<le> t'"
  proof -
    note there = shape [OF that(1)]
    have "x \<le> (t' - a) / d * of_int n"
      unfolding x_def using here that(2) by (intro mult_right_mono divide_right_mono) auto
    then have "\<lfloor>x\<rfloor> div 188 \<le> \<lfloor>(t' - a) / d * of_int n\<rfloor> div 188" by (intro zdiv_mono1 floor_mono) auto
    then show ?thesis using here there by (simp add: x_def)
  qed
  ultimately show ?thesis using here by (auto simp: x_def)
qed

lemma scrub_in_archive_witness:
  "resolve_session_archive_scrub True (Some 188000) (Some 100) (Some 130) (Some 80) = Some (Scrub 94000 94000) \<and>
   of_int 94000 \<le> (130 - 80) / 100 * (188000 :: real)"
proof -
  have run: "resolve_session_archive_scrub True (Some 188000) (Some 100) (Some 130) (Some 80) = Some (Scrub 94000 94000)"
    by (simp add: resolve_session_archive_scrub_def)
  from scrub_in_archive [OF run] run show ?thesis by simp
qed

text \<open>
  A suffix range, the last k bytes of a file, is read as its first k + 1: the provider is asked for
  the start of the presentation, and a 206 that came without a range of its own is labelled as the
  start of the file, never as its end (unless the file is no longer than that).
\<close>

theorem suffix_range_misread:
  assumes "0 < k" "k < n" "upstream_length \<noteq> []"
  shows "parse_client_range (Some (''bytes=-'' @ dec k)) = Some (0, Some k) \<and>
         map_client_range_through_presentation (Some (''bytes=-'' @ dec k)) (Some base) =
           Some (client_range_text base (Some (base + k))) \<and>
         build_downstream_length_headers (Some (''bytes=-'' @ dec k)) 206 (Some n) [] upstream_length streaming =
           [(''Accept-Ranges'', ''bytes''), (''Content-Range'', content_range_text 0 k n),
            (''Content-Length'', upstream_length)]"
proof -
  have body: "''bytes=-'' @ dec k = ''bytes='' @ CHR ''-'' # dec k" by simp
  have parse: "parse_client_range (Some (''bytes=-'' @ dec k)) = Some (0, Some k)"
    unfolding parse_client_range_def body Option.bind.simps after_prefix_append by simp
  then show ?thesis using assms
    by (simp only: map_client_range_through_presentation_def build_downstream_length_headers_def)
       (simp add: Let_def)
qed

lemma suffix_range_misread_witness:
  "parse_client_range (Some (''bytes=-'' @ dec 500)) = Some (0, Some 500)"
  using suffix_range_misread [of 500 10000 "''500''" 0 True] by simp

end
