(* ===== verification/Catchup_Pool.thy ===== *)
theory Catchup_Pool
  imports Connection_Pool Catchup_Ranges
begin

text \<open>
  The provider slot a catch-up viewer keeps across requests (\<^verbatim>\<open>apps/timeshift/views.py\<close>): one pool
  entry per session, busy while a stream of it runs, idle for the viewer's next request; the
  hand-over of the slot from a stream to the one a seek replaces it with; and the stop keys and
  generation counters by which a stream learns it was replaced. A section the code runs under the
  entry's lock is one operation. Stopping the provider's socket, statistics and times to live are
  left out: an entry or a stop key that runs out is removed by the environment.
\<close>

section \<open>Pool entries\<close>

type_synonym entry = "(string \<times> rval) list"

text \<open>A field as the string it is, empty when there is none.\<close>

definition entry_text :: "entry \<Rightarrow> string \<Rightarrow> string" where
  "entry_text d f = (case Option.bind (map_of d f) val_text of None \<Rightarrow> [] | Some t \<Rightarrow> t)"

definition entry_busy :: "entry \<Rightarrow> bool" where
  "entry_busy d \<longleftrightarrow> entry_text d ''busy'' = ''1''"

definition get_pool_entry :: "'s redis_api \<Rightarrow> 's \<Rightarrow> string \<Rightarrow> entry" where
  "get_pool_entry R s sess = (if sess = [] then [] else r_hash R s (Catchup_pool sess))"

definition pool_session_exists :: "'s redis_api \<Rightarrow> 's \<Rightarrow> string \<Rightarrow> bool" where
  "pool_session_exists R s sess \<longleftrightarrow> sess \<noteq> [] \<and> r_exists R s (Catchup_pool sess)"

definition pool_session_busy :: "'s redis_api \<Rightarrow> 's \<Rightarrow> string \<Rightarrow> bool" where
  "pool_session_busy R s sess \<longleftrightarrow> sess \<noteq> [] \<and> entry_busy (r_hash R s (Catchup_pool sess))"

definition pool_entry_owned_by_user :: "entry \<Rightarrow> int \<Rightarrow> bool" where
  "pool_entry_owned_by_user d usr \<longleftrightarrow>
     entry_text d ''profile_id'' = [] \<or>
     (entry_text d ''user_id'' \<noteq> [] \<and> entry_text d ''user_id'' = dec usr)"

record snapshot =
  snap_entry :: entry
  snap_busy :: bool
  snap_range :: "string option"
  snap_length :: "string option"

definition snapshot_from_entry :: "entry \<Rightarrow> snapshot option" where
  "snapshot_from_entry d =
     (if d = [] then None
      else Some \<lparr>snap_entry = d, snap_busy = entry_busy d,
        snap_range = (if entry_busy d
                      then Some (if entry_text d ''serving_range'' = [] then ''none'' else entry_text d ''serving_range'')
                      else None),
        snap_length = Option.bind (map_of d ''content_length'') val_text\<rparr>)"

definition pool_snapshot :: "'s redis_api \<Rightarrow> 's \<Rightarrow> string \<Rightarrow> snapshot option" where
  "pool_snapshot R s sess = snapshot_from_entry (get_pool_entry R s sess)"

definition POOL_ENTRY_TTL :: int where "POOL_ENTRY_TTL = 10 * 60"
definition POOL_IDLE_TTL :: int where "POOL_IDLE_TTL = 60"

section \<open>Finding a viewer's pool\<close>

definition MATCH_SCORE_THRESHOLD :: int where "MATCH_SCORE_THRESHOLD = 8"

definition score_pool_fingerprint :: "entry \<Rightarrow> string \<Rightarrow> string \<Rightarrow> int" where
  "score_pool_fingerprint d ip agent =
     (if entry_text d ''client_ip'' \<noteq> [] \<and> entry_text d ''client_ip'' = ip then 5 else 0) +
     (if entry_text d ''client_user_agent'' \<noteq> [] \<and> entry_text d ''client_user_agent'' = agent then 3 else 0)"

text \<open>\<open>float(data.get("last_activity") or "0")\<close>; an entry whose field is no number is skipped.\<close>

definition last_activity :: "entry \<Rightarrow> real option" where
  "last_activity d =
     (case map_of d ''last_activity'' of
        None \<Rightarrow> Some 0
      | Some (VTime t) \<Rightarrow> Some t
      | Some (VInt n) \<Rightarrow> Some (of_int n)
      | Some (VStr t) \<Rightarrow> (if t = [] then Some 0 else None)
      | Some _ \<Rightarrow> None)"

text \<open>Whether an entry can be adopted at all: \<open>Some exact\<close>, whether it is at the very position.\<close>

definition pool_match ::
  "string \<Rightarrow> int \<Rightarrow> int option \<Rightarrow> bool \<Rightarrow> bool \<Rightarrow> entry \<Rightarrow> bool option" where
  "pool_match media usr channel include_busy fresh d =
     (let stored = entry_text d ''media_id''; exact = (stored = media) in
      if d = [] \<or> (\<not> include_busy \<and> entry_busy d) \<or> entry_text d ''user_id'' \<noteq> dec usr then None
      else if \<not> exact \<and> \<not> (case channel of None \<Rightarrow> False | Some c \<Rightarrow> starts_with stored (dec c @ ''_'')) then None
      else if fresh \<and> exact \<and> \<not> entry_busy d then None
      else Some exact)"

type_synonym candidate = "string \<times> bool \<times> int \<times> real"

definition pool_candidate ::
  "string \<Rightarrow> int \<Rightarrow> string \<Rightarrow> string \<Rightarrow> int option \<Rightarrow> bool \<Rightarrow> bool \<Rightarrow> string \<Rightarrow> entry \<Rightarrow> candidate option" where
  "pool_candidate media usr ip agent channel include_busy fresh sess d =
     (case pool_match media usr channel include_busy fresh d of
        None \<Rightarrow> None
      | Some exact \<Rightarrow>
          (let score = score_pool_fingerprint d ip agent in
           if score < MATCH_SCORE_THRESHOLD then None
           else map_option (\<lambda>t. (sess, exact, score, t)) (last_activity d)))"

text \<open>Sorted by \<open>(exact, score, last_activity)\<close>, highest first; among equals the one scanned first.\<close>

fun better :: "candidate \<Rightarrow> candidate \<Rightarrow> bool" where
  "better (_, x, p, t) (_, y, q, u) \<longleftrightarrow>
     (x \<and> \<not> y) \<or> (x = y \<and> (q < p \<or> (q = p \<and> u < t)))"

fun best_candidate :: "candidate list \<Rightarrow> candidate option" where
  "best_candidate [] = None"
| "best_candidate (c # cs) =
     Some (case best_candidate cs of None \<Rightarrow> c | Some b \<Rightarrow> (if better b c then b else c))"

text \<open>The sessions are those the scan finds, in its order.\<close>

definition find_matching_pool_session ::
  "'s redis_api \<Rightarrow> string list \<Rightarrow> string \<Rightarrow> int \<Rightarrow> string \<Rightarrow> string \<Rightarrow> int option \<Rightarrow> bool \<Rightarrow> bool \<Rightarrow> 's \<Rightarrow> string option" where
  "find_matching_pool_session R sessions media usr ip agent channel include_busy fresh s =
     map_option fst (best_candidate (List.map_filter
       (\<lambda>sess. pool_candidate media usr ip agent channel include_busy fresh sess
                 (r_hash R s (Catchup_pool sess))) sessions))"

section \<open>Taking and giving back\<close>

definition acquire_idle_pool_session ::
  "'s redis_api \<Rightarrow> logins \<Rightarrow> env \<Rightarrow> string \<Rightarrow> int option \<Rightarrow> bool \<Rightarrow> 's \<Rightarrow> (entry \<times> profile) option \<times> 's" where
  "acquire_idle_pool_session R L e sess usr handoff s =
     (let key = Catchup_pool sess; d = r_hash R s key in
      if sess = [] \<or> d = [] \<or> entry_text d ''profile_id'' = [] then (None, s)
      else if (case usr of None \<Rightarrow> False | Some u \<Rightarrow> \<not> pool_entry_owned_by_user d u) then (None, s)
      else if entry_busy d \<and> \<not> handoff then (None, s)
      else case parse_int (entry_text d ''profile_id'') of
             None \<Rightarrow> (None, s)
           | Some pid \<Rightarrow>
               (case profile_by_id e pid of
                  None \<Rightarrow> (None, r_del R s key)
                | Some p \<Rightarrow>
                    (let (reserved, s1) =
                           (if handoff then (True, s)
                            else (let (r, t) = reserve_profile_slot R L e p 0 None s in (fst r, t)))
                     in if \<not> reserved then (None, s1)
                        else (Some (d, p),
                              r_expire R (hset_all R key [(''busy'', VStr ''1''), (''last_activity'', VTime (now e))] s1)
                                key POOL_ENTRY_TTL))))"

record pool_descriptor =
  pd_media :: string
  pd_user :: int
  pd_ip :: string
  pd_agent :: string
  pd_account :: int
  pd_profile :: int
  pd_stream :: string
  pd_row :: int
  pd_timestamp :: string
  pd_tz :: string

definition create_pool_session ::
  "'s redis_api \<Rightarrow> real \<Rightarrow> string \<Rightarrow> pool_descriptor \<Rightarrow> 's \<Rightarrow> bool \<times> 's" where
  "create_pool_session R t sess d s =
     (let key = Catchup_pool sess in
      if sess = [] \<or> r_exists R s key then (False, s)
      else (True,
        r_del R
          (r_expire R
            (hset_all R key
              [(''media_id'', VStr (pd_media d)), (''user_id'', VInt (pd_user d)),
               (''client_ip'', VStr (pd_ip d)), (''client_user_agent'', VStr (pd_agent d)),
               (''account_id'', VInt (pd_account d)), (''profile_id'', VInt (pd_profile d)),
               (''stream_id'', VStr (pd_stream d)), (''dispatcharr_stream_id'', VInt (pd_row d)),
               (''provider_timestamp'', VStr (pd_timestamp d)), (''provider_tz_name'', VStr (pd_tz d)),
               (''busy'', VStr ''1''), (''last_activity'', VTime t)] s)
            key POOL_ENTRY_TTL)
          (Catchup_superseded sess)))"

definition release_pool_session ::
  "'s redis_api \<Rightarrow> real \<Rightarrow> string \<Rightarrow> int option \<Rightarrow> bool \<Rightarrow> bool \<Rightarrow> 's \<Rightarrow> 's" where
  "release_pool_session R t sess pid mark_pool_idle release_profile s =
     (let superseded = r_exists R s (Catchup_superseded sess) in
      if superseded \<and> \<not> release_profile then s
      else
        (let s1 = (if superseded then r_del R s (Catchup_superseded sess) else s);
             s2 = (case pid of Some p \<Rightarrow> if release_profile then release_profile_slot R p s1 else s1
                             | None \<Rightarrow> s1);
             key = Catchup_pool sess
         in if \<not> mark_pool_idle \<or> sess = [] \<or> \<not> r_exists R s2 key then s2
            else r_expire R (hset_all R key [(''busy'', VStr ''0''), (''last_activity'', VTime t)] s2)
                   key POOL_IDLE_TTL))"

text \<open>\<open>_make_release_once\<close>: the closure's flag and the store.\<close>

definition release_once ::
  "'s redis_api \<Rightarrow> real \<Rightarrow> string \<Rightarrow> int option \<Rightarrow> bool \<Rightarrow> bool \<Rightarrow> bool \<times> 's \<Rightarrow> bool \<times> 's" where
  "release_once R t sess pid mark_pool_idle release_profile st =
     (if fst st then st
      else (True, release_pool_session R t sess pid mark_pool_idle release_profile (snd st)))"

definition discard_pool_session :: "'s redis_api \<Rightarrow> string \<Rightarrow> int option \<Rightarrow> 's \<Rightarrow> 's" where
  "discard_pool_session R sess pid s =
     (let s1 = (case pid of None \<Rightarrow> s | Some p \<Rightarrow> release_profile_slot R p s)
      in if sess = [] then s1 else r_del R s1 (Catchup_pool sess))"

definition force_abandon_busy_pool :: "'s redis_api \<Rightarrow> string \<Rightarrow> int option \<Rightarrow> 's \<Rightarrow> 's" where
  "force_abandon_busy_pool R sess pid s =
     (if sess = [] then s
      else discard_pool_session R sess pid (r_setex R s (Catchup_superseded sess) 120 (VStr ''1'')))"

definition refresh_pool_session_ttl :: "'s redis_api \<Rightarrow> real \<Rightarrow> string \<Rightarrow> 's \<Rightarrow> 's" where
  "refresh_pool_session_ttl R t sess s =
     (if \<not> pool_session_exists R s sess then s
      else r_expire R (r_hset R s (Catchup_pool sess) ''last_activity'' (VTime t)) (Catchup_pool sess)
             (if pool_session_busy R s sess then POOL_ENTRY_TTL else POOL_IDLE_TTL))"

section \<open>What an entry remembers of its archive\<close>

definition store_pool_serving_range :: "'s redis_api \<Rightarrow> string \<Rightarrow> string option \<Rightarrow> 's \<Rightarrow> 's" where
  "store_pool_serving_range R sess header s =
     (if sess = [] then s else r_hset R s (Catchup_pool sess) ''serving_range'' (VStr (serving_range_of header)))"

definition archive_fields :: "string list" where
  "archive_fields = [''content_length'', ''serving_range'', ''final_url'', ''archive_anchor_ts'',
     ''archive_duration_secs'', ''presentation_length'', ''presentation_byte_base'']"

definition update_pool_position ::
  "'s redis_api \<Rightarrow> string \<Rightarrow> string \<Rightarrow> string \<Rightarrow> bool \<Rightarrow> 's \<Rightarrow> 's" where
  "update_pool_position R sess media timestamp keep_archive s =
     (let key = Catchup_pool sess; d = r_hash R s key in
      if sess = [] \<or> d = [] then s
      else
        (let changed = (map_of d ''media_id'' \<noteq> Some (VStr media));
             s1 = hset_all R key [(''media_id'', VStr media), (''provider_timestamp'', VStr timestamp)] s
         in if changed \<and> \<not> keep_archive then foldl (\<lambda>t f. r_hdel R t key f) s1 archive_fields else s1))"

definition store_pool_content_length :: "'s redis_api \<Rightarrow> string \<Rightarrow> string \<Rightarrow> string \<Rightarrow> 's \<Rightarrow> 's" where
  "store_pool_content_length R sess upstream_range content_length s =
     (case extract_representation_length upstream_range content_length of
        Some n \<Rightarrow> if sess = [] then s else r_hset R s (Catchup_pool sess) ''content_length'' (VInt n)
      | None \<Rightarrow> s)"

definition store_pool_final_url :: "'s redis_api \<Rightarrow> string \<Rightarrow> string \<Rightarrow> 's \<Rightarrow> 's" where
  "store_pool_final_url R sess url s =
     (if sess = [] \<or> url = [] then s else r_hset R s (Catchup_pool sess) ''final_url'' (VStr url))"

definition store_pool_provider_user_agent :: "'s redis_api \<Rightarrow> string \<Rightarrow> string \<Rightarrow> 's \<Rightarrow> 's" where
  "store_pool_provider_user_agent R sess agent s =
     (if sess \<noteq> [] \<and> r_exists R s (Catchup_pool sess)
      then r_hset R s (Catchup_pool sess) ''provider_user_agent'' (VStr agent) else s)"

definition clear_pool_final_url :: "'s redis_api \<Rightarrow> string \<Rightarrow> 's \<Rightarrow> 's" where
  "clear_pool_final_url R sess s = (if sess = [] then s else r_hdel R s (Catchup_pool sess) ''final_url'')"

text \<open>\<open>whole_minutes * 60\<close> of the duration where it was given; \<open>seconds\<close> is \<open>int(float(duration) * 60)\<close>.\<close>

definition ensure_pool_archive_anchor ::
  "'s redis_api \<Rightarrow> string \<Rightarrow> string \<Rightarrow> int \<Rightarrow> bool \<Rightarrow> 's \<Rightarrow> 's" where
  "ensure_pool_archive_anchor R sess timestamp seconds force s =
     (if sess = [] \<or> timestamp = [] \<or>
         (\<not> force \<and> truthy (r_hget R s (Catchup_pool sess) ''archive_anchor_ts'')) then s
      else hset_all R (Catchup_pool sess)
             [(''archive_anchor_ts'', VStr timestamp), (''archive_duration_secs'', VInt (max seconds 60))] s)"

section \<open>Generations and stops\<close>

datatype stop_reason = Reuse | Hop | Admin | Limit

fun reason_text :: "stop_reason \<Rightarrow> string" where
  "reason_text Reuse = ''reuse''"
| "reason_text Hop = ''hop''"
| "reason_text Admin = ''admin''"
| "reason_text Limit = ''limit''"

definition TERMINAL_STOP_REASONS :: "string list" where
  "TERMINAL_STOP_REASONS = [''hop'', ''admin'', ''limit'']"

definition current_stream_generation :: "'s redis_api \<Rightarrow> string \<Rightarrow> string \<Rightarrow> 's \<Rightarrow> int" where
  "current_stream_generation R vid client s = r_count R s (Catchup_generation vid client)"

definition allocate_stream_generation :: "'s redis_api \<Rightarrow> string \<Rightarrow> string \<Rightarrow> 's \<Rightarrow> int \<times> 's" where
  "allocate_stream_generation R vid client s =
     (let key = Catchup_generation vid client; s1 = r_incr R s key in
      (r_count R s1 key,
       r_del R (r_del R (r_expire R s1 key POOL_ENTRY_TTL) (Catchup_stop vid client)) (Catchup_superseded client)))"

definition cleanup_stream_generation :: "'s redis_api \<Rightarrow> string \<Rightarrow> string \<Rightarrow> 's \<Rightarrow> 's" where
  "cleanup_stream_generation R vid client s =
     (if vid = [] \<or> client = [] then s else r_del R s (Catchup_generation vid client))"

text \<open>The programmes are those the scan for the client's generation keys finds.\<close>

definition cleanup_all_stream_generations :: "'s redis_api \<Rightarrow> string list \<Rightarrow> string \<Rightarrow> 's \<Rightarrow> 's" where
  "cleanup_all_stream_generations R vids client s =
     (if client = [] then s else foldl (\<lambda>t vid. r_del R t (Catchup_generation vid client)) s vids)"

text \<open>A counter that is not there reads as no value, and then the stop goes through generation 1.\<close>

definition set_client_stop :: "'s redis_api \<Rightarrow> string \<Rightarrow> string \<Rightarrow> stop_reason \<Rightarrow> 's \<Rightarrow> 's" where
  "set_client_stop R vid client reason s =
     (let g = r_count R s (Catchup_generation vid client) in
      r_setex R s (Catchup_stop vid client) 60
        (if reason = Reuse then VInt (if g = 0 then 1 else g) else VStr (reason_text reason)))"

text \<open>A stop value that is all digits, as the number.\<close>

definition stop_through :: "rval \<Rightarrow> int option" where
  "stop_through v =
     (case val_text v of
        None \<Rightarrow> None
      | Some t \<Rightarrow> (if t \<noteq> [] \<and> (\<forall>c \<in> set t. is_digit c) then parse_int t else None))"

text \<open>Whether the stream should stop, and whether another takes over its slot.\<close>

definition stream_stop_requested :: "'s redis_api \<Rightarrow> string \<Rightarrow> string \<Rightarrow> int \<Rightarrow> 's \<Rightarrow> bool \<times> bool" where
  "stream_stop_requested R vid client gen s =
     (case r_get R s (Catchup_stop vid client) of
        None \<Rightarrow> (False, False)
      | Some v \<Rightarrow>
          (if v = VStr ''reuse'' then (True, True)
           else case stop_through v of
                  Some n \<Rightarrow> (gen \<le> n, True)
                | None \<Rightarrow> (v \<in> VStr ` set TERMINAL_STOP_REASONS, False)))"

text \<open>The displaced streams of \<open>_preempt_playback_streams\<close>, each by the id its stop key has.\<close>

definition preempt_playback_streams :: "'s redis_api \<Rightarrow> string list \<Rightarrow> string \<Rightarrow> 's \<Rightarrow> 's" where
  "preempt_playback_streams R targets sess s =
     foldl (\<lambda>t vid. set_client_stop R vid sess Reuse t) s targets"

section \<open>A stream's end\<close>

definition STATS_GRACE_MIN_YIELDED_BYTES :: int where "STATS_GRACE_MIN_YIELDED_BYTES = 65536"
definition STATS_GRACE_MIN_ELAPSED_SECONDS :: real where "STATS_GRACE_MIN_ELAPSED_SECONDS = 2"

definition is_timeshift_startup_probe :: "int \<Rightarrow> real \<Rightarrow> bool" where
  "is_timeshift_startup_probe yielded elapsed \<longleftrightarrow>
     yielded < STATS_GRACE_MIN_YIELDED_BYTES \<and> elapsed < STATS_GRACE_MIN_ELAPSED_SECONDS"

definition should_schedule_stats_disconnect_grace ::
  "'s redis_api \<Rightarrow> string \<Rightarrow> int \<Rightarrow> real \<Rightarrow> bool \<Rightarrow> 's \<Rightarrow> bool" where
  "should_schedule_stats_disconnect_grace R client yielded elapsed stopped_for_reuse s \<longleftrightarrow>
     \<not> stopped_for_reuse \<and> \<not> is_timeshift_startup_probe yielded elapsed \<and>
     \<not> (elapsed < STATS_GRACE_MIN_ELAPSED_SECONDS \<and> client \<noteq> [] \<and> pool_session_exists R s client)"

definition should_preempt_for_programme_change ::
  "'s redis_api \<Rightarrow> real \<Rightarrow> string \<Rightarrow> string option \<Rightarrow> string \<Rightarrow> bool \<Rightarrow> 's \<Rightarrow> bool" where
  "should_preempt_for_programme_change R t sess pool_media media active s =
     (case pool_media of
        None \<Rightarrow> False
      | Some m \<Rightarrow>
          m \<noteq> media \<and>
          (active \<or>
           STATS_GRACE_MIN_ELAPSED_SECONDS \<le>
             t - (case last_activity (get_pool_entry R s sess) of None \<Rightarrow> 0 | Some x \<Rightarrow> x)))"

text \<open>
  The end of the response's generator: \<open>asked\<close> is whether its loop ended on a stop for reuse. A
  replaced stream leaves the slot and the entry to its replacement; any other gives them back,
  and, unless it was only a probe, forgets the generations.
\<close>

definition finish_stream ::
  "'s redis_api \<Rightarrow> real \<Rightarrow> string \<Rightarrow> string \<Rightarrow> string \<Rightarrow> int \<Rightarrow> int \<Rightarrow> bool \<Rightarrow> bool \<Rightarrow> 's \<Rightarrow> 's" where
  "finish_stream R t vid client sess pid gen probe asked s =
     (let (stop, reuse) = stream_stop_requested R vid client gen s;
          s1 = (if stop \<and> \<not> reuse then r_del R s (Catchup_stop vid client) else s)
      in if asked \<or> (stop \<and> reuse) \<or> gen < current_stream_generation R vid client s1
         then snd (release_once R t sess (Some pid) False False (False, s1))
         else snd (release_once R t sess (Some pid) True True
                (False, if probe then s1 else cleanup_stream_generation R vid client s1)))"

section \<open>What the operations leave alone\<close>

context redis
begin

lemma slots_held_other [simp]:
  "(\<And>i. k \<noteq> Held_slots i) \<Longrightarrow> (\<And>j. k \<noteq> Held_login_slots j) \<Longrightarrow>
   r_hash R (snd (slots_held_for_others R e p v cred s)) k = r_hash R s k"
  by (cases cred) (simp_all add: slots_held_for_others_def Let_def foldl_hdel held_key_def)

lemma reserve_hash:
  assumes "\<And>i. k \<noteq> Held_slots i" "\<And>j. k \<noteq> Held_login_slots j"
  shows "r_hash R (snd (reserve_profile_slot R L e p extra v s)) k = r_hash R s k"
proof -
  have group: "r_hash R (snd (reserve_server_group_slot_for_profile R L e p extra v r t)) k = r_hash R t k" for r t
    using assms
    by (auto simp: reserve_server_group_slot_for_profile_def Let_def case_prod_unfold split: option.split)
  have "r_hash R (snd (reserve_credential_part R L e p extra v n t)) k = r_hash R t k" for n t
    using group
    by (auto simp: reserve_credential_part_def Let_def case_prod_unfold remember_credential_release_key_def
        split: option.split)
  then show ?thesis
    using assms by (auto simp: reserve_profile_slot_def Let_def case_prod_unfold)
qed

lemma members_reserve: "r_members R (snd (reserve_profile_slot R L e p extra v s)) = r_members R s"
proof -
  have "r_members R (snd (reserve_credential_part R L e p extra v n t)) = r_members R t" for n t
    by (auto simp: reserve_credential_part_def Let_def case_prod_unfold remember_credential_release_key_def
        split: option.split)
  then show ?thesis by (auto simp: reserve_profile_slot_def Let_def case_prod_unfold)
qed

lemma members_release: "(\<And>q. k \<noteq> Profile_credential_release q) \<Longrightarrow> r_members R (release_profile_slot R pid s) k = r_members R s k"
  by (auto simp: release_profile_slot_def release_credential_slot_by_profile_id_def Let_def
      split: option.split)

lemma release_count:
  assumes "pool_ok R s" "\<not> is_counter k" "\<And>q. k \<noteq> Profile_credential_release q"
  shows "r_count R (release_profile_slot R pid s) k = r_count R s k"
proof -
  have "credential_key (r_get R s (Profile_credential_release pid)) = Some j \<Longrightarrow> k \<noteq> j" for j
    using assms(1,2) unfolding pool_ok_def by fastforce
  moreover have "k \<noteq> Profile_connections pid" using assms(2) by auto
  ultimately show ?thesis
    using assms(3)
    by (auto simp: release_profile_slot_def release_credential_slot_by_profile_id_def Let_def safe_decr_count
        split: option.split)
qed

lemma pool_frame:
  assumes "\<And>k. is_counter k \<Longrightarrow> r_count R s' k = r_count R s k"
    and "\<And>i. r_get R s' (Profile_credential_release i) = r_get R s (Profile_credential_release i)"
  shows "pool_ok R s' = pool_ok R s \<and> pid_used R s' = pid_used R s"
proof -
  have "slots R s' = slots R s" using assms(1) by (auto simp: slots_def fun_eq_iff)
  then show ?thesis using assms(2) by (simp add: pool_ok_def pid_used_def fun_eq_iff)
qed

end

definition marked_busy :: "'s redis_api \<Rightarrow> string \<Rightarrow> real \<Rightarrow> 's \<Rightarrow> 's" where
  "marked_busy R sess t s =
     r_expire R (hset_all R (Catchup_pool sess) [(''busy'', VStr ''1''), (''last_activity'', VTime t)] s)
       (Catchup_pool sess) POOL_ENTRY_TTL"

context redis
begin

lemma acquire_some:
  assumes "acquire_idle_pool_session R L e sess usr handoff s = (Some (d, p), s1)"
  shows "\<exists>pid s0. d = r_hash R s (Catchup_pool sess) \<and> d \<noteq> [] \<and> (handoff \<or> \<not> entry_busy d) \<and>
     parse_int (entry_text d ''profile_id'') = Some pid \<and> profile_by_id e pid = Some p \<and>
     s0 = (if handoff then s else snd (reserve_profile_slot R L e p 0 None s)) \<and>
     (handoff \<or> has_room R L e p 0 None s) \<and> s1 = marked_busy R sess (now e) s0"
  using assms
  by (auto simp: acquire_idle_pool_session_def marked_busy_def Let_def case_prod_unfold reserve_ok
      split: if_splits option.splits)

lemma text_hset [simp]:
  "entry_text (r_hash R (r_expire R s i n) k) f = entry_text (r_hash R s k) f"
  "entry_text (r_hash R (hset_all R k fs s) k) f =
     (case map_of (rev fs) f of None \<Rightarrow> entry_text (r_hash R s k) f
      | Some v \<Rightarrow> (case val_text v of None \<Rightarrow> [] | Some t \<Rightarrow> t))"
  by (auto simp: entry_text_def hget_hset_all split: option.split)

lemma marked_busy_frame [simp]:
  "r_count R (marked_busy R sess t s) = r_count R s"
  "r_get R (marked_busy R sess t s) = r_get R s"
  "r_members R (marked_busy R sess t s) = r_members R s"
  "j \<noteq> Catchup_pool sess \<Longrightarrow> r_hash R (marked_busy R sess t s) j = r_hash R s j"
  by (simp_all add: marked_busy_def)

lemma reserved_keeps:
  assumes "\<not> is_counter k" "\<And>i. k \<noteq> Held_slots i" "\<And>j. k \<noteq> Held_login_slots j"
    "\<And>i. k \<noteq> Profile_credential_release i"
  shows "r_count R (snd (reserve_profile_slot R L e p extra v s)) k = r_count R s k"
    "r_get R (snd (reserve_profile_slot R L e p extra v s)) k = r_get R s k"
    "r_hash R (snd (reserve_profile_slot R L e p extra v s)) k = r_hash R s k"
    "r_members R (snd (reserve_profile_slot R L e p extra v s)) k = r_members R s k"
proof -
  have "k \<noteq> Profile_connections i" for i using assms(1) by auto
  moreover have "pooled_key L p = Some j \<Longrightarrow> k \<noteq> j" for j
    using assms(1) pooled_key_counter [of L p j] by fastforce
  ultimately show "r_count R (snd (reserve_profile_slot R L e p extra v s)) k = r_count R s k"
    by (cases "pooled_key L p") (auto simp: reserve_count profile_key_def)
  show "r_get R (snd (reserve_profile_slot R L e p extra v s)) k = r_get R s k"
    using assms(4) by (auto simp: reserve_get split: option.split)
qed (simp_all add: reserve_hash assms members_reserve)

lemma released_keeps:
  assumes "pool_ok R s" "\<not> is_counter k" "\<And>i. k \<noteq> Profile_credential_release i"
  shows "r_count R (release_profile_slot R pid s) k = r_count R s k"
    "r_get R (release_profile_slot R pid s) k = r_get R s k"
    "r_hash R (release_profile_slot R pid s) k = r_hash R s k"
    "r_members R (release_profile_slot R pid s) k = r_members R s k"
  using assms by (simp_all add: release_count release_get members_release)

end

section \<open>Lemmas for the pool's own properties\<close>

lemma best_candidate_member: "best_candidate cs = Some b \<Longrightarrow> b \<in> set cs"
  by (induction cs arbitrary: b) (auto split: option.splits if_splits)

lemma best_candidate_exact:
  "best_candidate cs = Some b \<Longrightarrow> c \<in> set cs \<Longrightarrow> fst (snd c) \<Longrightarrow> fst (snd b)"
proof (induction cs arbitrary: b)
  case (Cons a cs)
  obtain x y p t where a: "a = (x, y, p, t)" by (cases a)
  show ?case
  proof (cases "best_candidate cs")
    case None
    then have "cs = []" by (cases cs) auto
    then show ?thesis using Cons None by auto
  next
    case (Some b')
    then obtain x' y' p' t' where b': "b' = (x', y', p', t')" by (cases b')
    then show ?thesis using Cons Some a by (auto split: if_splits)
  qed
qed simp

lemma fingerprint_threshold:
  "MATCH_SCORE_THRESHOLD \<le> score_pool_fingerprint d ip agent \<Longrightarrow>
   entry_text d ''client_ip'' = ip \<and> entry_text d ''client_user_agent'' = agent \<and> ip \<noteq> [] \<and> agent \<noteq> []"
  by (auto simp: score_pool_fingerprint_def MATCH_SCORE_THRESHOLD_def split: if_splits)

lemma pool_candidate_some:
  assumes "pool_candidate media usr ip agent channel include_busy fresh sess d = Some (x, exact, score, t)"
  shows "x = sess \<and> pool_match media usr channel include_busy fresh d = Some exact \<and>
    MATCH_SCORE_THRESHOLD \<le> score_pool_fingerprint d ip agent"
  using assms by (auto simp: pool_candidate_def Let_def split: option.splits if_splits)

context redis
begin

lemma marked_busy_texts:
  "entry_text (r_hash R (marked_busy R sess t s) (Catchup_pool sess)) f =
     (if f = ''busy'' then ''1'' else if f = ''last_activity'' then []
      else entry_text (r_hash R s (Catchup_pool sess)) f)"
  by (simp add: marked_busy_def)

lemma taken_once_lemma:
  assumes ok: "pool_ok R s" and lim: "0 < max_streams p" and "sess \<noteq> []"
    and got: "acquire_idle_pool_session R L e sess usr False s = (Some (d, p), s1)"
  shows "acquire_idle_pool_session R L' e' sess usr' False s1 = (None, s1)"
    "pid_used R (release_pool_session R t sess (Some (prof_id p)) True True s1) = pid_used R s"
    "\<not> pool_session_busy R (release_pool_session R t sess (Some (prof_id p)) True True s1) sess"
proof -
  from acquire_some [OF got] obtain i where
    room: "has_room R L e p 0 None s"
    and s1: "s1 = marked_busy R sess (now e) (snd (reserve_profile_slot R L e p 0 None s))"
    by auto
  have busy: "entry_busy (r_hash R s1 (Catchup_pool sess))" by (simp add: entry_busy_def s1 marked_busy_texts)
  then show "acquire_idle_pool_session R L' e' sess usr' False s1 = (None, s1)"
    by (simp add: acquire_idle_pool_session_def Let_def)
  let ?x = "if r_exists R s1 (Catchup_superseded sess) then r_del R s1 (Catchup_superseded sess) else s1"
  have "pool_ok R ?x = pool_ok R (snd (reserve_profile_slot R L e p 0 None s)) \<and>
      pid_used R ?x = pid_used R (snd (reserve_profile_slot R L e p 0 None s))"
    by (rule pool_frame) (auto simp: s1)
  then have x: "pool_ok R ?x" "pid_used R ?x = (pid_used R s)(prof_id p := pid_used R s (prof_id p) + 1)"
    using ok room lim by (simp_all add: reserve_pool_ok reserve_used)
  have there: "r_exists R (release_profile_slot R (prof_id p) ?x) (Catchup_pool sess)"
    using hset_all_nonempty x(1) by (auto simp: r_exists_def released_keeps s1 marked_busy_def)
  have rel: "release_pool_session R t sess (Some (prof_id p)) True True s1 =
      r_expire R (hset_all R (Catchup_pool sess) [(''busy'', VStr ''0''), (''last_activity'', VTime t)]
        (release_profile_slot R (prof_id p) ?x)) (Catchup_pool sess) POOL_IDLE_TTL"
    using there assms(3) by (simp add: release_pool_session_def Let_def)
  have nn: "0 \<le> pid_used R s i" for i using ok by (simp add: pool_ok_def pid_used_def)
  have "pid_used R (release_profile_slot R (prof_id p) ?x) = pid_used R s"
    using nn [of "prof_id p"] x by (simp add: release_used)
  moreover have "pid_used R (release_pool_session R t sess (Some (prof_id p)) True True s1) =
      pid_used R (release_profile_slot R (prof_id p) ?x)"
    unfolding rel by (rule pool_frame [THEN conjunct2]) simp_all
  ultimately show "pid_used R (release_pool_session R t sess (Some (prof_id p)) True True s1) = pid_used R s"
    by simp
  show "\<not> pool_session_busy R (release_pool_session R t sess (Some (prof_id p)) True True s1) sess"
    unfolding rel by (simp add: pool_session_busy_def entry_busy_def)
qed

end

section \<open>Properties\<close>

text \<open>
  A request adopts another session's pool only when it is the same user's, from the same address
  and the same player, both known, and at the same position or on the same channel; an idle one at
  the very position is not revived for a fresh session; and whenever a pool at the very position can
  be adopted, the adopted one is.
\<close>

theorem adopted_pool_is_the_viewers:
  assumes "find_matching_pool_session R sessions media usr ip agent channel include_busy fresh s = Some sess"
  shows "let d = r_hash R s (Catchup_pool sess) in
         sess \<in> set sessions \<and> entry_text d ''user_id'' = dec usr \<and>
         entry_text d ''client_ip'' = ip \<and> entry_text d ''client_user_agent'' = agent \<and> ip \<noteq> [] \<and> agent \<noteq> [] \<and>
         (entry_text d ''media_id'' = media \<or>
          (\<exists>c. channel = Some c \<and> starts_with (entry_text d ''media_id'') (dec c @ ''_''))) \<and>
         (\<not> include_busy \<longrightarrow> \<not> entry_busy d) \<and>
         (fresh \<longrightarrow> entry_text d ''media_id'' = media \<longrightarrow> entry_busy d) \<and>
         (\<forall>x y score t. x \<in> set sessions \<longrightarrow>
            pool_candidate media usr ip agent channel include_busy fresh x (r_hash R s (Catchup_pool x)) =
              Some (y, True, score, t) \<longrightarrow> entry_text d ''media_id'' = media)"
proof -
  obtain exact score t where
    best: "best_candidate (List.map_filter (\<lambda>sess. pool_candidate media usr ip agent channel include_busy fresh sess
         (r_hash R s (Catchup_pool sess))) sessions) = Some (sess, exact, score, t)"
    using assms by (auto simp: find_matching_pool_session_def)
  from best_candidate_member [OF best] obtain x where "x \<in> set sessions"
    and c: "pool_candidate media usr ip agent channel include_busy fresh x (r_hash R s (Catchup_pool x)) =
       Some (sess, exact, score, t)"
    by (auto simp: map_filter_member)
  with pool_candidate_some [OF c] have "sess \<in> set sessions"
    and m: "pool_match media usr channel include_busy fresh (r_hash R s (Catchup_pool sess)) = Some exact"
    and f: "MATCH_SCORE_THRESHOLD \<le> score_pool_fingerprint (r_hash R s (Catchup_pool sess)) ip agent"
    by auto
  have exact: "exact = (entry_text (r_hash R s (Catchup_pool sess)) ''media_id'' = media)"
    using m by (auto simp: pool_match_def Let_def split: if_splits)
  have "exact" if "x \<in> set sessions" and
    "pool_candidate media usr ip agent channel include_busy fresh x (r_hash R s (Catchup_pool x)) = Some (y, True, sc, u)"
    for x y sc u
    using best_candidate_exact [OF best, of "(y, True, sc, u)"] that by (auto simp: map_filter_member)
  then show ?thesis
    using fingerprint_threshold [OF f] m \<open>sess \<in> set sessions\<close> unfolding Let_def exact
    by (auto simp: pool_match_def Let_def split: if_splits option.splits)
qed

definition ex_entry :: "string \<Rightarrow> entry" where
  "ex_entry media = [(''media_id'', VStr media), (''user_id'', VInt 4), (''client_ip'', VStr ''10.0.0.9''),
     (''client_user_agent'', VStr ''arrTV''), (''profile_id'', VInt 1), (''busy'', VStr ''0''), (''last_activity'', VTime 50)]"

definition ex_pools :: mem where
  "ex_pools = mem_empty\<lparr>m_hash := [(Catchup_pool ''a'', ex_entry ''7_2026''), (Catchup_pool ''b'', ex_entry ''7_2027'')]\<rparr>"

lemma adopted_pool_is_the_viewers_witness:
  "find_matching_pool_session mem_redis [''a'', ''b''] ''7_2027'' 4 ''10.0.0.9'' ''arrTV'' (Some 7) False False ex_pools = Some ''b'' \<and>
   ''b'' \<in> set [''a'', ''b'']"
proof -
  have run: "find_matching_pool_session mem_redis [''a'', ''b''] ''7_2027'' 4 ''10.0.0.9'' ''arrTV'' (Some 7) False False ex_pools = Some ''b''"
    by code_simp
  from adopted_pool_is_the_viewers [OF run] run show ?thesis by (simp add: Let_def)
qed

text \<open>
  An idle pool is given to one request: whoever asks next, at any time, gets nothing and changes
  nothing; and once the request is done with it, the pool is idle again and every profile's count is
  what it was before.
\<close>

theorem idle_pool_taken_once:
  assumes R: "redis R" and "pool_ok R s" and "0 < max_streams p" and "sess \<noteq> []"
    and got: "acquire_idle_pool_session R L e sess usr False s = (Some (d, p), s1)"
  shows "acquire_idle_pool_session R L' e' sess usr' False s1 = (None, s1) \<and>
         (let s2 = release_pool_session R t sess (Some (prof_id p)) True True s1
          in pid_used R s2 = pid_used R s \<and> \<not> pool_session_busy R s2 sess)"
  using redis.taken_once_lemma [OF assms] by (simp add: Let_def)


lemma ex_pools_views:
  "r_count mem_redis ex_pools = (\<lambda>_. 0)" "r_get mem_redis ex_pools = (\<lambda>_. None)"
  "r_hash mem_redis ex_pools k = (if k = Catchup_pool ''a'' then ex_entry ''7_2026''
     else if k = Catchup_pool ''b'' then ex_entry ''7_2027'' else [])"
  by (simp_all add: mem_redis_def ex_pools_def mem_empty_def mem_lookup_def ex_entry_def fun_eq_iff)

lemma ex_pools_room: "has_room mem_redis ex_logins ex_env ex_profile 0 None ex_pools"
proof -
  have "held mem_redis ex_env ex_profile None c ex_pools = 0" for c
    by (cases c) (simp_all add: mem.slots_held_count by_recording_def holders_def ex_pools_views held_key_def)
  then show ?thesis
    by (auto simp: has_room_def profile_room_def login_room_def ex_pools_views)
qed

lemma ex_acquired:
  "fst (acquire_idle_pool_session mem_redis ex_logins ex_env ''a'' (Some 4) False ex_pools) =
     Some (ex_entry ''7_2026'', ex_profile)"
proof -
  have "fst (fst (reserve_profile_slot mem_redis ex_logins ex_env ex_profile 0 None ex_pools))"
    by (simp add: mem.reserve_ok ex_pools_room)
  moreover have "entry_text (ex_entry ''7_2026'') ''profile_id'' = dec 1"
    "pool_entry_owned_by_user (ex_entry ''7_2026'') 4" "\<not> entry_busy (ex_entry ''7_2026'')"
    "ex_entry ''7_2026'' \<noteq> []"
    by (simp_all add: ex_entry_def entry_text_def pool_entry_owned_by_user_def entry_busy_def)
  ultimately show ?thesis
    by (simp add: acquire_idle_pool_session_def ex_pools_views Let_def case_prod_unfold)
qed

lemma idle_pool_taken_once_witness:
  "\<exists>s1. snd (acquire_idle_pool_session mem_redis ex_logins ex_env ''a'' (Some 4) False ex_pools) = s1 \<and>
     fst (acquire_idle_pool_session mem_redis ex_logins ex_env ''a'' None False s1) = None"
proof -
  have ok: "pool_ok mem_redis ex_pools" by (simp add: pool_ok_def slots_def ex_pools_views)
  obtain s1 where run: "acquire_idle_pool_session mem_redis ex_logins ex_env ''a'' (Some 4) False ex_pools =
      (Some (ex_entry ''7_2026'', ex_profile), s1)"
    using ex_acquired by (metis prod.collapse)
  have "0 < max_streams ex_profile" "''a'' \<noteq> []" by simp_all
  from idle_pool_taken_once [OF mem.redis_axioms ok this run, of ex_logins ex_env None 0] run show ?thesis
    by simp
qed

end
