(* ===== verification/Catchup_Seeks.thy ===== *)
theory Catchup_Seeks
  imports Catchup_Pool
begin

text \<open>
  One viewer's catch-up session as its requests and streams come and go: a request takes the idle
  entry or makes a new one, a seek takes over the slot of the stream it replaces, on the same
  programme or another, a request that has the slot fails or is let go, a seek that cannot take
  over abandons the entry, a stream begins, a stream ends. The invariant is that the session uses
  one slot of its profile exactly while a stream or a request of it holds it, as long as the stream
  that holds the slot outlives those it replaced and one request at a time takes the slot over; and
  what goes wrong when they do not.
\<close>

section \<open>The steps\<close>

text \<open>A stream that runs: its programme's channel, its generation there, its profile.\<close>

type_synonym playing = "string \<times> int \<times> int"

text \<open>
  The store, the streams that run, oldest first, the profile of the session's entry, whether a
  request has the slot and its stream has not begun, and whether the newest stream has it.
\<close>

record 's seeking =
  store :: 's
  running :: "playing list"
  prof :: int
  pending :: bool
  served :: bool

definition session_active :: "'s seeking \<Rightarrow> bool" where
  "session_active q \<longleftrightarrow> pending q \<or> served q"

text \<open>
  \<open>create\<close> and \<open>lost_race\<close> are a fresh attempt, \<open>reopen\<close> an idle entry taken again, \<open>seek\<close> a
  take-over, whose \<open>targets\<close> are the programmes the connection list gives for the session;
  \<open>abandon\<close> is a take-over that was waited for in vain. \<open>fails\<close> is an attempt the provider refuses or
  that raises, \<open>let_go\<close> one whose refusal is passed on (416) or whose viewer left before the stream
  began.
\<close>

inductive seek_step ::
  "'s redis_api \<Rightarrow> logins \<Rightarrow> env \<Rightarrow> int \<Rightarrow> string \<Rightarrow> 's seeking \<Rightarrow> 's seeking \<Rightarrow> bool"
  for R L e usr sess where
  create: "pid_counted e pid \<Longrightarrow> take_profile_slot R L e pid (store q) = (True, s1) \<Longrightarrow>
    pd_profile d = pid \<Longrightarrow> pd_user d = usr \<Longrightarrow> create_pool_session R t sess d s1 = (True, s2) \<Longrightarrow>
    seek_step R L e usr sess q (q\<lparr>store := s2, prof := pid, pending := True\<rparr>)"
| lost_race: "pid_counted e pid \<Longrightarrow> take_profile_slot R L e pid (store q) = (True, s1) \<Longrightarrow>
    create_pool_session R t sess d s1 = (False, s2) \<Longrightarrow>
    seek_step R L e usr sess q (q\<lparr>store := release_profile_slot R pid s2\<rparr>)"
| reopen: "acquire_idle_pool_session R L (e\<lparr>now := t\<rparr>) sess (Some usr) False (store q) = (Some (d, p), s1) \<Longrightarrow>
    seek_step R L e usr sess q (q\<lparr>store := s1, pending := True\<rparr>)"
| seek: "served q \<Longrightarrow> fst (last (running q)) \<in> set targets \<Longrightarrow>
    acquire_idle_pool_session R L (e\<lparr>now := t\<rparr>) sess (Some usr) True
      (preempt_playback_streams R targets sess (store q)) = (Some (d, p), s1) \<Longrightarrow>
    seek_step R L e usr sess q (q\<lparr>store := s1, pending := True, served := False\<rparr>)"
| abandon: "served q \<Longrightarrow> fst (last (running q)) \<in> set targets \<Longrightarrow>
    seek_step R L e usr sess q
      (q\<lparr>store := force_abandon_busy_pool R sess (Some (prof q))
          (preempt_playback_streams R targets sess (store q)), served := False\<rparr>)"
| fails: "pending q \<Longrightarrow>
    seek_step R L e usr sess q
      (q\<lparr>store := discard_pool_session R sess (Some (prof q)) (store q), pending := False\<rparr>)"
| let_go: "pending q \<Longrightarrow>
    seek_step R L e usr sess q
      (q\<lparr>store := snd (release_once R t sess (Some (prof q)) True True (False, store q)), pending := False\<rparr>)"
| stream_begins: "pending q \<Longrightarrow> allocate_stream_generation R vid sess (store q) = (g, s1) \<Longrightarrow>
    seek_step R L e usr sess q
      (q\<lparr>store := s1, running := running q @ [(vid, g, prof q)], pending := False, served := True\<rparr>)"
| stream_ends: "running q = xs @ (vid, g, pid) # ys \<Longrightarrow>
    (served q \<and> ys = [] \<longrightarrow> xs = [] \<and> \<not> asked) \<Longrightarrow>
    seek_step R L e usr sess q
      (q\<lparr>store := finish_stream R t vid sess sess pid g probe asked (store q), running := xs @ ys,
         served := served q \<and> ys \<noteq> []\<rparr>)"

inductive_cases seek_stepE: "seek_step R L e usr sess q q'"


section \<open>The invariant\<close>

text \<open>The slot: one more than before while the session is active, and no other profile's.\<close>

definition slot_ok :: "'s redis_api \<Rightarrow> int \<Rightarrow> (int \<Rightarrow> int) \<Rightarrow> bool \<Rightarrow> 's \<Rightarrow> bool" where
  "slot_ok R pid base active s \<longleftrightarrow>
     pool_ok R s \<and> pid_used R s = base(pid := base pid + (if active then 1 else 0))"

text \<open>
  The entry: there and busy while the session is active, idle or gone otherwise; only an entry
  that is gone can have been abandoned.
\<close>

definition entry_ok :: "'s redis_api \<Rightarrow> env \<Rightarrow> string \<Rightarrow> int \<Rightarrow> bool \<Rightarrow> 's \<Rightarrow> bool" where
  "entry_ok R e sess pid active s \<longleftrightarrow>
     (let d = r_hash R s (Catchup_pool sess) in
      (d \<noteq> [] \<longrightarrow> entry_text d ''profile_id'' = dec pid \<and> pid_counted e pid \<and>
         \<not> r_exists R s (Catchup_superseded sess)) \<and>
      entry_busy d = active \<and> (active \<longrightarrow> d \<noteq> []))"

text \<open>
  The streams: each but the one that holds the slot is asked to stop or outnumbered, and the one
  that holds it is the newest, is not asked to, and has its programme's newest number.
\<close>

definition replaced :: "'s redis_api \<Rightarrow> string \<Rightarrow> 's \<Rightarrow> playing \<Rightarrow> bool" where
  "replaced R sess s = (\<lambda>(v, g, i).
     (\<exists>n. r_get R s (Catchup_stop v sess) = Some (VInt n) \<and> g \<le> n) \<or>
     (r_get R s (Catchup_stop v sess) = None \<and> g < current_stream_generation R v sess s))"

definition holds :: "'s redis_api \<Rightarrow> string \<Rightarrow> int \<Rightarrow> 's \<Rightarrow> playing \<Rightarrow> bool" where
  "holds R sess pid s = (\<lambda>(v, g, i).
     i = pid \<and> r_get R s (Catchup_stop v sess) = None \<and> g = current_stream_generation R v sess s)"

definition numbered :: "'s redis_api \<Rightarrow> string \<Rightarrow> 's \<Rightarrow> playing \<Rightarrow> bool" where
  "numbered R sess s = (\<lambda>(v, g, i). 0 < g \<and> g \<le> current_stream_generation R v sess s)"

definition streams_ok :: "'s redis_api \<Rightarrow> string \<Rightarrow> 's seeking \<Rightarrow> bool" where
  "streams_ok R sess q \<longleftrightarrow>
     (\<forall>v. 0 \<le> current_stream_generation R v sess (store q)) \<and>
     (\<forall>x \<in> set (running q). numbered R sess (store q) x) \<and>
     (if served q
      then \<not> pending q \<and> running q \<noteq> [] \<and> holds R sess (prof q) (store q) (last (running q)) \<and>
           (\<forall>x \<in> set (butlast (running q)). replaced R sess (store q) x)
      else \<forall>x \<in> set (running q). replaced R sess (store q) x)"

definition session_ok ::
  "'s redis_api \<Rightarrow> env \<Rightarrow> string \<Rightarrow> (int \<Rightarrow> int) \<Rightarrow> 's seeking \<Rightarrow> bool" where
  "session_ok R e sess base q \<longleftrightarrow>
     slot_ok R (prof q) base (session_active q) (store q) \<and>
     entry_ok R e sess (prof q) (session_active q) (store q) \<and> streams_ok R sess q"

section \<open>Each operation keeps the invariant\<close>

lemma profile_by_id_now [simp]: "profile_by_id (e\<lparr>now := t\<rparr>) pid = profile_by_id e pid"
  by (simp add: profile_by_id_def)

lemma stop_through_dec [simp]: "0 \<le> n \<Longrightarrow> stop_through (VInt n) = Some n"
  using nat_dec_digits [of "nat n"] by (simp add: stop_through_def) (simp add: dec_def)

lemma slot_idle: "slot_ok R pid base False s \<longleftrightarrow> pool_ok R s \<and> pid_used R s = base"
  by (simp add: slot_ok_def)

lemma streams_okD:
  assumes "streams_ok R sess q"
  shows "0 \<le> current_stream_generation R v sess (store q)"
    "x \<in> set (running q) \<Longrightarrow> numbered R sess (store q) x"
    "served q \<Longrightarrow> \<not> pending q \<and> running q \<noteq> [] \<and> holds R sess (prof q) (store q) (last (running q))"
    "x \<in> set (running q) \<Longrightarrow> \<not> served q \<Longrightarrow> replaced R sess (store q) x"
    "x \<in> set (running q) \<Longrightarrow> replaced R sess (store q) x \<or> x = last (running q) \<and> served q"
proof -
  show "x \<in> set (running q) \<Longrightarrow> replaced R sess (store q) x \<or> x = last (running q) \<and> served q"
    using assms by (cases "running q" rule: rev_cases) (auto simp: streams_ok_def split: if_splits)
qed (use assms in \<open>auto simp: streams_ok_def split: if_splits\<close>)

lemma streams_frame:
  assumes "\<And>v. current_stream_generation R v sess s' = current_stream_generation R v sess (store q)"
    and "\<And>v. r_get R s' (Catchup_stop v sess) = r_get R (store q) (Catchup_stop v sess)"
  shows "streams_ok R sess (q\<lparr>store := s'\<rparr>) = streams_ok R sess q"
  using assms by (simp add: streams_ok_def replaced_def holds_def numbered_def)

lemma streams_none_served:
  assumes "\<And>v. 0 \<le> current_stream_generation R v sess s"
    and "\<And>x. x \<in> set gs \<Longrightarrow> numbered R sess s x" and "\<And>x. x \<in> set gs \<Longrightarrow> replaced R sess s x"
  shows "streams_ok R sess \<lparr>store = s, running = gs, prof = p, pending = b, served = False\<rparr>"
  using assms by (simp add: streams_ok_def)

context redis
begin

lemma marked_busy_entry:
  assumes "entry_ok R e sess pid active s" "r_hash R s (Catchup_pool sess) \<noteq> []"
  shows "entry_ok R e sess pid True (marked_busy R sess t s)"
  using assms hset_all_nonempty
  by (simp add: entry_ok_def Let_def entry_busy_def r_exists_def marked_busy_def)

lemma entry_cong:
  assumes "r_hash R s' (Catchup_pool sess) = r_hash R s (Catchup_pool sess)"
    and "r_exists R s' (Catchup_superseded sess) \<Longrightarrow> r_exists R s (Catchup_superseded sess)"
  shows "entry_ok R e sess pid active s \<Longrightarrow> entry_ok R e sess pid active s'"
  using assms by (auto simp: entry_ok_def Let_def)

lemma entry_gone:
  assumes "r_hash R s (Catchup_pool sess) = []"
  shows "entry_ok R e sess pid False s"
  using assms by (simp add: entry_ok_def entry_busy_def entry_text_def)

lemma slot_frame:
  assumes "\<And>k. is_counter k \<Longrightarrow> r_count R s' k = r_count R s k"
    and "\<And>i. r_get R s' (Profile_credential_release i) = r_get R s (Profile_credential_release i)"
  shows "slot_ok R pid base active s \<Longrightarrow> slot_ok R pid base active s'"
  using pool_frame [OF assms] by (simp add: slot_ok_def)

lemma slot_taken:
  assumes "slot_ok R pid' base False s" "profile_by_id e pid = Some p" "0 < max_streams p"
    and "has_room R L e p 0 None s"
  shows "slot_ok R pid base True (snd (reserve_profile_slot R L e p 0 None s))"
  using assms profile_by_id_id [OF assms(2)]
  by (auto simp: slot_ok_def reserve_pool_ok reserve_used)

lemma slot_given:
  assumes "slot_ok R pid base True s" "0 \<le> base pid"
  shows "slot_ok R pid base False (release_profile_slot R pid s)"
  using assms by (auto simp: slot_ok_def release_pool_ok release_used)

lemma taken:
  assumes "take_profile_slot R L e pid s = (True, s1)" "pid_counted e pid"
  obtains P where "profile_by_id e pid = Some P" "0 < max_streams P" "has_room R L e P 0 None s"
    "s1 = snd (reserve_profile_slot R L e P 0 None s)"
  using assms take_profile_slot_simps [of L e pid s] by (auto simp: pid_counted_def split: option.splits)

lemma reserved_streams [simp]:
  "current_stream_generation R v sess (snd (reserve_profile_slot R L e p extra u s)) =
     current_stream_generation R v sess s"
  "r_get R (snd (reserve_profile_slot R L e p extra u s)) (Catchup_stop v sess) = r_get R s (Catchup_stop v sess)"
  by (simp_all add: current_stream_generation_def reserved_keeps)

lemma released_streams:
  assumes "pool_ok R s"
  shows "current_stream_generation R v sess (release_profile_slot R i s) = current_stream_generation R v sess s"
    "r_get R (release_profile_slot R i s) (Catchup_stop v sess) = r_get R s (Catchup_stop v sess)"
  using assms by (simp_all add: current_stream_generation_def released_keeps)

lemma create_keeps:
  assumes ok: "session_ok R e sess base q" and counted: "pid_counted e pid"
    and got: "take_profile_slot R L e pid (store q) = (True, s1)"
    and d: "pd_profile d = pid" and made: "create_pool_session R t sess d s1 = (True, s2)"
  shows "session_ok R e sess base (q\<lparr>store := s2, prof := pid, pending := True\<rparr>)"
proof -
  obtain P where P: "profile_by_id e pid = Some P" "0 < max_streams P" and room: "has_room R L e P 0 None (store q)"
    and s1: "s1 = snd (reserve_profile_slot R L e P 0 None (store q))"
    using taken [OF got counted] by blast
  have gone: "r_hash R (store q) (Catchup_pool sess) = []"
    using made by (auto simp: create_pool_session_def Let_def r_exists_def s1 reserved_keeps split: if_splits)
  then have idle: "\<not> session_active q" using ok by (auto simp: session_ok_def entry_ok_def Let_def)
  then have slot: "slot_ok R (prof q) base False (store q)" using ok by (simp add: session_ok_def)
  define fs where "fs = [(''media_id'', VStr (pd_media d)), (''user_id'', VInt (pd_user d)),
               (''client_ip'', VStr (pd_ip d)), (''client_user_agent'', VStr (pd_agent d)),
               (''account_id'', VInt (pd_account d)), (''profile_id'', VInt (pd_profile d)),
               (''stream_id'', VStr (pd_stream d)), (''dispatcharr_stream_id'', VInt (pd_row d)),
               (''provider_timestamp'', VStr (pd_timestamp d)), (''provider_tz_name'', VStr (pd_tz d)),
               (''busy'', VStr ''1''), (''last_activity'', VTime t)]"
  have s2: "s2 = r_del R (r_expire R (hset_all R (Catchup_pool sess) fs s1) (Catchup_pool sess) POOL_ENTRY_TTL)
      (Catchup_superseded sess)"
    using made by (auto simp: create_pool_session_def Let_def fs_def split: if_splits)
  have hash: "r_hash R s2 (Catchup_pool sess) =
      r_hash R (hset_all R (Catchup_pool sess) fs s1) (Catchup_pool sess)"
    by (simp add: s2)
  have fields: "entry_text (r_hash R s2 (Catchup_pool sess)) f =
      (case map_of (rev fs) f of None \<Rightarrow> entry_text (r_hash R s1 (Catchup_pool sess)) f
       | Some v \<Rightarrow> (case val_text v of None \<Rightarrow> [] | Some t \<Rightarrow> t))" for f
    unfolding hash by (rule text_hset)
  have "slot_ok R pid base True s2" unfolding s2
    by (rule slot_frame [of _ s1]) (use slot_taken [OF slot P room] in \<open>auto simp: s1\<close>)
  moreover have "entry_ok R e sess pid True s2"
    using hset_all_nonempty [of fs] d counted
    by (simp add: entry_ok_def Let_def entry_busy_def fields r_exists_def) (simp add: s2 fs_def)
  moreover have "streams_ok R sess (q\<lparr>store := s2\<rparr>) = streams_ok R sess q"
    by (rule streams_frame) (simp_all add: s2 s1 current_stream_generation_def reserved_keeps)
  then have "streams_ok R sess (q\<lparr>store := s2, prof := pid, pending := True\<rparr>)"
    using ok idle by (auto simp: session_ok_def session_active_def streams_ok_def)
  ultimately show ?thesis by (simp add: session_ok_def session_active_def)
qed

lemma lost_race_keeps:
  assumes ok: "session_ok R e sess base q" and counted: "pid_counted e pid" and base: "\<And>i. 0 \<le> base i"
    and got: "take_profile_slot R L e pid (store q) = (True, s1)"
    and lost: "create_pool_session R t sess d s1 = (False, s2)"
  shows "session_ok R e sess base (q\<lparr>store := release_profile_slot R pid s2\<rparr>)"
proof -
  obtain P where P: "profile_by_id e pid = Some P" "0 < max_streams P" and room: "has_room R L e P 0 None (store q)"
    and s1: "s1 = snd (reserve_profile_slot R L e P 0 None (store q))"
    using taken [OF got counted] by blast
  have s2: "s2 = s1" using lost by (auto simp: create_pool_session_def Let_def split: if_splits)
  have here: "pool_ok R (store q)" "pid_used R (store q) =
      base(prof q := base (prof q) + (if session_active q then 1 else 0))"
    using ok by (auto simp: session_ok_def slot_ok_def)
  have nn: "0 \<le> pid_used R (store q) pid" using here(2) base [of pid] base [of "prof q"] by simp
  have p1: "pool_ok R s1" "pid_used R s1 = (pid_used R (store q))(pid := pid_used R (store q) pid + 1)"
    using here(1) room P profile_by_id_id [OF P(1)] by (simp_all add: s1 reserve_pool_ok reserve_used)
  let ?s = "release_profile_slot R pid s1"
  have "pool_ok R ?s" "pid_used R ?s = pid_used R (store q)"
    using p1 nn by (auto simp: release_pool_ok release_used)
  then have "slot_ok R (prof q) base (session_active q) ?s" using here(2) by (simp add: slot_ok_def)
  moreover have "entry_ok R e sess (prof q) (session_active q) ?s"
    by (rule entry_cong [of _ sess "store q"])
      (use ok p1 in \<open>auto simp: session_ok_def r_exists_def released_keeps s1 reserved_keeps\<close>)
  moreover have "streams_ok R sess (q\<lparr>store := ?s\<rparr>) = streams_ok R sess q"
    by (rule streams_frame) (simp_all add: released_streams [OF p1(1)], simp_all add: s1)
  ultimately show ?thesis
    using ok by (simp add: session_ok_def session_active_def s2)
qed

end

context redis
begin

lemma preempt_keeps:
  "r_count R (preempt_playback_streams R targets sess s) = r_count R s"
  "r_hash R (preempt_playback_streams R targets sess s) = r_hash R s"
  "r_members R (preempt_playback_streams R targets sess s) = r_members R s"
  "(\<And>v. k \<noteq> Catchup_stop v sess) \<Longrightarrow> r_get R (preempt_playback_streams R targets sess s) k = r_get R s k"
  "r_get R (preempt_playback_streams R targets sess s) (Catchup_stop v sess) =
     (if v \<in> set targets
      then Some (VInt (let g = current_stream_generation R v sess s in if g = 0 then 1 else g))
      else r_get R s (Catchup_stop v sess))"
proof -
  have each: "r_count R (preempt_playback_streams R targets sess s) = r_count R s \<and>
      r_hash R (preempt_playback_streams R targets sess s) = r_hash R s \<and>
      r_members R (preempt_playback_streams R targets sess s) = r_members R s \<and>
      (\<forall>k. (\<forall>v. k \<noteq> Catchup_stop v sess) \<longrightarrow> r_get R (preempt_playback_streams R targets sess s) k = r_get R s k) \<and>
      r_get R (preempt_playback_streams R targets sess s) (Catchup_stop v sess) =
       (if v \<in> set targets
        then Some (VInt (let g = current_stream_generation R v sess s in if g = 0 then 1 else g))
        else r_get R s (Catchup_stop v sess))"
  proof (induction targets arbitrary: s)
    case Nil
    show ?case by (simp add: preempt_playback_streams_def)
  next
    case (Cons u us)
    have step: "preempt_playback_streams R (u # us) sess s =
        preempt_playback_streams R us sess (set_client_stop R u sess Reuse s)"
      by (simp add: preempt_playback_streams_def)
    show ?case unfolding step using Cons.IH [of "set_client_stop R u sess Reuse s"]
      by (auto simp: set_client_stop_def Let_def current_stream_generation_def)
  qed
  then show "r_count R (preempt_playback_streams R targets sess s) = r_count R s"
    "r_hash R (preempt_playback_streams R targets sess s) = r_hash R s"
    "r_members R (preempt_playback_streams R targets sess s) = r_members R s"
    "(\<And>v. k \<noteq> Catchup_stop v sess) \<Longrightarrow> r_get R (preempt_playback_streams R targets sess s) k = r_get R s k"
    "r_get R (preempt_playback_streams R targets sess s) (Catchup_stop v sess) =
       (if v \<in> set targets
        then Some (VInt (let g = current_stream_generation R v sess s in if g = 0 then 1 else g))
        else r_get R s (Catchup_stop v sess))"
    by blast+
qed

lemma preempt_generation [simp]:
  "current_stream_generation R v sess (preempt_playback_streams R targets sess s) = current_stream_generation R v sess s"
  by (simp add: current_stream_generation_def preempt_keeps)

text \<open>A seek's stops leave every stream that runs replaced.\<close>

lemma preempt_replaces:
  assumes ok: "streams_ok R sess q" and "served q" "fst (last (running q)) \<in> set targets" "x \<in> set (running q)"
  shows "replaced R sess (preempt_playback_streams R targets sess (store q)) x"
proof -
  obtain v g i where x: "x = (v, g, i)" by (cases x)
  have "0 < g" "g \<le> current_stream_generation R v sess (store q)"
    using streams_okD(2) [OF ok assms(4)] by (simp_all add: numbered_def x)
  then show ?thesis
    using streams_okD(5) [OF ok assms(4)] assms(3)
    by (cases "v \<in> set targets") (auto simp: replaced_def x preempt_keeps Let_def dest: arg_cong [where f = fst])
qed

lemma preempted_streams:
  assumes ok: "streams_ok R sess q" and "served q" "fst (last (running q)) \<in> set targets"
    and "\<And>v. current_stream_generation R v sess s' = current_stream_generation R v sess (store q)"
    and "\<And>v. r_get R s' (Catchup_stop v sess) =
       r_get R (preempt_playback_streams R targets sess (store q)) (Catchup_stop v sess)"
  shows "streams_ok R sess (q\<lparr>store := s', pending := b, served := False\<rparr>)"
  using preempt_replaces [OF assms(1-3)] streams_okD(1,2) [OF ok] assms(4,5)
  by (auto simp: streams_ok_def replaced_def numbered_def)

lemma seek_keeps:
  assumes ok: "session_ok R e sess base q" and "served q" "fst (last (running q)) \<in> set targets"
    and acq: "acquire_idle_pool_session R L e' sess usr True
                (preempt_playback_streams R targets sess (store q)) = (Some (d, p), s1)"
  shows "session_ok R e sess base (q\<lparr>store := s1, pending := True, served := False\<rparr>)"
proof -
  let ?s = "preempt_playback_streams R targets sess (store q)"
  have s1: "s1 = marked_busy R sess (now e') ?s" and d: "r_hash R (store q) (Catchup_pool sess) \<noteq> []"
    using acquire_some [OF acq] by (auto simp: preempt_keeps)
  have "slot_ok R (prof q) base True s1"
    by (rule slot_frame [of _ "store q"])
      (use ok assms(2) in \<open>auto simp: session_ok_def session_active_def s1 preempt_keeps\<close>)
  moreover have "entry_ok R e sess (prof q) True s1" unfolding s1
    by (rule marked_busy_entry, rule entry_cong [of _ sess "store q"])
      (use ok d in \<open>auto simp: session_ok_def preempt_keeps r_exists_def\<close>)
  moreover have "streams_ok R sess (q\<lparr>store := s1, pending := True, served := False\<rparr>)"
    by (rule preempted_streams [OF _ assms(2,3)])
      (use ok in \<open>simp_all add: session_ok_def s1 current_stream_generation_def preempt_keeps(1)\<close>)
  ultimately show ?thesis by (simp add: session_ok_def session_active_def)
qed

lemma discarded:
  assumes slot: "slot_ok R pid base True s" and "0 \<le> base pid" "sess \<noteq> []"
    and def: "s' = discard_pool_session R sess (Some pid) s"
  shows "slot_ok R pid base False s'" "entry_ok R e sess pid False s'"
    "current_stream_generation R v c s' = current_stream_generation R v c s"
    "r_get R s' (Catchup_stop v c) = r_get R s (Catchup_stop v c)"
proof -
  have ok: "pool_ok R s" using slot by (simp add: slot_ok_def)
  have s': "s' = r_del R (release_profile_slot R pid s) (Catchup_pool sess)"
    using assms(3) by (simp add: def discard_pool_session_def)
  show "slot_ok R pid base False s'" unfolding s'
    by (rule slot_frame [OF _ _ slot_given [OF slot assms(2)]]) auto
  show "entry_ok R e sess pid False s'" by (rule entry_gone) (simp add: s')
  show "current_stream_generation R v c s' = current_stream_generation R v c s"
    "r_get R s' (Catchup_stop v c) = r_get R s (Catchup_stop v c)"
    using released_streams [OF ok] by (simp_all add: s' current_stream_generation_def)
qed

lemma fails_keeps:
  assumes ok: "session_ok R e sess base q" and "pending q" and "0 \<le> base (prof q)" "sess \<noteq> []"
  shows "session_ok R e sess base (q\<lparr>store := discard_pool_session R sess (Some (prof q)) (store q), pending := False\<rparr>)"
proof -
  have slot: "slot_ok R (prof q) base True (store q)" and "\<not> served q"
    using ok assms(2) streams_okD(3) by (auto simp: session_ok_def session_active_def)
  note d = discarded [OF slot assms(3,4) refl]
  have "streams_ok R sess (q\<lparr>store := discard_pool_session R sess (Some (prof q)) (store q)\<rparr>) = streams_ok R sess q"
    by (rule streams_frame) (rule d(3), rule d(4))
  then show ?thesis using ok d(1,2) \<open>\<not> served q\<close>
    by (auto simp: session_ok_def session_active_def streams_ok_def)
qed

lemma abandon_keeps:
  assumes ok: "session_ok R e sess base q" and "served q" "fst (last (running q)) \<in> set targets"
    and "0 \<le> base (prof q)" "sess \<noteq> []"
  shows "session_ok R e sess base (q\<lparr>store := force_abandon_busy_pool R sess (Some (prof q))
          (preempt_playback_streams R targets sess (store q)), served := False\<rparr>)"
proof -
  let ?s = "r_setex R (preempt_playback_streams R targets sess (store q)) (Catchup_superseded sess) 120 (VStr ''1'')"
  have slot: "slot_ok R (prof q) base True ?s"
    by (rule slot_frame [of _ "store q"])
      (use ok assms(2) in \<open>auto simp: session_ok_def session_active_def preempt_keeps\<close>)
  note d = discarded [OF slot assms(4,5) refl]
  have s: "force_abandon_busy_pool R sess (Some (prof q)) (preempt_playback_streams R targets sess (store q)) =
      discard_pool_session R sess (Some (prof q)) ?s"
    using assms(5) by (simp add: force_abandon_busy_pool_def)
  have np: "\<not> pending q" using ok assms(2) streams_okD(3) by (auto simp: session_ok_def)
  have "streams_ok R sess (q\<lparr>store := discard_pool_session R sess (Some (prof q)) ?s, pending := pending q, served := False\<rparr>)"
    by (rule preempted_streams [OF _ assms(2,3)])
      (use ok d(3,4) in \<open>simp_all add: session_ok_def current_stream_generation_def preempt_keeps(1)\<close>)
  then have "streams_ok R sess (q\<lparr>store := discard_pool_session R sess (Some (prof q)) ?s, served := False\<rparr>)"
    by (cases q) simp
  then show ?thesis using d(1,2) np by (simp add: session_ok_def session_active_def s)
qed

end

context redis
begin

lemma reopen_keeps:
  assumes ok: "session_ok R e sess base q"
    and acq: "acquire_idle_pool_session R L (e\<lparr>now := t\<rparr>) sess usr False (store q) = (Some (d, p), s1)"
  shows "session_ok R e sess base (q\<lparr>store := s1, pending := True\<rparr>)"
proof -
  let ?e = "e\<lparr>now := t\<rparr>"
  from acquire_some [OF acq] obtain i where
    d: "d = r_hash R (store q) (Catchup_pool sess)" "d \<noteq> []" "\<not> entry_busy d"
      and i: "parse_int (entry_text d ''profile_id'') = Some i" "profile_by_id ?e i = Some p"
      and room: "has_room R L ?e p 0 None (store q)"
    and s1: "s1 = marked_busy R sess t (snd (reserve_profile_slot R L ?e p 0 None (store q)))"
    by auto
  have entry: "entry_text d ''profile_id'' = dec (prof q)" "pid_counted e (prof q)" and idle: "\<not> session_active q"
    using ok d by (auto simp: session_ok_def entry_ok_def Let_def)
  have P: "profile_by_id ?e (prof q) = Some p" "0 < max_streams p"
    using i entry by (auto simp: pid_counted_def)
  have slot: "slot_ok R (prof q) base False (store q)" "entry_ok R e sess (prof q) False (store q)"
    using ok idle by (auto simp: session_ok_def)
  let ?s = "snd (reserve_profile_slot R L ?e p 0 None (store q))"
  have "slot_ok R (prof q) base True s1" unfolding s1
    by (rule slot_frame [OF _ _ slot_taken [OF slot(1) P room]]) auto
  moreover have "entry_ok R e sess (prof q) True s1" unfolding s1
    by (rule marked_busy_entry, rule entry_cong [OF _ _ slot(2)])
      (use d in \<open>auto simp: reserved_keeps r_exists_def\<close>)
  moreover have "streams_ok R sess (q\<lparr>store := s1\<rparr>) = streams_ok R sess q"
    by (rule streams_frame) (simp_all add: s1 current_stream_generation_def reserved_keeps)
  then have "streams_ok R sess (q\<lparr>store := s1, pending := True\<rparr>)"
    using ok idle by (auto simp: session_ok_def session_active_def streams_ok_def)
  ultimately show ?thesis by (simp add: session_ok_def session_active_def)
qed

text \<open>The holder lets the slot go and leaves the entry idle.\<close>

lemma release_idle:
  assumes slot: "slot_ok R pid base True s" and entry: "entry_ok R e sess pid True s" and "0 \<le> base pid" "sess \<noteq> []"
    and def: "s' = release_pool_session R t sess (Some pid) True True s"
  shows "slot_ok R pid base False s'" "entry_ok R e sess pid False s'"
    "current_stream_generation R v c s' = current_stream_generation R v c s"
    "r_get R s' (Catchup_stop v c) = r_get R s (Catchup_stop v c)"
proof -
  have ok: "pool_ok R s" using slot by (simp add: slot_ok_def)
  let ?s = "release_profile_slot R pid s"
  have s': "s' = r_expire R (hset_all R (Catchup_pool sess) [(''busy'', VStr ''0''), (''last_activity'', VTime t)] ?s)
      (Catchup_pool sess) POOL_IDLE_TTL"
    using entry ok assms(4)
    by (simp add: def release_pool_session_def entry_ok_def Let_def r_exists_def released_keeps)
  show "slot_ok R pid base False s'" unfolding s'
    by (rule slot_frame [of _ ?s]) (use slot_given [OF slot assms(3)] in auto)
  show "entry_ok R e sess pid False s'"
    using entry ok
    by (simp add: entry_ok_def Let_def entry_busy_def r_exists_def s' released_keeps)
  show "current_stream_generation R v c s' = current_stream_generation R v c s"
    "r_get R s' (Catchup_stop v c) = r_get R s (Catchup_stop v c)"
    using released_streams [OF ok] by (simp_all add: s' current_stream_generation_def)
qed

lemma let_go_keeps:
  assumes ok: "session_ok R e sess base q" and "pending q" and "0 \<le> base (prof q)" "sess \<noteq> []"
  shows "session_ok R e sess base
    (q\<lparr>store := snd (release_once R t sess (Some (prof q)) True True (False, store q)), pending := False\<rparr>)"
proof -
  have slot: "slot_ok R (prof q) base True (store q)" "entry_ok R e sess (prof q) True (store q)" and "\<not> served q"
    using ok assms(2) streams_okD(3) by (auto simp: session_ok_def session_active_def)
  note d = release_idle [OF slot assms(3,4) refl]
  have "streams_ok R sess (q\<lparr>store := release_pool_session R t sess (Some (prof q)) True True (store q)\<rparr>) =
      streams_ok R sess q"
    by (rule streams_frame) (rule d(3), rule d(4))
  then show ?thesis using ok d(1,2) \<open>\<not> served q\<close>
    by (auto simp: session_ok_def session_active_def streams_ok_def release_once_def)
qed

lemma begin_keeps:
  assumes ok: "session_ok R e sess base q" and "pending q"
    and alloc: "allocate_stream_generation R vid sess (store q) = (g, s1)"
  shows "session_ok R e sess base
    (q\<lparr>store := s1, running := running q @ [(vid, g, prof q)], pending := False, served := True\<rparr>)"
proof -
  have active: "session_active q" using assms(2) by (simp add: session_active_def)
  have so: "streams_ok R sess q" using ok by (simp add: session_ok_def)
  have none: "\<not> served q" using streams_okD(3) [OF so] assms(2) by blast
  have g: "g = current_stream_generation R vid sess (store q) + 1"
    and s1: "s1 = r_del R (r_del R (r_expire R (r_incr R (store q) (Catchup_generation vid sess))
      (Catchup_generation vid sess) POOL_ENTRY_TTL) (Catchup_stop vid sess)) (Catchup_superseded sess)"
    using alloc by (auto simp: allocate_stream_generation_def Let_def current_stream_generation_def)
  have cur: "current_stream_generation R v sess s1 = current_stream_generation R v sess (store q) + (if v = vid then 1 else 0)"
    and stop: "r_get R s1 (Catchup_stop v sess) = (if v = vid then None else r_get R (store q) (Catchup_stop v sess))" for v
    by (auto simp: s1 current_stream_generation_def)
  have "slot_ok R (prof q) base True s1"
    by (rule slot_frame [of _ "store q"]) (use ok active in \<open>auto simp: session_ok_def s1\<close>)
  moreover have "entry_ok R e sess (prof q) True s1"
    by (rule entry_cong [of _ sess "store q"]) (use ok active in \<open>auto simp: session_ok_def s1 r_exists_def\<close>)
  moreover have "numbered R sess s1 x \<and> replaced R sess s1 x" if x: "x \<in> set (running q)" for x
    using streams_okD(2) [OF so x] streams_okD(4) [OF so x none]
    by (auto simp: numbered_def replaced_def cur stop split: if_splits)
  then have "streams_ok R sess (q\<lparr>store := s1, running := running q @ [(vid, g, prof q)], pending := False, served := True\<rparr>)"
    using streams_okD(1) [OF so] by (auto simp: streams_ok_def holds_def numbered_def cur stop g)
  ultimately show ?thesis by (simp add: session_ok_def session_active_def)
qed

text \<open>A stream that was replaced ends: nothing changes. The one that holds the slot ends: the slot goes back.\<close>

lemma finish_replaced:
  assumes "replaced R sess s (vid, gen, pid)" "0 < gen"
  shows "finish_stream R t vid sess sess i gen probe asked s = s"
  using assms
  by (auto simp: finish_stream_def stream_stop_requested_def release_once_def release_pool_session_def Let_def replaced_def)

lemma finish_last:
  assumes "r_get R s (Catchup_stop vid sess) = None" "current_stream_generation R vid sess s \<le> gen"
  shows "finish_stream R t vid sess sess pid gen probe False s =
    release_pool_session R t sess (Some pid) True True (if probe then s else cleanup_stream_generation R vid sess s)"
  using assms by (simp add: finish_stream_def stream_stop_requested_def release_once_def Let_def)

lemma holder_end_keeps:
  assumes ok: "session_ok R e sess base q" and run: "running q = [(vid, g, pid)]" and "served q"
    and "0 \<le> base (prof q)" "sess \<noteq> []"
  shows "session_ok R e sess base
    (q\<lparr>store := finish_stream R t vid sess sess pid g probe False (store q), running := [], served := False\<rparr>)"
proof -
  have so: "streams_ok R sess q" using ok by (simp add: session_ok_def)
  have holder: "pid = prof q" "r_get R (store q) (Catchup_stop vid sess) = None"
    "current_stream_generation R vid sess (store q) \<le> g" "\<not> pending q"
    using streams_okD(3) [OF so assms(3)] by (auto simp: run holds_def)
  define s where "s = (if probe then store q else cleanup_stream_generation R vid sess (store q))"
  have "slot_ok R pid base True s" unfolding s_def
    by (rule slot_frame [of _ "store q"])
      (use ok assms(3) holder(1) in \<open>auto simp: session_ok_def session_active_def cleanup_stream_generation_def\<close>)
  moreover have "entry_ok R e sess pid True s" unfolding s_def
    by (rule entry_cong [of _ sess "store q"])
      (use ok assms(3) holder(1) in \<open>auto simp: session_ok_def session_active_def r_exists_def cleanup_stream_generation_def split: if_splits\<close>)
  ultimately have d: "slot_ok R pid base False (finish_stream R t vid sess sess pid g probe False (store q))"
    "entry_ok R e sess pid False (finish_stream R t vid sess sess pid g probe False (store q))"
    "current_stream_generation R v sess (finish_stream R t vid sess sess pid g probe False (store q)) =
       current_stream_generation R v sess s" for v
    using release_idle [OF _ _ _ assms(5) refl] assms(4) holder(1)
    unfolding finish_last [OF holder(2,3)] s_def [symmetric] by blast+
  have "0 \<le> current_stream_generation R v sess s" for v
    using streams_okD(1) [OF so, of v]
    by (auto simp: s_def cleanup_stream_generation_def current_stream_generation_def)
  then show ?thesis
    using d holder(1,4) by (simp add: session_ok_def session_active_def streams_ok_def)
qed

lemma end_keeps:
  assumes ok: "session_ok R e sess base q" and run: "running q = xs @ (vid, g, pid) # ys"
    and order: "served q \<and> ys = [] \<longrightarrow> xs = [] \<and> \<not> asked" and base: "0 \<le> base (prof q)" "sess \<noteq> []"
  shows "session_ok R e sess base
    (q\<lparr>store := finish_stream R t vid sess sess pid g probe asked (store q), running := xs @ ys,
       served := served q \<and> ys \<noteq> []\<rparr>)"
proof (cases "served q \<and> ys = []")
  case True
  then show ?thesis using holder_end_keeps [OF ok _ _ base, of vid g pid t probe] run order by simp
next
  case False
  have so: "streams_ok R sess q" using ok by (simp add: session_ok_def)
  have rep: "replaced R sess (store q) (vid, g, pid)"
    using False so by (auto simp: streams_ok_def run butlast_append split: if_splits)
  have "0 < g" using streams_okD(2) [OF so, of "(vid, g, pid)"] by (simp add: run numbered_def)
  then have same: "finish_stream R t vid sess sess pid g probe asked (store q) = store q"
    using finish_replaced [OF rep] by blast
  have "streams_ok R sess (q\<lparr>running := xs @ ys, served := served q \<and> ys \<noteq> []\<rparr>)"
    using False so by (auto simp: streams_ok_def run butlast_append split: if_splits)
  then show ?thesis using ok False same by (auto simp: session_ok_def session_active_def)
qed

end

section \<open>Every step keeps the invariant\<close>

context redis
begin

lemma seek_step_keeps:
  assumes "seek_step R L e usr sess q q'" and ok: "session_ok R e sess base q"
    and base: "\<And>i. 0 \<le> base i" and sess: "sess \<noteq> []"
  shows "session_ok R e sess base q'"
  using assms(1)
proof cases
  case (create pid s1 d t s2)
  then show ?thesis using create_keeps [OF ok create(2,3,4,6)] by simp
next
  case (lost_race pid s1 t d s2)
  then show ?thesis using lost_race_keeps [OF ok lost_race(2) base lost_race(3,4)] by simp
next
  case (reopen t d p s1)
  then show ?thesis using reopen_keeps [OF ok reopen(2)] by simp
next
  case (seek targets t d p s1)
  then show ?thesis using seek_keeps [OF ok seek(2,3,4)] by simp
next
  case (abandon targets)
  then show ?thesis using abandon_keeps [OF ok abandon(2,3) base sess] by simp
next
  case fails
  then show ?thesis using fails_keeps [OF ok fails(2) base sess] by simp
next
  case (let_go t)
  then show ?thesis using let_go_keeps [OF ok let_go(2) base sess] by simp
next
  case (stream_begins vid g s1)
  then show ?thesis using begin_keeps [OF ok stream_begins(2,3)] by simp
next
  case (stream_ends xs vid g pid ys asked t probe)
  then show ?thesis using end_keeps [OF ok stream_ends(2,3) base sess] by simp
qed

lemma seek_steps_keep:
  assumes "(seek_step R L e usr sess)\<^sup>*\<^sup>* q q'" and "session_ok R e sess base q"
    and "\<And>i. 0 \<le> base i" "sess \<noteq> []"
  shows "session_ok R e sess base q'"
  using assms(1)
proof (induction rule: rtranclp_induct)
  case base
  show ?case by (rule assms(2))
next
  case (step q1 q2)
  show ?case by (rule seek_step_keeps [OF step(2,3) assms(3,4)])
qed

end

context redis
begin

lemma finish_gives:
  assumes ok: "pool_ok R s" and "r_get R s (Catchup_stop vid sess) = None"
    and "current_stream_generation R vid sess s \<le> gen" and "\<not> r_exists R s (Catchup_superseded sess)"
    and def: "s' = finish_stream R t vid sess sess pid gen probe False s"
  shows "pool_ok R s'" "pid_used R s' = (pid_used R s)(pid := max 0 (pid_used R s pid - 1))"
    "r_get R s' (Catchup_stop vid sess) = None" "\<not> r_exists R s' (Catchup_superseded sess)"
    "vid \<noteq> [] \<Longrightarrow> sess \<noteq> [] \<Longrightarrow> \<not> probe \<Longrightarrow> current_stream_generation R vid sess s' = 0"
proof -
  define x where "x = (if probe then s else cleanup_stream_generation R vid sess s)"
  have "pool_ok R x = pool_ok R s \<and> pid_used R x = pid_used R s"
    by (rule pool_frame) (auto simp: x_def cleanup_stream_generation_def)
  then have x: "pool_ok R x" "pid_used R x = pid_used R s" using ok by auto
  have super: "\<not> r_exists R x (Catchup_superseded sess)"
    using assms(4) by (auto simp: x_def r_exists_def cleanup_stream_generation_def)
  let ?y = "release_profile_slot R pid x"
  have s': "s' = ?y \<or> (\<exists>fs n. s' = r_expire R (hset_all R (Catchup_pool sess) fs ?y) (Catchup_pool sess) n)"
    using super unfolding def finish_last [OF assms(2,3)] x_def [symmetric]
    by (auto simp: release_pool_session_def Let_def)
  have "pool_ok R s' = pool_ok R ?y \<and> pid_used R s' = pid_used R ?y"
    by (rule pool_frame) (use s' in auto)
  then show "pool_ok R s'" "pid_used R s' = (pid_used R s)(pid := max 0 (pid_used R s pid - 1))"
    using x by (simp_all add: release_pool_ok release_used)
  have "r_get R x (Catchup_stop vid sess) = None" using assms(2) by (auto simp: x_def cleanup_stream_generation_def)
  then show "r_get R s' (Catchup_stop vid sess) = None" using s' x(1) by (auto simp: released_keeps)
  show "\<not> r_exists R s' (Catchup_superseded sess)" using s' x(1) super by (auto simp: r_exists_def released_keeps)
  show "vid \<noteq> [] \<Longrightarrow> sess \<noteq> [] \<Longrightarrow> \<not> probe \<Longrightarrow> current_stream_generation R vid sess s' = 0"
    using s' x(1) by (auto simp: current_stream_generation_def released_keeps x_def cleanup_stream_generation_def)
qed

lemma finish_both_orders:
  assumes ok: "pool_ok R s" and two: "2 \<le> pid_used R s pid"
    and names: "sess \<noteq> []" "vid \<noteq> []" and clear: "r_get R s (Catchup_stop vid sess) = None" "\<not> r_exists R s (Catchup_superseded sess)"
    and gens: "0 < g" "g < g'" "current_stream_generation R vid sess s = g'"
  shows "pid_used R (finish_stream R t' vid sess sess pid g probe False
           (finish_stream R t vid sess sess pid g' False False s)) pid = pid_used R s pid - 2"
    "pid_used R (finish_stream R t' vid sess sess pid g' False False
           (finish_stream R t vid sess sess pid g probe False s)) pid = pid_used R s pid - 1"
proof -
  let ?s = "finish_stream R t vid sess sess pid g' False False s"
  have last: "current_stream_generation R vid sess s \<le> g'" using gens by simp
  note first = finish_gives [where t = t and pid = pid and probe = False, OF ok clear(1) last clear(2) refl]
  have "current_stream_generation R vid sess ?s \<le> g" using first(5) names gens by simp
  from finish_gives(2) [where t = t' and pid = pid and probe = probe, OF first(1,3) this first(4) refl] two
  show "pid_used R (finish_stream R t' vid sess sess pid g probe False ?s) pid = pid_used R s pid - 2"
    by (simp add: first(2))
  have "finish_stream R t vid sess sess pid g probe False s = s"
    using finish_replaced [of sess s vid g pid t pid probe False] gens clear by (simp add: replaced_def)
  with finish_gives(2) [where t = t' and pid = pid and probe = False, OF ok clear(1) last clear(2) refl] two
  show "pid_used R (finish_stream R t' vid sess sess pid g' False False
           (finish_stream R t vid sess sess pid g probe False s)) pid = pid_used R s pid - 1"
    by simp
qed


text \<open>A take-over does not ask whether the slot is being taken over already.\<close>

lemma handoff_again:
  assumes "acquire_idle_pool_session R L e sess (Some usr) True s = (Some (d, p), s1)" "profile_by_id e' = profile_by_id e"
    and "r_hash R s' (Catchup_pool sess) = r_hash R s1 (Catchup_pool sess)"
  shows "\<exists>d'. acquire_idle_pool_session R L e' sess (Some usr) True s' = (Some (d', p), marked_busy R sess (now e') s')"
proof -
  from acquire_some [OF assms(1)] obtain i where i: "d \<noteq> []" "d = r_hash R s (Catchup_pool sess)"
      "parse_int (entry_text d ''profile_id'') = Some i" "profile_by_id e i = Some p"
    and s1: "s1 = marked_busy R sess (now e) s" by auto
  have had: "sess \<noteq> []" "entry_text d ''profile_id'' \<noteq> []" "pool_entry_owned_by_user d usr"
    using assms(1) i(2) by (auto simp: acquire_idle_pool_session_def Let_def split: if_splits)
  let ?d = "r_hash R s' (Catchup_pool sess)"
  have same_text: "entry_text ?d f = entry_text d f" if "f \<noteq> ''busy''" "f \<noteq> ''last_activity''" for f
    using that by (simp add: assms(3) s1 i(2) marked_busy_texts)
  have "?d \<noteq> []" using hset_all_nonempty by (simp add: assms(3) s1 marked_busy_def)
  moreover have "pool_entry_owned_by_user ?d usr" using had(3) by (simp add: pool_entry_owned_by_user_def same_text)
  ultimately show ?thesis using had i(3,4) assms(2)
    by (simp add: acquire_idle_pool_session_def Let_def same_text marked_busy_def)
qed

lemma two_handoffs:
  assumes ok: "pool_ok R s" and "sess \<noteq> []" "2 \<le> pid_used R s pid"
    and first: "acquire_idle_pool_session R L e sess (Some usr) True (preempt_playback_streams R targets sess s) = (Some (d, p), s1)"
  shows "\<exists>d' s2. acquire_idle_pool_session R L (e\<lparr>now := t\<rparr>) sess (Some usr) True
             (preempt_playback_streams R targets' sess s1) = (Some (d', p), s2) \<and>
           pid_used R s2 = pid_used R s \<and>
           pid_used R (discard_pool_session R sess (Some pid) (discard_pool_session R sess (Some pid) s2)) pid =
             pid_used R s pid - 2"
proof -
  have same: "profile_by_id (e\<lparr>now := t\<rparr>) = profile_by_id e" by (rule ext) simp
  define s2 where "s2 = marked_busy R sess t (preempt_playback_streams R targets' sess s1)"
  obtain d' where second: "acquire_idle_pool_session R L (e\<lparr>now := t\<rparr>) sess (Some usr) True
      (preempt_playback_streams R targets' sess s1) = (Some (d', p), s2)"
    using handoff_again [OF first same preempt_keeps(2) [THEN fun_cong]] by (auto simp: s2_def)
  have s1: "s1 = marked_busy R sess (now e) (preempt_playback_streams R targets sess s)"
    using acquire_some [OF first] by auto
  have "pool_ok R s2 = pool_ok R s \<and> pid_used R s2 = pid_used R s"
    by (rule pool_frame) (simp_all add: s2_def s1 preempt_keeps)
  then have p2: "pool_ok R s2" "pid_used R s2 = pid_used R s" using ok by auto
  have gone: "pool_ok R (discard_pool_session R sess (Some pid) x) \<and>
      pid_used R (discard_pool_session R sess (Some pid) x) = (pid_used R x)(pid := max 0 (pid_used R x pid - 1))"
    if "pool_ok R x" for x
  proof -
    have "pool_ok R (discard_pool_session R sess (Some pid) x) = pool_ok R (release_profile_slot R pid x) \<and>
        pid_used R (discard_pool_session R sess (Some pid) x) = pid_used R (release_profile_slot R pid x)"
      by (rule pool_frame) (use assms(2) in \<open>auto simp: discard_pool_session_def\<close>)
    then show ?thesis using that by (simp add: release_pool_ok release_used)
  qed
  have "pid_used R (discard_pool_session R sess (Some pid) (discard_pool_session R sess (Some pid) s2)) pid =
      pid_used R s pid - 2"
    using gone [OF p2(1)] gone [of "discard_pool_session R sess (Some pid) s2"] p2(2) assms(3) by simp
  then show ?thesis using second p2(2) by blast
qed

end

section \<open>Properties\<close>

text \<open>A stream that was told to make way for another, or that a newer one of its programme outnumbers.\<close>

definition makes_way :: "'s redis_api \<Rightarrow> string \<Rightarrow> 's \<Rightarrow> playing \<Rightarrow> bool" where
  "makes_way R sess s = (\<lambda>(v, g, i).
     stream_stop_requested R v sess g s = (True, True) \<or> g < current_stream_generation R v sess s)"

text \<open>A slot is due to a request whose stream is yet to begin, and to a stream that need not make way.\<close>

definition slot_due :: "'s redis_api \<Rightarrow> string \<Rightarrow> 's seeking \<Rightarrow> bool" where
  "slot_due R sess q \<longleftrightarrow> pending q \<or> (\<exists>x \<in> set (running q). \<not> makes_way R sess (store q) x)"

lemma replaced_makes_way: "replaced R sess s x \<Longrightarrow> numbered R sess s x \<Longrightarrow> makes_way R sess s x"
  by (cases x) (auto simp: replaced_def numbered_def makes_way_def stream_stop_requested_def)

lemma holder_stays: "holds R sess p s x \<Longrightarrow> \<not> makes_way R sess s x"
  by (cases x) (auto simp: holds_def makes_way_def stream_stop_requested_def)

lemma active_slot_due:
  assumes "streams_ok R sess q"
  shows "session_active q \<longleftrightarrow> slot_due R sess q"
proof (cases "served q")
  case True
  have ne: "running q \<noteq> []" and h: "holds R sess (prof q) (store q) (last (running q))"
    using streams_okD(3) [OF assms True] by blast+
  have "last (running q) \<in> set (running q)" by (rule last_in_set [OF ne])
  moreover have "\<not> makes_way R sess (store q) (last (running q))" by (rule holder_stays [OF h])
  ultimately show ?thesis using True by (auto simp: session_active_def slot_due_def)
next
  case False
  have "makes_way R sess (store q) x" if "x \<in> set (running q)" for x
    by (rule replaced_makes_way [OF streams_okD(4) [OF assms that False] streams_okD(2) [OF assms that]])
  then show ?thesis using False by (simp add: session_active_def slot_due_def)
qed

text \<open>
  C37: One viewer's catch-up session, from no entry on, over any sequence of these steps: fresh
  attempts on any profile with a limit, whether they win the entry or lose the race for it; an idle
  entry taken again; seeks, on the same programme or another, that take the slot of the stream that
  has it, or that wait in vain and abandon the entry; requests that fail at the provider or raise;
  requests let go because the refusal is passed on or the viewer left; streams that begin; streams
  that end. The session uses exactly one slot, of its entry's profile, while a request has the slot
  and its stream is yet to begin or a stream runs that need not make way, none otherwise, and no
  other profile's; its entry is busy exactly then. At most one stream need not make way, it is the
  newest, it is not asked to stop, and there is none while a request has the slot. Not among the
  steps: a stream that ends while one it replaced still runs, a seek before the stream of the one
  before it began (what these two do is shown below), stops by an administrator, a limit or another
  channel, and keys that run out.
\<close>

theorem catchup_slot_follows_session:
  assumes "redis R" "sess \<noteq> []" "pool_ok R s" "r_hash R s (Catchup_pool sess) = []"
    and "\<And>v. 0 \<le> r_count R s (Catchup_generation v sess)"
    and steps: "(seek_step R L e usr sess)\<^sup>*\<^sup>*
      \<lparr>store = s, running = [], prof = pid, pending = False, served = False\<rparr> q"
  shows "pid_used R (store q) =
           (pid_used R s)(prof q := pid_used R s (prof q) + (if slot_due R sess q then 1 else 0)) \<and>
         (pool_session_busy R (store q) sess \<longleftrightarrow> slot_due R sess q) \<and>
         (pending q \<longrightarrow> (\<forall>x \<in> set (running q). makes_way R sess (store q) x)) \<and>
         (\<forall>x \<in> set (butlast (running q)). makes_way R sess (store q) x) \<and>
         (\<forall>(v, g, i) \<in> set (running q). \<not> makes_way R sess (store q) (v, g, i) \<longrightarrow>
            i = prof q \<and> stream_stop_requested R v sess g (store q) = (False, False))"
proof -
  let ?q = "\<lparr>store = s, running = [], prof = pid, pending = False, served = False\<rparr>"
  have base: "0 \<le> pid_used R s i" for i using assms(3) by (simp add: pool_ok_def pid_used_def)
  have "session_ok R e sess (pid_used R s) ?q"
    using assms(3,5) redis.entry_gone [OF assms(1,4)]
    by (simp add: session_ok_def slot_ok_def session_active_def streams_ok_def current_stream_generation_def)
  then have ok: "session_ok R e sess (pid_used R s) q"
    by (rule redis.seek_steps_keep [OF assms(1) steps _ base assms(2)])
  then have so: "streams_ok R sess q" by (simp add: session_ok_def)
  have way: "makes_way R sess (store q) x" if "x \<in> set (running q)" "replaced R sess (store q) x" for x
    by (rule replaced_makes_way [OF that(2) streams_okD(2) [OF so that(1)]])
  have old: "makes_way R sess (store q) x" if "x \<in> set (butlast (running q))" for x
    by (rule way [OF in_set_butlastD [OF that]])
      (use that so in_set_butlastD [OF that] in \<open>auto simp: streams_ok_def split: if_splits\<close>)
  have new: "i = prof q \<and> stream_stop_requested R v sess g (store q) = (False, False)"
    if "(v, g, i) \<in> set (running q)" "\<not> makes_way R sess (store q) (v, g, i)" for v g i
  proof -
    have "(v, g, i) = last (running q)" "served q" using streams_okD(5) [OF so that(1)] way [OF that(1)] that(2) by blast+
    then have "holds R sess (prof q) (store q) (v, g, i)" using streams_okD(3) [OF so] by simp
    then show ?thesis by (simp add: holds_def stream_stop_requested_def)
  qed
  have "pending q \<longrightarrow> (\<forall>x \<in> set (running q). makes_way R sess (store q) x)"
  proof (intro impI ballI)
    fix x assume "pending q" and x: "x \<in> set (running q)"
    then have "\<not> served q" using streams_okD(3) [OF so] by blast
    then show "makes_way R sess (store q) x" using way [OF x] streams_okD(4) [OF so x] by blast
  qed
  then show ?thesis
    using ok old new active_slot_due [OF so] assms(2)
    by (auto simp: session_ok_def slot_ok_def entry_ok_def pool_session_busy_def Let_def)
qed

definition ex_descriptor :: pool_descriptor where
  "ex_descriptor = \<lparr>pd_media = ''7_2026'', pd_user = 4, pd_ip = ''10.0.0.9'', pd_agent = ''arrTV'', pd_account = 1,
     pd_profile = 1, pd_stream = ''88'', pd_row = 10, pd_timestamp = ''2026'', pd_tz = []\<rparr>"

lemma catchup_slot_follows_session_witness:
  "\<exists>q. (seek_step mem_redis ex_logins ex_env 4 ''a'')\<^sup>*\<^sup>*
         \<lparr>store = mem_empty, running = [], prof = 0, pending = False, served = False\<rparr> q \<and>
       pending q \<and> pid_used mem_redis (store q) 1 = 1"
proof -
  let ?q = "\<lparr>store = mem_empty, running = [], prof = 0, pending = False, served = False\<rparr>"
  define s1 where "s1 = snd (reserve_profile_slot mem_redis ex_logins ex_env ex_profile 0 None mem_empty)"
  have take: "take_profile_slot mem_redis ex_logins ex_env 1 mem_empty = (True, s1)"
    using mem.take_profile_slot_simps [of ex_logins ex_env 1 mem_empty] by (simp add: prod_eq_iff s1_def)
  have "\<not> r_exists mem_redis s1 (Catchup_pool ''a'')"
    by (simp add: r_exists_def s1_def mem.reserved_keeps)
  then obtain s2 where made: "create_pool_session mem_redis 0 ''a'' ex_descriptor s1 = (True, s2)"
    by (simp add: create_pool_session_def Let_def)
  have d: "pd_profile ex_descriptor = 1" "pd_user ex_descriptor = 4" by (simp_all add: ex_descriptor_def)
  have counted: "pid_counted ex_env 1" by (simp add: pid_counted_def)
  have "seek_step mem_redis ex_logins ex_env 4 ''a'' ?q (?q\<lparr>store := s2, prof := 1, pending := True\<rparr>)"
    by (rule seek_step.create [OF counted _ d made]) (use take in simp)
  then have path: "(seek_step mem_redis ex_logins ex_env 4 ''a'')\<^sup>*\<^sup>* ?q (?q\<lparr>store := s2, prof := 1, pending := True\<rparr>)"
    by (rule r_into_rtranclp)
  have "pid_used mem_redis s2 1 = 1"
    using catchup_slot_follows_session [OF mem.redis_axioms _ _ _ _ path]
    by (simp add: slot_due_def pid_used_def slots_def)
  then show ?thesis using path by (intro exI [of _ "?q\<lparr>store := s2, prof := 1, pending := True\<rparr>"]) simp
qed

text \<open>
  Two seeks at once: the second takes the slot over although the first has it and its stream has not
  begun, so both requests go by one slot; and when the provider refuses both, each gives it back,
  and the profile counts one connection less than it has.
\<close>

theorem overlapping_seeks_release_twice:
  assumes R: "redis R" and "pool_ok R s" "sess \<noteq> []" "2 \<le> pid_used R s pid"
    and "acquire_idle_pool_session R L e sess (Some usr) True (preempt_playback_streams R targets sess s) = (Some (d, p), s1)"
  shows "\<exists>d' s2. acquire_idle_pool_session R L (e\<lparr>now := t\<rparr>) sess (Some usr) True
             (preempt_playback_streams R targets' sess s1) = (Some (d', p), s2) \<and>
           pid_used R s2 = pid_used R s \<and>
           pid_used R (discard_pool_session R sess (Some pid) (discard_pool_session R sess (Some pid) s2)) pid =
             pid_used R s pid - 2"
  by (rule redis.two_handoffs [OF assms])

text \<open>
  The two streams of a seek that end in the other order give the slot back twice: the newer one,
  which has the slot, forgets the generations as it ends, and the older one, whose stop was
  deleted when the newer began, then no longer knows that it was replaced. In the order they began
  they give it back once.
\<close>

theorem newest_first_releases_twice:
  assumes R: "redis R" and ok: "pool_ok R s" and two: "2 \<le> pid_used R s pid"
    and "sess \<noteq> []" "vid \<noteq> []" "r_get R s (Catchup_stop vid sess) = None" "\<not> r_exists R s (Catchup_superseded sess)"
    and gens: "0 < g" "g < g'" "current_stream_generation R vid sess s = g'"
  shows "pid_used R (finish_stream R t' vid sess sess pid g probe False
           (finish_stream R t vid sess sess pid g' False False s)) pid = pid_used R s pid - 2 \<and>
         pid_used R (finish_stream R t' vid sess sess pid g' False False
           (finish_stream R t vid sess sess pid g probe False s)) pid = pid_used R s pid - 1"
  using redis.finish_both_orders [OF assms] by simp


definition ex_two_streams :: mem where
  "ex_two_streams = mem_empty\<lparr>m_count := (\<lambda>_. 0)(Catchup_generation ''v'' ''a'' := 2, Profile_connections 1 := 2)\<rparr>"

lemma newest_first_releases_twice_witness:
  "pid_used mem_redis (finish_stream mem_redis 1 ''v'' ''a'' ''a'' 1 1 False False
     (finish_stream mem_redis 0 ''v'' ''a'' ''a'' 1 2 False False ex_two_streams)) 1 = 0"
proof -
  have views: "r_count mem_redis ex_two_streams = (\<lambda>_. 0)(Catchup_generation ''v'' ''a'' := 2, Profile_connections 1 := 2)"
    "r_get mem_redis ex_two_streams = (\<lambda>_. None)" "r_hash mem_redis ex_two_streams = (\<lambda>_. [])"
    "r_members mem_redis ex_two_streams = (\<lambda>_. [])"
    by (simp_all add: mem_redis_def ex_two_streams_def mem_empty_def mem_lookup_def fun_eq_iff)
  have ok: "pool_ok mem_redis ex_two_streams" by (simp add: pool_ok_def slots_def views)
  show ?thesis
    using newest_first_releases_twice [OF mem.redis_axioms ok, of 1 "''a''" "''v''" 1 2 1 False 0]
    by (simp add: pid_used_def slots_def views r_exists_def current_stream_generation_def)
qed

end
