(* ===== verification/Guide_Layout.thy ===== *)
theory Guide_Layout
  imports Prelude Complex_Main
begin

text \<open>
  Arranging channels (\<^verbatim>\<open>apps/channels/guide_layout.py\<close>): the numbers channels have in a new order,
  moved as little as possible; a group numbered anew; where numbers clash; what names become with
  a text taken out; and what is written. Channel numbers are reals, dictionaries are lists of
  pairs with distinct keys.
\<close>

section \<open>Numbers of an arrangement\<close>

type_synonym numbers = "(int \<times> real option) list"

definition number_of :: "numbers \<Rightarrow> int \<Rightarrow> real option" where
  "number_of existing c = (case map_of existing c of None \<Rightarrow> None | Some n \<Rightarrow> n)"

text \<open>What the first number is, without the channel being moved.\<close>

definition base_number :: "numbers \<Rightarrow> int option \<Rightarrow> real" where
  "base_number existing moved =
     (case List.map_filter (\<lambda>(c, n). if Some c \<noteq> moved then n else None) existing of
        n # ns \<Rightarrow> fold min ns n
      | [] \<Rightarrow> (case Option.bind moved (number_of existing) of
                 None \<Rightarrow> 1
               | Some n \<Rightarrow> if n = 0 then 1 else n))"

text \<open>The channels after \<open>before\<close>, the number given last, if any was.\<close>

fun placed :: "real \<Rightarrow> numbers \<Rightarrow> int option \<Rightarrow> real option \<Rightarrow> int list \<Rightarrow> (int \<times> real) list" where
  "placed base existing moved before [] = []"
| "placed base existing moved before (c # cs) =
     (let mine = (if Some c = moved then None else number_of existing c);
          wanted = (case (before, mine) of
                      (None, None) \<Rightarrow> base
                    | (None, Some n) \<Rightarrow> n
                    | (Some l, None) \<Rightarrow> l + 1
                    | (Some l, Some n) \<Rightarrow> if n \<le> l then l + 1 else n)
      in (c, wanted) # placed base existing moved (Some wanted) cs)"

definition numbers_for :: "int list \<Rightarrow> numbers \<Rightarrow> int option \<Rightarrow> (int \<times> real) list" where
  "numbers_for order existing moved = placed (base_number existing moved) existing moved None order"

definition renumbered :: "int list \<Rightarrow> real \<Rightarrow> real \<Rightarrow> (int \<times> real) list" where
  "renumbered order start step =
     map (\<lambda>(i, c). (c, start + of_nat i * (if step = 0 then 1 else step))) (zip [0..<length order] order)"

section \<open>Clashes and gaps\<close>

text \<open>The numbers more than one channel has, of all channels.\<close>

definition clashing :: "real option list \<Rightarrow> real list" where
  "clashing all_numbers =
     (let ns = List.map_filter id all_numbers
      in sort (filter (\<lambda>n. 1 < length (filter (\<lambda>m. m = n) ns)) (remdups ns)))"

text \<open>Room between a group and the next, by the last and the first number.\<close>

definition room_after :: "real option \<Rightarrow> real option \<Rightarrow> int option" where
  "room_after last_of first_of =
     (case (last_of, first_of) of
        (Some l, Some f) \<Rightarrow> Some (max 0 ((if f - l < 0 then \<lceil>f - l\<rceil> else \<lfloor>f - l\<rfloor>) - 1))
      | _ \<Rightarrow> None)"

section \<open>Names\<close>

text \<open>\<open>s.replace(x, y)\<close> for a text that is not empty: the occurrences from the left.\<close>

function replace_all :: "string \<Rightarrow> string \<Rightarrow> string \<Rightarrow> string" where
  "replace_all x y s =
     (if x = [] then s
      else case cut x s of None \<Rightarrow> s | Some (b, a) \<Rightarrow> b @ y @ replace_all x y a)"
  by auto

termination
  by (relation "measure (\<lambda>(x, y, s). length s)") (auto dest!: cut_length simp flip: length_greater_0_conv)

text \<open>Every run of white space as one blank.\<close>

fun one_blank :: "string \<Rightarrow> string" where
  "one_blank [] = []"
| "one_blank (c # cs) =
     (if is_space c
      then (case cs of [] \<Rightarrow> '' '' | d # ds \<Rightarrow> if is_space d then one_blank cs else CHR '' '' # one_blank cs)
      else c # one_blank cs)"

definition renamed :: "(int \<times> string) list \<Rightarrow> string \<Rightarrow> string \<Rightarrow> (int \<times> string) list" where
  "renamed names take_off replace_with =
     (if take_off = [] then []
      else List.map_filter
             (\<lambda>(c, name). let now = strip (one_blank (replace_all take_off replace_with name))
                           in if now \<noteq> [] \<and> now \<noteq> name then Some (c, now) else None) names)"

section \<open>Writing\<close>

record placed_channel =
  pc_id :: int
  pc_number :: "real option"
  pc_group :: "int option"

text \<open>\<open>_write\<close>: the row after, and whether it was saved.\<close>

definition write_row ::
  "(int \<times> real) list \<Rightarrow> (int \<times> int option) list \<Rightarrow> placed_channel \<Rightarrow> placed_channel \<times> bool" where
  "write_row wanted moving r =
     (let number = (case map_of wanted (pc_id r) of Some n \<Rightarrow> Some n | None \<Rightarrow> pc_number r);
          grp = (case map_of moving (pc_id r) of Some g \<Rightarrow> g | None \<Rightarrow> pc_group r);
          r' = r\<lparr>pc_number := number, pc_group := grp\<rparr>
      in (r', r' \<noteq> r))"

definition write_all ::
  "(int \<times> real) list \<Rightarrow> (int \<times> int option) list \<Rightarrow> placed_channel list \<Rightarrow> nat \<times> placed_channel list" where
  "write_all wanted moving rows =
     (let ws = map (write_row wanted moving) rows
      in (length (filter snd ws), map fst ws))"

section \<open>Lemmas\<close>

lemma fold_min_le: "fold min ns (n :: real) \<le> n \<and> (\<forall>m \<in> set ns. fold min ns n \<le> m)"
proof (induction ns arbitrary: n)
  case (Cons m ns)
  from Cons [of "min m n"] show ?case by auto
qed simp

lemma placed_keys [simp]: "map fst (placed base existing moved before cs) = cs"
  by (induction cs arbitrary: before) (simp_all add: Let_def)

lemma placed_above:
  "(c, n) \<in> set (placed base existing moved (Some l) cs) \<Longrightarrow> l < n"
proof (induction cs arbitrary: l)
  case (Cons d ds)
  then show ?case
    by (fastforce simp: Let_def split: option.splits if_splits)
qed simp

lemma placed_increasing: "sorted_wrt (<) (map snd (placed base existing moved before cs))"
proof (induction cs arbitrary: before)
  case (Cons c cs)
  then show ?case using placed_above by (fastforce simp: Let_def)
qed simp

text \<open>Nobody is given less than the number it has, but the channel moved.\<close>

lemma placed_keeps:
  "(c, n) \<in> set (placed base existing moved before cs) \<Longrightarrow> Some c \<noteq> moved \<Longrightarrow>
   number_of existing c = Some m \<Longrightarrow> m \<le> n"
proof (induction cs arbitrary: before)
  case (Cons d ds)
  then show ?case by (auto simp: Let_def split: option.splits if_splits)
qed simp

text \<open>An arrangement that is allowed, in whole steps.\<close>

definition allowed :: "real \<Rightarrow> numbers \<Rightarrow> int option \<Rightarrow> int list \<Rightarrow> (int \<Rightarrow> int) \<Rightarrow> bool" where
  "allowed base existing moved order g \<longleftrightarrow>
     sorted_wrt (<) (map g order) \<and>
     (\<forall>c \<in> set order. Some c \<noteq> moved \<longrightarrow> (\<forall>m. number_of existing c = Some m \<longrightarrow> m \<le> of_int (g c))) \<and>
     (order \<noteq> [] \<and> (Some (hd order) = moved \<or> number_of existing (hd order) = None) \<longrightarrow> base \<le> of_int (g (hd order)))"

lemma placed_least:
  assumes "sorted_wrt (<) (map g cs)"
    and "\<forall>c \<in> set cs. Some c \<noteq> moved \<longrightarrow> (\<forall>m. number_of existing c = Some m \<longrightarrow> m \<le> of_int (g c))"
    and "\<forall>l. before = Some l \<longrightarrow> (\<exists>k. l \<le> of_int k \<and> (\<forall>c \<in> set cs. k < g c))"
    and "before = None \<Longrightarrow> cs \<noteq> [] \<and> (Some (hd cs) = moved \<or> number_of existing (hd cs) = None) \<longrightarrow> base \<le> of_int (g (hd cs))"
    and "(c, n) \<in> set (placed base existing moved before cs)"
  shows "n \<le> of_int (g c)"
  using assms
proof (induction cs arbitrary: before)
  case (Cons d ds)
  define w where "w = snd (hd (placed base existing moved before (d # ds)))"
  have unfolded: "placed base existing moved before (d # ds) = (d, w) # placed base existing moved (Some w) ds"
    by (simp add: Let_def w_def)
  have w: "w \<le> of_int (g d)"
  proof (cases before)
    case None
    then show ?thesis using Cons.prems(2,4) by (auto simp: w_def Let_def split: option.split)
  next
    case (Some l)
    then obtain k where "l \<le> of_int k" "k < g d" using Cons.prems(3) by auto
    then have "l + 1 \<le> of_int (g d)" by linarith
    then show ?thesis using Some Cons.prems(2) by (auto simp: w_def Let_def split: option.split)
  qed
  show ?case
  proof (cases "(c, n) = (d, w)")
    case True
    with w show ?thesis by simp
  next
    case False
    then have "(c, n) \<in> set (placed base existing moved (Some w) ds)"
      using Cons.prems(5) unfolding unfolded by auto
    then show ?thesis
      by (rule Cons.IH [rotated 4]) (use Cons.prems(1,2) w in auto)
  qed
qed simp

section \<open>Properties\<close>

text \<open>
  C40: Dropping a channel into a new place moves the others only as far as it has to: the numbers go up
  in the new order, no channel but the dropped one gets a lower number than it had, one that fits
  where it is keeps its number, and of all arrangements in whole numbers that do so, starting no
  lower, none gives any channel a lower number.
\<close>

theorem arranged_with_least_change:
  shows "map fst (numbers_for order existing moved) = order \<and>
         sorted_wrt (<) (map snd (numbers_for order existing moved)) \<and>
         (\<forall>(c, n) \<in> set (numbers_for order existing moved).
            (Some c \<noteq> moved \<longrightarrow> (\<forall>m. number_of existing c = Some m \<longrightarrow> m \<le> n)) \<and>
            (\<forall>g. allowed (base_number existing moved) existing moved order g \<longrightarrow> n \<le> of_int (g c)))"
proof -
  have "n \<le> of_int (g c)" if "allowed (base_number existing moved) existing moved order g"
    "(c, n) \<in> set (numbers_for order existing moved)" for g c n
    using that placed_least [of g order moved existing None "base_number existing moved" c n]
    by (simp add: allowed_def numbers_for_def)
  then show ?thesis
    using placed_increasing placed_keeps by (fastforce simp: numbers_for_def)
qed

lemma arranged_with_least_change_witness:
  "numbers_for [1, 3, 2] [(1, Some 100), (2, Some 101), (3, Some 102)] (Some 3) = [(1, 100), (3, 101), (2, 102)] \<and>
   sorted_wrt (<) (map snd (numbers_for [1, 3, 2] [(1, Some 100), (2, Some 101), (3, Some 102)] (Some 3)))"
proof -
  let ?e = "[(1, Some 100), (2, Some 101), (3, Some 102)] :: numbers"
  have "base_number ?e (Some 3) = 100" by (simp add: base_number_def List.map_filter_def)
  then show ?thesis
    using arranged_with_least_change [of "[1, 3, 2]" ?e "Some 3"]
    by (simp add: numbers_for_def number_of_def Let_def)
qed

end
