(* ===== verification/Compact_Numbering.thy ===== *)
theory Compact_Numbering
  imports Json "HOL-Library.Multiset" "HOL-Library.Char_ord" "HOL-Library.List_Lexorder" "HOL-Library.Product_Lexorder"
begin

text \<open>
  Compact channel numbers (\<^verbatim>\<open>apps/channels/compact_numbering.py\<close>, with \<open>_next_available_number\<close> of
  \<^verbatim>\<open>apps/m3u/tasks.py\<close>, \<open>natural_sort_key\<close> of \<^verbatim>\<open>core/utils.py\<close> and the two signals of
  \<^verbatim>\<open>apps/channels/signals.py\<close>): the channels made from a provider's group are packed into the
  group's range, hidden ones give their numbers up, and a number pinned by an override is nobody
  else's. Tables are lists of rows in the order of their ids; the account's lock is an argument.
\<close>

section \<open>Natural order\<close>

datatype chunk = Word string | Num int

instantiation chunk :: linorder
begin

fun less_eq_chunk :: "chunk \<Rightarrow> chunk \<Rightarrow> bool" where
  "less_eq_chunk (Word a) (Word b) = (a \<le> b)"
| "less_eq_chunk (Num a) (Num b) = (a \<le> b)"
| "less_eq_chunk (Word a) (Num b) = True"
| "less_eq_chunk (Num a) (Word b) = False"

definition less_chunk :: "chunk \<Rightarrow> chunk \<Rightarrow> bool" where
  "less_chunk a b \<longleftrightarrow> a \<le> b \<and> \<not> b \<le> a"

instance
proof
  fix a b c :: chunk
  show "a < b \<longleftrightarrow> a \<le> b \<and> \<not> b \<le> a" by (rule less_chunk_def)
  show "a \<le> a" by (cases a) auto
  show "a \<le> b \<Longrightarrow> b \<le> c \<Longrightarrow> a \<le> c" by (cases a; cases b; cases c) auto
  show "a \<le> b \<Longrightarrow> b \<le> a \<Longrightarrow> a = b" by (cases a; cases b) auto
  show "a \<le> b \<or> b \<le> a" by (cases a; cases b) auto
qed

end

lemma dropWhile_digits_shorter:
  assumes "dropWhile (\<lambda>c. \<not> is_digit c) s = d # ds"
  shows "length (dropWhile is_digit (d # ds)) < length s"
proof -
  have "is_digit d" using assms by (metis hd_dropWhile list.sel(1) list.distinct(1))
  then have "length (dropWhile is_digit (d # ds)) \<le> length ds" by (simp add: length_dropWhile_le)
  moreover have "length (d # ds) \<le> length s" using assms length_dropWhile_le [of "\<lambda>c. \<not> is_digit c" s] by simp
  ultimately show ?thesis by simp
qed

text \<open>\<open>re.split('([0-9]+)', text)\<close>, numbers as numbers and the rest in lower case.\<close>

function natural_sort_key :: "string \<Rightarrow> chunk list" where
  "natural_sort_key s =
     Word (lower (takeWhile (\<lambda>c. \<not> is_digit c) s)) #
     (case dropWhile (\<lambda>c. \<not> is_digit c) s of
        [] \<Rightarrow> []
      | d # ds \<Rightarrow>
          Num (the (parse_int (takeWhile is_digit (d # ds)))) # natural_sort_key (dropWhile is_digit (d # ds)))"
  by pat_completeness auto

termination
  by (relation "measure length") (auto simp del: dropWhile.simps dest: dropWhile_digits_shorter)

declare natural_sort_key.simps [simp del]

section \<open>The tables\<close>

record channel_row =
  cr_id :: int
  cr_name :: string
  cr_tvg :: string
  cr_updated :: real
  cr_auto :: bool
  cr_account :: "int option"
  cr_group :: "int option"
  cr_hidden :: bool
  cr_number :: "real option"
  cr_override :: "real option"

text \<open>\<open>ChannelGroupM3UAccount\<close>; the override's group is its property as an integer, where it is one.\<close>

record group_relation =
  gr_id :: int
  gr_account :: int
  gr_group :: int
  gr_start :: "real option"
  gr_end :: "real option"
  gr_props :: "(string \<times> json) list"

definition prop_of :: "group_relation \<Rightarrow> string \<Rightarrow> json" where
  "prop_of r k = (case map_of (gr_props r) k of None \<Rightarrow> JNull | Some j \<Rightarrow> j)"

definition is_compact_group :: "group_relation \<Rightarrow> bool" where
  "is_compact_group r \<longleftrightarrow> json_truthy (prop_of r ''compact_numbering'')"

definition override_group :: "group_relation \<Rightarrow> int option" where
  "override_group r =
     (let j = prop_of r ''group_override'' in if json_truthy j then json_int j else None)"

text \<open>\<open>str(cp.get("group_override", ""))\<close>\<close>

definition override_text :: "py_text \<Rightarrow> group_relation \<Rightarrow> string" where
  "override_text py r =
     (case map_of (gr_props r) ''group_override'' of None \<Rightarrow> [] | Some j \<Rightarrow> json_str py j)"

definition get_group_relation_for_channel ::
  "py_text \<Rightarrow> group_relation list \<Rightarrow> channel_row \<Rightarrow> group_relation option" where
  "get_group_relation_for_channel py rels c =
     (case (cr_account c, cr_group c) of
        (Some a, Some g) \<Rightarrow>
          (if \<not> cr_auto c then None
           else case List.find (\<lambda>r. gr_account r = a \<and> gr_group r = g) rels of
                  Some r \<Rightarrow> Some r
                | None \<Rightarrow> List.find (\<lambda>r. gr_account r = a \<and> override_text py r = dec g) rels)
      | _ \<Rightarrow> None)"

text \<open>\<open>int(x or d)\<close> of a bound that may be missing or zero.\<close>

definition bound_of :: "real option \<Rightarrow> int option" where
  "bound_of b =
     (case b of None \<Rightarrow> None
      | Some x \<Rightarrow> if x = 0 then None else Some (if x < 0 then \<lceil>x\<rceil> else \<lfloor>x\<rfloor>))"

definition range_start :: "group_relation \<Rightarrow> int" where
  "range_start r = (case bound_of (gr_start r) of None \<Rightarrow> 1 | Some n \<Rightarrow> n)"

definition range_end :: "group_relation \<Rightarrow> int option" where
  "range_end r = bound_of (gr_end r)"

section \<open>Free numbers\<close>

definition in_range :: "int option \<Rightarrow> int option \<Rightarrow> real \<Rightarrow> bool" where
  "in_range lo hi x \<longleftrightarrow>
     (case lo of None \<Rightarrow> True | Some a \<Rightarrow> of_int a \<le> x) \<and> (case hi of None \<Rightarrow> True | Some b \<Rightarrow> x \<le> of_int b)"

definition build_reserved_set ::
  "channel_row list \<Rightarrow> int list \<Rightarrow> int option \<Rightarrow> int option \<Rightarrow> real list" where
  "build_reserved_set rows excluded lo hi =
     filter (in_range lo hi) (List.map_filter cr_override rows) @
     filter (in_range lo hi)
       (List.map_filter cr_number (filter (\<lambda>c. cr_id c \<notin> set excluded) rows))"

function next_available_number :: "real list \<Rightarrow> int \<Rightarrow> int option \<Rightarrow> int option" where
  "next_available_number used n hi =
     (if of_int n \<in> set used then
        (if (case hi of None \<Rightarrow> False | Some b \<Rightarrow> b < n + 1) then None
         else next_available_number used (n + 1) hi)
      else if (case hi of None \<Rightarrow> False | Some b \<Rightarrow> b < n) then None else Some n)"
  by pat_completeness auto

termination
proof (relation "measure (\<lambda>(used, n, hi). card {x \<in> set used. of_int n \<le> x})", goal_cases)
  case (2 used n hi)
  have "{x \<in> set used. of_int (n + 1) \<le> x} \<subseteq> {x \<in> set used. of_int n \<le> x} - {of_int n}" by auto
  then have "card {x \<in> set used. of_int (n + 1) \<le> x} \<le> card ({x \<in> set used. of_int n \<le> x} - {of_int n})"
    by (intro card_mono) auto
  also have "\<dots> < card {x \<in> set used. of_int n \<le> x}" using 2 by (intro card_Diff1_less) auto
  finally show ?case by simp
qed simp

declare next_available_number.simps [simp del]

text \<open>Numbers for channels in their order, each taken one reserved for the next.\<close>

fun pack :: "real list \<Rightarrow> int \<Rightarrow> int option \<Rightarrow> int list \<Rightarrow> (int \<times> int option) list" where
  "pack reserved lo hi [] = []"
| "pack reserved lo hi (c # cs) =
     (case next_available_number reserved lo hi of
        None \<Rightarrow> (c, None) # pack reserved lo hi cs
      | Some n \<Rightarrow> (c, Some n) # pack (of_int n # reserved) lo hi cs)"

section \<open>Packing a group\<close>

definition group_ids :: "group_relation \<Rightarrow> int list" where
  "group_ids r = gr_group r # (case override_group r of None \<Rightarrow> [] | Some g \<Rightarrow> [g])"

definition members_of :: "group_relation \<Rightarrow> channel_row list \<Rightarrow> channel_row list" where
  "members_of r rows =
     filter (\<lambda>c. cr_auto c \<and> cr_account c = Some (gr_account r) \<and>
                  (\<exists>g \<in> set (group_ids r). cr_group c = Some g)) rows"

definition visible_of :: "channel_row list \<Rightarrow> channel_row list" where
  "visible_of cs = filter (\<lambda>c. cr_override c = None \<and> \<not> cr_hidden c) cs"

text \<open>\<open>list.sort(key, reverse)\<close>: the reverse keeps the order of equals.\<close>

definition py_sort :: "('a \<Rightarrow> 'k :: linorder) \<Rightarrow> bool \<Rightarrow> 'a list \<Rightarrow> 'a list" where
  "py_sort k reversed xs = (if reversed then rev (sort_key k (rev xs)) else sort_key k xs)"

definition sort_visible :: "group_relation \<Rightarrow> channel_row list \<Rightarrow> channel_row list" where
  "sort_visible r cs =
     (let by_key = prop_of r ''channel_sort_order''; reversed = json_truthy (prop_of r ''channel_sort_reverse'') in
      if by_key = JStr ''name'' then py_sort (\<lambda>c. (natural_sort_key (cr_name c), cr_id c)) reversed cs
      else if by_key = JStr ''tvg_id'' then py_sort (\<lambda>c. (cr_tvg c, cr_id c)) reversed cs
      else if by_key = JStr ''updated_at'' then py_sort (\<lambda>c. (cr_updated c, cr_id c)) reversed cs
      else cs)"

definition packed :: "group_relation \<Rightarrow> channel_row list \<Rightarrow> (int \<times> int option) list" where
  "packed r rows =
     (let cs = members_of r rows in
      pack (build_reserved_set rows (map cr_id cs) (Some (range_start r)) (range_end r))
        (range_start r) (range_end r) (map cr_id (sort_visible r (visible_of cs))))"

definition repacked_row :: "(int \<times> int option) list \<Rightarrow> int list \<Rightarrow> channel_row \<Rightarrow> channel_row" where
  "repacked_row assigned affected c =
     (if cr_id c \<notin> set affected then c
      else c\<lparr>cr_number := (case map_of assigned (cr_id c) of Some (Some n) \<Rightarrow> Some (of_int n) | _ \<Rightarrow> None)\<rparr>)"

record repack_counts =
  rc_assigned :: nat
  rc_released :: nat
  rc_failed :: nat

definition repack_group :: "group_relation \<Rightarrow> channel_row list \<Rightarrow> repack_counts \<times> channel_row list" where
  "repack_group r rows =
     (let cs = members_of r rows; assigned = packed r rows in
      (\<lparr>rc_assigned = length (filter (\<lambda>(c, n). n \<noteq> None) assigned),
        rc_released = length (filter (\<lambda>c. cr_override c = None \<and> cr_hidden c \<and> cr_number c \<noteq> None) cs),
        rc_failed = length (filter (\<lambda>(c, n). n = None) assigned)\<rparr>,
       map (repacked_row assigned (map cr_id cs)) rows))"

section \<open>Channels shown and hidden\<close>

text \<open>The pair of account and group a channel is under, of those that may get a number.\<close>

definition to_number :: "int list \<Rightarrow> channel_row \<Rightarrow> bool" where
  "to_number wanted c \<longleftrightarrow>
     cr_id c \<in> set wanted \<and> cr_auto c \<and> cr_account c \<noteq> None \<and> \<not> cr_hidden c \<and>
     cr_number c = None \<and> cr_override c = None"

definition pair_of :: "channel_row \<Rightarrow> int \<times> int option" where
  "pair_of c = (case cr_account c of None \<Rightarrow> 0 | Some a \<Rightarrow> a, cr_group c)"

text \<open>The relation of a pair: the last found directly, or else the last whose override is the group.\<close>

definition relation_of :: "group_relation list \<Rightarrow> int \<times> int option \<Rightarrow> group_relation option" where
  "relation_of rels p =
     (case List.find (\<lambda>r. gr_account r = fst p \<and> Some (gr_group r) = snd p) (rev rels) of
        Some r \<Rightarrow> Some r
      | None \<Rightarrow>
          List.find (\<lambda>r. gr_account r = fst p \<and> override_group r \<noteq> None \<and> override_group r = snd p) (rev rels))"

text \<open>
  The relations with their channels, as the dictionary by the relation's id has them: a relation
  two pairs lead to keeps its place and the channels of the later pair.
\<close>

fun put :: "int \<Rightarrow> 'v \<Rightarrow> (int \<times> 'v) list \<Rightarrow> (int \<times> 'v) list" where
  "put k v [] = [(k, v)]"
| "put k v ((j, w) # xs) = (if j = k then (k, v) # xs else (j, w) # put k v xs)"

definition by_relation ::
  "group_relation list \<Rightarrow> channel_row list \<Rightarrow> (int \<times> group_relation \<times> channel_row list) list" where
  "by_relation rels cs =
     foldl (\<lambda>acc p.
        case relation_of rels p of
          None \<Rightarrow> acc
        | Some r \<Rightarrow>
            (if is_compact_group r then put (gr_id r) (r, filter (\<lambda>c. pair_of c = p) cs) acc else acc))
       [] (rev (remdups (rev (map pair_of cs))))"

text \<open>The relations of one account after the other, accounts in the order they come up.\<close>

definition by_account ::
  "(int \<times> group_relation \<times> channel_row list) list \<Rightarrow> (int \<times> group_relation \<times> channel_row list) list" where
  "by_account xs =
     concat (map (\<lambda>a. filter (\<lambda>(i, r, cs). gr_account r = a) xs)
       (rev (remdups (rev (map (\<lambda>(i, r, cs). gr_account r) xs)))))"

text \<open>One relation's channels numbered: the results and the rows after.\<close>

definition number_relation ::
  "group_relation \<Rightarrow> int list \<Rightarrow> channel_row list \<Rightarrow> (int \<times> int option) list \<times> channel_row list" where
  "number_relation r ids rows =
     (let assigned = pack (build_reserved_set rows ids (Some (range_start r)) (range_end r))
            (range_start r) (range_end r) ids
      in (assigned,
          map (\<lambda>c. case map_of assigned (cr_id c) of Some (Some n) \<Rightarrow> c\<lparr>cr_number := Some (of_int n)\<rparr> | _ \<Rightarrow> c) rows))"

text \<open>An account that is being refreshed holds the lock: its channels wait for the refresh.\<close>

definition assign_compact_numbers_for_channels ::
  "group_relation list \<Rightarrow> int list \<Rightarrow> int list \<Rightarrow> channel_row list \<Rightarrow> (int \<times> int option) list \<times> channel_row list" where
  "assign_compact_numbers_for_channels rels refreshing wanted rows =
     foldl (\<lambda>(results, t) (rid, r, cs).
        if gr_account r \<in> set refreshing then (results @ map (\<lambda>c. (cr_id c, None)) cs, t)
        else (let (assigned, t') = number_relation r (map cr_id cs) t in (results @ assigned, t')))
       ([], rows) (by_account (by_relation rels (filter (to_number wanted) rows)))"

text \<open>The signals after a channel was saved; \<open>touched\<close> is whether hiding may have changed.\<close>

definition assign_compact_number_on_unhide ::
  "group_relation list \<Rightarrow> int list \<Rightarrow> bool \<Rightarrow> bool \<Rightarrow> channel_row \<Rightarrow> channel_row list \<Rightarrow> channel_row list" where
  "assign_compact_number_on_unhide rels refreshing created touched c rows =
     (if created \<or> \<not> touched \<or> cr_hidden c \<or> cr_number c \<noteq> None \<or> \<not> cr_auto c \<or> cr_account c = None then rows
      else snd (assign_compact_numbers_for_channels rels refreshing [cr_id c] rows))"

definition release_compact_number_on_hide ::
  "py_text \<Rightarrow> group_relation list \<Rightarrow> bool \<Rightarrow> bool \<Rightarrow> channel_row \<Rightarrow> channel_row list \<Rightarrow> channel_row list" where
  "release_compact_number_on_hide py rels created touched c rows =
     (if created \<or> \<not> touched \<or> \<not> cr_hidden c \<or> cr_number c = None \<or> \<not> cr_auto c \<or> cr_account c = None then rows
      else case get_group_relation_for_channel py rels c of
             None \<Rightarrow> rows
           | Some r \<Rightarrow>
               (if is_compact_group r
                then map (\<lambda>d. if cr_id d = cr_id c then d\<lparr>cr_number := None\<rparr> else d) rows else rows))"

section \<open>Lemmas\<close>

lemma next_available_some:
  "next_available_number used n hi = Some m \<Longrightarrow>
   n \<le> m \<and> of_int m \<notin> set used \<and> (\<forall>b. hi = Some b \<longrightarrow> m \<le> b) \<and> (\<forall>k. n \<le> k \<longrightarrow> k < m \<longrightarrow> of_int k \<in> set used)"
proof (induction used n hi rule: next_available_number.induct)
  case (1 used n hi)
  show ?case
  proof (cases "of_int n \<in> set used")
    case True
    with 1(2) have "\<not> (case hi of None \<Rightarrow> False | Some b \<Rightarrow> b < n + 1)"
      and rest: "next_available_number used (n + 1) hi = Some m"
      by (auto simp: next_available_number.simps [of used n hi] split: if_splits)
    from 1(1) [OF True this] show ?thesis using True by (metis add1_zle_eq le_less add_le_cancel_right order.strict_trans1 zless_add1_eq)
  next
    case False
    with 1(2) show ?thesis
      by (auto simp: next_available_number.simps [of used n hi] split: if_splits option.splits)
  qed
qed

lemma next_available_none:
  "next_available_number used n hi = None \<Longrightarrow>
   \<exists>b. hi = Some b \<and> (\<forall>k. n \<le> k \<longrightarrow> k \<le> b \<longrightarrow> of_int k \<in> set used)"
proof (induction used n hi rule: next_available_number.induct)
  case (1 used n hi)
  show ?case
  proof (cases "of_int n \<in> set used")
    case here: True
    show ?thesis
    proof (cases "case hi of None \<Rightarrow> False | Some b \<Rightarrow> b < n + 1")
      case True
      then obtain b where b: "hi = Some b" "b < n + 1" by (auto split: option.splits)
      have "of_int k \<in> set used" if "n \<le> k" "k \<le> b" for k
      proof -
        have "k = n" using that b by linarith
        with here show ?thesis by simp
      qed
      with b show ?thesis by blast
    next
      case False
      with here 1(2) have "next_available_number used (n + 1) hi = None"
        by (simp add: next_available_number.simps [of used n hi])
      from 1(1) [OF here False this] obtain b where b: "hi = Some b"
        "\<forall>k. n + 1 \<le> k \<longrightarrow> k \<le> b \<longrightarrow> of_int k \<in> set used" by auto
      have "of_int k \<in> set used" if "n \<le> k" "k \<le> b" for k
        using that b(2) here by (cases "k = n") auto
      then show ?thesis using b(1) by blast
    qed
  next
    case False
    with 1(2) show ?thesis
      by (auto simp: next_available_number.simps [of used n hi] split: if_splits option.splits)
  qed
qed

lemma pack_keys [simp]: "map fst (pack reserved lo hi cs) = cs"
  by (induction cs arbitrary: reserved) (auto split: option.split)

lemma pack_some:
  "(c, Some n) \<in> set (pack reserved lo hi cs) \<Longrightarrow>
   lo \<le> n \<and> (\<forall>b. hi = Some b \<longrightarrow> n \<le> b) \<and> of_int n \<notin> set reserved"
proof (induction cs arbitrary: reserved)
  case (Cons d ds)
  show ?case
  proof (cases "next_available_number reserved lo hi")
    case None
    then show ?thesis using Cons by auto
  next
    case (Some m)
    then show ?thesis using Cons.prems next_available_some [OF Some] Cons.IH [of "of_int m # reserved"] by auto
  qed
qed simp

lemma pack_above:
  assumes "\<forall>k. lo \<le> k \<longrightarrow> k \<le> n \<longrightarrow> of_int k \<in> set reserved" "(c, Some m) \<in> set (pack reserved lo hi cs)"
  shows "n < m"
  using pack_some [OF assms(2)] assms(1) by force

lemma pack_increasing: "sorted_wrt (<) (List.map_filter snd (pack reserved lo hi cs))"
proof (induction cs arbitrary: reserved)
  case (Cons c cs)
  show ?case
  proof (cases "next_available_number reserved lo hi")
    case None
    then show ?thesis using Cons by (simp add: List.map_filter_simps)
  next
    case (Some n)
    then have "\<forall>k. lo \<le> k \<longrightarrow> k \<le> n \<longrightarrow> of_int k \<in> set (of_int n # reserved)"
      using next_available_some [OF Some] by auto
    then have "n < m" if "(d, Some m) \<in> set (pack (of_int n # reserved) lo hi cs)" for d m
      using pack_above that by blast
    then show ?thesis using Cons [of "of_int n # reserved"] Some
      by (auto simp: List.map_filter_simps map_filter_member)
  qed
qed (simp add: List.map_filter_simps)

text \<open>Somebody without a number means that there is none left.\<close>

lemma pack_none:
  "(c, None) \<in> set (pack reserved lo hi cs) \<Longrightarrow>
   \<exists>b. hi = Some b \<and> (\<forall>k. lo \<le> k \<longrightarrow> k \<le> b \<longrightarrow>
     of_int k \<in> set reserved \<or> (\<exists>d. (d, Some k) \<in> set (pack reserved lo hi cs)))"
proof (induction cs arbitrary: reserved)
  case (Cons d ds)
  show ?case
  proof (cases "next_available_number reserved lo hi")
    case None
    then show ?thesis using next_available_none [OF None] by auto
  next
    case (Some n)
    then have "(c, None) \<in> set (pack (of_int n # reserved) lo hi ds)" using Cons.prems by auto
    from Cons.IH [OF this] obtain b where "hi = Some b" "\<forall>k. lo \<le> k \<longrightarrow> k \<le> b \<longrightarrow>
      of_int k \<in> set (of_int n # reserved) \<or> (\<exists>d. (d, Some k) \<in> set (pack (of_int n # reserved) lo hi ds))"
      by blast
    then show ?thesis using Some by fastforce
  qed
qed simp

lemma pack_distinct:
  assumes "(c, Some n) \<in> set (pack reserved lo hi cs)" "(d, Some n) \<in> set (pack reserved lo hi cs)" "distinct cs"
  shows "c = d"
  using assms
proof (induction cs arbitrary: reserved)
  case (Cons a cs)
  show ?case
  proof (cases "next_available_number reserved lo hi")
    case None
    then show ?thesis using Cons by auto
  next
    case (Some m)
    have "n \<noteq> m" if "(x, Some n) \<in> set (pack (of_int m # reserved) lo hi cs)" for x
      using pack_some [OF that] by auto
    then show ?thesis using Cons Some by auto
  qed
qed simp

lemma insort_key_map: "insort_key k (f x) (map f xs) = map f (insort_key (\<lambda>x. k (f x)) x xs)"
  by (induction xs) auto

lemma sort_key_map: "sort_key k (map f xs) = map f (sort_key (\<lambda>x. k (f x)) xs)"
  by (induction xs) (simp_all add: sort_key_def insort_key_map)

lemma py_sort_map: "(\<And>x. k (f x) = k x) \<Longrightarrow> py_sort k b (map f xs) = map f (py_sort k b xs)"
  by (simp add: py_sort_def sort_key_map rev_map)

lemma set_py_sort [simp]: "set (py_sort k b xs) = set xs"
  by (simp add: py_sort_def)

lemma length_py_sort [simp]: "length (py_sort k b xs) = length xs"
  by (simp add: py_sort_def)

lemma set_sort_visible [simp]: "set (sort_visible r cs) = set cs"
  by (simp add: sort_visible_def Let_def)

lemma distinct_sort_visible: "distinct (map cr_id cs) \<Longrightarrow> distinct (map cr_id (sort_visible r cs))"
proof -
  have "mset (sort_visible r cs) = mset cs" by (simp add: sort_visible_def py_sort_def Let_def)
  then have "mset (map cr_id (sort_visible r cs)) = mset (map cr_id cs)" by simp
  then show "distinct (map cr_id cs) \<Longrightarrow> ?thesis" by (metis mset_eq_imp_distinct_iff)
qed

text \<open>Packing changes numbers only.\<close>

lemma repacked_row_fields [simp]:
  "cr_id (repacked_row a ids c) = cr_id c" "cr_name (repacked_row a ids c) = cr_name c"
  "cr_tvg (repacked_row a ids c) = cr_tvg c" "cr_updated (repacked_row a ids c) = cr_updated c"
  "cr_auto (repacked_row a ids c) = cr_auto c" "cr_account (repacked_row a ids c) = cr_account c"
  "cr_group (repacked_row a ids c) = cr_group c" "cr_hidden (repacked_row a ids c) = cr_hidden c"
  "cr_override (repacked_row a ids c) = cr_override c"
  by (simp_all add: repacked_row_def)

lemma repacked_number:
  "cr_number (repacked_row a ids c) =
     (if cr_id c \<in> set ids then (case map_of a (cr_id c) of Some (Some n) \<Rightarrow> Some (of_int n) | _ \<Rightarrow> None)
      else cr_number c)"
  by (simp add: repacked_row_def)

lemma repacked_row_twice [simp]: "repacked_row a ids (repacked_row a ids c) = repacked_row a ids c"
  by (simp add: repacked_row_def)

abbreviation repacked :: "group_relation \<Rightarrow> channel_row list \<Rightarrow> channel_row \<Rightarrow> channel_row" where
  "repacked r rows \<equiv> repacked_row (packed r rows) (map cr_id (members_of r rows))"

lemma repack_group_rows: "snd (repack_group r rows) = map (repacked r rows) rows"
  by (simp add: repack_group_def Let_def)

lemma members_repacked: "members_of r (map (repacked_row a ids) rows) = map (repacked_row a ids) (members_of r rows)"
  by (simp add: members_of_def filter_map comp_def)

lemma visible_repacked: "visible_of (map (repacked_row a ids) cs) = map (repacked_row a ids) (visible_of cs)"
  by (simp add: visible_of_def filter_map comp_def)

lemma sort_visible_repacked:
  "sort_visible r (map (repacked_row a ids) cs) = map (repacked_row a ids) (sort_visible r cs)"
  by (simp add: sort_visible_def py_sort_map Let_def)

lemma members_ids: "set (members_of r rows) \<subseteq> set rows" "distinct (map cr_id rows) \<Longrightarrow> distinct (map cr_id (members_of r rows))"
  by (auto simp: members_of_def distinct_map_filter)

lemma reserved_repacked:
  assumes "ids = map cr_id (members_of r rows)"
  shows "build_reserved_set (map (repacked_row a ids) rows) ids lo hi = build_reserved_set rows ids lo hi"
proof -
  have "List.map_filter cr_override (map (repacked_row a ids) rows) = List.map_filter cr_override rows"
    by (induction rows) (auto simp: List.map_filter_simps split: option.split)
  moreover have "List.map_filter cr_number (filter (\<lambda>c. cr_id c \<notin> set ids) (map (repacked_row a ids) rows)) =
      List.map_filter cr_number (filter (\<lambda>c. cr_id c \<notin> set ids) rows)"
    by (induction rows) (auto simp: List.map_filter_simps repacked_number split: option.split)
  ultimately show ?thesis by (simp add: build_reserved_set_def)
qed

lemma packed_repacked: "packed r (map (repacked r rows) rows) = packed r rows"
  using reserved_repacked [OF refl, of "packed r rows" r rows]
  by (simp add: packed_def Let_def members_repacked visible_repacked sort_visible_repacked comp_def)

lemma map_filter_comp: "List.map_filter f (map g xs) = List.map_filter (\<lambda>x. f (g x)) xs"
  by (induction xs) (auto simp: List.map_filter_simps split: option.split)

lemma packed_keys: "map fst (packed r rows) = map cr_id (sort_visible r (visible_of (members_of r rows)))"
  by (simp add: packed_def Let_def)

lemma visible_affected: "set (visible_of cs) \<subseteq> set cs"
  by (auto simp: visible_of_def)

text \<open>What a channel of the group has after the packing: what was assigned to it.\<close>

lemma packed_member:
  assumes "distinct (map cr_id rows)" "c \<in> set (members_of r rows)"
  shows "cr_number (repacked r rows c) = Some x \<longleftrightarrow> (\<exists>n. x = of_int n \<and> (cr_id c, Some n) \<in> set (packed r rows))"
proof -
  have "distinct (map fst (packed r rows))"
    unfolding packed_keys by (rule distinct_sort_visible)
      (simp add: visible_of_def distinct_map_filter members_ids(2) [OF assms(1)])
  then have "(cr_id c, v) \<in> set (packed r rows) \<longleftrightarrow> map_of (packed r rows) (cr_id c) = Some v" for v
    by (simp add: map_of_eq_Some_iff)
  moreover have "cr_id c \<in> set (map cr_id (members_of r rows))" using assms(2) by simp
  ultimately show ?thesis
    by (cases "map_of (packed r rows) (cr_id c)"; cases "the (map_of (packed r rows) (cr_id c))")
      (auto simp: repacked_number)
qed

lemma packed_numbers:
  assumes "distinct (map cr_id rows)"
  shows "List.map_filter cr_number (map (repacked r rows) (sort_visible r (visible_of (members_of r rows)))) =
    map of_int (List.map_filter snd (packed r rows))"
proof -
  let ?vs = "sort_visible r (visible_of (members_of r rows))"
  have d: "distinct (map fst (packed r rows))"
    unfolding packed_keys by (rule distinct_sort_visible)
      (simp add: visible_of_def distinct_map_filter members_ids(2) [OF assms(1)])
  have "List.map_filter (\<lambda>c. cr_number (repacked r rows c)) vs =
      map of_int (List.map_filter snd ps)"
    if "map fst ps = map cr_id vs" "set ps \<subseteq> set (packed r rows)" "set vs \<subseteq> set (members_of r rows)" for ps vs
    using that
  proof (induction ps arbitrary: vs)
    case Nil
    then show ?case by (simp add: List.map_filter_simps)
  next
    case (Cons q ps)
    then obtain c cs where vs: "vs = c # cs" "fst q = cr_id c" "map fst ps = map cr_id cs" by (cases vs) auto
    have "map_of (packed r rows) (cr_id c) = Some (snd q)"
      using Cons.prems(2) d vs(2) by (simp add: map_of_eq_Some_iff) (metis prod.collapse)
    then have "cr_number (repacked r rows c) = map_option of_int (snd q)"
      using Cons.prems(3) vs(1) by (auto simp: repacked_number split: option.split)
    then show ?case using Cons vs by (simp add: List.map_filter_simps split: option.split)
  qed
  from this [OF packed_keys [of r rows] order_refl] show ?thesis
    using visible_affected by (fastforce simp: map_filter_comp)
qed

text \<open>Ids are keys, and what was packed are the ids of the group's shown channels.\<close>

lemma same_row: "distinct (map cr_id rows) \<Longrightarrow> c \<in> set rows \<Longrightarrow> d \<in> set rows \<Longrightarrow> cr_id c = cr_id d \<Longrightarrow> c = d"
  by (auto simp: distinct_map inj_on_def)

lemma packed_id:
  assumes "(i, v) \<in> set (packed r rows)"
  shows "\<exists>c \<in> set (visible_of (members_of r rows)). cr_id c = i"
proof -
  have "i \<in> set (map fst (packed r rows))" using assms by force
  then show ?thesis unfolding packed_keys by auto
qed

lemma visible_packed:
  assumes "c \<in> set (visible_of (members_of r rows))"
  shows "\<exists>v. (cr_id c, v) \<in> set (packed r rows)"
proof -
  have "cr_id c \<in> set (map fst (packed r rows))" using assms unfolding packed_keys by simp
  then show ?thesis by auto
qed

lemma member_id:
  assumes "distinct (map cr_id rows)" "d \<in> set rows"
  shows "cr_id d \<in> set (map cr_id (members_of r rows)) \<longleftrightarrow> d \<in> set (members_of r rows)"
proof
  assume "cr_id d \<in> set (map cr_id (members_of r rows))"
  then obtain c where "c \<in> set (members_of r rows)" "cr_id d = cr_id c" by auto
  moreover have "c \<in> set rows" using calculation(1) members_ids(1) by blast
  ultimately show "d \<in> set (members_of r rows)" using same_row [OF assms] by blast
qed simp

definition reserved_for :: "group_relation \<Rightarrow> channel_row list \<Rightarrow> real list" where
  "reserved_for r rows =
     build_reserved_set rows (map cr_id (members_of r rows)) (Some (range_start r)) (range_end r)"

lemma packed_pack:
  "packed r rows = pack (reserved_for r rows) (range_start r) (range_end r)
     (map cr_id (sort_visible r (visible_of (members_of r rows))))"
  by (simp add: packed_def Let_def reserved_for_def)

lemma packed_distinct:
  assumes "distinct (map cr_id rows)" "(i, Some n) \<in> set (packed r rows)" "(j, Some n) \<in> set (packed r rows)"
  shows "i = j"
proof -
  have "distinct (map cr_id (sort_visible r (visible_of (members_of r rows))))"
    by (rule distinct_sort_visible) (simp add: visible_of_def distinct_map_filter members_ids(2) [OF assms(1)])
  then show ?thesis using assms(2,3) pack_distinct unfolding packed_pack by blast
qed

lemma packed_shown:
  assumes "distinct (map cr_id rows)" "c \<in> set (members_of r rows)" "cr_number (repacked r rows c) = Some x"
  shows "c \<in> set (visible_of (members_of r rows))"
proof -
  obtain n where "(cr_id c, Some n) \<in> set (packed r rows)" using packed_member [OF assms(1,2)] assms(3) by blast
  from packed_id [OF this] obtain d where "d \<in> set (visible_of (members_of r rows))" "cr_id d = cr_id c" by blast
  moreover have "d \<in> set rows" "c \<in> set rows"
    using calculation(1) assms(2) visible_affected members_ids(1) by blast+
  ultimately show ?thesis using same_row [OF assms(1)] by blast
qed

lemma packed_unique:
  assumes ids: "distinct (map cr_id rows)" and c: "c \<in> set (members_of r rows)" "cr_number (repacked r rows c) = Some x"
  shows "in_range (Some (range_start r)) (range_end r) x" "x \<in> \<int>"
    "d \<in> set rows \<Longrightarrow> cr_override d \<noteq> Some x"
    "d \<in> set rows \<Longrightarrow> cr_number (repacked r rows d) = Some x \<Longrightarrow> repacked r rows d = repacked r rows c"
proof -
  from packed_member [OF ids c(1)] c(2) obtain n where n: "x = of_int n" "(cr_id c, Some n) \<in> set (packed r rows)" by blast
  then show range: "in_range (Some (range_start r)) (range_end r) x"
    using pack_some [of "cr_id c" n "reserved_for r rows"] by (auto simp: packed_pack in_range_def split: option.split)
  have free: "x \<notin> set (reserved_for r rows)"
    using n pack_some [of "cr_id c" n "reserved_for r rows"] by (auto simp: packed_pack)
  show "x \<in> \<int>" using n by simp
  show "d \<in> set rows \<Longrightarrow> cr_override d \<noteq> Some x"
    using free range by (auto simp: reserved_for_def build_reserved_set_def map_filter_member)
  assume d: "d \<in> set rows" "cr_number (repacked r rows d) = Some x"
  show "repacked r rows d = repacked r rows c"
  proof (cases "d \<in> set (members_of r rows)")
    case True
    with packed_member [OF ids] d(2) n have "cr_id d = cr_id c" using packed_distinct [OF ids] by force
    then show ?thesis using same_row [OF ids d(1)] c(1) members_ids(1) by blast
  next
    case False
    then have "cr_number d = Some x" "cr_id d \<notin> set (map cr_id (members_of r rows))"
      using d member_id [OF ids d(1)] by (auto simp: repacked_number split: if_splits)
    then have "x \<in> set (reserved_for r rows)"
      using range d(1) by (auto simp: reserved_for_def build_reserved_set_def map_filter_member)
    with free show ?thesis by simp
  qed
qed

lemma packed_full:
  assumes ids: "distinct (map cr_id rows)" and c: "c \<in> set (visible_of (members_of r rows))" "cr_number (repacked r rows c) = None"
  shows "\<exists>b. range_end r = Some b \<and> (\<forall>n. range_start r \<le> n \<longrightarrow> n \<le> b \<longrightarrow>
          (\<exists>d \<in> set rows. cr_number (repacked r rows d) = Some (of_int n) \<or> cr_override d = Some (of_int n)))"
proof -
  have cm: "c \<in> set (members_of r rows)" using c(1) visible_affected by blast
  obtain v where v: "(cr_id c, v) \<in> set (packed r rows)" using visible_packed [OF c(1)] by blast
  have "v = None" using packed_member [OF ids cm] c(2) v by (cases v) auto
  with v pack_none [of "cr_id c" "reserved_for r rows"] obtain b where b: "range_end r = Some b"
    and full: "\<forall>k. range_start r \<le> k \<longrightarrow> k \<le> b \<longrightarrow>
      of_int k \<in> set (reserved_for r rows) \<or> (\<exists>i. (i, Some k) \<in> set (packed r rows))"
    unfolding packed_pack by blast
  have "\<exists>d \<in> set rows. cr_number (repacked r rows d) = Some (of_int n) \<or> cr_override d = Some (of_int n)"
    if "range_start r \<le> n" "n \<le> b" for n
  proof -
    have "of_int n \<in> set (reserved_for r rows) \<or> (\<exists>i. (i, Some n) \<in> set (packed r rows))" using full that by simp
    then show ?thesis
    proof
      assume "of_int n \<in> set (reserved_for r rows)"
      then show ?thesis by (auto simp: reserved_for_def build_reserved_set_def map_filter_member repacked_number)
    next
      assume "\<exists>i. (i, Some n) \<in> set (packed r rows)"
      then obtain i where i: "(i, Some n) \<in> set (packed r rows)" by blast
      with packed_id obtain e where e: "e \<in> set (members_of r rows)" "cr_id e = i" using visible_affected by blast
      then show ?thesis using i packed_member [OF ids e(1), of "of_int n"] members_ids(1) by blast
    qed
  qed
  then show ?thesis using b by blast
qed

section \<open>Properties\<close>

text \<open>
  C39: After a group was packed: nothing has changed but numbers of the group's own channels, so a pin
  stays what it was; a hidden channel of it that no override pins has no number; every number an
  unpinned channel of the group has is a whole number of the group's range that no other channel
  has and no override pins; the numbers go up in the order the group is sorted by; and a shown
  unpinned channel is without one only when every number of the range is taken.
\<close>

theorem group_packed:
  assumes ids: "distinct (map cr_id rows)" and after: "rows' = snd (repack_group r rows)"
  shows "list_all2 (\<lambda>c c'. c' = c \<or> c \<in> set (members_of r rows) \<and> c' = c\<lparr>cr_number := cr_number c'\<rparr>) rows rows' \<and>
    (\<forall>c \<in> set (members_of r rows'). cr_hidden c \<and> cr_override c = None \<longrightarrow> cr_number c = None) \<and>
    (\<forall>c \<in> set (members_of r rows'). \<forall>x. cr_override c = None \<and> cr_number c = Some x \<longrightarrow>
       in_range (Some (range_start r)) (range_end r) x \<and> x \<in> \<int> \<and>
       (\<forall>d \<in> set rows'. cr_override d \<noteq> Some x \<and> (cr_number d = Some x \<longrightarrow> d = c))) \<and>
    sorted_wrt (<) (List.map_filter cr_number (sort_visible r (visible_of (members_of r rows')))) \<and>
    (\<forall>c \<in> set (visible_of (members_of r rows')). cr_number c = None \<longrightarrow>
       (\<exists>b. range_end r = Some b \<and> (\<forall>n. range_start r \<le> n \<longrightarrow> n \<le> b \<longrightarrow>
          (\<exists>d \<in> set rows'. cr_number d = Some (of_int n) \<or> cr_override d = Some (of_int n)))))"
proof -
  let ?f = "repacked r rows" and ?ms = "members_of r rows"
  have rows': "rows' = map ?f rows" unfolding after by (rule repack_group_rows)
  have ms: "members_of r rows' = map ?f ?ms" unfolding rows' by (rule members_repacked)
  have a: "cr_hidden c \<Longrightarrow> cr_number (?f c) = None" if "c \<in> set ?ms" for c
    using packed_shown [OF ids that] by (cases "cr_number (?f c)") (auto simp: visible_of_def)
  have c: "sorted_wrt (<) (List.map_filter cr_number (sort_visible r (visible_of (members_of r rows'))))"
    unfolding ms visible_repacked sort_visible_repacked packed_numbers [OF ids]
    using pack_increasing by (simp add: packed_pack sorted_wrt_map)
  have e: "list_all2 (\<lambda>c c'. c' = c \<or> c \<in> set ?ms \<and> c' = c\<lparr>cr_number := cr_number c'\<rparr>) rows rows'"
  proof (unfold rows' list.rel_map, rule list.rel_refl_strong)
    fix c assume "c \<in> set rows"
    then show "?f c = c \<or> c \<in> set ?ms \<and> ?f c = c\<lparr>cr_number := cr_number (?f c)\<rparr>"
      using member_id [OF ids, of c] by (auto simp: repacked_row_def)
  qed
  have b: "\<forall>c \<in> set (members_of r rows'). \<forall>x. cr_override c = None \<and> cr_number c = Some x \<longrightarrow>
       in_range (Some (range_start r)) (range_end r) x \<and> x \<in> \<int> \<and>
       (\<forall>d \<in> set rows'. cr_override d \<noteq> Some x \<and> (cr_number d = Some x \<longrightarrow> d = c))"
    unfolding ms unfolding rows' using packed_unique [OF ids] by auto
  have d: "\<forall>c \<in> set (visible_of (members_of r rows')). cr_number c = None \<longrightarrow>
       (\<exists>b. range_end r = Some b \<and> (\<forall>n. range_start r \<le> n \<longrightarrow> n \<le> b \<longrightarrow>
          (\<exists>d \<in> set rows'. cr_number d = Some (of_int n) \<or> cr_override d = Some (of_int n))))"
    unfolding ms visible_repacked unfolding rows' using packed_full [OF ids] by auto
  from a show ?thesis unfolding ms by (intro conjI e c [unfolded ms] b [unfolded ms] d [unfolded ms]) auto
qed

text \<open>
  What the packing does with the number a pinned channel has of its own, beside its override: it
  clears it, where the comments above the code say that pinned channels are untouched. The number
  shown stays the override's.
\<close>

theorem pinned_number_cleared:
  assumes "distinct (map cr_id rows)" "c \<in> set (members_of r (snd (repack_group r rows)))"
    and "cr_override c \<noteq> None"
  shows "cr_number c = None"
proof -
  have "members_of r (snd (repack_group r rows)) = map (repacked r rows) (members_of r rows)"
    by (simp only: repack_group_rows members_repacked)
  then obtain b where b: "b \<in> set (members_of r rows)" "c = repacked r rows b" using assms(2) by auto
  then show ?thesis
    using packed_shown [OF assms(1) b(1)] assms(3) by (cases "cr_number c") (auto simp: visible_of_def)
qed

text \<open>
  Packing a group that was just packed changes nothing and releases nothing: the numbers do not
  churn from one refresh to the next.
\<close>

theorem packing_settles:
  "snd (repack_group r (snd (repack_group r rows))) = snd (repack_group r rows) \<and>
   rc_assigned (fst (repack_group r (snd (repack_group r rows)))) = rc_assigned (fst (repack_group r rows)) \<and>
   (distinct (map cr_id rows) \<longrightarrow> rc_released (fst (repack_group r (snd (repack_group r rows)))) = 0)"
proof -
  have again: "repacked r (map (repacked r rows) rows) = repacked r rows"
    by (simp only: packed_repacked members_repacked) (simp add: comp_def)
  have "snd (repack_group r (snd (repack_group r rows))) = snd (repack_group r rows)"
    unfolding repack_group_rows again by simp
  moreover have "rc_assigned (fst (repack_group r (snd (repack_group r rows)))) = rc_assigned (fst (repack_group r rows))"
    unfolding repack_group_rows by (simp add: repack_group_def Let_def packed_repacked)
  moreover have "rc_released (fst (repack_group r (snd (repack_group r rows)))) = 0" if "distinct (map cr_id rows)"
  proof -
    have "cr_number (repacked r rows c) = None" if "c \<in> set (members_of r rows)" "cr_hidden c" for c
      using packed_shown [OF \<open>distinct (map cr_id rows)\<close> that(1)] that(2)
      by (cases "cr_number (repacked r rows c)") (auto simp: visible_of_def)
    then show ?thesis
      unfolding repack_group_rows
      by (simp add: repack_group_def Let_def members_repacked filter_map comp_def filter_empty_conv)
  qed
  ultimately show ?thesis by blast
qed

text \<open>
  Of two channels shown at once, one in a provider group and one in the group its override sends
  channels to, only the later pair's is numbered: both pairs lead to one relation, and its channels
  are kept under its id. The other stays without a number until the next refresh, however much
  room there is.
\<close>

theorem shown_together_one_left_out:
  assumes "set wanted = {cr_id c, cr_id d}" "cr_id c \<noteq> cr_id d"
    and "to_number wanted c" "to_number wanted d" "pair_of c \<noteq> pair_of d"
    and "relation_of rels (pair_of c) = Some r" "relation_of rels (pair_of d) = Some r"
    and "is_compact_group r" "gr_account r \<notin> set refreshing"
  shows "let (results, rows) = assign_compact_numbers_for_channels rels refreshing wanted [c, d]
         in map fst results = [cr_id d] \<and> c \<in> set rows \<and> cr_number c = None"
proof -
  have "by_relation rels [c, d] = [(gr_id r, r, [d])]"
    using assms by (auto simp: by_relation_def)
  then have "by_account (by_relation rels (filter (to_number wanted) [c, d])) = [(gr_id r, r, [d])]"
    using assms by (simp add: by_account_def)
  moreover have "cr_number c = None" using assms(3) by (simp add: to_number_def)
  ultimately show ?thesis
    using assms(2,9)
    by (simp add: assign_compact_numbers_for_channels_def number_relation_def Let_def case_prod_unfold
        split: option.split)
qed

definition ex_group :: group_relation where
  "ex_group = \<lparr>gr_id = 1, gr_account = 3, gr_group = 5, gr_start = Some 10, gr_end = Some 20,
     gr_props = [(''compact_numbering'', JBool True), (''group_override'', JInt 6), (''channel_sort_order'', JStr ''name'')]\<rparr>"

definition ex_channel :: "int \<Rightarrow> int \<Rightarrow> channel_row" where
  "ex_channel i g = \<lparr>cr_id = i, cr_name = ''PPV '' @ dec i, cr_tvg = [], cr_updated = 0, cr_auto = True, cr_account = Some 3,
     cr_group = Some g, cr_hidden = False, cr_number = None, cr_override = None\<rparr>"

lemma ex_props [simp]: "prop_of ex_group ''compact_numbering'' = JBool True" "prop_of ex_group ''group_override'' = JInt 6"
  by (simp_all add: prop_of_def ex_group_def)

lemma shown_together_one_left_out_witness:
  "map fst (fst (assign_compact_numbers_for_channels [ex_group] [] [1, 2] [ex_channel 1 5, ex_channel 2 6])) = [2]"
proof -
  have "relation_of [ex_group] (pair_of (ex_channel 1 5)) = Some ex_group"
    "relation_of [ex_group] (pair_of (ex_channel 2 6)) = Some ex_group"
    by (simp_all add: relation_of_def pair_of_def ex_channel_def override_group_def Let_def)
      (simp_all add: ex_group_def)
  then show ?thesis
    using shown_together_one_left_out [of "[1, 2]" "ex_channel 1 5" "ex_channel 2 6" "[ex_group]" ex_group "[]"]
    by (simp add: to_number_def pair_of_def is_compact_group_def case_prod_unfold Let_def) (simp add: ex_channel_def)
qed

lemma group_packed_witness:
  "sorted_wrt (<) (List.map_filter cr_number (sort_visible ex_group (visible_of (members_of ex_group
     (snd (repack_group ex_group [ex_channel 1 5, ex_channel 2 6]))))))"
proof -
  have "distinct (map cr_id [ex_channel 1 5, ex_channel 2 6])" by (simp add: ex_channel_def)
  from group_packed [OF this refl, of ex_group] show ?thesis by blast
qed

lemma packing_settles_witness:
  "rc_released (fst (repack_group ex_group (snd (repack_group ex_group [ex_channel 1 5, ex_channel 2 6])))) = 0"
  using packing_settles [of ex_group "[ex_channel 1 5, ex_channel 2 6]"] by (simp add: ex_channel_def)

end
