(* ===== verification/Watch_Together.thy ===== *)
theory Watch_Together
  imports Streams Live_Channels "HOL-Library.List_Lexorder" "HOL-Library.Char_ord"
begin

text \<open>
  Devices watching together (\<^verbatim>\<open>apps/proxy/live_proxy/app_links.py\<close>): the groups in Redis, one per
  login that leads one, who is in them and on which channel, joining with and without being
  asked, answers, leaving and being taken out, following a change of channel, and the reports of
  positions. The operations return the socket messages they send. Whether a login may watch a
  channel is a parameter, and names are left out. A set of devices is the list of its members in
  the order Redis gives them.
\<close>

section \<open>Keys and groups\<close>

definition LINK_TTL :: int where "LINK_TTL = 12 * 3600"
definition REQUEST_TTL :: int where "REQUEST_TTL = 45"
definition POSITION_FRESH_SECONDS :: real where "POSITION_FRESH_SECONDS = 30"

text \<open>The parts of \<open>app|<user>|<device>\<close>, as \<open>split("|", 2)\<close> has them.\<close>

definition user_of :: "string \<Rightarrow> string" where
  "user_of d =
     (case Option.bind (map_option snd (split_first (CHR ''|'') d)) (split_first (CHR ''|'')) of
        None \<Rightarrow> [] | Some (u, _) \<Rightarrow> u)"

definition device_id :: "string \<Rightarrow> string" where
  "device_id d =
     (case split_first (CHR ''|'') d of
        None \<Rightarrow> d
      | Some (_, r) \<Rightarrow> (case split_first (CHR ''|'') r of None \<Rightarrow> r | Some (_, i) \<Rightarrow> i))"

definition key_of :: "string \<Rightarrow> string \<Rightarrow> string" where
  "key_of u i = ''app|'' @ u @ ''|'' @ i"

definition group_of :: "'s redis_api \<Rightarrow> 's \<Rightarrow> string \<Rightarrow> string" where
  "group_of R s d =
     (case Option.bind (r_get R s (Link_group d)) val_text of
        Some g \<Rightarrow> if g = [] then user_of d else g
      | None \<Rightarrow> user_of d)"

definition group_members :: "'s redis_api \<Rightarrow> 's \<Rightarrow> string \<Rightarrow> string list" where
  "group_members R s g = (if g = [] then [] else map fst (r_hash R s (Links g)))"

definition linked_with :: "'s redis_api \<Rightarrow> 's \<Rightarrow> string \<Rightarrow> string list" where
  "linked_with R s d =
     (let ds = group_members R s (group_of R s d)
      in if d \<in> set ds then filter (\<lambda>x. x \<noteq> d) ds else [])"

definition leads :: "'s redis_api \<Rightarrow> 's \<Rightarrow> string \<Rightarrow> bool" where
  "leads R s d \<longleftrightarrow> user_of d = group_of R s d"

definition touch_group :: "'s redis_api \<Rightarrow> string \<Rightarrow> 's \<Rightarrow> 's" where
  "touch_group R g s =
     foldl (\<lambda>t k. r_expire R t k LINK_TTL) s
       ([Links g, Link_channel g] @ map Link_group (filter (\<lambda>d. user_of d \<noteq> g) (group_members R s g)))"

definition group_channel :: "'s redis_api \<Rightarrow> 's \<Rightarrow> string \<Rightarrow> string option" where
  "group_channel R s g =
     (case Option.bind (r_get R s (Link_channel g)) val_text of
        Some c \<Rightarrow> if c = [] then None else Some c | None \<Rightarrow> None)"

text \<open>A message: its type, the group whose login it goes to, and the devices whose logins it goes to.\<close>

type_synonym message = "string \<times> string \<times> string list"

section \<open>Who is watching what\<close>

text \<open>The live clients of declared devices: \<open>(device, login, channel, address)\<close>.\<close>

definition declared_clients :: "'s redis_api \<Rightarrow> 's \<Rightarrow> (string \<times> string option \<times> string \<times> string) list" where
  "declared_clients R s =
     List.map_filter (\<lambda>k. case k of
         Live (Client_metadata c cl) \<Rightarrow>
           (let h = r_hash R s k in
            case client_field h ''server_device'' of
              None \<Rightarrow> None
            | Some d \<Rightarrow>
                (if is_declared (Some d)
                 then Some (d, client_field h ''user_id'', c,
                            case client_field h ''ip_address'' of None \<Rightarrow> [] | Some ip \<Rightarrow> ip)
                 else None))
       | _ \<Rightarrow> None) (r_hkeys R s)"

definition clients_of :: "'s redis_api \<Rightarrow> 's \<Rightarrow> string list \<Rightarrow> (string \<times> string \<times> string) list" where
  "clients_of R s users =
     List.map_filter (\<lambda>(d, u, c, ip). if u \<in> Some ` set users then Some (d, c, ip) else None)
       (declared_clients R s)"

definition channels_on :: "'s redis_api \<Rightarrow> 's \<Rightarrow> string list \<Rightarrow> string \<Rightarrow> string list" where
  "channels_on R s users d =
     remdups (List.map_filter (\<lambda>(x, c, ip). if x = d then Some c else None) (clients_of R s users))"

text \<open>Which house an address is in, as the server sees it.\<close>

definition house_of :: "settings \<Rightarrow> string \<Rightarrow> string" where
  "house_of st ip =
     (if ip \<noteq> [] \<and> at_home (Some ip) (text_of st ''home_networks'') = Some True then ''home''
      else if ip \<noteq> [] then ''ip:'' @ ip else [])"

definition link_people :: "settings \<Rightarrow> string list" where
  "link_people st = filter (\<lambda>u. u \<noteq> []) (split_on (CHR '','') (text_of st ''link_users''))"

definition links_enabled :: "settings \<Rightarrow> bool" where
  "links_enabled st \<longleftrightarrow> switch_on st ''devices'' \<and> switch_on st ''link_devices''"

text \<open>The devices that may be offered with the channels each watches: the login's own first.\<close>

definition offered_devices ::
  "'s redis_api \<Rightarrow> settings \<Rightarrow> 's \<Rightarrow> string \<Rightarrow> string \<Rightarrow> string \<Rightarrow> (string \<times> string list) list" where
  "offered_devices R st s u me ip =
     (let own = filter (\<lambda>d. d \<noteq> me) (remdups (map fst (clients_of R s [u])));
          others = (if u \<in> set (link_people st) \<and> ip \<noteq> [] then filter (\<lambda>x. x \<noteq> u) (link_people st) else []);
          found = clients_of R s others;
          near = filter (\<lambda>d. case find (\<lambda>(x, c, a). x = d) found of
                               None \<Rightarrow> False | Some (_, _, a) \<Rightarrow> house_of st a = house_of st ip)
                   (remdups (map fst found))
      in map (\<lambda>d. (d, if d \<in> set near then channels_on R s others d else channels_on R s [u] d)) own @
         map (\<lambda>d. (d, channels_on R s others d)) (filter (\<lambda>d. d \<notin> set own) near))"

definition offers ::
  "'s redis_api \<Rightarrow> settings \<Rightarrow> (string \<Rightarrow> string \<Rightarrow> bool) \<Rightarrow> 's \<Rightarrow> string \<Rightarrow> string \<Rightarrow> string \<Rightarrow> (string \<times> string) list" where
  "offers R st may_watch s u me ip =
     List.map_filter (\<lambda>(d, cs).
        case cs of
          [c] \<Rightarrow> (if user_of d \<noteq> u \<and> \<not> may_watch u c then None else Some (d, c))
        | _ \<Rightarrow> None) (offered_devices R st s u me ip)"

section \<open>In and out of a group\<close>

definition drop_link :: "'s redis_api \<Rightarrow> string \<Rightarrow> 's \<Rightarrow> bool \<times> message list \<times> 's" where
  "drop_link R d s =
     (let g = group_of R s d in
      if d \<notin> set (group_members R s g) then (False, [], r_del R s (Link_group d))
      else
        (let s1 = r_del R (r_hdel R s (Links g) d) (Link_group d);
             left = group_members R s1 g
         in if length left < 2 \<or> filter (\<lambda>x. user_of x = g) left = []
            then (True,
                  (if left = [] then [] else [(''link_ended'', g, left @ [d])]),
                  foldl (\<lambda>t x. r_del R t (Link_group x))
                    (r_del R (r_del R (r_del R s1 (Links g)) (Link_channel g)) (Link_positions g)) left)
            else (True, [], s1)))"

definition join_group :: "'s redis_api \<Rightarrow> string \<Rightarrow> string \<Rightarrow> 's \<Rightarrow> 's" where
  "join_group R g d s =
     (if user_of d = g then s else r_setex R s (Link_group d) LINK_TTL (VStr g))"

definition make_link ::
  "'s redis_api \<Rightarrow> real \<Rightarrow> string \<Rightarrow> string \<Rightarrow> string \<Rightarrow> string \<Rightarrow> 's \<Rightarrow> message list \<times> 's" where
  "make_link R t g d other channel s =
     (let (told, s1) = (if group_of R s d = g then ([], s) else snd (drop_link R d s));
          s2 = r_hset R (r_hset R s1 (Links g) other (VTime t)) (Links g) d (VTime t);
          s3 = join_group R g other (join_group R g d s2);
          s4 = touch_group R g (r_setex R s3 (Link_channel g) LINK_TTL (VStr channel))
      in (told, r_del R (r_del R s4 (Replaced (user_of d) d)) (Replaced (user_of other) other)))"

datatype join_answer = Not_watching | Asked string | Joined string

text \<open>What waits for an answer: the key of the one asking, the channel and the time.\<close>

definition join_device ::
  "'s redis_api \<Rightarrow> settings \<Rightarrow> (string \<Rightarrow> string \<Rightarrow> bool) \<Rightarrow> real \<Rightarrow> string \<Rightarrow> string \<Rightarrow> string \<Rightarrow> string \<Rightarrow> 's \<Rightarrow>
   join_answer \<times> message list \<times> 's" where
  "join_device R st may_watch t u me other ip s =
     (case find (\<lambda>(d, c). device_id d = other) (offers R st may_watch s u me ip) of
        None \<Rightarrow> (Not_watching, [], s)
      | Some (d, c) \<Rightarrow>
          (if user_of d \<noteq> u \<and> user_of d \<noteq> [] then
             (let k = key_of (user_of d) other in
              (Asked c, [(''link_request'', group_of R s k, [k, me])],
               r_expire R (r_hset R s (Link_requests k) (device_id me) (VPair (VStr me) (VPair (VStr c) (VTime t))))
                 (Link_requests k) REQUEST_TTL))
           else
             (let k = key_of u other; g = group_of R s k; (told, s1) = make_link R t g me k c s
              in (Joined c, told @ [(''link_joined'', g, group_members R s1 g)], s1))))"

fun request_parts :: "rval option \<Rightarrow> (string \<times> string) option" where
  "request_parts (Some (VPair (VStr k) (VPair (VStr c) t))) = Some (k, c)"
| "request_parts _ = None"

definition answer_request ::
  "'s redis_api \<Rightarrow> (string \<Rightarrow> string \<Rightarrow> bool) \<Rightarrow> real \<Rightarrow> string \<Rightarrow> string \<Rightarrow> string \<Rightarrow> bool \<Rightarrow> 's \<Rightarrow>
   bool \<times> message list \<times> 's" where
  "answer_request R may_watch t u me asking allow s =
     (case request_parts (r_hget R s (Link_requests me) asking) of
        None \<Rightarrow> (False, [], s)
      | Some (guest, asked_channel) \<Rightarrow>
          (let s1 = r_hdel R s (Link_requests me) asking; g = group_of R s1 me;
               c = (case channels_on R s1 [u] me of [x] \<Rightarrow> x | _ \<Rightarrow> asked_channel)
           in if \<not> allow \<or> \<not> may_watch (user_of guest) c then (True, [(''link_declined'', g, [guest])], s1)
              else
                (let (told, s2) = make_link R t g guest me c s1; everyone = group_members R s2 g
                 in (True, told @ [(''link_accepted'', g, everyone), (''link_joined'', g, everyone)], s2))))"

definition leave_group :: "'s redis_api \<Rightarrow> string \<Rightarrow> 's \<Rightarrow> message list \<times> 's" where
  "leave_group R me s = snd (drop_link R me s)"

definition remove_device :: "'s redis_api \<Rightarrow> string \<Rightarrow> string \<Rightarrow> 's \<Rightarrow> bool \<times> message list \<times> 's" where
  "remove_device R me other s =
     (let g = group_of R s me in
      if \<not> leads R s me then (False, [], s)
      else case find (\<lambda>d. device_id d = other) (group_members R s g) of
             None \<Rightarrow> (False, [], s)
           | Some d \<Rightarrow>
               (if user_of d = g then (False, [], s)
                else (let (told, s1) = snd (drop_link R d s) in (True, told @ [(''link_ended'', g, [d])], s1))))"

section \<open>Following\<close>

definition not_on :: "'s redis_api \<Rightarrow> 's \<Rightarrow> string list \<Rightarrow> string \<Rightarrow> string list" where
  "not_on R s ds c = filter (\<lambda>d. c \<notin> set (channels_on R s (map user_of ds) d)) ds"

text \<open>The other people's devices that may not watch the leader's new channel are taken out.\<close>

fun remove_all :: "'s redis_api \<Rightarrow> string \<Rightarrow> string list \<Rightarrow> 's \<Rightarrow> message list \<times> 's" where
  "remove_all R me [] s = ([], s)"
| "remove_all R me (d # ds) s =
     (let (told, s1) = snd (remove_device R me (device_id d) s); (told', s2) = remove_all R me ds s1
      in (told @ told', s2))"

definition mirror_change ::
  "'s redis_api \<Rightarrow> settings \<Rightarrow> (string \<Rightarrow> string \<Rightarrow> bool) \<Rightarrow> viewer \<Rightarrow> string \<Rightarrow> 's \<Rightarrow> bool \<times> message list \<times> 's" where
  "mirror_change R st may_watch v c s =
     (case server_device v of
        None \<Rightarrow> (False, [], s)
      | Some d \<Rightarrow>
          (let others = linked_with R s d; g = group_of R s d; s1 = touch_group R g s in
           if recording v \<or> multiview v \<notin> {None, Some []} \<or> \<not> is_declared (Some d) \<or> user_id v = None \<or> user_id v = Some 0 \<or>
              c = [] \<or> \<not> links_enabled st \<or> others = [] then (False, [], s)
           else if group_channel R s1 g = Some c then (False, [], s1)
           else if \<not> leads R s1 d then
             (let leaders = not_on R s1 (filter (\<lambda>x. user_of x = g) others) c
              in (True, (if leaders = [] then [] else [(''link_follow_request'', g, leaders @ [d])]), s1))
           else
             (let s2 = r_setex R s1 (Link_channel g) LINK_TTL (VStr c);
                  (told, s3) = remove_all R d (filter (\<lambda>x. user_of x \<noteq> g \<and> \<not> may_watch (user_of x) c) others) s2;
                  others' = linked_with R s3 d;
                  own = filter (\<lambda>x. user_of x = user_of d) others';
                  asked = not_on R s3 (filter (\<lambda>x. user_of x \<noteq> user_of d) others') c
              in (True,
                  told @ (if own = [] then [] else [(''linked_channel'', g, own @ [d])]) @
                    (if asked = [] then [] else [(''link_follow_request'', g, asked @ [d])]),
                  s3))))"

section \<open>In step\<close>

definition report_position ::
  "'s redis_api \<Rightarrow> real \<Rightarrow> string \<Rightarrow> int \<Rightarrow> int \<Rightarrow> 's \<Rightarrow> (string \<times> int \<times> int) list \<times> 's" where
  "report_position R t me pts at_ms s =
     (let others = linked_with R s me; g = group_of R s me; users = map user_of (others @ [me])
      in case channels_on R s users me of
           [c] \<Rightarrow>
             (if others = [] then ([], s)
              else
                (let s1 = r_expire R (r_hset R s (Link_positions g) me
                            (VPair (VInt pts) (VPair (VInt at_ms) (VStr c)))) (Link_positions g) LINK_TTL
                 in (List.map_filter (\<lambda>x.
                       case r_hget R s1 (Link_positions g) x of
                         Some (VPair (VInt p) (VPair (VInt m) (VStr there))) \<Rightarrow>
                           (if set (channels_on R s1 users x) = {c} \<and> there = c \<and>
                               t * 1000 - of_int m \<le> POSITION_FRESH_SECONDS * 1000
                            then Some (device_id x, p, m) else None)
                       | _ \<Rightarrow> None) others, s1)))
         | _ \<Rightarrow> ([], s))"

section \<open>What the app shows\<close>

text \<open>The requests that wait for this device's answer, oldest first, and the whole state.\<close>

definition requests_for :: "'s redis_api \<Rightarrow> real \<Rightarrow> 's \<Rightarrow> string \<Rightarrow> (string \<times> string \<times> real) list" where
  "requests_for R t s d =
     sort_key (\<lambda>(k, c, asked). asked)
       (List.map_filter (\<lambda>(f, v).
          case v of
            VPair (VStr k) (VPair (VStr c) (VTime asked)) \<Rightarrow>
              (if t - asked > of_int REQUEST_TTL then None else Some (device_id k, c, asked))
          | _ \<Rightarrow> None) (r_hash R s (Link_requests d)))"

record shown_links =
  is_linked :: bool
  on_channel :: "string option"
  is_leader :: bool
  together :: "(string \<times> bool) list"
  may_join :: "(string \<times> string) list"
  asked_by :: "(string \<times> string \<times> real) list"

definition link_state ::
  "'s redis_api \<Rightarrow> settings \<Rightarrow> (string \<Rightarrow> string \<Rightarrow> bool) \<Rightarrow> real \<Rightarrow> 's \<Rightarrow> string \<Rightarrow> string \<Rightarrow> string \<Rightarrow> shown_links" where
  "link_state R st may_watch t s u d ip =
     (let g = group_of R s d; others = linked_with R s d
      in \<lparr>is_linked = (others \<noteq> []),
          on_channel = (if others \<noteq> [] then group_channel R s g else None),
          is_leader = leads R s d,
          together = map (\<lambda>x. (device_id x, user_of x = g)) (sort others),
          may_join = map (\<lambda>(x, c). (device_id x, c)) (offers R st may_watch s u d ip),
          asked_by = requests_for R t s d\<rparr>)"

end
