(* ===== verification/Watch_Groups.thy ===== *)
theory Watch_Groups
  imports Watch_Together
begin

text \<open>
  That watching together keeps its groups right: the groups as sets of devices, each operation on
  the store as one on the groups, the events as a step relation, and the invariant of every
  reachable store.
\<close>

section \<open>The groups as sets\<close>

text \<open>
  The groups a store has: who is in each, and which group each device has joined. What keeps them
  right: a device in a group is of that group and of no other; a group has two devices at least and
  one of its own login; and a device that joined another login's group is in it.
\<close>

type_synonym grouping = "(string \<Rightarrow> string set) \<times> (string \<Rightarrow> rval option)"

definition grouping_of :: "'s redis_api \<Rightarrow> 's \<Rightarrow> grouping" where
  "grouping_of R s = (\<lambda>g. set (group_members R s g), \<lambda>d. r_get R s (Link_group d))"

definition group_in :: "grouping \<Rightarrow> string \<Rightarrow> string" where
  "group_in G d =
     (case Option.bind (snd G d) val_text of
        Some g \<Rightarrow> if g = [] then user_of d else g | None \<Rightarrow> user_of d)"

definition grouping_ok :: "grouping \<Rightarrow> bool" where
  "grouping_ok G \<longleftrightarrow>
     (\<forall>g d. d \<in> fst G g \<longrightarrow> group_in G d = g) \<and>
     (\<forall>g. fst G g \<noteq> {} \<longrightarrow>
        (\<exists>a \<in> fst G g. \<exists>b \<in> fst G g. a \<noteq> b) \<and> (\<exists>d \<in> fst G g. user_of d = g)) \<and>
     (\<forall>d v. snd G d = Some v \<longrightarrow> (\<exists>g. v = VStr g \<and> g \<noteq> [] \<and> user_of d \<noteq> g \<and> d \<in> fst G g))"

definition without :: "string \<Rightarrow> grouping \<Rightarrow> grouping" where
  "without d G =
     (let g = group_in G d; left = fst G g - {d} in
      if d \<notin> fst G g then (fst G, (snd G)(d := None))
      else if \<not> (\<exists>a \<in> left. \<exists>b \<in> left. a \<noteq> b) \<or> \<not> (\<exists>x \<in> left. user_of x = g)
      then ((fst G)(g := {}), \<lambda>x. if x = d \<or> x \<in> left then None else snd G x)
      else ((fst G)(g := left), (snd G)(d := None)))"

definition joined :: "string \<Rightarrow> string \<Rightarrow> string \<Rightarrow> grouping \<Rightarrow> grouping" where
  "joined g d other G =
     (let G1 = (if group_in G d = g then G else without d G) in
      ((fst G1)(g := insert d (insert other (fst G1 g))),
       \<lambda>x. if x \<in> {d, other} \<and> user_of x \<noteq> g then Some (VStr g) else snd G1 x))"

lemma group_in_other:
  "snd G' d = snd G d \<Longrightarrow> group_in G' d = group_in G d"
  by (simp add: group_in_def)

lemma group_in_none [simp]: "snd G d = None \<Longrightarrow> group_in G d = user_of d"
  by (simp add: group_in_def)

lemma group_in_some [simp]: "snd G d = Some (VStr g) \<Longrightarrow> g \<noteq> [] \<Longrightarrow> group_in G d = g"
  by (simp add: group_in_def)

lemma grouping_okD:
  assumes "grouping_ok G"
  shows "d \<in> fst G g \<Longrightarrow> group_in G d = g"
    "fst G g \<noteq> {} \<Longrightarrow> \<exists>a \<in> fst G g. \<exists>b \<in> fst G g. a \<noteq> b"
    "fst G g \<noteq> {} \<Longrightarrow> \<exists>d \<in> fst G g. user_of d = g"
    "snd G d = Some v \<Longrightarrow> \<exists>g. v = VStr g \<and> g \<noteq> [] \<and> user_of d \<noteq> g \<and> d \<in> fst G g"
  using assms unfolding grouping_ok_def by blast+

lemma without_ok:
  assumes ok: "grouping_ok G"
  shows "grouping_ok (without d G)" "snd (without d G) d = None" "g \<noteq> group_in G d \<Longrightarrow> fst (without d G) g = fst G g"
    "group_in G x \<noteq> group_in G d \<Longrightarrow> snd (without d G) x = snd G x"
proof -
  let ?g = "group_in G d" and ?left = "fst G (group_in G d) - {d}"
  have alone: "snd G d = None" if "d \<notin> fst G ?g"
    using that grouping_okD(4) [OF ok, of d] by (cases "snd G d") auto
  have one: "x \<in> fst G g \<Longrightarrow> x \<in> fst G h \<Longrightarrow> g = h" for x g h using grouping_okD(1) [OF ok] by blast
  consider "d \<notin> fst G ?g" | "d \<in> fst G ?g" "\<not> (\<exists>a \<in> ?left. \<exists>b \<in> ?left. a \<noteq> b) \<or> \<not> (\<exists>x \<in> ?left. user_of x = ?g)"
    | "d \<in> fst G ?g" "\<exists>a \<in> ?left. \<exists>b \<in> ?left. a \<noteq> b" "\<exists>x \<in> ?left. user_of x = ?g" by blast
  then have "grouping_ok (without d G) \<and> snd (without d G) d = None \<and> (g \<noteq> ?g \<longrightarrow> fst (without d G) g = fst G g) \<and>
    (group_in G x \<noteq> ?g \<longrightarrow> snd (without d G) x = snd G x)"
  proof cases
    case 1
    have "(snd G)(d := None) = snd G" using alone [OF 1] by (simp add: fun_upd_idem)
    with 1 have "without d G = G" by (simp add: without_def Let_def)
    then show ?thesis using ok alone [OF 1] by auto
  next
    case 2
    define J where "J = (\<lambda>x. if x = d \<or> x \<in> ?left then None else snd G x)"
    have w: "without d G = ((fst G)(?g := {}), J)" using 2 by (simp add: without_def Let_def J_def)
    have same: "J x = snd G x" if "x \<notin> fst G ?g" for x using that 2(1) by (auto simp: J_def)
    have other: "group_in ((fst G)(?g := {}), J) x = h" if "x \<in> fst G h" "h \<noteq> ?g" for x h
    proof -
      have "x \<notin> fst G ?g" using that one by blast
      then have "group_in ((fst G)(?g := {}), J) x = group_in G x" by (intro group_in_other) (simp add: same)
      then show ?thesis using grouping_okD(1) [OF ok that(1)] by simp
    qed
    have "\<exists>h. v = VStr h \<and> h \<noteq> [] \<and> user_of x \<noteq> h \<and> x \<in> ((fst G)(?g := {})) h" if "J x = Some v" for x v
    proof -
      have v: "snd G x = Some v" "x \<notin> fst G ?g" using that 2(1) by (auto simp: J_def split: if_splits)
      obtain h where h: "v = VStr h" "h \<noteq> []" "user_of x \<noteq> h" "x \<in> fst G h"
        using grouping_okD(4) [OF ok v(1)] by blast
      then have "h \<noteq> ?g" using v(2) by blast
      with h show ?thesis by auto
    qed
    then have "grouping_ok (without d G)"
      unfolding grouping_ok_def w using other grouping_okD(2,3) [OF ok] by auto
    moreover have "x \<notin> fst G ?g" if "group_in G x \<noteq> ?g" using that grouping_okD(1) [OF ok] by blast
    ultimately show ?thesis using same 2(1) by (auto simp: w J_def)
  next
    case 3
    have w: "without d G = ((fst G)(?g := ?left), (snd G)(d := None))" using 3 by (auto simp: without_def Let_def)
    have other: "group_in ((fst G)(?g := ?left), (snd G)(d := None)) x = h"
      if "x \<in> ((fst G)(?g := ?left)) h" for x h
    proof -
      have x: "x \<in> fst G h" using that by (auto split: if_splits)
      have "x \<noteq> d" using that one [of d h ?g] 3(1) by (auto split: if_splits)
      then have "group_in ((fst G)(?g := ?left), (snd G)(d := None)) x = group_in G x" by (intro group_in_other) simp
      then show ?thesis using grouping_okD(1) [OF ok x] by simp
    qed
    have "\<exists>h. v = VStr h \<and> h \<noteq> [] \<and> user_of x \<noteq> h \<and> x \<in> ((fst G)(?g := ?left)) h"
      if "((snd G)(d := None)) x = Some v" for x v
    proof -
      have "snd G x = Some v" "x \<noteq> d" using that by (auto split: if_splits)
      then obtain h where "v = VStr h" "h \<noteq> []" "user_of x \<noteq> h" "x \<in> fst G h" "x \<noteq> d"
        using grouping_okD(4) [OF ok, of x v] by blast
      then show ?thesis by (cases "h = ?g") auto
    qed
    moreover have "(\<exists>a \<in> ((fst G)(?g := ?left)) h. \<exists>b \<in> ((fst G)(?g := ?left)) h. a \<noteq> b) \<and>
        (\<exists>x \<in> ((fst G)(?g := ?left)) h. user_of x = h)" if "((fst G)(?g := ?left)) h \<noteq> {}" for h
      using that 3 grouping_okD(2,3) [OF ok, of h] by (cases "h = ?g") auto
    ultimately have "grouping_ok (without d G)"
      unfolding grouping_ok_def w using other by simp
    moreover have "x \<noteq> d" if "group_in G x \<noteq> ?g" using that by blast
    ultimately show ?thesis by (auto simp: w)
  qed
  then show "grouping_ok (without d G)" "snd (without d G) d = None" "g \<noteq> ?g \<Longrightarrow> fst (without d G) g = fst G g"
    "group_in G x \<noteq> ?g \<Longrightarrow> snd (without d G) x = snd G x" by blast+
qed

lemma without_gone:
  assumes ok: "grouping_ok G"
  shows "d \<notin> fst (without d G) h"
proof
  assume d: "d \<in> fst (without d G) h"
  moreover have "fst (without d G) h \<subseteq> fst G h" by (auto simp: without_def Let_def)
  ultimately have "h = group_in G d" "d \<in> fst G h" using grouping_okD(1) [OF ok, of d h] by blast+
  with d show False by (simp add: without_def Let_def split: if_splits)
qed

lemma joined_ok:
  assumes ok: "grouping_ok G" and "d \<noteq> other" "g \<noteq> []" "group_in G other = g"
  shows "grouping_ok (joined g d other G)"
proof -
  define G1 where "G1 = (if group_in G d = g then G else without d G)"
  have ok1: "grouping_ok G1" using ok without_ok(1) by (simp add: G1_def)
  have other: "group_in G1 other = g"
    using assms(4) without_ok(4) [OF ok, of other d] group_in_other [of G1 other G] by (auto simp: G1_def)
  have d: "snd G1 d = None \<or> group_in G1 d = g" using without_ok(2) [OF ok] by (auto simp: G1_def)
  have own: "snd G1 x = None" if "group_in G1 x = g" "user_of x = g" for x
  proof (cases "snd G1 x")
    case (Some v)
    with grouping_okD(4) [OF ok1 Some] that assms(3) show ?thesis by auto
  qed simp
  let ?J = "\<lambda>x. if x \<in> {d, other} \<and> user_of x \<noteq> g then Some (VStr g) else snd G1 x"
  let ?M = "(fst G1)(g := insert d (insert other (fst G1 g)))"
  have J: "joined g d other G = (?M, ?J)" by (simp add: joined_def G1_def [symmetric] Let_def)
  have here: "group_in (?M, ?J) x = g" if "x \<in> {d, other}" for x
    using that own [of x] d other assms(3) by (auto simp: group_in_def)
  have there: "group_in (?M, ?J) x = h" if "x \<in> fst G1 h" "x \<notin> {d, other}" for x h
  proof -
    have "group_in (?M, ?J) x = group_in G1 x" using that(2) by (intro group_in_other) simp
    then show ?thesis using grouping_okD(1) [OF ok1 that(1)] by simp
  qed
  have only: "x \<notin> fst G1 h" if "x \<in> {d, other}" "h \<noteq> g" for x h
  proof
    assume "x \<in> fst G1 h"
    then have gx: "group_in G1 x = h" by (rule grouping_okD(1) [OF ok1])
    then have "x = d" "group_in G1 d \<noteq> g" using that other by auto
    then have "group_in G d \<noteq> g" "G1 = without d G" unfolding G1_def by auto
    with \<open>x \<in> fst G1 h\<close> \<open>x = d\<close> show False using without_gone [OF ok] by blast
  qed
  have "\<exists>x \<in> ?M g. user_of x = g"
  proof (cases "fst G1 g = {}")
    case True
    then have "other \<notin> fst G1 g" by simp
    then have "snd G1 other = None"
      using grouping_okD(4) [OF ok1, of other] other by (cases "snd G1 other") auto
    then show ?thesis using other by auto
  next
    case False
    then show ?thesis using grouping_okD(3) [OF ok1] by auto
  qed
  moreover have "\<exists>h. v = VStr h \<and> h \<noteq> [] \<and> user_of x \<noteq> h \<and> x \<in> ?M h" if "?J x = Some v" for x v
  proof (cases "x \<in> {d, other} \<and> user_of x \<noteq> g")
    case True
    then show ?thesis using that assms(3) by auto
  next
    case False
    then have "snd G1 x = Some v" using that by (auto split: if_splits)
    from grouping_okD(4) [OF ok1 this] show ?thesis by auto
  qed
  moreover have "group_in (?M, ?J) x = h" if "x \<in> ?M h" for x h
    using that here there only by (cases "x \<in> {d, other}"; cases "h = g") auto
  moreover have "(\<exists>a \<in> ?M h. \<exists>b \<in> ?M h. a \<noteq> b) \<and> (\<exists>x \<in> ?M h. user_of x = h)" if "?M h \<noteq> {}" for h
    using that assms(2) calculation(1) grouping_okD(2,3) [OF ok1, of h] by (cases "h = g") auto
  ultimately show ?thesis unfolding J grouping_ok_def by simp
qed

section \<open>The operations on the store and on the groups\<close>

lemma few_iff: "distinct xs \<Longrightarrow> length xs < 2 \<longleftrightarrow> \<not> (\<exists>a \<in> set xs. \<exists>b \<in> set xs. a \<noteq> b)"
  by (cases xs; cases "tl xs") auto

lemma group_of_in: "group_of R s d = group_in (grouping_of R s) d"
  by (simp add: group_of_def group_in_def grouping_of_def)

lemma set_keys: "set (map fst xs) = dom (map_of xs)"
  by (simp add: dom_map_of_conv_image_fst)

lemma starts_with_rest: "starts_with d p \<Longrightarrow> \<exists>r. d = p @ r"
  by (induction d p rule: starts_with.induct) auto

lemma key_device: 
  assumes "is_declared (Some d)" "user_of d = u" "u \<noteq> []"
  shows "d = key_of u (device_id d)"
proof -
  have split: "split_first c t = Some (a, b) \<Longrightarrow> t = a @ c # b" for c t a b
    by (induction t arbitrary: a) (auto split: if_splits)
  obtain r where d: "d = ''app|'' @ r"
    using assms(1) starts_with_rest [of d "''app|''"] by (auto simp: is_declared_def split: option.splits)
  have first: "split_first (CHR ''|'') d = Some (''app'', r)" by (simp add: d)
  obtain v i where r: "split_first (CHR ''|'') r = Some (v, i)" and "v = u"
    using assms(2,3) by (auto simp: user_of_def first split: option.splits)
  have "device_id d = i" by (simp add: device_id_def first r)
  then show ?thesis using split [OF r] \<open>v = u\<close> d by (simp add: key_of_def)
qed

context redis
begin

lemma links_keys:
  "set (map fst (r_hash R (r_hdel R s (Links g) d) (Links h))) =
     set (map fst (r_hash R s (Links h))) - (if h = g then {d} else {})"
  "set (map fst (r_hash R (r_hset R s (Links g) d v) (Links h))) =
     set (map fst (r_hash R s (Links h))) \<union> (if h = g then {d} else {})"
  unfolding set_keys by (auto simp: hget_hdel hget_hset)

lemma members_change:
  "set (group_members R (r_hdel R s (Links g) d) h) = set (group_members R s h) - (if h = g then {d} else {})"
  "g \<noteq> [] \<Longrightarrow> set (group_members R (r_hset R s (Links g) d v) h) = set (group_members R s h) \<union> (if h = g then {d} else {})"
  using links_keys(1) [of s g d h] links_keys(2) [of s g d v h] by (auto simp: group_members_def)

lemma members_frame:
  "r_hash R s' (Links h) = r_hash R s (Links h) \<Longrightarrow> group_members R s' h = group_members R s h"
  by (simp add: group_members_def)

lemma members_nodup: "distinct (group_members R s g)"
  by (simp add: group_members_def hash_distinct)

lemma del_links_fold [simp]:
  "r_hash R (foldl (\<lambda>t x. r_del R t (Link_group x)) s xs) (Links h) = r_hash R s (Links h)"
  "r_hash R (foldl (\<lambda>t x. r_del R t (Link_group x)) s xs) (Link_requests k) = r_hash R s (Link_requests k)"
  "r_get R (foldl (\<lambda>t x. r_del R t (Link_group x)) s xs) (Link_group d) =
     (if d \<in> set xs then None else r_get R s (Link_group d))"
  by (induction xs arbitrary: s) auto

lemma expire_fold [simp]:
  "r_hash R (foldl (\<lambda>t k. r_expire R t k n) s xs) = r_hash R s"
  "r_get R (foldl (\<lambda>t k. r_expire R t k n) s xs) = r_get R s"
  by (induction xs arbitrary: s) auto

lemma touch_frame [simp]:
  "r_hash R (touch_group R g s) = r_hash R s" "r_get R (touch_group R g s) = r_get R s"
  by (simp_all add: touch_group_def del: foldl_Cons)

lemma grouping_frame:
  assumes "\<And>h. r_hash R s' (Links h) = r_hash R s (Links h)" "\<And>d. r_get R s' (Link_group d) = r_get R s (Link_group d)"
  shows "grouping_of R s' = grouping_of R s"
  unfolding grouping_of_def group_members_def assms by simp

lemma drop_view: "grouping_of R (snd (snd (drop_link R d s))) = without d (grouping_of R s)"
proof (cases "d \<in> set (group_members R s (group_of R s d))")
  case False
  then have "snd (snd (drop_link R d s)) = r_del R s (Link_group d)" by (simp add: drop_link_def Let_def)
  moreover have "without d (grouping_of R s) = (fst (grouping_of R s), (snd (grouping_of R s))(d := None))"
    using False unfolding without_def group_of_in by (simp add: grouping_of_def)
  ultimately show ?thesis by (simp add: grouping_of_def group_members_def fun_eq_iff)
next
  case True
  define g where "g = group_of R s d"
  define s1 where "s1 = r_del R (r_hdel R s (Links g) d) (Link_group d)"
  define left where "left = group_members R s1 g"
  have keep: "set (group_members R s1 h) = set (group_members R s h) - (if h = g then {d} else {})" for h
    using members_change(1) [of s g d h] members_frame [of s1 h "r_hdel R s (Links g) d"] by (simp add: s1_def)
  have gets: "r_get R s1 (Link_group x) = (if x = d then None else r_get R s (Link_group x))" for x
    by (simp add: s1_def)
  have ends: "(length left < 2 \<or> filter (\<lambda>x. user_of x = g) left = []) \<longleftrightarrow>
    \<not> (\<exists>a \<in> set left. \<exists>b \<in> set left. a \<noteq> b) \<or> \<not> (\<exists>x \<in> set left. user_of x = g)"
    using few_iff [OF members_nodup, of s1 g] by (auto simp: left_def filter_empty_conv)
  have left: "set left = set (group_members R s g) - {d}" by (simp add: left_def keep)
  have gi: "group_in (grouping_of R s) d = g" by (simp add: g_def group_of_in)
  have fs: "fst (grouping_of R s) h = set (group_members R s h)" for h by (simp add: grouping_of_def)
  have d: "d \<in> set (group_members R s g)" using True by (simp add: g_def)
  show ?thesis
  proof (cases "length left < 2 \<or> filter (\<lambda>x. user_of x = g) left = []")
    case end_: True
    let ?t = "foldl (\<lambda>t x. r_del R t (Link_group x))
      (r_del R (r_del R (r_del R s1 (Links g)) (Link_channel g)) (Link_positions g)) left"
    have t: "snd (snd (drop_link R d s)) = ?t"
      using True end_ by (simp add: drop_link_def Let_def g_def [symmetric] s1_def [symmetric] left_def [symmetric])
    have "group_members R ?t h = (if h = g then [] else group_members R s1 h)" for h
      by (simp add: group_members_def)
    then have "fst (grouping_of R ?t) = (fst (grouping_of R s))(g := {})"
      by (simp add: grouping_of_def fun_eq_iff keep)
    moreover have "snd (grouping_of R ?t) = (\<lambda>x. if x = d \<or> x \<in> set left then None else snd (grouping_of R s) x)"
      by (simp add: grouping_of_def fun_eq_iff gets)
    moreover have "without d (grouping_of R s) =
        ((fst (grouping_of R s))(g := {}), \<lambda>x. if x = d \<or> x \<in> set left then None else snd (grouping_of R s) x)"
      using d ends end_ unfolding without_def Let_def gi fs left by simp
    ultimately show ?thesis unfolding t by (simp add: prod_eq_iff)
  next
    case False
    then have t: "snd (snd (drop_link R d s)) = s1"
      using True by (simp add: drop_link_def Let_def g_def [symmetric] s1_def [symmetric] left_def [symmetric])
    have "fst (grouping_of R s1) = (fst (grouping_of R s))(g := set left)"
      by (simp add: grouping_of_def fun_eq_iff keep left)
    moreover have "snd (grouping_of R s1) = (snd (grouping_of R s))(d := None)"
      by (simp add: grouping_of_def fun_eq_iff gets)
    moreover have "without d (grouping_of R s) =
        ((fst (grouping_of R s))(g := set left), (snd (grouping_of R s))(d := None))"
      using d ends False unfolding without_def Let_def gi fs left by simp
    ultimately show ?thesis unfolding t by (simp add: prod_eq_iff)
  qed
qed

end

context redis
begin

lemma drop_requests: "r_hash R (snd (snd (drop_link R d s))) (Link_requests k) = r_hash R s (Link_requests k)"
  by (simp add: drop_link_def Let_def)

lemma make_link_view:
  assumes "g \<noteq> []"
  shows "grouping_of R (snd (make_link R t g d other c s)) = joined g d other (grouping_of R s)"
    "r_hash R (snd (make_link R t g d other c s)) (Link_requests k) = r_hash R s (Link_requests k)"
proof -
  define s1 where "s1 = (if group_of R s d = g then s else snd (snd (drop_link R d s)))"
  have s1: "grouping_of R s1 = (if group_in (grouping_of R s) d = g then grouping_of R s else without d (grouping_of R s))"
    by (simp add: s1_def group_of_in [symmetric] drop_view)
  let ?s2 = "r_hset R (r_hset R s1 (Links g) other (VTime t)) (Links g) d (VTime t)"
  let ?s3 = "join_group R g other (join_group R g d ?s2)"
  let ?s4 = "touch_group R g (r_setex R ?s3 (Link_channel g) LINK_TTL (VStr c))"
  let ?s5 = "r_del R (r_del R ?s4 (Replaced (user_of d) d)) (Replaced (user_of other) other)"
  have made: "snd (make_link R t g d other c s) = ?s5"
    by (auto simp: make_link_def s1_def Let_def split: prod.splits)
  have hash: "r_hash R ?s5 (Links h) = r_hash R ?s2 (Links h)"
    "r_hash R ?s5 (Link_requests k) = r_hash R s1 (Link_requests k)" for h
    by (simp_all add: join_group_def r_setex_def)
  have "r_get R ?s5 (Link_group x) =
    (if x \<in> {d, other} \<and> user_of x \<noteq> g then Some (VStr g) else r_get R s1 (Link_group x))" for x
    by (auto simp: join_group_def r_setex_def)
  moreover have "set (group_members R ?s5 h) = set (group_members R s1 h) \<union> (if h = g then {d, other} else {})" for h
    using members_frame [OF hash(1), of h] members_change(2) [OF assms, of _ d "VTime t" h]
      members_change(2) [OF assms, of s1 other "VTime t" h] by auto
  ultimately show "grouping_of R (snd (make_link R t g d other c s)) = joined g d other (grouping_of R s)"
    unfolding made joined_def Let_def s1 [symmetric]
    by (auto simp: grouping_of_def prod_eq_iff fun_eq_iff)
  show "r_hash R (snd (make_link R t g d other c s)) (Link_requests k) = r_hash R s (Link_requests k)"
    unfolding made hash by (simp add: s1_def drop_requests)
qed

end

section \<open>What can happen\<close>

text \<open>
  What happens to the groups: a device joins another, answers a request, leaves, takes another
  out, asks for a channel or reports where it is; and everything else, which leaves their keys
  alone. A device's key names its login, as \<open>device_key\<close> writes it.
\<close>

definition clients_named :: "'s redis_api \<Rightarrow> 's \<Rightarrow> bool" where
  "clients_named R s \<longleftrightarrow>
     list_all (\<lambda>(d, u, c, ip). u = Some (user_of d) \<and> user_of d \<noteq> []) (declared_clients R s)"

inductive link_step ::
  "'s redis_api \<Rightarrow> settings \<Rightarrow> (string \<Rightarrow> string \<Rightarrow> bool) \<Rightarrow> 's \<Rightarrow> 's \<Rightarrow> bool"
  for R :: "'s redis_api" and st :: settings and mw :: "string \<Rightarrow> string \<Rightarrow> bool" where
  Joins: "link_step R st mw s (snd (snd (join_device R st mw t (user_of me) me other ip s)))"
    if "is_declared (Some me)" "user_of me \<noteq> []" "clients_named R s"
| Answers: "link_step R st mw s (snd (snd (answer_request R mw t (user_of me) me asking allow s)))"
    if "user_of me \<noteq> []"
| Leaves: "link_step R st mw s (snd (leave_group R me s))"
| Removes: "link_step R st mw s (snd (snd (remove_device R me other s)))"
| Changes: "link_step R st mw s (snd (snd (mirror_change R st mw v c s)))"
| Reports: "link_step R st mw s (snd (report_position R t me pts at_ms s))"
| Elsewhere: "link_step R st mw s s'"
    if "\<forall>g. r_hash R s' (Links g) = r_hash R s (Links g)" "\<forall>d. r_get R s' (Link_group d) = r_get R s (Link_group d)"
      "\<forall>k. r_hash R s' (Link_requests k) = r_hash R s (Link_requests k)"

inductive link_reachable ::
  "'s redis_api \<Rightarrow> settings \<Rightarrow> (string \<Rightarrow> string \<Rightarrow> bool) \<Rightarrow> 's \<Rightarrow> bool"
  for R :: "'s redis_api" and st :: settings and mw :: "string \<Rightarrow> string \<Rightarrow> bool" where
  Start: "link_reachable R st mw s"
    if "\<forall>g. r_hash R s (Links g) = []" "\<forall>d. r_get R s (Link_group d) = None" "\<forall>k. r_hash R s (Link_requests k) = []"
| Then: "link_reachable R st mw s'" if "link_reachable R st mw s" "link_step R st mw s s'"

text \<open>A request comes from another login than the device it asks.\<close>

definition requests_ok :: "'s redis_api \<Rightarrow> 's \<Rightarrow> bool" where
  "requests_ok R s \<longleftrightarrow>
     (\<forall>k f guest c. request_parts (r_hget R s (Link_requests k) f) = Some (guest, c) \<longrightarrow> user_of guest \<noteq> user_of k)"

definition links_ok :: "'s redis_api \<Rightarrow> 's \<Rightarrow> bool" where
  "links_ok R s \<longleftrightarrow> grouping_ok (grouping_of R s) \<and> requests_ok R s"

lemma requests_frame:
  "(\<And>k. r_hash R s' (Link_requests k) = r_hash R s (Link_requests k)) \<Longrightarrow> requests_ok R s' = requests_ok R s"
  by (simp add: requests_ok_def)

context redis
begin

lemma links_frame:
  assumes "\<And>h. r_hash R s' (Links h) = r_hash R s (Links h)" "\<And>d. r_get R s' (Link_group d) = r_get R s (Link_group d)"
    "\<And>k. r_hash R s' (Link_requests k) = r_hash R s (Link_requests k)"
  shows "links_ok R s' = links_ok R s"
  unfolding links_ok_def grouping_frame [OF assms(1,2)] requests_frame [of R s' s, OF assms(3)] by simp

lemma drop_links_ok: "links_ok R s \<Longrightarrow> links_ok R (snd (snd (drop_link R d s)))"
  unfolding links_ok_def drop_view requests_frame [of R "snd (snd (drop_link R d s))" s, OF drop_requests]
  by (simp add: without_ok)

lemma make_link_ok:
  assumes "links_ok R s" "g \<noteq> []" "d \<noteq> other" "group_of R s other = g"
  shows "links_ok R (snd (make_link R t g d other c s))"
  using assms joined_ok [of "grouping_of R s" d other g]
  unfolding links_ok_def make_link_view(1) [OF assms(2)]
    requests_frame [of R "snd (make_link R t g d other c s)" s, OF make_link_view(2) [OF assms(2)]]
  by (simp add: group_of_in)

lemma group_nonempty: "grouping_ok (grouping_of R s) \<Longrightarrow> user_of d \<noteq> [] \<Longrightarrow> group_of R s d \<noteq> []"
  by (auto simp: group_of_def split: option.splits)

lemma remove_links_ok: "links_ok R s \<Longrightarrow> links_ok R (snd (snd (remove_device R me other s)))"
  using drop_links_ok by (auto simp: remove_device_def Let_def split: option.splits prod.splits)
    (metis snd_conv)+

lemma remove_all_ok: "links_ok R s \<Longrightarrow> links_ok R (snd (remove_all R me ds s))"
proof (induction ds arbitrary: s)
  case (Cons d ds)
  have "links_ok R (snd (remove_all R me ds (snd (snd (remove_device R me (device_id d) s)))))"
    by (intro Cons.IH remove_links_ok Cons.prems)
  then show ?case by (auto split: prod.splits)
qed simp

lemma asked_ok:
  assumes "requests_ok R s" "user_of me \<noteq> user_of k"
  shows "requests_ok R (r_expire R (r_hset R s (Link_requests k) f (VPair (VStr me) (VPair (VStr c) (VTime t)))) (Link_requests k) n)"
  using assms unfolding requests_ok_def by (auto simp: hget_hset)

lemma declared_client:
  assumes "x \<in> set (declared_clients R s)"
  shows "is_declared (Some (fst x))"
proof -
  obtain k where k: "(case k of
         Live (Client_metadata c cl) \<Rightarrow>
           (let h = r_hash R s k in
            case client_field h ''server_device'' of
              None \<Rightarrow> None
            | Some d \<Rightarrow>
                (if is_declared (Some d)
                 then Some (d, client_field h ''user_id'', c,
                            case client_field h ''ip_address'' of None \<Rightarrow> [] | Some ip \<Rightarrow> ip)
                 else None))
       | _ \<Rightarrow> None) = Some x"
    using assms unfolding declared_clients_def map_filter_member by blast
  then obtain l where l: "k = Live l" by (cases k) simp_all
  then obtain c cl where "k = Live (Client_metadata c cl)" using k by (cases l) simp_all
  then show ?thesis using k by (auto simp: Let_def split: option.splits if_splits)
qed

lemma client_of:
  assumes "clients_named R s" "(d, c, ip) \<in> set (clients_of R s users)"
  shows "is_declared (Some d)" "user_of d \<in> set users" "user_of d \<noteq> []"
proof -
  obtain u where u: "(d, u, c, ip) \<in> set (declared_clients R s)" "u \<in> Some ` set users"
    using assms(2) by (auto simp: clients_of_def map_filter_member split: if_splits)
  then have "u = Some (user_of d)" "user_of d \<noteq> []"
    using assms(1) by (auto simp: clients_named_def list_all_iff)
  with u(2) show "user_of d \<in> set users" "user_of d \<noteq> []" by auto
  show "is_declared (Some d)"
    using declared_client [OF u(1)] by simp
qed

lemma offers_member:
  assumes named: "clients_named R s" and "(d, c) \<in> set (offers R st mw s u me ip)"
  shows "is_declared (Some d)" "user_of d \<noteq> []" "user_of d = u \<Longrightarrow> d \<noteq> me"
proof -
  obtain cs where "(d, cs) \<in> set (offered_devices R st s u me ip)"
    using assms(2) by (auto simp: offers_def map_filter_member split: list.splits if_splits)
  then consider a where "(d, a) \<in> set (clients_of R s [u])" "d \<noteq> me"
    | a others where "(d, a) \<in> set (clients_of R s others)" "u \<notin> set others"
    by (auto simp: offered_devices_def Let_def split: if_splits)
  then have "is_declared (Some d) \<and> user_of d \<noteq> [] \<and> (user_of d = u \<longrightarrow> d \<noteq> me)"
  proof cases
    case 1
    then show ?thesis using client_of [OF named, of d "fst a" "snd a" "[u]"] by simp
  next
    case 2
    then show ?thesis using client_of [OF named, of d "fst a" "snd a" others] by auto
  qed
  then show "is_declared (Some d)" "user_of d \<noteq> []" "user_of d = u \<Longrightarrow> d \<noteq> me" by blast+
qed

lemma join_links_ok:
  assumes ok: "links_ok R s" and me: "is_declared (Some me)" "user_of me \<noteq> []" and named: "clients_named R s"
  shows "links_ok R (snd (snd (join_device R st mw t (user_of me) me other ip s)))"
proof (cases "find (\<lambda>(d, c). device_id d = other) (offers R st mw s (user_of me) me ip)")
  case None
  then show ?thesis using ok by (simp add: join_device_def)
next
  case (Some a)
  obtain d c where a: "a = (d, c)" by (cases a)
  have "(d, c) \<in> set (offers R st mw s (user_of me) me ip)" and id: "device_id d = other"
    using Some unfolding a by (auto simp: find_Some_iff in_set_conv_nth)
  note d = offers_member [OF named this(1)]
  have k: "key_of (user_of d) other = d" using key_device [OF d(1) refl d(2)] id by simp
  show ?thesis
  proof (cases "user_of d = user_of me")
    case True
    have "group_of R s d \<noteq> []" using ok group_nonempty d(2) by (auto simp: links_ok_def)
    then have "links_ok R (snd (make_link R t (group_of R s d) me d c s))"
      using d(3) [OF True] by (intro make_link_ok ok) auto
    then show ?thesis using Some a True k by (simp add: join_device_def Let_def split_def)
  next
    case False
    let ?s = "r_expire R (r_hset R s (Link_requests d) (device_id me) (VPair (VStr me) (VPair (VStr c) (VTime t))))
      (Link_requests d) REQUEST_TTL"
    have "requests_ok R ?s" using ok False by (intro asked_ok) (auto simp: links_ok_def)
    moreover have "grouping_of R ?s = grouping_of R s" by (rule grouping_frame) simp_all
    ultimately have "links_ok R ?s" using ok by (simp only: links_ok_def)
    then show ?thesis using Some a False d(2) k by (simp add: join_device_def Let_def)
  qed
qed

lemma answer_links_ok:
  assumes ok: "links_ok R s" and me: "user_of me \<noteq> []"
  shows "links_ok R (snd (snd (answer_request R mw t (user_of me) me asking allow s)))"
proof (cases "request_parts (r_hget R s (Link_requests me) asking)")
  case None
  then show ?thesis using ok by (simp add: answer_request_def)
next
  case (Some a)
  obtain guest c where a: "a = (guest, c)" by (cases a)
  define s1 where "s1 = r_hdel R s (Link_requests me) asking"
  define c' where "c' = (case channels_on R s1 [user_of me] me of [x] \<Rightarrow> x | _ \<Rightarrow> c)"
  have s1: "grouping_of R s1 = grouping_of R s" by (rule grouping_frame) (simp_all add: s1_def)
  have ok1: "links_ok R s1"
    using ok unfolding links_ok_def s1 requests_ok_def by (auto simp: s1_def hget_hdel)
  have "guest \<noteq> me" using ok Some a by (auto simp: links_ok_def requests_ok_def)
  moreover have "group_of R s1 me \<noteq> []" using ok1 group_nonempty me by (auto simp: links_ok_def)
  ultimately have "links_ok R (snd (make_link R t (group_of R s1 me) guest me c' s1))"
    by (intro make_link_ok ok1) simp_all
  with ok1 Some a show ?thesis
    by (auto simp: answer_request_def Let_def s1_def [symmetric] c'_def [symmetric] split: prod.splits)
qed

lemma mirror_state:
  assumes "server_device v = Some d"
  shows "\<exists>P Q told1 told2. mirror_change R st mw v c s =
    (let g = group_of R s d; s1 = touch_group R g s;
         ds = filter (\<lambda>x. user_of x \<noteq> g \<and> \<not> mw (user_of x) c) (linked_with R s d) in
     if P then (False, [], s) else if Q then (False, [], s1)
     else if \<not> leads R s1 d then (True, told1, s1)
     else (True, told2, snd (remove_all R d ds (r_setex R s1 (Link_channel g) LINK_TTL (VStr c))))) \<and>
    (linked_with R s d = [] \<longrightarrow> P)"
  unfolding mirror_change_def assms option.case Let_def split_def
  by (intro exI conjI, rule refl) simp

lemma mirror_links_ok:
  assumes ok: "links_ok R s"
  shows "links_ok R (snd (snd (mirror_change R st mw v c s)))"
proof (cases "server_device v")
  case None
  then show ?thesis using ok by (simp add: mirror_change_def)
next
  case (Some d)
  have touch: "links_ok R (touch_group R g s)" for g using ok by (subst links_frame) simp_all
  have "links_ok R (r_setex R (touch_group R g s) (Link_channel g) LINK_TTL (VStr c))" for g
    using ok by (subst links_frame) simp_all
  then have all: "links_ok R (snd (remove_all R d ds (r_setex R (touch_group R g s) (Link_channel g) LINK_TTL (VStr c))))" for ds g
    by (rule remove_all_ok)
  from mirror_state [OF Some, of st mw c s] show ?thesis using ok touch all
    by (auto simp: Let_def)
qed

lemma report_links_ok: "links_ok R s \<Longrightarrow> links_ok R (snd (report_position R t me pts at_ms s))"
proof -
  assume ok: "links_ok R s"
  have "links_ok R (r_expire R (r_hset R s (Link_positions g) me v) (Link_positions g) LINK_TTL)" for g v
    using ok by (subst links_frame) simp_all
  with ok show ?thesis unfolding report_position_def Let_def by (auto split: list.splits)
qed

end

inductive_cases link_stepE [elim]: "link_step R st mw s s'"

context redis
begin

lemma step_links_ok: "link_step R st mw s s' \<Longrightarrow> links_ok R s \<Longrightarrow> links_ok R s'"
proof (induction rule: link_step.induct)
  case (Leaves s me)
  then show ?case by (simp add: leave_group_def drop_links_ok)
next
  case (Elsewhere s' s)
  then show ?case by (subst links_frame [of s' s]) simp_all
qed (simp_all add: join_links_ok answer_links_ok remove_links_ok mirror_links_ok report_links_ok)

lemma reachable_links_ok: "link_reachable R st mw s \<Longrightarrow> links_ok R s"
proof (induction rule: link_reachable.induct)
  case (Start s)
  then show ?case
    by (auto simp: links_ok_def grouping_ok_def grouping_of_def group_members_def requests_ok_def)
next
  case (Then s s')
  then show ?case by (blast intro: step_links_ok)
qed

lemma linked_iff:
  "e \<in> set (linked_with R s d) \<longleftrightarrow>
     d \<in> set (group_members R s (group_of R s d)) \<and> e \<in> set (group_members R s (group_of R s d)) \<and> d \<noteq> e"
  by (auto simp: linked_with_def Let_def)

lemma groups_kept:
  assumes "links_ok R s"
  shows "d \<in> set (group_members R s g) \<Longrightarrow> group_of R s d = g"
    "group_members R s g \<noteq> [] \<Longrightarrow>
       2 \<le> length (group_members R s g) \<and> (\<exists>l \<in> set (group_members R s g). leads R s l)"
    "group_of R s d \<noteq> user_of d \<Longrightarrow> d \<in> set (group_members R s (group_of R s d))"
    "e \<in> set (linked_with R s d) \<longleftrightarrow> d \<in> set (linked_with R s e)"
proof -
  let ?G = "grouping_of R s"
  have ok: "grouping_ok ?G" using assms by (simp add: links_ok_def)
  have fs: "fst ?G h = set (group_members R s h)" for h by (simp add: grouping_of_def)
  show one: "d \<in> set (group_members R s g) \<Longrightarrow> group_of R s d = g" for d g
    using grouping_okD(1) [OF ok, of d g] by (simp add: fs group_of_in)
  show "2 \<le> length (group_members R s g) \<and> (\<exists>l \<in> set (group_members R s g). leads R s l)"
    if "group_members R s g \<noteq> []"
    using that grouping_okD(2,3) [OF ok, of g] one few_iff [OF members_nodup, of s g]
    by (fastforce simp: fs leads_def not_less)
  show "d \<in> set (group_members R s (group_of R s d))" if "group_of R s d \<noteq> user_of d"
  proof (cases "snd ?G d")
    case None
    then show ?thesis using that by (simp add: group_of_in)
  next
    case (Some v)
    with grouping_okD(4) [OF ok Some] show ?thesis by (auto simp: fs group_of_in)
  qed
  show "e \<in> set (linked_with R s d) \<longleftrightarrow> d \<in> set (linked_with R s e)"
    using one unfolding linked_iff by metis
qed

lemma without_less: "fst (without d G) g \<subseteq> fst G g"
  by (auto simp: without_def Let_def)

text \<open>Taking out all devices of a list: they are out, as long as device ids tell the members apart.\<close>

lemma leader_stays:
  assumes "links_ok R s" "leads R s d" "x \<noteq> d"
  shows "leads R (snd (snd (drop_link R x s))) d"
proof -
  let ?G = "grouping_of R s"
  have ok: "grouping_ok ?G" using assms by (simp add: links_ok_def)
  have "snd ?G d = None"
    using grouping_okD(4) [OF ok, of d] assms(2) by (cases "snd ?G d") (auto simp: leads_def group_of_in)
  then have "snd (without x ?G) d = None" by (auto simp: without_def Let_def)
  then show ?thesis by (simp add: leads_def group_of_in drop_view)
qed

lemma remove_device_state:
  "leads R s me \<Longrightarrow> snd (snd (remove_device R me other s)) =
     (case find (\<lambda>d. device_id d = other) (group_members R s (group_of R s me)) of
        None \<Rightarrow> s
      | Some d \<Rightarrow> if user_of d = group_of R s me then s else snd (snd (drop_link R d s)))"
  by (simp add: remove_device_def Let_def split_def split: option.split)

lemma remove_one:
  assumes ok: "links_ok R s" and leads: "leads R s d" and g: "user_of d = g"
    and ids: "inj_on device_id (set (group_members R s g))" and x: "user_of x \<noteq> g"
    and s': "s' = snd (snd (remove_device R d (device_id x) s))"
  shows "leads R s' d \<and> set (group_members R s' g) \<subseteq> set (group_members R s g) - {x}"
proof -
  have gd: "group_of R s d = g" using leads g by (simp add: leads_def)
  show ?thesis
  proof (cases "find (\<lambda>y. device_id y = device_id x) (group_members R s g)")
    case None
    then have "x \<notin> set (group_members R s g)" by (auto simp: find_None_iff)
    with None show ?thesis using leads unfolding s' remove_device_state [OF leads] gd by simp
  next
    case (Some y)
    then have y: "y \<in> set (group_members R s g)" "device_id y = device_id x"
      by (auto simp: find_Some_iff in_set_conv_nth)
    have x_is: "x \<in> set (group_members R s g) \<Longrightarrow> x = y" using ids y by (auto dest: inj_onD)
    show ?thesis
    proof (cases "user_of y = g")
      case True
      then have "x \<notin> set (group_members R s g)" using x_is x by blast
      with True Some show ?thesis using leads unfolding s' remove_device_state [OF leads] gd by simp
    next
      case False
      then have state: "s' = snd (snd (drop_link R y s))"
        using Some unfolding s' remove_device_state [OF leads] gd by simp
      have ok': "grouping_ok (grouping_of R s)" using ok by (simp add: links_ok_def)
      have "fst (without y (grouping_of R s)) g \<subseteq> fst (grouping_of R s) g - {y}"
        using without_gone [OF ok', of y g] without_less by blast
      then have "set (group_members R s' g) \<subseteq> set (group_members R s g) - {y}"
        unfolding state drop_view [symmetric] by (simp add: grouping_of_def)
      moreover have "leads R s' d" unfolding state using False g by (intro leader_stays ok leads) auto
      ultimately show ?thesis using x_is by blast
    qed
  qed
qed

lemma remove_all_out:
  assumes "links_ok R s" "leads R s d" "user_of d = g" "inj_on device_id (set (group_members R s g))"
    "\<forall>x \<in> set ds. user_of x \<noteq> g"
  shows "set (group_members R (snd (remove_all R d ds s)) g) \<subseteq> set (group_members R s g) - set ds"
  using assms
proof (induction ds arbitrary: s)
  case (Cons x ds)
  let ?s = "snd (snd (remove_device R d (device_id x) s))"
  have one: "leads R ?s d" "set (group_members R ?s g) \<subseteq> set (group_members R s g) - {x}"
    using remove_one [OF Cons.prems(1-4) _ refl, of x] Cons.prems(5) by auto
  have "set (group_members R (snd (remove_all R d ds ?s)) g) \<subseteq> set (group_members R ?s g) - set ds"
    using Cons.prems one by (intro Cons.IH remove_links_ok) (auto intro: inj_on_subset)
  moreover have "snd (remove_all R d (x # ds) s) = snd (remove_all R d ds ?s)" by (simp add: split_def Let_def)
  ultimately show ?case using one(2) by auto
qed simp

lemma mirror_shape:
  assumes v: "server_device v = Some d" and leads: "leads R (touch_group R (group_of R s d) s) d"
    and now: "mirror_change R st mw v c s = (True, told, s')"
  shows "linked_with R s d \<noteq> []"
    "s' = snd (remove_all R d (filter (\<lambda>x. user_of x \<noteq> group_of R s d \<and> \<not> mw (user_of x) c) (linked_with R s d))
       (r_setex R (touch_group R (group_of R s d) s) (Link_channel (group_of R s d)) LINK_TTL (VStr c)))"
proof -
  obtain P Q told1 told2 where m: "mirror_change R st mw v c s =
    (let g = group_of R s d; s1 = touch_group R g s;
         ds = filter (\<lambda>x. user_of x \<noteq> g \<and> \<not> mw (user_of x) c) (linked_with R s d) in
     if P then (False, [], s) else if Q then (False, [], s1)
     else if \<not> leads R s1 d then (True, told1, s1)
     else (True, told2, snd (remove_all R d ds (r_setex R s1 (Link_channel g) LINK_TTL (VStr c)))))"
    and P: "linked_with R s d = [] \<longrightarrow> P"
    using mirror_state [OF v, of st mw c s] by (elim exE conjE)
  have "\<not> P" "\<not> Q" using m now by (simp_all add: Let_def split: if_splits)
  then show "linked_with R s d \<noteq> []"
    "s' = snd (remove_all R d (filter (\<lambda>x. user_of x \<noteq> group_of R s d \<and> \<not> mw (user_of x) c) (linked_with R s d))
       (r_setex R (touch_group R (group_of R s d) s) (Link_channel (group_of R s d)) LINK_TTL (VStr c)))"
    using m now P leads by (simp_all add: Let_def)
qed

lemma mirror_taken_out:
  assumes ok: "links_ok R s" and v: "server_device v = Some d" and leads: "leads R s d"
    and ids: "inj_on device_id (set (group_members R s (user_of d)))"
    and now: "mirror_change R st mw v c s = (True, told, s')"
  shows "\<forall>x \<in> set (group_members R s' (user_of d)). user_of x \<noteq> user_of d \<longrightarrow> mw (user_of x) c"
proof -
  define g where "g = user_of d"
  have gd: "group_of R s d = g" using leads by (simp add: leads_def g_def)
  let ?s1 = "touch_group R g s"
  let ?s2 = "r_setex R ?s1 (Link_channel g) LINK_TTL (VStr c)"
  let ?ds = "filter (\<lambda>x. user_of x \<noteq> g \<and> \<not> mw (user_of x) c) (linked_with R s d)"
  have leads1: "leads R ?s1 d" using leads by (simp add: leads_def group_of_def)
  have s': "s' = snd (remove_all R d ?ds ?s2)" and others: "linked_with R s d \<noteq> []"
    using mirror_shape [OF v _ now] leads1 by (simp_all add: gd)
  have same: "grouping_of R ?s2 = grouping_of R s" by (rule grouping_frame) simp_all
  have members: "group_members R ?s2 h = group_members R s h" for h by (rule members_frame) simp
  have "links_ok R ?s2" using ok by (subst links_frame) simp_all
  moreover have "leads R ?s2 d" using leads unfolding leads_def group_of_in same .
  ultimately have "set (group_members R (snd (remove_all R d ?ds ?s2)) g) \<subseteq> set (group_members R ?s2 g) - set ?ds"
    using ids by (intro remove_all_out) (simp_all add: members, simp_all add: g_def)
  then have out: "set (group_members R s' g) \<subseteq> set (group_members R s g) - set ?ds" unfolding s' members .
  have linked: "linked_with R s d = filter (\<lambda>x. x \<noteq> d) (group_members R s g)"
    using others by (simp add: linked_with_def Let_def gd split: if_splits)
  have left: "x \<in> set (group_members R s g) - set ?ds" if "x \<in> set (group_members R s' g)" for x
    using that out by blast
  have "mw (user_of x) c" if x: "x \<in> set (group_members R s' g)" "user_of x \<noteq> g" for x
  proof -
    have "x \<noteq> d" "x \<in> set (group_members R s g)" using left [OF x(1)] x(2) by (auto simp: g_def)
    then have "x \<in> set (linked_with R s d)" using linked by simp
    then show ?thesis using left [OF x(1)] x(2) by simp
  qed
  then show ?thesis by (simp add: g_def)
qed

end

section \<open>Properties\<close>

text \<open>
  C25: Whatever the devices do in whatever order, watching together stays what it is meant to be: a
  device listed in a group is of that group and of no other; a group has two devices at least, one
  of them a leader of the group's own login; a device that joined another login's group is listed
  there; and who watches together with whom is mutual.
\<close>

theorem watching_together_is_mutual:
  assumes "redis R" "link_reachable R st mw s"
  shows "(d \<in> set (group_members R s g) \<longrightarrow> group_of R s d = g) \<and>
    (group_members R s g \<noteq> [] \<longrightarrow>
       2 \<le> length (group_members R s g) \<and> (\<exists>l \<in> set (group_members R s g). leads R s l)) \<and>
    (group_of R s d \<noteq> user_of d \<longrightarrow> d \<in> set (group_members R s (group_of R s d))) \<and>
    (e \<in> set (linked_with R s d) \<longleftrightarrow> d \<in> set (linked_with R s e))"
  using redis.groups_kept [OF assms(1) redis.reachable_links_ok [OF assms]] by blast

text \<open>
  When a leader changes the group's channel, the devices of other logins that are still in the
  group afterwards may all watch the new channel: those that may not were taken out before anybody
  is told to follow. The ids of the group's devices tell them apart.
\<close>

theorem followers_may_watch:
  assumes "redis R" "link_reachable R st mw s" "server_device v = Some d" "leads R s d"
    "inj_on device_id (set (group_members R s (user_of d)))" "mirror_change R st mw v c s = (True, told, s')"
    "x \<in> set (group_members R s' (user_of d))" "user_of x \<noteq> user_of d"
  shows "mw (user_of x) c"
  using redis.mirror_taken_out [OF assms(1) redis.reachable_links_ok [OF assms(1,2)] assms(3-6)] assms(7,8) by blast

section \<open>Two logins in one house\<close>

definition ex_settings :: settings where
  "ex_settings = [(''devices'', Switch True), (''link_devices'', Switch True), (''link_users'', Text ''1,2''),
     (''home_networks'', Text [])]"

definition ex_client :: "string \<Rightarrow> string \<Rightarrow> (string \<times> rval) list" where
  "ex_client u d = [(''user_id'', VStr u), (''server_device'', VStr d), (''ip_address'', VStr ''10.0.0.5'')]"

definition ex_may :: "string \<Rightarrow> string \<Rightarrow> bool" where
  "ex_may u c \<longleftrightarrow> u = ''1'' \<or> c = ''news'' \<or> c = ''sport''"

definition ex_leader :: string where "ex_leader = ''app|1|living-room''"
definition ex_guest :: string where "ex_guest = ''app|2|bedroom''"

definition ex_watching :: mem where
  "ex_watching = mem_empty\<lparr>m_hash :=
     [(Live (Client_metadata ''news'' ''c1''), ex_client ''1'' ex_leader),
      (Live (Client_metadata ''film'' ''c2''), ex_client ''2'' ex_guest)]\<rparr>"


definition ex_asked :: mem where
  "ex_asked = mem_empty\<lparr>m_hash :=
     [(Live (Client_metadata ''news'' ''c1''), ex_client ''1'' ex_leader),
      (Live (Client_metadata ''film'' ''c2''), ex_client ''2'' ex_guest),
      (Link_requests ex_leader, [(''bedroom'', VPair (VStr ex_guest) (VPair (VStr ''news'') (VTime 0)))])]\<rparr>"

lemma ex_offers: "find (\<lambda>(d, c). device_id d = ''living-room'') (offers mem_redis ex_settings ex_may ex_watching ''2'' ex_guest ''10.0.0.5'')
  = Some (ex_leader, ''news'')" by code_simp

lemma ex_users: "user_of ex_leader = ''1''" "user_of ex_guest = ''2''" "ex_leader \<noteq> ex_guest"
  "device_id ex_leader = ''living-room''" "device_id ex_guest = ''bedroom''"
  "key_of ''1'' ''living-room'' = ex_leader"
  by code_simp+

lemma ex_join: "snd (snd (join_device mem_redis ex_settings ex_may 0 ''2'' ex_guest ''living-room'' ''10.0.0.5'' ex_watching)) = ex_asked"
  by (simp add: join_device_def ex_offers ex_users Let_def)
   (simp add: mem_redis_simps ex_watching_def ex_asked_def mem_lookup_def)

definition ex_answered :: mem where
  "ex_answered = mem_empty\<lparr>m_hash :=
     [(Live (Client_metadata ''news'' ''c1''), ex_client ''1'' ex_leader),
      (Live (Client_metadata ''film'' ''c2''), ex_client ''2'' ex_guest), (Link_requests ex_leader, [])]\<rparr>"

lemma ex_facts:
  "group_of mem_redis ex_answered ex_leader = ''1''" "group_of mem_redis ex_answered ex_guest = ''2''"
  "group_members mem_redis ex_answered ''2'' = []"
  "channels_on mem_redis ex_answered [''1''] ex_leader = [''news'']" "ex_may ''2'' ''news''"
  "ex_may ''2'' ''sport''" "links_enabled ex_settings" "is_declared (Some ex_leader)" "is_declared (Some ex_guest)" "clients_named mem_redis ex_watching"
  by code_simp+

definition ex_together :: mem where
  "ex_together = mem_empty\<lparr>m_hash :=
     [(Live (Client_metadata ''news'' ''c1''), ex_client ''1'' ex_leader),
      (Live (Client_metadata ''film'' ''c2''), ex_client ''2'' ex_guest), (Link_requests ex_leader, []),
      (Link_group ex_guest, []),
      (Links ''1'', [(ex_leader, VTime 0), (ex_guest, VTime 0)]),
      (Replaced ''2'' ex_guest, []), (Replaced ''1'' ex_leader, [])],
    m_get := (\<lambda>_. None)(Link_group ex_guest \<mapsto> VStr ''1'', Link_channel ''1'' \<mapsto> VStr ''news'')\<rparr>"

lemma foldl_same: "foldl (\<lambda>t k. t) s xs = s"
  by (induction xs) simp_all

lemma mem_touch: "touch_group mem_redis g s = s"
  by (simp add: touch_group_def mem_redis_simps foldl_same del: foldl_Cons)

lemma ex_answer: "snd (snd (answer_request mem_redis ex_may 0 ''1'' ex_leader ''bedroom'' True ex_asked)) = ex_together"
proof -
  have asked: "request_parts (r_hget mem_redis ex_asked (Link_requests ex_leader) ''bedroom'') = Some (ex_guest, ''news'')"
    by (simp add: mem_redis_simps ex_asked_def mem_lookup_def)
  have del: "r_hdel mem_redis ex_asked (Link_requests ex_leader) ''bedroom'' = ex_answered"
    by (simp add: mem_redis_simps ex_asked_def ex_answered_def mem_lookup_def)
  have drop: "snd (snd (drop_link mem_redis ex_guest ex_answered)) = r_del mem_redis ex_answered (Link_group ex_guest)"
    by (simp add: drop_link_def ex_facts)
  show ?thesis
    unfolding answer_request_def asked option.case prod.case del Let_def ex_facts ex_users list.case
    by (simp add: ex_facts make_link_def mem_touch drop ex_users split_def Let_def join_group_def r_setex_def)
      (simp add: mem_redis_simps ex_answered_def ex_together_def mem_lookup_def mem_empty_def fun_eq_iff ex_users)
qed

lemma ex_linked:
  "set (group_members mem_redis ex_together ''1'') = {ex_leader, ex_guest}"
  "linked_with mem_redis ex_together ex_leader = [ex_guest]" "group_of mem_redis ex_together ex_leader = ''1''"
  "group_channel mem_redis ex_together ''1'' = Some ''news''" "leads mem_redis ex_together ex_leader"
  by code_simp+

lemma ex_link_reachable: "link_reachable mem_redis ex_settings ex_may ex_together"
proof -
  have hash: "r_hash mem_redis ex_watching k = []" if "\<And>c cl. k \<noteq> Live (Client_metadata c cl)" for k
    using that by (simp add: ex_watching_def mem_redis_simps mem_lookup_def mem_empty_def)
  have "link_reachable mem_redis ex_settings ex_may ex_watching"
    by (rule link_reachable.Start) (simp_all add: hash, simp add: ex_watching_def mem_redis_simps mem_empty_def)
  moreover have "link_step mem_redis ex_settings ex_may ex_watching ex_asked"
    using link_step.Joins [of ex_guest mem_redis ex_watching ex_settings ex_may 0 "''living-room''" "''10.0.0.5''"]
    unfolding ex_users ex_join by (simp add: ex_facts)
  moreover have "link_step mem_redis ex_settings ex_may ex_asked ex_together"
    using link_step.Answers [of ex_leader mem_redis ex_settings ex_may ex_asked 0 "''bedroom''" True]
    unfolding ex_users ex_answer by simp
  ultimately show ?thesis by (meson link_reachable.Then)
qed

text \<open>The leader's next channel, which the guest may watch too.\<close>

definition ex_leader_viewer :: viewer where
  "ex_leader_viewer = (mk_viewer (Some ''10.0.0.5'') (Some 1))\<lparr>server_device := Some ex_leader\<rparr>"

definition ex_changed :: "bool \<times> message list \<times> mem" where
  "ex_changed = mirror_change mem_redis ex_settings ex_may ex_leader_viewer ''sport'' ex_together"

lemma ex_changed: "fst ex_changed" "ex_guest \<in> set (group_members mem_redis (snd (snd ex_changed)) ''1'')"
proof -
  let ?s = "r_setex mem_redis ex_together (Link_channel ''1'') LINK_TTL (VStr ''sport'')"
  have v: "server_device ex_leader_viewer = Some ex_leader" "user_id ex_leader_viewer = Some 1"
    "\<not> recording ex_leader_viewer" "multiview ex_leader_viewer = None"
    by (simp_all add: ex_leader_viewer_def mk_viewer_def)
  have "fst ex_changed \<and> snd (snd ex_changed) = ?s"
    unfolding ex_changed_def mirror_change_def using v
    by (simp add: Let_def mem_touch ex_linked ex_facts ex_users split_def)
  moreover have "group_members mem_redis ?s ''1'' = group_members mem_redis ex_together ''1''"
    by (rule mem.members_frame) simp
  ultimately show "fst ex_changed" "ex_guest \<in> set (group_members mem_redis (snd (snd ex_changed)) ''1'')"
    using ex_linked(1) by simp_all
qed

text \<open>The properties there.\<close>

theorem watching_together_is_mutual_witness:
  "ex_guest \<in> set (linked_with mem_redis ex_together ex_leader) \<and>
   ex_leader \<in> set (linked_with mem_redis ex_together ex_guest)"
  using watching_together_is_mutual [OF mem.redis_axioms ex_link_reachable, of ex_leader "''1''" ex_guest]
  by (simp add: ex_linked)

theorem followers_may_watch_witness: "ex_may (user_of ex_guest) ''sport''"
proof (rule followers_may_watch [OF mem.redis_axioms ex_link_reachable])
  show "mirror_change mem_redis ex_settings ex_may ex_leader_viewer ''sport'' ex_together =
    (True, fst (snd ex_changed), snd (snd ex_changed))"
    using ex_changed(1) by (simp add: ex_changed_def prod_eq_iff)
  show "inj_on device_id (set (group_members mem_redis ex_together (user_of ex_leader)))"
    unfolding ex_users ex_linked(1) by (simp add: ex_users)
  show "ex_guest \<in> set (group_members mem_redis (snd (snd ex_changed)) (user_of ex_leader))"
    unfolding ex_users by (rule ex_changed(2))
  show "user_of ex_guest \<noteq> user_of ex_leader" by (simp add: ex_users)
qed (simp_all add: ex_leader_viewer_def ex_linked)

end
