(* ===== verification/Catchup_Sessions.thy ===== *)
theory Catchup_Sessions
  imports Catchup_Seeks Channel_Streams
begin

text \<open>
  A look back viewer beside the slot it holds: the API session that lets a player without a login
  stream (\<^verbatim>\<open>timeshift/sessions.py\<close>), the record by which it is seen and counted
  (\<^verbatim>\<open>timeshift/stats.py\<close> and the statistics of \<^verbatim>\<open>timeshift/views.py\<close>), the grace it has when it
  disconnects, and where it is in the programme. That records run out by themselves is left to the
  environment: a key that has expired is deleted.
\<close>

section \<open>API sessions\<close>

definition HANDSHAKE_TTL_SECONDS :: int where "HANDSHAKE_TTL_SECONDS = 60"
definition SESSION_IDLE_TTL_SECONDS :: int where "SESSION_IDLE_TTL_SECONDS = 10 * 60"
definition CLIENT_TTL_SECONDS :: int where "CLIENT_TTL_SECONDS = 60"

text \<open>\<open>sess\<close> is the id just minted.\<close>

definition create_catchup_session ::
  "'s redis_api \<Rightarrow> real \<Rightarrow> string \<Rightarrow> int \<Rightarrow> string \<Rightarrow> int \<Rightarrow> string \<Rightarrow> int option \<Rightarrow> 's \<Rightarrow> 's" where
  "create_catchup_session R t sess usr channel_uuid channel start minutes s =
     r_expire R
       (hset_all R (Catchup_session sess)
          ([(''user_id'', VStr (dec usr)), (''channel_uuid'', VStr channel_uuid), (''channel_id'', VStr (dec channel)),
            (''start'', VStr start), (''created_at'', VStr (dec \<lfloor>t\<rfloor>))] @
           (case minutes of None \<Rightarrow> [] | Some m \<Rightarrow> [(''duration'', VStr (dec m))])) s)
       (Catchup_session sess) HANDSHAKE_TTL_SECONDS"

definition get_catchup_session :: "'s redis_api \<Rightarrow> 's \<Rightarrow> string \<Rightarrow> entry" where
  "get_catchup_session R s sess = (if sess = [] then [] else r_hash R s (Catchup_session sess))"

definition catchup_session_exists :: "'s redis_api \<Rightarrow> 's \<Rightarrow> string \<Rightarrow> bool" where
  "catchup_session_exists R s sess \<longleftrightarrow> sess \<noteq> [] \<and> r_exists R s (Catchup_session sess)"

definition touch_catchup_session :: "'s redis_api \<Rightarrow> string \<Rightarrow> 's \<Rightarrow> bool \<times> 's" where
  "touch_catchup_session R sess s =
     (if catchup_session_exists R s sess
      then (True, r_expire R s (Catchup_session sess) SESSION_IDLE_TTL_SECONDS) else (False, s))"

definition delete_catchup_session :: "'s redis_api \<Rightarrow> string \<Rightarrow> 's \<Rightarrow> 's" where
  "delete_catchup_session R sess s = (if sess = [] then s else r_del R s (Catchup_session sess))"

text \<open>An API session that is served under another session's pool.\<close>

definition adopt :: "'s redis_api \<Rightarrow> string \<Rightarrow> string \<Rightarrow> 's \<Rightarrow> bool \<times> 's" where
  "adopt R sess pool s =
     (if sess = [] \<or> pool = [] \<or> sess = pool \<or> \<not> catchup_session_exists R s sess then (False, s)
      else (True, r_setex R (r_expire R (r_sadd R s (Catchup_aliases pool) sess) (Catchup_aliases pool)
                               SESSION_IDLE_TTL_SECONDS)
                    (Catchup_adopted_by sess) SESSION_IDLE_TTL_SECONDS (VStr pool)))"

definition aliases_of :: "'s redis_api \<Rightarrow> 's \<Rightarrow> string \<Rightarrow> string list" where
  "aliases_of R s pool = (if pool = [] then [] else r_members R s (Catchup_aliases pool))"

definition adopted_by :: "'s redis_api \<Rightarrow> 's \<Rightarrow> string \<Rightarrow> string option" where
  "adopted_by R s sess =
     (if sess = [] then None
      else case Option.bind (r_get R s (Catchup_adopted_by sess)) val_text of
             Some p \<Rightarrow> if p = [] then None else Some p | None \<Rightarrow> None)"

definition touch_with_aliases :: "'s redis_api \<Rightarrow> string \<Rightarrow> 's \<Rightarrow> 's" where
  "touch_with_aliases R pool s =
     (if aliases_of R s pool = [] then s
      else foldl (\<lambda>u a. let (there, u1) = touch_catchup_session R a u
                        in if there then r_expire R u1 (Catchup_adopted_by a) SESSION_IDLE_TTL_SECONDS else u1)
             (r_expire R s (Catchup_aliases pool) SESSION_IDLE_TTL_SECONDS) (aliases_of R s pool))"

definition user_id_from_pool :: "'s redis_api \<Rightarrow> 's \<Rightarrow> string \<Rightarrow> int option" where
  "user_id_from_pool R s sess = Option.bind (map_of (get_pool_entry R s sess) ''user_id'') val_int"

text \<open>The user, the start and the duration a request without a login is for; \<open>active_user\<close>: the users' rows.\<close>

definition resolve_catchup_playback ::
  "'s redis_api \<Rightarrow> (int \<Rightarrow> bool) \<Rightarrow> string \<Rightarrow> string \<Rightarrow> 's \<Rightarrow> (int \<times> string \<times> string option) option \<times> 's" where
  "resolve_catchup_playback R active_user sess channel_uuid s =
     (let d = get_catchup_session R s sess in
      if d = [] \<or> entry_text d ''channel_uuid'' \<noteq> channel_uuid then (None, s)
      else
        (let s1 = snd (touch_catchup_session R sess s);
             usr = (case user_id_from_pool R s1 sess of
                      Some u \<Rightarrow> Some u | None \<Rightarrow> Option.bind (map_of d ''user_id'') val_int)
         in case usr of
              None \<Rightarrow> (None, s1)
            | Some u \<Rightarrow>
                (if \<not> active_user u \<or> entry_text d ''start'' = [] then (None, s1)
                 else (Some (u, entry_text d ''start'', Option.bind (map_of d ''duration'') val_text), s1))))"

definition user_owns_catchup_session :: "'s redis_api \<Rightarrow> 's \<Rightarrow> string \<Rightarrow> int \<Rightarrow> bool" where
  "user_owns_catchup_session R s sess usr \<longleftrightarrow>
     Option.bind (map_of (get_catchup_session R s sess) ''user_id'') val_int = Some usr"

definition finalize_playback_session_auth :: "'s redis_api \<Rightarrow> string \<Rightarrow> 's \<Rightarrow> bool \<times> 's" where
  "finalize_playback_session_auth R sess s =
     (if sess = [] then (False, s)
      else
        (let s1 = foldl (\<lambda>u a. delete_catchup_session R a u) s (aliases_of R s sess)
         in if catchup_session_exists R s1 sess then (True, delete_catchup_session R sess s1) else (False, s1)))"

section \<open>Where a viewer is in the programme\<close>

definition compute_playback_base_from_byte_range :: "int option \<Rightarrow> int option \<Rightarrow> real option \<Rightarrow> real option" where
  "compute_playback_base_from_byte_range first_byte total_bytes duration_secs =
     (case (first_byte, total_bytes, duration_secs) of
        (Some b, Some n, Some d) \<Rightarrow>
          (if b \<le> 0 \<or> n \<le> 0 \<or> d \<le> 0 then None else Some (min 1 (max 0 (of_int b / of_int n)) * d))
      | _ \<Rightarrow> None)"

text \<open>The base and its anchor, from what the record had (\<open>old\<close>) and the request.\<close>

definition resolve_stats_playback_fields ::
  "string \<Rightarrow> entry \<Rightarrow> int option \<Rightarrow> int option \<Rightarrow> real option \<Rightarrow> real \<Rightarrow> real option \<times> rval" where
  "resolve_stats_playback_fields timestamp old first_byte total_bytes duration_secs t =
     (let programme_changed = (case map_of old ''programme_start'' of None \<Rightarrow> False | Some v \<Rightarrow> v \<noteq> VStr timestamp);
          probe = (case (first_byte, total_bytes) of
                     (Some b, Some n) \<Rightarrow> \<not> programme_changed \<and> 0 < n \<and> max 0 (n - EOF_PROBE_TAIL_BYTES) \<le> b
                   | _ \<Rightarrow> False)
      in if probe then
           (Option.bind (map_of old ''playback_base_secs'') val_real,
            case map_of old ''position_anchor_at'' of
              None \<Rightarrow> VTime t | Some v \<Rightarrow> if truthy (Some v) then v else VTime t)
         else if programme_changed then (None, VTime t)
         else (compute_playback_base_from_byte_range first_byte total_bytes duration_secs, VTime t))"

text \<open>
  The position shown: \<open>url_offset\<close> is the seconds from the programme's start to the time in its
  URL, where both can be read.
\<close>

definition compute_playback_position_secs ::
  "real option \<Rightarrow> rval option \<Rightarrow> real \<Rightarrow> real option \<Rightarrow> rval option \<Rightarrow> bool \<Rightarrow> real option" where
  "compute_playback_position_secs url_offset anchor t duration_secs base paused =
     (let elapsed = (if paused then 0
                     else case Option.bind anchor val_real of None \<Rightarrow> 0 | Some a \<Rightarrow> max 0 (t - a));
          position = (case base of
                        Some b \<Rightarrow> Some (case val_real b of None \<Rightarrow> elapsed | Some p \<Rightarrow> p + elapsed)
                      | None \<Rightarrow> map_option (\<lambda>d. d + elapsed) url_offset)
      in map_option (\<lambda>p. case duration_secs of
            Some d \<Rightarrow> if d = 0 then max 0 p else min (max 0 p) d
          | None \<Rightarrow> max 0 p) position)"

definition client_paused :: "rval option \<Rightarrow> bool" where
  "client_paused v =
     (case Option.bind v val_text of
        None \<Rightarrow> False | Some t \<Rightarrow> lower (strip t) \<in> {''1'', ''true'', ''yes''})"

section \<open>The record of a viewer\<close>

text \<open>\<open>_redact_url\<close>: the protocol and the host of a URL.\<close>

definition redact_url :: "string \<Rightarrow> string" where
  "redact_url url =
     (case cut ''://'' url of
        None \<Rightarrow> url
      | Some (protocol, rest) \<Rightarrow>
          (let rest' = (case split_first (CHR ''@'') rest of None \<Rightarrow> rest | Some (_, r) \<Rightarrow> r);
               host = (case split_first (CHR ''/'') rest' of None \<Rightarrow> rest' | Some (h, _) \<Rightarrow> h)
           in protocol @ ''://'' @ host @ ''/...''))"

definition stream_stats_fields :: "string list" where
  "stream_stats_fields = [''video_codec'', ''resolution'', ''source_fps'', ''pixel_format'', ''video_bitrate'',
     ''audio_codec'', ''sample_rate'', ''audio_channels'', ''audio_bitrate'', ''stream_type'']"

text \<open>A stream's measured values, as their texts.\<close>

definition stream_stats_to_metadata_fields :: "(string \<times> string) list \<Rightarrow> real \<Rightarrow> (string \<times> rval) list" where
  "stream_stats_to_metadata_fields stats t =
     (let found = List.map_filter (\<lambda>f. case map_of stats f of
                      None \<Rightarrow> None | Some v \<Rightarrow> if v = [] then None else Some (f, VStr v)) stream_stats_fields
      in if found = [] then [] else found @ [(''stream_info_updated'', VTime t)])"

text \<open>\<open>stored\<close>: the values of the stream's row, where the caller has none.\<close>

definition seed_stream_stats_metadata ::
  "entry \<Rightarrow> int option \<Rightarrow> (string \<times> string) list \<Rightarrow> (int \<Rightarrow> (string \<times> string) list) \<Rightarrow> real \<Rightarrow>
   (string \<times> rval) list" where
  "seed_stream_stats_metadata old stream stats stored t =
     (case stream of
        None \<Rightarrow> []
      | Some i \<Rightarrow>
          (if entry_text old ''stream_id'' = dec i then []
           else
             (let fields = stream_stats_to_metadata_fields (if stats = [] then stored i else stats) t
              in if fields = [] then [] else fields @ [(''stream_id'', VStr (dec i))])))"

record stats_request =
  sr_agent :: string
  sr_ip :: string
  sr_user :: "(int \<times> string) option"
  sr_name :: string
  sr_timestamp :: string
  sr_url :: string
  sr_logo :: "int option"
  sr_profile :: "int option"
  sr_programme :: "string option"
  sr_channel :: int
  sr_uuid :: string
  sr_stream :: "int option"
  sr_stream_stats :: "(string \<times> string) list"
  sr_range :: "int option"
  sr_length :: "int option"
  sr_duration :: "real option"

definition or_existing :: "rval option \<Rightarrow> rval \<Rightarrow> rval" where
  "or_existing old v = (case old of Some x \<Rightarrow> if truthy (Some x) then x else v | None \<Rightarrow> v)"

definition clear_stats_grace_schedule :: "'s redis_api \<Rightarrow> string \<Rightarrow> string \<Rightarrow> 's \<Rightarrow> 's" where
  "clear_stats_grace_schedule R sc cl s =
     (let k = Timeshift_client sc cl
      in r_hdel R (r_hdel R (r_del R s (Timeshift_grace sc cl)) k ''stats_grace_deadline'') k ''stats_grace_disconnected_at'')"

definition stats_client_fields :: "real \<Rightarrow> stats_request \<Rightarrow> entry \<Rightarrow> real option \<Rightarrow> rval \<Rightarrow> (string \<times> rval) list" where
  "stats_client_fields t q old base anchor =
     [(''user_agent'', VStr (if sr_agent q = [] then ''unknown'' else sr_agent q)),
      (''ip_address'', VStr (sr_ip q)),
      (''connected_at'', or_existing (map_of old ''connected_at'') (VTime t)),
      (''last_active'', VTime t),
      (''user_id'', VStr (case sr_user q of None \<Rightarrow> ''0'' | Some (u, n) \<Rightarrow> dec u)),
      (''username'', VStr (case sr_user q of None \<Rightarrow> ''unknown'' | Some (u, n) \<Rightarrow> n)),
      (''programme_start'', VStr (sr_timestamp q)),
      (''position_anchor_at'', anchor)] @
     (case base of None \<Rightarrow> [] | Some b \<Rightarrow> [(''playback_base_secs'', VTime b)]) @
     (case sr_programme q of None \<Rightarrow> [] | Some v \<Rightarrow> if v = [] then [] else [(''programme_vid'', VStr v)])"

definition stats_channel_fields ::
  "real \<Rightarrow> stats_request \<Rightarrow> (int \<Rightarrow> (string \<times> string) list) \<Rightarrow> entry \<Rightarrow> (string \<times> rval) list" where
  "stats_channel_fields t q stored old =
     [(''state'', VStr ''active''),
      (''init_time'', or_existing (map_of old ''init_time'') (VTime t)),
      (''channel_id'', VStr (dec (sr_channel q))),
      (''channel_uuid'', VStr (sr_uuid q)),
      (''channel_name'', VStr (if sr_name q = [] then ''Timeshift'' else sr_name q)),
      (''stream_name'', VStr (if sr_timestamp q = [] then ''Catch-up'' else ''Catch-up @ '' @ sr_timestamp q @ '' UTC'')),
      (''url'', VStr (redact_url (sr_url q)))] @
     (case sr_logo q of None \<Rightarrow> [] | Some i \<Rightarrow> [(''logo_id'', VStr (dec i))]) @
     (case sr_profile q of None \<Rightarrow> [] | Some i \<Rightarrow> [(''m3u_profile'', VStr (dec i))]) @
     seed_stream_stats_metadata old (sr_stream q) (sr_stream_stats q) stored t"

definition register_stats_client ::
  "'s redis_api \<Rightarrow> real \<Rightarrow> (int \<Rightarrow> (string \<times> string) list) \<Rightarrow> string \<Rightarrow> string \<Rightarrow> stats_request \<Rightarrow> 's \<Rightarrow> 's" where
  "register_stats_client R t stored sc cl q s =
     (let k = Timeshift_client sc cl;
          s1 = clear_stats_grace_schedule R sc cl s;
          old = r_hash R s1 k;
          s2 = (case (sr_programme q, map_of old ''programme_vid'') of
                  (Some v, Some x) \<Rightarrow>
                    (if v \<noteq> [] \<and> truthy (Some x) \<and> x \<noteq> VStr v
                     then cleanup_stream_generation R (entry_text old ''programme_vid'') cl s1 else s1)
                | _ \<Rightarrow> s1);
          (base, anchor) = resolve_stats_playback_fields (sr_timestamp q) old (sr_range q) (sr_length q) (sr_duration q) t;
          s3 = hset_all R k (stats_client_fields t q old base anchor) s2;
          s4 = (if base = None then r_hdel R s3 k ''playback_base_secs'' else s3);
          s5 = (if anchor = VTime t then r_hdel R s4 k ''paused'' else s4);
          s6 = r_sadd R (r_expire R s5 k CLIENT_TTL_SECONDS) (Timeshift_clients sc) cl;
          s7 = hset_all R (Timeshift_metadata sc) (stats_channel_fields t q stored (r_hash R s1 (Timeshift_metadata sc)))
                 (r_expire R s6 (Timeshift_clients sc) CLIENT_TTL_SECONDS)
      in r_expire R s7 (Timeshift_metadata sc) CLIENT_TTL_SECONDS)"

definition unregister_stats_client :: "'s redis_api \<Rightarrow> string \<Rightarrow> string \<Rightarrow> 's \<Rightarrow> 's" where
  "unregister_stats_client R sc cl s =
     (let s1 = r_del R (r_srem R s (Timeshift_clients sc) cl) (Timeshift_client sc cl)
      in if r_members R s1 (Timeshift_clients sc) = []
         then r_del R (r_del R s1 (Timeshift_clients sc)) (Timeshift_metadata sc) else s1)"

definition refresh_active_session_redis_ttl :: "'s redis_api \<Rightarrow> real \<Rightarrow> string \<Rightarrow> string \<Rightarrow> 's \<Rightarrow> 's" where
  "refresh_active_session_redis_ttl R t sess vid s =
     (if sess = [] then s
      else
        (let s1 = refresh_pool_session_ttl R t sess s;
             s2 = (if vid \<noteq> [] \<and> r_count R s1 (Catchup_generation vid sess) \<noteq> 0
                   then r_expire R s1 (Catchup_generation vid sess) POOL_ENTRY_TTL else s1)
         in touch_with_aliases R sess (snd (touch_catchup_session R sess s2))))"

section \<open>A disconnect and its grace\<close>

definition STATS_DISCONNECT_GRACE_SECONDS :: real where "STATS_DISCONNECT_GRACE_SECONDS = 5"
definition STATS_RECONNECT_SETTLE_SECONDS :: real where "STATS_RECONNECT_SETTLE_SECONDS = 3 / 2"

text \<open>
  \<open>_schedule_stats_disconnect_grace\<close>: the token and the deadline. Its background task looks after
  1.5 seconds (\<open>settle_look\<close>) and, unless the viewer is back, after five more ends the grace.
\<close>

definition schedule_stats_disconnect_grace :: "'s redis_api \<Rightarrow> real \<Rightarrow> string \<Rightarrow> string \<Rightarrow> string \<Rightarrow> 's \<Rightarrow> 's" where
  "schedule_stats_disconnect_grace R t tok sc cl s =
     hset_all R (Timeshift_client sc cl)
       [(''stats_grace_deadline'', VTime (t + STATS_RECONNECT_SETTLE_SECONDS + STATS_DISCONNECT_GRACE_SECONDS)),
        (''stats_grace_disconnected_at'', VTime t)]
       (r_setex R s (Timeshift_grace sc cl)
          \<lfloor>STATS_RECONNECT_SETTLE_SECONDS + STATS_DISCONNECT_GRACE_SECONDS + 2\<rfloor> (VStr tok))"

definition stats_client_reconnected :: "'s redis_api \<Rightarrow> string \<Rightarrow> string \<Rightarrow> real \<Rightarrow> 's \<Rightarrow> bool" where
  "stats_client_reconnected R sc cl left s \<longleftrightarrow>
     pool_session_busy R s cl \<or>
     (case Option.bind (r_hget R s (Timeshift_client sc cl) ''last_active'') val_real of
        None \<Rightarrow> False | Some a \<Rightarrow> left < a)"

definition grace_token_claimed :: "'s redis_api \<Rightarrow> string \<Rightarrow> string \<Rightarrow> string \<Rightarrow> 's \<Rightarrow> bool" where
  "grace_token_claimed R sc cl tok s \<longleftrightarrow> r_get R s (Timeshift_grace sc cl) = Some (VStr tok)"

definition settle_look :: "'s redis_api \<Rightarrow> string \<Rightarrow> string \<Rightarrow> string \<Rightarrow> real \<Rightarrow> 's \<Rightarrow> bool \<times> 's" where
  "settle_look R sc cl tok left s =
     (if \<not> grace_token_claimed R sc cl tok s then (False, s)
      else if stats_client_reconnected R sc cl left s then (False, r_del R s (Timeshift_grace sc cl))
      else (True, s))"

text \<open>\<open>gens\<close>: the programmes the scan for the client's generation counters finds.\<close>

definition end_viewing :: "'s redis_api \<Rightarrow> ('s \<Rightarrow> string \<Rightarrow> string list) \<Rightarrow> string \<Rightarrow> string \<Rightarrow> 's \<Rightarrow> bool \<times> 's" where
  "end_viewing R gens sc cl s =
     (let s1 = unregister_stats_client R sc cl s;
          s2 = cleanup_all_stream_generations R (gens s1 cl) cl s1
      in finalize_playback_session_auth R cl s2)"

definition run_stats_disconnect_grace ::
  "'s redis_api \<Rightarrow> ('s \<Rightarrow> string \<Rightarrow> string list) \<Rightarrow> string \<Rightarrow> string \<Rightarrow> string \<Rightarrow> real \<Rightarrow> 's \<Rightarrow> 's" where
  "run_stats_disconnect_grace R gens sc cl tok left s =
     (if \<not> grace_token_claimed R sc cl tok s then s
      else
        (let s1 = r_del R s (Timeshift_grace sc cl) in
         if pool_session_busy R s1 cl \<or> stats_client_reconnected R sc cl left s1 then s1
         else
           (let (ended, s2) = end_viewing R gens sc cl s1;
                s3 = (if ended then discard_pool_session R cl None s2
                      else if r_exists R s2 (Catchup_pool cl) then r_expire R s2 (Catchup_pool cl) POOL_IDLE_TTL
                      else s2)
            in r_del R s3 (Catchup_superseded cl))))"

definition complete_expired_stats_grace ::
  "'s redis_api \<Rightarrow> ('s \<Rightarrow> string \<Rightarrow> string list) \<Rightarrow> real \<Rightarrow> string \<Rightarrow> string \<Rightarrow> 's \<Rightarrow> 's" where
  "complete_expired_stats_grace R gens t sc cl s =
     (let k = Timeshift_client sc cl in
      case Option.bind (r_hget R s k ''stats_grace_deadline'') val_real of
        None \<Rightarrow> s
      | Some deadline \<Rightarrow>
          (if cl = [] \<or> t < deadline then s
           else case Option.bind (r_get R s (Timeshift_grace sc cl)) val_text of
                  None \<Rightarrow> r_hdel R (r_hdel R s k ''stats_grace_deadline'') k ''stats_grace_disconnected_at''
                | Some tok \<Rightarrow>
                    (case r_hget R s k ''stats_grace_disconnected_at'' of
                       None \<Rightarrow>
                         run_stats_disconnect_grace R gens sc cl tok
                           (deadline - STATS_RECONNECT_SETTLE_SECONDS - STATS_DISCONNECT_GRACE_SECONDS) s
                     | Some v \<Rightarrow>
                         (case val_real v of
                            None \<Rightarrow> s | Some left \<Rightarrow> run_stats_disconnect_grace R gens sc cl tok left s))))"

definition keep_stats_alive :: "'s redis_api \<Rightarrow> string \<Rightarrow> string \<Rightarrow> real \<Rightarrow> 's \<Rightarrow> 's" where
  "keep_stats_alive R sc cl t s =
     r_expire R (r_expire R (r_hset R s (Timeshift_client sc cl) ''last_active'' (VTime t))
         (Timeshift_client sc cl) CLIENT_TTL_SECONDS) (Timeshift_clients sc) CLIENT_TTL_SECONDS"

definition touch_stats_on_session_request ::
  "'s redis_api \<Rightarrow> ('s \<Rightarrow> string \<Rightarrow> string list) \<Rightarrow> real \<Rightarrow> int \<Rightarrow> string \<Rightarrow> 's \<Rightarrow> 's" where
  "touch_stats_on_session_request R gens t channel sess s =
     (let sc = dec channel @ ''_'' @ sess; k = Timeshift_client sc sess in
      if sess = [] \<or> \<not> r_exists R s k then s
      else
        (let s1 = complete_expired_stats_grace R gens t sc sess (clear_stats_grace_schedule R sc sess s);
             s2 = r_expire R (keep_stats_alive R sc sess t s1) (Timeshift_metadata sc) CLIENT_TTL_SECONDS
         in refresh_active_session_redis_ttl R t sess (entry_text (r_hash R s2 k) ''programme_vid'') s2))"

definition heartbeat_stats_client ::
  "'s redis_api \<Rightarrow> ('s \<Rightarrow> string \<Rightarrow> string list) \<Rightarrow> real \<Rightarrow> string \<Rightarrow> string \<Rightarrow> int \<Rightarrow> string \<Rightarrow> string option \<Rightarrow> 's \<Rightarrow> 's" where
  "heartbeat_stats_client R gens t sc cl bytes sess vid s =
     (if \<not> r_exists R s (Timeshift_client sc cl) then s
      else
        (let s1 = keep_stats_alive R sc cl t (complete_expired_stats_grace R gens t sc cl s);
             so_far = (case Option.bind (r_hget R s1 (Timeshift_metadata sc) ''total_bytes'') val_int of
                         None \<Rightarrow> 0 | Some n \<Rightarrow> n);
             s2 = (if 0 < bytes then r_hset R s1 (Timeshift_metadata sc) ''total_bytes'' (VInt (so_far + bytes)) else s1);
             s3 = r_expire R s2 (Timeshift_metadata sc) CLIENT_TTL_SECONDS
         in refresh_active_session_redis_ttl R t (if sess = [] then cl else sess)
              (case vid of Some v \<Rightarrow> v | None \<Rightarrow> entry_text (r_hash R s3 (Timeshift_client sc cl)) ''programme_vid'') s3))"

section \<open>A player's own report of where it is\<close>

definition find_stats_channel_for_session :: "'s redis_api \<Rightarrow> 's \<Rightarrow> string \<Rightarrow> string option" where
  "find_stats_channel_for_session R s sess =
     (if sess = [] then None
      else case List.map_filter (\<lambda>k. case k of Timeshift_client sc cl \<Rightarrow> if cl = sess then Some sc else None | _ \<Rightarrow> None)
                  (r_hkeys R s) of [] \<Rightarrow> None | sc # _ \<Rightarrow> Some sc)"

definition update_catchup_session_position ::
  "'s redis_api \<Rightarrow> real \<Rightarrow> string \<Rightarrow> real \<Rightarrow> bool option \<Rightarrow> int option \<Rightarrow> 's \<Rightarrow> bool \<times> 's" where
  "update_catchup_session_position R t api_session position paused usr s =
     (if api_session = [] then (False, s)
      else
        (let found = find_stats_channel_for_session R s api_session;
             sess = (case found of Some _ \<Rightarrow> api_session
                     | None \<Rightarrow> (case adopted_by R s api_session of Some p \<Rightarrow> p | None \<Rightarrow> api_session));
             channel = (case found of Some sc \<Rightarrow> Some sc | None \<Rightarrow> find_stats_channel_for_session R s sess)
         in case channel of
              None \<Rightarrow> (False, s)
            | Some sc \<Rightarrow>
                (let k = Timeshift_client sc sess; stored = r_hget R s k ''user_id'' in
                 if \<not> r_exists R s k then (False, s)
                 else if (case (usr, stored) of (Some u, Some v) \<Rightarrow> val_text v \<noteq> Some (dec u) | _ \<Rightarrow> False) then (False, s)
                 else
                   (let s1 = hset_all R k [(''playback_base_secs'', VTime position), (''position_anchor_at'', VTime t),
                                           (''last_active'', VTime t)] s;
                        s2 = (case paused of None \<Rightarrow> s1
                              | Some True \<Rightarrow> r_hset R s1 k ''paused'' (VStr ''1'')
                              | Some False \<Rightarrow> r_hdel R s1 k ''paused'');
                        s3 = r_expire R (r_expire R (r_expire R s2 k CLIENT_TTL_SECONDS) (Timeshift_clients sc) CLIENT_TTL_SECONDS)
                               (Timeshift_metadata sc) CLIENT_TTL_SECONDS
                    in (True, snd (touch_catchup_session R api_session s3))))))"

text \<open>The position a session's record gives, on which its programme is found.\<close>

definition position_secs_from_stats :: "'s redis_api \<Rightarrow> real option \<Rightarrow> real \<Rightarrow> string \<Rightarrow> 's \<Rightarrow> real option" where
  "position_secs_from_stats R url_offset t sess s =
     (case find_stats_channel_for_session R s sess of
        None \<Rightarrow> None
      | Some sc \<Rightarrow>
          (let d = r_hash R s (Timeshift_client sc sess) in
           if d = [] then None
           else compute_playback_position_secs url_offset (map_of d ''position_anchor_at'') t None
                  (case Option.bind (map_of d ''playback_base_secs'') val_real of
                     None \<Rightarrow> None | Some b \<Rightarrow> Some (VTime b))
                  (client_paused (map_of d ''paused''))))"

end
