(* ===== verification/Channel_Server.thy ===== *)
theory Channel_Server
  imports Force_Close
begin

text \<open>
  A worker of the proxy server and a channel's life on it (\<^verbatim>\<open>live_proxy/server.py\<close>,
  \<^verbatim>\<open>live_proxy/client_manager.py\<close>, \<^verbatim>\<open>services/channel_service.py\<close>): which worker owns a channel,
  the clients on it, the markers of a stop, and what the workers hold locally. Threads, buffers
  and managers are known by the channel they are for; that they run is not modelled.
\<close>

section \<open>What a worker holds\<close>

record worker =
  worker_id :: string
  stream_managers :: "string list"
  live_managers :: "string list"
  stream_threads :: "string list"
  stream_buffers :: "string list"
  client_managers :: "(string \<times> string list) list"
  output_managers :: "(string \<times> string list) list"
  profile_managers :: "(string \<times> int list) list"
  stopping_since :: "(string \<times> real) list"
  told_to_stop :: "string list"

record live_config =
  shutdown_delay :: real
  client_wait_period :: real
  init_grace_period :: real
  initial_behind_chunks :: int
  client_record_ttl :: int
  heartbeat_interval :: real
  ghost_multiplier :: real

definition has_local_upstream_activity :: "worker \<Rightarrow> string \<Rightarrow> bool" where
  "has_local_upstream_activity w c \<longleftrightarrow>
     c \<in> set (stream_managers w) \<or> c \<in> set (live_managers w) \<or> c \<in> set (stream_threads w)"

definition local_clients :: "worker \<Rightarrow> string \<Rightarrow> string list" where
  "local_clients w c = (case map_of (client_managers w) c of None \<Rightarrow> [] | Some cs \<Rightarrow> cs)"

text \<open>What is published for the other workers.\<close>

datatype live_event =
    Client_connected string string
  | Client_disconnected string string
  | Channel_stop_event string string
  | Client_stop_event string string

section \<open>Who owns a channel\<close>

abbreviation owner_key :: "string \<Rightarrow> rkey" where
  "owner_key c \<equiv> Live (Channel_owner c)"

definition OWNER_TTL :: int where "OWNER_TTL = 30"

definition get_channel_owner :: "'s redis_api \<Rightarrow> 's \<Rightarrow> string \<Rightarrow> string option" where
  "get_channel_owner R s c = Option.bind (r_get R s (owner_key c)) val_text"

definition am_i_owner :: "'s redis_api \<Rightarrow> 's \<Rightarrow> worker \<Rightarrow> string \<Rightarrow> bool" where
  "am_i_owner R s w c \<longleftrightarrow> get_channel_owner R s c = Some (worker_id w)"

text \<open>\<open>answered\<close>: whether the command came back; a failed one is taken for ownership.\<close>

definition try_acquire_ownership :: "'s redis_api \<Rightarrow> worker \<Rightarrow> string \<Rightarrow> bool \<Rightarrow> 's \<Rightarrow> bool \<times> 's" where
  "try_acquire_ownership R w c answered s =
     (if \<not> answered then (True, s)
      else
        (let (acquired, s1) = r_setnx R s (owner_key c) OWNER_TTL (VStr (worker_id w)) in
         if acquired then (True, s1)
         else if am_i_owner R s1 w c \<and> worker_id w \<noteq> []
         then (True, r_expire R s1 (owner_key c) OWNER_TTL)
         else (False, s1)))"

text \<open>
  \<open>release_ownership\<close> reads the owner and then deletes the key: two commands, between which
  others may come. \<open>owner\<close> is what the first read.
\<close>

definition release_seen :: "'s redis_api \<Rightarrow> worker \<Rightarrow> string \<Rightarrow> bool \<Rightarrow> string option \<Rightarrow> 's \<Rightarrow> 's" where
  "release_seen R w c signal_stopping owner s =
     (if owner = Some (worker_id w) \<and> worker_id w \<noteq> [] then
        (let s1 = r_del R s (owner_key c)
         in if signal_stopping then r_setex R s1 (Live (Channel_stopping c)) 30 (VStr ''true'') else s1)
      else s)"

definition release_ownership :: "'s redis_api \<Rightarrow> worker \<Rightarrow> string \<Rightarrow> bool \<Rightarrow> 's \<Rightarrow> 's" where
  "release_ownership R w c signal_stopping s =
     release_seen R w c signal_stopping (get_channel_owner R s c) s"

definition teardown_active :: "'s redis_api \<Rightarrow> worker \<Rightarrow> 's \<Rightarrow> string \<Rightarrow> bool" where
  "teardown_active R w s c \<longleftrightarrow> is_channel_teardown_active R (\<lambda>x. x \<in> fst ` set (stopping_since w)) s c"

definition extend_ownership :: "'s redis_api \<Rightarrow> worker \<Rightarrow> string \<Rightarrow> 's \<Rightarrow> bool \<times> 's" where
  "extend_ownership R w c s =
     (case r_get R s (owner_key c) of
        None \<Rightarrow>
          (if c \<in> set (stream_managers w) \<or> c \<in> set (live_managers w) then
             (if teardown_active R w s c then (False, s)
              else r_setnx R s (owner_key c) OWNER_TTL (VStr (worker_id w)))
           else (False, s))
      | Some v \<Rightarrow>
          (if val_text v = Some (worker_id w) then (True, r_expire R s (owner_key c) OWNER_TTL) else (False, s)))"

section \<open>The channel's state and the markers of a stop\<close>

definition update_channel_state ::
  "'s redis_api \<Rightarrow> real \<Rightarrow> string \<Rightarrow> channel_state \<Rightarrow> (string \<times> rval) list \<Rightarrow> 's \<Rightarrow> 's" where
  "update_channel_state R t c new_state extra s =
     (if channel_state_of R s c = Some (state_text new_state) then s
      else hset_all R (metadata c)
             ([(''state'', VStr (state_text new_state)), (''state_changed_at'', VTime t)] @ extra) s)"

definition mark_channel_stopping :: "'s redis_api \<Rightarrow> real \<Rightarrow> string \<Rightarrow> 's \<Rightarrow> 's" where
  "mark_channel_stopping R t c s =
     (let s1 = (if r_exists R s (metadata c)
                then hset_all R (metadata c)
                       [(''state'', VStr (state_text Stopping)), (''state_changed_at'', VTime t)] s
                else s)
      in r_setex R s1 (Live (Channel_stopping c)) 60 (VStr ''true''))"

text \<open>The time of the last client's leaving: \<open>None\<close> where the key is gone, \<open>Some None\<close> where it is no time.\<close>

definition disconnect_time :: "'s redis_api \<Rightarrow> 's \<Rightarrow> string \<Rightarrow> real option option" where
  "disconnect_time R s c = map_option val_real (r_get R s (Live (Last_client_disconnect c)))"

definition is_shutdown_pending :: "'s redis_api \<Rightarrow> live_config \<Rightarrow> real \<Rightarrow> 's \<Rightarrow> string \<Rightarrow> bool" where
  "is_shutdown_pending R g t s c \<longleftrightarrow>
     0 < shutdown_delay g \<and>
     (case disconnect_time R s c of Some (Some left) \<Rightarrow> t - left < shutdown_delay g | _ \<Rightarrow> False)"

definition disconnect_ttl :: "live_config \<Rightarrow> int" where
  "disconnect_ttl g = max \<lfloor>shutdown_delay g * 2\<rfloor> 60"

definition set_disconnect :: "'s redis_api \<Rightarrow> live_config \<Rightarrow> real \<Rightarrow> string \<Rightarrow> 's \<Rightarrow> 's" where
  "set_disconnect R g t c s = r_setex R s (Live (Last_client_disconnect c)) (disconnect_ttl g) (VTime t)"

text \<open>
  A client that comes back in the grace of a channel nobody is on: the timer and the markers go,
  and where the channel still runs without an assignment it gets a stream with a slot again.
\<close>

definition cancel_pending_shutdown ::
  "'s redis_api \<Rightarrow> logins \<Rightarrow> env \<Rightarrow> site \<Rightarrow> live_config \<Rightarrow> worker \<Rightarrow> string \<Rightarrow> 's \<Rightarrow> bool \<times> 's" where
  "cancel_pending_shutdown R L e X g w c s =
     (if c \<in> fst ` set (stopping_since w) \<or>
         \<not> (r_exists R s (Live (Last_client_disconnect c)) \<or> is_shutdown_pending R g (now e) s c)
      then (False, s)
      else
        (let s1 = r_del R s (Live (Last_client_disconnect c));
             s2 = (if channel_state_of R s1 c = Some (state_text Stopping)
                   then hset_all R (metadata c)
                          [(''state'', VStr (state_text Active)), (''state_changed_at'', VTime (now e))] s1
                   else s1);
             s3 = r_del R s2 (Live (Channel_stopping c))
         in (True,
             case channel_by_uuid X c of
               None \<Rightarrow> s3
             | Some ch \<Rightarrow>
                 (if channel_proxy_is_active R s3 c \<and> \<not> truthy (r_get R s3 (Channel_stream (ch_id ch)))
                  then (case get_stream R L e ch None None s3 of
                          (Inr (sid, pid, True), s4) \<Rightarrow>
                            (if sid \<noteq> 0 \<and> pid \<noteq> 0
                             then hset_all R (metadata c) [(''stream_id'', VInt sid), (''m3u_profile'', VInt pid)] s4
                             else s4)
                        | (_, s4) \<Rightarrow> s4)
                  else s3))))"

definition buffer_chunks :: "'s redis_api \<Rightarrow> 's \<Rightarrow> string \<Rightarrow> int" where
  "buffer_chunks R s c = r_count R s (Live (Buffer_index c))"

definition client_total :: "'s redis_api \<Rightarrow> 's \<Rightarrow> string \<Rightarrow> nat" where
  "client_total R s c = length (r_members R s (Live (Clients c)))"

definition promote_channel_when_buffer_ready ::
  "'s redis_api \<Rightarrow> live_config \<Rightarrow> real \<Rightarrow> string \<Rightarrow> 's \<Rightarrow> channel_state option \<times> 's" where
  "promote_channel_when_buffer_ready R g t c s =
     (case channel_state_of R s c of
        None \<Rightarrow> (None, s)
      | Some st \<Rightarrow>
          (let n = client_total R s c;
               activated = (''clients_at_activation'', VInt (int n)) in
           if st = state_text Active then (Some Active, s)
           else if st = state_text Waiting_for_clients then
             (if \<not> truthy (r_hget R s (metadata c) ''connection_ready_time'') then (None, s)
              else if n = 0 then (Some Waiting_for_clients, s)
              else (Some Active, update_channel_state R t c Active [activated] s))
           else if st \<noteq> state_text Initializing \<and> st \<noteq> state_text Connecting then (None, s)
           else if buffer_chunks R s c < initial_behind_chunks g then (None, s)
           else
             (let new = (if 0 < n then Active else Waiting_for_clients)
              in (Some new,
                  update_channel_state R t c new
                    ([(''connection_ready_time'', VTime t), (''buffer_chunks'', VInt (buffer_chunks R s c))] @
                     (if new = Active then [activated] else [])) s))))"

section \<open>Clients\<close>

definition notify_owner_of_activity :: "'s redis_api \<Rightarrow> live_config \<Rightarrow> real \<Rightarrow> worker \<Rightarrow> string \<Rightarrow> 's \<Rightarrow> 's" where
  "notify_owner_of_activity R g t w c s =
     (if local_clients w c = [] then s
      else
        (let who = (if worker_id w = [] then ''unknown'' else worker_id w)
         in r_setex R
              (r_setex R s (Worker_clients c who) (client_record_ttl g) (VInt (int (length (local_clients w c)))))
              (Channel_activity c) (client_record_ttl g) (VTime t)))"

text \<open>
  What a client is recorded with: agent, address, user, output format and output profile.
  \<open>registered\<close> holds the ids this manager ever registered.
\<close>

record newcomer =
  nc_id :: string
  nc_agent :: "string option"
  nc_ip :: string
  nc_user :: "int option"
  nc_format :: string
  nc_output_profile :: "int option"

definition client_data :: "worker \<Rightarrow> real \<Rightarrow> newcomer \<Rightarrow> (string \<times> rval) list" where
  "client_data w t n =
     [(''user_agent'', VStr (case nc_agent n of None \<Rightarrow> ''unknown'' | Some a \<Rightarrow> if a = [] then ''unknown'' else a)),
      (''ip_address'', VStr (nc_ip n)), (''connected_at'', VTime t), (''last_active'', VTime t),
      (''worker_id'', VStr (if worker_id w = [] then ''unknown'' else worker_id w)),
      (''user_id'', VStr (case nc_user n of None \<Rightarrow> ''0'' | Some u \<Rightarrow> dec u)),
      (''output_format'', VStr (nc_format n)),
      (''output_profile_id'', VStr (case nc_output_profile n of None \<Rightarrow> [] | Some p \<Rightarrow> dec p))]"

definition with_local_clients :: "string \<Rightarrow> string list \<Rightarrow> worker \<Rightarrow> worker" where
  "with_local_clients c cs w =
     (if c \<in> fst ` set (client_managers w) then w\<lparr>client_managers := AList.update c cs (client_managers w)\<rparr> else w)"

text \<open>\<open>None\<close> for a duplicate; else how many local clients there are.\<close>

definition add_client ::
  "'s redis_api \<Rightarrow> logins \<Rightarrow> env \<Rightarrow> site \<Rightarrow> live_config \<Rightarrow> string list \<Rightarrow> worker \<Rightarrow> string \<Rightarrow> newcomer \<Rightarrow> 's \<Rightarrow>
   nat option \<times> live_event list \<times> worker \<times> 's" where
  "add_client R L e X g registered w c n s =
     (if nc_id n \<in> set registered then (None, [], w, s)
      else
        (let w1 = with_local_clients c (List.insert (nc_id n) (local_clients w c)) w;
             s1 = snd (cancel_pending_shutdown R L e X g w1 c s);
             s2 = hset_all R (Live (Client_metadata c (nc_id n))) (client_data w (now e) n) s1;
             s3 = r_expire R s2 (Live (Client_metadata c (nc_id n))) (client_record_ttl g);
             s4 = r_expire R (r_sadd R s3 (Live (Clients c)) (nc_id n)) (Live (Clients c)) (client_record_ttl g);
             s5 = notify_owner_of_activity R g (now e) w1 c (r_del R s4 (Init_time c));
             s6 = snd (promote_channel_when_buffer_ready R g (now e) c s5)
         in (Some (length (local_clients w1 c)), [Client_connected c (nc_id n)], w1, s6)))"

text \<open>
  \<open>remove_client\<close>: the answer is whether \<open>handle_client_disconnect\<close> is to run here; the
  owner's lease may have run out while this worker still holds the upstream.
\<close>

definition remove_client ::
  "'s redis_api \<Rightarrow> live_config \<Rightarrow> real \<Rightarrow> worker \<Rightarrow> string \<Rightarrow> string \<Rightarrow> 's \<Rightarrow> bool \<times> live_event list \<times> worker \<times> 's" where
  "remove_client R g t w c cl s =
     (let w1 = with_local_clients c (removeAll cl (local_clients w c)) w;
          s1 = r_del R (r_srem R s (Live (Clients c)) cl) (Live (Client_metadata c cl));
          remaining = client_total R s1 c;
          s2 = (if remaining = 0 then set_disconnect R g t c s1 else s1);
          s3 = notify_owner_of_activity R g t w1 c s2;
          (owner, s4) = (if am_i_owner R s3 w1 c then (True, s3)
                         else if has_local_upstream_activity w1 c then extend_ownership R w1 c s3
                         else (False, s3));
          outputs = (case map_of (output_managers w1) c of None \<Rightarrow> False | Some xs \<Rightarrow> xs \<noteq> []) \<or>
                    (case map_of (profile_managers w1) c of None \<Rightarrow> False | Some xs \<Rightarrow> xs \<noteq> [])
      in if owner then (remaining = 0 \<or> outputs, [], w1, s4)
         else if remaining = 0 \<and> has_local_upstream_activity w1 c then (True, [], w1, s4)
         else (False, [Client_disconnected c cl], w1, s4))"

definition remove_ghost_clients :: "'s redis_api \<Rightarrow> string \<Rightarrow> 's \<Rightarrow> string list \<times> 's" where
  "remove_ghost_clients R c s =
     (let stale = filter (\<lambda>cl. \<not> r_exists R s (Live (Client_metadata c cl))) (r_members R s (Live (Clients c)))
      in (stale, foldl (\<lambda>t cl. r_srem R t (Live (Clients c)) cl) s stale))"

definition clear_all_clients :: "'s redis_api \<Rightarrow> string \<Rightarrow> 's \<Rightarrow> nat \<times> 's" where
  "clear_all_clients R c s =
     (let cls = r_members R s (Live (Clients c)) in
      if cls = [] then (0, s)
      else (length cls, r_del R (foldl (\<lambda>t cl. r_del R t (Live (Client_metadata c cl))) s cls) (Live (Clients c))))"

text \<open>
  One turn of the heartbeat: local clients without a record, or idle for too long, are ghosts and
  are removed; the others' records are kept alive (\<open>beat\<close>: when each was last kept alive).
\<close>

definition is_ghost :: "'s redis_api \<Rightarrow> live_config \<Rightarrow> real \<Rightarrow> 's \<Rightarrow> string \<Rightarrow> string \<Rightarrow> bool" where
  "is_ghost R g t s c cl \<longleftrightarrow>
     \<not> r_exists R s (Live (Client_metadata c cl)) \<or>
     (case Option.bind (r_hget R s (Live (Client_metadata c cl)) ''last_active'') val_real of
        None \<Rightarrow> False
      | Some active \<Rightarrow> heartbeat_interval g * ghost_multiplier g < t - active)"

definition heartbeat_due :: "live_config \<Rightarrow> real \<Rightarrow> (string \<times> real) list \<Rightarrow> string \<Rightarrow> bool" where
  "heartbeat_due g t beat cl \<longleftrightarrow>
     (case map_of beat cl of None \<Rightarrow> True | Some b \<Rightarrow> heartbeat_interval g * (1 / 2) \<le> t - b)"

definition keep_alive :: "'s redis_api \<Rightarrow> live_config \<Rightarrow> string \<Rightarrow> string list \<Rightarrow> 's \<Rightarrow> 's" where
  "keep_alive R g c cls s =
     foldl (\<lambda>t cl.
        r_expire R (r_sadd R (r_expire R t (Live (Client_metadata c cl)) (client_record_ttl g)) (Live (Clients c)) cl)
          (Live (Clients c)) (client_record_ttl g)) s cls"

fun remove_clients ::
  "'s redis_api \<Rightarrow> live_config \<Rightarrow> real \<Rightarrow> string \<Rightarrow> string list \<Rightarrow> worker \<Rightarrow> 's \<Rightarrow>
   bool \<times> live_event list \<times> worker \<times> 's" where
  "remove_clients R g t c [] w s = (False, [], w, s)"
| "remove_clients R g t c (cl # cls) w s =
     (let (handle, es, w1, s1) = remove_client R g t w c cl s;
          (handle', es', w2, s2) = remove_clients R g t c cls w1 s1
      in (handle \<or> handle', es @ es', w2, s2))"

definition heartbeat ::
  "'s redis_api \<Rightarrow> live_config \<Rightarrow> real \<Rightarrow> worker \<Rightarrow> string \<Rightarrow> (string \<times> real) list \<Rightarrow> 's \<Rightarrow>
   (bool \<times> live_event list \<times> worker \<times> 's) \<times> (string \<times> real) list" where
  "heartbeat R g t w c beat s =
     (let cls = local_clients w c in
      if cls = [] then ((False, [], w, s), beat)
      else
        (let ghosts = filter (is_ghost R g t s c) cls;
             due = filter (\<lambda>cl. cl \<notin> set ghosts \<and> heartbeat_due g t beat cl) cls;
             s1 = keep_alive R g c due s;
             s2 = (if set cls \<subseteq> set ghosts then s1 else notify_owner_of_activity R g t w c s1)
         in (remove_clients R g t c ghosts w s2,
             filter (\<lambda>(cl, b). cl \<notin> set ghosts) (foldl (\<lambda>m cl. AList.update cl t m) beat due))))"

section \<open>Giving a channel's stream back\<close>

text \<open>A deleted channel's slot, from the fields of its metadata alone.\<close>

definition release_profile_slot_from_redis_metadata :: "'s redis_api \<Rightarrow> string \<Rightarrow> 's \<Rightarrow> bool \<times> 's" where
  "release_profile_slot_from_redis_metadata R c s =
     (case profile_field R s c of
        None \<Rightarrow> (False, s)
      | Some pid \<Rightarrow>
          (let s1 = (case Option.bind (r_hget R s (metadata c) ''channel_id'') val_int of
                       None \<Rightarrow> s | Some i \<Rightarrow> r_del R s (Channel_stream i));
               s2 = (case stream_field R s c of None \<Rightarrow> s1 | Some sid \<Rightarrow> r_del R s1 (Stream_profile sid))
           in (True, release_profile_slot R pid (clear_assignment_fields R c s2))))"

text \<open>The channel's row, else the stream's (a preview's key is the stream's hash), else the metadata.\<close>

definition streams_with_hash :: "site \<Rightarrow> string \<Rightarrow> stream list" where
  "streams_with_hash X h = map snd (filter (\<lambda>(k, st). k = h) (stream_rows X))"

definition release_stream_resources ::
  "'s redis_api \<Rightarrow> env \<Rightarrow> site \<Rightarrow> string \<Rightarrow> 's \<Rightarrow> bool \<times> 's" where
  "release_stream_resources R e X c s =
     (let (released, s1) = (case channel_by_uuid X c of None \<Rightarrow> (False, s) | Some ch \<Rightarrow> release_stream R e ch s) in
      if released then (True, s1)
      else
        (let (released', s2) = (case streams_with_hash X c of
                                  [st] \<Rightarrow> stream_release_stream R (str_id st) s1 | _ \<Rightarrow> (False, s1)) in
         if released' then (True, s2) else release_profile_slot_from_redis_metadata R c s2))"

text \<open>
  \<open>_clean_redis_keys\<close>: \<open>scan\<close> is what the server lists for \<open>live:channel:<id>:*\<close> and the channel's
  events.
\<close>

definition clean_redis_keys ::
  "'s redis_api \<Rightarrow> env \<Rightarrow> site \<Rightarrow> ('s \<Rightarrow> string \<Rightarrow> rkey list) \<Rightarrow> string \<Rightarrow> 's \<Rightarrow> 's" where
  "clean_redis_keys R e X scan c s =
     (let s1 = snd (release_stream_resources R e X c s) in foldl (r_del R) s1 (scan s1 c))"

text \<open>The channel whose \<open>live:channel:<id>:\<close> a key begins with.\<close>

fun live_key_channel :: "live_key \<Rightarrow> string option" where
  "live_key_channel (Worker_heartbeat w) = None"
| "live_key_channel (Events_channel c) = None"
| "live_key_channel (Channel_metadata c) = Some c"
| "live_key_channel (Buffer_index c) = Some c"
| "live_key_channel (Buffer_chunk c i) = Some c"
| "live_key_channel (Channel_stopping c) = Some c"
| "live_key_channel (Client_stop c cl) = Some c"
| "live_key_channel (Switch_request c) = Some c"
| "live_key_channel (Channel_owner c) = Some c"
| "live_key_channel (Clients c) = Some c"
| "live_key_channel (Last_client_disconnect c) = Some c"
| "live_key_channel (Connection_attempt c) = Some c"
| "live_key_channel (Last_data c) = Some c"
| "live_key_channel (Switch_status c) = Some c"
| "live_key_channel (Chunk_timestamps c) = Some c"
| "live_key_channel (Transcode_active c) = Some c"
| "live_key_channel (Client_metadata c cl) = Some c"
| "live_key_channel (Output_buffer_index c f) = Some c"
| "live_key_channel (Output_buffer_chunk c f i) = Some c"
| "live_key_channel (Output_init c f) = Some c"
| "live_key_channel (Output_state c f) = Some c"
| "live_key_channel (Output_owner c f) = Some c"
| "live_key_channel (Output_chunk_timestamps c f) = Some c"

fun key_channel :: "rkey \<Rightarrow> string option" where
  "key_channel (Live k) = live_key_channel k"
| "key_channel (Last_preempt i) = Some (dec i)"
| "key_channel (Worker_clients c w) = Some c"
| "key_channel (Channel_activity c) = Some c"
| "key_channel (Init_time c) = Some c"
| "key_channel _ = None"

definition scan_complete :: "'s redis_api \<Rightarrow> ('s \<Rightarrow> string \<Rightarrow> rkey list) \<Rightarrow> 's \<Rightarrow> string \<Rightarrow> bool" where
  "scan_complete R scan s c \<longleftrightarrow>
     (\<forall>k. key_channel k = Some c \<and> (r_exists R s k \<or> r_count R s k \<noteq> 0) \<longrightarrow> k \<in> set (scan s c)) \<and>
     (\<forall>k \<in> set (scan s c). key_channel k = Some c)"

section \<open>Stopping what runs here\<close>

definition signal_upstream_shutdown :: "string \<Rightarrow> worker \<Rightarrow> worker" where
  "signal_upstream_shutdown c w =
     (if c \<in> set (stream_buffers w) \<union> set (stream_managers w) \<union> set (live_managers w)
      then w\<lparr>told_to_stop := List.insert c (told_to_stop w)\<rparr> else w)"

text \<open>\<open>ended\<close>: whether the stream's thread ended within the two seconds it is given.\<close>

definition stop_local_stream_activity :: "bool \<Rightarrow> string \<Rightarrow> worker \<Rightarrow> worker" where
  "stop_local_stream_activity ended c w =
     w\<lparr>stream_managers := removeAll c (stream_managers w),
       live_managers := removeAll c (live_managers w),
       stream_threads := (if ended then removeAll c (stream_threads w) else stream_threads w),
       stream_buffers := removeAll c (stream_buffers w),
       client_managers := AList.delete c (client_managers w),
       output_managers := AList.delete c (output_managers w),
       profile_managers := AList.delete c (profile_managers w),
       told_to_stop := (if has_local_upstream_activity w c then List.insert c (told_to_stop w) else told_to_stop w)\<rparr>"

definition active_profiles_of :: "'s redis_api \<Rightarrow> 's \<Rightarrow> string \<Rightarrow> int list" where
  "active_profiles_of R s c =
     List.map_filter (\<lambda>cl. Option.bind (r_hget R s (Live (Client_metadata c cl)) ''output_profile_id'') val_int)
       (r_members R s (Live (Clients c)))"

definition keep_profiles :: "int list \<Rightarrow> string \<Rightarrow> worker \<Rightarrow> worker" where
  "keep_profiles active c w =
     (case map_of (profile_managers w) c of
        None \<Rightarrow> w
      | Some ps \<Rightarrow>
          (let left = filter (\<lambda>p. p \<in> set active) ps
           in w\<lparr>profile_managers := (if left = [] then AList.delete c (profile_managers w)
                                      else AList.update c left (profile_managers w))\<rparr>))"

definition cleanup_local_resources :: "'s redis_api \<Rightarrow> bool \<Rightarrow> 's \<Rightarrow> string \<Rightarrow> worker \<Rightarrow> worker" where
  "cleanup_local_resources R ended s c w =
     keep_profiles (active_profiles_of R s c) c
       (w\<lparr>stream_managers := removeAll c (stream_managers w),
          live_managers := removeAll c (live_managers w),
          stream_threads := (if ended then removeAll c (stream_threads w) else stream_threads w),
          stream_buffers := removeAll c (stream_buffers w),
          client_managers := AList.delete c (client_managers w),
          told_to_stop := (if has_local_upstream_activity w c then List.insert c (told_to_stop w) else told_to_stop w)\<rparr>)"

text \<open>\<open>stop_channel\<close> of the server; the answer is whether it ran.\<close>

definition server_stop_channel ::
  "'s redis_api \<Rightarrow> env \<Rightarrow> site \<Rightarrow> ('s \<Rightarrow> string \<Rightarrow> rkey list) \<Rightarrow> bool \<Rightarrow> worker \<Rightarrow> string \<Rightarrow> 's \<Rightarrow>
   bool \<times> worker \<times> 's" where
  "server_stop_channel R e X scan ended w c s =
     (if c \<in> fst ` set (stopping_since w) then (False, w, s)
      else
        (let w1 = w\<lparr>stopping_since := (c, now e) # stopping_since w\<rparr>;
             stop_key = Live (Channel_stopping c);
             s1 = (if r_exists R s stop_key then r_expire R s stop_key 60
                   else r_setex R s stop_key 60 (VStr ''true''));
             was_owner = am_i_owner R s1 w1 c;
             w2 = signal_upstream_shutdown c w1;
             s2 = clean_redis_keys R e X scan c s1;
             s3 = (if was_owner then release_ownership R w2 c True s2 else s2);
             w3 = stop_local_stream_activity ended c w2
         in (True, w3\<lparr>stopping_since := AList.delete c (stopping_since w3)\<rparr>, s3)))"

section \<open>Whether a channel exists\<close>

definition zombie_threshold :: real where "zombie_threshold = 60"

definition check_if_channel_exists ::
  "'s redis_api \<Rightarrow> env \<Rightarrow> site \<Rightarrow> ('s \<Rightarrow> string \<Rightarrow> rkey list) \<Rightarrow> worker \<Rightarrow> string \<Rightarrow> 's \<Rightarrow> bool \<times> 's" where
  "check_if_channel_exists R e X scan w c s =
     (if c \<in> set (stream_managers w) \<or> c \<in> set (stream_buffers w) then (True, s)
      else if r_exists R s (metadata c) then
        (let st = (case channel_state_of R s c of None \<Rightarrow> ''unknown'' | Some x \<Rightarrow> x);
             owner = (case Option.bind (r_hget R s (metadata c) ''owner'') val_text of None \<Rightarrow> [] | Some x \<Rightarrow> x)
         in if st \<in> set (map state_text [Active, Waiting_for_clients, Connecting, Buffering, Initializing, Stopping])
            then (if r_exists R s (Live (Worker_heartbeat owner)) then (True, s)
                  else (False, clean_redis_keys R e X scan c s))
            else if st \<in> set (map state_text [Stopped, Error_state]) then (False, s)
            else (case Option.bind (r_hget R s (metadata c) ''state_changed_at'') val_real of
                    Some since \<Rightarrow>
                      (if zombie_threshold < now e - since then (False, clean_redis_keys R e X scan c s)
                       else (True, s))
                  | None \<Rightarrow> (True, s)))
      else if r_exists R s (Live (Clients c)) \<or> buffer_chunks R s c \<noteq> 0 \<or> r_exists R s (owner_key c)
      then (False, clean_redis_keys R e X scan c s)
      else (False, s))"

text \<open>\<open>ChannelService.stop_channel\<close>: marked for all workers, told to them, and stopped here.\<close>

definition coordinated_stop_channel ::
  "'s redis_api \<Rightarrow> env \<Rightarrow> site \<Rightarrow> ('s \<Rightarrow> string \<Rightarrow> rkey list) \<Rightarrow> bool \<Rightarrow> worker \<Rightarrow> string \<Rightarrow> 's \<Rightarrow>
   (bool \<times> live_event list) \<times> worker \<times> 's" where
  "coordinated_stop_channel R e X scan ended w c s =
     (let (there, s1) = check_if_channel_exists R e X scan w c s in
      if \<not> there then ((False, []), w, s1)
      else
        (let (_, w1, s2) = server_stop_channel R e X scan ended w c (mark_channel_stopping R (now e) c s1)
         in ((True, [Channel_stop_event c (worker_id w)]), w1, s2)))"

end
