(* ===== verification/Channel_Life.thy ===== *)
theory Channel_Life
  imports Channel_Server
begin

text \<open>
  What happens to a channel on the workers (\<^verbatim>\<open>live_proxy/server.py\<close>): it is started, its last
  viewer leaves, a worker looks after its channels, orphans are cleaned up, and the others' events
  are handled; and how the owner's upstream sees that it has to end (\<^verbatim>\<open>input/manager.py\<close>).
  Starting a stream manager may fail, by parameter; slates are a parameter.
\<close>

section \<open>Starting a channel\<close>

definition REDIS_TTL_DEFAULT :: int where "REDIS_TTL_DEFAULT = 3600"

definition with_buffer_and_clients :: "string \<Rightarrow> worker \<Rightarrow> worker" where
  "with_buffer_and_clients c w =
     w\<lparr>stream_buffers := List.insert c (stream_buffers w),
       client_managers := (if c \<in> fst ` set (client_managers w) then client_managers w
                           else (c, []) # client_managers w)\<rparr>"

definition cleanup_failed_init ::
  "'s redis_api \<Rightarrow> env \<Rightarrow> site \<Rightarrow> ('s \<Rightarrow> string \<Rightarrow> rkey list) \<Rightarrow> bool \<Rightarrow> worker \<Rightarrow> string \<Rightarrow> 's \<Rightarrow> worker \<times> 's" where
  "cleanup_failed_init R e X scan ended w c s =
     (if (case get_channel_owner R s c of None \<Rightarrow> False | Some x \<Rightarrow> x \<noteq> [] \<and> x \<noteq> worker_id w) \<or>
         (case channel_state_of R s c of
            None \<Rightarrow> False | Some st \<Rightarrow> st \<notin> set (map state_text PRE_ACTIVE) \<and> st \<noteq> state_text Error_state)
      then (w, s)
      else
        (let w1 = stop_local_stream_activity ended c w;
             s1 = release_ownership R w1 c False s
         in (w1, clean_redis_keys R e X scan c s1)))"

record start_request =
  rq_url :: "string option"
  rq_agent :: "string option"
  rq_stream :: "int option"
  rq_channel_name :: "string option"
  rq_stream_name :: "string option"

text \<open>A value the caller gave, or what the metadata has.\<close>

definition given_or_field :: "'s redis_api \<Rightarrow> 's \<Rightarrow> string \<Rightarrow> string option \<Rightarrow> string \<Rightarrow> string option" where
  "given_or_field R s c given f =
     (if text_or [] given \<noteq> [] then given
      else case Option.bind (r_hget R s (metadata c) f) val_text of
             None \<Rightarrow> None | Some x \<Rightarrow> if x = [] then None else Some x)"

definition start_metadata :: "worker \<Rightarrow> real \<Rightarrow> string \<Rightarrow> string \<Rightarrow> start_request \<Rightarrow> (string \<times> rval) list" where
  "start_metadata w t c url rq =
     [(''url'', VStr url), (''init_time'', VTime t), (''last_active'', VTime t), (''owner'', VStr (worker_id w)),
      (''state'', VStr (state_text Initializing))] @
     (case rq_agent rq of None \<Rightarrow> [] | Some a \<Rightarrow> if a = [] then [] else [(''user_agent'', VStr a)]) @
     (case rq_stream rq of None \<Rightarrow> [] | Some i \<Rightarrow> if i = 0 then [] else [(''stream_id'', VInt i)]) @
     (case rq_channel_name rq of
        None \<Rightarrow> [] | Some n \<Rightarrow> if n = [] \<or> n = c then [] else [(''channel_name'', VStr n)]) @
     (case rq_stream_name rq of None \<Rightarrow> [] | Some n \<Rightarrow> if n = [] then [] else [(''stream_name'', VStr n)])"

text \<open>
  The request with what the metadata adds. A URL taken from there brings its agent. \<open>starts\<close> says
  whether the stream manager could be made.
\<close>

definition completed_request :: "'s redis_api \<Rightarrow> 's \<Rightarrow> string \<Rightarrow> start_request \<Rightarrow> start_request" where
  "completed_request R s c rq =
     (let given = text_or [] (rq_url rq) \<noteq> [] in
      rq\<lparr>rq_url := given_or_field R s c (rq_url rq) ''url'',
         rq_agent := (if given then rq_agent rq
                      else case given_or_field R s c None ''user_agent'' of
                             None \<Rightarrow> rq_agent rq | Some a \<Rightarrow> Some a),
         rq_stream := (case rq_stream rq of
                         Some i \<Rightarrow> (if i = 0 then stream_field R s c else Some i)
                       | None \<Rightarrow> stream_field R s c),
         rq_channel_name := given_or_field R s c (rq_channel_name rq) ''channel_name'',
         rq_stream_name := given_or_field R s c (rq_stream_name rq) ''stream_name''\<rparr>)"

definition start_upstream ::
  "'s redis_api \<Rightarrow> env \<Rightarrow> site \<Rightarrow> ('s \<Rightarrow> string \<Rightarrow> rkey list) \<Rightarrow> bool \<Rightarrow> bool \<Rightarrow> worker \<Rightarrow> string \<Rightarrow> string \<Rightarrow>
   start_request \<Rightarrow> 's \<Rightarrow> bool \<times> worker \<times> 's" where
  "start_upstream R e X scan ended starts w c url rq s =
     (let s1 = r_expire R (hset_all R (metadata c) (start_metadata w (now e) c url rq) s) (metadata c) REDIS_TTL_DEFAULT
      in if \<not> starts then (False, cleanup_failed_init R e X scan ended w c s1)
         else
           (let w1 = w\<lparr>stream_managers := List.insert c (stream_managers w),
                       live_managers := List.insert c (live_managers w),
                       stream_threads := List.insert c (stream_threads w),
                       told_to_stop := removeAll c (told_to_stop w)\<rparr>
            in (True, w1,
                if am_i_owner R s1 w1 c
                then r_setex R
                       (update_channel_state R (now e) c Connecting
                          [(''init_time'', VTime (now e)), (''owner'', VStr (worker_id w1))] s1)
                       (Live (Connection_attempt c)) 60 (VTime (now e))
                else s1)))"

definition initialize_channel ::
  "'s redis_api \<Rightarrow> env \<Rightarrow> site \<Rightarrow> ('s \<Rightarrow> string \<Rightarrow> rkey list) \<Rightarrow> bool \<Rightarrow> bool \<Rightarrow> bool \<Rightarrow> worker \<Rightarrow> string \<Rightarrow>
   start_request \<Rightarrow> 's \<Rightarrow> bool \<times> worker \<times> 's" where
  "initialize_channel R e X scan ended answered starts w c rq s =
     (if teardown_active R w s c then (False, w, s)
      else
        (let w1 = (if has_local_upstream_activity w c then stop_local_stream_activity ended c w else w);
             w2 = with_buffer_and_clients c w1;
             rq' = completed_request R s c rq
         in if channel_proxy_is_active R s c then (True, w2, s)
            else if (case get_channel_owner R s c of None \<Rightarrow> False | Some x \<Rightarrow> x \<noteq> [] \<and> x \<noteq> worker_id w)
            then (True, w2, s)
            else case rq_url rq' of
                   None \<Rightarrow> (False, cleanup_failed_init R e X scan ended w2 c s)
                 | Some url \<Rightarrow>
                     (let (mine, s1) = try_acquire_ownership R w2 c answered s in
                      if \<not> mine then (True, w2, s1)
                      else start_upstream R e X scan ended starts w2 c url rq' s1)))"

section \<open>The last viewer leaves\<close>

text \<open>
  Helpers are nobody, unless a paused viewer watches through one (\<open>paused\<close>: how many).
\<close>

definition people_count :: "'s redis_api \<Rightarrow> nat \<Rightarrow> 's \<Rightarrow> string \<Rightarrow> nat \<Rightarrow> nat" where
  "people_count R paused s c n =
     (if n = 0 then 0
      else
        (let agents = map (\<lambda>cl. Option.bind (r_hget R s (Live (Client_metadata c cl)) ''user_agent'') val_text)
                        (r_members R s (Live (Clients c)));
             people = length (filter (\<lambda>a. \<not> is_caption_client a) agents)
         in if people = 0 \<and> agents \<noteq> [] then paused else people))"

text \<open>
  The wait: \<open>clock n\<close> is the time at poll \<open>n\<close>; \<open>others n\<close> is what happens during the sleep after
  it, and \<open>between n\<close> what happens between the last two reads.
\<close>

fun shutdown_wait ::
  "'s redis_api \<Rightarrow> live_config \<Rightarrow> (nat \<Rightarrow> real) \<Rightarrow> (nat \<Rightarrow> 's \<Rightarrow> 's) \<Rightarrow> (nat \<Rightarrow> 's \<Rightarrow> 's) \<Rightarrow> string \<Rightarrow> nat \<Rightarrow> nat \<Rightarrow>
   's \<Rightarrow> (bool \<times> 's) option" where
  "shutdown_wait R g clock others between c 0 n s = None"
| "shutdown_wait R g clock others between c (Suc fuel) n s =
     (if 0 < client_total R s c then Some (False, r_del R s (Live (Last_client_disconnect c)))
      else case disconnect_time R s c of
             Some (Some left) \<Rightarrow>
               (if shutdown_delay g \<le> clock n - left then
                  (let s1 = between n s
                   in Some (if 0 < client_total R s1 c
                            then (False, r_del R s1 (Live (Last_client_disconnect c))) else (True, s1)))
                else shutdown_wait R g clock others between c fuel (Suc n) (others n s))
           | _ \<Rightarrow> Some (False, s))"

definition wait_for_shutdown_delay ::
  "'s redis_api \<Rightarrow> live_config \<Rightarrow> (nat \<Rightarrow> real) \<Rightarrow> (nat \<Rightarrow> 's \<Rightarrow> 's) \<Rightarrow> (nat \<Rightarrow> 's \<Rightarrow> 's) \<Rightarrow> string \<Rightarrow> nat \<Rightarrow> 's \<Rightarrow>
   (bool \<times> 's) option" where
  "wait_for_shutdown_delay R g clock others between c fuel s =
     (if shutdown_delay g \<le> 0 then Some (True, s) else shutdown_wait R g clock others between c fuel 0 s)"

definition needed_managers :: "'s redis_api \<Rightarrow> 's \<Rightarrow> string \<Rightarrow> string list" where
  "needed_managers R s c =
     List.map_filter (\<lambda>cl.
        case Option.bind (r_hget R s (Live (Client_metadata c cl)) ''output_format'') val_text of
          None \<Rightarrow> None
        | Some f \<Rightarrow>
            (if f = [] then None
             else case Option.bind (r_hget R s (Live (Client_metadata c cl)) ''output_profile_id'') val_text of
                    None \<Rightarrow> Some f
                  | Some p \<Rightarrow> (if p = [] then Some f else map_option (\<lambda>n. f @ '':p'' @ dec n) (parse_int p))))
       (r_members R s (Live (Clients c)))"

definition keep_outputs :: "string list \<Rightarrow> string \<Rightarrow> worker \<Rightarrow> worker" where
  "keep_outputs needed c w =
     (case map_of (output_managers w) c of
        None \<Rightarrow> w
      | Some fs \<Rightarrow>
          (let left = filter (\<lambda>f. f \<in> set needed) fs
           in w\<lparr>output_managers := (if left = [] then AList.delete c (output_managers w)
                                     else AList.update c left (output_managers w))\<rparr>))"

definition holds_anything :: "worker \<Rightarrow> string \<Rightarrow> bool" where
  "holds_anything w c \<longleftrightarrow>
     c \<in> fst ` set (client_managers w) \<or> c \<in> fst ` set (profile_managers w) \<or> c \<in> fst ` set (output_managers w) \<or>
     has_local_upstream_activity w c"

definition handle_client_disconnect ::
  "'s redis_api \<Rightarrow> env \<Rightarrow> site \<Rightarrow> live_config \<Rightarrow> ('s \<Rightarrow> string \<Rightarrow> rkey list) \<Rightarrow> bool \<Rightarrow> nat \<Rightarrow> (nat \<Rightarrow> real) \<Rightarrow>
   (nat \<Rightarrow> 's \<Rightarrow> 's) \<Rightarrow> (nat \<Rightarrow> 's \<Rightarrow> 's) \<Rightarrow> nat \<Rightarrow> worker \<Rightarrow> string \<Rightarrow> 's \<Rightarrow> (live_event list \<times> worker \<times> 's) option" where
  "handle_client_disconnect R e X g scan ended paused clock others between fuel w c s =
     (if \<not> holds_anything w c then Some ([], w, s)
      else
        (let w1 = keep_profiles (active_profiles_of R s c) c (keep_outputs (needed_managers R s c) c w) in
         if people_count R paused s c (client_total R s c) \<noteq> 0 then Some ([], w1, s)
         else
           (let s1 = (if 0 < shutdown_delay g \<and> truthy (r_get R s (Live (Last_client_disconnect c))) then s
                      else set_disconnect R g (now e) c s)
            in map_option (\<lambda>(empty, s2).
                   if \<not> empty then ([], w1, s2)
                   else (let ((_, es), w2, s3) = coordinated_stop_channel R e X scan ended w1 c s2 in (es, w2, s3)))
                 (if 0 < shutdown_delay g then wait_for_shutdown_delay R g clock others between c fuel s1
                  else Some (True, s1)))))"

section \<open>A worker looks after its channels\<close>

definition pre_active_no_clients_should_stop :: "live_config \<Rightarrow> real \<Rightarrow> real option \<Rightarrow> real option \<Rightarrow> bool" where
  "pre_active_no_clients_should_stop g t ready start =
     (case ready of
        Some r \<Rightarrow> client_wait_period g < t - r
      | None \<Rightarrow> (case start of Some b \<Rightarrow> init_grace_period g < t - b | None \<Rightarrow> False))"

text \<open>A time that counts: a time of zero is none.\<close>

definition real_time :: "rval option \<Rightarrow> real option" where
  "real_time v = (case Option.bind v val_real of None \<Rightarrow> None | Some t \<Rightarrow> if t = 0 then None else Some t)"

definition owner_turn ::
  "'s redis_api \<Rightarrow> env \<Rightarrow> site \<Rightarrow> live_config \<Rightarrow> ('s \<Rightarrow> string \<Rightarrow> rkey list) \<Rightarrow> bool \<Rightarrow> (string \<Rightarrow> 's \<Rightarrow> 's) \<Rightarrow> nat \<Rightarrow>
   worker \<Rightarrow> string \<Rightarrow> 's \<Rightarrow> live_event list \<times> worker \<times> 's" where
  "owner_turn R e X g scan ended slate_look paused w c s =
     (let s1 = slate_look c (snd (extend_ownership R w c s));
          st = (case channel_state_of R s1 c of None \<Rightarrow> ''unknown'' | Some x \<Rightarrow> x);
          n = people_count R paused s1 c (client_total R s1 c);
          stopping = r_exists R s1 (Live (Channel_stopping c));
          stop_it = (let ((_, es), w2, s2) = coordinated_stop_channel R e X scan ended w c s1 in (es, w2, s2))
      in if st \<in> set (map state_text [Initializing, Connecting, Waiting_for_clients]) then
           (if stopping then ([], w, s1)
            else if n = 0 then
              (let ready = real_time (r_hget R s1 (metadata c) ''connection_ready_time'');
                   start = (case real_time (r_get R s1 (Live (Connection_attempt c))) of
                              Some b \<Rightarrow> Some b | None \<Rightarrow> real_time (r_hget R s1 (metadata c) ''init_time''))
               in if start \<noteq> None \<and> pre_active_no_clients_should_stop g (now e) ready start
                  then stop_it else ([], w, s1))
            else if st = state_text Waiting_for_clients
            then ([], w, snd (promote_channel_when_buffer_ready R g (now e) c s1))
            else ([], w, s1))
         else if n = 0 then
           (if stopping then ([], w, s1)
            else case real_time (r_get R s1 (Live (Last_client_disconnect c))) of
                   None \<Rightarrow> ([], w, set_disconnect R g (now e) c s1)
                 | Some left \<Rightarrow> (if shutdown_delay g < now e - left then stop_it else ([], w, s1)))
         else ([], w, r_del R s1 (Live (Last_client_disconnect c))))"

definition non_owner_turn ::
  "'s redis_api \<Rightarrow> env \<Rightarrow> site \<Rightarrow> ('s \<Rightarrow> string \<Rightarrow> rkey list) \<Rightarrow> bool \<Rightarrow> worker \<Rightarrow> string \<Rightarrow> 's \<Rightarrow> worker \<times> 's" where
  "non_owner_turn R e X scan ended w c s =
     (let holds = c \<in> set (stream_managers w) \<or> c \<in> set (live_managers w);
          (again, s1) = (if holds \<and> \<not> teardown_active R w s c then extend_ownership R w c s else (False, s));
          clean = (cleanup_local_resources R ended s1 c w, s1)
      in if holds \<and> c \<in> fst ` set (stopping_since w) then (w, s)
         else if holds \<and> teardown_active R w s c
         then (let (_, w1, s2) = server_stop_channel R e X scan ended w c s in (w1, s2))
         else if holds \<and> (again \<or> local_clients w c \<noteq> []) then (w, s1)
         else if r_exists R s1 (Live (Channel_stopping c)) \<or> \<not> r_exists R s1 (owner_key c) \<or> \<not> r_exists R s1 (metadata c)
         then clean
         else if local_clients w c = [] then clean else (w, s1))"

definition look_after ::
  "'s redis_api \<Rightarrow> env \<Rightarrow> site \<Rightarrow> live_config \<Rightarrow> ('s \<Rightarrow> string \<Rightarrow> rkey list) \<Rightarrow> bool \<Rightarrow> (string \<Rightarrow> 's \<Rightarrow> 's) \<Rightarrow>
   (string \<Rightarrow> nat) \<Rightarrow> string \<Rightarrow> live_event list \<times> worker \<times> 's \<Rightarrow> live_event list \<times> worker \<times> 's" where
  "look_after R e X g scan ended slate_look paused c ews =
     (case ews of
        (es, w, s) \<Rightarrow>
          (if am_i_owner R s w c
           then (let (es', w', s') = owner_turn R e X g scan ended slate_look (paused c) w c s in (es @ es', w', s'))
           else (let (w', s') = non_owner_turn R e X scan ended w c s in (es, w', s'))))"

definition refresh_channel_registry :: "'s redis_api \<Rightarrow> real \<Rightarrow> worker \<Rightarrow> 's \<Rightarrow> 's" where
  "refresh_channel_registry R t w s =
     foldl (\<lambda>u c. r_expire R (r_hset R u (metadata c) ''last_active'' (VTime t)) (metadata c) 30) s
       (filter (\<lambda>c. c \<notin> fst ` set (stopping_since w) \<and> am_i_owner R s w c) (stream_buffers w))"

definition stuck_threshold :: "live_config \<Rightarrow> real" where
  "stuck_threshold g = max 10 (shutdown_delay g * 2)"

definition recover_stuck_channel_stops ::
  "'s redis_api \<Rightarrow> env \<Rightarrow> site \<Rightarrow> live_config \<Rightarrow> ('s \<Rightarrow> string \<Rightarrow> rkey list) \<Rightarrow> bool \<Rightarrow> worker \<Rightarrow> 's \<Rightarrow> worker \<times> 's" where
  "recover_stuck_channel_stops R e X g scan ended w s =
     foldl (\<lambda>(w, s) c.
        (stop_local_stream_activity ended c (w\<lparr>stopping_since := AList.delete c (stopping_since w)\<rparr>),
         clean_redis_keys R e X scan c s)) (w, s)
       (map fst (filter (\<lambda>(c, since). stuck_threshold g \<le> now e - since) (stopping_since w)))"

text \<open>
  One turn of the cleanup thread: the heartbeat, the channels this worker holds, and in between the
  upkeep of overlaps, abandoned slots and media servers (\<open>upkeep\<close>, with \<open>Probation\<close> and \<open>Sweep\<close>).
\<close>

definition local_channels :: "worker \<Rightarrow> string list" where
  "local_channels w = remdups (stream_managers w @ map fst (client_managers w) @ live_managers w)"

definition cleanup_turn ::
  "'s redis_api \<Rightarrow> env \<Rightarrow> site \<Rightarrow> live_config \<Rightarrow> ('s \<Rightarrow> string \<Rightarrow> rkey list) \<Rightarrow> bool \<Rightarrow> (string \<Rightarrow> 's \<Rightarrow> 's) \<Rightarrow>
   ('s \<Rightarrow> 's) \<Rightarrow> (string \<Rightarrow> nat) \<Rightarrow> worker \<Rightarrow> 's \<Rightarrow> live_event list \<times> worker \<times> 's" where
  "cleanup_turn R e X g scan ended slate_look upkeep paused w s =
     (let s1 = refresh_channel_registry R (now e) w
                 (r_setex R s (Live (Worker_heartbeat (worker_id w))) 30 (VTime (now e)));
          (w1, s2) = recover_stuck_channel_stops R e X g scan ended w s1
      in foldl (\<lambda>ews c. look_after R e X g scan ended slate_look paused c ews) ([], w1, upkeep s2) (local_channels w1))"

section \<open>Channels whose owner is gone\<close>

definition stop_upstream_before_redis_cleanup ::
  "'s redis_api \<Rightarrow> real \<Rightarrow> bool \<Rightarrow> string \<Rightarrow> worker \<Rightarrow> 's \<Rightarrow> live_event list \<times> worker \<times> 's" where
  "stop_upstream_before_redis_cleanup R t ended c w s =
     (if has_local_upstream_activity w c then ([], stop_local_stream_activity ended c w, s)
      else ([Channel_stop_event c (worker_id w)], w, mark_channel_stopping R t c s))"

definition check_orphaned_one ::
  "'s redis_api \<Rightarrow> env \<Rightarrow> site \<Rightarrow> ('s \<Rightarrow> string \<Rightarrow> rkey list) \<Rightarrow> bool \<Rightarrow> string \<Rightarrow> worker \<Rightarrow> 's \<Rightarrow>
   live_event list \<times> worker \<times> 's" where
  "check_orphaned_one R e X scan ended c w s =
     (let owner = (case Option.bind (r_hget R s (metadata c) ''owner'') val_text of None \<Rightarrow> [] | Some x \<Rightarrow> x);
          alive = owner \<noteq> [] \<and> r_exists R s (Live (Worker_heartbeat owner));
          n = client_total R s c;
          end_it = (\<lambda>s0. let (es, w1, s1) = stop_upstream_before_redis_cleanup R (now e) ended c w s0
                         in (es, w1, clean_redis_keys R e X scan c s1))
      in if alive then ([], w, s)
         else if n = 0 then end_it s
         else
           (let (stale, s1) = remove_ghost_clients R c s in
            if n \<le> length stale then end_it s1
            else if teardown_active R w s1 c then end_it (snd (clear_all_clients R c s1))
            else ([], w, s1)))"

definition check_orphaned_metadata ::
  "'s redis_api \<Rightarrow> env \<Rightarrow> site \<Rightarrow> ('s \<Rightarrow> string \<Rightarrow> rkey list) \<Rightarrow> bool \<Rightarrow> worker \<Rightarrow> 's \<Rightarrow>
   live_event list \<times> worker \<times> 's" where
  "check_orphaned_metadata R e X scan ended w s =
     foldl (\<lambda>(es, w, s) c. let (es', w', s') = check_orphaned_one R e X scan ended c w s in (es @ es', w', s'))
       ([], w, s) (List.map_filter metadata_channel (r_hkeys R s))"

section \<open>The others' events\<close>

text \<open>
  The events about clients and stops (stream switches are in \<^verbatim>\<open>Stream_Switch\<close>; outputs are not modelled). All of them
  are for the owner alone; where \<open>handle_client_disconnect\<close> is spawned the answer is \<open>True\<close>.
\<close>

definition handle_event ::
  "'s redis_api \<Rightarrow> env \<Rightarrow> site \<Rightarrow> live_config \<Rightarrow> ('s \<Rightarrow> string \<Rightarrow> rkey list) \<Rightarrow> bool \<Rightarrow> live_event \<Rightarrow> worker \<Rightarrow> 's \<Rightarrow>
   bool \<times> worker \<times> 's" where
  "handle_event R e X g scan ended ev w s =
     (case ev of
        Client_connected c cl \<Rightarrow>
          (if am_i_owner R s w c then (False, w, r_del R s (Live (Last_client_disconnect c))) else (False, w, s))
      | Client_disconnected c cl \<Rightarrow> (am_i_owner R s w c, w, s)
      | Channel_stop_event c requester \<Rightarrow>
          (if \<not> am_i_owner R s w c \<or> requester = worker_id w \<and> requester \<noteq> [] then (False, w, s)
           else if c \<in> set (stream_managers w) \<or> c \<in> set (live_managers w)
           then (let (_, w1, s1) = server_stop_channel R e X scan ended w c s in (False, w1, s1))
           else if c \<in> set (stream_buffers w) \<or> c \<in> fst ` set (client_managers w) \<or>
                   c \<in> fst ` set (profile_managers w) \<or> c \<in> fst ` set (output_managers w)
           then (False, cleanup_local_resources R ended s c w, s)
           else (False, w, s))
      | Client_stop_event c cl \<Rightarrow>
          (if \<not> am_i_owner R s w c \<or> cl = [] then (False, w, s)
           else
             (let (handle, _, w1, s1) = (if cl \<in> set (local_clients w c) then remove_client R g (now e) w c cl s
                                         else (False, [], w, s))
              in (handle, w1, r_setex R s1 (Live (Client_stop c cl)) 30 (VStr ''true'')))))"

section \<open>The upstream's own check\<close>

definition disconnect_shutdown_ready :: "live_config \<Rightarrow> real \<Rightarrow> real option option \<Rightarrow> bool" where
  "disconnect_shutdown_ready g t left =
     (case left of
        None \<Rightarrow> False
      | Some l \<Rightarrow> (shutdown_delay g \<le> 0 \<or> (case l of None \<Rightarrow> False | Some d \<Rightarrow> shutdown_delay g \<le> t - d)))"

definition evaluate_ownership :: "'s redis_api \<Rightarrow> live_config \<Rightarrow> real \<Rightarrow> worker \<Rightarrow> string \<Rightarrow> 's \<Rightarrow> bool" where
  "evaluate_ownership R g t w c s =
     (let n = client_total R s c; owner = text_or [] (get_channel_owner R s c) in
      if r_exists R s (Live (Channel_stopping c)) then False
      else if \<not> r_exists R s (metadata c) then False
      else if owner \<noteq> [] \<and> owner \<noteq> worker_id w then False
      else if owner = [] then
        \<not> (n = 0 \<and> (case channel_state_of R s c of None \<Rightarrow> True | Some st \<Rightarrow> st \<notin> set (map state_text PRE_ACTIVE)))
      else \<not> (n = 0 \<and> disconnect_shutdown_ready g t (disconnect_time R s c)))"

text \<open>
  \<open>_still_owner\<close> and \<open>_upstream_may_continue\<close>: the answer is kept for a second (\<open>valid\<close>: until
  when and what), and the stop marker is looked at for every chunk.
\<close>

definition OWNERSHIP_CHECK_INTERVAL :: real where "OWNERSHIP_CHECK_INTERVAL = 1"

definition still_owner ::
  "'s redis_api \<Rightarrow> live_config \<Rightarrow> real \<Rightarrow> bool \<Rightarrow> worker \<Rightarrow> string \<Rightarrow> real \<times> bool \<Rightarrow> 's \<Rightarrow> bool \<times> (real \<times> bool)" where
  "still_owner R g t force w c valid s =
     (if c \<in> set (told_to_stop w) then (False, valid)
      else if worker_id w = [] then (True, valid)
      else if \<not> force \<and> t < fst valid then (snd valid, valid)
      else (let r = evaluate_ownership R g t w c s in (r, (t + OWNERSHIP_CHECK_INTERVAL, r))))"

definition upstream_may_continue ::
  "'s redis_api \<Rightarrow> live_config \<Rightarrow> real \<Rightarrow> worker \<Rightarrow> string \<Rightarrow> real \<times> bool \<Rightarrow> 's \<Rightarrow> bool \<times> (real \<times> bool)" where
  "upstream_may_continue R g t w c valid s =
     (if c \<in> set (told_to_stop w) then (False, valid)
      else if worker_id w \<noteq> [] \<and> r_exists R s (Live (Channel_stopping c)) then (False, (0, False))
      else still_owner R g t False w c valid s)"

end
