(* ===== verification/User_Limits.thy ===== *)
theory User_Limits
  imports Catchup_Sessions Channel_Life "HOL-Library.Product_Lexorder"
begin

text \<open>
  How many streams a login may play at once (\<^verbatim>\<open>apps/proxy/utils.py\<close>): its connections of all kinds,
  the check before another one, and which of them is ended for it; and ending one connection of each
  kind (\<^verbatim>\<open>services/channel_service.py\<close> for a live client).
\<close>

section \<open>A login's connections\<close>

datatype conn_kind = Live_conn | Timeshift_conn | Vod_conn

record connection =
  conn_media :: string
  conn_client :: string
  conn_since :: real
  conn_kind :: conn_kind

text \<open>The channel or content, the client and the kind that a key the scans find stands for.\<close>

fun conn_of_key :: "rkey \<Rightarrow> (conn_kind \<times> string \<times> string) option" where
  "conn_of_key (Live (Client_metadata c cl)) = Some (Live_conn, c, cl)"
| "conn_of_key (Timeshift_client c cl) = Some (Timeshift_conn, c, cl)"
| "conn_of_key (Vod_connection cl) = Some (Vod_conn, [], cl)"
| "conn_of_key _ = None"

text \<open>
  Whether a connection's record is this login's: \<open>None\<close> where its user is no number, which raises
  (\<open>usr\<close> is \<open>None\<close> for everybody's).
\<close>

definition is_users :: "int option \<Rightarrow> client \<Rightarrow> bool option" where
  "is_users usr h =
     (case usr of
        None \<Rightarrow> Some True
      | Some u \<Rightarrow>
          (case map_of h ''user_id'' of
             None \<Rightarrow> Some False
           | Some v \<Rightarrow> (if \<not> truthy (Some v) then Some False else map_option (\<lambda>n. n = u) (val_int v))))"

text \<open>The time it was made: \<open>None\<close> where there is one that is none, and the connection is left out.\<close>

definition since :: "client \<Rightarrow> string \<Rightarrow> real option" where
  "since h f =
     (case map_of h f of None \<Rightarrow> Some 0 | Some v \<Rightarrow> if truthy (Some v) then val_real v else Some 0)"

definition as_connection :: "conn_kind \<Rightarrow> string \<Rightarrow> string \<Rightarrow> client \<Rightarrow> connection option" where
  "as_connection kind c cl h =
     map_option (\<lambda>t. \<lparr>conn_media = (if kind = Vod_conn
                                   then (case Option.bind (map_of h ''content_uuid'') val_text of
                                           None \<Rightarrow> cl | Some x \<Rightarrow> if x = [] then cl else x)
                                   else c),
                     conn_client = cl, conn_since = t, conn_kind = kind\<rparr>)
       (since h (if kind = Vod_conn then ''created_at'' else ''connected_at''))"

definition connections_of_kind :: "'s redis_api \<Rightarrow> 's \<Rightarrow> int option \<Rightarrow> conn_kind \<Rightarrow> connection option option list" where
  "connections_of_kind R s usr kind =
     List.map_filter (\<lambda>k. case conn_of_key k of
         None \<Rightarrow> None
       | Some (kd, c, cl) \<Rightarrow>
           (if kd \<noteq> kind then None
            else Some (map_option (\<lambda>mine. if mine then as_connection kind c cl (r_hash R s k) else None)
                         (is_users usr (r_hash R s k))))) (r_hkeys R s)"

text \<open>An error on any connection's record leaves none.\<close>

definition get_user_active_connections :: "'s redis_api \<Rightarrow> 's \<Rightarrow> int option \<Rightarrow> connection list" where
  "get_user_active_connections R s usr =
     (let found = concat (map (connections_of_kind R s usr) [Live_conn, Timeshift_conn, Vod_conn])
      in if None \<in> set found then [] else List.map_filter (\<lambda>x. Option.bind x id) found)"

section \<open>Ending a connection\<close>

text \<open>
  \<open>ChannelService.stop_client\<close>: whether it was found, whether \<open>handle_client_disconnect\<close> is to
  run, and what is published.
\<close>

definition stop_client ::
  "'s redis_api \<Rightarrow> env \<Rightarrow> site \<Rightarrow> live_config \<Rightarrow> ('s \<Rightarrow> string \<Rightarrow> rkey list) \<Rightarrow> string \<Rightarrow> string \<Rightarrow> worker \<Rightarrow> 's \<Rightarrow>
   bool \<times> bool \<times> live_event list \<times> worker \<times> 's" where
  "stop_client R e X g scan c cl w s =
     (let (there, s1) = check_if_channel_exists R e X scan w c
                          (r_setex R s (Live (Client_stop c cl)) 30 (VStr ''true'')) in
      if \<not> there then (False, False, [], w, s1)
      else if cl \<in> set (local_clients w c)
      then (let (handle, es, w1, s2) = remove_client R g (now e) w c cl s1 in (True, handle, es, w1, s2))
      else (True, False, [Client_stop_event c cl], w, s1))"

text \<open>
  The ids a stream of this viewer may look for its stop under. \<open>gens\<close> as in \<open>end_viewing\<close>.
\<close>

definition timeshift_stop_channel_ids ::
  "'s redis_api \<Rightarrow> ('s \<Rightarrow> string \<Rightarrow> string list) \<Rightarrow> string \<Rightarrow> string \<Rightarrow> 's \<Rightarrow> string list" where
  "timeshift_stop_channel_ids R gens sc cl s =
     (let vid = entry_text (r_hash R s (Timeshift_client sc cl)) ''programme_vid''
      in rev (remdups (rev (filter (\<lambda>x. x \<noteq> [])
           ((if vid = [] then sc else vid) # (if cl = [] then [] else gens s cl))))))"

definition set_timeshift_stop_keys ::
  "'s redis_api \<Rightarrow> ('s \<Rightarrow> string \<Rightarrow> string list) \<Rightarrow> string \<Rightarrow> string \<Rightarrow> stop_reason \<Rightarrow> 's \<Rightarrow> 's" where
  "set_timeshift_stop_keys R gens sc cl reason s =
     foldl (\<lambda>t vid. r_setex R t (Catchup_stop vid cl) 60 (VStr (reason_text reason))) s
       (timeshift_stop_channel_ids R gens sc cl s)"

text \<open>\<open>stop_timeshift_client\<close>; closing a socket of this worker is left out.\<close>

definition stop_timeshift_client ::
  "'s redis_api \<Rightarrow> ('s \<Rightarrow> string \<Rightarrow> string list) \<Rightarrow> string \<Rightarrow> string \<Rightarrow> 's \<Rightarrow> bool \<times> 's" where
  "stop_timeshift_client R gens sc cl s =
     (if sc = [] \<or> cl = [] then (False, s)
      else
        (let s1 = set_timeshift_stop_keys R gens sc cl Admin s;
             (_, s2) = end_viewing R gens sc cl (clear_stats_grace_schedule R sc cl s1)
         in (True, r_del R s2 (Catchup_superseded cl))))"

section \<open>The limit\<close>

record limit_settings =
  terminate_on_limit_exceeded :: bool
  prioritize_single_client_channels :: bool
  ignore_same_channel_connections :: bool
  terminate_oldest :: bool

record limited_user =
  lu_id :: int
  stream_limit :: int

definition channel_count :: "connection list \<Rightarrow> string \<Rightarrow> nat" where
  "channel_count cs m = length (filter (\<lambda>c. conn_media c = m) cs)"

definition termination_key :: "limit_settings \<Rightarrow> connection list \<Rightarrow> connection \<Rightarrow> nat \<times> nat \<times> real" where
  "termination_key st cs c =
     (let multi = 1 < channel_count cs (conn_media c) in
      (if ignore_same_channel_connections st \<and> multi then 1 else 0,
       if prioritize_single_client_channels st \<and> \<not> multi then 0 else 1,
       if terminate_oldest st then conn_since c else - conn_since c))"

text \<open>Sorted by that key; equal ones stay in the order they were found in.\<close>

definition termination_targets :: "limit_settings \<Rightarrow> connection list \<Rightarrow> connection list" where
  "termination_targets st cs =
     (case sort_key (termination_key st cs) cs of
        [] \<Rightarrow> []
      | target # _ \<Rightarrow>
          (if ignore_same_channel_connections st then filter (\<lambda>c. conn_media c = conn_media target) cs else [target]))"

definition end_connection ::
  "'s redis_api \<Rightarrow> env \<Rightarrow> site \<Rightarrow> live_config \<Rightarrow> ('s \<Rightarrow> string \<Rightarrow> rkey list) \<Rightarrow> ('s \<Rightarrow> string \<Rightarrow> string list) \<Rightarrow>
   connection \<Rightarrow> worker \<times> 's \<Rightarrow> worker \<times> 's" where
  "end_connection R e X g scan gens c ws =
     (let (w, s) = ws in
      case conn_kind c of
        Live_conn \<Rightarrow> (let (_, _, _, w1, s1) = stop_client R e X g scan (conn_media c) (conn_client c) w s in (w1, s1))
      | Timeshift_conn \<Rightarrow> (w, set_timeshift_stop_keys R gens (conn_media c) (conn_client c) Limit s)
      | Vod_conn \<Rightarrow>
          (w, if r_hash R s (Vod_connection (conn_client c)) = [] then s
              else r_setex R s (Vod_stop (conn_client c)) 60 (VStr ''true'')))"

definition attempt_stream_termination ::
  "'s redis_api \<Rightarrow> env \<Rightarrow> site \<Rightarrow> live_config \<Rightarrow> ('s \<Rightarrow> string \<Rightarrow> rkey list) \<Rightarrow> ('s \<Rightarrow> string \<Rightarrow> string list) \<Rightarrow>
   limit_settings \<Rightarrow> connection list \<Rightarrow> worker \<times> 's \<Rightarrow> bool \<times> worker \<times> 's" where
  "attempt_stream_termination R e X g scan gens st cs ws =
     (let targets = termination_targets st cs
      in (targets \<noteq> [], fold (end_connection R e X g scan gens) targets ws))"

text \<open>The digits before an underscore, with which a look back request begins (\<open>^(\d+)_\<close>).\<close>

definition channel_prefix :: "string \<Rightarrow> string option" where
  "channel_prefix m =
     (case split_first (CHR ''_'') m of
        None \<Rightarrow> None
      | Some (d, _) \<Rightarrow> if d \<noteq> [] \<and> (\<forall>c \<in> set d. is_digit c) then Some d else None)"

text \<open>\<open>parse_stats_channel_id\<close>: the channel, where a session follows it.\<close>

definition stats_channel :: "string \<Rightarrow> string" where
  "stats_channel m =
     (case split_first (CHR ''_'') m of
        None \<Rightarrow> m
      | Some (d, rest) \<Rightarrow>
          (if d \<noteq> [] \<and> (\<forall>c \<in> set d. is_digit c) \<and> rest \<noteq> []
           then (case parse_int d of None \<Rightarrow> d | Some n \<Rightarrow> dec n) else d))"

definition same_timeshift_session :: "string \<Rightarrow> string \<Rightarrow> connection \<Rightarrow> bool" where
  "same_timeshift_session cl media c \<longleftrightarrow>
     conn_kind c = Timeshift_conn \<and> conn_client c = cl \<and>
     (conn_media c = media \<or> starts_with (conn_media c) (media @ ''_'') \<or>
      channel_prefix media = Some (stats_channel (conn_media c)))"

definition stream_count :: "limit_settings \<Rightarrow> connection list \<Rightarrow> nat" where
  "stream_count st cs =
     (if ignore_same_channel_connections st then length (remdups (map conn_media cs)) else length cs)"

definition check_user_stream_limits ::
  "'s redis_api \<Rightarrow> env \<Rightarrow> site \<Rightarrow> live_config \<Rightarrow> ('s \<Rightarrow> string \<Rightarrow> rkey list) \<Rightarrow> ('s \<Rightarrow> string \<Rightarrow> string list) \<Rightarrow>
   limit_settings \<Rightarrow> limited_user option \<Rightarrow> string \<Rightarrow> string \<Rightarrow> worker \<times> 's \<Rightarrow> bool \<times> worker \<times> 's" where
  "check_user_stream_limits R e X g scan gens st usr cl media ws =
     (case usr of
        None \<Rightarrow> (True, ws)
      | Some u \<Rightarrow>
          (if stream_limit u \<le> 0 then (True, ws)
           else
             (let cs = get_user_active_connections R (snd ws) (Some (lu_id u)) in
              if ignore_same_channel_connections st \<and> media \<noteq> [] \<and>
                 media \<in> conn_media ` set (filter (\<lambda>c. conn_kind c = Live_conn) cs) then (True, ws)
              else if media \<noteq> [] \<and> cl \<noteq> [] \<and> (\<exists>c \<in> set cs. same_timeshift_session cl media c) then (True, ws)
              else if int (stream_count st cs) < stream_limit u then (True, ws)
              else if \<not> terminate_on_limit_exceeded st then (False, ws)
              else attempt_stream_termination R e X g scan gens st cs ws)))"

section \<open>Finding a transport stream\<close>

definition find_ts_sync :: "nat list \<Rightarrow> nat option" where
  "find_ts_sync buf =
     List.find (\<lambda>i. buf ! i = 71 \<and> buf ! (i + 188) = 71 \<and> buf ! (i + 376) = 71) [0 ..< length buf - 376]"

end
