(* ===== verification/One_Device.thy ===== *)
theory One_Device
  imports User_Limits Watch_Together
begin

text \<open>
  Logins that play on one of their app's devices at a time (\<^verbatim>\<open>live_proxy/app_one_device.py\<close>): what a
  device that starts something closes on the login's others, and how a device that was replaced is
  refused until it takes over or the other is done.
\<close>

section \<open>Who it is for\<close>

definition STARTING_SECONDS :: real where "STARTING_SECONDS = 20"
definition REPLACED_TTL :: int where "REPLACED_TTL = 24 * 3600"
definition CLIENT_DEVICE_TTL :: int where "CLIENT_DEVICE_TTL = 12 * 3600"
definition UNNAMED :: string where "UNNAMED = ''another device''"

definition chosen_users :: "settings \<Rightarrow> string list" where
  "chosen_users st = filter (\<lambda>u. u \<noteq> []) (split_on (CHR '','') (text_of st ''one_device_users''))"

definition applies_to :: "settings \<Rightarrow> viewer option \<Rightarrow> int option" where
  "applies_to st v =
     (case v of
        None \<Rightarrow> None
      | Some w \<Rightarrow>
          (case user_id w of
             None \<Rightarrow> None
           | Some u \<Rightarrow>
               (if recording w \<or> u = 0 \<or> \<not> is_declared (server_device w) \<or> \<not> switch_on st ''devices'' \<or>
                   dec u \<notin> set (chosen_users st)
                then None else Some u)))"

text \<open>What a device calls itself, kept with its login's name and the time.\<close>

definition plain_name :: "'s redis_api \<Rightarrow> 's \<Rightarrow> string \<Rightarrow> string" where
  "plain_name R s d = (case r_hget R s Device_names d of Some (VPair (VStr n) _) \<Rightarrow> strip n | _ \<Rightarrow> [])"

definition remember_name :: "'s redis_api \<Rightarrow> real \<Rightarrow> string \<Rightarrow> string \<Rightarrow> string \<Rightarrow> 's \<Rightarrow> 's" where
  "remember_name R t d spoken login s =
     (let name = take 80 spoken;
          kept = (if name \<noteq> [] then name
                  else case r_hget R s Device_names d of Some (VPair (VStr n) _) \<Rightarrow> n | _ \<Rightarrow> [])
      in if d = [] then s
         else r_expire R (r_hset R s Device_names d (VPair (VStr kept) (VPair (VStr login) (VTime t))))
                Device_names (30 * 24 * 3600))"

section \<open>What the login's devices hold\<close>

type_synonym held = "conn_kind \<times> string \<times> string"

definition live_clients_by_device :: "'s redis_api \<Rightarrow> 's \<Rightarrow> int \<Rightarrow> (string \<times> held) list" where
  "live_clients_by_device R s u =
     List.map_filter (\<lambda>k. case k of
         Live (Client_metadata c cl) \<Rightarrow>
           (let h = r_hash R s k; d = text_or [] (client_field h ''server_device'') in
            if \<not> is_declared (Some d) \<or> client_field h ''user_id'' \<noteq> Some (dec u) then None
            else Some (d, Live_conn, c, cl))
       | _ \<Rightarrow> None) (r_hkeys R s)"

definition note_client :: "'s redis_api \<Rightarrow> string \<Rightarrow> string \<Rightarrow> 's \<Rightarrow> 's" where
  "note_client R cl d s = (if cl = [] then s else r_setex R s (Client_device cl) CLIENT_DEVICE_TTL (VStr d))"

definition streams_by_device :: "'s redis_api \<Rightarrow> 's \<Rightarrow> int \<Rightarrow> (string \<times> held) list" where
  "streams_by_device R s u =
     live_clients_by_device R s u @
     List.map_filter (\<lambda>c.
        (let d = text_or [] (Option.bind (r_get R s (Client_device (conn_client c))) val_text) in
         if conn_kind c = Live_conn \<or> \<not> is_declared (Some d) then None
         else Some (d, conn_kind c, conn_media c, conn_client c)))
       (get_user_active_connections R s (Some u))"

definition devices_of :: "(string \<times> held) list \<Rightarrow> string list" where
  "devices_of hs = rev (remdups (rev (map fst hs)))"

section \<open>Closing what a replaced device holds\<close>

record 's surroundings =
  sur_env :: env
  sur_site :: site
  sur_config :: live_config
  sur_scan :: "'s \<Rightarrow> string \<Rightarrow> rkey list"
  sur_gens :: "'s \<Rightarrow> string \<Rightarrow> string list"

text \<open>Its client alone where others are on the channel or the new device asks for it, else the channel.\<close>

definition close_client ::
  "'s redis_api \<Rightarrow> 's surroundings \<Rightarrow> string \<Rightarrow> string \<Rightarrow> string \<Rightarrow> bool \<Rightarrow> worker \<times> 's \<Rightarrow> worker \<times> 's" where
  "close_client R E c cl d keep_channel ws =
     (let (w, s) = ws;
          others = filter (\<lambda>h. text_or [] (client_field h ''server_device'') \<noteq> d) (channel_clients R s c)
      in if keep_channel \<or> others \<noteq> [] \<or> dispatcharr_is_stopping R s c
         then (let (_, _, _, w1, s1) = stop_client R (sur_env E) (sur_site E) (sur_config E) (sur_scan E) c cl w s in (w1, s1))
         else (w, forget_clients R c (stop_channel_now R (sur_env E) (sur_site E) False c s)))"

definition close_stream ::
  "'s redis_api \<Rightarrow> 's surroundings \<Rightarrow> string list \<Rightarrow> string \<Rightarrow> held \<Rightarrow> worker \<times> 's \<Rightarrow> worker \<times> 's" where
  "close_stream R E asked d x ws =
     (case x of
        (kind, media, cl) \<Rightarrow>
          (case kind of
             Timeshift_conn \<Rightarrow> (fst ws, snd (stop_timeshift_client R (sur_gens E) media cl (snd ws)))
           | Vod_conn \<Rightarrow> (fst ws, r_setex R (snd ws) (Vod_stop cl) 60 (VStr ''true''))
           | Live_conn \<Rightarrow> close_client R E media cl d (media \<in> set asked) ws))"

definition joins_running_channel :: "'s redis_api \<Rightarrow> 's \<Rightarrow> string \<Rightarrow> bool" where
  "joins_running_channel R s c \<longleftrightarrow>
     c \<noteq> [] \<and>
     (case channel_state_of R s c of None \<Rightarrow> False | Some st \<Rightarrow> st \<in> set (map state_text (Active # PRE_ACTIVE))) \<and>
     \<not> (dispatcharr_is_stopping R s c \<or> r_exists R s (Skipped_stopping c))"

section \<open>The check of a request\<close>

text \<open>The answer of a refusal, and what the replaced device is told: its key and who took over.\<close>

datatype refusal = Playing_on string string

definition refuse :: "string \<Rightarrow> string \<Rightarrow> refusal" where
  "refuse name by = Playing_on (if name = [] then UNNAMED else name) (device_id by)"

definition replaced_key :: "int \<Rightarrow> string \<Rightarrow> rkey" where
  "replaced_key u d = Replaced (dec u) d"

text \<open>What is remembered of a replaced device: by whom, that one's name, and when.\<close>

definition replaced_by :: "rval option \<Rightarrow> (string \<times> string \<times> real) option" where
  "replaced_by v =
     (case v of Some (VPair (VStr by) (VPair (VStr name) (VTime t))) \<Rightarrow> Some (by, name, t) | _ \<Rightarrow> None)"

definition replace_device ::
  "'s redis_api \<Rightarrow> 's surroundings \<Rightarrow> int \<Rightarrow> string \<Rightarrow> string \<Rightarrow> string list \<Rightarrow> (string \<times> held) list \<Rightarrow> string \<Rightarrow>
   worker \<times> 's \<Rightarrow> worker \<times> 's" where
  "replace_device R E u me name asked holding d ws =
     fold (close_stream R E asked d) (map snd (filter (\<lambda>x. fst x = d) holding))
       (fst ws, r_setex R (snd ws) (replaced_key u d) REPLACED_TTL
                  (VPair (VStr me) (VPair (VStr name) (VTime (now (sur_env E))))))"

text \<open>The request goes on, after the login's other devices were replaced.\<close>

definition replace_others ::
  "'s redis_api \<Rightarrow> 's surroundings \<Rightarrow> int \<Rightarrow> string \<Rightarrow> string list \<Rightarrow> (string \<times> held) list \<Rightarrow> worker \<Rightarrow> 's \<Rightarrow>
   refusal option \<times> string list \<times> worker \<times> 's" where
  "replace_others R E u me channels holding w s =
     (None, devices_of holding,
      fold (replace_device R E u me (plain_name R s me) (filter (\<lambda>c. c \<noteq> []) channels) holding) (devices_of holding) (w, s))"

text \<open>
  The answer, the devices that are told that they were replaced, and the store. A record of a
  replacement that cannot be read raises, and the request goes on.
\<close>

definition check_device ::
  "'s redis_api \<Rightarrow> 's surroundings \<Rightarrow> settings \<Rightarrow> viewer option \<Rightarrow> bool \<Rightarrow> string list \<Rightarrow> string \<Rightarrow> worker \<times> 's \<Rightarrow>
   refusal option \<times> string list \<times> worker \<times> 's" where
  "check_device R E st v take_over channels cl ws =
     (case applies_to st v of
        None \<Rightarrow> (None, [], ws)
      | Some u \<Rightarrow>
          (let me = text_or [] (Option.bind v server_device); (w, s) = ws in
           if channels \<noteq> [] \<and> joins_running_channel R s (last channels) then (None, [], ws)
           else
             (let s1 = note_client R cl me s;
                  together = linked_with R s1 me;
                  holding = filter (\<lambda>x. fst x \<noteq> me \<and> fst x \<notin> set together) (streams_by_device R s1 u);
                  mine = replaced_key u me;
                  replaced = r_get R s1 mine;
                  go_on = replace_others R E u me channels holding w
              in if \<not> truthy replaced then go_on s1
                 else case replaced_by replaced of
                        None \<Rightarrow> (None, [], (w, s1))
                      | Some (by, name, t) \<Rightarrow>
                          (if \<not> (take_over \<or> by \<in> set together) \<and>
                              (by \<in> set (devices_of holding) \<or> now (sur_env E) - t < STARTING_SECONDS)
                           then (Some (refuse name by), [], (w, s1))
                           else go_on (r_del R s1 mine)))))"

text \<open>A look back or a movie leaves the group a device watches together with first.\<close>

definition check_request ::
  "'s redis_api \<Rightarrow> 's surroundings \<Rightarrow> settings \<Rightarrow> viewer option \<Rightarrow> bool \<Rightarrow> string \<Rightarrow> worker \<times> 's \<Rightarrow>
   refusal option \<times> string list \<times> worker \<times> 's" where
  "check_request R E st v take_over cl ws =
     (let s = (case Option.bind v server_device of
                 None \<Rightarrow> snd ws
               | Some d \<Rightarrow> (if d \<noteq> [] \<and> links_enabled st then snd (leave_group R d (snd ws)) else snd ws))
      in check_device R E st v take_over [] cl (fst ws, s))"

end
