(* ===== verification/Catchup_Views.thy ===== *)
theory Catchup_Views
  imports Catchup_Sessions
begin

text \<open>
  What a look back viewer can rely on: a viewing that ended cannot be replayed, one that came back
  in time is not ended, and a player's position is shown as it said.
\<close>

section \<open>What the operations leave alone\<close>

lemma foldl_keeps:
  assumes "\<And>t x. P t \<Longrightarrow> P (f t x)" and "P s"
  shows "P (foldl f s xs)"
  using assms(2) by (induction xs arbitrary: s) (simp_all add: assms(1))

context redis
begin

lemma touch_session_frame [simp]:
  "r_get R (snd (touch_catchup_session R sess s)) = r_get R s"
  "r_hash R (snd (touch_catchup_session R sess s)) = r_hash R s"
  "r_members R (snd (touch_catchup_session R sess s)) = r_members R s"
  by (simp_all add: touch_catchup_session_def)

lemma touch_aliases_frame [simp]:
  "r_get R (touch_with_aliases R pool s) = r_get R s" "r_hash R (touch_with_aliases R pool s) = r_hash R s"
proof -
  have "r_get R t = r_get R s \<and> r_hash R t = r_hash R s"
    if "t = touch_with_aliases R pool s" for t
    unfolding that touch_with_aliases_def
    by (auto simp: Let_def split_def intro!: foldl_keeps [where P = "\<lambda>u. r_get R u = r_get R s \<and> r_hash R u = r_hash R s"])
  then show "r_get R (touch_with_aliases R pool s) = r_get R s" "r_hash R (touch_with_aliases R pool s) = r_hash R s"
    by simp_all
qed

lemma refresh_pool_frame [simp]:
  "r_get R (refresh_pool_session_ttl R t sess s) = r_get R s"
  "k \<noteq> Catchup_pool sess \<Longrightarrow> r_hash R (refresh_pool_session_ttl R t sess s) k = r_hash R s k"
  by (simp_all add: refresh_pool_session_ttl_def)

lemma refresh_session_frame [simp]:
  "r_get R (refresh_active_session_redis_ttl R t sess vid s) = r_get R s"
  "(\<And>c. k \<noteq> Catchup_pool c) \<Longrightarrow> r_hash R (refresh_active_session_redis_ttl R t sess vid s) k = r_hash R s k"
  by (simp_all add: refresh_active_session_redis_ttl_def Let_def)

lemma keep_alive_frame [simp]:
  "r_get R (keep_stats_alive R sc cl t s) = r_get R s"
  "k \<noteq> Timeshift_client sc cl \<Longrightarrow> r_hash R (keep_stats_alive R sc cl t s) k = r_hash R s k"
  "r_hget R (keep_stats_alive R sc cl t s) (Timeshift_client sc cl) f =
     (if f = ''last_active'' then Some (VTime t) else r_hget R s (Timeshift_client sc cl) f)"
  by (simp_all add: keep_stats_alive_def)

lemma clear_grace_frame [simp]:
  "r_get R (clear_stats_grace_schedule R sc cl s) = (r_get R s)(Timeshift_grace sc cl := None)"
  "r_hget R (clear_stats_grace_schedule R sc cl s) (Timeshift_client sc cl) ''stats_grace_deadline'' = None"
  "f \<noteq> ''stats_grace_deadline'' \<Longrightarrow> f \<noteq> ''stats_grace_disconnected_at'' \<Longrightarrow>
   r_hget R (clear_stats_grace_schedule R sc cl s) (Timeshift_client sc cl) f = r_hget R s (Timeshift_client sc cl) f"
  "k \<noteq> Timeshift_client sc cl \<Longrightarrow> k \<noteq> Timeshift_grace sc cl \<Longrightarrow>
   r_hash R (clear_stats_grace_schedule R sc cl s) k = r_hash R s k"
  by (simp_all add: clear_stats_grace_schedule_def Let_def)

lemma unregister_gone:
  "r_hash R (unregister_stats_client R sc cl s) (Timeshift_client sc cl) = []"
  "cl \<notin> set (r_members R (unregister_stats_client R sc cl s) (Timeshift_clients sc))"
  by (simp_all add: unregister_stats_client_def Let_def)

lemma unregister_frame [simp]:
  "r_members R (unregister_stats_client R sc cl s) (Catchup_aliases a) = r_members R s (Catchup_aliases a)"
  by (simp add: unregister_stats_client_def Let_def)

lemma cleanup_generations_frame [simp]:
  "(\<And>v c. k \<noteq> Catchup_generation v c) \<Longrightarrow> r_members R (cleanup_all_stream_generations R vids cl s) k = r_members R s k"
  "(\<And>v c. k \<noteq> Catchup_generation v c) \<Longrightarrow> r_hash R (cleanup_all_stream_generations R vids cl s) k = r_hash R s k"
  using foldl_keeps [where P = "\<lambda>u. r_members R u k = r_members R s k \<and> r_hash R u k = r_hash R s k" and s = s and xs = vids and
      f = "\<lambda>t vid. r_del R t (Catchup_generation vid cl)"]
  by (auto simp: cleanup_all_stream_generations_def)

lemma delete_session:
  "r_hash R (delete_catchup_session R a s) k = (if a \<noteq> [] \<and> k = Catchup_session a then [] else r_hash R s k)"
  "r_get R (delete_catchup_session R a s) k = (if a \<noteq> [] \<and> k = Catchup_session a then None else r_get R s k)"
  "r_members R (delete_catchup_session R a s) k = (if a \<noteq> [] \<and> k = Catchup_session a then [] else r_members R s k)"
  by (simp_all add: delete_catchup_session_def)

lemma delete_sessions:
  "r_hash R (foldl (\<lambda>u a. delete_catchup_session R a u) s as) k =
     (if \<exists>a. a \<in> set as \<and> a \<noteq> [] \<and> k = Catchup_session a then [] else r_hash R s k)"
  "r_get R (foldl (\<lambda>u a. delete_catchup_session R a u) s as) k =
     (if \<exists>a. a \<in> set as \<and> a \<noteq> [] \<and> k = Catchup_session a then None else r_get R s k)"
  "r_members R (foldl (\<lambda>u a. delete_catchup_session R a u) s as) k =
     (if \<exists>a. a \<in> set as \<and> a \<noteq> [] \<and> k = Catchup_session a then [] else r_members R s k)"
  by (induction as arbitrary: s) (auto simp: delete_session)

lemma finalized:
  assumes "a = cl \<or> a \<in> set (r_members R s (Catchup_aliases cl))"
  shows "cl \<noteq> [] \<Longrightarrow> get_catchup_session R (snd (finalize_playback_session_auth R cl s)) a = []"
  using assms
  by (auto simp: finalize_playback_session_auth_def get_catchup_session_def delete_sessions aliases_of_def Let_def
      catchup_session_exists_def delete_session r_exists_def)

lemma finalized_frame [simp]:
  "(\<And>a. k \<noteq> Catchup_session a) \<Longrightarrow> r_hash R (snd (finalize_playback_session_auth R cl s)) k = r_hash R s k"
  "(\<And>a. k \<noteq> Catchup_session a) \<Longrightarrow> r_members R (snd (finalize_playback_session_auth R cl s)) k = r_members R s k"
  by (auto simp: finalize_playback_session_auth_def delete_sessions Let_def delete_session)

lemma viewing_ended:
  assumes "cl \<noteq> []" "a = cl \<or> a \<in> set (r_members R s (Catchup_aliases cl))"
  shows "get_catchup_session R (snd (end_viewing R gens sc cl s)) a = []"
    "r_hash R (snd (end_viewing R gens sc cl s)) (Timeshift_client sc cl) = []"
    "cl \<notin> set (r_members R (snd (end_viewing R gens sc cl s)) (Timeshift_clients sc))"
  using assms unregister_gone by (simp_all add: end_viewing_def Let_def finalized)

lemma complete_without_deadline:
  "r_hget R s (Timeshift_client sc cl) ''stats_grace_deadline'' = None \<Longrightarrow> complete_expired_stats_grace R gens t sc cl s = s"
  by (simp add: complete_expired_stats_grace_def Let_def)

lemma touched:
  assumes "r_exists R s (Timeshift_client (dec channel @ ''_'' @ sess) sess)" "sess \<noteq> []"
  shows "r_get R (touch_stats_on_session_request R gens t channel sess s) =
      (r_get R s)(Timeshift_grace (dec channel @ ''_'' @ sess) sess := None)"
    "f \<noteq> ''stats_grace_deadline'' \<Longrightarrow> f \<noteq> ''stats_grace_disconnected_at'' \<Longrightarrow>
     r_hget R (touch_stats_on_session_request R gens t channel sess s) (Timeshift_client (dec channel @ ''_'' @ sess) sess) f =
      (if f = ''last_active'' then Some (VTime t) else r_hget R s (Timeshift_client (dec channel @ ''_'' @ sess) sess) f)"
  using assms by (simp_all add: touch_stats_on_session_request_def Let_def complete_without_deadline)

lemma scheduled_frame [simp]:
  "r_hget R (schedule_stats_disconnect_grace R t tok sc cl s) k f =
     (if k = Timeshift_client sc cl \<and> f = ''stats_grace_deadline''
      then Some (VTime (t + STATS_RECONNECT_SETTLE_SECONDS + STATS_DISCONNECT_GRACE_SECONDS))
      else if k = Timeshift_client sc cl \<and> f = ''stats_grace_disconnected_at'' then Some (VTime t) else r_hget R s k f)"
  by (cases "k = Timeshift_client sc cl") (simp_all add: schedule_stats_disconnect_grace_def hget_hset_all)

lemma exists_field: "r_hget R s k f = Some v \<Longrightarrow> r_exists R s k"
  by (auto simp: r_exists_def)

end

context redis
begin

lemma grace_ends_viewing:
  assumes "cl \<noteq> []" "grace_token_claimed R sc cl tok s" "\<not> pool_session_busy R s cl"
    and "\<not> stats_client_reconnected R sc cl left s"
    and "a = cl \<or> a \<in> set (aliases_of R s cl)"
    and "s' = run_stats_disconnect_grace R gens sc cl tok left s"
  shows "get_catchup_session R s' a = [] \<and>
    r_hash R s' (Timeshift_client sc cl) = [] \<and> cl \<notin> set (r_members R s' (Timeshift_clients sc))"
proof -
  let ?s1 = "r_del R s (Timeshift_grace sc cl)"
  have "a = cl \<or> a \<in> set (r_members R ?s1 (Catchup_aliases cl))" using assms(1,5) by (simp add: aliases_of_def)
  note ended = viewing_ended [OF assms(1) this, of gens sc]
  have "pool_session_busy R ?s1 cl = pool_session_busy R s cl"
    "stats_client_reconnected R sc cl left ?s1 = stats_client_reconnected R sc cl left s"
    by (simp_all add: pool_session_busy_def stats_client_reconnected_def)
  then have frame: "r_hash R s' k = r_hash R (snd (end_viewing R gens sc cl ?s1)) k \<and>
      r_members R s' k = r_members R (snd (end_viewing R gens sc cl ?s1)) k"
    if "\<And>c. k \<noteq> Catchup_pool c" "\<And>c. k \<noteq> Catchup_superseded c" for k
    using assms(2-4,6) that
    by (simp add: run_stats_disconnect_grace_def Let_def split_def discard_pool_session_def)
  then have "get_catchup_session R s' a = []" using ended(1) by (simp add: get_catchup_session_def split: if_splits)
  then show ?thesis using ended(2,3) frame by simp
qed

end

lemma paused_texts [simp]: "client_paused (Some (VStr ''1''))" "\<not> client_paused None"
  by code_simp+

context redis
begin

lemma one_record:
  assumes "\<And>c. r_hash R s (Timeshift_client c sess) \<noteq> [] \<Longrightarrow> c = sc" "r_hash R s (Timeshift_client sc sess) \<noteq> []" "sess \<noteq> []"
  shows "find_stats_channel_for_session R s sess = Some sc"
proof -
  let ?xs = "List.map_filter (\<lambda>k. case k of Timeshift_client sc cl \<Rightarrow> if cl = sess then Some sc else None | _ \<Rightarrow> None) (r_hkeys R s)"
  have "c = sc" if listed: "c \<in> set ?xs" for c
  proof -
    obtain k where "k \<in> set (r_hkeys R s)" and k:
        "(case k of Timeshift_client sc cl \<Rightarrow> if cl = sess then Some sc else None | _ \<Rightarrow> None) = Some c"
      using listed unfolding map_filter_member by blast
    then have "r_hash R s k \<noteq> []" by (simp add: set_hkeys)
    moreover have "k = Timeshift_client c sess" using k by (cases k) (simp_all split: if_splits)
    ultimately show ?thesis using assms(1) by simp
  qed
  moreover have "sc \<in> set ?xs"
  proof -
    have "Timeshift_client sc sess \<in> set (r_hkeys R s)" using assms(2) by (simp add: set_hkeys)
    then show ?thesis unfolding map_filter_member by (rule bexI [rotated]) simp
  qed
  ultimately obtain cs where "?xs = sc # cs" by (cases ?xs) (simp, metis list.set_intros(1))
  then show ?thesis using assms(3) by (simp add: find_stats_channel_for_session_def)
qed

lemma position_updated:
  assumes "find_stats_channel_for_session R s sess = Some sc"
    and "update_catchup_session_position R t sess p (Some paused) usr s = (True, s')"
  shows "r_hget R s' (Timeshift_client sc sess) ''playback_base_secs'' = Some (VTime p)"
    "r_hget R s' (Timeshift_client sc sess) ''position_anchor_at'' = Some (VTime t)"
    "client_paused (r_hget R s' (Timeshift_client sc sess) ''paused'') = paused"
    "k \<noteq> Timeshift_client sc sess \<Longrightarrow> r_hash R s' k = r_hash R s k"
proof -
  let ?k = "Timeshift_client sc sess"
  let ?s1 = "hset_all R ?k [(''playback_base_secs'', VTime p), (''position_anchor_at'', VTime t), (''last_active'', VTime t)] s"
  let ?s2 = "if paused then r_hset R ?s1 ?k ''paused'' (VStr ''1'') else r_hdel R ?s1 ?k ''paused''"
  have "sess \<noteq> []" using assms(1) by (auto simp: find_stats_channel_for_session_def)
  then have "s' = snd (touch_catchup_session R sess (r_expire R (r_expire R (r_expire R ?s2 ?k CLIENT_TTL_SECONDS)
      (Timeshift_clients sc) CLIENT_TTL_SECONDS) (Timeshift_metadata sc) CLIENT_TTL_SECONDS))"
    using assms(2) unfolding update_catchup_session_position_def assms(1) Let_def option.case
    by (cases paused) (simp_all split: if_splits)
  then have s': "r_hash R s' = r_hash R ?s2" by simp
  show "r_hget R s' ?k ''playback_base_secs'' = Some (VTime p)" "r_hget R s' ?k ''position_anchor_at'' = Some (VTime t)"
    "client_paused (r_hget R s' ?k ''paused'') = paused"
    unfolding s' by (cases paused; simp add: hget_hset_all)+
  show "r_hash R s' k = r_hash R s k" if "k \<noteq> ?k" unfolding s' using that by (cases paused) simp_all
qed

lemma position_shown:
  assumes "\<And>c. r_hash R s (Timeshift_client c sess) \<noteq> [] \<Longrightarrow> c = sc"
    and "find_stats_channel_for_session R s sess = Some sc"
    and "update_catchup_session_position R t sess p (Some paused) usr s = (True, s')"
  shows "position_secs_from_stats R url_offset t' sess s' = Some (max 0 (if paused then p else p + max 0 (t' - t)))"
proof -
  note new = position_updated [OF assms(2,3)]
  have "sess \<noteq> []" using assms(2) by (auto simp: find_stats_channel_for_session_def)
  moreover have there: "r_hash R s' (Timeshift_client sc sess) \<noteq> []" using new(1) by auto
  moreover have "c = sc" if "r_hash R s' (Timeshift_client c sess) \<noteq> []" for c
    using that assms(1) new(4) by (cases "c = sc") auto
  ultimately have "find_stats_channel_for_session R s' sess = Some sc" by (intro one_record)
  then show ?thesis
    using there new(1-3) by (simp add: position_secs_from_stats_def compute_playback_position_secs_def Let_def)
qed

end

section \<open>Properties\<close>

text \<open>
  C24: When the grace after a disconnect ends a viewing, it cannot be played again: the record of the
  viewer is gone, and neither its session nor any API session that was served under it lets a player
  stream, for any channel and any user.
\<close>

theorem ended_viewing_not_replayable:
  assumes "redis R" "cl \<noteq> []" "grace_token_claimed R sc cl tok s" "\<not> pool_session_busy R s cl"
    and "\<not> stats_client_reconnected R sc cl left s"
    and "a = cl \<or> a \<in> set (aliases_of R s cl)"
    and "s' = run_stats_disconnect_grace R gens sc cl tok left s"
  shows "fst (resolve_catchup_playback R active_user a channel s') = None \<and>
    r_hash R s' (Timeshift_client sc cl) = [] \<and> cl \<notin> set (r_members R s' (Timeshift_clients sc))"
  using redis.grace_ends_viewing [OF assms] by (simp add: resolve_catchup_playback_def)

text \<open>
  A viewer that comes back before its grace is over stays: after the request by which it came
  back, neither look of the task that was waiting to end its viewing does anything, whatever became
  of its slot.
\<close>

theorem viewer_that_came_back_stays:
  assumes "redis R" "sess \<noteq> []" "sc = dec channel @ ''_'' @ sess" "r_hget R s (Timeshift_client sc sess) ''user_id'' = Some v"
    and "s1 = schedule_stats_disconnect_grace R t0 tok sc sess s"
    and "s2 = touch_stats_on_session_request R gens t channel sess s1"
  shows "settle_look R sc sess tok t0 s2 = (False, s2) \<and> run_stats_disconnect_grace R gens sc sess tok t0 s2 = s2 \<and>
    r_hget R s2 (Timeshift_client sc sess) ''user_id'' = Some v"
proof -
  have field: "r_hget R s1 (Timeshift_client sc sess) ''user_id'' = Some v"
    using assms(4,5) by (simp add: redis.scheduled_frame [OF assms(1)])
  note touched = redis.touched [OF assms(1) redis.exists_field [OF assms(1) field, unfolded assms(3)] assms(2), folded assms(3) assms(6)]
  have "\<not> grace_token_claimed R sc sess tok s2" using touched(1) by (simp add: grace_token_claimed_def assms(6))
  then show ?thesis
    using touched(2) field by (simp add: settle_look_def run_stats_disconnect_grace_def assms(6))
qed

text \<open>
  What a player says of its position is what is shown: the position it reported, with the time
  since then unless it is paused, and never before the programme's start. The session has one record.
\<close>

theorem reported_position_shown:
  assumes "redis R" "\<And>c. r_hash R s (Timeshift_client c sess) \<noteq> [] \<Longrightarrow> c = sc"
    and "find_stats_channel_for_session R s sess = Some sc"
    and "update_catchup_session_position R t sess p (Some paused) usr s = (True, s')" "t \<le> t'"
  shows "position_secs_from_stats R url_offset t' sess s' = Some (max 0 (if paused then p else p + (t' - t)))"
  using redis.position_shown [OF assms(1-4), of url_offset t'] assms(5) by simp

section \<open>Where the code does something else\<close>

text \<open>
  \<open>_redact_url\<close> drops what is before the first at sign of a URL. Where that sign is part of the
  password in the path of a provider's URL, what is kept as the host is the rest of the password.
\<close>

theorem redact_keeps_password_tail:
  assumes "CHR '':'' \<notin> set protocol" "CHR ''@'' \<notin> set before" "CHR ''/'' \<notin> set secret"
  shows "redact_url (protocol @ ''://'' @ before @ ''@'' @ secret @ ''/'' @ rest) = protocol @ ''://'' @ secret @ ''/...''"
proof -
  have "cut ''://'' (protocol @ ''://'' @ tail) = Some (protocol, tail)" for tail
    using assms(1) by (induction protocol) auto
  then show ?thesis
    using split_first_append [OF assms(2)] split_first_append [OF assms(3)] by (simp add: redact_url_def)
qed

text \<open>
  A heartbeat whose look at the grace ends the viewing writes the record again, with nothing in it
  but the time: a viewer nobody is.
\<close>

theorem heartbeat_writes_ended_viewer:
  assumes "redis R" "cl \<noteq> []" "r_hget R s (Timeshift_client sc cl) ''stats_grace_deadline'' = Some (VTime deadline)" "deadline \<le> t"
    and "r_hget R s (Timeshift_client sc cl) ''stats_grace_disconnected_at'' = Some (VTime left)"
    and "grace_token_claimed R sc cl tok s" "\<not> pool_session_busy R s cl" "\<not> stats_client_reconnected R sc cl left s"
    and "s' = heartbeat_stats_client R gens t sc cl 0 sess vid s"
  shows "r_hget R s' (Timeshift_client sc cl) ''last_active'' = Some (VTime t) \<and>
    r_hget R s' (Timeshift_client sc cl) ''user_id'' = None"
proof -
  let ?k = "Timeshift_client sc cl"
  have run: "complete_expired_stats_grace R gens t sc cl s = run_stats_disconnect_grace R gens sc cl tok left s"
    using assms(2-6) by (simp add: complete_expired_stats_grace_def Let_def grace_token_claimed_def)
  have "r_hash R (run_stats_disconnect_grace R gens sc cl tok left s) ?k = []"
    using redis.grace_ends_viewing [OF assms(1,2,6-8) disjI1 [OF refl] refl] by simp
  then show ?thesis
    using redis.exists_field [OF assms(1,3)] assms(9) redis.refresh_session_frame(2) [OF assms(1)]
      redis.keep_alive_frame(3) [OF assms(1)] redis.hash_expire [OF assms(1)]
    by (simp add: heartbeat_stats_client_def Let_def run)
qed


section \<open>A viewer of an archive\<close>

definition ex_lookback :: mem where
  "ex_lookback = mem_empty\<lparr>m_hash :=
     [(Timeshift_client ''7_a'' ''a'', [(''user_id'', VStr ''3''), (''last_active'', VTime 10)]),
      (Catchup_session ''b'', [(''user_id'', VStr ''3''), (''channel_uuid'', VStr ''c7''), (''start'', VStr ''2026-10-01'')])],
    m_get := [Timeshift_grace ''7_a'' ''a'' \<mapsto> VStr ''tok''],
    m_members := (\<lambda>k. if k = Catchup_aliases ''a'' then [''b''] else if k = Timeshift_clients ''7_a'' then [''a''] else [])\<rparr>"

lemma ex_seven: "dec 7 = ''7''" by code_simp

lemma ex_lookback_facts:
  "grace_token_claimed mem_redis ''7_a'' ''a'' ''tok'' ex_lookback" "\<not> pool_session_busy mem_redis ex_lookback ''a''"
  "\<not> stats_client_reconnected mem_redis ''7_a'' ''a'' 10 ex_lookback" "aliases_of mem_redis ex_lookback ''a'' = [''b'']"
  "fst (resolve_catchup_playback mem_redis (\<lambda>u. u = 3) ''b'' ''c7'' ex_lookback) = Some (3, ''2026-10-01'', None)"
  "r_hget mem_redis ex_lookback (Timeshift_client ''7_a'' ''a'') ''user_id'' = Some (VStr ''3'')"
  "find_stats_channel_for_session mem_redis ex_lookback ''a'' = Some ''7_a''"
  by code_simp+

theorem ended_viewing_not_replayable_witness:
  "fst (resolve_catchup_playback mem_redis (\<lambda>u. u = 3) ''b'' ''c7''
     (run_stats_disconnect_grace mem_redis (\<lambda>s cl. []) ''7_a'' ''a'' ''tok'' 10 ex_lookback)) = None"
  using ended_viewing_not_replayable [OF mem.redis_axioms _ ex_lookback_facts(1-3), of "''b''" _ "\<lambda>s cl. []" "\<lambda>u. u = 3" "''c7''", OF _ _ refl]
  by (simp add: ex_lookback_facts)

theorem viewer_that_came_back_stays_witness:
  "r_hget mem_redis (touch_stats_on_session_request mem_redis (\<lambda>s cl. []) 102 7 ''a''
     (schedule_stats_disconnect_grace mem_redis 100 ''tok2'' ''7_a'' ''a'' ex_lookback)) (Timeshift_client ''7_a'' ''a'') ''user_id'' =
   Some (VStr ''3'')"
  using viewer_that_came_back_stays [OF mem.redis_axioms _ _ ex_lookback_facts(6) refl refl,
      where channel = 7 and ?t0.0 = 100 and tok = "''tok2''" and gens = "\<lambda>s cl. []" and t = 102]
  by (simp add: ex_seven)

theorem reported_position_shown_witness:
  "position_secs_from_stats mem_redis None 130 ''a''
     (snd (update_catchup_session_position mem_redis 100 ''a'' 1800 (Some False) (Some 3) ex_lookback)) = Some 1830"
proof -
  have "fst (update_catchup_session_position mem_redis 100 ''a'' 1800 (Some False) (Some 3) ex_lookback)" by code_simp
  then have "update_catchup_session_position mem_redis 100 ''a'' 1800 (Some False) (Some 3) ex_lookback =
    (True, snd (update_catchup_session_position mem_redis 100 ''a'' 1800 (Some False) (Some 3) ex_lookback))"
    by (simp add: prod_eq_iff)
  moreover have "c = ''7_a''" if "r_hash mem_redis ex_lookback (Timeshift_client c ''a'') \<noteq> []" for c
    using that by (auto simp: mem_redis_simps ex_lookback_def mem_empty_def mem_lookup_def split: if_splits)
  ultimately show ?thesis
    using reported_position_shown [OF mem.redis_axioms _ ex_lookback_facts(7)] by simp
qed

end
