(* ===== verification/Lease_Interface.thy ===== *)
theory Lease_Interface
  imports Main
begin

text \<open>
  What the workers rely on when they own a channel by a lease in Redis: a take succeeds for the
  first and for the one that has it, only its owner gives it up, and prolonging it changes the
  owner only where there was none. The lemmas are about any run of these by any workers: who was
  told that he owns it, and has not given it up, does own it.
\<close>

datatype 'w lease_op = Take (op_worker: 'w) | Prolong (op_worker: 'w) | Give_up (op_worker: 'w)

text \<open>
  A run, with the ids of the workers that were told that they own it and have not given it up.
\<close>

fun lease_run ::
  "('w \<Rightarrow> 'i) \<Rightarrow> ('w \<Rightarrow> 's \<Rightarrow> bool \<times> 's) \<Rightarrow> ('w \<Rightarrow> 's \<Rightarrow> bool \<times> 's) \<Rightarrow> ('w \<Rightarrow> 's \<Rightarrow> 's) \<Rightarrow>
   'w lease_op list \<Rightarrow> 'i set \<times> 's \<Rightarrow> 'i set \<times> 's" where
  "lease_run i take_it prolong give_up [] bs = bs"
| "lease_run i take_it prolong give_up (x # xs) (believers, s) =
     lease_run i take_it prolong give_up xs
       (case x of
          Take w \<Rightarrow> (if fst (take_it w s) then insert (i w) believers else believers, snd (take_it w s))
        | Prolong w \<Rightarrow>
            (if fst (prolong w s) then insert (i w) believers else believers - {i w}, snd (prolong w s))
        | Give_up w \<Rightarrow> (believers - {i w}, give_up w s))"

locale lease =
  fixes ok :: "'s \<Rightarrow> bool"
    and owner :: "'s \<Rightarrow> 'i option"
    and id_of :: "'w \<Rightarrow> 'i"
    and named :: "'w \<Rightarrow> bool"
    and take_it :: "'w \<Rightarrow> 's \<Rightarrow> bool \<times> 's"
    and prolong :: "'w \<Rightarrow> 's \<Rightarrow> bool \<times> 's"
    and give_up :: "'w \<Rightarrow> 's \<Rightarrow> 's"
  assumes take_ok: "ok s \<Longrightarrow> named w \<Longrightarrow> ok (snd (take_it w s))"
    and prolong_ok: "ok s \<Longrightarrow> named w \<Longrightarrow> ok (snd (prolong w s))"
    and give_up_ok: "ok s \<Longrightarrow> named w \<Longrightarrow> ok (give_up w s)"
    and take_granted: "ok s \<Longrightarrow> named w \<Longrightarrow> fst (take_it w s) \<longleftrightarrow> owner s = None \<or> owner s = Some (id_of w)"
    and take_owner: "ok s \<Longrightarrow> named w \<Longrightarrow>
      owner (snd (take_it w s)) = (case owner s of None \<Rightarrow> Some (id_of w) | Some j \<Rightarrow> Some j)"
    and prolong_granted: "ok s \<Longrightarrow> named w \<Longrightarrow> fst (prolong w s) \<Longrightarrow> owner (snd (prolong w s)) = Some (id_of w)"
    and prolong_owner: "ok s \<Longrightarrow> named w \<Longrightarrow> owner s = Some j \<Longrightarrow> owner (snd (prolong w s)) = Some j"
    and give_up_owner: "ok s \<Longrightarrow> named w \<Longrightarrow>
      owner (give_up w s) = (if owner s = Some (id_of w) then None else owner s)"
begin

abbreviation run :: "'w lease_op list \<Rightarrow> 'i set \<times> 's \<Rightarrow> 'i set \<times> 's" where
  "run \<equiv> lease_run id_of take_it prolong give_up"

lemma run_believers:
  assumes "ok s" and "\<forall>j \<in> believers. owner s = Some j" and "\<forall>x \<in> set xs. named (op_worker x)"
    and "run xs (believers, s) = (believers', s')"
  shows "ok s' \<and> (\<forall>j \<in> believers'. owner s' = Some j)"
  using assms
proof (induction xs arbitrary: believers s)
  case (Cons x xs)
  define st where "st = (case x of
      Take w \<Rightarrow> (if fst (take_it w s) then insert (id_of w) believers else believers, snd (take_it w s))
    | Prolong w \<Rightarrow>
        (if fst (prolong w s) then insert (id_of w) believers else believers - {id_of w}, snd (prolong w s))
    | Give_up w \<Rightarrow> (believers - {id_of w}, give_up w s))"
  have "ok (snd st) \<and> (\<forall>j \<in> fst st. owner (snd st) = Some j)"
  proof (cases x)
    case (Take w)
    then have w: "named w" using Cons.prems(3) by simp
    show ?thesis
      using Take Cons.prems(1,2) take_ok [OF Cons.prems(1) w] take_granted [OF Cons.prems(1) w]
        take_owner [OF Cons.prems(1) w]
      by (auto simp: st_def)
  next
    case (Prolong w)
    then have w: "named w" using Cons.prems(3) by simp
    show ?thesis
      using Prolong Cons.prems(1,2) prolong_ok [OF Cons.prems(1) w] prolong_granted [OF Cons.prems(1) w]
        prolong_owner [OF Cons.prems(1) w]
      by (auto simp: st_def)
  next
    case (Give_up w)
    then have w: "named w" using Cons.prems(3) by simp
    show ?thesis
      using Give_up Cons.prems(1,2) give_up_ok [OF Cons.prems(1) w] give_up_owner [OF Cons.prems(1) w]
      by (auto simp: st_def)
  qed
  moreover have "run (x # xs) (believers, s) = run xs (fst st, snd st)" by (simp add: st_def)
  ultimately show ?case using Cons.IH [of "snd st" "fst st"] Cons.prems(3,4) by simp
qed auto

text \<open>At most one worker goes on as the owner.\<close>

lemma run_one_believer:
  assumes "ok s" and "\<forall>x \<in> set xs. named (op_worker x)" and "run xs ({}, s) = (believers, s')"
    and "i \<in> believers" and "j \<in> believers"
  shows "i = j \<and> owner s' = Some i"
proof -
  have "\<forall>j \<in> believers. owner s' = Some j" using run_believers [OF assms(1) _ assms(2,3)] by simp
  then have "owner s' = Some i" "owner s' = Some j" using assms(4,5) by blast+
  then show ?thesis by simp
qed

text \<open>What others do leaves the owner in place.\<close>

lemma run_others:
  assumes "ok s" and "owner s = Some j"
    and "\<forall>x \<in> set xs. named (op_worker x) \<and> (\<forall>w. x = Give_up w \<longrightarrow> id_of w \<noteq> j)"
    and "run xs (believers, s) = (believers', s')"
  shows "owner s' = Some j"
  using assms
proof (induction xs arbitrary: believers s)
  case (Cons x xs)
  show ?case
  proof (cases x)
    case (Take w)
    with Cons.prems have w: "named w" by simp
    show ?thesis using Cons.IH [OF take_ok [OF Cons.prems(1) w]] Cons.prems take_owner [OF Cons.prems(1) w] Take by auto
  next
    case (Prolong w)
    with Cons.prems have w: "named w" by simp
    show ?thesis
      using Cons.IH [OF prolong_ok [OF Cons.prems(1) w]] Cons.prems prolong_owner [OF Cons.prems(1) w] Prolong by auto
  next
    case (Give_up w)
    with Cons.prems have w: "named w" "id_of w \<noteq> j" by simp_all
    show ?thesis
      using Cons.IH [OF give_up_ok [OF Cons.prems(1) w(1)]] Cons.prems give_up_owner [OF Cons.prems(1) w(1)] Give_up w(2)
      by auto
  qed
qed auto

end

end
