(* ===== verification/Channel_Facts.thy ===== *)
theory Channel_Facts
  imports Channel_Life Lease_Interface
begin

text \<open>That channels are owned, stopped and left as they should be, and where they are not.\<close>

section \<open>Owning a channel\<close>

definition lease_ok :: "'s redis_api \<Rightarrow> string \<Rightarrow> 's \<Rightarrow> bool" where
  "lease_ok R c s \<longleftrightarrow> (case r_get R s (owner_key c) of None \<Rightarrow> True | Some v \<Rightarrow> \<exists>i. v = VStr i)"

lemma lease_cases:
  assumes "lease_ok R c s"
  obtains "r_get R s (owner_key c) = None" "get_channel_owner R s c = None"
  | i where "r_get R s (owner_key c) = Some (VStr i)" "get_channel_owner R s c = Some i"
  using assms by (auto simp: lease_ok_def get_channel_owner_def split: option.splits)

context redis
begin

lemma channel_lease:
  "lease (lease_ok R c) (\<lambda>s. get_channel_owner R s c) worker_id (\<lambda>w. worker_id w \<noteq> [])
     (\<lambda>w s. try_acquire_ownership R w c True s) (\<lambda>w s. extend_ownership R w c s)
     (\<lambda>w s. release_ownership R w c b s)"
proof
  fix s and w :: worker
  assume ok: "lease_ok R c s" and w: "worker_id w \<noteq> []"
  note defs = try_acquire_ownership_def extend_ownership_def release_ownership_def release_seen_def
    am_i_owner_def r_setnx_def r_setex_def get_channel_owner_def lease_ok_def
  show "lease_ok R c (snd (try_acquire_ownership R w c True s))"
    using ok w by (cases rule: lease_cases) (auto simp: defs)
  show "lease_ok R c (snd (extend_ownership R w c s))"
    using ok by (cases rule: lease_cases) (auto simp: defs)
  show "lease_ok R c (release_ownership R w c b s)"
    using ok by (cases rule: lease_cases) (auto simp: defs Let_def)
  show "fst (try_acquire_ownership R w c True s) \<longleftrightarrow>
    get_channel_owner R s c = None \<or> get_channel_owner R s c = Some (worker_id w)"
    using ok w by (cases rule: lease_cases) (auto simp: defs)
  show "get_channel_owner R (snd (try_acquire_ownership R w c True s)) c =
    (case get_channel_owner R s c of None \<Rightarrow> Some (worker_id w) | Some j \<Rightarrow> Some j)"
    using ok w by (cases rule: lease_cases) (auto simp: defs)
  show "get_channel_owner R (snd (extend_ownership R w c s)) c = Some (worker_id w)"
    if "fst (extend_ownership R w c s)"
    using ok that by (cases rule: lease_cases) (auto simp: defs split: if_splits)
  show "get_channel_owner R (snd (extend_ownership R w c s)) c = Some j" if "get_channel_owner R s c = Some j" for j
    using ok that by (cases rule: lease_cases) (auto simp: defs)
  show "get_channel_owner R (release_ownership R w c b s) c =
    (if get_channel_owner R s c = Some (worker_id w) then None else get_channel_owner R s c)"
    using ok w by (cases rule: lease_cases) (auto simp: defs Let_def)
qed

end

sublocale redis \<subseteq> owning: lease "lease_ok R c" "\<lambda>s. get_channel_owner R s c" worker_id
  "\<lambda>w. worker_id w \<noteq> []" "\<lambda>w s. try_acquire_ownership R w c True s" "\<lambda>w s. extend_ownership R w c s"
  "\<lambda>w s. release_ownership R w c b s"
  for c b
  by (rule channel_lease)

section \<open>Cleaning up a channel\<close>

text \<open>A channel's mark before it is cleaned up.\<close>

definition stop_marked :: "'s redis_api \<Rightarrow> 's \<Rightarrow> string \<Rightarrow> 's" where
  "stop_marked R s c =
     (if r_exists R s (Live (Channel_stopping c)) then r_expire R s (Live (Channel_stopping c)) 60
      else r_setex R s (Live (Channel_stopping c)) 60 (VStr ''true''))"

context redis
begin

lemma dels [simp]:
  "r_get R (foldl (r_del R) s ks) k = (if k \<in> set ks then None else r_get R s k)"
  "r_hash R (foldl (r_del R) s ks) k = (if k \<in> set ks then [] else r_hash R s k)"
  "r_members R (foldl (r_del R) s ks) k = (if k \<in> set ks then [] else r_members R s k)"
  "r_count R (foldl (r_del R) s ks) k = (if k \<in> set ks then 0 else r_count R s k)"
  by (induction ks arbitrary: s) auto

lemma dels_exists [simp]: "r_exists R (foldl (r_del R) s ks) k \<longleftrightarrow> k \<notin> set ks \<and> r_exists R s k"
  by (simp add: r_exists_def)

lemma dels_view:
  assumes "\<forall>k \<in> set ks. key_channel k = Some c"
  shows "pool_view R (foldl (r_del R) s ks) = pool_view R s"
proof -
  have "\<not> is_counter k" if "k \<in> set ks" for k using assms that by (cases k) auto
  moreover have "Profile_credential_release i \<notin> set ks" for i using assms by force
  ultimately show ?thesis by (auto simp: pool_view_def slots_def fun_eq_iff)
qed

lemma clean_gone:
  assumes "scan_complete R scan (snd (release_stream_resources R e X c s)) c" "key_channel k = Some c"
  shows "\<not> r_exists R (clean_redis_keys R e X scan c s) k \<and> r_count R (clean_redis_keys R e X scan c s) k = 0"
  using assms unfolding clean_redis_keys_def scan_complete_def by (auto simp: Let_def)

lemma clean_view:
  assumes "scan_complete R scan (snd (release_stream_resources R e X c s)) c"
  shows "pool_view R (clean_redis_keys R e X scan c s) = pool_view R (snd (release_stream_resources R e X c s))"
proof -
  have "\<forall>k \<in> set (scan (snd (release_stream_resources R e X c s)) c). key_channel k = Some c"
    using assms by (simp add: scan_complete_def)
  from dels_view [OF this] show ?thesis by (simp add: clean_redis_keys_def Let_def)
qed

lemma stop_marked_frame [simp]:
  "r_hash R (stop_marked R s c) = r_hash R s" "r_members R (stop_marked R s c) = r_members R s"
  "r_count R (stop_marked R s c) = r_count R s" "pool_view R (stop_marked R s c) = pool_view R s"
  "k \<noteq> Live (Channel_stopping c) \<Longrightarrow> r_get R (stop_marked R s c) k = r_get R s k"
  by (auto simp: stop_marked_def pool_view_def slots_def fun_eq_iff)

lemma unowned_release: "get_channel_owner R s c = None \<Longrightarrow> release_ownership R w c b s = s"
  by (simp add: release_ownership_def release_seen_def)

lemma server_stop_state:
  assumes "c \<notin> fst ` set (stopping_since w)"
    and "scan_complete R scan (snd (release_stream_resources R e X c (stop_marked R s c))) c"
  shows "fst (server_stop_channel R e X scan ended w c s)"
    "snd (snd (server_stop_channel R e X scan ended w c s)) = clean_redis_keys R e X scan c (stop_marked R s c)"
proof -
  let ?t = "clean_redis_keys R e X scan c (stop_marked R s c)"
  have "\<not> r_exists R ?t (owner_key c)" using clean_gone [OF assms(2), of "owner_key c"] by simp
  then have "get_channel_owner R ?t c = None" by (simp add: r_exists_def get_channel_owner_def)
  note gone = unowned_release [OF this]
  show "fst (server_stop_channel R e X scan ended w c s)"
    using assms(1) by (simp add: server_stop_channel_def Let_def)
  show "snd (snd (server_stop_channel R e X scan ended w c s)) = ?t"
    using assms(1) gone by (simp add: server_stop_channel_def Let_def stop_marked_def)
qed

lemma server_stop_local:
  assumes "c \<notin> fst ` set (stopping_since w)"
  shows "\<not> holds_anything (fst (snd (server_stop_channel R e X scan True w c s))) c"
  using assms
  by (auto simp: server_stop_channel_def Let_def holds_anything_def has_local_upstream_activity_def
      stop_local_stream_activity_def signal_upstream_shutdown_def AList.delete_eq)

lemma found_row: "channel_by_uuid X c = Some ch \<Longrightarrow> ch_uuid ch = c"
  by (auto simp: channel_by_uuid_def find_Some_iff)

lemma resources_assigned:
  assumes "channel_by_uuid X c = Some ch" "r_get R s (Channel_stream (ch_id ch)) = Some (VInt sid)"
    and "r_get R s (Stream_profile sid) = Some (VInt pid)"
  shows "pool_view R (snd (release_stream_resources R e X c s)) = slot_returned pid (pool_view R s)"
    "r_get R (snd (release_stream_resources R e X c s)) (Channel_stream (ch_id ch)) = None"
proof -
  have *: "release_stream_resources R e X c s = (True, snd (release_stream R e ch s))"
    using assms(1) release_assigned(1) [OF assms(2,3), of e]
    by (simp add: release_stream_resources_def Let_def split_def)
  show "pool_view R (snd (release_stream_resources R e X c s)) = slot_returned pid (pool_view R s)"
    using release_assigned(2) [OF assms(2,3), of e] by (simp add: *)
  show "r_get R (snd (release_stream_resources R e X c s)) (Channel_stream (ch_id ch)) = None"
    using assms(2,3) unfolding * by (simp add: release_stream_def get_int_def Let_def)
qed

text \<open>A channel without an assignment and without metadata gives nothing back.\<close>

lemma resources_nothing:
  assumes "channel_by_uuid X c = Some ch" "r_get R s (Channel_stream (ch_id ch)) = None"
    and "r_hash R s (metadata c) = []" "streams_with_hash X c = []"
  shows "release_stream_resources R e X c s = (False, s)"
proof -
  have "stream_field R s c = None" "profile_field R s c = None"
    using assms(3) by (simp_all add: stream_field_def profile_field_def)
  then show ?thesis
    using assms found_row [OF assms(1)]
    by (simp add: release_stream_resources_def release_stream_def get_int_def Let_def
        release_profile_slot_from_redis_metadata_def)
qed

lemma stopped_state:
  assumes "channel_by_uuid X c = Some ch" "r_get R s (Channel_stream (ch_id ch)) = Some (VInt sid)"
    and "r_get R s (Stream_profile sid) = Some (VInt pid)"
    and "c \<notin> fst ` set (stopping_since w)"
    and scan: "scan_complete R scan (snd (release_stream_resources R e X c (stop_marked R s c))) c"
    and s': "s' = snd (snd (server_stop_channel R e X scan ended w c s))"
  shows "pool_view R s' = slot_returned pid (pool_view R s)"
    "key_channel k = Some c \<Longrightarrow> \<not> r_exists R s' k \<and> r_count R s' k = 0"
    "r_get R s' (Channel_stream (ch_id ch)) = None"
proof -
  have t: "s' = clean_redis_keys R e X scan c (stop_marked R s c)"
    using server_stop_state(2) [OF assms(4,5)] s' by simp
  note r = resources_assigned [OF assms(1), of "stop_marked R s c" sid pid e]
  show "pool_view R s' = slot_returned pid (pool_view R s)"
    unfolding t clean_view [OF scan] using r(1) assms(2,3) by simp
  show "\<not> r_exists R s' k \<and> r_count R s' k = 0" if "key_channel k = Some c"
    unfolding t using clean_gone [OF scan that] .
  show "r_get R s' (Channel_stream (ch_id ch)) = None"
    using r(2) assms(2,3) unfolding t clean_redis_keys_def by (simp add: Let_def)
qed

lemma stopped_again:
  assumes "channel_by_uuid X c = Some ch" "r_get R s (Channel_stream (ch_id ch)) = None"
    and none: "\<And>k. key_channel k = Some c \<Longrightarrow> \<not> r_exists R s k"
    and "streams_with_hash X c = []" "c \<notin> fst ` set (stopping_since w)"
    and scan: "scan_complete R scan (stop_marked R s c) c"
  shows "pool_view R (snd (snd (server_stop_channel R e X scan ended w c s))) = pool_view R s"
proof -
  have "r_hash R s (metadata c) = []" using none [of "metadata c"] by (simp add: r_exists_def)
  then have r: "release_stream_resources R e X c (stop_marked R s c) = (False, stop_marked R s c)"
    using assms(1,2,4) by (intro resources_nothing) simp_all
  with scan have "scan_complete R scan (snd (release_stream_resources R e X c (stop_marked R s c))) c" by simp
  from server_stop_state(2) [OF assms(5) this] clean_view [OF this] show ?thesis by (simp add: r)
qed

lemma no_metadata_no_upstream:
  assumes "\<not> r_exists R s (metadata c)" "worker_id w \<noteq> []" "fst valid \<le> t"
  shows "\<not> fst (upstream_may_continue R g t w c valid s)"
  using assms by (auto simp: upstream_may_continue_def still_owner_def evaluate_ownership_def Let_def)

end

section \<open>The wait before a channel nobody is on stops\<close>

lemma shutdown_wait_true:
  assumes "shutdown_wait R g clock others between c fuel n s = Some (True, s')"
  shows "client_total R s' c = 0 \<and> (\<exists>m u left. disconnect_time R u c = Some (Some left) \<and> client_total R u c = 0 \<and>
    shutdown_delay g \<le> clock m - left \<and> s' = between m u)"
  using assms
  by (induction fuel arbitrary: n s) (auto simp: Let_def split: if_splits option.splits)

lemma shutdown_wait_ends_from:
  assumes "\<And>m u. disconnect_time R (others m u) c = disconnect_time R u c \<or>
      (\<forall>d. disconnect_time R (others m u) c \<noteq> Some (Some d))"
    and "\<And>m d. clock m + min 1 (d + shutdown_delay g - clock m) \<le> clock (Suc m) \<or> d + shutdown_delay g \<le> clock m"
    and "disconnect_time R s c = Some (Some left)" "left + shutdown_delay g - clock n \<le> real fuel"
  shows "shutdown_wait R g clock others between c (Suc (Suc fuel)) n s \<noteq> None"
  using assms(3,4)
proof (induction fuel arbitrary: n s)
  case 0
  then have "shutdown_delay g \<le> clock n - left" by simp
  with 0 show ?case by (cases "0 < client_total R s c") (simp_all add: Let_def)
next
  case (Suc fuel)
  show ?case
  proof (cases "0 < client_total R s c \<or> shutdown_delay g \<le> clock n - left")
    case True
    with Suc.prems(1) show ?thesis by (auto simp: Let_def simp del: shutdown_wait.simps(1) split: if_splits)
  next
    case False
    let ?u = "others n s"
    have step: "shutdown_wait R g clock others between c (Suc (Suc (Suc fuel))) n s =
        shutdown_wait R g clock others between c (Suc (Suc fuel)) (Suc n) ?u"
      using False Suc.prems(1) by simp
    consider "disconnect_time R ?u c = Some (Some left)" | "\<forall>d. disconnect_time R ?u c \<noteq> Some (Some d)"
      using assms(1) [of n s] Suc.prems(1) by metis
    then show ?thesis
    proof cases
      case 1
      have "clock n + min 1 (left + shutdown_delay g - clock n) \<le> clock (Suc n)"
        using assms(2) [of n left] False by auto
      then have "left + shutdown_delay g - clock (Suc n) \<le> real fuel"
        using Suc.prems(2) by (auto simp: min_def split: if_splits)
      from Suc.IH [OF 1 this] show ?thesis unfolding step .
    next
      case 2
      then have "shutdown_wait R g clock others between c (Suc (Suc fuel)) (Suc n) ?u \<noteq> None"
        by (auto split: option.splits)
      then show ?thesis unfolding step .
    qed
  qed
qed

section \<open>A start that fails\<close>

lemma start_state: "map_of (rev (start_metadata w t c url rq)) ''state'' = Some (VStr (state_text Initializing))"
  by (auto simp: start_metadata_def split: option.splits)

lemma buffer_has_activity [simp]:
  "has_local_upstream_activity (with_buffer_and_clients c w) c = has_local_upstream_activity w c"
  "worker_id (with_buffer_and_clients c w) = worker_id w"
  by (simp_all add: has_local_upstream_activity_def with_buffer_and_clients_def)

lemma stop_local_simps [simp]:
  "worker_id (stop_local_stream_activity ended c w) = worker_id w"
  "\<not> holds_anything (stop_local_stream_activity True c w) c"
  by (auto simp: stop_local_stream_activity_def holds_anything_def has_local_upstream_activity_def AList.delete_eq)

text \<open>
  What a failed start cleans up: the store as it was, or with the lease taken and the metadata
  written; in both the lease is given back.
\<close>

definition failed_start_store ::
  "'s redis_api \<Rightarrow> env \<Rightarrow> worker \<Rightarrow> string \<Rightarrow> start_request \<Rightarrow> 's \<Rightarrow> 's" where
  "failed_start_store R e w c rq s =
     release_ownership R w c False
       (case rq_url (completed_request R s c rq) of
          None \<Rightarrow> s
        | Some url \<Rightarrow>
            r_expire R (hset_all R (metadata c) (start_metadata w (now e) c url (completed_request R s c rq))
              (snd (try_acquire_ownership R w c True s))) (metadata c) REDIS_TTL_DEFAULT)"

context redis
begin

lemma acquired:
  assumes "lease_ok R c s" "worker_id w \<noteq> []" "get_channel_owner R s c \<in> {None, Some (worker_id w)}"
  shows "fst (try_acquire_ownership R w c True s)"
    "get_channel_owner R (snd (try_acquire_ownership R w c True s)) c = Some (worker_id w)"
  using owning.take_granted [OF assms(1,2)] owning.take_owner [OF assms(1,2)] assms(3)
  by (auto split: option.splits)

lemma failed_init_cleaned:
  assumes "get_channel_owner R s c = Some (worker_id w)" "channel_state_of R s c = Some (state_text Initializing)"
  shows "cleanup_failed_init R e X scan ended w c s =
    (stop_local_stream_activity ended c w, clean_redis_keys R e X scan c (release_ownership R w c False s))"
  using assms by (simp add: cleanup_failed_init_def PRE_ACTIVE_def Let_def release_ownership_def release_seen_def)

lemma failed_init_unowned:
  assumes "get_channel_owner R s c \<in> {None, Some (worker_id w)}"
    and "channel_state_of R s c \<in> {None, Some (state_text Error_state)}"
  shows "cleanup_failed_init R e X scan ended w c s =
    (stop_local_stream_activity ended c w, clean_redis_keys R e X scan c (release_ownership R w c False s))"
  using assms by (auto simp: cleanup_failed_init_def Let_def release_ownership_def release_seen_def)

text \<open>What a start answers, and what is left of it where that is no.\<close>

lemma start_answer:
  assumes "worker_id w \<noteq> []" "\<not> teardown_active R w s c"
    and owner: "get_channel_owner R s c \<in> {None, Some (worker_id w)}" and "lease_ok R c s"
    and no_url: "rq_url (completed_request R s c rq) = None \<Longrightarrow>
      channel_state_of R s c \<in> {None, Some (state_text Error_state)} \<or> channel_proxy_is_active R s c"
    and w1: "w1 = with_buffer_and_clients c
      (if has_local_upstream_activity w c then stop_local_stream_activity True c w else w)"
    and start: "initialize_channel R e X scan True True starts w c rq s = (started, w', s')"
  shows "started \<longleftrightarrow> channel_proxy_is_active R s c \<or>
      rq_url (completed_request R s c rq) \<noteq> None \<and> starts"
    and "\<not> started \<Longrightarrow> w' = stop_local_stream_activity True c w1 \<and>
      s' = clean_redis_keys R e X scan c (failed_start_store R e w c rq s)"
proof -
  have id: "worker_id w1 = worker_id w" by (simp add: w1)
  have give: "release_ownership R w1 c False t = release_ownership R w c False t" for t
    by (simp add: release_ownership_def release_seen_def id)
  have free: "\<not> (case get_channel_owner R s c of None \<Rightarrow> False | Some x \<Rightarrow> x \<noteq> [] \<and> x \<noteq> worker_id w)"
    using owner by (auto split: option.splits)
  have "(started \<longleftrightarrow> channel_proxy_is_active R s c \<or> rq_url (completed_request R s c rq) \<noteq> None \<and> starts) \<and>
    (\<not> started \<longrightarrow> w' = stop_local_stream_activity True c w1 \<and>
      s' = clean_redis_keys R e X scan c (failed_start_store R e w c rq s))"
  proof (cases "channel_proxy_is_active R s c")
    case True
    then show ?thesis using start assms(2) by (auto simp: initialize_channel_def Let_def)
  next
    case idle: False
    show ?thesis
    proof (cases "rq_url (completed_request R s c rq)")
      case None
      have "cleanup_failed_init R e X scan True w1 c s =
          (stop_local_stream_activity True c w1, clean_redis_keys R e X scan c (release_ownership R w1 c False s))"
        using no_url [OF None] idle owner by (intro failed_init_unowned) (auto simp: id)
      then show ?thesis
        using start assms(2) free idle None
        by (simp add: initialize_channel_def Let_def w1 [symmetric] failed_start_store_def give del: split_paired_All)
    next
      case (Some url)
      define s1 where "s1 = r_expire R (hset_all R (metadata c) (start_metadata w (now e) c url (completed_request R s c rq))
        (snd (try_acquire_ownership R w c True s))) (metadata c) REDIS_TTL_DEFAULT"
      have same: "try_acquire_ownership R w1 c True s = try_acquire_ownership R w c True s"
        unfolding try_acquire_ownership_def am_i_owner_def id ..
      note got = acquired [OF assms(4,1) owner]
      have "get_channel_owner R s1 c = Some (worker_id w1)"
        using got(2) by (simp add: s1_def get_channel_owner_def id)
      moreover have "channel_state_of R s1 c = Some (state_text Initializing)"
        using hget_hset_all start_state by (simp add: channel_state_of_def s1_def)
      ultimately have clean: "cleanup_failed_init R e X scan True w1 c s1 =
          (stop_local_stream_activity True c w1, clean_redis_keys R e X scan c (release_ownership R w1 c False s1))"
        by (rule failed_init_cleaned)
      have meta: "start_metadata w1 t c url rq' = start_metadata w t c url rq'" for t rq'
        by (simp add: start_metadata_def id)
      have "initialize_channel R e X scan True True starts w c rq s =
          start_upstream R e X scan True starts w1 c url (completed_request R s c rq)
            (snd (try_acquire_ownership R w c True s))"
        using assms(2) free idle got(1) Some
        by (simp add: initialize_channel_def Let_def split_def same w1 [symmetric])
      also have "\<dots> = (if starts then (True, snd (start_upstream R e X scan True starts w1 c url
            (completed_request R s c rq) (snd (try_acquire_ownership R w c True s))))
          else (False, cleanup_failed_init R e X scan True w1 c s1))"
        by (simp add: start_upstream_def Let_def s1_def meta)
      finally show ?thesis
        using start clean idle Some by (auto simp: failed_start_store_def s1_def give split: if_splits)
    qed
  qed
  then show "started \<longleftrightarrow> channel_proxy_is_active R s c \<or>
      rq_url (completed_request R s c rq) \<noteq> None \<and> starts"
    and "\<not> started \<Longrightarrow> w' = stop_local_stream_activity True c w1 \<and>
      s' = clean_redis_keys R e X scan c (failed_start_store R e w c rq s)"
    by blast+
qed

end

section \<open>Properties\<close>

text \<open>
  C6: Stopping a channel on a worker leaves nothing of it: no key of the channel is left in Redis,
  this worker holds nothing for it, and the slot of the profile it streamed on comes back to the
  pool, once: a stop of the same channel by any worker afterwards gives nothing back. The scan lists
  the channel's keys.
\<close>

theorem stopped_channel_leaves_nothing:
  assumes "redis R" and row: "channel_by_uuid X c = Some ch" "streams_with_hash X c = []"
    and playing: "r_get R s (Channel_stream (ch_id ch)) = Some (VInt sid)" "r_get R s (Stream_profile sid) = Some (VInt pid)"
    and free: "c \<notin> fst ` set (stopping_since w)" "c \<notin> fst ` set (stopping_since w2)"
    and scan: "scan_complete R scan (snd (release_stream_resources R e X c (stop_marked R s c))) c"
    and stop: "server_stop_channel R e X scan True w c s = (done_here, w', s')"
    and scan2: "scan_complete R scan (stop_marked R s' c) c"
  shows "done_here \<and> \<not> holds_anything w' c \<and>
    (key_channel k = Some c \<longrightarrow> \<not> r_exists R s' k \<and> r_count R s' k = 0) \<and>
    pool_view R s' = slot_returned pid (pool_view R s) \<and>
    pool_view R (snd (snd (server_stop_channel R e2 X scan ended w2 c s'))) = pool_view R s'"
proof -
  have s': "s' = snd (snd (server_stop_channel R e X scan True w c s))" by (simp add: stop)
  note t = redis.stopped_state [OF assms(1) row(1) playing free(1) scan s']
  have "pool_view R (snd (snd (server_stop_channel R e2 X scan ended w2 c s'))) = pool_view R s'"
    using t(2,3) by (intro redis.stopped_again [OF assms(1) row(1) _ _ row(2) free(2) scan2]) blast+
  moreover have "done_here" using redis.server_stop_state(1) [OF assms(1) free(1) scan, of True] stop by simp
  moreover have "\<not> holds_anything w' c" using redis.server_stop_local [OF assms(1) free(1), of e X scan s] stop by simp
  ultimately show ?thesis using t(1,2) by blast
qed

text \<open>
  C7: Once a channel was stopped anywhere, the upstream another worker may still run for it ends
  at its next look: within a second of the last one, whatever that worker believed.
\<close>

theorem upstream_ends_after_stop:
  assumes "redis R" and free: "c \<notin> fst ` set (stopping_since w)"
    and scan: "scan_complete R scan (snd (release_stream_resources R e X c (stop_marked R s c))) c"
    and stop: "server_stop_channel R e X scan ended w c s = (done_here, w', s')"
    and other: "worker_id w2 \<noteq> []" "still_owner R g t0 force w2 c before s0 = (b, valid)" "fst before \<le> t0"
    and later: "t0 + OWNERSHIP_CHECK_INTERVAL \<le> t"
  shows "\<not> fst (upstream_may_continue R g t w2 c valid s')"
proof -
  have "s' = clean_redis_keys R e X scan c (stop_marked R s c)"
    using redis.server_stop_state(2) [OF assms(1) free scan, of ended] stop by simp
  then have "\<not> r_exists R s' (metadata c)"
    using redis.clean_gone [OF assms(1) scan, of "metadata c"] by simp
  moreover have "fst valid \<le> t"
    using other(2,3) later
    by (auto simp: still_owner_def Let_def OWNERSHIP_CHECK_INTERVAL_def split: if_splits)
  ultimately show ?thesis by (rule redis.no_metadata_no_upstream [OF assms(1) _ other(1)])
qed

text \<open>
  The event that tells the other workers of a stop comes too late: it is looked at by the
  channel's owner alone, and the stop has deleted the owner's key. A worker that runs the upstream
  leaves it alone, and its next turn of cleaning up takes the channel again.
\<close>

theorem stop_event_not_heard:
  assumes "redis R" and free: "c \<notin> fst ` set (stopping_since w)" "c \<notin> fst ` set (stopping_since w2)"
    and scan: "scan_complete R scan (snd (release_stream_resources R e X c (stop_marked R s c))) c"
    and stop: "server_stop_channel R e X scan ended w c s = (done_here, w', s')"
    and runs: "c \<in> set (stream_managers w2)"
  shows "handle_event R e2 X g scan ended2 (Channel_stop_event c (worker_id w)) w2 s' = (False, w2, s') \<and>
    fst (non_owner_turn R e2 X scan ended2 w2 c s') = w2 \<and>
    am_i_owner R (snd (non_owner_turn R e2 X scan ended2 w2 c s')) w2 c"
proof -
  have s': "s' = clean_redis_keys R e X scan c (stop_marked R s c)"
    using redis.server_stop_state(2) [OF assms(1) free(1) scan, of ended] stop by simp
  note gone = redis.clean_gone [OF assms(1) scan, folded s']
  have owner: "r_get R s' (owner_key c) = None" and "\<not> r_exists R s' (Live (Channel_stopping c))"
    and "r_hash R s' (metadata c) = []"
    using gone [of "owner_key c"] gone [of "Live (Channel_stopping c)"] gone [of "metadata c"]
    by (auto simp: r_exists_def)
  then have "\<not> teardown_active R w2 s' c"
    using free(2) by (simp add: teardown_active_def is_channel_teardown_active_def channel_state_of_def)
  then show ?thesis
    using owner runs free(2) redis.get_setex [OF assms(1)]
    by (simp add: handle_event_def non_owner_turn_def am_i_owner_def get_channel_owner_def extend_ownership_def
        r_setnx_def Let_def)
qed

text \<open>
  C5: A channel has one owner: in any run of takes, prolongations and releases of its lease by any
  workers, from any store, at most one worker was told that it owns the channel and has not given
  it up, and that one is the owner the store names. No command fails and the lease does not run out.
\<close>

theorem one_owner_at_a_time:
  assumes "redis R" "lease_ok R c s" "\<forall>x \<in> set xs. worker_id (op_worker x) \<noteq> []"
    and "lease_run worker_id (\<lambda>w s. try_acquire_ownership R w c True s) (\<lambda>w s. extend_ownership R w c s)
      (\<lambda>w s. release_ownership R w c b s) xs ({}, s) = (believers, s')"
    and "i \<in> believers" "j \<in> believers"
  shows "i = j \<and> get_channel_owner R s' c = Some i"
  by (rule lease.run_one_believer [OF redis.channel_lease [OF assms(1)] assms(2-6)])

text \<open>
  Giving a lease up is two commands, a read and a delete. A lease that runs out and is taken in
  between is deleted with its new owner's name in it, and then a third worker takes the channel
  too, which the second goes on serving.
\<close>

theorem late_release_frees_anothers_lease:
  assumes "redis R" "get_channel_owner R s c = Some (worker_id w)" "worker_id w \<noteq> []"
    and taken: "try_acquire_ownership R w2 c True (r_del R s (owner_key c)) = (b, s2)"
    and released: "s3 = release_seen R w c signal_stopping (get_channel_owner R s c) s2"
  shows "b \<and> get_channel_owner R s2 c = Some (worker_id w2) \<and> get_channel_owner R s3 c = None \<and>
    fst (try_acquire_ownership R w3 c True s3)"
proof -
  note gets = redis.get_del [OF assms(1)] redis.get_set [OF assms(1)] redis.get_setex [OF assms(1)]
    redis.get_expire [OF assms(1)]
  have "b" "r_get R s2 (owner_key c) = Some (VStr (worker_id w2))"
    using taken by (auto simp: try_acquire_ownership_def r_setnx_def r_setex_def gets)
  then show ?thesis
    using assms(2,3) released
    by (auto simp: release_seen_def try_acquire_ownership_def r_setnx_def get_channel_owner_def gets Let_def)
qed

text \<open>
  The wait ends in stopping a channel only when nobody is on it and the shutdown delay has
  passed since the last client left.
\<close>

theorem stopped_only_when_empty:
  assumes "wait_for_shutdown_delay R g clock others between c fuel s = Some (True, s')" "0 < shutdown_delay g"
  shows "client_total R s' c = 0 \<and> (\<exists>m u left. disconnect_time R u c = Some (Some left) \<and> client_total R u c = 0 \<and>
    shutdown_delay g \<le> clock m - left \<and> s' = between m u)"
proof (rule shutdown_wait_true)
  show "shutdown_wait R g clock others between c fuel 0 s = Some (True, s')"
    using assms by (simp add: wait_for_shutdown_delay_def)
qed

text \<open>
  The wait ends, within two polls more than the seconds that are left, as long as no other
  client's leaving starts them anew: each sleep lasts a second or what is left.
\<close>

theorem shutdown_wait_ends:
  assumes "\<And>m u. disconnect_time R (others m u) c = disconnect_time R u c \<or>
      (\<forall>d. disconnect_time R (others m u) c \<noteq> Some (Some d))"
    and "\<And>m d. clock m + min 1 (d + shutdown_delay g - clock m) \<le> clock (Suc m) \<or> d + shutdown_delay g \<le> clock m"
    and "disconnect_time R s c = Some (Some left)" "left + shutdown_delay g - clock 0 \<le> real fuel"
  shows "wait_for_shutdown_delay R g clock others between c (fuel + 2) s \<noteq> None"
  using shutdown_wait_ends_from [where R = R and others = others and c = c and g = g and clock = clock
      and s = s and left = left and n = 0 and fuel = fuel and between = between, OF assms]
  by (cases "shutdown_delay g \<le> 0") (simp_all add: wait_for_shutdown_delay_def del: shutdown_wait.simps)

text \<open>
  With a shutdown delay, the channel that the last viewer leaves while a helper still reads it
  is not stopped after it: the helper is nobody when the channel is looked at, but somebody to the
  wait, which takes the timer away and gives up. The owner's next turn starts the timer anew.
\<close>

theorem helper_keeps_channel:
  assumes "redis R" "0 < shutdown_delay g" "holds_anything w c"
    and helper: "people_count R paused s c (client_total R s c) = 0" "0 < client_total R s c"
    and "handle_client_disconnect R e X g scan ended paused clock others between (Suc fuel) w c s = Some (es, w', s')"
  shows "es = [] \<and> client_total R s' c = client_total R s c \<and> disconnect_time R s' c = None"
proof -
  let ?s1 = "if truthy (r_get R s (Live (Last_client_disconnect c))) then s else set_disconnect R g (now e) c s"
  have same: "client_total R ?s1 c = client_total R s c"
    using redis.members_setex [OF assms(1)] by (simp add: client_total_def set_disconnect_def)
  then have "wait_for_shutdown_delay R g clock others between c (Suc fuel) ?s1 =
      Some (False, r_del R ?s1 (Live (Last_client_disconnect c)))"
    using assms(2) helper(2) by (simp add: wait_for_shutdown_delay_def)
  then have "es = []" "s' = r_del R ?s1 (Live (Last_client_disconnect c))"
    using assms(2,3,6) helper(1) by (auto simp: handle_client_disconnect_def Let_def split: if_splits)
  then show ?thesis
    using same redis.members_del [OF assms(1)] redis.get_del [OF assms(1)]
    by (simp add: client_total_def disconnect_time_def)
qed

text \<open>
  C15: A start that is not refused because a stop is under way, of a channel no other worker owns,
  answers no exactly when nothing runs yet and there is no URL or the stream manager cannot be made;
  and then it leaves nothing behind: no key of the channel is left, neither its owner nor a mark of
  a stop, this worker holds nothing for it, and any worker can start it at once. (Without a URL this
  needs that the channel's state is none or in error: one marked stopped is left as it is.)
\<close>

theorem failed_start_leaves_nothing:
  assumes "redis R" "worker_id w \<noteq> []" "\<not> teardown_active R w s c"
    and "get_channel_owner R s c \<in> {None, Some (worker_id w)}" "lease_ok R c s"
    and no_url: "rq_url (completed_request R s c rq) = None \<Longrightarrow>
      channel_state_of R s c \<in> {None, Some (state_text Error_state)} \<or> channel_proxy_is_active R s c"
    and start: "initialize_channel R e X scan True True starts w c rq s = (started, w', s')"
    and scan: "scan_complete R scan (snd (release_stream_resources R e X c (failed_start_store R e w c rq s))) c"
  shows "(started \<longleftrightarrow> channel_proxy_is_active R s c \<or>
            rq_url (completed_request R s c rq) \<noteq> None \<and> starts) \<and>
    (\<not> started \<longrightarrow>
       \<not> holds_anything w' c \<and> (key_channel k = Some c \<longrightarrow> \<not> r_exists R s' k) \<and>
       (c \<notin> fst ` set (stopping_since w2) \<longrightarrow> \<not> teardown_active R w2 s' c) \<and>
       fst (try_acquire_ownership R w2 c True s'))"
proof -
  note R = assms(1)
  define w1 where "w1 = with_buffer_and_clients c
    (if has_local_upstream_activity w c then stop_local_stream_activity True c w else w)"
  have answer: "started \<longleftrightarrow> channel_proxy_is_active R s c \<or>
      rq_url (completed_request R s c rq) \<noteq> None \<and> starts"
    and failed: "\<not> started \<Longrightarrow> w' = stop_local_stream_activity True c w1 \<and>
      s' = clean_redis_keys R e X scan c (failed_start_store R e w c rq s)"
    using redis.start_answer [OF R assms(2-6) w1_def start] by blast+
  have "\<not> holds_anything w' c \<and> (key_channel k = Some c \<longrightarrow> \<not> r_exists R s' k) \<and>
       (c \<notin> fst ` set (stopping_since w2) \<longrightarrow> \<not> teardown_active R w2 s' c) \<and>
       fst (try_acquire_ownership R w2 c True s')" if "\<not> started"
  proof -
    note ended = failed [OF that]
    note gone = redis.clean_gone [OF R scan, folded conjunct2 [OF ended]]
    have "r_get R s' (owner_key c) = None" "\<not> r_exists R s' (Live (Channel_stopping c))" "r_hash R s' (metadata c) = []"
      using gone [of "owner_key c"] gone [of "Live (Channel_stopping c)"] gone [of "metadata c"]
      by (auto simp: r_exists_def)
    then have "c \<notin> fst ` set (stopping_since w2) \<longrightarrow> \<not> teardown_active R w2 s' c" "fst (try_acquire_ownership R w2 c True s')"
      by (simp_all add: teardown_active_def is_channel_teardown_active_def channel_state_of_def
          try_acquire_ownership_def r_setnx_def)
    with ended gone show ?thesis by simp
  qed
  with answer show ?thesis by blast
qed

section \<open>A channel that runs on a worker\<close>

definition ex_quiet :: env where
  "ex_quiet = ex_env\<lparr>in_use := False\<rparr>"

definition ex_worker :: "string \<Rightarrow> worker" where
  "ex_worker i = \<lparr>worker_id = i, stream_managers = [''c5''], live_managers = [''c5''], stream_threads = [''c5''],
     stream_buffers = [''c5''], client_managers = [(''c5'', [])], output_managers = [], profile_managers = [],
     stopping_since = [], told_to_stop = []\<rparr>"

lemma ex_worker_simps [simp]:
  "worker_id (ex_worker i) = i" "stopping_since (ex_worker i) = []" "stream_managers (ex_worker i) = [''c5'']"
  "client_managers (ex_worker i) = [(''c5'', [])]" "told_to_stop (ex_worker i) = []"
  by (simp_all add: ex_worker_def)

definition ex_running :: mem where
  "ex_running =
     \<lparr>m_count = (\<lambda>_. 0)(Profile_connections 1 := 1),
      m_get = [Channel_stream 5 \<mapsto> VInt 10, Stream_profile 10 \<mapsto> VInt 1, owner_key ''c5'' \<mapsto> VStr ''w1''],
      m_hash = [(metadata ''c5'', [(''state'', VStr ''active''), (''url'', VStr ''http://provider/news'')])],
      m_members = (\<lambda>_. [])\<rparr>"

lemma mem_fields:
  "r_get mem_redis = m_get" "r_count mem_redis = m_count" "r_hash mem_redis = mem_lookup"
  "r_members mem_redis s k = remdups (m_members s k)"
  "r_del mem_redis s k = s\<lparr>m_count := (m_count s)(k := 0), m_get := (m_get s)(k := None),
     m_hash := AList.update k [] (m_hash s), m_members := (m_members s)(k := [])\<rparr>"
  "r_decr mem_redis s k = s\<lparr>m_count := (m_count s)(k := m_count s k - 1)\<rparr>"
  "r_hdel mem_redis s k f = s\<lparr>m_hash := AList.update k (AList.delete f (mem_lookup s k)) (m_hash s)\<rparr>"
  by (simp_all add: mem_redis_simps)

text \<open>The keys of a channel that the store has.\<close>

definition ex_scan :: "mem \<Rightarrow> string \<Rightarrow> rkey list" where
  "ex_scan s c = filter (\<lambda>k. key_channel k = Some c)
     (map fst (m_hash s) @ [owner_key c, Live (Channel_stopping c), Live (Clients c), Live (Last_client_disconnect c)])"

lemma ex_scan_complete:
  assumes "\<And>k. key_channel k = Some c \<Longrightarrow> m_get s k \<noteq> None \<or> m_members s k \<noteq> [] \<or> m_count s k \<noteq> 0 \<Longrightarrow>
    k \<in> {owner_key c, Live (Channel_stopping c), Live (Clients c), Live (Last_client_disconnect c)}"
  shows "scan_complete mem_redis ex_scan s c"
proof -
  have "k \<in> fst ` set (m_hash s)" if "mem_lookup s k \<noteq> []" for k
    using that by (auto simp: mem_lookup_def map_of_fst split: option.splits)
  then show ?thesis
    using assms by (fastforce simp: scan_complete_def ex_scan_def r_exists_def mem_redis_simps)
qed

lemma ex_marked: "stop_marked mem_redis ex_running ''c5'' =
    ex_running\<lparr>m_get := (m_get ex_running)(Live (Channel_stopping ''c5'') \<mapsto> VStr ''true'')\<rparr>"
  by (simp add: stop_marked_def r_exists_def r_setex_def mem_redis_simps ex_running_def mem_lookup_def)

lemma ex_row: "channel_by_uuid ex_site ''c5'' = Some ex_channel" "streams_with_hash ex_site ''c5'' = []"
  by (simp_all add: channel_by_uuid_def ex_site_def ex_channel_def streams_with_hash_def)

lemma ex_assigned: "r_get mem_redis ex_running (Channel_stream (ch_id ex_channel)) = Some (VInt 10)"
  "r_get mem_redis ex_running (Stream_profile 10) = Some (VInt 1)"
  by (simp_all add: mem_redis_simps ex_running_def)


definition ex_released :: mem where
  "ex_released =
     (let s = r_del mem_redis (r_del mem_redis (stop_marked mem_redis ex_running ''c5'') (Channel_stream 5)) (Stream_profile 10)
      in clear_assignment_fields mem_redis ''c5'' (r_decr mem_redis s (Profile_connections 1)))"

lemma ex_released: "release_stream_resources mem_redis ex_quiet ex_site ''c5'' (stop_marked mem_redis ex_running ''c5'') =
    (True, ex_released)"
proof -
  have ids: "ch_uuid ex_channel = ''c5''" by (simp add: ex_channel_def)
  have quiet: "hold_and_release mem_redis ex_quiet ''c5'' 1 t = r_decr mem_redis t (Profile_connections 1)"
    if "m_get t (Profile_credential_release 1) = None" "0 < m_count t (Profile_connections 1)" for t
    using that by (simp add: hold_and_release_def hold_slot_for_viewer_def ex_quiet_def release_profile_slot_def
        release_credential_slot_by_profile_id_def Let_def mem_redis_simps)
  show ?thesis
    unfolding release_stream_resources_def ex_row option.case release_stream_def get_int_def ids ex_channel_simps Let_def
    unfolding ex_released_def Let_def mem_fields ex_marked by (simp add: ex_running_def quiet mem_fields)
qed

lemma ex_left: "scan_complete mem_redis ex_scan ex_released ''c5''"
proof (rule ex_scan_complete)
  fix k assume "key_channel k = Some ''c5''"
    "m_get ex_released k \<noteq> None \<or> m_members ex_released k \<noteq> [] \<or> m_count ex_released k \<noteq> 0"
  then show "k \<in> {owner_key ''c5'', Live (Channel_stopping ''c5''), Live (Clients ''c5''), Live (Last_client_disconnect ''c5'')}"
    unfolding ex_released_def ex_marked by (auto simp: ex_running_def mem_fields clear_assignment_fields_def Let_def split: if_splits)
qed

definition ex_stop :: "string \<Rightarrow> mem \<Rightarrow> bool \<times> worker \<times> mem" where
  "ex_stop i = server_stop_channel mem_redis ex_quiet ex_site ex_scan True (ex_worker i) ''c5''"

lemma ex_scan_now: "scan_complete mem_redis ex_scan
    (snd (release_stream_resources mem_redis ex_quiet ex_site ''c5'' (stop_marked mem_redis ex_running ''c5''))) ''c5''"
  by (simp add: ex_released ex_left)

lemma ex_scan_again: "scan_complete mem_redis ex_scan (stop_marked mem_redis (snd (snd (ex_stop i ex_running))) ''c5'') ''c5''"
proof (rule ex_scan_complete)
  let ?s = "snd (snd (ex_stop i ex_running))"
  fix k assume k: "key_channel k = Some ''c5''"
    "m_get (stop_marked mem_redis ?s ''c5'') k \<noteq> None \<or> m_members (stop_marked mem_redis ?s ''c5'') k \<noteq> [] \<or>
     m_count (stop_marked mem_redis ?s ''c5'') k \<noteq> 0"
  have "?s = clean_redis_keys mem_redis ex_quiet ex_site ex_scan ''c5'' (stop_marked mem_redis ex_running ''c5'')"
    unfolding ex_stop_def by (rule mem.server_stop_state(2) [OF _ ex_scan_now]) simp
  then have "\<not> r_exists mem_redis ?s k" "r_count mem_redis ?s k = 0"
    using mem.clean_gone [OF ex_scan_now k(1)] by simp_all
  moreover have "m_members t k = [] \<longleftrightarrow> r_members mem_redis t k = []" for t by (simp add: mem_fields)
  ultimately have "k = Live (Channel_stopping ''c5'')"
    using k(2)
    by (cases "k = Live (Channel_stopping ''c5'')") (simp_all add: r_exists_def flip: mem_fields(1,2))
  then show "k \<in> {owner_key ''c5'', Live (Channel_stopping ''c5''), Live (Clients ''c5''), Live (Last_client_disconnect ''c5'')}"
    by simp
qed

theorem stopped_channel_leaves_nothing_witness:
  "\<not> r_exists mem_redis (snd (snd (ex_stop ''w1'' ex_running))) (metadata ''c5'') \<and>
   pool_view mem_redis (snd (snd (ex_stop ''w1'' ex_running))) = slot_returned 1 (pool_view mem_redis ex_running)"
proof -
  obtain b w' s' where stop: "ex_stop ''w1'' ex_running = (b, w', s')" by (metis prod_cases3)
  have "scan_complete mem_redis ex_scan (stop_marked mem_redis s' ''c5'') ''c5''"
    using ex_scan_again [of "''w1''"] by (simp add: stop)
  from stopped_channel_leaves_nothing [OF mem.redis_axioms ex_row ex_assigned _ _ ex_scan_now, of "ex_worker ''w1''"
      "ex_worker ''w2''", OF _ _ stop [unfolded ex_stop_def] this, of "metadata ''c5''"]
  show ?thesis by (simp add: stop)
qed

definition ex_config :: live_config where
  "ex_config = \<lparr>shutdown_delay = 10, client_wait_period = 5, init_grace_period = 30, initial_behind_chunks = 4,
     client_record_ttl = 60, heartbeat_interval = 5, ghost_multiplier = 5\<rparr>"

theorem upstream_ends_after_stop_witness:
  "fst (still_owner mem_redis ex_config 100 False (ex_worker ''w1'') ''c5'' (0, False) ex_running) \<and>
   \<not> fst (upstream_may_continue mem_redis ex_config 101 (ex_worker ''w1'') ''c5'' (101, True)
     (snd (snd (ex_stop ''w2'' ex_running))))"
proof
  have "evaluate_ownership mem_redis ex_config 100 (ex_worker ''w1'') ''c5'' ex_running"
    by (simp add: evaluate_ownership_def get_channel_owner_def mem_fields ex_running_def r_exists_def client_total_def
        Let_def mem_lookup_def disconnect_time_def disconnect_shutdown_ready_def text_or_def)
  then have before: "still_owner mem_redis ex_config 100 False (ex_worker ''w1'') ''c5'' (0, False) ex_running = (True, (101, True))"
    by (simp add: still_owner_def OWNERSHIP_CHECK_INTERVAL_def)
  then show "fst (still_owner mem_redis ex_config 100 False (ex_worker ''w1'') ''c5'' (0, False) ex_running)" by simp
  obtain b w' s' where stop: "ex_stop ''w2'' ex_running = (b, w', s')" by (metis prod_cases3)
  show "\<not> fst (upstream_may_continue mem_redis ex_config 101 (ex_worker ''w1'') ''c5'' (101, True)
     (snd (snd (ex_stop ''w2'' ex_running))))"
    using upstream_ends_after_stop [OF mem.redis_axioms _ ex_scan_now stop [unfolded ex_stop_def] _ before]
    by (simp add: stop OWNERSHIP_CHECK_INTERVAL_def)
qed

theorem stop_event_not_heard_witness:
  "am_i_owner mem_redis (snd (non_owner_turn mem_redis ex_quiet ex_site ex_scan True (ex_worker ''w1'') ''c5''
     (snd (snd (ex_stop ''w2'' ex_running))))) (ex_worker ''w1'') ''c5''"
proof -
  obtain b w' s' where stop: "ex_stop ''w2'' ex_running = (b, w', s')" by (metis prod_cases3)
  show ?thesis
    using stop_event_not_heard [OF mem.redis_axioms _ _ ex_scan_now stop [unfolded ex_stop_def], of "ex_worker ''w1''"]
    by (simp add: stop)
qed

text \<open>Two workers that both try to own the channel, and one that gives it up.\<close>

theorem one_owner_at_a_time_witness:
  "get_channel_owner mem_redis (snd (lease_run worker_id (\<lambda>w s. try_acquire_ownership mem_redis w ''c5'' True s)
     (\<lambda>w s. extend_ownership mem_redis w ''c5'' s) (\<lambda>w s. release_ownership mem_redis w ''c5'' False s)
     [Take (ex_worker ''w1''), Take (ex_worker ''w2''), Give_up (ex_worker ''w1''), Take (ex_worker ''w2'')]
     ({}, mem_empty))) ''c5'' = Some ''w2''"
proof -
  let ?run = "lease_run worker_id (\<lambda>w s. try_acquire_ownership mem_redis w ''c5'' True s)
     (\<lambda>w s. extend_ownership mem_redis w ''c5'' s) (\<lambda>w s. release_ownership mem_redis w ''c5'' False s)
     [Take (ex_worker ''w1''), Take (ex_worker ''w2''), Give_up (ex_worker ''w1''), Take (ex_worker ''w2'')]
     ({}, mem_empty)"
  have "lease_ok mem_redis ''c5'' mem_empty" by (simp add: lease_ok_def mem_fields mem_empty_def)
  moreover have "''w2'' \<in> fst ?run" by code_simp
  ultimately show ?thesis
    using one_owner_at_a_time [where s = mem_empty and i = "''w2''" and j = "''w2''", OF mem.redis_axioms _ _ prod.collapse [symmetric]]
    by (simp del: lease_run.simps)
qed

text \<open>The last client left at 0; nobody comes back.\<close>

definition ex_left_alone :: mem where
  "ex_left_alone = mem_empty\<lparr>m_get := [Live (Last_client_disconnect ''c5'') \<mapsto> VTime 0]\<rparr>"

theorem shutdown_wait_ends_witness:
  "wait_for_shutdown_delay mem_redis ex_config (\<lambda>n. real n) (\<lambda>n s. s) (\<lambda>n s. s) ''c5'' 12 ex_left_alone \<noteq> None"
  using shutdown_wait_ends [of mem_redis "\<lambda>n s. s" "''c5''" "\<lambda>n. real n" ex_config ex_left_alone 0 10 "\<lambda>n s. s"]
  by (simp add: disconnect_time_def mem_fields ex_left_alone_def ex_config_def min_def)

theorem stopped_only_when_empty_witness:
  "\<exists>s'. wait_for_shutdown_delay mem_redis ex_config (\<lambda>n. real n) (\<lambda>n s. s) (\<lambda>n s. s) ''c5'' 12 ex_left_alone = Some (True, s') \<and>
    client_total mem_redis s' ''c5'' = 0"
proof -
  obtain s' where s': "wait_for_shutdown_delay mem_redis ex_config (\<lambda>n. real n) (\<lambda>n s. s) (\<lambda>n s. s) ''c5'' 12 ex_left_alone =
    Some (True, s')"
    using that by (simp add: wait_for_shutdown_delay_def ex_config_def client_total_def disconnect_time_def mem_fields
        ex_left_alone_def mem_empty_def eval_nat_numeral)
  show ?thesis using s' stopped_only_when_empty [OF s'] by (simp add: ex_config_def)
qed


text \<open>A start whose stream manager cannot be made.\<close>

definition ex_idle :: "string \<Rightarrow> worker" where
  "ex_idle i = \<lparr>worker_id = i, stream_managers = [], live_managers = [], stream_threads = [],
     stream_buffers = [], client_managers = [], output_managers = [], profile_managers = [],
     stopping_since = [], told_to_stop = []\<rparr>"

definition ex_start :: start_request where
  "ex_start = \<lparr>rq_url = Some ''http://provider/news'', rq_agent = None, rq_stream = None, rq_channel_name = None,
     rq_stream_name = None\<rparr>"

definition ex_started :: mem where
  "ex_started = release_ownership mem_redis (ex_idle ''w1'') ''c5'' False
     (r_expire mem_redis (hset_all mem_redis (metadata ''c5'')
        (start_metadata (ex_idle ''w1'') 100 ''c5'' ''http://provider/news'' (completed_request mem_redis mem_empty ''c5'' ex_start))
        (snd (try_acquire_ownership mem_redis (ex_idle ''w1'') ''c5'' True mem_empty))) (metadata ''c5'') REDIS_TTL_DEFAULT)"

lemma ex_start_done:
  "completed_request mem_redis mem_empty ''c5'' ex_start = ex_start"
  by (simp add: completed_request_def ex_start_def given_or_field_def text_or_def mem_fields mem_empty_def mem_lookup_def
      stream_field_def Let_def)

lemma ex_start_fields:
  "ex_started = r_del mem_redis (hset_all mem_redis (metadata ''c5'')
     (start_metadata (ex_idle ''w1'') 100 ''c5'' ''http://provider/news'' ex_start)
     (mem_empty\<lparr>m_get := [owner_key ''c5'' \<mapsto> VStr ''w1'']\<rparr>)) (owner_key ''c5'')"
proof -
  have take: "try_acquire_ownership mem_redis (ex_idle ''w1'') ''c5'' True mem_empty =
      (True, mem_empty\<lparr>m_get := [owner_key ''c5'' \<mapsto> VStr ''w1'']\<rparr>)"
    by (simp add: try_acquire_ownership_def r_setnx_def r_setex_def mem_redis_simps mem_empty_def ex_idle_def)
  have expire: "r_expire mem_redis s k t = s" for s k t by (simp add: mem_redis_simps)
  show ?thesis
    unfolding ex_started_def ex_start_done take snd_conv expire release_ownership_def release_seen_def get_channel_owner_def
      mem.hset_all_frame
    by (simp add: mem_fields ex_idle_def)
qed

lemma ex_start_given: "start_metadata (ex_idle ''w1'') 100 ''c5'' ''http://provider/news'' ex_start =
  [(''url'', VStr ''http://provider/news''), (''init_time'', VTime 100), (''last_active'', VTime 100),
   (''owner'', VStr ''w1''), (''state'', VStr ''initializing'')]"
  by (simp add: start_metadata_def ex_start_def ex_idle_def)

lemma ex_start_nothing: "release_stream_resources mem_redis ex_quiet ex_site ''c5'' ex_started = (False, ex_started)"
proof -
  have "r_get mem_redis ex_started (Channel_stream 5) = None"
    unfolding ex_start_fields mem.get_del mem.hset_all_frame by (simp add: mem_fields)
  moreover have "r_hget mem_redis ex_started (metadata ''c5'') ''stream_id'' = None"
    "r_hget mem_redis ex_started (metadata ''c5'') ''m3u_profile'' = None"
    unfolding ex_start_fields ex_start_given using mem.hget_hset_all
    by (simp_all add: mem.hash_del, simp_all add: mem_fields mem_empty_def mem_lookup_def)
  ultimately show ?thesis
    by (simp add: release_stream_resources_def ex_row release_stream_def get_int_def stream_field_def profile_field_def
        release_profile_slot_from_redis_metadata_def Let_def)
      (simp add: ex_channel_def ex_row release_profile_slot_from_redis_metadata_def profile_field_def)
qed

lemma ex_start_scan: "scan_complete mem_redis ex_scan ex_started ''c5''"
proof (rule ex_scan_complete)
  fix k
  have "r_get mem_redis ex_started k = None" "r_members mem_redis ex_started k = []" "r_count mem_redis ex_started k = 0"
    unfolding ex_start_fields ex_start_given by (simp_all add: hset_all_def mem.get_del mem.get_hset, simp_all add: mem_fields mem_empty_def)
  moreover assume "m_get ex_started k \<noteq> None \<or> m_members ex_started k \<noteq> [] \<or> m_count ex_started k \<noteq> 0"
  ultimately show "k \<in> {owner_key ''c5'', Live (Channel_stopping ''c5''), Live (Clients ''c5''), Live (Last_client_disconnect ''c5'')}"
    by (simp add: mem_fields)
qed

theorem failed_start_leaves_nothing_witness:
  "\<not> fst (initialize_channel mem_redis ex_quiet ex_site ex_scan True True False (ex_idle ''w1'') ''c5'' ex_start mem_empty) \<and>
   fst (try_acquire_ownership mem_redis (ex_idle ''w2'') ''c5'' True
     (snd (snd (initialize_channel mem_redis ex_quiet ex_site ex_scan True True False (ex_idle ''w1'') ''c5'' ex_start mem_empty))))"
proof -
  obtain b w' s' where start: "initialize_channel mem_redis ex_quiet ex_site ex_scan True True False (ex_idle ''w1'') ''c5''
    ex_start mem_empty = (b, w', s')" by (metis prod_cases3)
  have none: "r_get mem_redis mem_empty k = None" "r_hash mem_redis mem_empty k = []" for k
    by (simp_all add: mem_fields mem_empty_def mem_lookup_def)
  have url: "rq_url (completed_request mem_redis mem_empty ''c5'' ex_start) = Some ''http://provider/news''"
    by (simp only: ex_start_done) (simp add: ex_start_def)
  have "now ex_quiet = 100" by (simp add: ex_quiet_def)
  then have store: "failed_start_store mem_redis ex_quiet (ex_idle ''w1'') ''c5'' ex_start mem_empty = ex_started"
    by (simp only: failed_start_store_def url option.case ex_started_def)
  have free: "\<not> teardown_active mem_redis (ex_idle ''w1'') mem_empty ''c5''"
    "get_channel_owner mem_redis mem_empty ''c5'' = None" "lease_ok mem_redis ''c5'' mem_empty"
    "\<not> channel_proxy_is_active mem_redis mem_empty ''c5''"
    by (simp_all add: ex_idle_def teardown_active_def is_channel_teardown_active_def channel_state_of_def none
        r_exists_def get_channel_owner_def lease_ok_def channel_proxy_is_active_def)
  have scan: "scan_complete mem_redis ex_scan (snd (release_stream_resources mem_redis ex_quiet ex_site ''c5''
      (failed_start_store mem_redis ex_quiet (ex_idle ''w1'') ''c5'' ex_start mem_empty))) ''c5''"
    using ex_start_scan by (simp only: store ex_start_nothing snd_conv)
  have "worker_id (ex_idle ''w1'') \<noteq> []" "c \<notin> fst ` set (stopping_since (ex_idle i))" for i c
    by (simp_all add: ex_idle_def)
  with failed_start_leaves_nothing [OF mem.redis_axioms _ free(1) _ free(3) _ start scan, of "owner_key ''c5''" "ex_idle ''w2''"]
  show ?thesis
    by (simp add: start url free(2,4))
qed

end
