(* ===== verification/Device_Facts.thy ===== *)
theory Device_Facts
  imports One_Device Catchup_Views Channel_Facts
begin

text \<open>
  That a login's limit holds and which stream makes way, where it does not hold, and that a
  replaced device stays out as long as it should and no longer.
\<close>

section \<open>The limit\<close>

lemma sort_key_head: "sort_key f xs = y # ys \<Longrightarrow> y \<in> set xs \<and> (\<forall>x \<in> set xs. f y \<le> f x)"
proof -
  assume s: "sort_key f xs = y # ys"
  have "set (y # ys) = set xs" using set_sort [of f xs] by (simp add: s)
  moreover have "sorted (map f (y # ys))" using sorted_sort_key [of f xs] by (simp add: s)
  ultimately show ?thesis by auto
qed

lemma remdups_smaller: "y \<in> set ys \<Longrightarrow> y \<notin> set xs \<Longrightarrow> set xs \<subseteq> set ys \<Longrightarrow> length (remdups xs) < length (remdups ys)"
  by (simp add: length_remdups_card_conv) (metis List.finite_set psubsetI psubset_card_mono)

lemma targets_cases:
  assumes "cs \<noteq> []"
  obtains y where "y \<in> set cs" "\<forall>c \<in> set cs. termination_key st cs y \<le> termination_key st cs c"
    "termination_targets st cs =
      (if ignore_same_channel_connections st then filter (\<lambda>c. conn_media c = conn_media y) cs else [y])"
proof (cases "sort_key (termination_key st cs) cs")
  case Nil
  then show ?thesis using assms by (metis length_0_conv length_sort)
next
  case (Cons y ys)
  then show ?thesis using that [of y] sort_key_head [OF Cons] by (simp add: termination_targets_def)
qed

lemma target_first:
  assumes "t \<in> set (termination_targets st cs)"
  shows "t \<in> set cs \<and>
    (\<exists>h \<in> set cs. conn_media h = conn_media t \<and> (\<forall>c \<in> set cs. termination_key st cs h \<le> termination_key st cs c))"
proof -
  have "cs \<noteq> []" using assms by (auto simp: termination_targets_def)
  then obtain y where "y \<in> set cs" "\<forall>c \<in> set cs. termination_key st cs y \<le> termination_key st cs c"
      "termination_targets st cs =
        (if ignore_same_channel_connections st then filter (\<lambda>c. conn_media c = conn_media y) cs else [y])"
    by (rule targets_cases)
  with assms show ?thesis by (auto split: if_splits)
qed

lemma fewer_without:
  assumes "cs \<noteq> []"
  shows "stream_count st (filter (\<lambda>c. c \<notin> set (termination_targets st cs)) cs) < stream_count st cs"
proof -
  obtain y where y: "y \<in> set cs" "termination_targets st cs =
      (if ignore_same_channel_connections st then filter (\<lambda>c. conn_media c = conn_media y) cs else [y])"
    using targets_cases [OF assms] by metis
  show ?thesis
  proof (cases "ignore_same_channel_connections st")
    case True
    then have "set (termination_targets st cs) = {c \<in> set cs. conn_media c = conn_media y}"
      by (simp add: y(2))
    then have "filter (\<lambda>c. c \<notin> set (termination_targets st cs)) cs = filter (\<lambda>c. conn_media c \<noteq> conn_media y) cs"
      by (intro filter_cong) auto
    then show ?thesis
      using True y(1) by (auto simp: stream_count_def intro!: remdups_smaller [of "conn_media y"])
  next
    case False
    then have "filter (\<lambda>c. c \<notin> set (termination_targets st cs)) cs = filter (\<lambda>c. c \<noteq> y) cs"
      by (simp add: y(2))
    then show ?thesis using False y(1) by (simp add: stream_count_def length_filter_less)
  qed
qed

section \<open>What closing leaves alone\<close>

definition scans_own :: "('s \<Rightarrow> string \<Rightarrow> rkey list) \<Rightarrow> bool" where
  "scans_own scan \<longleftrightarrow> (\<forall>s c. \<forall>k \<in> set (scan s c). key_channel k = Some c)"

context redis
begin

lemma release_hold_replaced [simp]:
  "r_get R (release_profile_slot R pid s) (Replaced a b) = r_get R s (Replaced a b)"
  "r_get R (hold_and_release R e c pid s) (Replaced a b) = r_get R s (Replaced a b)"
  by (simp_all add: hold_and_release_def release_get)

lemma clear_assignment_get [simp]: "r_get R (clear_assignment_fields R c s) = r_get R s"
  by (simp add: clear_assignment_fields_def)

lemma release_stream_replaced [simp]:
  "r_get R (snd (release_stream R e ch s)) (Replaced a b) = r_get R s (Replaced a b)"
  "r_get R (snd (stream_release_stream R i s)) (Replaced a b) = r_get R s (Replaced a b)"
  by (simp_all add: release_stream_def stream_release_stream_def Let_def split: option.split)

lemma release_from_metadata_replaced [simp]:
  "r_get R (snd (release_profile_slot_from_redis_metadata R c s)) (Replaced a b) = r_get R s (Replaced a b)"
  by (simp add: release_profile_slot_from_redis_metadata_def Let_def split: option.split)

lemma resources_replaced [simp]:
  "r_get R (snd (release_stream_resources R e X c s)) (Replaced a b) = r_get R s (Replaced a b)"
  by (simp add: release_stream_resources_def Let_def split_def split: option.split list.split)

lemma clean_replaced:
  assumes "scans_own scan"
  shows "r_get R (clean_redis_keys R e X scan c s) (Replaced a b) = r_get R s (Replaced a b)"
proof -
  have "Replaced a b \<notin> set (scan t c)" for t using assms by (force simp: scans_own_def)
  then show ?thesis by (simp add: clean_redis_keys_def Let_def)
qed

lemma exists_replaced:
  "scans_own scan \<Longrightarrow> r_get R (snd (check_if_channel_exists R e X scan w c s)) (Replaced a b) = r_get R s (Replaced a b)"
  by (simp add: check_if_channel_exists_def Let_def clean_replaced split: option.split)

lemma ownership_replaced [simp]:
  "r_get R (snd (extend_ownership R w c s)) (Replaced a b) = r_get R s (Replaced a b)"
  by (simp add: extend_ownership_def r_setnx_def split: option.split)

lemma removed_replaced [simp]:
  "r_get R (snd (snd (snd (remove_client R g t w c cl s)))) (Replaced a b) = r_get R s (Replaced a b)"
  by (simp add: remove_client_def Let_def split_def set_disconnect_def notify_owner_of_activity_def)

lemma stop_client_replaced:
  "scans_own scan \<Longrightarrow>
   r_get R (snd (snd (snd (snd (stop_client R e X g scan c cl w s))))) (Replaced a b) = r_get R s (Replaced a b)"
  by (simp add: stop_client_def Let_def split_def exists_replaced)

lemma stop_now_replaced [simp]:
  "r_get R (stop_channel_now R e X hold c s) (Replaced a b) = r_get R s (Replaced a b)"
  by (simp add: stop_channel_now_def release_channel_slot_now_def split: option.split)

lemma forget_clients_replaced [simp]: "r_get R (forget_clients R c s) (Replaced a b) = r_get R s (Replaced a b)"
proof -
  have "r_get R (foldl (\<lambda>t cl. r_del R t (Live (Client_metadata c cl))) s xs) (Replaced a b) = r_get R s (Replaced a b)" for xs
    by (induction xs arbitrary: s) simp_all
  then show ?thesis by (simp add: forget_clients_def)
qed

lemma stop_keys_replaced [simp]:
  "r_get R (set_timeshift_stop_keys R gens sc cl reason s) (Replaced a b) = r_get R s (Replaced a b)"
  unfolding set_timeshift_stop_keys_def
  by (rule foldl_keeps [where P = "\<lambda>t. r_get R t (Replaced a b) = r_get R s (Replaced a b)"]) simp_all

lemma cleanup_replaced [simp]:
  "r_get R (cleanup_all_stream_generations R vids cl t) (Replaced a b) = r_get R t (Replaced a b)"
  using foldl_keeps [where P = "\<lambda>u. r_get R u (Replaced a b) = r_get R t (Replaced a b)" and s = t and xs = vids and
    f = "\<lambda>t vid. r_del R t (Catchup_generation vid cl)"]
  by (simp add: cleanup_all_stream_generations_def)

lemma finalize_replaced [simp]:
  "r_get R (snd (finalize_playback_session_auth R cl s)) (Replaced a b) = r_get R s (Replaced a b)"
  by (simp add: finalize_playback_session_auth_def delete_sessions delete_session Let_def)

lemma unregister_replaced [simp]:
  "r_get R (unregister_stats_client R sc cl s) (Replaced a b) = r_get R s (Replaced a b)"
  by (simp add: unregister_stats_client_def Let_def)

lemma end_viewing_replaced [simp]:
  "r_get R (snd (end_viewing R gens sc cl s)) (Replaced a b) = r_get R s (Replaced a b)"
  unfolding end_viewing_def Let_def by simp

lemma close_replaced:
  "scans_own (sur_scan E) \<Longrightarrow>
   r_get R (snd (close_stream R E asked d x ws)) (Replaced a b) = r_get R (snd ws) (Replaced a b)"
  by (simp add: close_stream_def close_client_def stop_timeshift_client_def clear_stats_grace_schedule_def Let_def split_def
      stop_client_replaced split: conn_kind.split)

lemma closes_replaced:
  "scans_own (sur_scan E) \<Longrightarrow>
   r_get R (snd (fold (close_stream R E asked d) xs ws)) (Replaced a b) = r_get R (snd ws) (Replaced a b)"
  by (induction xs arbitrary: ws) (simp_all add: close_replaced)

end

section \<open>A connection that is ended\<close>

text \<open>
  Where a stream looks for its end: a live client's stop key (or its record, which is gone with it),
  the stop key of a catch-up viewing under the programme it is on, and that of a movie's session.
\<close>

definition client_told :: "'s redis_api \<Rightarrow> 's \<Rightarrow> string \<Rightarrow> string \<Rightarrow> bool" where
  "client_told R s c cl \<longleftrightarrow>
     r_get R s (Live (Client_stop c cl)) \<noteq> None \<or> r_hash R s (Live (Client_metadata c cl)) = []"

definition viewing_programme :: "'s redis_api \<Rightarrow> 's \<Rightarrow> connection \<Rightarrow> string" where
  "viewing_programme R s c =
     (let vid = entry_text (r_hash R s (Timeshift_client (conn_media c) (conn_client c))) ''programme_vid''
      in if vid = [] then conn_media c else vid)"

definition told_to_end :: "'s redis_api \<Rightarrow> 's \<Rightarrow> connection \<Rightarrow> bool" where
  "told_to_end R s c \<longleftrightarrow>
     (case conn_kind c of
        Live_conn \<Rightarrow> client_told R s (conn_media c) (conn_client c)
      | Timeshift_conn \<Rightarrow>
          viewing_programme R s c = [] \<or>
          r_get R s (Catchup_stop (viewing_programme R s c) (conn_client c)) \<noteq> None
      | Vod_conn \<Rightarrow> r_get R s (Vod_stop (conn_client c)) \<noteq> None)"

text \<open>A key scan finds the records of the channel's clients.\<close>

definition scan_finds_clients :: "'s redis_api \<Rightarrow> ('s \<Rightarrow> string \<Rightarrow> rkey list) \<Rightarrow> bool" where
  "scan_finds_clients R scan \<longleftrightarrow>
     (\<forall>s c cl. r_hash R s (Live (Client_metadata c cl)) \<noteq> [] \<longrightarrow> Live (Client_metadata c cl) \<in> set (scan s c))"

fun stop_mark :: "rkey \<Rightarrow> bool" where
  "stop_mark (Live (Client_stop _ _)) = True"
| "stop_mark (Catchup_stop _ _) = True"
| "stop_mark (Vod_stop _) = True"
| "stop_mark _ = False"

fun conn_record :: "rkey \<Rightarrow> bool" where
  "conn_record (Live (Client_metadata _ _)) = True"
| "conn_record (Timeshift_client _ _) = True"
| "conn_record (Vod_connection _) = True"
| "conn_record _ = False"

text \<open>What ending a connection leaves of the marks and records of the others.\<close>

definition marks_kept :: "'s redis_api \<Rightarrow> 's \<Rightarrow> 's \<Rightarrow> bool" where
  "marks_kept R s s' \<longleftrightarrow>
     (\<forall>k. stop_mark k \<and> key_channel k = None \<longrightarrow> r_get R s k \<noteq> None \<longrightarrow> r_get R s' k \<noteq> None) \<and>
     (\<forall>k. conn_record k \<and> key_channel k = None \<longrightarrow> r_hash R s' k = r_hash R s k) \<and>
     (\<forall>c cl. client_told R s c cl \<longrightarrow> client_told R s' c cl)"

lemma marks_kept_refl [simp]: "marks_kept R s s"
  by (simp add: marks_kept_def)

lemma marks_kept_trans: "marks_kept R s t \<Longrightarrow> marks_kept R t u \<Longrightarrow> marks_kept R s u"
  unfolding marks_kept_def by metis

lemma marks_keptI:
  assumes "\<And>k. stop_mark k \<Longrightarrow> r_get R s k \<noteq> None \<Longrightarrow> r_get R s' k \<noteq> None"
    and "\<And>k. conn_record k \<Longrightarrow> r_hash R s' k = r_hash R s k"
  shows "marks_kept R s s'"
proof -
  have "client_told R s' c cl" if "client_told R s c cl" for c cl
    using that assms(1) [of "Live (Client_stop c cl)"] assms(2) [of "Live (Client_metadata c cl)"]
    unfolding client_told_def by (metis conn_record.simps(1) stop_mark.simps(1))
  then show ?thesis using assms unfolding marks_kept_def by blast
qed

lemma told_kept:
  assumes "marks_kept R s s'" and "told_to_end R s c"
  shows "told_to_end R s' c"
proof (cases "conn_kind c")
  case Live_conn
  with assms show ?thesis by (simp add: marks_kept_def told_to_end_def)
next
  case Timeshift_conn
  have "r_hash R s' (Timeshift_client (conn_media c) (conn_client c)) =
      r_hash R s (Timeshift_client (conn_media c) (conn_client c))"
    using assms(1) by (simp add: marks_kept_def)
  moreover have "r_get R s (Catchup_stop x y) \<noteq> None \<longrightarrow> r_get R s' (Catchup_stop x y) \<noteq> None" for x y
    using assms(1) unfolding marks_kept_def by (metis key_channel.simps stop_mark.simps(2))
  ultimately show ?thesis
    using assms(2) Timeshift_conn by (auto simp: told_to_end_def viewing_programme_def)
next
  case Vod_conn
  have "r_get R s (Vod_stop x) \<noteq> None \<longrightarrow> r_get R s' (Vod_stop x) \<noteq> None" for x
    using assms(1) unfolding marks_kept_def by (metis key_channel.simps stop_mark.simps(3))
  then show ?thesis using assms(2) Vod_conn by (auto simp: told_to_end_def)
qed

context redis
begin

lemma release_marks:
  "stop_mark k \<Longrightarrow> r_get R (release_profile_slot R pid s) k = r_get R s k"
  "stop_mark k \<Longrightarrow> r_get R (hold_and_release R e c pid s) k = r_get R s k"
  by (cases k; simp add: hold_and_release_def release_get)+

lemma resources_marks:
  assumes "stop_mark k"
  shows "r_get R (snd (release_stream_resources R e X c s)) k = r_get R s k"
proof -
  have n: "k \<noteq> Channel_stream i" "k \<noteq> Stream_profile i" for i using assms by auto
  have "r_get R (snd (release_stream R e ch t)) k = r_get R t k"
    and "r_get R (snd (stream_release_stream R i t)) k = r_get R t k"
    and "r_get R (snd (release_profile_slot_from_redis_metadata R c t)) k = r_get R t k" for ch i t
    using assms n
    by (simp_all add: release_stream_def stream_release_stream_def release_profile_slot_from_redis_metadata_def
        release_marks Let_def split: option.split)
  then show ?thesis
    by (simp add: release_stream_resources_def Let_def split_def split: option.split list.split)
qed

lemma resources_records:
  assumes "conn_record k"
  shows "r_hash R (snd (release_stream_resources R e X c s)) k = r_hash R s k"
proof -
  have n: "k \<noteq> Channel_stream i" "k \<noteq> Stream_profile i" "k \<noteq> Profile_credential_release i"
    "k \<noteq> Held_slots i" "k \<noteq> Held_login_slots j" "k \<noteq> Channel_viewers x" "k \<noteq> metadata x" for i j x
    using assms by auto
  have "r_hash R (hold_and_release R e x pid t) k = r_hash R t k" for x pid t
    using n by (simp add: hold_and_release_def hold_slot_for_viewer_def hold_slot_def Let_def split: option.split)
  then have "r_hash R (snd (release_stream R e ch t)) k = r_hash R t k"
    and "r_hash R (snd (stream_release_stream R i t)) k = r_hash R t k"
    and "r_hash R (snd (release_profile_slot_from_redis_metadata R c t)) k = r_hash R t k" for ch i t
    using n
    by (simp_all add: release_stream_def stream_release_stream_def release_profile_slot_from_redis_metadata_def
        clear_assignment_fields_def Let_def split: option.split)
  then show ?thesis
    by (simp add: release_stream_resources_def Let_def split_def split: option.split list.split)
qed

lemma clean_marks_kept:
  assumes own: "scans_own scan" and finds: "scan_finds_clients R scan"
  shows "marks_kept R s (clean_redis_keys R e X scan c s)"
proof -
  let ?t = "snd (release_stream_resources R e X c s)"
  have out: "k \<notin> set (scan ?t c)" if "key_channel k \<noteq> Some c" for k
    using own that by (auto simp: scans_own_def)
  have "client_told R (clean_redis_keys R e X scan c s) x cl" if told: "client_told R s x cl" for x cl
  proof (cases "x = c")
    case True
    have "r_hash R (clean_redis_keys R e X scan c s) (Live (Client_metadata c cl)) = []"
      using finds by (auto simp: clean_redis_keys_def Let_def scan_finds_clients_def)
    then show ?thesis by (simp add: client_told_def True)
  next
    case False
    then show ?thesis
      using told out [of "Live (Client_stop x cl)"] out [of "Live (Client_metadata x cl)"]
      by (simp add: client_told_def clean_redis_keys_def Let_def resources_marks resources_records)
  qed
  then show ?thesis
    using out by (simp add: marks_kept_def clean_redis_keys_def Let_def resources_marks resources_records)
qed

lemma exists_marks_kept:
  "scans_own scan \<Longrightarrow> scan_finds_clients R scan \<Longrightarrow>
   marks_kept R s (snd (check_if_channel_exists R e X scan w c s))"
  by (simp add: check_if_channel_exists_def Let_def clean_marks_kept split: option.split)

lemma removed_marks:
  "stop_mark k \<Longrightarrow> r_get R (snd (snd (snd (remove_client R g t w c cl s)))) k = r_get R s k"
  "conn_record k \<Longrightarrow> r_hash R (snd (snd (snd (remove_client R g t w c cl s)))) k =
     (if k = Live (Client_metadata c cl) then [] else r_hash R s k)"
proof -
  have 1: "r_get R (snd (extend_ownership R x c u)) k = r_get R u k" if "stop_mark k" for x u k
  proof -
    have "k \<noteq> owner_key c" using that by auto
    then show ?thesis by (simp add: extend_ownership_def r_setnx_def split: option.split)
  qed
  have 2: "r_hash R (snd (extend_ownership R x c u)) k = r_hash R u k" for x u k
    by (simp add: extend_ownership_def split: option.split)
  show "stop_mark k \<Longrightarrow> r_get R (snd (snd (snd (remove_client R g t w c cl s)))) k = r_get R s k"
    by (cases k rule: stop_mark.cases)
      (simp_all add: remove_client_def Let_def split_def set_disconnect_def notify_owner_of_activity_def 1)
  show "conn_record k \<Longrightarrow> r_hash R (snd (snd (snd (remove_client R g t w c cl s)))) k =
     (if k = Live (Client_metadata c cl) then [] else r_hash R s k)"
    by (simp add: remove_client_def Let_def split_def set_disconnect_def notify_owner_of_activity_def 2)
qed

lemma removed_marks_kept: "marks_kept R s (snd (snd (snd (remove_client R g t w c cl s))))"
proof -
  have "client_told R (snd (snd (snd (remove_client R g t w c cl s)))) x y" if "client_told R s x y" for x y
    using that by (simp add: client_told_def removed_marks)
  then show ?thesis by (auto simp: marks_kept_def removed_marks)
qed

text \<open>An ended connection is told, and the ones told before stay so.\<close>

lemma end_connection_kept:
  assumes "scans_own scan" "scan_finds_clients R scan"
  shows "marks_kept R (snd ws) (snd (end_connection R e X g scan gens c ws))"
proof -
  obtain w s where ws: "ws = (w, s)" by (cases ws)
  show ?thesis
  proof (cases "conn_kind c")
    case Live_conn
    let ?s1 = "r_setex R s (Live (Client_stop (conn_media c) (conn_client c))) 30 (VStr ''true'')"
    have "marks_kept R s ?s1" by (rule marks_keptI) auto
    note k = marks_kept_trans [OF this exists_marks_kept [OF assms, of ?s1 e X w "conn_media c"]]
    show ?thesis
      using k marks_kept_trans [OF k removed_marks_kept]
      by (simp add: end_connection_def ws Live_conn stop_client_def Let_def split_def)
  next
    case Timeshift_conn
    have "r_hash R (set_timeshift_stop_keys R gens m cl r t) k = r_hash R t k" for m cl r t k
      unfolding set_timeshift_stop_keys_def
      by (rule foldl_keeps [where P = "\<lambda>u. r_hash R u k = r_hash R t k"]) simp_all
    moreover have "r_get R (set_timeshift_stop_keys R gens m cl r t) k \<noteq> None" if "r_get R t k \<noteq> None" for m cl r t k
      unfolding set_timeshift_stop_keys_def
      by (rule foldl_keeps [where P = "\<lambda>u. r_get R u k \<noteq> None"]) (use that in auto)
    ultimately show ?thesis
      unfolding end_connection_def ws Timeshift_conn by (auto intro: marks_keptI)
  next
    case Vod_conn
    then show ?thesis by (auto simp: end_connection_def ws intro!: marks_keptI)
  qed
qed

lemma stop_keys_set:
  "x \<in> set vids \<Longrightarrow> r_get R (foldl (\<lambda>t vid. r_setex R t (Catchup_stop vid cl) 60 v) s vids) (Catchup_stop x cl) \<noteq> None"
  by (induction vids rule: rev_induct) auto

lemma end_connection_told:
  assumes "scans_own scan" "scan_finds_clients R scan"
    and "conn_kind c = Vod_conn \<Longrightarrow> r_hash R (snd ws) (Vod_connection (conn_client c)) \<noteq> []"
  shows "told_to_end R (snd (end_connection R e X g scan gens c ws)) c"
proof -
  obtain w s where ws: "ws = (w, s)" by (cases ws)
  show ?thesis
  proof (cases "conn_kind c")
    case Live_conn
    let ?s1 = "r_setex R s (Live (Client_stop (conn_media c) (conn_client c))) 30 (VStr ''true'')"
    have "told_to_end R ?s1 c" by (simp add: told_to_end_def Live_conn client_told_def)
    note k = told_kept [OF exists_marks_kept [OF assms(1,2), of ?s1 e X w "conn_media c"] this]
    show ?thesis
      using k told_kept [OF removed_marks_kept k]
      by (simp add: end_connection_def ws Live_conn stop_client_def Let_def split_def)
  next
    case Timeshift_conn
    have h: "r_hash R (set_timeshift_stop_keys R gens m cl r t) k = r_hash R t k" for m cl r t k
      unfolding set_timeshift_stop_keys_def
      by (rule foldl_keeps [where P = "\<lambda>u. r_hash R u k = r_hash R t k"]) simp_all
    let ?m = "conn_media c" and ?cl = "conn_client c" and ?x = "viewing_programme R s c"
    let ?t = "set_timeshift_stop_keys R gens (conn_media c) (conn_client c) Limit s"
    have "?x \<in> set (timeshift_stop_channel_ids R gens ?m ?cl s)" if "?x \<noteq> []"
      using that by (simp add: timeshift_stop_channel_ids_def viewing_programme_def Let_def)
    then have "r_get R ?t (Catchup_stop ?x ?cl) \<noteq> None" if "?x \<noteq> []"
      using that stop_keys_set unfolding set_timeshift_stop_keys_def by blast
    moreover have "viewing_programme R ?t c = ?x" by (simp add: viewing_programme_def h)
    ultimately show ?thesis
      by (auto simp: end_connection_def ws Timeshift_conn told_to_end_def)
  next
    case Vod_conn
    then show ?thesis using assms(3) by (simp add: end_connection_def ws told_to_end_def)
  qed
qed

lemma ended_kept:
  assumes "scans_own scan" "scan_finds_clients R scan"
  shows "marks_kept R (snd ws) (snd (fold (end_connection R e X g scan gens) ts ws))"
proof (induction ts arbitrary: ws)
  case (Cons c ts)
  from marks_kept_trans [OF end_connection_kept [OF assms] Cons.IH] show ?case by simp
qed simp

lemma ended_told:
  assumes "scans_own scan" "scan_finds_clients R scan"
    and "\<forall>c \<in> set ts. conn_kind c = Vod_conn \<longrightarrow> r_hash R (snd ws) (Vod_connection (conn_client c)) \<noteq> []"
  shows "\<forall>c \<in> set ts. told_to_end R (snd (fold (end_connection R e X g scan gens) ts ws)) c"
  using assms(3)
proof (induction ts arbitrary: ws)
  case (Cons c ts)
  let ?ws = "end_connection R e X g scan gens c ws"
  have kept: "marks_kept R (snd ws) (snd ?ws)" by (rule end_connection_kept [OF assms(1,2)])
  then have "\<forall>k. r_hash R (snd ?ws) (Vod_connection k) = r_hash R (snd ws) (Vod_connection k)"
    by (simp add: marks_kept_def)
  then have "\<forall>c \<in> set ts. told_to_end R (snd (fold (end_connection R e X g scan gens) ts ?ws)) c"
    using Cons.prems by (intro Cons.IH) simp
  moreover have "told_to_end R (snd ?ws) c"
    using Cons.prems by (intro end_connection_told [OF assms(1,2)]) simp
  ultimately show ?case
    using told_kept [OF ended_kept [OF assms(1,2)]] by simp
qed simp

end

text \<open>
  What a login plays: the connections whose record names it and has a time that can be read.
\<close>

definition plays :: "'s redis_api \<Rightarrow> 's \<Rightarrow> int \<Rightarrow> connection \<Rightarrow> bool" where
  "plays R s u x \<longleftrightarrow>
     (\<exists>k kd c cl. conn_of_key k = Some (kd, c, cl) \<and> r_hash R s k \<noteq> [] \<and>
        is_users (Some u) (r_hash R s k) = Some True \<and> as_connection kd c cl (r_hash R s k) = Some x)"

text \<open>No record has a user that is no number.\<close>

definition users_readable :: "'s redis_api \<Rightarrow> 's \<Rightarrow> int \<Rightarrow> bool" where
  "users_readable R s u \<longleftrightarrow>
     (\<forall>k. conn_of_key k \<noteq> None \<and> r_hash R s k \<noteq> [] \<longrightarrow> is_users (Some u) (r_hash R s k) \<noteq> None)"

context redis
begin

lemma found_connections:
  "y \<in> set (connections_of_kind R s usr kind) \<longleftrightarrow>
     (\<exists>k c cl. r_hash R s k \<noteq> [] \<and> conn_of_key k = Some (kind, c, cl) \<and>
        y = map_option (\<lambda>mine. if mine then as_connection kind c cl (r_hash R s k) else None)
              (is_users usr (r_hash R s k)))"
proof -
  have "(case conn_of_key k of None \<Rightarrow> None
         | Some (kd, c, cl) \<Rightarrow>
             (if kd \<noteq> kind then None
              else Some (map_option (\<lambda>mine. if mine then as_connection kind c cl (r_hash R s k) else None)
                           (is_users usr (r_hash R s k))))) = Some y \<longleftrightarrow>
      (\<exists>c cl. conn_of_key k = Some (kind, c, cl) \<and>
        y = map_option (\<lambda>mine. if mine then as_connection kind c cl (r_hash R s k) else None)
              (is_users usr (r_hash R s k)))" for k
    by (cases "conn_of_key k") (auto split: if_splits)
  then show ?thesis
    unfolding connections_of_kind_def map_filter_member set_hkeys by simp
qed

lemma measured_connections:
  assumes "users_readable R s u"
  shows "x \<in> set (get_user_active_connections R s (Some u)) \<longleftrightarrow> plays R s u x"
proof -
  define found where "found = concat (map (connections_of_kind R s (Some u)) [Live_conn, Timeshift_conn, Vod_conn])"
  have mem: "y \<in> set found \<longleftrightarrow> (\<exists>kind. y \<in> set (connections_of_kind R s (Some u) kind))" for y
  proof
    assume "\<exists>kind. y \<in> set (connections_of_kind R s (Some u) kind)"
    then obtain kind where "y \<in> set (connections_of_kind R s (Some u) kind)" ..
    then show "y \<in> set found" by (cases kind) (simp_all add: found_def)
  qed (auto simp: found_def)
  have none: "None \<notin> set found"
  proof
    assume "None \<in> set found"
    then obtain k kind c cl where "r_hash R s k \<noteq> []" "conn_of_key k = Some (kind, c, cl)"
      "is_users (Some u) (r_hash R s k) = None"
      unfolding mem found_connections by auto
    with assms show False unfolding users_readable_def by (metis option.distinct(1))
  qed
  have some: "Some (Some x) \<in> set found \<longleftrightarrow> plays R s u x"
  proof -
    have "Some (Some x) = map_option (\<lambda>mine. if mine then a else None) b \<longleftrightarrow> b = Some True \<and> a = Some x"
      for a :: "connection option" and b by (cases b) auto
    then show ?thesis unfolding mem found_connections plays_def by blast
  qed
  have "get_user_active_connections R s (Some u) = List.map_filter (\<lambda>x. Option.bind x id) found"
    using none by (simp add: get_user_active_connections_def found_def Let_def)
  then have "x \<in> set (get_user_active_connections R s (Some u)) \<longleftrightarrow> (\<exists>y \<in> set found. Option.bind y id = Some x)"
    by (simp add: map_filter_member)
  also have "\<dots> \<longleftrightarrow> Some (Some x) \<in> set found"
    by (metis (no_types, opaque_lifting) bind.bind_lunit bind_eq_Some_conv id_apply)
  finally show ?thesis using some by simp
qed

lemma plays_movie:
  "plays R s u x \<Longrightarrow> conn_kind x = Vod_conn \<Longrightarrow> r_hash R s (Vod_connection (conn_client x)) \<noteq> []"
  by (auto simp: plays_def as_connection_def elim!: conn_of_key.elims)

end

section \<open>A replaced device\<close>

lemma devices_of_member: "d \<in> set (devices_of hs) \<longleftrightarrow> (\<exists>x. (d, x) \<in> set hs)"
  by (force simp: devices_of_def)

context redis
begin

lemma replaced_stays:
  "scans_own (sur_scan E) \<Longrightarrow> d \<noteq> a \<Longrightarrow>
   r_get R (snd (replace_device R E u me name asked holding d ws)) (replaced_key u a) = r_get R (snd ws) (replaced_key u a)"
  by (simp add: replace_device_def replaced_key_def closes_replaced)

lemma replaced_now:
  "scans_own (sur_scan E) \<Longrightarrow>
   r_get R (snd (replace_device R E u me name asked holding a ws)) (replaced_key u a) =
     Some (VPair (VStr me) (VPair (VStr name) (VTime (now (sur_env E)))))"
  by (simp add: replace_device_def replaced_key_def closes_replaced)

lemma all_replaced:
  assumes "scans_own (sur_scan E)" "a \<in> set ds"
  shows "r_get R (snd (fold (replace_device R E u me name asked holding) ds ws)) (replaced_key u a) =
     Some (VPair (VStr me) (VPair (VStr name) (VTime (now (sur_env E)))))"
  using assms(2)
proof (induction ds arbitrary: ws rule: rev_induct)
  case (snoc d ds)
  then show ?case by (cases "d = a") (simp_all add: replaced_now replaced_stays assms(1))
qed simp

text \<open>What a device that was told it is replaced finds.\<close>

lemma told_replaced:
  assumes "scans_own (sur_scan E)" "applies_to st v = Some u" "server_device (the v) = Some me"
    and "check_device R E st v take_over channels cl ws = (None, told, w1, s1)" "a \<in> set told"
  shows "\<exists>name. r_get R s1 (replaced_key u a) = Some (VPair (VStr me) (VPair (VStr name) (VTime (now (sur_env E)))))"
proof -
  have "Option.bind v server_device = Some me" using assms(2,3) by (cases v) (simp_all add: applies_to_def)
  moreover have told: "replace_others R E u me channels holding w s = (None, told, w1, s1) \<Longrightarrow> ?thesis" for holding w s
    using all_replaced [OF assms(1), of a told] assms(5)
    by (auto simp: replace_others_def) (metis snd_conv)
  ultimately show ?thesis
    using assms(2,4,5) by (auto simp: check_device_def Let_def text_or_def split: prod.splits if_splits option.splits)
qed

lemma refused:
  assumes "applies_to st v = Some u" "server_device (the v) = Some me" "channels = [] \<or> \<not> joins_running_channel R s (last channels)"
    and "r_get R s (replaced_key u me) = Some (VPair (VStr by) (VPair (VStr name) (VTime t)))"
    and "by \<notin> set (linked_with R (note_client R cl me s) me)"
  shows "fst (check_device R E st v False channels cl (w, s)) =
    (if by \<in> fst ` set (streams_by_device R (note_client R cl me s) u) \<and> by \<noteq> me \<or> now (sur_env E) - t < STARTING_SECONDS
     then Some (refuse name by) else None)"
proof -
  have "Option.bind v server_device = Some me" using assms(1,2) by (cases v) (simp_all add: applies_to_def)
  moreover have "r_get R (note_client R cl me s) (replaced_key u me) = r_get R s (replaced_key u me)"
    by (simp add: note_client_def replaced_key_def)
  ultimately have "check_device R E st v False channels cl (w, s) =
    (let holding = filter (\<lambda>x. fst x \<noteq> me \<and> fst x \<notin> set (linked_with R (note_client R cl me s) me))
                     (streams_by_device R (note_client R cl me s) u)
     in if by \<in> set (devices_of holding) \<or> now (sur_env E) - t < STARTING_SECONDS
        then (Some (refuse name by), [], (w, note_client R cl me s))
        else replace_others R E u me channels holding w (r_del R (note_client R cl me s) (replaced_key u me)))"
    using assms by (auto simp: check_device_def Let_def replaced_by_def text_or_def)
  then show ?thesis using assms(5) by (force simp: Let_def replace_others_def devices_of_member)
qed

end

section \<open>Properties\<close>

text \<open>
  C22: A request that passes the check leaves its login within its limit. Where every record names
  its user by a number, what is counted is just what the login plays; at the limit the streams that
  make way are, of all of these, the ones on what comes first by the settings (one of a shared
  channel last, a single viewer's first, then by age), each of them finds where it looks that it
  has to end, and those that are not to end leave room for one more. Below the limit none is
  ended. (The login was within its limit before, the request continues no viewing of its own, and
  the key scans find the channel's own keys and its clients' records. A record whose user is no
  number switches the limit off.)
\<close>

theorem limit_leaves_room:
  assumes "redis R" "scans_own scan" "scan_finds_clients R scan"
    and "check_user_stream_limits R e X g scan gens st (Some u) cl media (w, s) = (True, w', s')"
    and "0 < stream_limit u" "cs = get_user_active_connections R s (Some (lu_id u))"
    and "users_readable R s (lu_id u)"
    and "int (stream_count st cs) \<le> stream_limit u"
    and "\<forall>c \<in> set cs. \<not> same_timeshift_session cl media c"
    and "ignore_same_channel_connections st \<longrightarrow> media \<notin> conn_media ` set (filter (\<lambda>c. conn_kind c = Live_conn) cs)"
    and "ended = (if int (stream_count st cs) < stream_limit u then [] else termination_targets st cs)"
  shows "(\<forall>x. x \<in> set cs \<longleftrightarrow> plays R s (lu_id u) x) \<and>
    (w', s') = fold (end_connection R e X g scan gens) ended (w, s) \<and>
    (\<forall>t \<in> set ended. t \<in> set cs \<and> told_to_end R s' t \<and>
       (\<exists>h \<in> set cs. conn_media h = conn_media t \<and> (\<forall>c \<in> set cs. termination_key st cs h \<le> termination_key st cs c))) \<and>
    int (stream_count st (filter (\<lambda>c. \<not> (c \<in> set ended \<and> told_to_end R s' c)) cs)) < stream_limit u"
proof -
  have cs: "x \<in> set cs \<longleftrightarrow> plays R s (lu_id u) x" for x
    unfolding assms(6) by (rule redis.measured_connections [OF assms(1,7)])
  have w': "(w', s') = fold (end_connection R e X g scan gens) ended (w, s)"
    and some: "\<not> int (stream_count st cs) < stream_limit u \<Longrightarrow> cs \<noteq> []"
    using assms(4-6,9-11)
    by (auto simp: check_user_stream_limits_def Let_def attempt_stream_termination_def
        termination_targets_def split: if_splits)
  have ended: "t \<in> set ended \<Longrightarrow> t \<in> set cs \<and>
      (\<exists>h \<in> set cs. conn_media h = conn_media t \<and> (\<forall>c \<in> set cs. termination_key st cs h \<le> termination_key st cs c))" for t
    by (rule target_first [of t st cs]) (simp add: assms(11) split: if_splits)
  have "\<forall>t \<in> set ended. told_to_end R s' t"
    using redis.ended_told [OF assms(1-3), of ended "(w, s)" e X g gens] ended redis.plays_movie [OF assms(1)] cs
    unfolding w' [symmetric] snd_conv by blast
  moreover from this have "filter (\<lambda>c. \<not> (c \<in> set ended \<and> told_to_end R s' c)) cs = filter (\<lambda>c. c \<notin> set ended) cs"
    by (intro filter_cong) auto
  moreover have "int (stream_count st (filter (\<lambda>c. c \<notin> set ended) cs)) < stream_limit u"
    using fewer_without [OF some, of st] assms(8,11) by auto
  ultimately show ?thesis using cs w' ended by simp
qed

text \<open>
  One movie played by nobody's login lifts every limit: its record has the user ``unknown'',
  which is no number, the reading of any login's connections fails at it, and the login has none.
\<close>

theorem anonymous_movie_lifts_limits:
  assumes "redis R" "r_hget R s (Vod_connection sess) ''user_id'' = Some (VStr ''unknown'')"
    and "0 < stream_limit u"
  shows "get_user_active_connections R s (Some (lu_id u)) = [] \<and>
    check_user_stream_limits R e X g scan gens st (Some u) cl media (w, s) = (True, w, s)"
proof -
  let ?k = "Vod_connection sess"
  have "?k \<in> set (r_hkeys R s)" using assms(2) redis.set_hkeys [OF assms(1)] by force
  moreover have "parse_int ''unknown'' = None" by code_simp
  ultimately have "None \<in> set (connections_of_kind R s (Some (lu_id u)) Vod_conn)"
    using assms(2) by (auto simp: connections_of_kind_def map_filter_member is_users_def intro!: bexI [where x = ?k])
  then have none: "get_user_active_connections R s (Some (lu_id u)) = []"
    by (simp add: get_user_active_connections_def Let_def)
  then show ?thesis using assms(3) by (simp add: check_user_stream_limits_def Let_def stream_count_def)
qed


text \<open>
  C23: A device that another replaced is refused while the other holds a stream, and for twenty seconds
  in any case, and the answer names the one that replaced it. Then it is let in again, without anybody
  pressing anything. It does not take over, is not on a channel that runs already, and does not watch
  together with the other.
\<close>

theorem replaced_device_waits:
  assumes "redis R" "scans_own (sur_scan E)" "applies_to st (Some v) = Some u" "server_device v = Some b"
    and "check_device R E st (Some v) take_over channels cl ws = (None, told, w1, s1)" "a \<in> set told"
    and "r_get R s2 (replaced_key u a) = r_get R s1 (replaced_key u a)"
    and "applies_to st2 (Some v2) = Some u" "server_device v2 = Some a"
    and "channels2 = [] \<or> \<not> joins_running_channel R s2 (last channels2)"
    and "b \<notin> set (linked_with R (note_client R cl2 a s2) a)"
  shows "\<exists>name. fst (check_device R E2 st2 (Some v2) False channels2 cl2 (w2, s2)) =
    (if b \<in> fst ` set (streams_by_device R (note_client R cl2 a s2) u) \<and> b \<noteq> a \<or>
        now (sur_env E2) - now (sur_env E) < STARTING_SECONDS
     then Some (refuse name b) else None)"
proof -
  obtain name where "r_get R s1 (replaced_key u a) = Some (VPair (VStr b) (VPair (VStr name) (VTime (now (sur_env E)))))"
    using redis.told_replaced [OF assms(1-3) _ assms(5,6)] assms(4) by auto
  then have "r_get R s2 (replaced_key u a) = Some (VPair (VStr b) (VPair (VStr name) (VTime (now (sur_env E)))))"
    using assms(7) by simp
  then show ?thesis using redis.refused [OF assms(1,8) _ assms(10) _ assms(11)] assms(9) by auto
qed


section \<open>Two devices of one login\<close>

definition ex_limits :: limit_settings where
  "ex_limits = \<lparr>terminate_on_limit_exceeded = True, prioritize_single_client_channels = True,
     ignore_same_channel_connections = False, terminate_oldest = True\<rparr>"

definition ex_user :: limited_user where
  "ex_user = \<lparr>lu_id = 3, stream_limit = 1\<rparr>"

definition ex_tv :: string where "ex_tv = ''app|3|tv''"
definition ex_tablet :: string where "ex_tablet = ''app|3|tablet''"

text \<open>The TV plays a movie.\<close>

definition ex_movie :: "string \<Rightarrow> mem" where
  "ex_movie login = mem_empty\<lparr>m_hash :=
     [(Vod_connection ''m1'', [(''user_id'', VStr login), (''created_at'', VTime 5), (''content_uuid'', VStr ''film'')])],
    m_get := [Client_device ''m1'' \<mapsto> VStr ex_tv]\<rparr>"

text \<open>The keys of a channel among the hashes of the store.\<close>

definition ex_own_scan :: "mem \<Rightarrow> string \<Rightarrow> rkey list" where
  "ex_own_scan s c = filter (\<lambda>k. key_channel k = Some c) (r_hkeys mem_redis s)"

lemma ex_own_scan: "scans_own ex_own_scan" "scan_finds_clients mem_redis ex_own_scan"
  by (auto simp: scans_own_def scan_finds_clients_def ex_own_scan_def mem.set_hkeys)

definition ex_limit_check :: "bool \<times> worker \<times> mem" where
  "ex_limit_check = check_user_stream_limits mem_redis ex_quiet ex_site ex_config ex_own_scan (\<lambda>s cl. []) ex_limits
     (Some ex_user) ''m2'' ''film2'' (ex_idle ''w1'', ex_movie ''3'')"

lemma ex_limit_facts:
  "fst ex_limit_check" "length (get_user_active_connections mem_redis (ex_movie ''3'') (Some 3)) = 1"
  "get_user_active_connections mem_redis (ex_movie ''3'') (Some 3) =
    [\<lparr>conn_media = ''film'', conn_client = ''m1'', conn_since = 5, conn_kind = Vod_conn\<rparr>]"
  by code_simp+

lemma ex_movie_hash:
  "r_hash mem_redis (ex_movie ''3'') k =
     (if k = Vod_connection ''m1''
      then [(''user_id'', VStr ''3''), (''created_at'', VTime 5), (''content_uuid'', VStr ''film'')] else [])"
  by (simp add: ex_movie_def mem_redis_def mem_lookup_def mem_empty_def)

theorem limit_leaves_room_witness:
  "\<exists>w' s'. ex_limit_check = (True, w', s') \<and>
     told_to_end mem_redis s' \<lparr>conn_media = ''film'', conn_client = ''m1'', conn_since = 5, conn_kind = Vod_conn\<rparr>"
proof -
  let ?c = "\<lparr>conn_media = ''film'', conn_client = ''m1'', conn_since = 5, conn_kind = Vod_conn\<rparr>"
  have limit: "lu_id ex_user = 3" "stream_limit ex_user = 1" "stream_count ex_limits [?c] = 1"
    "\<not> ignore_same_channel_connections ex_limits"
    by (simp_all add: ex_user_def stream_count_def ex_limits_def)
  have targets: "termination_targets ex_limits [?c] = [?c]"
    by (simp add: termination_targets_def ex_limits_def)
  have three: "parse_int ''3'' = Some 3" by code_simp
  have readable: "users_readable mem_redis (ex_movie ''3'') (lu_id ex_user)"
    by (auto simp: users_readable_def ex_movie_hash is_users_def three)
  obtain w' s' where r: "ex_limit_check = (True, w', s')" using ex_limit_facts(1) by (metis prod.collapse prod.sel(1) eq_True)
  have "told_to_end mem_redis s' ?c"
    using limit_leaves_room [OF mem.redis_axioms ex_own_scan r [unfolded ex_limit_check_def] _ refl readable _ _ _ refl]
    by (simp add: limit targets ex_limit_facts(3) same_timeshift_session_def)
  with r show ?thesis by blast
qed

theorem anonymous_movie_lifts_limits_witness:
  "check_user_stream_limits mem_redis ex_quiet ex_site ex_config (\<lambda>s c. []) (\<lambda>s cl. []) ex_limits (Some ex_user) ''m2'' ''film2''
     (ex_idle ''w1'', ex_movie ''unknown'') = (True, ex_idle ''w1'', ex_movie ''unknown'')"
proof -
  have "r_hget mem_redis (ex_movie ''unknown'') (Vod_connection ''m1'') ''user_id'' = Some (VStr ''unknown'')" by code_simp
  from anonymous_movie_lifts_limits [OF mem.redis_axioms this] show ?thesis by (simp add: ex_user_def)
qed

definition ex_devices :: settings where
  "ex_devices = [(''devices'', Switch True), (''one_device_users'', Text ''3'')]"

definition ex_around :: "real \<Rightarrow> mem surroundings" where
  "ex_around t = \<lparr>sur_env = ex_quiet\<lparr>now := t\<rparr>, sur_site = ex_site, sur_config = ex_config, sur_scan = (\<lambda>s c. []),
     sur_gens = (\<lambda>s cl. [])\<rparr>"

definition ex_app :: "string \<Rightarrow> viewer" where
  "ex_app d = ex_viewer\<lparr>server_device := Some d\<rparr>"

definition ex_tablet_starts :: "refusal option \<times> string list \<times> worker \<times> mem" where
  "ex_tablet_starts = check_device mem_redis (ex_around 100) ex_devices (Some (ex_app ex_tablet)) False [] ''m2''
     (ex_idle ''w1'', ex_movie ''3'')"

definition ex_taken :: mem where "ex_taken = snd (snd (snd ex_tablet_starts))"

lemma ex_device_facts:
  "fst ex_tablet_starts = None" "fst (snd ex_tablet_starts) = [ex_tv]"
  "applies_to ex_devices (Some (ex_app ex_tablet)) = Some 3" "applies_to ex_devices (Some (ex_app ex_tv)) = Some 3"
  "ex_tablet \<notin> set (linked_with mem_redis (note_client mem_redis ''m1'' ex_tv ex_taken) ex_tv)"
  by code_simp+

theorem replaced_device_waits_witness:
  "\<exists>name. fst (check_device mem_redis (ex_around 110) ex_devices (Some (ex_app ex_tv)) False [] ''m1'' (ex_idle ''w1'', ex_taken)) =
    Some (refuse name ex_tablet)"
proof -
  have starts: "check_device mem_redis (ex_around 100) ex_devices (Some (ex_app ex_tablet)) False [] ''m2'' (ex_idle ''w1'', ex_movie ''3'') =
    (None, [ex_tv], fst (snd (snd ex_tablet_starts)), ex_taken)"
    using ex_device_facts(1,2) by (simp add: ex_tablet_starts_def [symmetric] ex_taken_def prod_eq_iff)
  have "scans_own (sur_scan (ex_around 100))" by (simp add: scans_own_def ex_around_def)
  from replaced_device_waits [OF mem.redis_axioms this ex_device_facts(3) _ starts _ refl ex_device_facts(4) _ _ ex_device_facts(5),
      where ?channels2.0 = "[]" and ?E2.0 = "ex_around 110" and ?w2.0 = "ex_idle ''w1''"]
  show ?thesis by (simp add: ex_app_def ex_around_def STARTING_SECONDS_def)
qed

end
