(* ===== verification/Alternates.thy ===== *)
theory Alternates
  imports Channel_Life
begin

text \<open>
  The streams a channel may move to when the one it is on fails, and what is needed to move to one
  (\<^verbatim>\<open>live_proxy/url_utils.py\<close>). The URL a stream has on a profile (the transform of its
  credentials) and the agent of an account are parameters.
\<close>

section \<open>A profile with room\<close>

text \<open>Whether the channel is on this profile already, by the assignment in Redis.\<close>

definition channel_using_profile :: "'s redis_api \<Rightarrow> 's \<Rightarrow> channel \<Rightarrow> profile \<Rightarrow> bool" where
  "channel_using_profile R s ch p \<longleftrightarrow>
     (case get_int R s (Channel_stream (ch_id ch)) of
        None \<Rightarrow> False
      | Some sid \<Rightarrow> get_int R s (Stream_profile sid) = Some (prof_id p))"

fun select_profile ::
  "'s redis_api \<Rightarrow> logins \<Rightarrow> env \<Rightarrow> channel \<Rightarrow> profile list \<Rightarrow> 's \<Rightarrow> profile option \<times> 's" where
  "select_profile R L e ch [] s = (None, s)"
| "select_profile R L e ch (p # ps) s =
     (let (ok, s1) = profile_available_for_channel_switch R L e p (channel_using_profile R s ch p) s
      in if ok then (Some p, s1) else select_profile R L e ch ps s1)"

text \<open>
  The profiles of a stream, the default one first; those of \<open>allowed\<close> for a user who is
  restricted. \<open>None\<close> where the stream is passed over: no account, one that is off, no default.
\<close>

definition profiles_to_try ::
  "env \<Rightarrow> (int \<Rightarrow> profile list) option \<Rightarrow> stream \<Rightarrow> profile list option" where
  "profiles_to_try e allowed st =
     (case str_account st of
        None \<Rightarrow> None
      | Some a \<Rightarrow>
          (if \<not> acc_active a then None
           else case allowed of Some f \<Rightarrow> Some (f (acc_id a)) | None \<Rightarrow> stream_profiles e st))"

section \<open>The streams to move to\<close>

type_synonym alternate = "int \<times> int"

text \<open>\<open>if current_stream_id\<close>: there is one, and it is not zero.\<close>

definition known_stream :: "int option \<Rightarrow> bool" where
  "known_stream i \<longleftrightarrow> (case i of None \<Rightarrow> False | Some n \<Rightarrow> n \<noteq> 0)"

fun collect_alternates ::
  "'s redis_api \<Rightarrow> logins \<Rightarrow> env \<Rightarrow> channel \<Rightarrow> (int \<Rightarrow> profile list) option \<Rightarrow> int option \<Rightarrow>
   stream list \<Rightarrow> 's \<Rightarrow> alternate list \<times> 's" where
  "collect_alternates R L e ch allowed cur [] s = ([], s)"
| "collect_alternates R L e ch allowed cur (st # sts) s =
     (if known_stream cur \<and> cur = Some (str_id st) then collect_alternates R L e ch allowed cur sts s
      else case profiles_to_try e allowed st of
             None \<Rightarrow> collect_alternates R L e ch allowed cur sts s
           | Some ps \<Rightarrow>
               (case select_profile R L e ch ps s of
                  (None, s1) \<Rightarrow> collect_alternates R L e ch allowed cur sts s1
                | (Some p, s1) \<Rightarrow>
                    (let (found, s2) = collect_alternates R L e ch allowed cur sts s1
                     in ((str_id st, prof_id p) # found, s2))))"

fun position_of :: "int list \<Rightarrow> int \<Rightarrow> nat option" where
  "position_of [] i = None"
| "position_of (x # xs) i = (if x = i then Some 0 else map_option Suc (position_of xs i))"

definition order_alternates_from_current ::
  "alternate list \<Rightarrow> int list \<Rightarrow> int option \<Rightarrow> alternate list" where
  "order_alternates_from_current alternates ids cur =
     (if alternates = [] \<or> ids = [] then alternates
      else case cur of
             None \<Rightarrow> alternates
           | Some c \<Rightarrow>
               (case position_of ids c of
                  None \<Rightarrow> alternates
                | Some i \<Rightarrow>
                    List.map_filter
                      (\<lambda>offset. let sid = ids ! ((i + offset) mod length ids)
                                in map_option (Pair sid) (map_of (rev alternates) sid))
                      [1..<length ids]))"

definition get_alternate_streams ::
  "'s redis_api \<Rightarrow> logins \<Rightarrow> env \<Rightarrow> channel \<Rightarrow> int option \<Rightarrow> (int \<Rightarrow> profile list) option \<Rightarrow> 's \<Rightarrow>
   alternate list \<times> 's" where
  "get_alternate_streams R L e ch cur allowed s =
     (let ids = map str_id (ch_streams ch);
          (found, s1) = collect_alternates R L e ch allowed cur (ch_streams ch) s;
          ordered = order_alternates_from_current found ids cur
      in (List.map_filter (\<lambda>sid. map_option (Pair sid) (map_of ordered sid))
            (failover_order R e s1 (ch_uuid ch) (map fst ordered) (ch_streams ch)), s1))"

text \<open>
  \<open>checked_last\<close> of Stream Check: while it runs, the streams of the accounts it is on come last.
\<close>

definition checked_last :: "env \<Rightarrow> channel \<Rightarrow> alternate list \<Rightarrow> alternate list" where
  "checked_last e ch alternates =
     (case stream_check e of
        None \<Rightarrow> alternates
      | Some checking \<Rightarrow>
          sort_key (\<lambda>a. case List.find (\<lambda>st. str_id st = fst a) (ch_streams ch) of
                          None \<Rightarrow> 0::nat
                        | Some st \<Rightarrow> (case str_account st of
                                        None \<Rightarrow> 0
                                      | Some acc \<Rightarrow> if acc_id acc \<in> set checking then 1 else 0))
            alternates)"

section \<open>What is needed to move to one\<close>

record sources =
  resolve_url :: "stream \<Rightarrow> profile \<Rightarrow> string option"
  agent_string :: "account \<Rightarrow> string"
  is_proxy :: "stream_profile \<Rightarrow> bool"

record switch_info =
  info_url :: string
  info_agent :: string
  info_transcode :: bool
  info_stream_profile :: int
  info_stream :: int
  info_m3u_profile :: int

datatype switch_error =
    No_account
  | Profile_unavailable
  | No_default_profile
  | No_capacity
  | Url_unresolved
  | Row_missing
  | Not_assigned stream_error

text \<open>The stream and profile asked for, and whether a slot was reserved for them.\<close>

definition switch_target ::
  "'s redis_api \<Rightarrow> logins \<Rightarrow> env \<Rightarrow> site \<Rightarrow> channel \<Rightarrow> int option \<Rightarrow> int option \<Rightarrow> 's \<Rightarrow>
   (switch_error + int \<times> int \<times> bool) \<times> 's" where
  "switch_target R L e X ch target profile_wanted s =
     (if known_stream target then
        (case Option.bind target (stream_by_id X) of
           None \<Rightarrow> (Inl Row_missing, s)
         | Some st \<Rightarrow>
             (case str_account st of
                None \<Rightarrow> (Inl No_account, s)
              | Some a \<Rightarrow>
                  (if known_stream profile_wanted then
                     (case List.find (\<lambda>p. Some (prof_id p) = profile_wanted \<and> prof_active p)
                             (account_profiles e a) of
                        None \<Rightarrow> (Inl Profile_unavailable, s)
                      | Some p \<Rightarrow> (Inr (str_id st, prof_id p, False), s))
                   else
                     (case default_then_rest (filter prof_active (account_profiles e a)) of
                        None \<Rightarrow> (Inl No_default_profile, s)
                      | Some ps \<Rightarrow>
                          (case select_profile R L e ch ps s of
                             (None, s1) \<Rightarrow> (Inl No_capacity, s1)
                           | (Some p, s1) \<Rightarrow> (Inr (str_id st, prof_id p, False), s1))))))
      else
        (case get_stream R L e ch None None s of
           (Inl reason, s1) \<Rightarrow> (Inl (Not_assigned reason), s1)
         | (Inr got, s1) \<Rightarrow> (Inr got, s1)))"

definition get_stream_info_for_switch ::
  "'s redis_api \<Rightarrow> logins \<Rightarrow> env \<Rightarrow> site \<Rightarrow> sources \<Rightarrow> channel \<Rightarrow> int option \<Rightarrow> int option \<Rightarrow> 's \<Rightarrow>
   (switch_error + switch_info) \<times> 's" where
  "get_stream_info_for_switch R L e X src ch target profile_wanted s =
     (case switch_target R L e X ch target profile_wanted s of
        (Inl err, s1) \<Rightarrow> (Inl err, s1)
      | (Inr (sid, pid, reserved), s1) \<Rightarrow>
          (let give_back = (if reserved then snd (release_stream R e ch s1) else s1) in
           case (stream_by_id X sid, profile_by_id e pid) of
             (Some st, Some p) \<Rightarrow>
               (case resolve_url src st p of
                  None \<Rightarrow> (Inl Url_unresolved, give_back)
                | Some url \<Rightarrow>
                    (if url = [] then (Inl Url_unresolved, give_back)
                     else
                       (Inr \<lparr>info_url = url, info_agent = agent_string src (m3u_account p),
                             info_transcode = \<not> is_proxy src (get_stream_profile e ch),
                             info_stream_profile = sp_id (get_stream_profile e ch),
                             info_stream = sid, info_m3u_profile = pid\<rparr>, s1)))
           | _ \<Rightarrow> (Inl Row_missing, give_back)))"

end
