(* ===== verification/Failover.thy ===== *)
theory Failover
  imports Alternates
begin

text \<open>
  The manager of a channel's stream (\<^verbatim>\<open>input/manager.py\<close>, \<^verbatim>\<open>live_proxy/stalling.py\<close>): how failed
  connections are counted, how the channel moves to its next stream, when a stream is left for
  stalling, and the run of the manager to its end. A connection is known by what came of it.
\<close>

section \<open>The manager\<close>

record failover_config =
  max_retries :: int
  retry_window :: real
  stable_threshold :: real
  max_stream_switches :: int
  rotation_cooldown :: real
  leave_stalling :: bool
  connection_timeout :: real

record manager =
  m_url :: string
  m_stream :: "int option"
  m_agent :: string
  m_transcode :: bool
  m_tried :: "int set"
  m_retries :: int
  m_last_failure :: "real option"
  m_passes :: int
  m_cooldown :: "real option"
  m_had_success :: bool
  m_needs_reconnect :: bool
  m_needs_switch :: bool
  m_leaving_stalling :: bool
  m_stalls :: "real list"
  m_healthy :: bool
  m_connected :: bool
  m_last_data :: real
  m_last_action :: real
  m_start :: real
  m_running :: bool
  m_stop_requested :: bool

text \<open>A new manager: its stream is the one given, or the one in the channel's metadata.\<close>

definition new_manager ::
  "'s redis_api \<Rightarrow> 's \<Rightarrow> string \<Rightarrow> real \<Rightarrow> string \<Rightarrow> string \<Rightarrow> bool \<Rightarrow> int option \<Rightarrow> manager" where
  "new_manager R s c t url agent transcode given =
     (let sid = (if known_stream given then given
                 else case stream_field R s c of Some i \<Rightarrow> Some i | None \<Rightarrow> given) in
      \<lparr>m_url = url, m_stream = sid, m_agent = agent, m_transcode = transcode,
       m_tried = (if known_stream given then set_option given
                  else case stream_field R s c of Some i \<Rightarrow> {i} | None \<Rightarrow> {}),
       m_retries = 0, m_last_failure = None, m_passes = 0, m_cooldown = None,
       m_had_success = False, m_needs_reconnect = False, m_needs_switch = False,
       m_leaving_stalling = False, m_stalls = [], m_healthy = True, m_connected = False,
       m_last_data = t, m_last_action = 0, m_start = 0, m_running = True, m_stop_requested = False\<rparr>)"

section \<open>Failed connections\<close>

definition record_connection_failure :: "failover_config \<Rightarrow> real \<Rightarrow> manager \<Rightarrow> manager" where
  "record_connection_failure f t m =
     m\<lparr>m_retries := (case m_last_failure m of
                       Some l \<Rightarrow> if retry_window f < t - l then 0 else m_retries m
                     | None \<Rightarrow> m_retries m) + 1,
       m_last_failure := Some t\<rparr>"

definition clear_connection_failure_history :: "manager \<Rightarrow> manager" where
  "clear_connection_failure_history m = m\<lparr>m_retries := 0, m_last_failure := None\<rparr>"

text \<open>\<open>{current}\<close>, or nothing where the stream is not known.\<close>

definition only_current :: "manager \<Rightarrow> int set" where
  "only_current m = (if known_stream (m_stream m) then set_option (m_stream m) else {})"

definition note_stable_connection :: "manager \<Rightarrow> manager" where
  "note_stable_connection m = m\<lparr>m_tried := only_current m, m_passes := 0, m_cooldown := None\<rparr>"

definition rotation_cooldown_remaining :: "real \<Rightarrow> manager \<Rightarrow> real option" where
  "rotation_cooldown_remaining t m = map_option (\<lambda>u. max 0 (u - t)) (m_cooldown m)"

definition reset_failover_rotation_state :: "manager \<Rightarrow> manager" where
  "reset_failover_rotation_state m = m\<lparr>m_tried := {}, m_passes := 0, m_cooldown := None\<rparr>"

section \<open>Moving to another stream\<close>

text \<open>
  \<open>update_url\<close>: the slot is moved where the stream is another one; whether that succeeded is not
  looked at.
\<close>

definition move_slot ::
  "'s redis_api \<Rightarrow> logins \<Rightarrow> env \<Rightarrow> channel \<Rightarrow> int option \<Rightarrow> int option \<Rightarrow> manager \<Rightarrow> 's \<Rightarrow> 's" where
  "move_slot R L e ch sid pid m s =
     (if known_stream (m_stream m) \<and> known_stream sid \<and> m_stream m \<noteq> sid \<and> known_stream pid
      then (case pid of None \<Rightarrow> s | Some p \<Rightarrow> snd (update_stream_profile R L e ch p s))
      else s)"

definition update_url ::
  "'s redis_api \<Rightarrow> logins \<Rightarrow> env \<Rightarrow> channel \<Rightarrow> string \<Rightarrow> int option \<Rightarrow> int option \<Rightarrow> manager \<Rightarrow> 's \<Rightarrow>
   bool \<times> manager \<times> 's" where
  "update_url R L e ch new_url sid pid m s =
     (if new_url = m_url m then (False, m, s)
      else
        (let m1 = m\<lparr>m_stalls := [], m_url := new_url, m_connected := False\<rparr>;
             m2 = (if known_stream sid
                   then m1\<lparr>m_stream := sid, m_tried := m_tried m1 \<union> set_option sid\<rparr> else m1)
         in (True, clear_connection_failure_history m2, move_slot R L e ch sid pid m s)))"

definition switch_fields :: "real \<Rightarrow> string \<Rightarrow> int \<times> int \<Rightarrow> switch_info \<Rightarrow> (string \<times> rval) list" where
  "switch_fields t reason a i =
     [(''url'', VStr (info_url i)), (''user_agent'', VStr (info_agent i)),
      (''stream_profile'', VInt (info_stream_profile i)), (''m3u_profile'', VInt (snd a)),
      (''stream_id'', VInt (fst a)), (''stream_switch_time'', VTime t),
      (''stream_switch_reason'', VStr reason)]"

text \<open>The first of these streams that has another URL.\<close>

fun try_streams ::
  "'s redis_api \<Rightarrow> logins \<Rightarrow> env \<Rightarrow> site \<Rightarrow> sources \<Rightarrow> channel \<Rightarrow> string \<Rightarrow> alternate list \<Rightarrow> manager \<Rightarrow>
   's \<Rightarrow> bool \<times> manager \<times> 's" where
  "try_streams R L e X src ch reason [] m s = (False, m, s)"
| "try_streams R L e X src ch reason (a # as) m s =
     (let m1 = m\<lparr>m_tried := insert (fst a) (m_tried m)\<rparr>;
          (got, s1) = get_stream_info_for_switch R L e X src ch (Some (fst a)) None s
      in case got of
           Inl err \<Rightarrow> try_streams R L e X src ch reason as m1 s1
         | Inr i \<Rightarrow>
             (if info_url i = m_url m1 then try_streams R L e X src ch reason as m1 s1
              else
                (let (ok, m2, s2) = update_url R L e ch (info_url i) (Some (fst a)) (Some (snd a)) m1 s1
                 in if \<not> ok then try_streams R L e X src ch reason as m2 s2
                    else (True,
                          m2\<lparr>m_stream := Some (fst a), m_agent := info_agent i,
                             m_transcode := info_transcode i\<rparr>,
                          hset_all R (metadata (ch_uuid ch)) (switch_fields (now e) reason a i) s2))))"

definition untried :: "manager \<Rightarrow> alternate list \<Rightarrow> alternate list" where
  "untried m alternates = filter (\<lambda>a. fst a \<notin> m_tried m) alternates"

text \<open>
  All were tried: a channel that has played waits once and then goes round again, so often.
\<close>

definition wrap_rotation ::
  "failover_config \<Rightarrow> real \<Rightarrow> alternate list \<Rightarrow> manager \<Rightarrow> alternate list \<times> manager" where
  "wrap_rotation f t alternates m =
     (if alternates = [] \<or> \<not> m_had_success m \<or> max_stream_switches f \<le> m_passes m then ([], m)
      else case m_cooldown m of
             None \<Rightarrow> ([], m\<lparr>m_passes := m_passes m + 1, m_cooldown := Some (t + rotation_cooldown f)\<rparr>)
           | Some u \<Rightarrow>
               (if t < u then ([], m)
                else (let m1 = m\<lparr>m_cooldown := None, m_tried := only_current m\<rparr>
                      in (untried m1 alternates, m1))))"

definition real_streams :: "site \<Rightarrow> alternate list \<Rightarrow> alternate list" where
  "real_streams X alternates =
     filter (\<lambda>a. case stream_by_id X (fst a) of None \<Rightarrow> False | Some st \<Rightarrow> \<not> is_custom st) alternates"

definition try_next_stream ::
  "'s redis_api \<Rightarrow> logins \<Rightarrow> env \<Rightarrow> site \<Rightarrow> sources \<Rightarrow> failover_config \<Rightarrow> channel \<Rightarrow> bool \<Rightarrow> manager \<Rightarrow>
   's \<Rightarrow> bool \<times> manager \<times> 's" where
  "try_next_stream R L e X src f ch real_only m s =
     (let (found, s1) = get_alternate_streams R L e ch (m_stream m) None s;
          alternates = checked_last e ch found;
          left = untried m alternates
      in if real_only
         then try_streams R L e X src ch ''stream_stalling'' (real_streams X left) m s1
         else if left \<noteq> [] then try_streams R L e X src ch ''max_retries_exceeded'' left m s1
         else (let (again, m1) = wrap_rotation f (now e) alternates m
               in try_streams R L e X src ch ''max_retries_exceeded'' again m1 s1))"

text \<open>
  The waits of \<open>_try_next_stream_with_cooldown\<close>: a stream check that let go of a connection (the
  environment then, and what happened in between), and the cooldown, unless it was interrupted;
  meanwhile another thread may have moved the channel.
\<close>

record 's pause =
  check_let_go :: "(env \<times> ('s \<Rightarrow> 's)) option"
  cooled_down :: "(env \<times> (manager \<times> 's \<Rightarrow> manager \<times> 's)) option"

definition after_stream_check ::
  "'s redis_api \<Rightarrow> logins \<Rightarrow> env \<Rightarrow> site \<Rightarrow> sources \<Rightarrow> failover_config \<Rightarrow> channel \<Rightarrow> 's pause \<Rightarrow>
   manager \<Rightarrow> manager \<times> 's \<Rightarrow> env \<times> bool \<times> manager \<times> 's" where
  "after_stream_check R L e X src f ch w before ms =
     (case check_let_go w of
        None \<Rightarrow> (e, False, ms)
      | Some (e', others) \<Rightarrow>
          (e', try_next_stream R L e' X src f ch False
                 ((fst ms)\<lparr>m_passes := m_passes before, m_cooldown := m_cooldown before\<rparr>)
                 (others (snd ms))))"

definition try_next_stream_with_cooldown ::
  "'s redis_api \<Rightarrow> logins \<Rightarrow> env \<Rightarrow> site \<Rightarrow> sources \<Rightarrow> failover_config \<Rightarrow> channel \<Rightarrow> 's pause \<Rightarrow>
   manager \<Rightarrow> 's \<Rightarrow> bool \<times> manager \<times> 's" where
  "try_next_stream_with_cooldown R L e X src f ch w m s =
     (let (ok1, ms1) = try_next_stream R L e X src f ch False m s in
      if ok1 then (True, ms1)
      else
        (let (e2, ok2, ms2) = after_stream_check R L e X src f ch w m ms1 in
         if ok2 then (True, ms2)
         else case rotation_cooldown_remaining (now e2) (fst ms2) of
                None \<Rightarrow> (False, ms2)
              | Some r \<Rightarrow>
                  (case (if r = 0 then Some (e2, id) else cooled_down w) of
                     None \<Rightarrow> (False, ms2)
                   | Some (e3, others) \<Rightarrow>
                       (let ms3 = others ms2 in
                        if m_stream (fst ms3) \<noteq> m_stream (fst ms2) then (True, ms3)
                        else try_next_stream R L e3 X src f ch False (fst ms3) (snd ms3)))))"

section \<open>A stream that keeps stalling\<close>

definition STALL_COUNT :: nat where "STALL_COUNT = 3"
definition STALL_WINDOW_SECONDS :: real where "STALL_WINDOW_SECONDS = 300"

text \<open>Whether this stall makes the stream one to leave, and the stalls kept.\<close>

definition stalled :: "real \<Rightarrow> real list \<Rightarrow> bool \<times> real list" where
  "stalled t stalls =
     (let kept = dropWhile (\<lambda>x. STALL_WINDOW_SECONDS < t - x) (stalls @ [t])
      in (STALL_COUNT \<le> length kept, kept))"

definition real_alternative ::
  "'s redis_api \<Rightarrow> logins \<Rightarrow> env \<Rightarrow> site \<Rightarrow> channel \<Rightarrow> manager \<Rightarrow> 's \<Rightarrow> int option \<times> 's" where
  "real_alternative R L e X ch m s =
     (let (found, s1) = get_alternate_streams R L e ch (m_stream m) None s
      in (case real_streams X (untried m found) of [] \<Rightarrow> None | a # _ \<Rightarrow> Some (fst a), s1))"

definition note_stall ::
  "'s redis_api \<Rightarrow> logins \<Rightarrow> env \<Rightarrow> site \<Rightarrow> failover_config \<Rightarrow> channel \<Rightarrow> bool \<Rightarrow> manager \<Rightarrow> 's \<Rightarrow>
   manager \<times> 's" where
  "note_stall R L e X f ch starting m s =
     (if starting \<or> \<not> leave_stalling f then (m, s)
      else
        (let (leave, kept) = stalled (now e) (m_stalls m) in
         if \<not> leave then (m\<lparr>m_stalls := kept\<rparr>, s)
         else
           (let m1 = m\<lparr>m_stalls := []\<rparr>; (other, s1) = real_alternative R L e X ch m1 s
            in if other = None then (m1, s1)
               else (m1\<lparr>m_leaving_stalling := True, m_needs_switch := True, m_last_action := now e\<rparr>, s1))))"

section \<open>The health monitor\<close>

definition fast_start_key :: "string \<Rightarrow> rkey" where
  "fast_start_key c = Named_key (''live:app_devices:fast_alternatives:'' @ c)"

definition fast_start_alternatives :: "'s redis_api \<Rightarrow> 's \<Rightarrow> string \<Rightarrow> int option" where
  "fast_start_alternatives R s c = Option.bind (r_get R s (fast_start_key c)) val_int"

text \<open>\<open>alternatives\<close>: what was read when the channel started; \<open>starting\<close>: nothing came yet.\<close>

definition manager_fast_grace :: "env \<Rightarrow> int option \<Rightarrow> bool \<Rightarrow> manager \<Rightarrow> int option" where
  "manager_fast_grace e alternatives starting m =
     (if \<not> (m_connected m \<and> starting) then None
      else case alternatives of
             None \<Rightarrow> None
           | Some n \<Rightarrow>
               (if n = 0 then None
                else fast_start_grace (app_settings e) (Some n) (max 0 (int (card (m_tried m)) - 1))))"

definition health_inactivity_threshold ::
  "live_config \<Rightarrow> failover_config \<Rightarrow> int option \<Rightarrow> bool \<Rightarrow> manager \<Rightarrow> real" where
  "health_inactivity_threshold g f fast starting m =
     (if m_connected m \<and> starting
      then (case fast of Some n \<Rightarrow> of_int n | None \<Rightarrow> init_grace_period g)
      else connection_timeout f)"

definition MAX_UNHEALTHY_CHECKS :: nat where "MAX_UNHEALTHY_CHECKS = 3"
definition ACTION_COOLDOWN :: real where "ACTION_COOLDOWN = 30"
definition STABLE_TIME :: real where "STABLE_TIME = 30"

text \<open>What an unhealthy stream asks for: the same one again where it had played, else another.\<close>

definition ask_recovery :: "real \<Rightarrow> manager \<Rightarrow> manager" where
  "ask_recovery t m =
     (if STABLE_TIME \<le> (if 0 < m_start m then m_last_data m - m_start m else 0)
      then (if m_needs_reconnect m then m else m\<lparr>m_needs_reconnect := True, m_last_action := t\<rparr>)
      else (if m_needs_switch m then m else m\<lparr>m_needs_switch := True, m_last_action := t\<rparr>))"

definition health_turn ::
  "'s redis_api \<Rightarrow> logins \<Rightarrow> env \<Rightarrow> site \<Rightarrow> live_config \<Rightarrow> failover_config \<Rightarrow> channel \<Rightarrow> int option \<Rightarrow> bool \<Rightarrow>
   nat \<times> manager \<Rightarrow> 's \<Rightarrow> (nat \<times> manager) \<times> 's" where
  "health_turn R L e X g f ch alternatives starting nm s =
     (let (n, m) = nm; t = now e;
          fast = manager_fast_grace e alternatives starting m;
          silent = t - (if fast = None then m_last_data m else max (m_last_data m) (m_start m))
      in if health_inactivity_threshold g f fast starting m < silent \<and> m_connected m then
           (let (m1, s1) = (if m_healthy m
                            then note_stall R L e X f ch starting (m\<lparr>m_healthy := False\<rparr>) s
                            else (m, s));
                needed = (if fast = None then MAX_UNHEALTHY_CHECKS else 1);
                wait = (case fast of None \<Rightarrow> ACTION_COOLDOWN | Some k \<Rightarrow> of_int k)
            in if needed \<le> n + 1 \<and> wait < t - m_last_action m1
               then ((0, ask_recovery t m1), s1) else ((n + 1, m1), s1))
         else if m_connected m \<and> \<not> m_healthy m then
           ((0, m\<lparr>m_healthy := True, m_needs_reconnect := False,
                  m_needs_switch := m_needs_switch m \<and> m_leaving_stalling m\<rparr>), s)
         else ((if m_healthy m then 0 else n, m), s))"

end
