(* ===== verification/Failover_Run.thy ===== *)
theory Failover_Run
  imports Failover
begin

text \<open>
  The run of a stream manager (\<open>run\<close>, \<^verbatim>\<open>input/manager.py\<close>) to its end. What came of each connection
  (\<open>attempt\<close>) and of each turn of the outer loop (\<open>turn\<close>) is given; where these run out before the
  run ends there is no result.
\<close>

section \<open>One connection\<close>

text \<open>
  A connection: when it began and ended, whether it was made, whether it raised, when data last
  came on it, what the health monitor asked for meanwhile, whether it was stopped, and what others
  did in Redis before it.
\<close>

record 's attempt =
  at_others :: "'s \<Rightarrow> 's"
  at_began :: real
  at_ended :: real
  at_made :: bool
  at_raised :: bool
  at_data :: "real option"
  at_reconnect :: bool
  at_switch :: bool
  at_leaving :: bool
  at_stopped :: bool

datatype attempt_end = Returned | Switch_wanted | Given_up | Again real

text \<open>\<open>min(.25 * failures, 3)\<close>, or the longer wait a provider that refused is given.\<close>

definition retry_delay ::
  "'s redis_api \<Rightarrow> env \<Rightarrow> site \<Rightarrow> manager \<Rightarrow> bool \<Rightarrow> 's \<Rightarrow> real" where
  "retry_delay R e X m refused s =
     (let timeout = min (1 / 4 * of_int (m_retries m)) 3;
          refusal = refusal_retry_delay R e X s (m_stream m) (m_retries m) refused
      in if timeout < refusal then refusal else timeout)"

text \<open>The manager as the connection leaves it, with the flags raised while it was up.\<close>

definition during_attempt :: "'s attempt \<Rightarrow> manager \<Rightarrow> manager" where
  "during_attempt a m =
     (let m1 = m\<lparr>m_needs_reconnect := m_needs_reconnect m \<or> at_reconnect a,
                 m_needs_switch := m_needs_switch m \<or> at_switch a,
                 m_leaving_stalling := m_leaving_stalling m \<or> at_leaving a,
                 m_stop_requested := m_stop_requested m \<or> at_stopped a,
                 m_running := m_running m \<and> \<not> at_stopped a\<rparr>
      in if at_made a
         then m1\<lparr>m_had_success := True, m_start := at_began a, m_connected := False,
                 m_healthy := m_healthy m \<or> \<not> m_transcode m,
                 m_last_data := (case at_data a of None \<Rightarrow> m_last_data m | Some t \<Rightarrow> t)\<rparr>
         else m1)"

definition played_stably :: "failover_config \<Rightarrow> 's attempt \<Rightarrow> bool" where
  "played_stably f a \<longleftrightarrow> at_made a \<and> \<not> at_raised a \<and> stable_threshold f \<le> at_ended a - at_began a"

text \<open>A failure is counted; at the limit the URL is given up.\<close>

definition after_failure ::
  "'s redis_api \<Rightarrow> env \<Rightarrow> site \<Rightarrow> failover_config \<Rightarrow> real \<Rightarrow> bool \<Rightarrow> manager \<Rightarrow> 's \<Rightarrow> attempt_end \<times> manager" where
  "after_failure R e X f t refused m s =
     (let m1 = record_connection_failure f t (m\<lparr>m_connected := False\<rparr>)
      in (if max_retries f \<le> m_retries m1 then Given_up else Again (retry_delay R e X m1 refused s), m1))"

definition connection_attempt ::
  "'s redis_api \<Rightarrow> env \<Rightarrow> site \<Rightarrow> failover_config \<Rightarrow> 's attempt \<Rightarrow> manager \<Rightarrow> int \<Rightarrow> 's \<Rightarrow>
   attempt_end \<times> manager \<times> int" where
  "connection_attempt R e X f a m switches s =
     (let m1 = during_attempt a m in
      if at_raised a then (let (r, m2) = after_failure R e X f (at_ended a) False m1 s in (r, m2, switches))
      else if at_made a \<and> m_needs_switch m1 then (Switch_wanted, m1, switches)
      else
        (let (m2, n) = (if played_stably f a then (note_stable_connection m1, 0) else (m1, switches)) in
         if m_stop_requested m2 \<or> \<not> m_running m2 then (Returned, m2, n)
         else (let (r, m3) = after_failure R e X f (at_ended a) (at_made a \<and> at_data a = None)
                               (m2\<lparr>m_needs_reconnect := False\<rparr>) s
               in (r, m3, n))))"

section \<open>The connections to one URL\<close>

definition ensure_owner_or_stop ::
  "'s redis_api \<Rightarrow> live_config \<Rightarrow> real \<Rightarrow> worker \<Rightarrow> string \<Rightarrow> manager \<Rightarrow> 's \<Rightarrow> bool \<times> manager" where
  "ensure_owner_or_stop R g t w c m s =
     (if \<not> m_stop_requested m \<and> fst (still_owner R g t True w c (0, False) s) then (True, m)
      else (False, m\<lparr>m_stop_requested := True, m_running := False\<rparr>))"

datatype url_end = Left | Ended | Url_failed

fun connect_to_url ::
  "'s redis_api \<Rightarrow> env \<Rightarrow> site \<Rightarrow> live_config \<Rightarrow> failover_config \<Rightarrow> worker \<Rightarrow> string \<Rightarrow> 's attempt list \<Rightarrow>
   manager \<Rightarrow> int \<Rightarrow> 's \<Rightarrow> (url_end \<times> manager \<times> int \<times> 's) option" where
  "connect_to_url R e X g f w c as m n s =
     (if \<not> m_running m \<or> max_retries f \<le> m_retries m \<or> m_needs_switch m then Some (Left, m, n, s)
      else case as of
             [] \<Rightarrow> None
           | a # rest \<Rightarrow>
               (let s1 = at_others a s; (mine, m1) = ensure_owner_or_stop R g (at_began a) w c m s1 in
                if \<not> mine then Some (Left, m1, n, s1)
                else case connection_attempt R e X f a m1 n s1 of
                       (Returned, m2, n2) \<Rightarrow> Some (Ended, m2, n2, s1)
                     | (Switch_wanted, m2, n2) \<Rightarrow> Some (Left, m2, n2, s1)
                     | (Given_up, m2, n2) \<Rightarrow> Some (Url_failed, m2, n2, s1)
                     | (Again _, m2, n2) \<Rightarrow> connect_to_url R e X g f w c rest m2 n2 s1))"

section \<open>The turns of the outer loop\<close>

text \<open>
  A turn: when, whether a reconnect that is asked for succeeds, the waits of the two places that
  move to the next stream, whether the URL needs ffmpeg, and the connections.
\<close>

record 's turn =
  tn_env :: env
  tn_reconnects :: bool
  tn_asked :: "'s pause"
  tn_needs_ffmpeg :: bool
  tn_attempts :: "'s attempt list"
  tn_env_after :: env
  tn_failed :: "'s pause"

datatype turn_end = Next_turn | Stop_run

text \<open>
  What the health monitor asked for comes first; \<open>True\<close>: back to the top of the loop.
\<close>

definition attempt_reconnect :: "'s turn \<Rightarrow> manager \<Rightarrow> bool \<times> manager" where
  "attempt_reconnect tn m =
     (if tn_reconnects tn
      then (True, m\<lparr>m_start := now (tn_env tn), m_connected := True,
                    m_healthy := m_healthy m \<or> \<not> m_transcode m\<rparr>)
      else (False, m\<lparr>m_connected := False\<rparr>))"

definition asked_recovery ::
  "'s redis_api \<Rightarrow> logins \<Rightarrow> site \<Rightarrow> sources \<Rightarrow> failover_config \<Rightarrow> channel \<Rightarrow> 's turn \<Rightarrow> manager \<Rightarrow> int \<Rightarrow>
   's \<Rightarrow> bool \<times> manager \<times> int \<times> 's" where
  "asked_recovery R L X src f ch tn m n s =
     (let (again, m1) = (if m_needs_reconnect m
                         then attempt_reconnect tn (m\<lparr>m_needs_reconnect := False\<rparr>) else (False, m));
          failed = m_needs_reconnect m \<and> \<not> again
      in if again then (True, clear_connection_failure_history m1, n, s)
         else if \<not> (failed \<or> m_needs_switch m1) then (False, m1, n, s)
         else
           (let m2 = m1\<lparr>m_needs_switch := False, m_leaving_stalling := False\<rparr>;
                (ok, m3, s3) = (if m_leaving_stalling m1
                                then try_next_stream R L (tn_env tn) X src f ch True m2 s
                                else try_next_stream_with_cooldown R L (tn_env tn) X src f ch (tn_asked tn) m2 s)
            in (ok, clear_connection_failure_history m3, if ok then n + 1 else n, s3)))"

definition run_turn ::
  "'s redis_api \<Rightarrow> logins \<Rightarrow> site \<Rightarrow> sources \<Rightarrow> live_config \<Rightarrow> failover_config \<Rightarrow> worker \<Rightarrow> channel \<Rightarrow>
   's turn \<Rightarrow> manager \<Rightarrow> int \<Rightarrow> 's \<Rightarrow> (turn_end \<times> manager \<times> int \<times> 's) option" where
  "run_turn R L X src g f w ch tn m n s =
     (let (mine, m0) = ensure_owner_or_stop R g (now (tn_env tn)) w (ch_uuid ch) m s in
      if \<not> mine then Some (Stop_run, m0, n, s)
      else
        (let (again, m1, n1, s1) = asked_recovery R L X src f ch tn m0 n s in
         if again then Some (Next_turn, m1, n1, s1)
         else case connect_to_url R (tn_env tn) X g f w (ch_uuid ch) (tn_attempts tn)
                     (m1\<lparr>m_transcode := m_transcode m1 \<or> tn_needs_ffmpeg tn\<rparr>) n1 s1 of
                None \<Rightarrow> None
              | Some (Ended, m2, n2, s2) \<Rightarrow> Some (Stop_run, m2, n2, s2)
              | Some (Left, m2, n2, s2) \<Rightarrow>
                  Some (if m_running m2 then Next_turn else Stop_run, m2, n2, s2)
              | Some (Url_failed, m2, n2, s2) \<Rightarrow>
                  (if \<not> m_running m2 then Some (Stop_run, m2, n2, s2)
                   else
                     (let (ok, m3, s3) = try_next_stream_with_cooldown R L (tn_env_after tn) X src f ch
                                           (tn_failed tn) m2 s2
                      in if ok then Some (Next_turn, clear_connection_failure_history m3, n2 + 1, s3)
                         else Some (Stop_run, m3, n2, s3)))))"

fun run_turns ::
  "'s redis_api \<Rightarrow> logins \<Rightarrow> site \<Rightarrow> sources \<Rightarrow> live_config \<Rightarrow> failover_config \<Rightarrow> worker \<Rightarrow> channel \<Rightarrow>
   's turn list \<Rightarrow> manager \<Rightarrow> int \<Rightarrow> 's \<Rightarrow> (manager \<times> 's) option" where
  "run_turns R L X src g f w ch tns m n s =
     (if \<not> m_running m \<or> max_stream_switches f < n then Some (m, s)
      else case tns of
             [] \<Rightarrow> None
           | tn # rest \<Rightarrow>
               (case run_turn R L X src g f w ch tn m n s of
                  None \<Rightarrow> None
                | Some (Stop_run, m1, n1, s1) \<Rightarrow> Some (m1, s1)
                | Some (Next_turn, m1, n1, s1) \<Rightarrow> run_turns R L X src g f w ch rest m1 n1 s1))"

section \<open>The end of a run\<close>

text \<open>
  The channel is in error, and the viewers are told, where the worker still owns it, or where
  nobody does and it had not become active.
\<close>

definition may_write_error :: "'s redis_api \<Rightarrow> worker \<Rightarrow> string \<Rightarrow> 's \<Rightarrow> bool" where
  "may_write_error R w c s =
     (case get_channel_owner R s c of
        None \<Rightarrow> (case channel_state_of R s c of
                   None \<Rightarrow> False | Some st \<Rightarrow> st \<in> set (map state_text PRE_ACTIVE))
      | Some owner \<Rightarrow> owner \<noteq> [] \<and> worker_id w \<noteq> [] \<and> owner = worker_id w)"

definition error_message :: "failover_config \<Rightarrow> manager \<Rightarrow> string" where
  "error_message f m =
     (if m_tried m \<noteq> {} then ''All '' @ dec (int (card (m_tried m))) @ '' stream options failed''
      else ''Connection failed after '' @ dec (max_retries f) @ '' attempts'')"

definition end_of_run ::
  "'s redis_api \<Rightarrow> failover_config \<Rightarrow> worker \<Rightarrow> string \<Rightarrow> real \<Rightarrow> manager \<Rightarrow> 's \<Rightarrow>
   manager \<times> worker \<times> 's" where
  "end_of_run R f w c t m s =
     (m\<lparr>m_connected := False\<rparr>, w\<lparr>live_managers := removeAll c (live_managers w)\<rparr>,
      if \<not> may_write_error R w c s then s
      else r_setex R
             (hset_all R (metadata c)
                [(''state'', VStr (state_text Error_state)), (''state_changed_at'', VTime t),
                 (''error_message'', VStr (error_message f m)), (''error_time'', VTime t)] s)
             (Live (Channel_stopping c)) 60 (VStr ''true''))"

definition run ::
  "'s redis_api \<Rightarrow> logins \<Rightarrow> site \<Rightarrow> sources \<Rightarrow> live_config \<Rightarrow> failover_config \<Rightarrow> worker \<Rightarrow> channel \<Rightarrow>
   's turn list \<Rightarrow> real \<Rightarrow> manager \<Rightarrow> 's \<Rightarrow> (manager \<times> worker \<times> 's) option" where
  "run R L X src g f w ch tns t m s =
     map_option (\<lambda>(m1, s1). end_of_run R f w (ch_uuid ch) t m1 s1)
       (run_turns R L X src g f w ch tns (m\<lparr>m_stop_requested := False\<rparr>) 0 s)"

end
