(* ===== verification/Failover_Cases.thy ===== *)
theory Failover_Cases
  imports Failover_Run Channel_Facts
begin

text \<open>
  A channel with two streams that the theorems on the failover are applied to.
\<close>

section \<open>Without holds a look changes nothing\<close>

context redis
begin

lemma capacity_check_quiet: "\<not> in_use e \<Longrightarrow> snd (pool_has_capacity_for_profile R L e p v s) = s"
  by (auto simp: pool_has_capacity_for_profile_def Let_def case_prod_unfold slots_held_off
      profile_has_capacity_for_selection_def group_has_capacity_for_profile_def split: option.split)

lemma select_profile_quiet: "\<not> in_use e \<Longrightarrow> snd (select_profile R L e ch ps s) = s"
  by (induction ps arbitrary: s)
     (simp_all add: Let_def case_prod_unfold profile_available_for_channel_switch_def capacity_check_quiet)

lemma alternates_quiet:
  assumes "\<not> in_use e"
  shows "snd (get_alternate_streams R L e ch cur allowed s) = s"
proof -
  have "snd (collect_alternates R L e ch allowed cur sts s) = s" for sts
    using select_profile_quiet [OF assms]
    by (induction sts arbitrary: s) (auto simp: case_prod_unfold Let_def split: option.split)
  then show ?thesis by (simp add: get_alternate_streams_def case_prod_unfold Let_def)
qed

lemma switch_info_quiet:
  assumes "\<not> in_use e" and "sid \<noteq> 0"
  shows "snd (get_stream_info_for_switch R L e X src ch (Some sid) None s) = s"
  using assms select_profile_quiet [OF assms(1)]
  by (auto simp: get_stream_info_for_switch_def switch_target_def known_stream_def Let_def
      split: sum.split option.split prod.split) (metis snd_conv)+

end

section \<open>Values the witnesses are evaluated on\<close>

text \<open>
  A channel on the stream of one provider, with a stream of another one that has two logins for
  one connection each.
\<close>

definition fo_account :: account where
  "fo_account = ex_account\<lparr>acc_id := 9, server_group := None\<rparr>"

definition fo_first :: profile where
  "fo_first = ex_profile\<lparr>prof_id := 21, max_streams := 1, m3u_account := fo_account\<rparr>"

definition fo_second :: profile where
  "fo_second = ex_profile\<lparr>prof_id := 22, max_streams := 1, is_default := False, m3u_account := fo_account\<rparr>"

definition fo_stream :: stream where
  "fo_stream = ex_stream\<lparr>str_id := 20, str_account := Some fo_account\<rparr>"

definition fo_env :: env where
  "fo_env = ex_env\<lparr>in_use := False, profiles := [ex_profile, fo_first, fo_second]\<rparr>"

definition fo_channel :: channel where
  "fo_channel = ex_channel\<lparr>ch_streams := [ex_stream, fo_stream]\<rparr>"

definition fo_site :: site where
  "fo_site = \<lparr>channel_rows = [fo_channel], stream_rows = [(''h10'', ex_stream), (''h20'', fo_stream)],
              recorded_names = []\<rparr>"

definition fo_sources :: sources where
  "fo_sources = \<lparr>resolve_url = (\<lambda>st p. Some (''login'' @ dec (prof_id p))), agent_string = (\<lambda>a. ''agent''),
                 is_proxy = (\<lambda>p. True)\<rparr>"

definition fo_playing :: mem where
  "fo_playing = \<lparr>m_count = (\<lambda>_. 0)(Profile_connections 1 := 1),
     m_get = [Channel_stream 5 \<mapsto> VInt 10, Stream_profile 10 \<mapsto> VInt 1],
     m_hash = [(metadata ''c5'', [(''url'', VStr ''login1''), (''stream_id'', VInt 10)])],
     m_members = (\<lambda>_. [])\<rparr>"

definition fo_manager :: manager where
  "fo_manager = new_manager mem_redis fo_playing ''c5'' 100 ''login1'' ''agent'' False (Some 10)"

definition fo_config :: failover_config where
  "fo_config = \<lparr>max_retries = 3, retry_window = 1800, stable_threshold = 30, max_stream_switches = 10,
                rotation_cooldown = 60, leave_stalling = True, connection_timeout = 10\<rparr>"

abbreviation fo_next :: "manager \<Rightarrow> mem \<Rightarrow> bool \<times> manager \<times> mem" where
  "fo_next m s \<equiv> try_next_stream mem_redis ex_logins fo_env fo_site fo_sources fo_config fo_channel False m s"

lemma fo_alternates: "fst (get_alternate_streams mem_redis ex_logins fo_env fo_channel (Some 10) None fo_playing) = [(20, 21)]"
  by code_simp


lemma try_one:
  "fst (try_streams R L e X src ch reason [a] m s) =
     (case fst (get_stream_info_for_switch R L e X src ch (Some (fst a)) None s) of
        Inl _ \<Rightarrow> False | Inr i \<Rightarrow> info_url i \<noteq> m_url m)"
  by (auto simp: update_url_def Let_def case_prod_unfold split: sum.split)

lemma fo_info: "fst (get_stream_info_for_switch mem_redis ex_logins fo_env fo_site fo_sources fo_channel (Some 20) None fo_playing) =
  Inr \<lparr>info_url = ''login21'', info_agent = ''agent'', info_transcode = False, info_stream_profile = 1, info_stream = 20,
        info_m3u_profile = 21\<rparr>"
  by code_simp

lemma fo_left: "untried fo_manager (checked_last fo_env fo_channel [(20, 21)]) = [(20, 21)]"
  by code_simp

lemma fo_fields: "m_stream fo_manager = Some 10" "m_url fo_manager = ''login1''"
  by code_simp+

lemma fo_quiet: "snd (get_alternate_streams mem_redis ex_logins fo_env fo_channel (Some 10) None fo_playing) = fo_playing"
  by (rule mem.alternates_quiet) (simp add: fo_env_def)

lemma fo_switched: "fst (fo_next fo_manager fo_playing)"
  by (simp add: try_next_stream_def case_prod_unfold Let_def fo_fields fo_alternates fo_left fo_quiet try_one fo_info del: try_streams.simps)

text \<open>Another channel takes the login's connection after the streams were looked at.\<close>

definition fo_taken :: mem where
  "fo_taken = fo_playing\<lparr>m_count := (m_count fo_playing)(Profile_connections 21 := 1)\<rparr>"

lemma fo_taken_info: "fst (get_stream_info_for_switch mem_redis ex_logins fo_env fo_site fo_sources fo_channel (Some 20) None fo_taken) =
  Inr \<lparr>info_url = ''login22'', info_agent = ''agent'', info_transcode = False, info_stream_profile = 1, info_stream = 20,
        info_m3u_profile = 22\<rparr>"
  by code_simp

end
