(* ===== verification/Failover_Facts.thy ===== *)
theory Failover_Facts
  imports Failover_Cases
begin

text \<open>
  What is proved of the failover: which streams it may go to and on which profile, that it goes
  somewhere new, and that a channel whose streams do not play is given up.
\<close>

section \<open>The profile of an alternate\<close>

text \<open>What reading does to the store: holds that ran out go, nothing else.\<close>

definition undisturbed :: "'s redis_api \<Rightarrow> env \<Rightarrow> 's \<Rightarrow> 's \<Rightarrow> bool" where
  "undisturbed R e s s' \<longleftrightarrow>
     r_count R s' = r_count R s \<and> r_get R s' = r_get R s \<and>
     (\<forall>key. holders R e s' key = holders R e s key)"

lemma undisturbed_refl [simp]: "undisturbed R e s s"
  by (simp add: undisturbed_def)

lemma undisturbed_trans: "undisturbed R e s s' \<Longrightarrow> undisturbed R e s' s'' \<Longrightarrow> undisturbed R e s s''"
  by (simp add: undisturbed_def)

definition good_profile :: "'s redis_api \<Rightarrow> logins \<Rightarrow> env \<Rightarrow> channel \<Rightarrow> 's \<Rightarrow> profile \<Rightarrow> bool" where
  "good_profile R L e ch s p \<longleftrightarrow> channel_using_profile R s ch p \<or> has_room R L e p 0 None s"

definition alternate_of ::
  "'s redis_api \<Rightarrow> logins \<Rightarrow> env \<Rightarrow> channel \<Rightarrow> (int \<Rightarrow> profile list) option \<Rightarrow> int option \<Rightarrow> 's \<Rightarrow>
   stream \<Rightarrow> alternate option" where
  "alternate_of R L e ch allowed cur s st =
     (if known_stream cur \<and> cur = Some (str_id st) then None
      else case profiles_to_try e allowed st of
             None \<Rightarrow> None
           | Some ps \<Rightarrow> map_option (\<lambda>p. (str_id st, prof_id p)) (List.find (good_profile R L e ch s) ps))"

context redis
begin

lemma good_profile_undisturbed:
  assumes "undisturbed R e s s'"
  shows "good_profile R L e ch s' p = good_profile R L e ch s p"
proof -
  have h: "\<And>key. holders R e s' key = holders R e s key" and c: "r_count R s' = r_count R s"
    and g: "r_get R s' = r_get R s"
    using assms by (simp_all add: undisturbed_def)
  have "login_room R L e p 0 None True s' = login_room R L e p 0 None True s"
    by (rule login_room_cong) (simp_all add: h c)
  moreover have "channel_using_profile R s' ch p = channel_using_profile R s ch p"
    unfolding channel_using_profile_def get_int_def g ..
  ultimately show ?thesis
    by (simp add: good_profile_def has_room_def profile_room_cong [of e s' s, OF h c])
qed

lemma capacity_check_undisturbed:
  "undisturbed R e s (snd (pool_has_capacity_for_profile R L e p v s))"
  by (auto simp: undisturbed_def pool_has_capacity_for_profile_def Let_def case_prod_unfold
      profile_has_capacity_for_selection_def group_has_capacity_for_profile_def slots_held_holders
      split: option.split)

lemma select_profile_first:
  assumes "\<forall>p\<in>set ps. 0 \<le> max_streams p"
  shows "fst (select_profile R L e ch ps s) = List.find (good_profile R L e ch s) ps \<and>
         undisturbed R e s (snd (select_profile R L e ch ps s))"
  using assms
proof (induction ps arbitrary: s)
  case Nil
  then show ?case by simp
next
  case (Cons p ps)
  obtain ok s1 where c: "profile_available_for_channel_switch R L e p (channel_using_profile R s ch p) s = (ok, s1)"
    by (cases "profile_available_for_channel_switch R L e p (channel_using_profile R s ch p) s")
  have ok: "ok = good_profile R L e ch s p"
    using c pool_has_capacity_room [of p L e None s] Cons.prems
    by (auto simp: profile_available_for_channel_switch_def good_profile_def split: if_splits)
  have u: "undisturbed R e s s1"
    using c capacity_check_undisturbed [of e s L p None]
    by (auto simp: profile_available_for_channel_switch_def split: if_splits)
  have f: "good_profile R L e ch s1 = good_profile R L e ch s"
    using good_profile_undisturbed [OF u] by (simp add: fun_eq_iff)
  show ?case
    using Cons.IH [of s1] Cons.prems ok f undisturbed_trans [OF u]
    by (auto simp: c u)
qed

lemma collect_alternates_are:
  assumes "\<forall>st ps p. st \<in> set sts \<longrightarrow> profiles_to_try e allowed st = Some ps \<longrightarrow> p \<in> set ps \<longrightarrow> 0 \<le> max_streams p"
  shows "fst (collect_alternates R L e ch allowed cur sts s) =
           List.map_filter (alternate_of R L e ch allowed cur s) sts \<and>
         undisturbed R e s (snd (collect_alternates R L e ch allowed cur sts s))"
  using assms
proof (induction sts arbitrary: s)
  case Nil
  then show ?case by (simp add: List.map_filter_def)
next
  case (Cons st sts)
  have same: "alternate_of R L e ch allowed cur t = alternate_of R L e ch allowed cur s"
    if "undisturbed R e s t" for t
  proof -
    have "good_profile R L e ch t = good_profile R L e ch s"
      by (intro ext) (rule good_profile_undisturbed [OF that])
    then show ?thesis by (intro ext) (simp only: alternate_of_def)
  qed
  have prems: "\<forall>st ps p. st \<in> set sts \<longrightarrow> profiles_to_try e allowed st = Some ps \<longrightarrow> p \<in> set ps \<longrightarrow> 0 \<le> max_streams p"
    using Cons.prems by simp
  note IH = Cons.IH [OF prems]
  show ?case
  proof (cases "(known_stream cur \<and> cur = Some (str_id st)) \<or> profiles_to_try e allowed st = None")
    case True
    then show ?thesis using IH [of s]
      by (auto simp: List.map_filter_simps alternate_of_def split: option.split)
  next
    case False
    then obtain ps where ps: "profiles_to_try e allowed st = Some ps" by auto
    obtain found s1 where sel: "select_profile R L e ch ps s = (found, s1)"
      by (cases "select_profile R L e ch ps s")
    have sp: "found = List.find (good_profile R L e ch s) ps" "undisturbed R e s s1"
      using select_profile_first [of ps L e ch s] Cons.prems ps sel by auto
    have a: "alternate_of R L e ch allowed cur s st = map_option (\<lambda>p. (str_id st, prof_id p)) found"
      using False by (auto simp: alternate_of_def ps sp(1))
    show ?thesis
      using False IH [of s1] same [OF sp(2)] undisturbed_trans [OF sp(2)]
      by (auto simp: ps sel a List.map_filter_simps case_prod_unfold split: option.split)
  qed
qed

end

section \<open>Which streams these are\<close>

lemma ordered_alternate:
  "a \<in> set (order_alternates_from_current found ids cur) \<Longrightarrow> a \<in> set found"
  by (auto simp: order_alternates_from_current_def map_filter_member Let_def
      dest: map_of_SomeD split: if_splits option.splits)

lemma got_alternate:
  assumes "a \<in> set (fst (get_alternate_streams R L e ch cur allowed s))"
  shows "a \<in> set (fst (collect_alternates R L e ch allowed cur (ch_streams ch) s))"
  using assms
  by (auto simp: get_alternate_streams_def case_prod_unfold Let_def map_filter_member
      dest!: map_of_SomeD ordered_alternate)

lemma collected_alternate:
  assumes "a \<in> set (fst (collect_alternates R L e ch allowed cur sts s))"
  shows "fst a \<in> str_id ` set sts \<and> \<not> (known_stream cur \<and> cur = Some (fst a))"
  using assms
  by (induction sts arbitrary: s) (auto simp: case_prod_unfold Let_def split: if_splits option.splits prod.splits)

lemma alternate_elsewhere:
  assumes "a \<in> set (fst (get_alternate_streams R L e ch cur allowed s))"
  shows "fst a \<in> str_id ` set (ch_streams ch) \<and> \<not> (known_stream cur \<and> cur = Some (fst a))"
  using collected_alternate [OF got_alternate [OF assms]] .

lemma checked_last_set [simp]: "set (checked_last e ch as) = set as"
  by (auto simp: checked_last_def split: option.split)

section \<open>All of them\<close>

lemma position_of_nth: "position_of xs i = Some k \<Longrightarrow> k < length xs \<and> xs ! k = i"
  by (induction xs arbitrary: k) (auto split: if_splits)

lemma position_of_None: "position_of xs i = None \<longleftrightarrow> i \<notin> set xs"
  by (induction xs) auto

lemma other_position:
  assumes "k < n" and "j < n" and "j \<noteq> k"
  shows "\<exists>d\<in>{1..<n}. (k + d) mod n = (j::nat)"
proof (cases "k < j")
  case True
  then show ?thesis using assms by (intro bexI [of _ "j - k"]) auto
next
  case False
  then have "(k + (n + j - k)) mod n = j" using assms by simp
  then show ?thesis using assms False by (intro bexI [of _ "n + j - k"]) auto
qed

lemma position_of_absent [simp]: "i \<notin> set xs \<Longrightarrow> position_of xs i = None"
  by (simp add: position_of_None)

text \<open>Rotating the order loses no stream.\<close>

lemma order_alternates_set:
  assumes "distinct (map fst found)" and "fst ` set found \<subseteq> set ids" and "\<forall>a\<in>set found. cur \<noteq> Some (fst a)"
  shows "set (order_alternates_from_current found ids cur) = set found"
proof
  show "set (order_alternates_from_current found ids cur) \<subseteq> set found"
    using ordered_alternate by blast
  show "set found \<subseteq> set (order_alternates_from_current found ids cur)"
  proof
    fix a assume a: "a \<in> set found"
    show "a \<in> set (order_alternates_from_current found ids cur)"
    proof (cases "found = [] \<or> ids = [] \<or> cur = None \<or> (\<exists>c. cur = Some c \<and> c \<notin> set ids)")
      case True
      then show ?thesis
        using a by (auto simp: order_alternates_from_current_def)
    next
      case False
      then obtain c k where c: "cur = Some c" "position_of ids c = Some k"
        using position_of_None [of ids] by fastforce
      obtain j where j: "j < length ids" "ids ! j = fst a"
        using a assms(2) by (metis image_eqI in_set_conv_nth subsetD)
      have "j \<noteq> k" using j c position_of_nth [OF c(2)] assms(3) a by auto
      then obtain d where d: "d \<in> {1..<length ids}" "(k + d) mod length ids = j"
        using other_position [of k "length ids" j] position_of_nth [OF c(2)] j(1) by auto
      have "map_of (rev found) (fst a) = Some (snd a)"
        using a assms(1) by (simp add: rev_map [symmetric])
      then show ?thesis
        using False c d j
        by (auto simp: order_alternates_from_current_def map_filter_member Let_def intro!: bexI [of _ d])
    qed
  qed
qed

lemma failover_order_set [simp]: "set (failover_order R e s c ids ss) = set ids"
  by (auto simp: failover_order_def Let_def)

lemma map_filter_fst_distinct:
  assumes "distinct (map g xs)" and "\<And>x y. f x = Some y \<Longrightarrow> fst y = g x"
  shows "distinct (map fst (List.map_filter f xs))"
  using assms
  by (induction xs) (auto simp: List.map_filter_simps map_filter_member split: option.split, metis image_eqI)

lemma alternate_of_iff:
  assumes "str_id st \<noteq> 0"
  shows "alternate_of R L e ch None cur s st = Some a \<longleftrightarrow>
         (\<exists>ps p. cur \<noteq> Some (str_id st) \<and> stream_profiles e st = Some ps \<and>
            List.find (good_profile R L e ch s) ps = Some p \<and> a = (str_id st, prof_id p))"
proof -
  have "profiles_to_try e None st = stream_profiles e st"
    by (auto simp: profiles_to_try_def stream_profiles_def split: option.split)
  moreover have "(known_stream cur \<and> cur = Some (str_id st)) \<longleftrightarrow> cur = Some (str_id st)"
    using assms by (auto simp: known_stream_def)
  ultimately show ?thesis
    by (cases "stream_profiles e st") (auto simp: alternate_of_def)
qed

text \<open>
  C14: The streams a channel may move to are exactly its other streams whose account is on and has a
  default profile and where some profile has room or is the one the channel has, each on its first
  such profile, the default one first: neither rotating the list nor the quality limit of the
  device that started the channel loses one or adds one.
\<close>

lemma alternates_exact:
  assumes "redis R" and "distinct (map str_id (ch_streams ch))" and "\<forall>st\<in>set (ch_streams ch). str_id st \<noteq> 0"
    and "\<forall>p\<in>set (profiles e). 0 \<le> max_streams p"
  shows "a \<in> set (fst (get_alternate_streams R L e ch cur None s)) \<longleftrightarrow>
         (\<exists>st\<in>set (ch_streams ch). \<exists>ps p. cur \<noteq> Some (str_id st) \<and> stream_profiles e st = Some ps \<and>
            List.find (good_profile R L e ch s) ps = Some p \<and> a = (str_id st, prof_id p))"
proof -
  let ?alt = "alternate_of R L e ch None cur s"
  have pos: "0 \<le> max_streams p" if "profiles_to_try e None st = Some ps" "p \<in> set ps" for st ps p
    using that assms(4)
    by (auto simp: profiles_to_try_def stream_profiles_def account_profiles_def
        dest!: default_then_rest_set split: option.splits if_splits)
  define found where "found = fst (collect_alternates R L e ch None cur (ch_streams ch) s)"
  have found: "found = List.map_filter ?alt (ch_streams ch)"
    using redis.collect_alternates_are [OF assms(1), of "ch_streams ch" e None L ch cur s] pos
    unfolding found_def by blast
  have key: "fst y = str_id st" if "?alt st = Some y" for st y
    using that by (auto simp: alternate_of_def split: if_splits option.splits)
  have distinct: "distinct (map fst found)"
    unfolding found by (rule map_filter_fst_distinct [OF assms(2) key])
  have mem: "a \<in> set found \<longleftrightarrow>
         (\<exists>st\<in>set (ch_streams ch). \<exists>ps p. cur \<noteq> Some (str_id st) \<and> stream_profiles e st = Some ps \<and>
            List.find (good_profile R L e ch s) ps = Some p \<and> a = (str_id st, prof_id p))" for a
    unfolding found map_filter_member using assms(3) by (intro bex_cong refl alternate_of_iff) auto
  define ordered where "ordered = order_alternates_from_current found (map str_id (ch_streams ch)) cur"
  have "fst y \<in> set (map str_id (ch_streams ch)) \<and> cur \<noteq> Some (fst y)" if "y \<in> set found" for y
    using that unfolding mem by auto
  then have set_ordered: "set ordered = set found"
    unfolding ordered_def by (intro order_alternates_set [OF distinct]) auto
  have "fst (get_alternate_streams R L e ch cur None s) =
        List.map_filter (\<lambda>sid. map_option (Pair sid) (map_of ordered sid))
            (failover_order R e (snd (collect_alternates R L e ch None cur (ch_streams ch) s)) (ch_uuid ch)
               (map fst ordered) (ch_streams ch))"
    by (simp add: get_alternate_streams_def case_prod_unfold Let_def ordered_def found_def)
  moreover have "map_of ordered (fst a) = Some (snd a) \<longleftrightarrow> a \<in> set ordered"
  proof
    assume "a \<in> set ordered"
    then have "fst a \<in> fst ` set ordered" by simp
    then obtain v where v: "map_of ordered (fst a) = Some v" by (metis map_of_eq_None_iff not_None_eq)
    have "(fst a, v) \<in> set found" using map_of_SomeD [OF v] set_ordered by simp
    moreover have "(fst a, snd a) \<in> set found" using \<open>a \<in> set ordered\<close> set_ordered by simp
    ultimately have "v = snd a" by (rule eq_key_imp_eq_value [OF distinct])
    then show "map_of ordered (fst a) = Some (snd a)" using v by simp
  next
    assume "map_of ordered (fst a) = Some (snd a)"
    from map_of_SomeD [OF this] show "a \<in> set ordered" by simp
  qed
  ultimately have "a \<in> set (fst (get_alternate_streams R L e ch cur None s)) \<longleftrightarrow> a \<in> set ordered"
    by (cases a) (force simp: map_filter_member)
  then show ?thesis using set_ordered mem by simp
qed

lemma alternates_exact_witness:
  "\<exists>st\<in>set (ch_streams fo_channel). \<exists>ps p. stream_profiles fo_env st = Some ps \<and>
     List.find (good_profile mem_redis ex_logins fo_env fo_channel fo_playing) ps = Some p \<and>
     (20, 21) = (str_id st, prof_id p)"
proof -
  have "distinct (map str_id (ch_streams fo_channel)) \<and> (\<forall>st\<in>set (ch_streams fo_channel). str_id st \<noteq> 0)"
    "\<forall>p\<in>set (profiles fo_env). 0 \<le> max_streams p"
    by code_simp+
  with alternates_exact [OF mem.redis_axioms, of fo_channel fo_env "(20, 21)" ex_logins "Some 10" fo_playing]
    fo_alternates
  show ?thesis by auto
qed

section \<open>Where a failover ends\<close>

lemma try_streams_won:
  assumes "try_streams R L e X src ch reason as m s = (True, m', s')"
  shows "\<exists>a\<in>set as. \<exists>i s1. info_url i \<noteq> m_url m \<and> m_url m' = info_url i \<and> m_stream m' = Some (fst a) \<and>
           m_tried m \<subseteq> m_tried m' \<and> fst a \<in> m_tried m' \<and> m_retries m' = 0 \<and>
           s' = hset_all R (metadata (ch_uuid ch)) (switch_fields (now e) reason a i) s1"
  using assms
proof (induction as arbitrary: m s)
  case Nil
  then show ?case by simp
next
  case (Cons a as)
  let ?m1 = "m\<lparr>m_tried := insert (fst a) (m_tried m)\<rparr>"
  obtain got s1 where g: "get_stream_info_for_switch R L e X src ch (Some (fst a)) None s = (got, s1)"
    by (cases "get_stream_info_for_switch R L e X src ch (Some (fst a)) None s")
  show ?case
  proof (cases "\<exists>i. got = Inr i \<and> info_url i \<noteq> m_url m")
    case True
    then obtain i where i: "got = Inr i" "info_url i \<noteq> m_url m" by auto
    show ?thesis
      using Cons.prems i
      by (auto simp: g update_url_def Let_def clear_connection_failure_history_def split: if_splits)
  next
    case False
    then have "try_streams R L e X src ch reason as ?m1 s1 = (True, m', s')"
      using Cons.prems g by (cases got) auto
    from Cons.IH [OF this] obtain b i s2 where "b \<in> set as"
      and "info_url i \<noteq> m_url m" "m_url m' = info_url i" "m_stream m' = Some (fst b)"
        "m_tried m \<subseteq> m_tried m'" "fst b \<in> m_tried m'" "m_retries m' = 0"
        "s' = hset_all R (metadata (ch_uuid ch)) (switch_fields (now e) reason b i) s2"
      by auto
    then show ?thesis
      by (intro bexI [of _ b] exI [of _ i] exI [of _ s2]) simp_all
  qed
qed

lemma wrap_from: "set (fst (wrap_rotation f t as m)) \<subseteq> set as"
  by (auto simp: wrap_rotation_def untried_def Let_def split: option.split)

lemma wrapped_again:
  assumes "wrap_rotation f t as m = (again, m1)" and "again \<noteq> []"
  shows "m_had_success m \<and> m_passes m < max_stream_switches f \<and> (\<exists>u. m_cooldown m = Some u \<and> u \<le> t) \<and>
         m_url m1 = m_url m \<and> set again \<subseteq> set as"
  using assms wrap_from [of f t as m]
  by (auto simp: wrap_rotation_def Let_def split: if_splits option.splits)

text \<open>
  C9: A failover that succeeds puts the channel on another of its streams, with another URL, that had
  a connection free and was not tried yet; only a channel that played before, whose cooldown is
  over and that went round less often than allowed may go to one tried before, and a stream left
  for stalling goes to a real stream. The metadata of the channel say where it is, and its failures
  are forgotten.
\<close>

lemma failover_goes_somewhere_new:
  assumes "redis R"
    and "try_next_stream R L e X src f ch real_only m s = (True, m', s')"
  shows "\<exists>sid pid. m_stream m' = Some sid \<and> sid \<in> str_id ` set (ch_streams ch) \<and>
           \<not> (known_stream (m_stream m) \<and> m_stream m = Some sid) \<and>
           m_url m' \<noteq> m_url m \<and> m_retries m' = 0 \<and> sid \<in> m_tried m' \<and>
           r_hget R s' (metadata (ch_uuid ch)) ''url'' = Some (VStr (m_url m')) \<and>
           r_hget R s' (metadata (ch_uuid ch)) ''stream_id'' = Some (VInt sid) \<and>
           r_hget R s' (metadata (ch_uuid ch)) ''m3u_profile'' = Some (VInt pid) \<and>
           (sid, pid) \<in> set (fst (get_alternate_streams R L e ch (m_stream m) None s)) \<and>
           (sid \<notin> m_tried m \<or>
            \<not> real_only \<and> m_had_success m \<and> m_passes m < max_stream_switches f \<and>
            (\<exists>u. m_cooldown m = Some u \<and> u \<le> now e)) \<and>
           (real_only \<longrightarrow> (\<exists>st. stream_by_id X sid = Some st \<and> \<not> is_custom st))"
proof -
  let ?found = "fst (get_alternate_streams R L e ch (m_stream m) None s)"
  let ?left = "untried m (checked_last e ch ?found)"
  define s1 where "s1 = snd (get_alternate_streams R L e ch (m_stream m) None s)"
  have "\<exists>as reason m1. try_streams R L e X src ch reason as m1 s1 = (True, m', s') \<and> m_url m1 = m_url m \<and>
          set as \<subseteq> set ?found \<and>
          ((\<forall>a\<in>set as. fst a \<notin> m_tried m) \<or>
           \<not> real_only \<and> m_had_success m \<and> m_passes m < max_stream_switches f \<and>
           (\<exists>u. m_cooldown m = Some u \<and> u \<le> now e)) \<and>
          (real_only \<longrightarrow> (\<forall>a\<in>set as. \<exists>st. stream_by_id X (fst a) = Some st \<and> \<not> is_custom st))"
  proof (cases "real_only \<or> ?left \<noteq> []")
    case True
    define as where "as = (if real_only then real_streams X ?left else ?left)"
    have "set as \<subseteq> set ?found" "\<forall>a\<in>set as. fst a \<notin> m_tried m"
      "real_only \<longrightarrow> (\<forall>a\<in>set as. \<exists>st. stream_by_id X (fst a) = Some st \<and> \<not> is_custom st)"
      by (auto simp: as_def real_streams_def untried_def split: option.splits)
    moreover have "\<exists>reason. try_streams R L e X src ch reason as m s1 = (True, m', s')"
      using assms(2) True
      by (auto simp: try_next_stream_def Let_def case_prod_unfold as_def s1_def split: if_splits)
    ultimately show ?thesis by blast
  next
    case False
    obtain again m1 where w: "wrap_rotation f (now e) (checked_last e ch ?found) m = (again, m1)"
      by (cases "wrap_rotation f (now e) (checked_last e ch ?found) m")
    have t: "try_streams R L e X src ch ''max_retries_exceeded'' again m1 s1 = (True, m', s')"
      using assms(2) False w by (simp add: try_next_stream_def Let_def case_prod_unfold s1_def)
    then have "again \<noteq> []" by auto
    from wrapped_again [OF w this] t False show ?thesis
      by (intro exI [of _ again] exI [of _ "''max_retries_exceeded''"] exI [of _ m1]) simp
  qed
  then obtain as reason m1 where t: "try_streams R L e X src ch reason as m1 s1 = (True, m', s')"
    and "m_url m1 = m_url m" and sub: "set as \<subseteq> set ?found"
    and new: "(\<forall>a\<in>set as. fst a \<notin> m_tried m) \<or>
           \<not> real_only \<and> m_had_success m \<and> m_passes m < max_stream_switches f \<and>
           (\<exists>u. m_cooldown m = Some u \<and> u \<le> now e)"
    and real: "real_only \<longrightarrow> (\<forall>a\<in>set as. \<exists>st. stream_by_id X (fst a) = Some st \<and> \<not> is_custom st)"
    by blast
  from try_streams_won [OF t] obtain a i s2 where a: "a \<in> set as"
    and won: "info_url i \<noteq> m_url m1" "m_url m' = info_url i" "m_stream m' = Some (fst a)"
      "fst a \<in> m_tried m'" "m_retries m' = 0"
      "s' = hset_all R (metadata (ch_uuid ch)) (switch_fields (now e) reason a i) s2"
    by auto
  have "a \<in> set ?found" using a sub by auto
  note here = this alternate_elsewhere [OF this]
  show ?thesis
    using here new real a won \<open>m_url m1 = m_url m\<close>
    by (intro exI [of _ "fst a"] exI [of _ "snd a"])
       (auto simp: redis.hget_hset_all [OF assms(1)] switch_fields_def)
qed

lemma failover_goes_somewhere_new_witness:
  "m_url (fst (snd (fo_next fo_manager fo_playing))) \<noteq> ''login1''"
proof -
  obtain m s where "fo_next fo_manager fo_playing = (True, m, s)"
    using fo_switched by (metis prod.collapse)
  from failover_goes_somewhere_new [OF mem.redis_axioms this] this show ?thesis
    by (auto simp: fo_fields)
qed

text \<open>
  What a failover is told about a stream it chose (get_stream_info_for_switch, which picks a
  profile again) is for the profile the stream was chosen on, and the URL is that profile's, as
  long as nothing but holds that ran out has changed between the two looks.
\<close>

lemma alternate_keeps_its_profile:
  assumes "redis R"
    and rows: "\<forall>st\<in>set (ch_streams ch). stream_by_id X (str_id st) = Some st"
    and nonneg: "\<forall>p\<in>set (profiles e). 0 \<le> max_streams p"
    and alt: "(sid, pid) \<in> set (fst (get_alternate_streams R L e ch cur None s))"
    and "sid \<noteq> 0" and same: "undisturbed R e s s'"
    and got: "get_stream_info_for_switch R L e X src ch (Some sid) None s' = (Inr i, s'')"
  shows "info_stream i = sid \<and> info_m3u_profile i = pid \<and>
         (\<exists>st p. stream_by_id X sid = Some st \<and> profile_by_id e pid = Some p \<and>
                 resolve_url src st p = Some (info_url i))"
proof -
  have pos: "p \<in> set ps \<Longrightarrow> 0 \<le> max_streams p"
    if "default_then_rest (filter prof_active (account_profiles e a)) = Some ps" for a ps p
    using that nonneg by (auto simp: account_profiles_def dest!: default_then_rest_set)
  have "fst (collect_alternates R L e ch None cur (ch_streams ch) s) =
          List.map_filter (alternate_of R L e ch None cur s) (ch_streams ch)"
    using redis.collect_alternates_are [OF assms(1), of "ch_streams ch" e None L ch cur s] pos
    by (auto simp: profiles_to_try_def stream_profiles_def split: option.splits if_splits)
  then obtain st where st: "st \<in> set (ch_streams ch)" "alternate_of R L e ch None cur s st = Some (sid, pid)"
    using got_alternate [OF alt] by (auto simp: map_filter_member)
  then obtain a ps p where a: "str_account st = Some a"
    and ps: "default_then_rest (filter prof_active (account_profiles e a)) = Some ps"
    and p: "List.find (good_profile R L e ch s) ps = Some p" "str_id st = sid" "prof_id p = pid"
    by (auto simp: alternate_of_def profiles_to_try_def stream_profiles_def split: option.splits if_splits)
  have g: "good_profile R L e ch s' = good_profile R L e ch s"
    by (intro ext) (rule redis.good_profile_undisturbed [OF assms(1) same])
  have "fst (select_profile R L e ch ps s') = Some p"
    using redis.select_profile_first [OF assms(1), of ps L e ch s'] pos [OF ps] p(1) by (simp add: g)
  then obtain t where sel: "select_profile R L e ch ps s' = (Some p, t)"
    by (cases "select_profile R L e ch ps s'") auto
  have row: "stream_by_id X sid = Some st" using rows st(1) p(2) by auto
  show ?thesis
    using got assms(5) row a ps sel p(2,3)
    by (auto simp: get_stream_info_for_switch_def switch_target_def known_stream_def Let_def
        split: option.splits if_splits)
qed

lemma alternate_keeps_its_profile_witness:
  "\<exists>i s''. get_stream_info_for_switch mem_redis ex_logins fo_env fo_site fo_sources fo_channel (Some 20) None fo_playing =
     (Inr i, s'') \<and> info_m3u_profile i = 21"
proof -
  have rows: "\<forall>st\<in>set (ch_streams fo_channel). stream_by_id fo_site (str_id st) = Some st"
    and pos: "\<forall>p\<in>set (profiles fo_env). 0 \<le> max_streams p"
    by (simp_all add: fo_channel_def fo_site_def fo_stream_def ex_stream_def stream_by_id_def fo_env_def
        fo_first_def fo_second_def)
  obtain i s'' where i: "get_stream_info_for_switch mem_redis ex_logins fo_env fo_site fo_sources fo_channel
      (Some 20) None fo_playing = (Inr i, s'')"
    using fo_info by (metis prod.collapse)
  show ?thesis
    using alternate_keeps_its_profile [OF mem.redis_axioms rows pos _ _ undisturbed_refl i, of 21 "Some 10"]
      fo_alternates i by simp
qed

end
