(* ===== verification/Failover_End.thy ===== *)
theory Failover_End
  imports Failover_Facts
begin

text \<open>A channel whose streams do not play is given up.\<close>

section \<open>A channel that does not play\<close>

text \<open>Failures that follow one another within the window they are counted in.\<close>

definition in_window :: "failover_config \<Rightarrow> 's attempt \<Rightarrow> 's attempt \<Rightarrow> bool" where
  "in_window f a b \<longleftrightarrow> at_ended b - at_ended a \<le> retry_window f"

text \<open>
  A turn none of whose connections plays for the stable time, with as many as retries are allowed;
  what the health monitor asks for, and what others do during the waits, is left open.
\<close>

definition dead_turn :: "failover_config \<Rightarrow> 's turn \<Rightarrow> bool" where
  "dead_turn f tn \<longleftrightarrow>
     nat (max_retries f) \<le> length (tn_attempts tn) \<and>
     (\<forall>a\<in>set (tn_attempts tn). \<not> played_stably f a) \<and> successively (in_window f) (tn_attempts tn)"

definition fresh_count :: "manager \<Rightarrow> bool" where
  "fresh_count m \<longleftrightarrow> m_retries m = 0 \<and> m_last_failure m = None"

lemma after_dead_attempt:
  assumes "\<not> played_stably f a" and "\<not> m_needs_switch m"
    and "connection_attempt R e X f a m n s = (r, m', n')"
  shows "n' = n \<and> (m_needs_switch m' \<longrightarrow> at_switch a) \<and> (r = Switch_wanted \<longrightarrow> m_needs_switch m') \<and>
         (r = Returned \<or> r = Switch_wanted \<or>
          m_last_failure m' = Some (at_ended a) \<and>
          m_retries m' = (case m_last_failure m of
                            Some l \<Rightarrow> if retry_window f < at_ended a - l then 0 else m_retries m
                          | None \<Rightarrow> m_retries m) + 1 \<and>
          (if max_retries f \<le> m_retries m' then r = Given_up else \<exists>d. r = Again d))"
  using assms
  by (auto simp: connection_attempt_def during_attempt_def
      after_failure_def record_connection_failure_def Let_def split: if_splits option.splits)

text \<open>
  The connections to one URL end: the run is over, the URL is given up, or a switch is asked for.
\<close>

lemma dead_url_left:
  assumes "\<forall>a\<in>set as. \<not> played_stably f a" and "successively (in_window f) as"
    and "case (m_last_failure m, as) of (Some l, a # _) \<Rightarrow> at_ended a - l \<le> retry_window f | _ \<Rightarrow> True"
    and "max_retries f \<le> m_retries m + int (length as)"
  shows "\<exists>x m' s'. connect_to_url R e X g f w c as m n s = Some (x, m', n, s') \<and>
           (x = Left \<longrightarrow> \<not> m_running m' \<or> m_needs_switch m' \<or> max_retries f \<le> m_retries m) \<and>
           (m_needs_switch m' \<longrightarrow> m_needs_switch m \<or> (\<exists>a\<in>set as. at_switch a))"
  using assms
proof (induction as arbitrary: m s)
  case Nil
  then show ?case by auto
next
  case (Cons a as)
  show ?case
  proof (cases "\<not> m_running m \<or> max_retries f \<le> m_retries m \<or> m_needs_switch m")
    case True
    then show ?thesis by auto
  next
    case False
    define s1 where "s1 = at_others a s"
    obtain mine m1 where o: "ensure_owner_or_stop R g (at_began a) w c m s1 = (mine, m1)"
      by (cases "ensure_owner_or_stop R g (at_began a) w c m s1")
    show ?thesis
    proof (cases mine)
      case not_mine: False
      then have "m1 = m\<lparr>m_stop_requested := True, m_running := False\<rparr>"
        using o by (auto simp: ensure_owner_or_stop_def split: if_splits)
      then show ?thesis
        using False o not_mine by (simp add: s1_def)
    next
      case True
      then have m1: "m1 = m" using o by (auto simp: ensure_owner_or_stop_def split: if_splits)
      obtain r m2 n2 where c: "connection_attempt R e X f a m n s1 = (r, m2, n2)"
        by (cases "connection_attempt R e X f a m n s1")
      have d: "\<not> played_stably f a" and q: "\<not> m_needs_switch m" using Cons.prems(1) False by simp_all
      note af = after_dead_attempt [OF d q c]
      show ?thesis
      proof (cases "\<exists>t. r = Again t")
        case end_of_url: False
        then have "r = Returned \<or> r = Switch_wanted \<or> r = Given_up" by (cases r) auto
        then show ?thesis using False o m1 \<open>mine\<close> c af by (auto simp: s1_def)
      next
        case again: True
        then obtain t where r: "r = Again t" and n2: "n2 = n"
          and l: "m_last_failure m2 = Some (at_ended a)" and few: "\<not> max_retries f \<le> m_retries m2"
          and re: "m_retries m2 = m_retries m + 1"
          using af Cons.prems(3) by (auto split: if_splits option.splits)
        have "\<exists>x m' s'. connect_to_url R e X g f w c as m2 n s1 = Some (x, m', n, s') \<and>
                (x = Left \<longrightarrow> \<not> m_running m' \<or> m_needs_switch m' \<or> max_retries f \<le> m_retries m2) \<and>
                (m_needs_switch m' \<longrightarrow> m_needs_switch m2 \<or> (\<exists>a\<in>set as. at_switch a))"
          using Cons.prems(1,2,4) l re
          by (intro Cons.IH) (auto simp: successively_Cons in_window_def split: list.split)
        then show ?thesis
          using False o m1 \<open>mine\<close> c r n2 few af by (auto simp: s1_def)
      qed
    qed
  qed
qed

declare connect_to_url.simps [simp del]

section \<open>Turns\<close>

text \<open>A turn at whose start something was asked for, and neither reconnect nor switch came of it.\<close>

definition asked_in_vain ::
  "'s redis_api \<Rightarrow> logins \<Rightarrow> site \<Rightarrow> sources \<Rightarrow> failover_config \<Rightarrow> channel \<Rightarrow> 's turn \<Rightarrow> manager \<Rightarrow> int \<Rightarrow>
   's \<Rightarrow> bool" where
  "asked_in_vain R L X src f ch tn m n s \<longleftrightarrow>
     (m_needs_reconnect m \<or> m_needs_switch m) \<and> \<not> fst (asked_recovery R L X src f ch tn m n s)"

text \<open>How many of them a run has.\<close>

fun vain_requests ::
  "'s redis_api \<Rightarrow> logins \<Rightarrow> site \<Rightarrow> sources \<Rightarrow> live_config \<Rightarrow> failover_config \<Rightarrow> worker \<Rightarrow> channel \<Rightarrow>
   's turn list \<Rightarrow> manager \<Rightarrow> int \<Rightarrow> 's \<Rightarrow> nat" where
  "vain_requests R L X src g f w ch [] m n s = 0"
| "vain_requests R L X src g f w ch (tn # rest) m n s =
     (if \<not> m_running m \<or> max_stream_switches f < n then 0
      else (if asked_in_vain R L X src f ch tn m n s then 1 else 0) +
           (case run_turn R L X src g f w ch tn m n s of
              Some (Next_turn, m1, n1, s1) \<Rightarrow> vain_requests R L X src g f w ch rest m1 n1 s1
            | _ \<Rightarrow> 0))"

text \<open>
  What is left of a run: switches, and for what is asked for at the start of a turn the turns it
  may take without a switch.
\<close>

definition asked_turns :: "manager \<Rightarrow> int" where
  "asked_turns m = (if m_needs_switch m then (if m_needs_reconnect m then 1 else 0)
                    else if m_needs_reconnect m then 3 else 2)"

definition turns_left :: "failover_config \<Rightarrow> manager \<Rightarrow> int \<Rightarrow> int" where
  "turns_left f m n = 4 * (max_stream_switches f + 1 - n) + asked_turns m"

definition turn_ready :: "manager \<Rightarrow> bool" where
  "turn_ready m \<longleftrightarrow> fresh_count m \<or> m_needs_switch m"

lemma asked_turns_bounds: "0 \<le> asked_turns m" "asked_turns m \<le> 3"
  by (simp_all add: asked_turns_def)

lemma clear_history_fresh [simp]: "fresh_count (clear_connection_failure_history m)"
  by (simp add: fresh_count_def clear_connection_failure_history_def)

lemma clear_history_asked [simp]:
  "asked_turns (clear_connection_failure_history m) = asked_turns m"
  by (simp add: asked_turns_def clear_connection_failure_history_def)

text \<open>What is asked for: a reconnect, a move, in vain, or nothing.\<close>

lemma asked_recovery_cases:
  assumes "asked_recovery R L X src f ch tn m n s = (again, m1, n1, s1)" and "turn_ready m"
  shows "fresh_count m1 \<and>
         (if again then n1 = n \<and> asked_turns m1 < asked_turns m \<or> n1 = n + 1
          else n1 = n \<and> (asked_in_vain R L X src f ch tn m n s \<or>
                 m1 = m \<and> \<not> m_needs_switch m \<and> \<not> m_needs_reconnect m))"
proof (cases "m_needs_reconnect m \<and> tn_reconnects tn")
  case True
  then show ?thesis
    using assms(1)
    by (auto simp: asked_recovery_def attempt_reconnect_def Let_def asked_turns_def
        clear_connection_failure_history_def fresh_count_def)
next
  case False
  show ?thesis
  proof (cases "m_needs_reconnect m \<or> m_needs_switch m")
    case True
    with False assms(1) show ?thesis
      by (auto simp: asked_recovery_def attempt_reconnect_def asked_in_vain_def Let_def case_prod_unfold
          split: if_splits)
  next
    case False
    with assms show ?thesis by (simp add: asked_recovery_def turn_ready_def)
  qed
qed

lemma after_dead_turn:
  assumes retries: "0 < max_retries f" and dead: "dead_turn f tn" and ready: "turn_ready m"
  shows "\<exists>r m' n' s'. run_turn R L X src g f w ch tn m n s = Some (r, m', n', s') \<and>
           (r = Next_turn \<longrightarrow> turn_ready m' \<and>
              (n' = n + 1 \<or>
               turns_left f m' n' + 1 \<le> turns_left f m n +
                 (if asked_in_vain R L X src f ch tn m n s then 2 else 0) \<and>
               (m_needs_reconnect m \<or> m_needs_switch m \<or> (\<exists>a\<in>set (tn_attempts tn). at_switch a))))"
proof -
  obtain mine m0 where o: "ensure_owner_or_stop R g (now (tn_env tn)) w (ch_uuid ch) m s = (mine, m0)"
    by (cases "ensure_owner_or_stop R g (now (tn_env tn)) w (ch_uuid ch) m s")
  show ?thesis
  proof (cases mine)
    case False
    then show ?thesis by (simp add: run_turn_def o)
  next
    case True
    then have m0: "m0 = m" using o by (auto simp: ensure_owner_or_stop_def split: if_splits)
    obtain again m1 n1 s1 where a: "asked_recovery R L X src f ch tn m n s = (again, m1, n1, s1)"
      by (cases "asked_recovery R L X src f ch tn m n s")
    note ar = asked_recovery_cases [OF a ready]
    show ?thesis
    proof (cases again)
      case True
      then have "m_needs_reconnect m \<or> m_needs_switch m"
        using a by (auto simp: asked_recovery_def split: if_splits)
      then show ?thesis
        using ar True \<open>mine\<close> by (auto simp: run_turn_def o m0 a turns_left_def turn_ready_def)
    next
      case no_stream: False
      let ?m1 = "m1\<lparr>m_transcode := m_transcode m1 \<or> tn_needs_ffmpeg tn\<rparr>"
      have fresh: "m_retries m1 = 0" "m_last_failure m1 = None"
        using ar by (simp_all add: fresh_count_def)
      have "\<exists>x m' s'. connect_to_url R (tn_env tn) X g f w (ch_uuid ch) (tn_attempts tn) ?m1 n1 s1 =
                Some (x, m', n1, s') \<and>
              (x = Left \<longrightarrow> \<not> m_running m' \<or> m_needs_switch m' \<or> max_retries f \<le> m_retries ?m1) \<and>
              (m_needs_switch m' \<longrightarrow> m_needs_switch ?m1 \<or> (\<exists>a\<in>set (tn_attempts tn). at_switch a))"
        using dead fresh by (intro dead_url_left) (auto simp: dead_turn_def)
      then obtain x m2 s2
        where c: "connect_to_url R (tn_env tn) X g f w (ch_uuid ch) (tn_attempts tn) ?m1 n1 s1 =
                Some (x, m2, n1, s2)"
          and l: "x = Left \<longrightarrow> \<not> m_running m2 \<or> m_needs_switch m2"
          and sw: "m_needs_switch m2 \<longrightarrow> m_needs_switch m1 \<or> (\<exists>a\<in>set (tn_attempts tn). at_switch a)"
        using retries fresh by auto
      obtain ok m3 s3 where t: "try_next_stream_with_cooldown R L (tn_env_after tn) X src f ch (tn_failed tn) m2 s2 = (ok, m3, s3)"
        by (cases "try_next_stream_with_cooldown R L (tn_env_after tn) X src f ch (tn_failed tn) m2 s2")
      have n1: "n1 = n" using ar no_stream by simp
      show ?thesis
      proof (cases x)
        case Left
        show ?thesis
        proof (cases "m_running m2")
          case True
          then have "m_needs_switch m2" using l Left by simp
          then have "asked_turns m2 \<le> 1" "turn_ready m2" by (simp_all add: asked_turns_def turn_ready_def)
          moreover have "asked_in_vain R L X src f ch tn m n s \<or> asked_turns m = 2 \<and> m1 = m \<and>
              \<not> m_needs_switch m"
            using ar no_stream by (auto simp: asked_turns_def)
          ultimately have "turns_left f m2 n + 1 \<le> turns_left f m n +
              (if asked_in_vain R L X src f ch tn m n s then 2 else 0)"
            using asked_turns_bounds(1) [of m] by (auto simp: turns_left_def)
          moreover have "m_needs_reconnect m \<or> m_needs_switch m \<or> (\<exists>a\<in>set (tn_attempts tn). at_switch a)"
            using ar no_stream sw \<open>m_needs_switch m2\<close> by (auto simp: asked_in_vain_def)
          ultimately show ?thesis
            using \<open>turn_ready m2\<close> True Left no_stream \<open>mine\<close> n1
            by (simp add: run_turn_def o m0 a c [unfolded n1])
        next
          case False
          then show ?thesis using Left no_stream \<open>mine\<close> by (simp add: run_turn_def o m0 a c)
        qed
      next
        case Ended
        then show ?thesis using no_stream \<open>mine\<close> by (simp add: run_turn_def o m0 a c)
      next
        case Url_failed
        then show ?thesis
          using no_stream \<open>mine\<close> n1 by (simp add: run_turn_def o m0 a c [unfolded n1] t turn_ready_def)
      qed
    qed
  qed
qed

lemma dead_run_ends:
  assumes "0 < max_retries f" and "\<forall>tn\<in>set tns. dead_turn f tn" and "turn_ready m"
    and "turns_left f m n + 2 * int (vain_requests R L X src g f w ch tns m n s) \<le> int (length tns)"
  shows "\<exists>m' s'. run_turns R L X src g f w ch tns m n s = Some (m', s')"
  using assms
proof (induction tns arbitrary: m n s)
  case Nil
  then show ?case using asked_turns_bounds(1) [of m] by (auto simp: turns_left_def)
next
  case (Cons tn tns)
  show ?case
  proof (cases "\<not> m_running m \<or> max_stream_switches f < n")
    case True
    then show ?thesis by auto
  next
    case False
    obtain r m1 n1 s1 where t: "run_turn R L X src g f w ch tn m n s = Some (r, m1, n1, s1)"
      and next_turn: "r = Next_turn \<longrightarrow> turn_ready m1 \<and>
         (n1 = n + 1 \<or> turns_left f m1 n1 + 1 \<le> turns_left f m n +
            (if asked_in_vain R L X src f ch tn m n s then 2 else 0))"
      using after_dead_turn [of f tn m R L X src g w ch n s] Cons.prems(1-3) by auto
    show ?thesis
    proof (cases r)
      case Stop_run
      with False show ?thesis by (simp add: t)
    next
      case Next_turn
      with next_turn have "turns_left f m1 n1 + 1 \<le> turns_left f m n +
            (if asked_in_vain R L X src f ch tn m n s then 2 else 0)"
        using asked_turns_bounds(1) [of m] asked_turns_bounds(2) [of m1] by (auto simp: turns_left_def)
      moreover have "turn_ready m1" using next_turn Next_turn by simp
      ultimately have "\<exists>m' s'. run_turns R L X src g f w ch tns m1 n1 s1 = Some (m', s')"
        using Cons.prems False by (intro Cons.IH) (auto simp: t Next_turn split: if_splits)
      then show ?thesis using False by (auto simp: t Next_turn)
    qed
  qed
qed

declare run_turns.simps [simp del]

context redis
begin

lemma end_of_run_marked:
  assumes "end_of_run R f w c t m s = (m', w', s')"
    and "get_channel_owner R s' c = Some (worker_id w)" and "worker_id w \<noteq> []"
  shows "channel_state_of R s' c = Some (state_text Error_state) \<and> r_exists R s' (Live (Channel_stopping c))"
proof -
  let ?s1 = "hset_all R (metadata c)
       [(''state'', VStr (state_text Error_state)), (''state_changed_at'', VTime t),
        (''error_message'', VStr (error_message f m)), (''error_time'', VTime t)] s"
  have s': "s' = (if may_write_error R w c s
                  then r_setex R ?s1 (Live (Channel_stopping c)) 60 (VStr ''true'') else s)"
    using assms(1) by (auto simp: end_of_run_def)
  have "get_channel_owner R s c = Some (worker_id w)"
    using assms(2) by (auto simp: s' get_channel_owner_def split: if_splits)
  then have "may_write_error R w c s" using assms(3) by (simp add: may_write_error_def)
  then show ?thesis
    by (simp add: s' channel_state_of_def hget_hset_all r_exists_def)
qed

end

text \<open>
  C8: A channel none of whose connections plays for the stable time is given up, whatever streams
  the failover finds, whatever reconnects and switches the health monitor asks for on the way and
  whatever others do during the waits. It needs that a turn has as many connections as retries
  are allowed, that a failure follows the one before within the window they are counted in, and
  that the manager starts with no failures: then after at most four turns for each switch allowed
  and one more, three turns besides, and two more for each turn in which what was asked for found
  no stream (such a request clears the count of failures), the run has ended; and where the
  worker still owns the channel it is in error then and its viewers are told.
\<close>

lemma dead_channel_given_up:
  assumes "redis R" and "0 < max_retries f" and "\<forall>tn\<in>set tns. dead_turn f tn"
    and "fresh_count m"
    and "4 * (max_stream_switches f + 1) + 3 + 2 * int (vain_requests R L X src g f w ch tns
           (m\<lparr>m_stop_requested := False\<rparr>) 0 s) \<le> int (length tns)"
  shows "\<exists>m' w' s'. run R L X src g f w ch tns t m s = Some (m', w', s') \<and>
           \<not> m_connected m' \<and> ch_uuid ch \<notin> set (live_managers w') \<and>
           (get_channel_owner R s' (ch_uuid ch) = Some (worker_id w) \<and> worker_id w \<noteq> [] \<longrightarrow>
              channel_state_of R s' (ch_uuid ch) = Some (state_text Error_state) \<and>
              r_exists R s' (Live (Channel_stopping (ch_uuid ch))))"
proof -
  let ?m = "m\<lparr>m_stop_requested := False\<rparr>"
  have "turn_ready ?m"
    using assms(4) by (simp add: fresh_count_def turn_ready_def)
  moreover have "turns_left f ?m 0 \<le> 4 * (max_stream_switches f + 1) + 3"
    using asked_turns_bounds(2) [of ?m] by (simp add: turns_left_def)
  ultimately obtain m1 s1 where "run_turns R L X src g f w ch tns ?m 0 s = Some (m1, s1)"
    using dead_run_ends [OF assms(2,3), of ?m 0 R L X src g w ch s] assms(5) by auto
  moreover obtain m' w' s' where e: "end_of_run R f w (ch_uuid ch) t m1 s1 = (m', w', s')"
    by (cases "end_of_run R f w (ch_uuid ch) t m1 s1")
  ultimately have "run R L X src g f w ch tns t m s = Some (m', w', s')" by (simp add: run_def)
  moreover have "\<not> m_connected m' \<and> ch_uuid ch \<notin> set (live_managers w')"
    using e by (auto simp: end_of_run_def)
  ultimately show ?thesis using redis.end_of_run_marked [OF assms(1) e] by blast
qed

definition fo_attempt :: "real \<Rightarrow> mem attempt" where
  "fo_attempt t = \<lparr>at_others = id, at_began = t, at_ended = t + 1, at_made = True, at_raised = False,
                   at_data = None, at_reconnect = True, at_switch = False, at_leaving = False,
                   at_stopped = False\<rparr>"

definition fo_turn :: "mem turn" where
  "fo_turn = \<lparr>tn_env = fo_env, tn_reconnects = False, tn_asked = \<lparr>check_let_go = None, cooled_down = None\<rparr>,
              tn_needs_ffmpeg = False, tn_attempts = map fo_attempt [100, 102, 104], tn_env_after = fo_env,
              tn_failed = \<lparr>check_let_go = None, cooled_down = None\<rparr>\<rparr>"

definition fo_no_switch :: failover_config where
  "fo_no_switch = fo_config\<lparr>max_stream_switches := 0\<rparr>"

lemma fo_dead: "dead_turn fo_no_switch fo_turn"
  by (simp add: dead_turn_def fo_turn_def fo_attempt_def fo_config_def fo_no_switch_def
      played_stably_def in_window_def)

text \<open>Nothing was asked for before the first turn, and after it the one switch was made.\<close>

lemma fo_not_vain:
  "vain_requests mem_redis ex_logins fo_site fo_sources ex_config fo_no_switch (ex_idle ''w1'') fo_channel
     (replicate 7 fo_turn) (fo_manager\<lparr>m_stop_requested := False\<rparr>) 0 fo_playing = 0"
proof -
  let ?m = "fo_manager\<lparr>m_stop_requested := False\<rparr>"
  have q: "\<not> m_needs_switch ?m" "\<not> m_needs_reconnect ?m" "fresh_count ?m"
    by (simp_all add: fo_manager_def new_manager_def Let_def fresh_count_def)
  have "0 < max_retries fo_no_switch" by (simp add: fo_no_switch_def fo_config_def)
  moreover have "\<not> (\<exists>a\<in>set (tn_attempts fo_turn). at_switch a)" by (simp add: fo_turn_def fo_attempt_def)
  ultimately obtain r m' n' s'
    where "run_turn mem_redis ex_logins fo_site fo_sources ex_config fo_no_switch (ex_idle ''w1'') fo_channel
             fo_turn ?m 0 fo_playing = Some (r, m', n', s')" and "r = Next_turn \<longrightarrow> n' = 1"
    using after_dead_turn [OF _ fo_dead, of ?m mem_redis ex_logins fo_site fo_sources ex_config "ex_idle ''w1''"
        fo_channel 0 fo_playing] q by (auto simp: turn_ready_def)
  moreover have "replicate 7 fo_turn = fo_turn # fo_turn # replicate 5 fo_turn" by (simp add: numeral_eq_Suc)
  ultimately show ?thesis
    using q by (cases r) (simp_all add: asked_in_vain_def fo_no_switch_def)
qed

lemma dead_channel_given_up_witness:
  "\<exists>m' w' s'. run mem_redis ex_logins fo_site fo_sources ex_config fo_no_switch (ex_idle ''w1'') fo_channel
     (replicate 7 fo_turn) 200 fo_manager fo_playing = Some (m', w', s') \<and> \<not> m_connected m'"
proof -
  have dead: "\<forall>tn\<in>set (replicate 7 fo_turn). dead_turn fo_no_switch tn"
    using fo_dead by simp
  have "0 < max_retries fo_no_switch" by (simp add: fo_no_switch_def fo_config_def)
  moreover have "fresh_count fo_manager"
    by (simp add: fresh_count_def fo_manager_def new_manager_def Let_def)
  moreover have "max_stream_switches fo_no_switch = 0" by (simp add: fo_no_switch_def)
  ultimately show ?thesis
    using dead_channel_given_up [OF mem.redis_axioms _ dead, of fo_manager ex_logins fo_site fo_sources ex_config
        "ex_idle ''w1''" fo_channel fo_playing 200] fo_not_vain by auto
qed

section \<open>Stalls\<close>

text \<open>The stalls kept are those of the last five minutes, and three of them are too many.\<close>

lemma stalled_counts:
  assumes "sorted (stalls @ [t])"
  shows "stalled t stalls =
         (let kept = filter (\<lambda>x. t - x \<le> STALL_WINDOW_SECONDS) (stalls @ [t])
          in (3 \<le> length kept, kept))"
proof -
  have "dropWhile (\<lambda>x. w < t - x) xs = filter (\<lambda>x. t - x \<le> w) xs" if "sorted xs" for xs and w :: real
    using that
    by (induction xs) (auto simp: not_less intro!: filter_True [symmetric] elim: order_trans [rotated])
  from this [OF assms, of STALL_WINDOW_SECONDS] show ?thesis
    by (simp add: stalled_def STALL_COUNT_def Let_def)
qed

section \<open>What a failover gets wrong\<close>

text \<open>
  A channel with one stream whose connections are made and stay silent: each time the health
  monitor asks for a switch, none is found and the count of failures is cleared, so the limit of
  retries is never reached and the channel connects for ever, never in error.
\<close>

definition silent_turn :: "failover_config \<Rightarrow> 's turn \<Rightarrow> 's attempt \<Rightarrow> bool" where
  "silent_turn f tn a \<longleftrightarrow>
     tn_attempts tn = [a] \<and> at_made a \<and> \<not> at_raised a \<and> at_data a = None \<and> at_switch a \<and>
     \<not> at_reconnect a \<and> \<not> at_leaving a \<and> \<not> at_stopped a \<and> at_others a = id \<and>
     check_let_go (tn_asked tn) = None"

definition on_its_one_stream :: "channel \<Rightarrow> manager \<Rightarrow> bool" where
  "on_its_one_stream ch m \<longleftrightarrow>
     map (Some \<circ> str_id) (ch_streams ch) = [m_stream m] \<and> known_stream (m_stream m) \<and>
     m_running m \<and> \<not> m_stop_requested m \<and> \<not> m_needs_reconnect m \<and> \<not> m_leaving_stalling m \<and>
     m_cooldown m = None \<and> m_retries m = 0"

lemma no_alternate_to_one_stream:
  assumes "on_its_one_stream ch m"
  shows "get_alternate_streams R L e ch (m_stream m) None s = ([], s)"
proof -
  obtain st where "ch_streams ch = [st]" "m_stream m = Some (str_id st)"
    using assms by (auto simp: on_its_one_stream_def)
  moreover have "List.map_filter (\<lambda>sid. map_option (Pair sid) (map_of [] sid)) xs = []" for xs :: "int list"
    by (induction xs) (simp_all add: map_filter_simps)
  ultimately show ?thesis
    using assms
    by (simp add: on_its_one_stream_def get_alternate_streams_def order_alternates_from_current_def)
qed

lemma no_move_from_one_stream:
  assumes "on_its_one_stream ch m" and "check_let_go w = None"
  shows "try_next_stream_with_cooldown R L e X src f ch w m s = (False, m, s)"
proof -
  have "checked_last e ch [] = []" by (simp add: checked_last_def split: option.split)
  then have "try_next_stream R L e X src f ch False m s = (False, m, s)"
    by (simp add: try_next_stream_def no_alternate_to_one_stream [OF assms(1)] untried_def wrap_rotation_def)
  then show ?thesis
    using assms
    by (simp add: try_next_stream_with_cooldown_def after_stream_check_def rotation_cooldown_remaining_def
        on_its_one_stream_def)
qed

lemma silent_turn_goes_on:
  assumes silent: "silent_turn f tn a" and one: "on_its_one_stream ch m" and "0 < max_retries f"
    and own: "fst (still_owner R g (now (tn_env tn)) True w (ch_uuid ch) (0, False) s)"
      "fst (still_owner R g (at_began a) True w (ch_uuid ch) (0, False) s)"
  shows "\<exists>m'. run_turn R L X src g f w ch tn m n s = Some (Next_turn, m', n, s) \<and> on_its_one_stream ch m'"
proof -
  let ?q = "m\<lparr>m_needs_switch := False, m_leaving_stalling := False\<rparr>"
  have q: "on_its_one_stream ch ?q" using one by (simp add: on_its_one_stream_def)
  have "\<exists>m1. asked_recovery R L X src f ch tn m n s = (False, m1, n, s) \<and>
          on_its_one_stream ch m1 \<and> \<not> m_needs_switch m1"
  proof (cases "m_needs_switch m")
    case True
    have "asked_recovery R L X src f ch tn m n s = (False, clear_connection_failure_history ?q, n, s)"
      using True one silent no_move_from_one_stream [OF q, of "tn_asked tn" R L "tn_env tn" X src f s]
      by (simp add: asked_recovery_def silent_turn_def on_its_one_stream_def Let_def)
    with q show ?thesis by (simp add: on_its_one_stream_def clear_connection_failure_history_def)
  next
    case False
    with one show ?thesis by (simp add: asked_recovery_def on_its_one_stream_def)
  qed
  then obtain m1 where m1: "asked_recovery R L X src f ch tn m n s = (False, m1, n, s)"
    and one1: "on_its_one_stream ch m1" "\<not> m_needs_switch m1" by blast
  have "\<exists>m'. connect_to_url R (tn_env tn) X g f w (ch_uuid ch) (tn_attempts tn)
            (m1\<lparr>m_transcode := m_transcode m1 \<or> tn_needs_ffmpeg tn\<rparr>) n s = Some (Left, m', n, s) \<and>
          on_its_one_stream ch m'"
    using silent one1 assms(3) own(2)
    by (simp add: silent_turn_def connect_to_url.simps on_its_one_stream_def ensure_owner_or_stop_def
        connection_attempt_def during_attempt_def Let_def)
  then obtain m' where "connect_to_url R (tn_env tn) X g f w (ch_uuid ch) (tn_attempts tn)
            (m1\<lparr>m_transcode := m_transcode m1 \<or> tn_needs_ffmpeg tn\<rparr>) n s = Some (Left, m', n, s)"
    and "on_its_one_stream ch m'" by blast
  moreover have "m_running m'" using \<open>on_its_one_stream ch m'\<close> by (simp add: on_its_one_stream_def)
  ultimately show ?thesis
    using one own(1) by (simp add: run_turn_def ensure_owner_or_stop_def on_its_one_stream_def m1)
qed

theorem silent_stream_never_given_up:
  assumes "silent_turn f tn a" and "on_its_one_stream ch m" and "0 < max_retries f"
    and "fst (still_owner R g (now (tn_env tn)) True w (ch_uuid ch) (0, False) s)"
    and "fst (still_owner R g (at_began a) True w (ch_uuid ch) (0, False) s)"
    and "n \<le> max_stream_switches f"
  shows "run_turns R L X src g f w ch (replicate k tn) m n s = None"
  using assms(2)
proof (induction k arbitrary: m)
  case 0
  then show ?case using assms(6) by (simp add: run_turns.simps on_its_one_stream_def)
next
  case (Suc k)
  obtain m' where "run_turn R L X src g f w ch tn m n s = Some (Next_turn, m', n, s)"
    and "on_its_one_stream ch m'"
    using silent_turn_goes_on [OF assms(1) Suc.prems assms(3-5)] by blast
  then show ?case using Suc assms(6) by (simp add: run_turns.simps [of _ _ _ _ _ _ _ _ "_ # _"] on_its_one_stream_def)
qed

text \<open>
  The URL is taken for the profile that has room when it is asked for, the slot and the metadata
  for the one that had room when the streams were listed: with another channel's start in between
  the stream plays on one login and is counted, past its limit, on the other.
\<close>

lemma failover_counts_another_login:
  "fst (get_alternate_streams mem_redis ex_logins fo_env fo_channel (Some 10) None fo_playing) = [(20, 21)] \<and>
   (\<exists>m s. try_streams mem_redis ex_logins fo_env fo_site fo_sources fo_channel ''max_retries_exceeded''
            [(20, 21)] fo_manager fo_taken = (True, m, s) \<and>
      m_url m = ''login22'' \<and> pid_used mem_redis s 21 = 2 \<and> pid_used mem_redis s 22 = 0 \<and>
      r_hget mem_redis s (metadata ''c5'') ''m3u_profile'' = Some (VInt 21))"
proof -
  let ?m1 = "fo_manager\<lparr>m_tried := insert 20 (m_tried fo_manager)\<rparr>"
  let ?s2 = "snd (update_stream_profile mem_redis ex_logins fo_env fo_channel 21 fo_taken)"
  have q: "snd (get_stream_info_for_switch mem_redis ex_logins fo_env fo_site fo_sources fo_channel (Some 20) None fo_taken) = fo_taken"
    by (rule mem.switch_info_quiet) (simp_all add: fo_env_def)
  have c: "pid_used mem_redis ?s2 21 = 2" "pid_used mem_redis ?s2 22 = 0" by code_simp+
  have u: "ch_uuid fo_channel = ''c5''" by (simp add: fo_channel_def ex_channel_def)
  have mv: "move_slot mem_redis ex_logins fo_env fo_channel (Some 20) (Some 21) ?m1 fo_taken = ?s2"
    by (simp add: move_slot_def known_stream_def fo_fields)
  have p: "pid_used mem_redis (hset_all mem_redis k fs s) i = pid_used mem_redis s i" for k fs s i
    by (simp add: pid_used_def slots_def)
  show ?thesis
    by (simp add: fo_alternates case_prod_unfold Let_def fo_taken_info q update_url_def fo_fields mv c p u
        clear_connection_failure_history_def switch_fields_def mem.hget_hset_all)
qed

text \<open>
  A direct connection is made when its reader has started: one that never sent anything counts as
  played, and the channel goes round its streams again where it should give up at once.
\<close>

lemma silent_start_goes_round:
  assumes "at_made a" and "at_data a = None"
    and "connection_attempt R e X f a m n s = (r, m', n')"
    and "m_passes m' < max_stream_switches f" and "m_cooldown m' = None" and "as \<noteq> []"
  shows "m_cooldown (snd (wrap_rotation f t as m')) = Some (t + rotation_cooldown f)"
proof -
  have "m_had_success m'"
    using assms(1,3)
    by (auto simp: connection_attempt_def during_attempt_def after_failure_def Let_def
        record_connection_failure_def note_stable_connection_def split: if_splits)
  then show ?thesis using assms(4-6) by (simp add: wrap_rotation_def)
qed

end
