(* ===== verification/Vod_Sessions.thy ===== *)
theory Vod_Sessions
  imports Channel_Facts Catchup_Ranges
begin

text \<open>
  The sessions of movies and episodes (\<^verbatim>\<open>vod_proxy/multi_worker_connection_manager.py\<close>): what is kept
  of a session in Redis, the atomic scripts that count its streams, its lock, the request to the
  provider, and how a request finds a session that is idle. The provider is a parameter: its answer
  to a URL and a range, or none where the request raises.
\<close>

section \<open>The state of a session\<close>

text \<open>The headers are kept as the text of their JSON.\<close>

record vod_state =
  vs_session :: string
  vs_url :: string
  vs_headers :: string
  vs_length :: "string option"
  vs_type :: "string option"
  vs_final :: "string option"
  vs_profile :: "int option"
  vs_activity :: real
  vs_requests :: int
  vs_active :: int
  vs_content_type :: "string option"
  vs_content_uuid :: "string option"
  vs_content_name :: "string option"
  vs_ip :: "string option"
  vs_agent :: "string option"
  vs_utc_start :: string
  vs_utc_end :: string
  vs_offset :: string
  vs_worker :: "string option"
  vs_kind :: string
  vs_created :: real
  vs_sent :: int
  vs_position :: int
  vs_seek_byte :: int
  vs_seek_percent :: real
  vs_total :: int
  vs_seek_time :: real
  vs_user :: string

text \<open>\<open>x or None\<close> of a text.\<close>

definition text_or_none :: "string option \<Rightarrow> string option" where
  "text_or_none x = (case x of None \<Rightarrow> None | Some t \<Rightarrow> if t = [] then None else Some t)"

definition to_dict :: "vod_state \<Rightarrow> (string \<times> rval) list" where
  "to_dict st =
     [(''session_id'', VStr (vs_session st)), (''stream_url'', VStr (vs_url st)), (''headers'', VStr (vs_headers st)),
      (''content_length'', VStr (text_or [] (vs_length st))), (''content_type'', VStr (text_or [] (vs_type st))),
      (''final_url'', VStr (text_or [] (vs_final st))),
      (''m3u_profile_id'', case vs_profile st of None \<Rightarrow> VStr [] | Some p \<Rightarrow> VInt p),
      (''last_activity'', VTime (vs_activity st)), (''request_count'', VInt (vs_requests st)),
      (''active_streams'', VInt (vs_active st)),
      (''content_obj_type'', VStr (text_or [] (vs_content_type st))),
      (''content_uuid'', VStr (text_or [] (vs_content_uuid st))),
      (''content_name'', VStr (text_or [] (vs_content_name st))),
      (''client_ip'', VStr (text_or [] (vs_ip st))), (''client_user_agent'', VStr (text_or [] (vs_agent st))),
      (''utc_start'', VStr (vs_utc_start st)), (''utc_end'', VStr (vs_utc_end st)), (''offset'', VStr (vs_offset st)),
      (''worker_id'', VStr (text_or [] (vs_worker st))),
      (''connection_type'', VStr (if vs_kind st = [] then ''redis_backed'' else vs_kind st)),
      (''created_at'', VTime (vs_created st)), (''bytes_sent'', VInt (vs_sent st)),
      (''position_seconds'', VInt (vs_position st)), (''last_seek_byte'', VInt (vs_seek_byte st)),
      (''last_seek_percentage'', VTime (vs_seek_percent st)), (''total_content_size'', VInt (vs_total st)),
      (''last_seek_timestamp'', VTime (vs_seek_time st)), (''user_id'', VStr (vs_user st))]"

definition dict_text :: "(string \<times> rval) list \<Rightarrow> string \<Rightarrow> string option" where
  "dict_text d f = Option.bind (map_of d f) val_text"

text \<open>\<open>int(data.get(f, 0))\<close> and \<open>float(data.get(f, t))\<close>; \<open>None\<close> is the \<open>ValueError\<close>.\<close>

definition dict_int :: "(string \<times> rval) list \<Rightarrow> string \<Rightarrow> int option" where
  "dict_int d f = (case map_of d f of None \<Rightarrow> Some 0 | Some v \<Rightarrow> val_int v)"

definition dict_real :: "(string \<times> rval) list \<Rightarrow> real \<Rightarrow> string \<Rightarrow> real option" where
  "dict_real d t f = (case map_of d f of None \<Rightarrow> Some t | Some v \<Rightarrow> val_real v)"

definition dict_profile :: "(string \<times> rval) list \<Rightarrow> int option option" where
  "dict_profile d =
     (case map_of d ''m3u_profile_id'' of
        None \<Rightarrow> Some None
      | Some v \<Rightarrow> if v = VStr [] then Some None else map_option Some (val_int v))"

text \<open>\<open>from_dict\<close>: \<open>None\<close> where a field is missing that has to be there or a number cannot be read.\<close>

definition from_dict :: "real \<Rightarrow> (string \<times> rval) list \<Rightarrow> vod_state option" where
  "from_dict t d =
     (case (dict_text d ''session_id'', dict_text d ''stream_url'', dict_text d ''headers'', dict_profile d,
            dict_real d t ''last_activity'', dict_int d ''request_count'', dict_int d ''active_streams'') of
        (Some sess, Some url, Some head, Some pid, Some activity, Some requests, Some active) \<Rightarrow>
          (case (dict_real d t ''created_at'', dict_int d ''bytes_sent'', dict_int d ''position_seconds'',
                 dict_int d ''last_seek_byte'', dict_real d 0 ''last_seek_percentage'',
                 dict_int d ''total_content_size'', dict_real d 0 ''last_seek_timestamp'') of
             (Some created, Some sent, Some position, Some seek, Some percent, Some size_of, Some seek_t) \<Rightarrow>
               Some \<lparr>vs_session = sess, vs_url = url, vs_headers = (if head = [] then ''{}'' else head),
                 vs_length = text_or_none (dict_text d ''content_length''), vs_type = text_or_none (dict_text d ''content_type''),
                 vs_final = text_or_none (dict_text d ''final_url''), vs_profile = pid, vs_activity = activity,
                 vs_requests = requests, vs_active = active,
                 vs_content_type = text_or_none (dict_text d ''content_obj_type''),
                 vs_content_uuid = text_or_none (dict_text d ''content_uuid''),
                 vs_content_name = text_or_none (dict_text d ''content_name''),
                 vs_ip = text_or_none (dict_text d ''client_ip''),
                 vs_agent = (case text_or_none (dict_text d ''client_user_agent'') of
                               Some a \<Rightarrow> Some a | None \<Rightarrow> text_or_none (dict_text d ''user_agent'')),
                 vs_utc_start = text_or [] (dict_text d ''utc_start''), vs_utc_end = text_or [] (dict_text d ''utc_end''),
                 vs_offset = text_or [] (dict_text d ''offset''), vs_worker = text_or_none (dict_text d ''worker_id''),
                 vs_kind = text_or ''redis_backed'' (dict_text d ''connection_type''), vs_created = created,
                 vs_sent = sent, vs_position = position, vs_seek_byte = seek, vs_seek_percent = percent,
                 vs_total = size_of, vs_seek_time = seek_t, vs_user = text_or ''unknown'' (dict_text d ''user_id'')\<rparr>
           | _ \<Rightarrow> None)
      | _ \<Rightarrow> None)"

section \<open>The session in Redis\<close>

definition vod_lock_key :: "string \<Rightarrow> rkey" where
  "vod_lock_key sess = Named_key (''vod_connection_lock:'' @ sess)"

definition get_connection_state :: "'s redis_api \<Rightarrow> real \<Rightarrow> string \<Rightarrow> 's \<Rightarrow> vod_state option" where
  "get_connection_state R t sess s =
     (let d = r_hash R s (Vod_connection sess) in if d = [] then None else from_dict t d)"

text \<open>
  A new session is written whole; later saves leave out the number of its streams, which the
  scripts keep, and write nothing where the session is gone.
\<close>

definition save_connection_state :: "'s redis_api \<Rightarrow> string \<Rightarrow> vod_state \<Rightarrow> bool \<Rightarrow> 's \<Rightarrow> bool \<times> 's" where
  "save_connection_state R sess st whole s =
     (let k = Vod_connection sess in
      if whole then (True, r_expire R (hset_all R k (to_dict st) s) k 3600)
      else if \<not> r_exists R s k then (False, s)
      else (True, r_expire R (hset_all R k (filter (\<lambda>(f, v). f \<noteq> ''active_streams'') (to_dict st)) s) k 3600))"

definition acquire_vod_lock :: "'s redis_api \<Rightarrow> string \<Rightarrow> 's \<Rightarrow> bool \<times> 's" where
  "acquire_vod_lock R sess s = r_setnx R s (vod_lock_key sess) 10 (VStr ''locked'')"

definition release_vod_lock :: "'s redis_api \<Rightarrow> string \<Rightarrow> 's \<Rightarrow> 's" where
  "release_vod_lock R sess s = r_del R s (vod_lock_key sess)"

text \<open>Saving under the lock what is in Redis, changed; \<open>f\<close> is the change.\<close>

definition update_under_lock ::
  "'s redis_api \<Rightarrow> real \<Rightarrow> string \<Rightarrow> (vod_state \<Rightarrow> vod_state) \<Rightarrow> 's \<Rightarrow> 's" where
  "update_under_lock R t sess f s =
     (let (got, s1) = acquire_vod_lock R sess s in
      if \<not> got then s1
      else release_vod_lock R sess
             (case get_connection_state R t sess s1 of
                None \<Rightarrow> s1
              | Some st \<Rightarrow> snd (save_connection_state R sess (f st) False s1)))"

section \<open>The number of streams\<close>

definition active_field :: "'s redis_api \<Rightarrow> string \<Rightarrow> 's \<Rightarrow> int option" where
  "active_field R sess s =
     (case r_hget R s (Vod_connection sess) ''active_streams'' of None \<Rightarrow> Some 0 | Some v \<Rightarrow> val_int v)"

definition set_active :: "'s redis_api \<Rightarrow> real \<Rightarrow> string \<Rightarrow> int \<Rightarrow> 's \<Rightarrow> 's" where
  "set_active R t sess n s =
     hset_all R (Vod_connection sess) [(''active_streams'', VInt n), (''last_activity'', VTime t)] s"

text \<open>The new number, or 0 where the session is gone.\<close>

definition increment_active_streams :: "'s redis_api \<Rightarrow> real \<Rightarrow> string \<Rightarrow> 's \<Rightarrow> int \<times> 's" where
  "increment_active_streams R t sess s =
     (if \<not> r_exists R s (Vod_connection sess) then (0, s)
      else case active_field R sess s of
             None \<Rightarrow> (0, s)
           | Some n \<Rightarrow> (if n + 1 \<le> 0 then 0 else n + 1, set_active R t sess (n + 1) s))"

text \<open>Whether it was counted down, and whether streams remain (or it failed).\<close>

definition decrement_active_streams_and_check ::
  "'s redis_api \<Rightarrow> real \<Rightarrow> string \<Rightarrow> 's \<Rightarrow> (bool \<times> bool) \<times> 's" where
  "decrement_active_streams_and_check R t sess s =
     (if \<not> r_exists R s (Vod_connection sess) then ((False, False), s)
      else case active_field R sess s of
             None \<Rightarrow> ((False, True), s)
           | Some n \<Rightarrow>
               (if n \<le> 0 then ((False, False), s) else ((True, 0 < n - 1), set_active R t sess (n - 1) s)))"

definition has_active_streams :: "'s redis_api \<Rightarrow> string \<Rightarrow> 's \<Rightarrow> bool" where
  "has_active_streams R sess s \<longleftrightarrow> (case active_field R sess s of None \<Rightarrow> False | Some n \<Rightarrow> 0 < n)"

text \<open>
  An idle session is deleted; with a manager given its slot is released, as if it still had one.
\<close>

definition vod_cleanup :: "'s redis_api \<Rightarrow> real \<Rightarrow> bool \<Rightarrow> string \<Rightarrow> 's \<Rightarrow> 's" where
  "vod_cleanup R t with_manager sess s =
     (case get_connection_state R t sess s of
        None \<Rightarrow> s
      | Some st \<Rightarrow>
          (if 0 < vs_active st then s
           else
             (let s1 = r_del R s (Vod_connection sess)
              in case vs_profile st of
                   Some p \<Rightarrow> if with_manager \<and> p \<noteq> 0 then release_profile_slot R p s1 else s1
                 | None \<Rightarrow> s1)))"

definition cleanup_persistent_connection :: "'s redis_api \<Rightarrow> real \<Rightarrow> string \<Rightarrow> 's \<Rightarrow> 's" where
  "cleanup_persistent_connection R t = vod_cleanup R t True"

definition is_stale_session :: "'s redis_api \<Rightarrow> real \<Rightarrow> real \<Rightarrow> 's \<Rightarrow> string \<Rightarrow> bool" where
  "is_stale_session R t max_age s sess \<longleftrightarrow>
     (let d = r_hash R s (Vod_connection sess) in
      d \<noteq> [] \<and>
      (case (dict_real d 0 ''last_activity'', dict_int d ''active_streams'') of
         (Some activity, Some n) \<Rightarrow> max_age < t - activity \<and> n = 0
       | _ \<Rightarrow> False))"

definition cleanup_stale_persistent_connections ::
  "'s redis_api \<Rightarrow> real \<Rightarrow> real \<Rightarrow> string list \<Rightarrow> 's \<Rightarrow> 's" where
  "cleanup_stale_persistent_connections R t max_age found s =
     foldl (\<lambda>s1 sess. if is_stale_session R t max_age s1 sess then vod_cleanup R t True sess s1 else s1) s found"

section \<open>Creating a session\<close>

record movie_request =
  mr_session :: string
  mr_content_type :: string
  mr_uuid :: string
  mr_name :: string
  mr_url :: string
  mr_headers :: string
  mr_ip :: string
  mr_agent :: string
  mr_utc_start :: "string option"
  mr_utc_end :: "string option"
  mr_offset :: "string option"
  mr_range :: "string option"
  mr_user :: "int option"

definition new_vod_state :: "real \<Rightarrow> string \<Rightarrow> string \<Rightarrow> int \<Rightarrow> movie_request \<Rightarrow> vod_state" where
  "new_vod_state t w sess pid rq =
     \<lparr>vs_session = sess, vs_url = mr_url rq, vs_headers = mr_headers rq, vs_length = None, vs_type = None,
      vs_final = None, vs_profile = Some pid, vs_activity = t, vs_requests = 0, vs_active = 1,
      vs_content_type = Some (mr_content_type rq), vs_content_uuid = Some (mr_uuid rq),
      vs_content_name = Some (mr_name rq), vs_ip = Some (mr_ip rq), vs_agent = Some (mr_agent rq),
      vs_utc_start = text_or [] (mr_utc_start rq), vs_utc_end = text_or [] (mr_utc_end rq),
      vs_offset = text_or [] (mr_offset rq), vs_worker = Some w, vs_kind = ''redis_backed'', vs_created = t,
      vs_sent = 0, vs_position = 0, vs_seek_byte = 0, vs_seek_percent = 0, vs_total = 0, vs_seek_time = 0,
      vs_user = (case mr_user rq of None \<Rightarrow> ''unknown'' | Some u \<Rightarrow> dec u)\<rparr>"

datatype create_result = Created | Exists_already | Not_created

definition create_vod_connection ::
  "'s redis_api \<Rightarrow> real \<Rightarrow> string \<Rightarrow> string \<Rightarrow> int \<Rightarrow> movie_request \<Rightarrow> 's \<Rightarrow> create_result \<times> 's" where
  "create_vod_connection R t w sess pid rq s =
     (let (got, s1) = acquire_vod_lock R sess s in
      if \<not> got then (if get_connection_state R t sess s1 \<noteq> None then Exists_already else Not_created, s1)
      else
        (let (r, s2) =
               (if get_connection_state R t sess s1 \<noteq> None then (Exists_already, s1)
                else (Created, snd (save_connection_state R sess (new_vod_state t w sess pid rq) True s1)))
         in (r, release_vod_lock R sess s2)))"

section \<open>The request to the provider\<close>

text \<open>Every occurrence of a part taken out (\<open>s.replace(n, "")\<close>).\<close>

function remove_text :: "string \<Rightarrow> string \<Rightarrow> string" where
  "remove_text n s =
     (case cut n s of
        None \<Rightarrow> s
      | Some (b, a) \<Rightarrow> if length a < length s then b @ remove_text n a else s)"
  by pat_completeness auto
termination by (relation "measure (\<lambda>(n, s). length s)") auto

text \<open>\<open>None\<close> is a range that cannot be satisfied; a header that cannot be read is left as it is.\<close>

definition validate_range_header :: "string \<Rightarrow> int \<Rightarrow> string option" where
  "validate_range_header header size_of =
     (if \<not> starts_with header ''bytes='' then Some header
      else case split_first (CHR ''-'') (remove_text ''bytes='' header) of
             None \<Rightarrow> Some header
           | Some (start_str, end_str) \<Rightarrow>
               (case int_or 0 id start_str of
                  None \<Rightarrow> Some header
                | Some start \<Rightarrow>
                    (if start_str \<noteq> [] \<and> size_of \<le> start then None
                     else case int_or (size_of - 1) (\<lambda>e. if size_of \<le> e then size_of - 1 else e) end_str of
                            None \<Rightarrow> Some header
                          | Some end_at \<Rightarrow>
                              (if end_at < start then None
                               else Some (''bytes='' @ dec start @ ''-'' @ dec end_at)))))"

record vod_reply =
  rp_status :: int
  rp_range :: "string option"
  rp_length :: "string option"
  rp_type :: "string option"
  rp_url :: string

text \<open>A provider: the answer to a URL, a range and whether redirects are followed.\<close>

type_synonym provider = "string \<Rightarrow> string option \<Rightarrow> bool \<Rightarrow> vod_reply option"

datatype upstream = Not_satisfiable | No_session | Connection_failed | Upstream "string option" vod_reply

text \<open>The range asked of the provider: the client's, checked once the size is known.\<close>

definition provider_range :: "vod_state \<Rightarrow> string option \<Rightarrow> upstream + string option" where
  "provider_range st wanted =
     (case text_or_none wanted of
        None \<Rightarrow> Inr None
      | Some h \<Rightarrow>
          (case text_or_none (vs_length st) of
             None \<Rightarrow> Inr (Some h)
           | Some l \<Rightarrow>
               (case parse_int l of
                  None \<Rightarrow> Inl Connection_failed
                | Some size_of \<Rightarrow>
                    (case validate_range_header h size_of of
                       None \<Rightarrow> Inl Not_satisfiable | Some rg \<Rightarrow> Inr (Some rg)))))"

definition ask_provider :: "provider \<Rightarrow> vod_state \<Rightarrow> string option \<Rightarrow> (vod_reply \<times> vod_state) option" where
  "ask_provider prov st rg =
     (let first = (case vs_final st of
                     Some u \<Rightarrow> prov u rg False | None \<Rightarrow> prov (vs_url st) rg True)
      in case first of
           None \<Rightarrow> None
         | Some rp \<Rightarrow>
             (if 400 \<le> rp_status rp \<and> vs_final st \<noteq> None
              then map_option (\<lambda>rp2. (rp2, st\<lparr>vs_final := None\<rparr>)) (prov (vs_url st) rg True)
              else Some (rp, st)))"

definition size_from_reply :: "vod_reply \<Rightarrow> string option" where
  "size_from_reply rp =
     (case rp_range rp of
        None \<Rightarrow> rp_length rp
      | Some h \<Rightarrow>
          (case split_last (CHR ''/'') h of
             None \<Rightarrow> rp_length rp
           | Some (_, size_of) \<Rightarrow> if size_of \<noteq> [] \<and> list_all is_digit size_of then Some size_of else rp_length rp))"

text \<open>\<open>guess\<close> is the type by the URL's extension.\<close>

definition with_reply :: "(string \<Rightarrow> string option) \<Rightarrow> vod_reply \<Rightarrow> vod_state \<Rightarrow> vod_state" where
  "with_reply guess rp st =
     (if vs_requests st \<noteq> 1 then st
      else st\<lparr>vs_length := (case text_or_none (vs_length st) of None \<Rightarrow> size_from_reply rp | Some n \<Rightarrow> Some n),
              vs_type := (case text_or_none (vs_type st) of
                            Some c \<Rightarrow> Some c
                          | None \<Rightarrow> (case text_or_none (rp_type rp) of
                                       Some c \<Rightarrow> Some c
                                     | None \<Rightarrow> Some (text_or ''video/mp4'' (text_or_none (guess (vs_url st)))))),
              vs_final := (case text_or_none (vs_final st) of None \<Rightarrow> Some (rp_url rp) | Some u \<Rightarrow> Some u)\<rparr>)"

text \<open>The state is saved under the lock, and without it where another has it.\<close>

definition get_vod_stream ::
  "'s redis_api \<Rightarrow> provider \<Rightarrow> (string \<Rightarrow> string option) \<Rightarrow> real \<Rightarrow> string \<Rightarrow> string option \<Rightarrow> 's \<Rightarrow>
   upstream \<times> 's" where
  "get_vod_stream R prov guess t sess wanted s =
     (case get_connection_state R t sess s of
        None \<Rightarrow> (No_session, s)
      | Some st0 \<Rightarrow>
          (let st = st0\<lparr>vs_activity := t, vs_requests := vs_requests st0 + 1\<rparr> in
           case provider_range st wanted of
             Inl failure \<Rightarrow> (failure, s)
           | Inr rg \<Rightarrow>
               (case ask_provider prov st rg of
                  None \<Rightarrow> (Connection_failed, s)
                | Some (rp, st1) \<Rightarrow>
                    (if 400 \<le> rp_status rp then (Connection_failed, s)
                     else
                       (let st2 = with_reply guess rp st1; (got, s1) = acquire_vod_lock R sess s;
                            s2 = snd (save_connection_state R sess st2 False s1)
                        in (Upstream rg rp, if got then release_vod_lock R sess s2 else s2))))))"

section \<open>An idle session of the same viewer\<close>

text \<open>What speaks for a session: 10 for the content, 5 the address, 3 the agent, 7 the times.\<close>

definition session_score :: "(string \<times> rval) list \<Rightarrow> movie_request \<Rightarrow> int" where
  "session_score d rq =
     (let field = (\<lambda>f. text_or [] (dict_text d f));
          agent = (if field ''client_user_agent'' = [] then field ''user_agent'' else field ''client_user_agent'')
      in 10 + (if field ''client_ip'' \<noteq> [] \<and> field ''client_ip'' = mr_ip rq then 5 else 0)
            + (if agent \<noteq> [] \<and> agent = mr_agent rq then 3 else 0)
            + (if field ''utc_start'' = text_or [] (mr_utc_start rq) \<and> field ''utc_end'' = text_or [] (mr_utc_end rq) \<and>
                  field ''offset'' = text_or [] (mr_offset rq) then 7 else 0))"

definition session_matches :: "'s redis_api \<Rightarrow> movie_request \<Rightarrow> 's \<Rightarrow> string \<Rightarrow> (int \<times> real) option" where
  "session_matches R rq s sess =
     (let d = r_hash R s (Vod_connection sess) in
      if d = [] \<or> text_or [] (dict_text d ''content_obj_type'') \<noteq> mr_content_type rq \<or>
         text_or [] (dict_text d ''content_uuid'') \<noteq> mr_uuid rq \<or> has_active_streams R sess s \<or>
         session_score d rq < 13
      then None
      else map_option (Pair (session_score d rq)) (dict_real d 0 ''last_activity''))"

definition better_match :: "int \<times> real \<Rightarrow> int \<times> real \<Rightarrow> bool" where
  "better_match a b \<longleftrightarrow> fst b < fst a \<or> fst a = fst b \<and> snd b < snd a"

text \<open>The first of the best, by score and then by the last activity.\<close>

fun best_match :: "(string \<times> int \<times> real) list \<Rightarrow> string option" where
  "best_match [] = None"
| "best_match [(sess, _)] = Some sess"
| "best_match ((sess, a) # (sess', b) # ms) =
     (if better_match b a then best_match ((sess', b) # ms) else best_match ((sess, a) # ms))"

definition find_matching_idle_session :: "'s redis_api \<Rightarrow> movie_request \<Rightarrow> string list \<Rightarrow> 's \<Rightarrow> string option" where
  "find_matching_idle_session R rq found s =
     best_match (List.map_filter (\<lambda>sess. map_option (Pair sess) (session_matches R rq s sess)) found)"

end
