(* ===== verification/Vod_Streams.thy ===== *)
theory Vod_Streams
  imports Vod_Sessions
begin

text \<open>
  A request for a movie (\<open>stream_content_with_session\<close>, \<^verbatim>\<open>vod_proxy/multi_worker_connection_manager.py\<close>):
  the session it joins or creates, the slot it takes, the bytes it sends and the end of its stream;
  and the choice of the provider (\<^verbatim>\<open>vod_proxy/views.py\<close>).
\<close>

section \<open>The slot of a session\<close>

definition check_and_reserve_profile_slot ::
  "'s redis_api \<Rightarrow> logins \<Rightarrow> env \<Rightarrow> profile \<Rightarrow> 's \<Rightarrow> bool \<times> 's" where
  "check_and_reserve_profile_slot R L e p s =
     (let (r, s1) = reserve_profile_slot R L e p 0 None s in (fst r, s1))"

text \<open>The profile a session's slot is taken on: a row, or the id of one that is gone.\<close>

datatype effective = Row profile | Gone int

fun effective_id :: "effective \<Rightarrow> int" where
  "effective_id (Row p) = prof_id p"
| "effective_id (Gone i) = i"

fun reserve_effective :: "'s redis_api \<Rightarrow> logins \<Rightarrow> env \<Rightarrow> effective \<Rightarrow> 's \<Rightarrow> bool \<times> 's" where
  "reserve_effective R L e (Row p) s = check_and_reserve_profile_slot R L e p s"
| "reserve_effective R L e (Gone i) s = (False, s)"

definition stored_profile :: "vod_state option \<Rightarrow> int option" where
  "stored_profile st =
     (case st of None \<Rightarrow> None
      | Some x \<Rightarrow> (case vs_profile x of None \<Rightarrow> None | Some i \<Rightarrow> if i = 0 then None else Some i))"

definition rewrite_session_profile_id ::
  "'s redis_api \<Rightarrow> real \<Rightarrow> string \<Rightarrow> int \<Rightarrow> int \<Rightarrow> 's \<Rightarrow> 's" where
  "rewrite_session_profile_id R t sess old new s =
     update_under_lock R t sess
       (\<lambda>st. if stored_profile (Some st) = None \<or> vs_profile st = Some old then st\<lparr>vs_profile := Some new\<rparr> else st) s"

definition resolve_effective_profile ::
  "'s redis_api \<Rightarrow> env \<Rightarrow> string \<Rightarrow> vod_state option \<Rightarrow> profile \<Rightarrow> bool \<Rightarrow> 's \<Rightarrow> effective \<times> 's" where
  "resolve_effective_profile R e sess st fallback rewrite_dead s =
     (case stored_profile st of
        None \<Rightarrow> (Row fallback, s)
      | Some i \<Rightarrow>
          (if i = prof_id fallback then (Row fallback, s)
           else case List.find (\<lambda>p. prof_id p = i \<and> prof_active p) (profiles e) of
                  Some p \<Rightarrow> (Row p, s)
                | None \<Rightarrow>
                    (if rewrite_dead
                     then (Row fallback, rewrite_session_profile_id R (now e) sess i (prof_id fallback) s)
                     else (Gone i, s))))"

section \<open>Undoing a request\<close>

text \<open>Whether the slot was released (then the session is cleaned up a second later), and the store.\<close>

definition rollback_setup_reservations ::
  "'s redis_api \<Rightarrow> real \<Rightarrow> string \<Rightarrow> int \<Rightarrow> bool \<Rightarrow> bool \<Rightarrow> 's \<Rightarrow> bool \<times> 's" where
  "rollback_setup_reservations R t sess pid slot_reserved stream_reserved s =
     (let ((counted, remain), s1) =
            (if stream_reserved then decrement_active_streams_and_check R t sess s else ((False, False), s));
          give_back = (if stream_reserved then (if counted then \<not> remain else slot_reserved \<and> \<not> remain)
                       else slot_reserved)
      in (give_back, if give_back then release_profile_slot R pid s1 else s1))"

section \<open>A request\<close>

datatype movie_answer =
    Too_many
  | Not_started
  | Range_refused
  | Playing string int "string option" vod_reply

text \<open>What a request has reserved: its session and the number of streams it made it, and its slot.\<close>

record reserved =
  rs_session :: string
  rs_profile :: effective
  rs_slot :: bool

text \<open>A new session: the slot first, then the session; where another made it first, its streams are
  counted, and the slot is kept by the first of them on the session's own profile.\<close>

definition join_created ::
  "'s redis_api \<Rightarrow> logins \<Rightarrow> env \<Rightarrow> profile \<Rightarrow> string \<Rightarrow> 's \<Rightarrow> (movie_answer + reserved) \<times> 's" where
  "join_created R L e p sess s =
     (let (n, s1) = increment_active_streams R (now e) sess s in
      if n = 0 then (Inl Not_started, release_profile_slot R (prof_id p) s1)
      else
        (let (eff, s2) = resolve_effective_profile R e sess (get_connection_state R (now e) sess s1) p (n = 1) s1 in
         if 1 < n then (Inr \<lparr>rs_session = sess, rs_profile = eff, rs_slot = False\<rparr>, release_profile_slot R (prof_id p) s2)
         else if effective_id eff = prof_id p
         then (Inr \<lparr>rs_session = sess, rs_profile = eff, rs_slot = True\<rparr>, s2)
         else
           (let (ok, s3) = reserve_effective R L e eff (release_profile_slot R (prof_id p) s2) in
            if ok then (Inr \<lparr>rs_session = sess, rs_profile = eff, rs_slot = True\<rparr>, s3)
            else (Inl Too_many, snd (decrement_active_streams_and_check R (now e) sess s3)))))"

definition open_new_session ::
  "'s redis_api \<Rightarrow> logins \<Rightarrow> env \<Rightarrow> string \<Rightarrow> profile \<Rightarrow> string \<Rightarrow> movie_request \<Rightarrow> 's \<Rightarrow>
   (movie_answer + reserved) \<times> 's" where
  "open_new_session R L e w p sess rq s =
     (let (ok, s1) = check_and_reserve_profile_slot R L e p s in
      if \<not> ok then (Inl Too_many, s1)
      else case create_vod_connection R (now e) w sess (prof_id p) rq s1 of
             (Not_created, s2) \<Rightarrow> (Inl Not_started, release_profile_slot R (prof_id p) s2)
           | (Created, s2) \<Rightarrow> (Inr \<lparr>rs_session = sess, rs_profile = Row p, rs_slot = True\<rparr>, s2)
           | (Exists_already, s2) \<Rightarrow> join_created R L e p sess s2)"

text \<open>
  A session that is there: the first stream takes the slot again, the others find it taken.
  \<open>counted\<close>: an idle session that was found, with its streams counted already.
\<close>

definition claim_existing ::
  "'s redis_api \<Rightarrow> logins \<Rightarrow> env \<Rightarrow> profile \<Rightarrow> string \<Rightarrow> vod_state \<Rightarrow> int \<Rightarrow> 's \<Rightarrow>
   (movie_answer + reserved) \<times> 's" where
  "claim_existing R L e p sess st n s =
     (let (eff, s1) = resolve_effective_profile R e sess (Some st) p (n = 1) s in
      if n = 1 then
        (let (ok, s2) = reserve_effective R L e eff s1 in
         if ok then (Inr \<lparr>rs_session = sess, rs_profile = eff, rs_slot = True\<rparr>, s2)
         else (Inl Too_many, snd (decrement_active_streams_and_check R (now e) sess s2)))
      else (Inr \<lparr>rs_session = sess, rs_profile = eff, rs_slot = False\<rparr>, s1))"

definition join_existing ::
  "'s redis_api \<Rightarrow> logins \<Rightarrow> env \<Rightarrow> string \<Rightarrow> profile \<Rightarrow> string \<Rightarrow> vod_state \<Rightarrow> int \<Rightarrow> 's \<Rightarrow>
   (movie_answer + reserved) \<times> 's" where
  "join_existing R L e w p sess st counted s =
     (let (n, s1) = (if counted = 0 then increment_active_streams R (now e) sess s else (counted, s)) in
      if n = 0 then (Inl Not_started, s1)
      else case claim_existing R L e p sess st n s1 of
             (Inl a, s2) \<Rightarrow> (Inl a, s2)
           | (Inr r, s2) \<Rightarrow>
               (Inr r, update_under_lock R (now e) sess (\<lambda>x. x\<lparr>vs_activity := now e, vs_worker := Some w\<rparr>) s2))"

text \<open>
  The session of a request: an idle one of the same viewer, counted at once, or its own. \<open>found\<close>
  are the sessions the scan finds.
\<close>

definition claim_session ::
  "'s redis_api \<Rightarrow> real \<Rightarrow> movie_request \<Rightarrow> string list \<Rightarrow> 's \<Rightarrow> string \<times> int \<times> 's" where
  "claim_session R t rq found s =
     (case find_matching_idle_session R rq found s of
        None \<Rightarrow> (mr_session rq, 0, s)
      | Some sess \<Rightarrow>
          (let (n, s1) = increment_active_streams R t sess s
           in if n = 0 then (mr_session rq, 0, s1) else (sess, n, s1)))"

definition reserve_movie ::
  "'s redis_api \<Rightarrow> logins \<Rightarrow> env \<Rightarrow> string \<Rightarrow> profile \<Rightarrow> movie_request \<Rightarrow> string list \<Rightarrow> 's \<Rightarrow>
   (movie_answer + reserved) \<times> 's" where
  "reserve_movie R L e w p rq found s =
     (let (sess, counted, s1) = claim_session R (now e) rq found s in
      case get_connection_state R (now e) sess s1 of
        None \<Rightarrow>
          (if counted \<noteq> 0 then (Inl Not_started, snd (decrement_active_streams_and_check R (now e) sess s1))
           else open_new_session R L e w p sess rq s1)
      | Some st \<Rightarrow> join_existing R L e w p sess st counted s1)"

text \<open>The whole request; \<open>True\<close> with it where the session is to be cleaned up a second later.\<close>

definition stream_content_with_session ::
  "'s redis_api \<Rightarrow> logins \<Rightarrow> env \<Rightarrow> provider \<Rightarrow> (string \<Rightarrow> string option) \<Rightarrow> string \<Rightarrow> profile \<Rightarrow> movie_request \<Rightarrow>
   string list \<Rightarrow> 's \<Rightarrow> movie_answer \<times> bool \<times> 's" where
  "stream_content_with_session R L e prov guess w p rq found s =
     (case reserve_movie R L e w p rq found s of
        (Inl a, s1) \<Rightarrow> (a, False, s1)
      | (Inr r, s1) \<Rightarrow>
          (let undo = rollback_setup_reservations R (now e) (rs_session r) (effective_id (rs_profile r)) (rs_slot r) True
           in case get_vod_stream R prov guess (now e) (rs_session r) (mr_range rq) s1 of
                (Upstream rg rp, s2) \<Rightarrow> (Playing (rs_session r) (effective_id (rs_profile r)) rg rp, False, s2)
              | (Connection_failed, s2) \<Rightarrow> (let (gone, s3) = undo s2 in (Not_started, gone, s3))
              | (_, s2) \<Rightarrow> (Range_refused, False, snd (undo s2))))"

text \<open>
  The end of a stream, however it comes: the last one gives the slot back, and the session is to be
  cleaned up. A stop signal that was seen is taken away first.
\<close>

definition end_movie_stream :: "'s redis_api \<Rightarrow> real \<Rightarrow> string \<Rightarrow> int \<Rightarrow> bool \<Rightarrow> 's \<Rightarrow> bool \<times> 's" where
  "end_movie_stream R t sess pid signalled s =
     (let s0 = (if signalled then r_del R s (Vod_stop sess) else s);
          ((counted, remain), s1) = decrement_active_streams_and_check R t sess s0 in
      if counted \<and> \<not> remain \<and> pid \<noteq> 0 then (True, release_profile_slot R pid s1) else (False, s1))"

section \<open>The bytes of a stream\<close>

definition range_start_byte :: "string option \<Rightarrow> int" where
  "range_start_byte header =
     (case text_or_none header of
        None \<Rightarrow> 0
      | Some h \<Rightarrow>
          (if \<not> contains ''bytes='' h then 0
           else
             (let t = remove_text ''bytes='' h; start_str = (case split_first (CHR ''-'') t of None \<Rightarrow> t | Some (a, _) \<Rightarrow> a)
              in if start_str = [] then 0 else case parse_int start_str of None \<Rightarrow> 0 | Some n \<Rightarrow> n)))"

definition resume_range_header :: "string option \<Rightarrow> int \<Rightarrow> string" where
  "resume_range_header header offset =
     (let end_str = (case text_or_none header of
                       None \<Rightarrow> []
                     | Some h \<Rightarrow>
                         (if \<not> starts_with h ''bytes='' then []
                          else case split_first (CHR ''-'') (remove_text ''bytes='' h) of
                                 None \<Rightarrow> [] | Some (_, b) \<Rightarrow> b))
      in ''bytes='' @ dec offset @ ''-'' @ end_str)"

definition MAX_CONSECUTIVE_UPSTREAM_RETRIES :: nat where "MAX_CONSECUTIVE_UPSTREAM_RETRIES = 3"

text \<open>
  A connection to the provider: the chunks that came, whether it was interrupted in a way that is
  retried, and whether the stop key was there at the hundredth chunk it was looked for at.
\<close>

datatype 'b connection = Connection (chunks: "'b list list") (interrupted: bool)

datatype stream_end = Finished | Stopped_by_signal | Given_up_upstream

fun send_chunks ::
  "(nat \<Rightarrow> bool) \<Rightarrow> 'b list list \<Rightarrow> nat \<Rightarrow> 'b list \<Rightarrow> nat \<Rightarrow> bool \<times> nat \<times> 'b list \<times> nat" where
  "send_chunks stop [] n sent fails = (False, n, sent, fails)"
| "send_chunks stop (c # cs) n sent fails =
     (if c = [] then send_chunks stop cs n sent fails
      else if (n + 1) mod 100 = 0 \<and> stop (n + 1) then (True, n + 1, sent @ c, 0)
      else send_chunks stop cs (n + 1) (sent @ c) 0)"

text \<open>
  The stream: what it asked of the provider after the first connection, the bytes sent and how it
  ended; \<open>None\<close> where the connections given end before it does.
\<close>

fun stream_bytes ::
  "(nat \<Rightarrow> bool) \<Rightarrow> string option \<Rightarrow> 'b connection list \<Rightarrow> nat \<Rightarrow> 'b list \<Rightarrow> nat \<Rightarrow>
   (string list \<times> 'b list \<times> stream_end) option" where
  "stream_bytes stop header [] n sent fails = None"
| "stream_bytes stop header (k # ks) n sent fails =
     (let (stopped, n1, sent1, fails1) = send_chunks stop (chunks k) n sent fails in
      if stopped then Some ([], sent1, Stopped_by_signal)
      else if \<not> interrupted k then Some ([], sent1, Finished)
      else if MAX_CONSECUTIVE_UPSTREAM_RETRIES < fails1 + 1 then Some ([], sent1, Given_up_upstream)
      else
        (let asked = resume_range_header header (range_start_byte header + int (length sent1))
         in map_option (\<lambda>(rs, r). (asked # rs, r)) (stream_bytes stop header ks n1 sent1 (fails1 + 1))))"

section \<open>The headers of the answer\<close>

record length_headers =
  lh_length :: string
  lh_range :: "string option"

text \<open>
  \<open>known\<close> is the size when the headers were made, \<open>full\<close> the one of the session; \<open>None\<close> is an answer
  without a length.
\<close>

definition movie_length_headers ::
  "string option \<Rightarrow> string option \<Rightarrow> string option \<Rightarrow> length_headers option" where
  "movie_length_headers header known full =
     (case text_or_none known of
        None \<Rightarrow> None
      | Some l \<Rightarrow>
          (case text_or_none header of
             None \<Rightarrow> Some \<lparr>lh_length = l, lh_range = None\<rparr>
           | Some h \<Rightarrow>
               (if \<not> contains ''bytes='' h then Some \<lparr>lh_length = l, lh_range = None\<rparr>
                else case split_first (CHR ''-'') (remove_text ''bytes='' h) of
                       None \<Rightarrow> None
                     | Some (start_str, end_str) \<Rightarrow>
                         (case (int_or 0 id start_str, parse_int (text_or l (text_or_none full))) of
                            (Some start, Some size_of) \<Rightarrow>
                              (case int_or (size_of - 1) id end_str of
                                 None \<Rightarrow> Some \<lparr>lh_length = l, lh_range = None\<rparr>
                               | Some end_at \<Rightarrow>
                                   Some \<lparr>lh_length = dec (end_at - start + 1),
                                         lh_range = Some (''bytes '' @ dec start @ ''-'' @ dec end_at @ ''/'' @ dec size_of)\<rparr>)
                          | _ \<Rightarrow> Some \<lparr>lh_length = l, lh_range = None\<rparr>))))"

text \<open>Where the viewer is, for the statistics, once it asks for bytes behind the start.\<close>

definition store_seek :: "'s redis_api \<Rightarrow> real \<Rightarrow> string \<Rightarrow> int \<Rightarrow> int \<Rightarrow> 's \<Rightarrow> 's" where
  "store_seek R t sess start size_of s =
     (if start \<le> 0 \<or> size_of = 0 then s
      else update_under_lock R t sess
             (\<lambda>st. st\<lparr>vs_seek_byte := start, vs_seek_percent := of_int start / of_int size_of * 100,
                      vs_total := size_of, vs_seek_time := t, vs_activity := t\<rparr>) s)"

section \<open>Which provider\<close>

record relation =
  rel_id :: int
  rel_account :: account

definition order_candidates :: "relation list \<Rightarrow> relation option \<Rightarrow> relation list" where
  "order_candidates candidates preferred =
     (case preferred of
        None \<Rightarrow> candidates
      | Some r \<Rightarrow> (if candidates = [] then [r] else r # filter (\<lambda>c. rel_id c \<noteq> rel_id r) candidates))"

text \<open>\<open>allowed\<close>: the profiles the caller may use, \<open>None\<close> for all.\<close>

definition may_use :: "int set option \<Rightarrow> int \<Rightarrow> bool" where
  "may_use allowed i \<longleftrightarrow> (case allowed of None \<Rightarrow> True | Some ids \<Rightarrow> i \<in> ids)"

definition session_profile ::
  "'s redis_api \<Rightarrow> env \<Rightarrow> account \<Rightarrow> string option \<Rightarrow> int set option \<Rightarrow> 's \<Rightarrow> profile option" where
  "session_profile R e a sess allowed s =
     (case text_or_none sess of
        None \<Rightarrow> None
      | Some x \<Rightarrow>
          (case Option.bind (map_of (r_hash R s (Vod_connection x)) ''m3u_profile_id'') val_int of
             None \<Rightarrow> None
           | Some i \<Rightarrow>
               (if \<not> may_use allowed i then None
                else List.find (\<lambda>p. prof_id p = i \<and> prof_active p) (account_profiles e a))))"

fun first_profile_with_room ::
  "'s redis_api \<Rightarrow> logins \<Rightarrow> env \<Rightarrow> profile list \<Rightarrow> 's \<Rightarrow> profile option \<times> 's" where
  "first_profile_with_room R L e [] s = (None, s)"
| "first_profile_with_room R L e (p # ps) s =
     (let (ok, s1) = pool_has_capacity_for_profile R L e p None s
      in if ok then (Some p, s1) else first_profile_with_room R L e ps s1)"

definition profiles_in_order :: "env \<Rightarrow> account \<Rightarrow> int set option \<Rightarrow> profile list" where
  "profiles_in_order e a allowed =
     (let ps = filter (\<lambda>p. prof_active p \<and> may_use allowed (prof_id p)) (account_profiles e a)
      in case default_then_rest ps of Some qs \<Rightarrow> qs | None \<Rightarrow> (if allowed = None then [] else ps))"

definition get_m3u_profile ::
  "'s redis_api \<Rightarrow> logins \<Rightarrow> env \<Rightarrow> account \<Rightarrow> int option \<Rightarrow> string option \<Rightarrow> int set option \<Rightarrow> 's \<Rightarrow>
   profile option \<times> 's" where
  "get_m3u_profile R L e a wanted sess allowed s =
     (case session_profile R e a sess allowed s of
        Some p \<Rightarrow> (Some p, s)
      | None \<Rightarrow>
          (let requested = (case wanted of
                              None \<Rightarrow> []
                            | Some i \<Rightarrow>
                                (if i = 0 \<or> \<not> may_use allowed i then []
                                 else filter (\<lambda>p. prof_id p = i \<and> prof_active p) (account_profiles e a)));
               (got, s1) = first_profile_with_room R L e requested s
           in case got of
                Some p \<Rightarrow> (Some p, s1)
              | None \<Rightarrow> first_profile_with_room R L e (profiles_in_order e a allowed) s1))"

text \<open>\<open>url_of\<close>: the URL of a movie on a profile, where it is one of the Xtream kind.\<close>

fun select_candidate ::
  "'s redis_api \<Rightarrow> logins \<Rightarrow> env \<Rightarrow> (relation \<Rightarrow> profile \<Rightarrow> string option) \<Rightarrow> (int \<Rightarrow> int set) option \<Rightarrow>
   string option \<Rightarrow> (relation \<times> int option) list \<Rightarrow> 's \<Rightarrow> (relation \<times> profile \<times> string) option \<times> 's" where
  "select_candidate R L e url_of allowed sess [] s = (None, s)"
| "select_candidate R L e url_of allowed sess ((r, wanted) # cs) s =
     (let (got, s1) = get_m3u_profile R L e (rel_account r) wanted sess
                        (map_option (\<lambda>f. f (acc_id (rel_account r))) allowed) s
      in case got of
           None \<Rightarrow> select_candidate R L e url_of allowed sess cs s1
         | Some p \<Rightarrow>
             (case (if account_type (rel_account r) = ''XC'' then url_of r p else None) of
                None \<Rightarrow> select_candidate R L e url_of allowed sess cs s1
              | Some url \<Rightarrow>
                  (if starts_with url ''http://'' \<or> starts_with url ''https://'' then (Some (r, p, url), s1)
                   else select_candidate R L e url_of allowed sess cs s1)))"

definition select_vod_stream ::
  "'s redis_api \<Rightarrow> logins \<Rightarrow> env \<Rightarrow> (relation \<Rightarrow> profile \<Rightarrow> string option) \<Rightarrow> relation list \<Rightarrow> relation option \<Rightarrow>
   int option \<Rightarrow> string option \<Rightarrow> (int \<Rightarrow> profile list) option \<Rightarrow> 's \<Rightarrow>
   (relation \<times> profile \<times> string) option \<times> 's" where
  "select_vod_stream R L e url_of candidates preferred wanted sess allowed s =
     (case preferred of
        None \<Rightarrow> (None, s)
      | Some r \<Rightarrow>
          (let ordered = order_candidates candidates preferred;
               pairs = (case allowed of
                          None \<Rightarrow> map (\<lambda>c. (c, wanted)) ordered
                        | Some f \<Rightarrow> concat (map (\<lambda>c. map (\<lambda>p. (c, Some (prof_id p))) (f (acc_id (rel_account c)))) ordered))
           in select_candidate R L e url_of (map_option (\<lambda>f i. prof_id ` set (f i)) allowed) sess pairs s))"

text \<open>The admin's stop: the key the stream looks for.\<close>

datatype stop_answer = Stop_bad_request | Stop_not_found | Stop_sent

definition stop_vod_client :: "'s redis_api \<Rightarrow> string \<Rightarrow> 's \<Rightarrow> stop_answer \<times> 's" where
  "stop_vod_client R cl s =
     (if cl = [] then (Stop_bad_request, s)
      else if r_hash R s (Vod_connection cl) = [] then (Stop_not_found, s)
      else (Stop_sent, r_setex R s (Vod_stop cl) 60 (VStr ''true'')))"

end
