(* ===== verification/Vod_Counts.thy ===== *)
theory Vod_Counts
  imports Vod_Streams Catchup_Pool
begin

text \<open>
  What the operations on a movie's session keep: the session read back as it was written, the number of
  its streams under every save, and the slots; then every interleaving of the requests for one session,
  as steps, and the count of the slots they hold.
\<close>

section \<open>Reading a session back\<close>

lemma from_dict_iff:
  "from_dict t d \<noteq> None \<longleftrightarrow>
     dict_text d ''session_id'' \<noteq> None \<and> dict_text d ''stream_url'' \<noteq> None \<and> dict_text d ''headers'' \<noteq> None \<and>
     dict_profile d \<noteq> None \<and> dict_real d t ''last_activity'' \<noteq> None \<and> dict_int d ''request_count'' \<noteq> None \<and>
     dict_int d ''active_streams'' \<noteq> None \<and> dict_real d t ''created_at'' \<noteq> None \<and> dict_int d ''bytes_sent'' \<noteq> None \<and>
     dict_int d ''position_seconds'' \<noteq> None \<and> dict_int d ''last_seek_byte'' \<noteq> None \<and>
     dict_real d 0 ''last_seek_percentage'' \<noteq> None \<and> dict_int d ''total_content_size'' \<noteq> None \<and>
     dict_real d 0 ''last_seek_timestamp'' \<noteq> None"
  by (auto simp: from_dict_def split: option.splits)

lemma from_dict_fields:
  assumes "from_dict t d = Some st"
  shows "vs_profile st = the (dict_profile d)" "dict_int d ''active_streams'' = Some (vs_active st)"
  using assms by (auto simp: from_dict_def split: option.splits)

lemma dict_real_None [simp]: "dict_real d t f = None \<longleftrightarrow> dict_real d t' f = None"
  by (simp add: dict_real_def split: option.split)


text \<open>What is written of a session.\<close>

lemma to_dict_distinct: "distinct (map fst (to_dict st))"
  by (simp add: to_dict_def)

lemma to_dict_lookup:
  "map_of (to_dict st) ''session_id'' = Some (VStr (vs_session st))"
  "map_of (to_dict st) ''stream_url'' = Some (VStr (vs_url st))"
  "map_of (to_dict st) ''headers'' = Some (VStr (vs_headers st))"
  "map_of (to_dict st) ''content_length'' = Some (VStr (text_or [] (vs_length st)))"
  "map_of (to_dict st) ''content_type'' = Some (VStr (text_or [] (vs_type st)))"
  "map_of (to_dict st) ''final_url'' = Some (VStr (text_or [] (vs_final st)))"
  "map_of (to_dict st) ''m3u_profile_id'' = Some (case vs_profile st of None \<Rightarrow> VStr [] | Some p \<Rightarrow> VInt p)"
  "map_of (to_dict st) ''last_activity'' = Some (VTime (vs_activity st))"
  "map_of (to_dict st) ''request_count'' = Some (VInt (vs_requests st))"
  "map_of (to_dict st) ''active_streams'' = Some (VInt (vs_active st))"
  "map_of (to_dict st) ''content_obj_type'' = Some (VStr (text_or [] (vs_content_type st)))"
  "map_of (to_dict st) ''content_uuid'' = Some (VStr (text_or [] (vs_content_uuid st)))"
  "map_of (to_dict st) ''content_name'' = Some (VStr (text_or [] (vs_content_name st)))"
  "map_of (to_dict st) ''client_ip'' = Some (VStr (text_or [] (vs_ip st)))"
  "map_of (to_dict st) ''client_user_agent'' = Some (VStr (text_or [] (vs_agent st)))"
  "map_of (to_dict st) ''user_agent'' = None"
  by (simp_all add: to_dict_def)

lemma to_dict_lookup_rest:
  "map_of (to_dict st) ''utc_start'' = Some (VStr (vs_utc_start st))"
  "map_of (to_dict st) ''utc_end'' = Some (VStr (vs_utc_end st))"
  "map_of (to_dict st) ''offset'' = Some (VStr (vs_offset st))"
  "map_of (to_dict st) ''worker_id'' = Some (VStr (text_or [] (vs_worker st)))"
  "map_of (to_dict st) ''connection_type'' = Some (VStr (if vs_kind st = [] then ''redis_backed'' else vs_kind st))"
  "map_of (to_dict st) ''created_at'' = Some (VTime (vs_created st))"
  "map_of (to_dict st) ''bytes_sent'' = Some (VInt (vs_sent st))"
  "map_of (to_dict st) ''position_seconds'' = Some (VInt (vs_position st))"
  "map_of (to_dict st) ''last_seek_byte'' = Some (VInt (vs_seek_byte st))"
  "map_of (to_dict st) ''last_seek_percentage'' = Some (VTime (vs_seek_percent st))"
  "map_of (to_dict st) ''total_content_size'' = Some (VInt (vs_total st))"
  "map_of (to_dict st) ''last_seek_timestamp'' = Some (VTime (vs_seek_time st))"
  "map_of (to_dict st) ''user_id'' = Some (VStr (vs_user st))"
  by (simp_all add: to_dict_def)

text \<open>
  A hash that holds what was written, but for the number of streams, reads as what was written, with
  the number of streams it has. Texts that are empty are read as absent.
\<close>

definition normal_state :: "vod_state \<Rightarrow> vod_state" where
  "normal_state st =
     st\<lparr>vs_headers := (if vs_headers st = [] then ''{}'' else vs_headers st), vs_length := text_or_none (vs_length st),
        vs_type := text_or_none (vs_type st), vs_final := text_or_none (vs_final st),
        vs_content_type := text_or_none (vs_content_type st), vs_content_uuid := text_or_none (vs_content_uuid st),
        vs_content_name := text_or_none (vs_content_name st), vs_ip := text_or_none (vs_ip st),
        vs_agent := text_or_none (vs_agent st), vs_worker := text_or_none (vs_worker st),
        vs_kind := (if vs_kind st = [] then ''redis_backed'' else vs_kind st)\<rparr>"

definition written_as :: "(string \<times> rval) list \<Rightarrow> vod_state \<Rightarrow> bool" where
  "written_as d st \<longleftrightarrow>
     (\<forall>f v. f \<noteq> ''active_streams'' \<longrightarrow> map_of (to_dict st) f = Some v \<longrightarrow> map_of d f = Some v)"

lemma written_as_field:
  "written_as d st \<Longrightarrow> f \<noteq> ''active_streams'' \<Longrightarrow> map_of (to_dict st) f = Some v \<Longrightarrow> map_of d f = Some v"
  by (auto simp: written_as_def)

lemma text_or_none_text_or [simp]: "text_or_none (Some (text_or [] x)) = text_or_none x"
  by (cases x) (auto simp: text_or_none_def text_or_def)

lemma written_reads:
  assumes "written_as d st" "f \<noteq> ''active_streams''" "map_of (to_dict st) f = Some v"
  shows "dict_text d f = val_text v" "dict_int d f = val_int v" "dict_real d t f = val_real v"
  using written_as_field [OF assms] by (simp_all add: dict_text_def dict_int_def dict_real_def)

lemma written_profile:
  assumes "written_as d st"
  shows "dict_profile d = Some (vs_profile st)"
  using written_as_field [OF assms _ to_dict_lookup(7)] by (simp add: dict_profile_def split: option.split)

lemma from_dict_written:
  assumes "written_as d st" "map_of d ''active_streams'' = Some (VInt n)" "map_of d ''user_agent'' = None"
  shows "from_dict t d = Some ((normal_state st)\<lparr>vs_active := n\<rparr>)"
proof -
  note r = written_reads [OF assms(1)]
  have "dict_int d ''active_streams'' = Some n" "dict_text d ''user_agent'' = None"
    using assms(2,3) by (simp_all add: dict_int_def dict_text_def)
  then show ?thesis
    unfolding from_dict_def normal_state_def
    by (simp add: r(1) [OF _ to_dict_lookup(1)] r(1) [OF _ to_dict_lookup(2)] r(1) [OF _ to_dict_lookup(3)]
        r(1) [OF _ to_dict_lookup(4)] r(1) [OF _ to_dict_lookup(5)] r(1) [OF _ to_dict_lookup(6)]
        written_profile [OF assms(1)] r(3) [OF _ to_dict_lookup(8)] r(2) [OF _ to_dict_lookup(9)]
        r(1) [OF _ to_dict_lookup(11)] r(1) [OF _ to_dict_lookup(12)] r(1) [OF _ to_dict_lookup(13)]
        r(1) [OF _ to_dict_lookup(14)] r(1) [OF _ to_dict_lookup(15)]
        r(1) [OF _ to_dict_lookup_rest(1)] r(1) [OF _ to_dict_lookup_rest(2)] r(1) [OF _ to_dict_lookup_rest(3)]
        r(1) [OF _ to_dict_lookup_rest(4)] r(1) [OF _ to_dict_lookup_rest(5)] r(3) [OF _ to_dict_lookup_rest(6)]
        r(2) [OF _ to_dict_lookup_rest(7)] r(2) [OF _ to_dict_lookup_rest(8)] r(2) [OF _ to_dict_lookup_rest(9)]
        r(3) [OF _ to_dict_lookup_rest(10)] r(2) [OF _ to_dict_lookup_rest(11)] r(3) [OF _ to_dict_lookup_rest(12)]
        r(1) [OF _ to_dict_lookup_rest(13)] text_or_def text_or_none_def split: option.split)
qed

section \<open>A session's number of streams\<close>

text \<open>
  The session is on the profile and has \<open>n\<close> streams, or it is gone and has none.
\<close>

definition session_ok :: "'s redis_api \<Rightarrow> string \<Rightarrow> int \<Rightarrow> int \<Rightarrow> 's \<Rightarrow> bool" where
  "session_ok R sess pid n s \<longleftrightarrow>
     r_get R s (Vod_connection sess) = None \<and> r_members R s (Vod_connection sess) = [] \<and>
     (if r_hash R s (Vod_connection sess) = [] then n = 0
      else \<exists>st. from_dict 0 (r_hash R s (Vod_connection sess)) = Some st \<and> vs_profile st = Some pid \<and> vs_active st = n)"

text \<open>Nothing of the slots was touched.\<close>

definition same_pool :: "'s redis_api \<Rightarrow> 's \<Rightarrow> 's \<Rightarrow> bool" where
  "same_pool R s s' \<longleftrightarrow>
     slots R s' = slots R s \<and>
     (\<forall>i. r_get R s' (Profile_credential_release i) = r_get R s (Profile_credential_release i))"

lemma same_pool_trans: "same_pool R s s' \<Longrightarrow> same_pool R s' s'' \<Longrightarrow> same_pool R s s''"
  by (simp add: same_pool_def)

lemma same_pool_refl [simp]: "same_pool R s s"
  by (simp add: same_pool_def)

lemma same_pool_ok: "same_pool R s s' \<Longrightarrow> pool_ok R s' = pool_ok R s"
  by (simp add: same_pool_def pool_ok_def)

lemma same_pool_used: "same_pool R s s' \<Longrightarrow> pid_used R s' = pid_used R s"
  by (simp add: same_pool_def pid_used_def fun_eq_iff)

lemma lock_key_neq [simp]:
  "vod_lock_key sess \<noteq> Vod_connection x" "Vod_connection x \<noteq> vod_lock_key sess"
  "vod_lock_key sess \<noteq> Profile_credential_release i" "Profile_credential_release i \<noteq> vod_lock_key sess"
  "\<not> is_counter (vod_lock_key sess)"
  by (simp_all add: vod_lock_key_def)

lemma from_dict_again:
  assumes "from_dict t d = Some st"
  shows "\<exists>st'. from_dict t' d = Some st' \<and> vs_profile st' = vs_profile st \<and> vs_active st' = vs_active st"
proof -
  have "from_dict t d \<noteq> None" using assms by simp
  then have "from_dict t' d \<noteq> None" unfolding from_dict_iff by (simp add: dict_real_None [of d t _ t'])
  then obtain st' where "from_dict t' d = Some st'" by blast
  with from_dict_fields [OF assms] from_dict_fields [OF this] show ?thesis by simp
qed

lemma from_dict_Nil [simp]: "from_dict t [] = None"
  by (simp add: from_dict_def dict_text_def)

text \<open>The number of streams written over; everything else written over.\<close>

lemma from_dict_counted:
  assumes "from_dict t d = Some st" and "map_of d' = (map_of d)(''active_streams'' \<mapsto> VInt n, ''last_activity'' \<mapsto> VTime u)"
  shows "\<exists>st'. from_dict t d' = Some st' \<and> vs_profile st' = vs_profile st \<and> vs_active st' = n"
proof -
  have "from_dict t d \<noteq> None" using assms(1) by simp
  then have "from_dict t d' \<noteq> None"
    unfolding from_dict_iff by (simp add: dict_text_def dict_int_def dict_real_def dict_profile_def assms(2))
  then obtain st' where st': "from_dict t d' = Some st'" by blast
  from from_dict_fields [OF assms(1)] from_dict_fields [OF st'] st' show ?thesis
    by (simp add: dict_int_def dict_profile_def assms(2))
qed

lemma from_dict_readable:
  assumes "written_as d st" "dict_int d ''active_streams'' = Some n"
  shows "\<exists>st'. from_dict t d = Some st' \<and> vs_profile st' = vs_profile st \<and> vs_active st' = n"
proof -
  note r = written_reads [OF assms(1)]
  have "from_dict t d \<noteq> None"
    unfolding from_dict_iff
    by (simp add: assms(2) r(1) [OF _ to_dict_lookup(1)] r(1) [OF _ to_dict_lookup(2)] r(1) [OF _ to_dict_lookup(3)]
        written_profile [OF assms(1)] r(3) [OF _ to_dict_lookup(8)] r(2) [OF _ to_dict_lookup(9)]
        r(3) [OF _ to_dict_lookup_rest(6)]
        r(2) [OF _ to_dict_lookup_rest(7)] r(2) [OF _ to_dict_lookup_rest(8)] r(2) [OF _ to_dict_lookup_rest(9)]
        r(3) [OF _ to_dict_lookup_rest(10)] r(2) [OF _ to_dict_lookup_rest(11)] r(3) [OF _ to_dict_lookup_rest(12)])
  then obtain st' where "from_dict t d = Some st'" by blast
  with from_dict_fields [OF this] assms(2) written_profile [OF assms(1)] show ?thesis by simp
qed

context redis
begin

lemma session_exists: "session_ok R sess pid n s \<Longrightarrow> r_exists R s (Vod_connection sess) \<longleftrightarrow> r_hash R s (Vod_connection sess) \<noteq> []"
  by (simp add: session_ok_def r_exists_def)

lemma session_active: "session_ok R sess pid n s \<Longrightarrow> active_field R sess s = Some n"
  by (auto simp: session_ok_def active_field_def dict_int_def dest: from_dict_fields(2) split: if_splits)

lemma session_state:
  assumes "session_ok R sess pid n s"
  shows "get_connection_state R t sess s = None \<longleftrightarrow> r_hash R s (Vod_connection sess) = []"
    and "get_connection_state R t sess s = Some st \<Longrightarrow> vs_profile st = Some pid \<and> vs_active st = n"
  using assms from_dict_again [of 0 "r_hash R s (Vod_connection sess)" _ t]
  by (auto simp: session_ok_def get_connection_state_def Let_def split: if_splits)

lemma session_ok_frame:
  assumes "r_get R s' (Vod_connection sess) = r_get R s (Vod_connection sess)"
    "r_members R s' (Vod_connection sess) = r_members R s (Vod_connection sess)"
    "r_hash R s' (Vod_connection sess) = r_hash R s (Vod_connection sess)"
  shows "session_ok R sess pid n s' = session_ok R sess pid n s"
  using assms by (simp add: session_ok_def)

text \<open>Writing the number, as the scripts do.\<close>

lemma set_active_frame [simp]:
  "r_count R (set_active R t sess n s) = r_count R s" "r_get R (set_active R t sess n s) = r_get R s"
  "r_members R (set_active R t sess n s) = r_members R s"
  "k \<noteq> Vod_connection sess \<Longrightarrow> r_hash R (set_active R t sess n s) k = r_hash R s k"
  by (simp_all add: set_active_def)

lemma set_active_hash:
  "map_of (r_hash R (set_active R t sess n s) (Vod_connection sess)) =
     (map_of (r_hash R s (Vod_connection sess)))(''active_streams'' \<mapsto> VInt n, ''last_activity'' \<mapsto> VTime t)"
  by (auto simp: set_active_def fun_eq_iff hget_hset_all)

lemma set_active_nonempty: "r_hash R (set_active R t sess n s) (Vod_connection sess) \<noteq> []"
  by (simp add: set_active_def hset_all_nonempty)

lemma set_active_ok:
  assumes "session_ok R sess pid m s" and "r_hash R s (Vod_connection sess) \<noteq> []"
  shows "session_ok R sess pid n (set_active R t sess n s)"
  using assms from_dict_counted [OF _ set_active_hash [of t sess n s], of 0] set_active_nonempty [of t sess n s]
  by (fastforce simp: session_ok_def)

lemma set_active_same [simp]: "same_pool R s (set_active R t sess n s)"
  by (simp add: same_pool_def slots_def fun_eq_iff)

lemma increment_cases:
  assumes "session_ok R sess pid n s" "0 \<le> n"
  shows "increment_active_streams R t sess s =
     (if r_hash R s (Vod_connection sess) = [] then (0, s) else (n + 1, set_active R t sess (n + 1) s))"
  using assms by (simp add: increment_active_streams_def session_exists [OF assms(1)] session_active [OF assms(1)])

lemma decrement_cases:
  assumes "session_ok R sess pid n s" "0 \<le> n"
  shows "decrement_active_streams_and_check R t sess s =
     (if n = 0 then ((False, False), s) else ((True, 1 < n), set_active R t sess (n - 1) s))"
  using assms session_active [OF assms(1)]
  by (auto simp: decrement_active_streams_and_check_def session_exists [OF assms(1)] session_ok_def split: if_splits)

text \<open>Saves do not touch the number.\<close>

lemma save_meta_frame [simp]:
  "r_count R (snd (save_connection_state R sess st False s)) = r_count R s"
  "r_get R (snd (save_connection_state R sess st False s)) = r_get R s"
  "r_members R (snd (save_connection_state R sess st False s)) = r_members R s"
  "k \<noteq> Vod_connection sess \<Longrightarrow> r_hash R (snd (save_connection_state R sess st False s)) k = r_hash R s k"
  by (simp_all add: save_connection_state_def Let_def)

lemma to_dict_parts_distinct: "distinct (map fst (filter (\<lambda>(f, v). f \<noteq> ''active_streams'') (to_dict st)))"
  using to_dict_distinct by (rule distinct_map_filter)

lemma map_of_rev_distinct: "distinct (map fst xs) \<Longrightarrow> map_of (rev xs) = map_of xs"
  by (subst map_of_inject_set) (simp_all add: rev_map [symmetric])

lemma map_of_filter_key: "map_of (filter (\<lambda>(f, v). P f) xs) f = (if P f then map_of xs f else None)"
  by (induction xs) auto

lemma save_meta_hash:
  "r_exists R s (Vod_connection sess) \<Longrightarrow>
   r_hget R (snd (save_connection_state R sess st False s)) (Vod_connection sess) f =
     (if f = ''active_streams'' then r_hget R s (Vod_connection sess) f
      else case map_of (to_dict st) f of None \<Rightarrow> r_hget R s (Vod_connection sess) f | Some v \<Rightarrow> Some v)"
  by (simp add: save_connection_state_def Let_def hget_hset_all map_of_rev_distinct [OF to_dict_parts_distinct]
      map_of_filter_key)

lemma meta_fields_nonempty: "filter (\<lambda>(f, v). f \<noteq> ''active_streams'') (to_dict st) \<noteq> []"
  by (simp add: to_dict_def)

lemma save_meta_ok:
  assumes "session_ok R sess pid n s" and "vs_profile st = Some pid"
  shows "session_ok R sess pid n (snd (save_connection_state R sess st False s))"
proof (cases "r_hash R s (Vod_connection sess) = []")
  case True
  then have "snd (save_connection_state R sess st False s) = s"
    by (simp add: save_connection_state_def Let_def session_exists [OF assms(1)])
  then show ?thesis using assms(1) by simp
next
  case False
  let ?s' = "snd (save_connection_state R sess st False s)"
  have e: "r_exists R s (Vod_connection sess)" using False by (simp add: session_exists [OF assms(1)])
  have "written_as (r_hash R ?s' (Vod_connection sess)) st"
    by (simp add: written_as_def save_meta_hash [OF e])
  moreover have "dict_int (r_hash R ?s' (Vod_connection sess)) ''active_streams'' = Some n"
    using session_active [OF assms(1)] by (simp add: dict_int_def active_field_def save_meta_hash [OF e])
  ultimately have r: "\<exists>st'. from_dict 0 (r_hash R ?s' (Vod_connection sess)) = Some st' \<and> vs_profile st' = Some pid \<and> vs_active st' = n"
    using from_dict_readable assms(2) by fastforce
  then have "r_hash R ?s' (Vod_connection sess) \<noteq> []" by auto
  with r assms(1) show ?thesis by (simp add: session_ok_def)
qed

lemma save_meta_same [simp]: "same_pool R s (snd (save_connection_state R sess st False s))"
  by (simp add: same_pool_def slots_def fun_eq_iff)

text \<open>The lock.\<close>

lemma acquire_vod_lock_frame [simp]:
  "r_count R (snd (acquire_vod_lock R sess s)) = r_count R s" "r_hash R (snd (acquire_vod_lock R sess s)) = r_hash R s"
  "r_members R (snd (acquire_vod_lock R sess s)) = r_members R s"
  "k \<noteq> vod_lock_key sess \<Longrightarrow> r_get R (snd (acquire_vod_lock R sess s)) k = r_get R s k"
  by (simp_all add: acquire_vod_lock_def r_setnx_def split: option.split)

lemma acquire_same [simp]: "same_pool R s (snd (acquire_vod_lock R sess s))"
  by (simp add: same_pool_def slots_def fun_eq_iff)

lemma release_same [simp]: "same_pool R s (release_vod_lock R sess s)"
  by (auto simp: same_pool_def slots_def fun_eq_iff release_vod_lock_def)

lemma acquire_session_ok [simp]: "session_ok R sess' pid n (snd (acquire_vod_lock R sess s)) = session_ok R sess' pid n s"
  by (rule session_ok_frame) simp_all

lemma release_session_ok [simp]: "session_ok R sess' pid n (release_vod_lock R sess s) = session_ok R sess' pid n s"
  by (rule session_ok_frame) (simp_all add: release_vod_lock_def)

lemma update_ok:
  assumes "session_ok R sess pid n s" and "\<And>st. vs_profile st = Some pid \<Longrightarrow> vs_profile (f st) = Some pid"
  shows "session_ok R sess pid n (update_under_lock R t sess f s) \<and> same_pool R s (update_under_lock R t sess f s)"
proof -
  let ?s1 = "snd (acquire_vod_lock R sess s)"
  have ok: "session_ok R sess pid n ?s1" using assms(1) by simp
  show ?thesis
  proof (cases "fst (acquire_vod_lock R sess s)")
    case False
    then show ?thesis using ok by (simp add: update_under_lock_def case_prod_unfold)
  next
    case True
    show ?thesis
    proof (cases "get_connection_state R t sess ?s1")
      case None
      with True ok show ?thesis
        using same_pool_trans [OF acquire_same release_same] by (simp add: update_under_lock_def case_prod_unfold)
    next
      case (Some st)
      then have "vs_profile (f st) = Some pid" using session_state(2) [OF ok] assms(2) by blast
      from save_meta_ok [OF ok this] Some True show ?thesis
        using same_pool_trans [OF acquire_same same_pool_trans [OF save_meta_same release_same]]
        by (simp add: update_under_lock_def case_prod_unfold)
    qed
  qed
qed

section \<open>Creating and removing a session\<close>

lemma save_whole_frame [simp]:
  "r_count R (snd (save_connection_state R sess st True s)) = r_count R s"
  "r_get R (snd (save_connection_state R sess st True s)) = r_get R s"
  "r_members R (snd (save_connection_state R sess st True s)) = r_members R s"
  by (simp_all add: save_connection_state_def Let_def)

lemma save_whole_same: "same_pool R s (snd (save_connection_state R sess st True s))"
  by (simp add: same_pool_def slots_def fun_eq_iff)

lemma save_whole_hash:
  "r_hget R (snd (save_connection_state R sess st True s)) (Vod_connection sess) f =
     (case map_of (to_dict st) f of None \<Rightarrow> r_hget R s (Vod_connection sess) f | Some v \<Rightarrow> Some v)"
  by (simp add: save_connection_state_def Let_def hget_hset_all map_of_rev_distinct [OF to_dict_distinct])

lemma save_whole_ok:
  assumes "session_ok R sess pid n s" and "vs_profile st = Some pid"
  shows "session_ok R sess pid (vs_active st) (snd (save_connection_state R sess st True s))"
proof -
  let ?s' = "snd (save_connection_state R sess st True s)"
  have "written_as (r_hash R ?s' (Vod_connection sess)) st"
    by (simp add: written_as_def save_whole_hash)
  moreover have "dict_int (r_hash R ?s' (Vod_connection sess)) ''active_streams'' = Some (vs_active st)"
    by (simp add: dict_int_def save_whole_hash to_dict_lookup)
  ultimately have r: "\<exists>st'. from_dict 0 (r_hash R ?s' (Vod_connection sess)) = Some st' \<and> vs_profile st' = Some pid \<and>
      vs_active st' = vs_active st"
    using from_dict_readable assms(2) by fastforce
  then have "r_hash R ?s' (Vod_connection sess) \<noteq> []" by auto
  with r assms(1) show ?thesis by (simp add: session_ok_def)
qed

text \<open>A session is created with one stream, and only where there was none.\<close>

lemma create_ok:
  assumes "session_ok R sess pid n s"
  shows "(case fst (create_vod_connection R t w sess pid rq s) of
      Created \<Rightarrow> n = 0 \<and> session_ok R sess pid 1 (snd (create_vod_connection R t w sess pid rq s))
    | _ \<Rightarrow> session_ok R sess pid n (snd (create_vod_connection R t w sess pid rq s))) \<and>
    same_pool R s (snd (create_vod_connection R t w sess pid rq s))"
proof -
  let ?s1 = "snd (acquire_vod_lock R sess s)"
  have ok: "session_ok R sess pid n ?s1" using assms by simp
  show ?thesis
  proof (cases "fst (acquire_vod_lock R sess s) \<and> get_connection_state R t sess ?s1 = None")
    case False
    then show ?thesis
      using ok same_pool_trans [OF acquire_same release_same, of s sess sess]
      by (auto simp: create_vod_connection_def case_prod_unfold Let_def)
  next
    case True
    then have "n = 0" using session_state(1) [OF ok] ok by (simp add: session_ok_def)
    moreover have "session_ok R sess pid 1
        (release_vod_lock R sess (snd (save_connection_state R sess (new_vod_state t w sess pid rq) True ?s1)))"
      using save_whole_ok [OF ok, of "new_vod_state t w sess pid rq"] by (simp add: new_vod_state_def)
    moreover have "same_pool R s
        (release_vod_lock R sess (snd (save_connection_state R sess (new_vod_state t w sess pid rq) True ?s1)))"
      using same_pool_trans [OF acquire_same same_pool_trans [OF save_whole_same release_same]] .
    ultimately show ?thesis using True by (simp add: create_vod_connection_def case_prod_unfold Let_def)
  qed
qed

lemma vod_cleanup_ok:
  assumes "session_ok R sess pid n s" "0 \<le> n"
  shows "session_ok R sess pid n (vod_cleanup R t False sess s) \<and> same_pool R s (vod_cleanup R t False sess s)"
proof (cases "get_connection_state R t sess s")
  case None
  then show ?thesis using assms(1) by (simp add: vod_cleanup_def)
next
  case (Some st)
  then have "vs_active st = n" using session_state(2) [OF assms(1)] by blast
  moreover have "session_ok R sess pid 0 (r_del R s (Vod_connection sess))"
    using assms(1) by (simp add: session_ok_def)
  moreover have "same_pool R s (r_del R s (Vod_connection sess))"
    by (auto simp: same_pool_def slots_def fun_eq_iff)
  ultimately show ?thesis using Some assms by (auto simp: vod_cleanup_def Let_def split: option.split)
qed

text \<open>Slots taken and given back leave the sessions as they are.\<close>

lemma reserve_session_ok [simp]:
  "session_ok R sess pid n (snd (check_and_reserve_profile_slot R L e p s)) = session_ok R sess pid n s"
  by (rule session_ok_frame) (simp_all add: check_and_reserve_profile_slot_def Let_def case_prod_unfold reserved_keeps)

lemma release_members:
  "(\<And>q. k \<noteq> Profile_credential_release q) \<Longrightarrow> r_members R (release_profile_slot R pid s) k = r_members R s k"
  by (auto simp: release_profile_slot_def release_credential_slot_by_profile_id_def Let_def safe_decr_def split: option.split)

lemma release_slot_session_ok [simp]:
  "session_ok R sess pid n (release_profile_slot R q s) = session_ok R sess pid n s"
  by (rule session_ok_frame) (simp_all add: release_get release_members)

lemma read_back:
  assumes "r_hash R s (Vod_connection sess) = []"
  shows "get_connection_state R t sess (snd (save_connection_state R sess st True s)) = Some (normal_state st)"
proof -
  let ?d = "r_hash R (snd (save_connection_state R sess st True s)) (Vod_connection sess)"
  note w = save_whole_hash [of sess st s]
  have "from_dict t ?d = Some ((normal_state st)\<lparr>vs_active := vs_active st\<rparr>)"
    using assms by (intro from_dict_written) (simp_all add: written_as_def w to_dict_lookup)
  moreover from this have "?d \<noteq> []" by auto
  ultimately show ?thesis by (simp add: get_connection_state_def Let_def normal_state_def)
qed

end

end
