(* ===== verification/Vod_Steps.thy ===== *)
theory Vod_Steps
  imports Vod_Counts
begin

text \<open>
  The requests for one session of a movie, in every order of their steps: each step is one command or
  one atomic script of a request, and the requests are counted by what they have done. A slot is held
  exactly by what holds one.
\<close>

section \<open>The steps\<close>

text \<open>
  The requests that play; those that made the session busy and have yet to take its slot; those refused
  it that have yet to count down; those that made it idle, or hold a slot too many, and have yet to give
  one back; those that hold a slot and have yet to create the session; those that hold one and found it
  created by another; and the slots of others. \<open>lost\<close>: a refused request left others playing.
\<close>

record tally =
  playing :: nat
  claiming :: nat
  refused_ones :: nat
  leaving :: nat
  holding :: nat
  joining :: nat
  others :: nat
  lost :: bool

definition active_requests :: "tally \<Rightarrow> nat" where
  "active_requests m = playing m + claiming m + refused_ones m"

inductive movie_step ::
  "'s redis_api \<Rightarrow> logins \<Rightarrow> env \<Rightarrow> profile \<Rightarrow> string \<Rightarrow> 's \<times> tally \<Rightarrow> 's \<times> tally \<Rightarrow> bool"
  for R L e p sess where
  count_in: "increment_active_streams R t sess s = (n, s') \<Longrightarrow>
    movie_step R L e p sess (s, m)
      (s', if n = 0 then m else if n = 1 then m\<lparr>claiming := claiming m + 1\<rparr> else m\<lparr>playing := playing m + 1\<rparr>)"
| take_slot: "claiming m = Suc k \<Longrightarrow> check_and_reserve_profile_slot R L e p s = (ok, s') \<Longrightarrow>
    movie_step R L e p sess (s, m)
      (s', if ok then m\<lparr>claiming := k, playing := playing m + 1\<rparr> else m\<lparr>claiming := k, refused_ones := refused_ones m + 1\<rparr>)"
| count_out_refused: "refused_ones m = Suc k \<Longrightarrow>
    decrement_active_streams_and_check R t sess s = ((counted, remain), s') \<Longrightarrow>
    movie_step R L e p sess (s, m) (s', m\<lparr>refused_ones := k, lost := lost m \<or> remain\<rparr>)"
| count_out: "playing m = Suc k \<Longrightarrow> decrement_active_streams_and_check R t sess s = ((counted, remain), s') \<Longrightarrow>
    movie_step R L e p sess (s, m)
      (s', if counted \<and> \<not> remain then m\<lparr>playing := k, leaving := leaving m + 1\<rparr> else m\<lparr>playing := k\<rparr>)"
| give_slot: "leaving m = Suc k \<Longrightarrow>
    movie_step R L e p sess (s, m) (release_profile_slot R (prof_id p) s, m\<lparr>leaving := k\<rparr>)"
| hold: "check_and_reserve_profile_slot R L e p s = (ok, s') \<Longrightarrow>
    movie_step R L e p sess (s, m) (s', if ok then m\<lparr>holding := holding m + 1\<rparr> else m)"
| create: "holding m = Suc k \<Longrightarrow> create_vod_connection R t w sess (prof_id p) rq s = (r, s') \<Longrightarrow>
    movie_step R L e p sess (s, m)
      (s', case r of Created \<Rightarrow> m\<lparr>holding := k, playing := playing m + 1\<rparr>
           | Exists_already \<Rightarrow> m\<lparr>holding := k, joining := joining m + 1\<rparr>
           | Not_created \<Rightarrow> m\<lparr>holding := k, leaving := leaving m + 1\<rparr>)"
| join: "joining m = Suc k \<Longrightarrow> increment_active_streams R t sess s = (n, s') \<Longrightarrow>
    movie_step R L e p sess (s, m)
      (s', if n = 0 then m\<lparr>joining := k, leaving := leaving m + 1\<rparr>
           else if n = 1 then m\<lparr>joining := k, playing := playing m + 1\<rparr>
           else m\<lparr>joining := k, playing := playing m + 1, leaving := leaving m + 1\<rparr>)"
| save: "(\<And>st. vs_profile st = Some (prof_id p) \<Longrightarrow> vs_profile (f st) = Some (prof_id p)) \<Longrightarrow>
    movie_step R L e p sess (s, m) (update_under_lock R t sess f s, m)"
| clean_up: "movie_step R L e p sess (s, m) (vod_cleanup R t False sess s, m)"
| ask: "get_vod_stream R prov guess t sess wanted s = (u, s') \<Longrightarrow> movie_step R L e p sess (s, m) (s', m)"
| see_stop: "movie_step R L e p sess (s, m) (r_del R s (Vod_stop sess), m)"
| other_takes: "check_and_reserve_profile_slot R L e p s = (ok, s') \<Longrightarrow>
    movie_step R L e p sess (s, m) (s', if ok then m\<lparr>others := others m + 1\<rparr> else m)"
| other_gives: "others m = Suc k \<Longrightarrow>
    movie_step R L e p sess (s, m) (release_profile_slot R (prof_id p) s, m\<lparr>others := k\<rparr>)"

section \<open>The invariant\<close>

definition slots_due :: "tally \<Rightarrow> int" where
  "slots_due m = int (others m + holding m + joining m + leaving m) +
     (if 0 < active_requests m then 1 - int (claiming m + refused_ones m) else 0)"

definition movie_ok :: "'s redis_api \<Rightarrow> profile \<Rightarrow> string \<Rightarrow> 's \<times> tally \<Rightarrow> bool" where
  "movie_ok R p sess c \<longleftrightarrow>
     (case c of (s, m) \<Rightarrow>
        pool_ok R s \<and> session_ok R sess (prof_id p) (int (active_requests m)) s \<and>
        claiming m + refused_ones m \<le> 1 \<and> (lost m \<or> pid_used R s (prof_id p) = slots_due m))"

context redis
begin

lemma slot_reserved:
  assumes "check_and_reserve_profile_slot R L e p s = (ok, s')" "pool_ok R s" "0 < max_streams p"
  shows "pool_ok R s'" "session_ok R sess pid n s' = session_ok R sess pid n s"
    "pid_used R s' (prof_id p) = pid_used R s (prof_id p) + (if ok then 1 else 0)"
proof -
  have s': "s' = snd (reserve_profile_slot R L e p 0 None s)" and k: "ok = has_room R L e p 0 None s"
    using assms(1) by (auto simp: check_and_reserve_profile_slot_def Let_def case_prod_unfold reserve_ok)
  show "pool_ok R s'" unfolding s' by (rule reserve_pool_ok [OF assms(2)])
  show "session_ok R sess pid n s' = session_ok R sess pid n s"
    using reserve_session_ok [of sess pid n L e p s] assms(1) by simp
  show "pid_used R s' (prof_id p) = pid_used R s (prof_id p) + (if ok then 1 else 0)"
    using assms(3) by (simp add: s' k reserve_used)
qed

lemma counted_in:
  assumes "session_ok R sess pid a s" "0 \<le> a" "increment_active_streams R t sess s = (n, s')"
  shows "n = 0 \<and> s' = s \<or> n = a + 1 \<and> session_ok R sess pid (a + 1) s' \<and> same_pool R s s'"
proof (cases "r_hash R s (Vod_connection sess) = []")
  case True
  then show ?thesis using assms(3) by (simp add: increment_cases [OF assms(1,2)])
next
  case False
  then have "n = a + 1" "s' = set_active R t sess (a + 1) s"
    using assms(3) by (auto simp: increment_cases [OF assms(1,2)])
  then show ?thesis using set_active_ok [OF assms(1) False, of "a + 1" t] by simp
qed

lemma counted_out:
  assumes "session_ok R sess pid a s" "0 < a" "decrement_active_streams_and_check R t sess s = ((counted, remain), s')"
  shows "counted \<and> (remain \<longleftrightarrow> 1 < a) \<and> session_ok R sess pid (a - 1) s' \<and> same_pool R s s'"
proof -
  have h: "r_hash R s (Vod_connection sess) \<noteq> []" using assms(1,2) by (simp add: session_ok_def split: if_splits)
  have a: "0 \<le> a" "a \<noteq> 0" using assms(2) by simp_all
  have "counted" "remain = (1 < a)" "s' = set_active R t sess (a - 1) s"
    using assms(3) a by (auto simp: decrement_cases [OF assms(1) a(1)])
  then show ?thesis using set_active_ok [OF assms(1) h, of "a - 1" t] by simp
qed

lemma slot_released:
  assumes "pool_ok R s" "0 < pid_used R s pid"
  shows "pid_used R (release_profile_slot R pid s) pid = pid_used R s pid - 1"
  using assms by (simp add: release_used)

lemma movie_okD:
  assumes "movie_ok R p sess (s, m)"
  shows "pool_ok R s" "session_ok R sess (prof_id p) (int (active_requests m)) s" "claiming m + refused_ones m \<le> 1"
    "\<not> lost m \<Longrightarrow> pid_used R s (prof_id p) = slots_due m"
  using assms by (auto simp: movie_ok_def)

text \<open>A step that leaves the slots alone, and one that takes or gives one.\<close>

lemma movie_ok_same:
  assumes "movie_ok R p sess (s, m)" "same_pool R s s'" "session_ok R sess (prof_id p) (int (active_requests m')) s'"
    "claiming m' + refused_ones m' \<le> 1" "\<not> lost m' \<Longrightarrow> \<not> lost m \<and> slots_due m' = slots_due m"
  shows "movie_ok R p sess (s', m')"
  using assms(2-4) movie_okD [OF assms(1)] assms(5)
  by (cases "lost m'") (simp_all add: movie_ok_def same_pool_ok same_pool_used)

lemma movie_ok_slot:
  assumes "movie_ok R p sess (s, m)" "check_and_reserve_profile_slot R L e p s = (ok, s')" "0 < max_streams p"
    "active_requests m' = active_requests m" "claiming m' + refused_ones m' \<le> 1" "lost m' = lost m"
    "slots_due m' = slots_due m + (if ok then 1 else 0)"
  shows "movie_ok R p sess (s', m')"
  using assms movie_okD [OF assms(1)] slot_reserved [OF assms(2) _ assms(3)] by (auto simp: movie_ok_def)

lemma movie_ok_release:
  assumes "movie_ok R p sess (s, m)" "0 < slots_due m"
    "active_requests m' = active_requests m" "claiming m' + refused_ones m' \<le> 1" "lost m' = lost m"
    "slots_due m' = slots_due m - 1"
  shows "movie_ok R p sess (release_profile_slot R (prof_id p) s, m')"
  using assms movie_okD [OF assms(1)] slot_released [of s "prof_id p"] by (auto simp: movie_ok_def release_pool_ok)

lemma count_in_ok:
  assumes "movie_ok R p sess (s, m)" "increment_active_streams R t sess s = (n, s')"
  shows "movie_ok R p sess (s', if n = 0 then m else if n = 1 then m\<lparr>claiming := claiming m + 1\<rparr> else m\<lparr>playing := playing m + 1\<rparr>)"
proof -
  note ok = movie_okD [OF assms(1)]
  consider "n = 0" "s' = s" | "n = int (active_requests m) + 1"
      "session_ok R sess (prof_id p) (int (active_requests m) + 1) s'" "same_pool R s s'"
    using counted_in [OF ok(2) _ assms(2)] by auto
  then show ?thesis
  proof cases
    case 2
    from 2(3) show ?thesis
      by (rule movie_ok_same [OF assms(1)]) (use 2(1,2) ok(3) in \<open>auto simp: active_requests_def slots_due_def algebra_simps\<close>)
  qed (use assms(1) in simp)
qed

lemma join_ok:
  assumes "movie_ok R p sess (s, m)" "joining m = Suc k" "increment_active_streams R t sess s = (n, s')"
  shows "movie_ok R p sess
      (s', if n = 0 then m\<lparr>joining := k, leaving := leaving m + 1\<rparr>
           else if n = 1 then m\<lparr>joining := k, playing := playing m + 1\<rparr>
           else m\<lparr>joining := k, playing := playing m + 1, leaving := leaving m + 1\<rparr>)"
proof -
  note ok = movie_okD [OF assms(1)]
  consider "n = 0" "s' = s" | "n = int (active_requests m) + 1"
      "session_ok R sess (prof_id p) (int (active_requests m) + 1) s'" "same_pool R s s'"
    using counted_in [OF ok(2) _ assms(3)] by auto
  then show ?thesis
  proof cases
    case 1
    have "movie_ok R p sess (s, m\<lparr>joining := k, leaving := leaving m + 1\<rparr>)"
      by (rule movie_ok_same [OF assms(1) same_pool_refl]) (use ok assms(2) in \<open>auto simp: active_requests_def slots_due_def\<close>)
    with 1 show ?thesis by simp
  next
    case 2
    from 2(3) show ?thesis
      by (rule movie_ok_same [OF assms(1)])
        (use 2(1,2) ok(3) assms(2) in \<open>auto simp: active_requests_def slots_due_def algebra_simps\<close>)
  qed
qed

lemma count_out_ok:
  assumes "movie_ok R p sess (s, m)" "playing m = Suc k"
    "decrement_active_streams_and_check R t sess s = ((counted, remain), s')"
  shows "movie_ok R p sess
      (s', if counted \<and> \<not> remain then m\<lparr>playing := k, leaving := leaving m + 1\<rparr> else m\<lparr>playing := k\<rparr>)"
proof -
  note ok = movie_okD [OF assms(1)]
  have d: "counted" "remain \<longleftrightarrow> 1 < int (active_requests m)"
    "session_ok R sess (prof_id p) (int (active_requests m) - 1) s'" "same_pool R s s'"
    using counted_out [OF ok(2) _ assms(3)] assms(2) by (auto simp: active_requests_def)
  from d(4) show ?thesis
    by (rule movie_ok_same [OF assms(1)])
      (use d(1-3) ok(3) assms(2) in \<open>auto simp: active_requests_def slots_due_def algebra_simps\<close>)
qed

lemma count_out_refused_ok:
  assumes "movie_ok R p sess (s, m)" "refused_ones m = Suc k"
    "decrement_active_streams_and_check R t sess s = ((counted, remain), s')"
  shows "movie_ok R p sess (s', m\<lparr>refused_ones := k, lost := lost m \<or> remain\<rparr>)"
proof -
  note ok = movie_okD [OF assms(1)]
  have d: "counted" "remain \<longleftrightarrow> 1 < int (active_requests m)"
    "session_ok R sess (prof_id p) (int (active_requests m) - 1) s'" "same_pool R s s'"
    using counted_out [OF ok(2) _ assms(3)] assms(2) by (auto simp: active_requests_def)
  from d(4) show ?thesis
    by (rule movie_ok_same [OF assms(1)])
      (use d(1-3) ok(3) assms(2) in \<open>auto simp: active_requests_def slots_due_def algebra_simps\<close>)
qed

lemma create_step_ok:
  assumes "movie_ok R p sess (s, m)" "holding m = Suc k" "create_vod_connection R t w sess (prof_id p) rq s = (r, s')"
  shows "movie_ok R p sess
      (s', case r of Created \<Rightarrow> m\<lparr>holding := k, playing := playing m + 1\<rparr>
           | Exists_already \<Rightarrow> m\<lparr>holding := k, joining := joining m + 1\<rparr>
           | Not_created \<Rightarrow> m\<lparr>holding := k, leaving := leaving m + 1\<rparr>)"
proof -
  note ok = movie_okD [OF assms(1)]
  have d: "same_pool R s s'" "case r of Created \<Rightarrow> active_requests m = 0 \<and> session_ok R sess (prof_id p) 1 s'
      | _ \<Rightarrow> session_ok R sess (prof_id p) (int (active_requests m)) s'"
    using create_ok [OF ok(2), of t w rq] assms(3) by (auto split: create_result.splits)
  from d(1) show ?thesis
    by (rule movie_ok_same [OF assms(1)])
      (use d(2) ok(3) assms(2) in \<open>auto simp: active_requests_def slots_due_def split: create_result.splits\<close>)
qed

lemma stop_seen [simp]:
  shows "same_pool R s (r_del R s (Vod_stop x))"
    and "session_ok R sess pid n (r_del R s (Vod_stop x)) = session_ok R sess pid n s"
proof -
  show "same_pool R s (r_del R s (Vod_stop x))" by (auto simp: same_pool_def slots_def fun_eq_iff)
  show "session_ok R sess pid n (r_del R s (Vod_stop x)) = session_ok R sess pid n s" by (rule session_ok_frame) simp_all
qed

text \<open>Asking the provider saves the session, and its profile is the one it had.\<close>

lemma asked_profile:
  "ask_provider prov st rg = Some (rp, st') \<Longrightarrow> vs_profile st' = vs_profile st"
  "vs_profile (with_reply guess rp st) = vs_profile st"
  by (auto simp: ask_provider_def with_reply_def Let_def split: option.splits if_splits)

lemma get_vod_stream_ok:
  assumes "session_ok R sess pid n s"
  shows "session_ok R sess pid n (snd (get_vod_stream R prov guess t sess wanted s)) \<and>
    same_pool R s (snd (get_vod_stream R prov guess t sess wanted s))"
proof -
  let ?s1 = "snd (acquire_vod_lock R sess s)"
  have saved: "session_ok R sess pid n (snd (save_connection_state R sess st False ?s1))" if "vs_profile st = Some pid" for st
    using save_meta_ok [of sess pid n ?s1 st] assms that by simp
  have same: "same_pool R s (snd (save_connection_state R sess st False ?s1))"
    "same_pool R s (release_vod_lock R sess (snd (save_connection_state R sess st False ?s1)))" for st
    using same_pool_trans [OF acquire_same save_meta_same] same_pool_trans [OF acquire_same same_pool_trans [OF save_meta_same release_same]]
    by blast+
  have "vs_profile (with_reply guess rp st') = Some pid"
    if "get_connection_state R t sess s = Some st" "ask_provider prov (st\<lparr>vs_activity := u, vs_requests := v\<rparr>) rg = Some (rp, st')"
    for st st' rp rg u v
    using session_state(2) [OF assms that(1)] asked_profile(1) [OF that(2)] by (simp add: asked_profile(2))
  then show ?thesis
    using assms saved same by (auto simp: get_vod_stream_def Let_def case_prod_unfold split: option.split sum.split)
qed

lemma movie_step_ok:
  assumes "movie_step R L e p sess c c'" "movie_ok R p sess c" "0 < max_streams p"
  shows "movie_ok R p sess c'"
  using assms(1)
proof cases
  case (count_in t s n s' m)
  then show ?thesis using assms(2) count_in_ok by simp
next
  case (take_slot m k s ok s')
  have "movie_ok R p sess (s, m)" using assms(2) take_slot(1) by simp
  from movie_ok_slot [OF this take_slot(4) assms(3)] movie_okD(3) [OF this] take_slot(2,3) show ?thesis
    by (auto simp: active_requests_def slots_due_def)
next
  case (give_slot m k s)
  have ok: "movie_ok R p sess (s, m)" using assms(2) give_slot(1) by simp
  show ?thesis unfolding give_slot(2)
    by (rule movie_ok_release [OF ok]) (use movie_okD(3) [OF ok] give_slot(3) in \<open>auto simp: active_requests_def slots_due_def\<close>)
next
  case (hold s ok s' m)
  have "movie_ok R p sess (s, m)" using assms(2) hold(1) by simp
  from movie_ok_slot [OF this hold(3) assms(3)] movie_okD(3) [OF this] hold(2) show ?thesis
    by (auto simp: active_requests_def slots_due_def)
next
  case (save f s m t)
  have ok: "movie_ok R p sess (s, m)" using assms(2) save(1) by simp
  show ?thesis unfolding save(2)
    by (rule movie_ok_same [OF ok]) (use movie_okD [OF ok] update_ok [OF movie_okD(2) [OF ok] save(3)] in auto)
next
  case (clean_up s m t)
  have ok: "movie_ok R p sess (s, m)" using assms(2) clean_up(1) by simp
  show ?thesis unfolding clean_up(2)
    by (rule movie_ok_same [OF ok]) (use movie_okD [OF ok] vod_cleanup_ok [OF movie_okD(2) [OF ok]] in auto)
next
  case (ask prov guess t wanted s u s' m)
  have ok: "movie_ok R p sess (s, m)" using assms(2) ask(1) by simp
  have "s' = snd (get_vod_stream R prov guess t sess wanted s)" using ask(3) by simp
  then show ?thesis unfolding ask(2)
    using movie_ok_same [OF ok, of s' m] movie_okD [OF ok] get_vod_stream_ok [OF movie_okD(2) [OF ok], of prov guess t wanted]
    by auto
next
  case (see_stop s m)
  have ok: "movie_ok R p sess (s, m)" using assms(2) see_stop(1) by simp
  show ?thesis unfolding see_stop(2) using movie_ok_same [OF ok stop_seen(1), of m] movie_okD [OF ok] by simp
next
  case (other_takes s ok s' m)
  have "movie_ok R p sess (s, m)" using assms(2) other_takes(1) by simp
  from movie_ok_slot [OF this other_takes(3) assms(3)] movie_okD(3) [OF this] other_takes(2) show ?thesis
    by (auto simp: active_requests_def slots_due_def)
next
  case (other_gives m k s)
  have ok: "movie_ok R p sess (s, m)" using assms(2) other_gives(1) by simp
  show ?thesis unfolding other_gives(2)
    by (rule movie_ok_release [OF ok]) (use movie_okD(3) [OF ok] other_gives(3) in \<open>auto simp: active_requests_def slots_due_def\<close>)
qed (use assms(2) count_out_ok count_out_refused_ok create_step_ok join_ok in simp_all)

lemma movie_run_ok:
  assumes "(movie_step R L e p sess)\<^sup>*\<^sup>* c c'" "movie_ok R p sess c" "0 < max_streams p"
  shows "movie_ok R p sess c'"
  using assms by (induction rule: rtranclp_induct) (auto intro: movie_step_ok)

end

end
