(* ===== verification/Vod_Facts.thy ===== *)
theory Vod_Facts
  imports Vod_Steps
begin

text \<open>
  A request for a movie is a sequence of the steps, so every order of whole requests, and of their parts,
  holds the slots it should; what breaks the count; and the bytes and ranges a movie's stream sends.
\<close>

section \<open>A request is steps\<close>

lemma tally_same [simp]:
  "m\<lparr>claiming := claiming m\<rparr> = m" "m\<lparr>playing := playing m\<rparr> = m" "m\<lparr>leaving := leaving m\<rparr> = m"
  "m\<lparr>refused_ones := refused_ones m\<rparr> = m" "m\<lparr>holding := holding m\<rparr> = m" "m\<lparr>joining := joining m\<rparr> = m"
  by (cases m; simp)+

lemma best_match_in: "best_match ms = Some sess \<Longrightarrow> sess \<in> fst ` set ms"
  by (induction ms rule: best_match.induct) (auto split: if_splits)

lemma idle_found_in: "find_matching_idle_session R rq found s = Some sess \<Longrightarrow> sess \<in> set found"
  by (auto simp: find_matching_idle_session_def map_filter_member dest!: best_match_in)

abbreviation movie_steps ::
  "'s redis_api \<Rightarrow> logins \<Rightarrow> env \<Rightarrow> profile \<Rightarrow> string \<Rightarrow> 's \<times> tally \<Rightarrow> 's \<times> tally \<Rightarrow> bool" where
  "movie_steps R L e p sess \<equiv> (movie_step R L e p sess)\<^sup>*\<^sup>*"

text \<open>The answer of a request's steps: it plays, or the count is as it was.\<close>

definition request_done ::
  "'s redis_api \<Rightarrow> logins \<Rightarrow> env \<Rightarrow> profile \<Rightarrow> string \<Rightarrow> 's \<times> tally \<Rightarrow> (movie_answer + reserved) \<times> 's \<Rightarrow> bool" where
  "request_done R L e p sess c r \<longleftrightarrow>
     (case fst r of
        Inl _ \<Rightarrow> movie_steps R L e p sess c (snd r, snd c)
      | Inr x \<Rightarrow> rs_session x = sess \<and> rs_profile x = Row p \<and>
          movie_steps R L e p sess c (snd r, (snd c)\<lparr>playing := playing (snd c) + 1\<rparr>))"

context redis
begin

text \<open>Counted in and a slot taken; refused it and counted out.\<close>

lemma claim_steps:
  assumes "movie_ok R p sess (s, m)" "active_requests m = 0"
    "increment_active_streams R t sess s = (1, s1)" "check_and_reserve_profile_slot R L e p s1 = (ok, s2)"
  shows "if ok then movie_steps R L e p sess (s, m) (s2, m\<lparr>playing := playing m + 1\<rparr>)
    else movie_steps R L e p sess (s, m) (snd (decrement_active_streams_and_check R t' sess s2), m)"
proof -
  let ?m1 = "m\<lparr>claiming := claiming m + 1\<rparr>"
  have z: "claiming m = 0" "refused_ones m = 0" "playing m = 0" using assms(2) by (simp_all add: active_requests_def)
  have 1: "movie_step R L e p sess (s, m) (s1, ?m1)"
    using movie_step.count_in [OF assms(3), of L e p m] by simp
  have 2: "movie_step R L e p sess (s1, ?m1)
      (s2, if ok then m\<lparr>playing := playing m + 1\<rparr> else m\<lparr>refused_ones := 1\<rparr>)"
    using movie_step.take_slot [OF _ assms(4), of ?m1 0 sess] z by (cases m; cases ok) simp_all
  show ?thesis
  proof (cases ok)
    case True
    with 1 2 show ?thesis by (simp add: rtranclp.rtrancl_into_rtrancl)
  next
    case False
    have "session_ok R sess (prof_id p) 1 s1"
      using counted_in [OF movie_okD(2) [OF assms(1)] _ assms(3)] assms(2) by simp
    then have ok2: "session_ok R sess (prof_id p) 1 s2"
      using reserve_session_ok [of sess "prof_id p" 1 L e p s1] assms(4) by simp
    obtain counted remain s3 where d: "decrement_active_streams_and_check R t' sess s2 = ((counted, remain), s3)"
      by (metis prod.collapse)
    have "\<not> remain" using counted_out [OF ok2 _ d] by simp
    then have "movie_step R L e p sess (s2, m\<lparr>refused_ones := 1\<rparr>) (s3, m)"
      using movie_step.count_out_refused [OF _ d, of "m\<lparr>refused_ones := 1\<rparr>" 0 L e p] z by (cases m) auto
    then show ?thesis using 1 2 False d by (auto intro: rtranclp.rtrancl_into_rtrancl)
  qed
qed

lemma on_own_profile:
  assumes "session_ok R sess (prof_id p) n s"
  shows "resolve_effective_profile R e sess (get_connection_state R t sess s) p rw s' = (Row p, s')"
proof (cases "get_connection_state R t sess s")
  case None
  then show ?thesis by (simp add: resolve_effective_profile_def stored_profile_def)
next
  case (Some st)
  then show ?thesis using session_state(2) [OF assms] by (simp add: resolve_effective_profile_def stored_profile_def)
qed

lemma claim_existing_steps:
  assumes "movie_ok R p sess (s, m)" "increment_active_streams R t sess s = (n, s1)" "n \<noteq> 0"
    "get_connection_state R t' sess s' = Some st" "session_ok R sess (prof_id p) n' s'"
  shows "request_done R L e p sess (s, m) (claim_existing R L e p sess st n s1)"
proof -
  have eff: "resolve_effective_profile R e sess (Some st) p (n = 1) s1 = (Row p, s1)"
    using on_own_profile [OF assms(5), of e t' "n = 1" s1] assms(4) by simp
  have n: "n = int (active_requests m) + 1" using counted_in [OF movie_okD(2) [OF assms(1)] _ assms(2)] assms(3) by auto
  show ?thesis
  proof (cases "n = 1")
    case False
    have "movie_step R L e p sess (s, m) (s1, m\<lparr>playing := playing m + 1\<rparr>)"
      using movie_step.count_in [OF assms(2), of L e p m] assms(3) False by simp
    then show ?thesis using False eff by (auto simp: claim_existing_def request_done_def)
  next
    case True
    obtain ok s2 where r: "check_and_reserve_profile_slot R L e p s1 = (ok, s2)" by (metis prod.collapse)
    from claim_steps [OF assms(1) _ assms(2) [unfolded True] r, of "now e"] n True eff r show ?thesis
      by (auto simp: claim_existing_def request_done_def)
  qed
qed

lemma done_then_save:
  assumes "request_done R L e p sess c (Inr r, s)" "\<And>st. vs_profile st = Some (prof_id p) \<Longrightarrow> vs_profile (f st) = Some (prof_id p)"
  shows "request_done R L e p sess c (Inr r, update_under_lock R t sess f s)"
proof -
  have "movie_step R L e p sess (s, m) (update_under_lock R t sess f s, m)" for m by (rule movie_step.save [OF assms(2)])
  then show ?thesis using assms(1) by (auto simp: request_done_def intro: rtranclp.rtrancl_into_rtrancl)
qed

lemma join_existing_steps:
  assumes "movie_ok R p sess (s, m)" "get_connection_state R t' sess s' = Some st" "session_ok R sess (prof_id p) n' s'"
    "counted = 0 \<and> s1 = s \<or> counted \<noteq> 0 \<and> increment_active_streams R (now e) sess s = (counted, s1)"
  shows "request_done R L e p sess (s, m) (join_existing R L e w p sess st counted s1)"
proof -
  obtain n s2 where i: "increment_active_streams R (now e) sess s = (n, s2)" by (metis prod.collapse)
  have start: "(if counted = 0 then increment_active_streams R (now e) sess s1 else (counted, s1)) = (n, s2)"
    using assms(4) i by auto
  show ?thesis
  proof (cases "n = 0")
    case True
    then have "s2 = s" using counted_in [OF movie_okD(2) [OF assms(1)] _ i] by auto
    then show ?thesis using True start by (simp add: join_existing_def request_done_def)
  next
    case False
    note c = claim_existing_steps [OF assms(1) i False assms(2,3), of L e]
    obtain x s3 where x: "claim_existing R L e p sess st n s2 = (x, s3)" by (metis prod.collapse)
    show ?thesis
    proof (cases x)
      case (Inl a)
      with c x start False show ?thesis by (simp add: join_existing_def)
    next
      case (Inr r)
      with c x start False done_then_save [of L e p sess "(s, m)" r s3] show ?thesis by (simp add: join_existing_def)
    qed
  qed
qed

lemma join_created_steps:
  assumes "movie_ok R p sess (s, m)" "joining m = Suc k"
  shows "case join_created R L e p sess s of
      (Inl _, s') \<Rightarrow> movie_steps R L e p sess (s, m) (s', m\<lparr>joining := k\<rparr>)
    | (Inr x, s') \<Rightarrow> rs_session x = sess \<and> rs_profile x = Row p \<and>
        movie_steps R L e p sess (s, m) (s', m\<lparr>joining := k, playing := playing m + 1\<rparr>)"
proof -
  obtain n s1 where i: "increment_active_streams R (now e) sess s = (n, s1)" by (metis prod.collapse)
  note j = movie_step.join [OF assms(2) i, of L e p]
  note give = movie_step.give_slot [of _ _ R L e p sess]
  consider "n = 0" | "n = int (active_requests m) + 1" "session_ok R sess (prof_id p) n s1"
    using counted_in [OF movie_okD(2) [OF assms(1)] _ i] by auto
  then show ?thesis
  proof cases
    case 1
    have "movie_step R L e p sess (s1, m\<lparr>joining := k, leaving := leaving m + 1\<rparr>)
        (release_profile_slot R (prof_id p) s1, m\<lparr>joining := k\<rparr>)"
      using give [of "m\<lparr>joining := k, leaving := leaving m + 1\<rparr>" "leaving m" s1] by (cases m) simp
    with j 1 show ?thesis by (auto simp: join_created_def i intro: rtranclp.rtrancl_into_rtrancl)
  next
    case 2
    have eff: "resolve_effective_profile R e sess (get_connection_state R (now e) sess s1) p rw s1 = (Row p, s1)" for rw
      by (rule on_own_profile [OF 2(2)])
    have "movie_step R L e p sess (s1, m\<lparr>joining := k, playing := playing m + 1, leaving := leaving m + 1\<rparr>)
        (release_profile_slot R (prof_id p) s1, m\<lparr>joining := k, playing := playing m + 1\<rparr>)"
      using give [of "m\<lparr>joining := k, playing := playing m + 1, leaving := leaving m + 1\<rparr>" "leaving m" s1] by (cases m) simp
    with j 2(1) show ?thesis
      by (auto simp: join_created_def i eff intro: rtranclp.rtrancl_into_rtrancl)
  qed
qed

lemma open_new_session_steps:
  assumes "movie_ok R p sess (s, m)" "0 < max_streams p"
  shows "request_done R L e p sess (s, m) (open_new_session R L e w p sess rq s)"
proof -
  obtain ok s1 where r: "check_and_reserve_profile_slot R L e p s = (ok, s1)" by (metis prod.collapse)
  note h = movie_step.hold [OF r, of sess m]
  show ?thesis
  proof (cases ok)
    case False
    with h r show ?thesis by (auto simp: open_new_session_def request_done_def)
  next
    case True
    let ?m1 = "m\<lparr>holding := holding m + 1\<rparr>"
    obtain c s2 where c: "create_vod_connection R (now e) w sess (prof_id p) rq s1 = (c, s2)" by (metis prod.collapse)
    have m1: "movie_step R L e p sess (s, m) (s1, ?m1)" using h True by simp
    note k = movie_step.create [OF _ c, of ?m1 "holding m" L e]
    show ?thesis
    proof (cases c)
      case Created
      with k have "movie_step R L e p sess (s1, ?m1) (s2, m\<lparr>playing := playing m + 1\<rparr>)" by (cases m) simp
      with m1 r c True Created show ?thesis
        by (auto simp: open_new_session_def request_done_def intro: rtranclp.rtrancl_into_rtrancl)
    next
      case Not_created
      with k have "movie_step R L e p sess (s1, ?m1) (s2, m\<lparr>leaving := leaving m + 1\<rparr>)" by (cases m) simp
      moreover have "movie_step R L e p sess (s2, m\<lparr>leaving := leaving m + 1\<rparr>) (release_profile_slot R (prof_id p) s2, m)"
        using movie_step.give_slot [of "m\<lparr>leaving := leaving m + 1\<rparr>" "leaving m" R L e p sess s2] by (cases m) simp
      ultimately show ?thesis using m1 r c True Not_created
        by (auto simp: open_new_session_def request_done_def intro: rtranclp.rtrancl_into_rtrancl)
    next
      case Exists_already
      let ?m2 = "m\<lparr>joining := joining m + 1\<rparr>"
      from k Exists_already have "movie_step R L e p sess (s1, ?m1) (s2, ?m2)" by (cases m) simp
      with m1 have run: "movie_steps R L e p sess (s, m) (s2, ?m2)" by (auto intro: rtranclp.rtrancl_into_rtrancl)
      have "movie_ok R p sess (s2, ?m2)" by (rule movie_run_ok [OF run assms])
      note j = join_created_steps [OF this, of "joining m" L e]
      obtain x s3 where x: "join_created R L e p sess s2 = (x, s3)" by (metis prod.collapse)
      show ?thesis
      proof (cases x)
        case (Inl a)
        have "movie_steps R L e p sess (s2, ?m2) (s3, m)" using j x Inl by (cases m) simp
        with run r c True Exists_already x Inl show ?thesis by (auto simp: open_new_session_def request_done_def)
      next
        case (Inr b)
        have "rs_session b = sess \<and> rs_profile b = Row p \<and> movie_steps R L e p sess (s2, ?m2) (s3, m\<lparr>playing := playing m + 1\<rparr>)"
          using j x Inr by (cases m) simp
        with run r c True Exists_already x Inr show ?thesis by (auto simp: open_new_session_def request_done_def)
      qed
    qed
  qed
qed

lemma reserve_movie_steps:
  assumes "movie_ok R p sess (s, m)" "0 < max_streams p" "mr_session rq = sess" "set found \<subseteq> {sess}"
  shows "request_done R L e p sess (s, m) (reserve_movie R L e w p rq found s)"
proof -
  obtain sess1 counted s1 where c: "claim_session R (now e) rq found s = (sess1, counted, s1)" by (metis prod.collapse)
  note ok = movie_okD(2) [OF assms(1)]
  have idle: "x = sess" if "find_matching_idle_session R rq found s = Some x" for x
    using idle_found_in [OF that] assms(4) by auto
  have "sess1 = sess \<and> (counted = 0 \<and> s1 = s \<or> counted \<noteq> 0 \<and> increment_active_streams R (now e) sess s = (counted, s1))"
  proof (cases "find_matching_idle_session R rq found s")
    case None
    with c assms(3) show ?thesis by (simp add: claim_session_def)
  next
    case (Some x)
    obtain n s2 where i: "increment_active_streams R (now e) sess s = (n, s2)" by (metis prod.collapse)
    have "s2 = s" if "n = 0" using counted_in [OF ok _ i] that by auto
    with c Some idle [OF Some] assms(3) i show ?thesis by (auto simp: claim_session_def split: if_splits)
  qed
  then have sess1: "sess1 = sess"
    and counted: "counted = 0 \<and> s1 = s \<or> counted \<noteq> 0 \<and> increment_active_streams R (now e) sess s = (counted, s1)"
    by blast+
  obtain n' where ok1: "session_ok R sess (prof_id p) n' s1" "counted \<noteq> 0 \<Longrightarrow> n' \<noteq> 0"
    using counted ok counted_in [OF ok, of "now e" counted s1] by (metis of_nat_0_le_iff add_eq_0_iff_both_eq_0 zero_neq_one)
  show ?thesis
  proof (cases "get_connection_state R (now e) sess s1")
    case None
    then have "n' = 0" using session_state(1) [OF ok1(1)] ok1(1) by (simp add: session_ok_def)
    then have "counted = 0" "s1 = s" using ok1(2) counted by auto
    then show ?thesis
      using open_new_session_steps [OF assms(1,2), of L e w rq] c sess1 None by (simp add: reserve_movie_def)
  next
    case (Some st)
    then show ?thesis
      using join_existing_steps [OF assms(1) Some ok1(1) counted, where w = w and L = L] c sess1 by (simp add: reserve_movie_def)
  qed
qed

lemma refused_answer:
  assumes "fst (reserve_movie R L e w p rq found s) = Inl b"
  shows "b = Not_started \<or> b = Too_many"
proof -
  have c: "b = Too_many" if "fst (claim_existing R L e p sess st n s') = Inl b" for sess st n s'
    using that by (auto simp: claim_existing_def case_prod_unfold Let_def split: if_splits)
  have j: "b = Not_started \<or> b = Too_many" if "fst (join_existing R L e w p sess st n s') = Inl b" for sess st n s'
    using that c by (auto simp: join_existing_def case_prod_unfold Let_def split: if_splits prod.splits sum.splits)
  have o: "b = Not_started \<or> b = Too_many" if "fst (open_new_session R L e w p sess rq s') = Inl b" for sess s'
    using that by (auto simp: open_new_session_def join_created_def case_prod_unfold Let_def split: if_splits prod.splits create_result.splits)
  show ?thesis using assms j o by (auto simp: reserve_movie_def case_prod_unfold Let_def split: option.splits if_splits)
qed

text \<open>The end of a stream, and the undoing of one that could not start.\<close>

lemma end_steps:
  assumes "movie_ok R p sess (s, m)" "playing m = Suc k" "decrement_active_streams_and_check R t sess s = ((counted, remain), s1)"
  shows "counted" "movie_steps R L e p sess (s, m)
    (if remain then s1 else release_profile_slot R (prof_id p) s1, m\<lparr>playing := k\<rparr>)"
proof -
  show c: counted using counted_out [OF movie_okD(2) [OF assms(1)] _ assms(3)] assms(2) by (simp add: active_requests_def)
  note o = movie_step.count_out [OF assms(2,3), of L e p]
  have "movie_step R L e p sess (s1, m\<lparr>playing := k, leaving := leaving m + 1\<rparr>)
      (release_profile_slot R (prof_id p) s1, m\<lparr>playing := k\<rparr>)"
    using movie_step.give_slot [of "m\<lparr>playing := k, leaving := leaving m + 1\<rparr>" "leaving m" R L e p sess s1] by (cases m) simp
  with o c show "movie_steps R L e p sess (s, m)
    (if remain then s1 else release_profile_slot R (prof_id p) s1, m\<lparr>playing := k\<rparr>)"
    by (cases remain) (auto intro: rtranclp.rtrancl_into_rtrancl)
qed

lemma rollback_steps:
  assumes "movie_ok R p sess (s, m)" "playing m = Suc k"
  shows "movie_steps R L e p sess (s, m) (snd (rollback_setup_reservations R t sess (prof_id p) slot True s), m\<lparr>playing := k\<rparr>)"
proof -
  obtain counted remain s1 where d: "decrement_active_streams_and_check R t sess s = ((counted, remain), s1)" by (metis prod.collapse)
  from end_steps [OF assms d] show ?thesis
    by (cases remain) (simp_all add: rollback_setup_reservations_def d)
qed

lemma stream_steps:
  assumes "movie_ok R p sess (s, m)" "0 < max_streams p" "mr_session rq = sess" "set found \<subseteq> {sess}"
    "stream_content_with_session R L e prov guess w p rq found s = (a, clean, s')"
  shows "movie_steps R L e p sess (s, m) (s', case a of Playing _ _ _ _ \<Rightarrow> m\<lparr>playing := playing m + 1\<rparr> | _ \<Rightarrow> m)"
proof -
  obtain x s1 where x: "reserve_movie R L e w p rq found s = (x, s1)" by (metis prod.collapse)
  note r = reserve_movie_steps [OF assms(1-4), of L e w, unfolded x]
  have no_play: "b = Not_started \<or> b = Too_many" if "x = Inl b" for b
    using x that refused_answer by (metis fst_conv)
  show ?thesis
  proof (cases x)
    case (Inl b)
    with r x assms(5) no_play show ?thesis by (auto simp: stream_content_with_session_def request_done_def split: movie_answer.split)
  next
    case (Inr res)
    let ?m1 = "m\<lparr>playing := playing m + 1\<rparr>"
    have run: "movie_steps R L e p sess (s, m) (s1, ?m1)" and res: "rs_session res = sess" "rs_profile res = Row p"
      using r Inr by (simp_all add: request_done_def)
    obtain u s2 where u: "get_vod_stream R prov guess (now e) sess (mr_range rq) s1 = (u, s2)" by (metis prod.collapse)
    have run2: "movie_steps R L e p sess (s, m) (s2, ?m1)"
      using run movie_step.ask [OF u, of L e p ?m1] by (rule rtranclp.rtrancl_into_rtrancl)
    have "movie_steps R L e p sess (s2, ?m1) (snd (rollback_setup_reservations R (now e) sess (prof_id p) (rs_slot res) True s2), m)"
      using rollback_steps [OF movie_run_ok [OF run2 assms(1,2)], of "playing m" L e "now e" "rs_slot res"] by (cases m) simp
    with run2 u x Inr res assms(5) show ?thesis
      by (auto simp: stream_content_with_session_def Let_def case_prod_unfold split: upstream.splits)
  qed
qed

end

section \<open>The slots of a movie\<close>

definition idle_tally :: "nat \<Rightarrow> nat \<Rightarrow> tally" where
  "idle_tally n k = \<lparr>playing = n, claiming = 0, refused_ones = 0, leaving = 0, holding = 0, joining = 0, others = k, lost = False\<rparr>"

context redis
begin

lemma idle_tally_ok:
  assumes "pool_ok R s" "session_ok R sess (prof_id p) (int n) s" "0 < n \<Longrightarrow> 0 < pid_used R s (prof_id p)"
  obtains k where "movie_ok R p sess (s, idle_tally n k)"
    "pid_used R s (prof_id p) = int k + (if 0 < n then 1 else 0)"
proof -
  have "0 \<le> pid_used R s (prof_id p)" using assms(1) by (simp add: pool_ok_def pid_used_def)
  then obtain k where k: "pid_used R s (prof_id p) = int k + (if 0 < n then 1 else 0)"
    using assms(3) that zero_le_imp_eq_int [of "pid_used R s (prof_id p) - (if 0 < n then 1 else 0)"]
    by (cases "0 < n") (auto simp: algebra_simps)
  then have "movie_ok R p sess (s, idle_tally n k)"
    using assms(1,2) by (auto simp: movie_ok_def active_requests_def slots_due_def idle_tally_def)
  with k show thesis using that by blast
qed

lemma playing_tally:
  assumes "movie_ok R p sess (s, idle_tally n k)"
  shows "active_field R sess s = Some (int n)" "pid_used R s (prof_id p) = int k + (if 0 < n then 1 else 0)"
  using movie_okD [OF assms] session_active by (auto simp: active_requests_def slots_due_def idle_tally_def)

lemma playing_answer:
  assumes "mr_session rq = sess" "set found \<subseteq> {sess}" "movie_ok R p sess (s, m)" "0 < max_streams p"
    "stream_content_with_session R L e prov guess w p rq found s = (Playing x i rg rp, clean, s')"
  shows "x = sess \<and> i = prof_id p"
proof -
  obtain y s1 where y: "reserve_movie R L e w p rq found s = (y, s1)" by (metis prod.collapse)
  note r = reserve_movie_steps [OF assms(3,4,1,2), of L e w, unfolded y]
  show ?thesis
  proof (cases y)
    case (Inl b)
    then show ?thesis using y assms(5) refused_answer [of L e w p rq found s b]
      by (auto simp: stream_content_with_session_def)
  next
    case (Inr v)
    then show ?thesis using y assms(5) r
      by (auto simp: stream_content_with_session_def request_done_def Let_def case_prod_unfold split: upstream.splits prod.splits)
  qed
qed

lemma end_stream_steps:
  assumes "movie_ok R p sess (s, m)" "playing m = Suc k" "prof_id p \<noteq> 0" "0 < max_streams p"
  shows "movie_steps R L e p sess (s, m) (snd (end_movie_stream R t sess (prof_id p) signalled s), m\<lparr>playing := k\<rparr>)"
proof -
  let ?s0 = "if signalled then r_del R s (Vod_stop sess) else s"
  have seen: "movie_steps R L e p sess (s, m) (?s0, m)"
    using movie_step.see_stop [of R L e p sess s m] by (cases signalled) (simp_all add: r_into_rtranclp)
  have ok0: "movie_ok R p sess (?s0, m)"
    by (rule movie_run_ok [OF seen assms(1,4)])
  obtain counted remain s1 where d: "decrement_active_streams_and_check R t sess ?s0 = ((counted, remain), s1)" by (metis prod.collapse)
  from rtranclp_trans [OF seen end_steps(2) [OF ok0 assms(2) d]] end_steps(1) [OF ok0 assms(2) d] assms(3) show ?thesis
    by (cases remain) (simp_all add: end_movie_stream_def d)
qed

end

text \<open>
  C16: However the requests for a session of a movie follow each other, with all their steps in any order,
  and those of other viewers of the profile between them: the profile's counter is the slots of the
  others, one for each request that has one in hand, and one for the session itself while it is in use
  and its slot is not still to be taken. So while requests play it holds one slot and no more, and
  none once the last has ended. (This holds until a request that made the session busy is refused its
  slot when others joined it.)
\<close>

theorem movie_slots_exact:
  assumes "redis R" "0 < max_streams p" "pool_ok R s" "session_ok R sess (prof_id p) 0 s"
    "pid_used R s (prof_id p) = int k"
    "(movie_step R L e p sess)\<^sup>*\<^sup>* (s, idle_tally 0 k) (s', m)" "\<not> lost m"
  shows "active_field R sess s' = Some (int (playing m + claiming m + refused_ones m)) \<and>
    pid_used R s' (prof_id p) = int (others m + holding m + joining m + leaving m) +
      (if 0 < playing m \<or> 0 < claiming m \<or> 0 < refused_ones m then 1 - int (claiming m + refused_ones m) else 0)"
proof -
  have "movie_ok R p sess (s, idle_tally 0 k)"
    using assms(3-5) by (simp add: movie_ok_def active_requests_def slots_due_def idle_tally_def)
  from redis.movie_run_ok [OF assms(1,6) this assms(2)] have ok: "movie_ok R p sess (s', m)" .
  show ?thesis
    using redis.movie_okD [OF assms(1) ok] redis.session_active [OF assms(1)] assms(7)
    by (auto simp: active_requests_def slots_due_def)
qed

text \<open>
  C17: A request for a movie that plays adds one stream to its session, and takes a slot exactly when
  the session had none; any other answer, whatever went wrong and how far the request had come, leaves
  the session's streams and the profile's slots as they were. The end of a stream counts it out, and
  the last one gives the slot back.
\<close>

theorem movie_request_slots:
  assumes "redis R" "0 < max_streams p" "prof_id p \<noteq> 0" "pool_ok R s" "session_ok R sess (prof_id p) (int n) s"
    "0 < n \<Longrightarrow> 0 < pid_used R s (prof_id p)" "mr_session rq = sess" "set found \<subseteq> {sess}"
    "stream_content_with_session R L e prov guess w p rq found s = (a, clean, s')"
  shows "case a of
      Playing x i rg rp \<Rightarrow>
        x = sess \<and> i = prof_id p \<and> active_field R sess s' = Some (int n + 1) \<and>
        pid_used R s' (prof_id p) = pid_used R s (prof_id p) + (if n = 0 then 1 else 0) \<and>
        (let s2 = snd (end_movie_stream R t sess i signalled s') in
           active_field R sess s2 = Some (int n) \<and> pid_used R s2 (prof_id p) = pid_used R s (prof_id p))
    | _ \<Rightarrow> active_field R sess s' = Some (int n) \<and> pid_used R s' (prof_id p) = pid_used R s (prof_id p)"
proof -
  obtain k where ok: "movie_ok R p sess (s, idle_tally n k)"
    and used: "pid_used R s (prof_id p) = int k + (if 0 < n then 1 else 0)"
    using redis.idle_tally_ok [OF assms(1,4-6)] by blast
  have up: "(idle_tally n k)\<lparr>playing := playing (idle_tally n k) + 1\<rparr> = idle_tally (n + 1) k"
    "(idle_tally (n + 1) k)\<lparr>playing := n\<rparr> = idle_tally n k" "playing (idle_tally (n + 1) k) = Suc n"
    by (simp_all add: idle_tally_def)
  note run = redis.stream_steps [OF assms(1) ok assms(2,7-9), unfolded up]
  note ok' = redis.movie_run_ok [OF assms(1) run ok assms(2)]
  show ?thesis
  proof (cases a)
    case (Playing x i rg rp)
    have who: "x = sess" "i = prof_id p"
      using redis.playing_answer [OF assms(1,7,8) ok assms(2)] assms(9) Playing by blast+
    have ok1: "movie_ok R p sess (s', idle_tally (n + 1) k)" using ok' Playing by simp
    from redis.end_stream_steps [OF assms(1) ok1 up(3) assms(3,2)]
    have "movie_ok R p sess (snd (end_movie_stream R t sess (prof_id p) signalled s'), idle_tally n k)"
      using redis.movie_run_ok [OF assms(1) _ ok1 assms(2)] unfolding up by blast
    from redis.playing_tally [OF assms(1) this] redis.playing_tally [OF assms(1) ok1] used who Playing show ?thesis
      by (simp add: Let_def)
  qed (use redis.playing_tally [OF assms(1)] ok' used in auto)
qed

end
