(* ===== verification/Vod_Bytes.thy ===== *)
theory Vod_Bytes
  imports Vod_Streams "HOL-Library.Sublist"
begin

text \<open>
  The bytes of a movie's stream over interrupted connections, the ranges asked of the provider, the
  idle session a request finds and the profile it is given.
\<close>

section \<open>Ranges\<close>

declare remove_text.simps [simp del]

lemma cut_free: "CHR ''b'' \<notin> set x \<Longrightarrow> cut ''bytes='' (x @ y) = map_option (\<lambda>(b, a). (x @ b, a)) (cut ''bytes='' y)"
  by (induction x) (auto simp: option.map_comp comp_def case_prod_unfold option.map_id0 option.map_ident)

lemma cut_none: "CHR ''b'' \<notin> set x \<Longrightarrow> cut ''bytes='' x = None"
  using cut_free [of x "[]"] by simp

lemma remove_none: "CHR ''b'' \<notin> set x \<Longrightarrow> remove_text ''bytes='' x = x"
  by (subst remove_text.simps) (simp add: cut_none)

lemma remove_free:
  assumes "CHR ''b'' \<notin> set x"
  shows "remove_text ''bytes='' (x @ y) = x @ remove_text ''bytes='' y"
proof (cases "cut ''bytes='' y")
  case None
  then show ?thesis
    using remove_text.simps [of "''bytes=''" y] remove_text.simps [of "''bytes=''" "x @ y"] cut_free [OF assms, of y] by simp
next
  case (Some ba)
  obtain b a where ba: "ba = (b, a)" by fastforce
  have "length a < length y" using cut_length [of "''bytes=''" y b a] Some ba by simp
  then show ?thesis
    using remove_text.simps [of "''bytes=''" y] remove_text.simps [of "''bytes=''" "x @ y"] cut_free [OF assms, of y] Some ba by simp
qed

lemma remove_prefix: "remove_text ''bytes='' (''bytes='' @ s) = remove_text ''bytes='' s"
  using remove_text.simps [of "''bytes=''" "''bytes='' @ s"] by simp

lemmas remove_prefix_simp [simp] = remove_prefix [simplified]

lemma dec_no_b: "CHR ''b'' \<notin> set (dec i)"
proof -
  have "\<not> is_digit (CHR ''b'')" by (simp add: is_digit_def)
  then show ?thesis using nat_dec_digits by (auto simp: dec_def)
qed

lemma digits_val_nonneg: "digits_val acc s = Some n \<Longrightarrow> 0 \<le> acc \<Longrightarrow> 0 \<le> n"
  by (induction acc s rule: digits_val.induct) (auto simp: digit_val_def is_digit_def split: if_splits)

lemma parse_int_nonneg: "parse_int s = Some n \<Longrightarrow> CHR ''-'' \<notin> set s \<Longrightarrow> 0 \<le> n"
proof -
  have "set (strip s) \<subseteq> set s"
    by (auto simp: strip_def lstrip_def dest!: set_dropWhileD)
  then show "parse_int s = Some n \<Longrightarrow> CHR ''-'' \<notin> set s \<Longrightarrow> 0 \<le> n"
    by (auto simp: parse_int_def digit_val_def is_digit_def split: list.splits if_splits dest!: digits_val_nonneg)
qed

lemma split_first_no: "split_first c s = Some (a, b) \<Longrightarrow> c \<notin> set a" "split_first c s = None \<Longrightarrow> c \<notin> set s"
  by (induction s arbitrary: a) (auto split: if_splits)

lemma range_start_byte_nonneg: "0 \<le> range_start_byte h"
  by (auto simp: range_start_byte_def Let_def dest: split_first_no parse_int_nonneg split: option.splits if_splits)

text \<open>A resumed range starts where it was asked to.\<close>

lemma resumed_start:
  assumes "0 \<le> off"
  shows "range_start_byte (Some (resume_range_header h off)) = off"
proof -
  obtain e where e: "resume_range_header h off = ''bytes='' @ dec off @ CHR ''-'' # e" by (simp add: resume_range_header_def)
  have "remove_text ''bytes='' (''bytes='' @ dec off @ CHR ''-'' # e) = dec off @ CHR ''-'' # remove_text ''bytes='' e"
    using remove_free [of "dec off @ ''-''" e] dec_no_b by simp
  then show ?thesis
    using assms by (simp add: range_start_byte_def text_or_none_def Let_def e split_first_append [OF dec_no_dash])
qed

lemma validate_parts:
  assumes "0 \<le> a" "CHR ''b'' \<notin> set e"
  shows "validate_range_header (''bytes='' @ dec a @ CHR ''-'' # e) size_of =
    (if size_of \<le> a then None
     else case int_or (size_of - 1) (\<lambda>e. if size_of \<le> e then size_of - 1 else e) e of
            None \<Rightarrow> Some (''bytes='' @ dec a @ CHR ''-'' # e)
          | Some end_at \<Rightarrow> if end_at < a then None else Some (''bytes='' @ dec a @ ''-'' @ dec end_at))"
proof -
  have "remove_text ''bytes='' (''bytes='' @ dec a @ CHR ''-'' # e) = dec a @ CHR ''-'' # e"
    using remove_none [of "dec a @ CHR ''-'' # e"] dec_no_b assms(2) by simp
  then show ?thesis
    using assms(1) by (simp add: validate_range_header_def split_first_append [OF dec_no_dash] split: option.split)
qed

text \<open>
  C20: Once a movie's size is known, a range a client asks for is turned into one that lies in the movie
  before the provider is asked, and refused exactly when it starts behind the end or ends before it
  starts. (A range of the last bytes, without a start, is taken as one from the start.)
\<close>

theorem range_asked_in_movie:
  assumes "0 \<le> a" "0 < size_of" "0 \<le> b"
  shows "validate_range_header (client_range_text a None) size_of =
      (if a < size_of then Some (client_range_text a (Some (size_of - 1))) else None) \<and>
    validate_range_header (client_range_text a (Some b)) size_of =
      (if a < size_of \<and> a \<le> b then Some (client_range_text a (Some (min b (size_of - 1)))) else None) \<and>
    validate_range_header (''bytes=-'' @ dec b) size_of = Some (client_range_text 0 (Some (min b (size_of - 1))))"
proof -
  have "remove_text ''bytes='' (''bytes='' @ CHR ''-'' # dec b) = CHR ''-'' # dec b"
    using remove_none [of "CHR ''-'' # dec b"] dec_no_b by simp
  then have "validate_range_header (''bytes=-'' @ dec b) size_of = Some (client_range_text 0 (Some (min b (size_of - 1))))"
    using assms by (simp add: validate_range_header_def client_range_text_def min_def)
  then show ?thesis
    using assms validate_parts [of a "[]"] validate_parts [OF _ dec_no_b, of a b]
    by (auto simp: client_range_text_def min_def)
qed

section \<open>The bytes\<close>

lemma send_chunks_sent:
  "send_chunks stop cs n sent fails = (stopped, n', sent', fails') \<Longrightarrow>
   \<exists>ys. sent' = sent @ ys \<and> prefix ys (concat cs) \<and> (\<not> stopped \<longrightarrow> ys = concat cs \<and> fails' = (if ys = [] then fails else 0))"
proof (induction cs arbitrary: n sent fails)
  case (Cons c cs)
  consider "c = []" | "c \<noteq> []" "(n + 1) mod 100 = 0 \<and> stop (n + 1)" | "c \<noteq> []" "\<not> ((n + 1) mod 100 = 0 \<and> stop (n + 1))"
    by blast
  then show ?case
  proof cases
    case 1
    then show ?thesis using Cons by simp
  next
    case 2
    then show ?thesis using Cons.prems by auto
  next
    case 3
    then have "send_chunks stop cs (n + 1) (sent @ c) 0 = (stopped, n', sent', fails')"
      using Cons.prems unfolding send_chunks.simps(2) by (simp only: if_False)
    from Cons.IH [OF this] obtain ys where "sent' = (sent @ c) @ ys" "prefix ys (concat cs)"
      "\<not> stopped \<longrightarrow> ys = concat cs \<and> fails' = 0" by auto
    then show ?thesis using 3(1) by (intro exI [where x = "c @ ys"]) auto
  qed
qed simp

text \<open>What a connection brings of the movie: a part of it, from where it was asked to start.\<close>

definition from_where_asked :: "'b list \<Rightarrow> string option \<Rightarrow> 'b connection \<Rightarrow> bool" where
  "from_where_asked movie asked k \<longleftrightarrow> prefix (concat (chunks k)) (drop (nat (range_start_byte asked)) movie)"

lemma prefix_continues:
  assumes "prefix sent (drop i xs)" "prefix ys (drop (i + length sent) xs)"
  shows "prefix (sent @ ys) (drop i xs)"
proof -
  obtain zs where zs: "drop i xs = sent @ zs" using assms(1) by (auto simp: prefix_def)
  then have "drop (i + length sent) xs = zs" by (metis add.commute append_eq_conv_conj drop_drop)
  with assms(2) zs show ?thesis by simp
qed

lemma stream_bytes_unbroken:
  assumes "stream_bytes stop header ks n sent fails = Some (asked, out, how)"
    and "list_all2 (from_where_asked movie) (r # map Some asked) (take (Suc (length asked)) ks)"
    and "range_start_byte r = range_start_byte header + int (length sent)"
    and "prefix sent (drop (nat (range_start_byte header)) movie)"
  shows "prefix out (drop (nat (range_start_byte header)) movie)"
  using assms
proof (induction stop header ks n sent fails arbitrary: asked r rule: stream_bytes.induct)
  case (2 stop header k ks n sent fails)
  obtain stopped n1 sent1 fails1 where s: "send_chunks stop (chunks k) n sent fails = (stopped, n1, sent1, fails1)"
    using prod_cases4 by blast
  obtain ys where ys: "sent1 = sent @ ys" "prefix ys (concat (chunks k))" using send_chunks_sent [OF s] by blast
  have "prefix ys (drop (nat (range_start_byte header) + length sent) movie)"
    using 2(3,4) ys(2) range_start_byte_nonneg [of header]
    by (auto simp: from_where_asked_def nat_add_distrib intro: prefix_order.trans)
  then have sent1: "prefix sent1 (drop (nat (range_start_byte header)) movie)"
    using prefix_continues [OF 2(5)] ys(1) by simp
  show ?case
  proof (cases "stopped \<or> \<not> interrupted k \<or> MAX_CONSECUTIVE_UPSTREAM_RETRIES < fails1 + 1")
    case True
    then show ?thesis using 2(2) s sent1 by (auto split: if_splits)
  next
    case False
    let ?a = "resume_range_header header (range_start_byte header + int (length sent1))"
    obtain rs where rs: "asked = ?a # rs" "stream_bytes stop header ks n1 sent1 (fails1 + 1) = Some (rs, out, how)"
      using 2(2) s False by (auto simp: Let_def)
    have "list_all2 (from_where_asked movie) (Some ?a # map Some rs) (take (Suc (length rs)) ks)"
      using 2(3) rs(1) by simp
    from 2(1) [OF s [symmetric] refl refl refl _ _ _ refl rs(2) this] False sent1 range_start_byte_nonneg [of header]
    show ?thesis by (simp add: resumed_start)
  qed
qed simp

text \<open>The last three connections of a stream that was given up brought nothing.\<close>

lemma stream_given_up:
  assumes "stream_bytes stop header ks n sent fails = Some (asked, out, Given_up_upstream)"
  shows "3 \<le> fails + length asked \<and> (\<forall>i \<le> length asked. length asked < i + 3 \<longrightarrow> concat (chunks (ks ! i)) = [])"
  using assms
proof (induction stop header ks n sent fails arbitrary: asked rule: stream_bytes.induct)
  case (2 stop header k ks n sent fails)
  obtain stopped n1 sent1 fails1 where s: "send_chunks stop (chunks k) n sent fails = (stopped, n1, sent1, fails1)"
    using prod_cases4 by blast
  have f: "\<not> stopped \<Longrightarrow> fails1 = (if concat (chunks k) = [] then fails else 0)" using send_chunks_sent [OF s] by auto
  have ns: "\<not> stopped" "interrupted k" using 2(2) s by (auto split: if_splits)
  show ?case
  proof (cases "MAX_CONSECUTIVE_UPSTREAM_RETRIES < fails1 + 1")
    case True
    then show ?thesis using 2(2) s ns f by (auto simp: MAX_CONSECUTIVE_UPSTREAM_RETRIES_def split: if_splits)
  next
    case False
    let ?a = "resume_range_header header (range_start_byte header + int (length sent1))"
    obtain rs where rs: "asked = ?a # rs" "stream_bytes stop header ks n1 sent1 (fails1 + 1) = Some (rs, out, Given_up_upstream)"
      using 2(2) s False ns by (auto simp: Let_def)
    from 2(1) [OF s [symmetric] refl refl refl _ _ _ refl rs(2)] False ns
    have ih: "3 \<le> fails1 + 1 + length rs" "\<forall>i \<le> length rs. length rs < i + 3 \<longrightarrow> concat (chunks (ks ! i)) = []" by simp_all
    have "concat (chunks ((k # ks) ! i)) = []" if "i \<le> length asked" "length asked < i + 3" for i
      using that ih f ns(1) rs(1) by (cases i) (auto split: if_splits)
    then show ?thesis using ih(1) f ns(1) rs(1) by (auto split: if_splits)
  qed
qed simp

lemma stream_last:
  assumes "stream_bytes stop header ks n sent fails = Some (asked, out, how)" "how \<noteq> Stopped_by_signal"
    "range_start_byte r = range_start_byte header + int (length sent)"
  shows "\<exists>before. out = before @ concat (chunks (ks ! length asked)) \<and>
    range_start_byte (last (r # map Some asked)) = range_start_byte header + int (length before)"
  using assms
proof (induction stop header ks n sent fails arbitrary: asked r rule: stream_bytes.induct)
  case (2 stop header k ks n sent fails)
  obtain stopped n1 sent1 fails1 where s: "send_chunks stop (chunks k) n sent fails = (stopped, n1, sent1, fails1)"
    using prod_cases4 by blast
  have ns: "\<not> stopped" using 2(2,3) s by (auto split: if_splits)
  have ys: "sent1 = sent @ concat (chunks k)" using send_chunks_sent [OF s] ns by auto
  show ?case
  proof (cases "\<not> interrupted k \<or> MAX_CONSECUTIVE_UPSTREAM_RETRIES < fails1 + 1")
    case True
    then show ?thesis using 2(2,4) s ns ys by (auto split: if_splits)
  next
    case False
    let ?a = "resume_range_header header (range_start_byte header + int (length sent1))"
    obtain rs where rs: "asked = ?a # rs" "stream_bytes stop header ks n1 sent1 (fails1 + 1) = Some (rs, out, how)"
      using 2(2) s False ns by (auto simp: Let_def)
    from 2(1) [OF s [symmetric] refl refl refl _ _ _ refl rs(2) 2(3), of "Some ?a"] False ns range_start_byte_nonneg [of header] rs(1)
    show ?thesis by (simp add: resumed_start)
  qed
qed simp

text \<open>
  C19: However often the provider's connections of a movie's stream are interrupted, the viewer gets one
  unbroken run of the movie's bytes from where it asked: where each connection brings a part from the
  byte it was asked for, no byte is sent twice and none is left out. A stream that ends by itself with a
  connection that brought all the rest has sent everything, and one that was given up asked at least
  three times again and got nothing at the last three.
\<close>

theorem movie_bytes_unbroken:
  assumes "stream_bytes stop header ks 0 [] 0 = Some (asked, out, how)"
    and "list_all2 (from_where_asked movie) (header # map Some asked) (take (Suc (length asked)) ks)"
  shows "prefix out (drop (nat (range_start_byte header)) movie) \<and>
    (how = Finished \<and>
     concat (chunks (ks ! length asked)) = drop (nat (range_start_byte (last (header # map Some asked)))) movie \<longrightarrow>
       out = drop (nat (range_start_byte header)) movie) \<and>
    (how = Given_up_upstream \<longrightarrow>
       3 \<le> length asked \<and> (\<forall>i \<le> length asked. length asked < i + 3 \<longrightarrow> concat (chunks (ks ! i)) = []))"
proof (intro conjI impI)
  show pre: "prefix out (drop (nat (range_start_byte header)) movie)"
    by (rule stream_bytes_unbroken [OF assms]) simp_all
  assume f: "how = Finished \<and>
     concat (chunks (ks ! length asked)) = drop (nat (range_start_byte (last (header # map Some asked)))) movie"
  obtain before where b: "out = before @ concat (chunks (ks ! length asked))"
    "range_start_byte (last (header # map Some asked)) = range_start_byte header + int (length before)"
    using stream_last [OF assms(1), of header] f by auto
  have "nat (range_start_byte (last (header # map Some asked))) = nat (range_start_byte header) + length before"
    using b(2) range_start_byte_nonneg [of header] by (simp add: nat_add_distrib)
  with f b(1) have out: "out = before @ drop (nat (range_start_byte header) + length before) movie" by simp
  obtain zs where zs: "drop (nat (range_start_byte header)) movie = out @ zs" using pre by (auto simp: prefix_def)
  have "drop (length before) (drop (nat (range_start_byte header)) movie) = drop (nat (range_start_byte header) + length before) movie @ zs"
    by (simp only: zs out) simp
  then have "zs = []" by (simp add: add.commute)
  then show "out = drop (nat (range_start_byte header)) movie" using zs by simp
next
  assume "how = Given_up_upstream"
  with assms(1) show "3 \<le> length asked" "\<forall>i \<le> length asked. length asked < i + 3 \<longrightarrow> concat (chunks (ks ! i)) = []"
    using stream_given_up [of stop header ks 0 "[]" 0 asked out] by simp_all
qed

section \<open>The idle session found\<close>

lemma better_match_trans: "better_match a b \<Longrightarrow> better_match b c \<Longrightarrow> better_match a c"
  "\<not> better_match b a \<Longrightarrow> better_match c a \<Longrightarrow> better_match c b"
  by (auto simp: better_match_def)

lemma best_match_best:
  "best_match ms = Some sess \<Longrightarrow> \<exists>a. (sess, a) \<in> set ms \<and> (\<forall>(x, b) \<in> set ms. \<not> better_match b a)"
proof (induction ms rule: best_match.induct)
  case (2 s a)
  then show ?case by (auto simp: better_match_def)
next
  case (3 s1 a s2 b ms)
  show ?case
  proof (cases "better_match b a")
    case True
    then obtain c where c: "(sess, c) \<in> set ((s2, b) # ms)" "\<forall>(x, d) \<in> set ((s2, b) # ms). \<not> better_match d c"
      using 3 by auto
    then have "\<not> better_match a c" using True better_match_trans(1) [of b a c] by auto
    with c show ?thesis by (intro exI [where x = c]) auto
  next
    case False
    then obtain c where c: "(sess, c) \<in> set ((s1, a) # ms)" "\<forall>(x, d) \<in> set ((s1, a) # ms). \<not> better_match d c"
      using 3 by auto
    then have "\<not> better_match b c" using False by (auto simp: better_match_def)
    with c show ?thesis by (intro exI [where x = c]) auto
  qed
qed simp

text \<open>
  The idle session a request without one of its own is given back plays nothing, is of the same
  movie, and speaks for the same viewer: by its address, by its agent, or by its times; and none of
  the sessions found does so better, or as well and later.
\<close>

theorem idle_session_is_the_viewers:
  assumes "find_matching_idle_session R rq found s = Some sess"
  shows "sess \<in> set found \<and> \<not> has_active_streams R sess s \<and>
    (let d = r_hash R s (Vod_connection sess) in
       text_or [] (dict_text d ''content_obj_type'') = mr_content_type rq \<and>
       text_or [] (dict_text d ''content_uuid'') = mr_uuid rq \<and> 13 \<le> session_score d rq) \<and>
    (\<exists>a. session_matches R rq s sess = Some a \<and>
       (\<forall>x \<in> set found. \<forall>b. session_matches R rq s x = Some b \<longrightarrow> \<not> better_match b a))"
proof -
  obtain a where a: "(sess, a) \<in> set (List.map_filter (\<lambda>x. map_option (Pair x) (session_matches R rq s x)) found)"
    and best: "\<forall>(x, b) \<in> set (List.map_filter (\<lambda>x. map_option (Pair x) (session_matches R rq s x)) found). \<not> better_match b a"
    using best_match_best assms unfolding find_matching_idle_session_def by blast
  have m: "sess \<in> set found" "session_matches R rq s sess = Some a" using a by (auto simp: map_filter_member)
  moreover have "\<not> better_match b a" if "x \<in> set found" "session_matches R rq s x = Some b" for x b
  proof -
    have "(x, b) \<in> set (List.map_filter (\<lambda>x. map_option (Pair x) (session_matches R rq s x)) found)"
      unfolding map_filter_member using that by (intro bexI [where x = x]) simp_all
    then show ?thesis using best by blast
  qed
  ultimately show ?thesis by (auto simp: session_matches_def Let_def split: if_splits)
qed

text \<open>
  A movie has no times, so the absent times of every request for it agree: an idle session of a movie
  speaks for any viewer, whatever the address, the agent and the login.
\<close>

lemma idle_movie_matches_anyone:
  assumes "d = r_hash R s (Vod_connection sess)" "d \<noteq> []" "\<not> has_active_streams R sess s"
    "text_or [] (dict_text d ''content_obj_type'') = mr_content_type rq" "text_or [] (dict_text d ''content_uuid'') = mr_uuid rq"
    "text_or [] (dict_text d ''utc_start'') = []" "text_or [] (dict_text d ''utc_end'') = []" "text_or [] (dict_text d ''offset'') = []"
    "mr_utc_start rq = None" "mr_utc_end rq = None" "mr_offset rq = None" "dict_real d 0 ''last_activity'' = Some t"
  shows "session_matches R rq s sess = Some (session_score d rq, t)"
proof -
  have "13 \<le> session_score d rq" using assms(6-11) by (simp add: session_score_def Let_def text_or_def)
  then show ?thesis using assms(1-5,12) by (simp add: session_matches_def Let_def)
qed

text \<open>
  The answer's headers take the client's end as it is: past the end of the movie they promise bytes
  that do not come, since the range asked of the provider ends with the movie.
\<close>

lemma answer_promises_too_much:
  assumes "0 \<le> a" "a < size_of" "size_of \<le> b"
  shows "movie_length_headers (Some (client_range_text a (Some b))) (Some (dec size_of)) (Some (dec size_of)) =
      Some \<lparr>lh_length = dec (b - a + 1), lh_range = Some (''bytes '' @ dec a @ ''-'' @ dec b @ ''/'' @ dec size_of)\<rparr>"
    and "validate_range_header (client_range_text a (Some b)) size_of = Some (client_range_text a (Some (size_of - 1)))"
proof -
  have "remove_text ''bytes='' (''bytes='' @ dec a @ CHR ''-'' # dec b) = dec a @ CHR ''-'' # dec b"
    using remove_none [of "dec a @ CHR ''-'' # dec b"] dec_no_b by simp
  then show "movie_length_headers (Some (client_range_text a (Some b))) (Some (dec size_of)) (Some (dec size_of)) =
      Some \<lparr>lh_length = dec (b - a + 1), lh_range = Some (''bytes '' @ dec a @ ''-'' @ dec b @ ''/'' @ dec size_of)\<rparr>"
    using assms(1)
    by (simp add: movie_length_headers_def client_range_text_def text_or_none_def text_or_def split_first_append [OF dec_no_dash])
  show "validate_range_header (client_range_text a (Some b)) size_of = Some (client_range_text a (Some (size_of - 1)))"
    using assms validate_parts [OF _ dec_no_b, of a b] by (simp add: client_range_text_def)
qed

end
