(* ===== verification/Vod_Cases.thy ===== *)
theory Vod_Cases
  imports Vod_Facts Vod_Bytes
begin

text \<open>
  What a session keeps of what is written to it, a session that loses its slot, and the theorems on
  movies at concrete stores.
\<close>

section \<open>A session in Redis\<close>

text \<open>
  C21: A session written to Redis is read back as it was written, an empty text as an absent one, by any
  worker and at any time; and no later save of it, however old the copy saved, changes the number of
  its streams or brings back a session that is gone.
\<close>

theorem saved_session_read_back:
  assumes "redis R" "r_hash R s (Vod_connection sess) = []"
  shows "get_connection_state R t sess (snd (save_connection_state R sess st True s)) = Some (normal_state st) \<and>
    active_field R sess (snd (save_connection_state R sess st' False s')) = active_field R sess s' \<and>
    (\<not> r_exists R s' (Vod_connection sess) \<longrightarrow> save_connection_state R sess st' False s' = (False, s'))"
proof (intro conjI impI)
  show "get_connection_state R t sess (snd (save_connection_state R sess st True s)) = Some (normal_state st)"
    by (rule redis.read_back [OF assms])
  show gone: "save_connection_state R sess st' False s' = (False, s')" if "\<not> r_exists R s' (Vod_connection sess)"
    using that by (simp add: save_connection_state_def Let_def)
  show "active_field R sess (snd (save_connection_state R sess st' False s')) = active_field R sess s'"
    using gone redis.save_meta_hash [OF assms(1), of s' sess st' "''active_streams''"]
    by (cases "r_exists R s' (Vod_connection sess)") (simp_all add: active_field_def)
qed

section \<open>A slot lost\<close>

context redis
begin

lemma counted_twice:
  assumes "session_ok R sess pid 0 s" "r_hash R s (Vod_connection sess) \<noteq> []" "increment_active_streams R t sess s = (n, s1)"
  obtains s2 where "increment_active_streams R t sess s1 = (2, s2)" "n = 1" "session_ok R sess pid 1 s1"
    "session_ok R sess pid 2 s2" "same_pool R s s2"
proof -
  have n: "n = 1" and s1: "s1 = set_active R t sess 1 s"
    using assms(3) increment_cases [OF assms(1), of t] assms(2) by auto
  have ok: "session_ok R sess pid 1 s1" unfolding s1 by (rule set_active_ok [OF assms(1,2)])
  have h: "r_hash R s1 (Vod_connection sess) \<noteq> []" unfolding s1 by (rule set_active_nonempty)
  have "increment_active_streams R t sess s1 = (2, set_active R t sess 2 s1)"
    using increment_cases [OF ok, of t] h by simp
  moreover have "same_pool R s (set_active R t sess 2 s1)"
    unfolding s1 by (rule same_pool_trans [OF set_active_same set_active_same])
  ultimately show thesis using that n ok set_active_ok [OF ok h] by blast
qed

lemma last_one_ends:
  assumes "pool_ok R s" "session_ok R sess pid 1 s" "0 < pid_used R s pid" "pid \<noteq> 0"
  shows "pid_used R (snd (end_movie_stream R t sess pid signalled s)) pid = pid_used R s pid - 1"
proof -
  let ?s0 = "if signalled then r_del R s (Vod_stop sess) else s"
  have same: "same_pool R s ?s0" and ok: "session_ok R sess pid 1 ?s0" using assms(2) by simp_all
  obtain c rm s1 where d: "decrement_active_streams_and_check R t sess ?s0 = ((c, rm), s1)" by (metis prod.collapse)
  have o: "c" "\<not> rm" "same_pool R ?s0 s1" using counted_out [OF ok _ d] by simp_all
  note all = same_pool_trans [OF same o(3)]
  have "snd (end_movie_stream R t sess pid signalled s) = release_profile_slot R pid s1"
    using d o(1,2) assms(4) by (simp add: end_movie_stream_def)
  then show ?thesis
    using slot_released [of s1 pid] assms(1,3) same_pool_ok [OF all] same_pool_used [OF all] by simp
qed

end

text \<open>
  C18: Where the request that made an idle session busy is refused the session's slot after another
  request joined, it counts itself out and answers that there are too many, and the other plays on
  without a slot; and when that one ends it gives back a slot that was somebody else's.
\<close>

theorem refused_claim_takes_anothers_slot:
  assumes "redis R" "0 < max_streams p" "prof_id p \<noteq> 0" "pool_ok R s" "session_ok R sess (prof_id p) 0 s"
    "r_hash R s (Vod_connection sess) \<noteq> []" "0 < pid_used R s (prof_id p)"
    "increment_active_streams R (now e) sess s = (n, s1)"
    "get_connection_state R (now e) sess s1 = Some st"
    "join_existing R L e w p sess st 0 s1 = (joined, s2)"
    "\<not> has_room R L e p 0 None s2"
    "claim_existing R L e p sess st n s2 = (first, s3)"
  shows "n = 1 \<and> joined = Inr \<lparr>rs_session = sess, rs_profile = Row p, rs_slot = False\<rparr> \<and> first = Inl Too_many \<and>
    active_field R sess s3 = Some 1 \<and> pid_used R s3 (prof_id p) = pid_used R s (prof_id p) \<and>
    pid_used R (snd (end_movie_stream R t sess (prof_id p) signalled s3)) (prof_id p) = pid_used R s (prof_id p) - 1"
proof -
  let ?pid = "prof_id p"
  obtain s1' where i2: "increment_active_streams R (now e) sess s1 = (2, s1')" and one: "n = 1"
    and ok1: "session_ok R sess ?pid 1 s1" and ok1': "session_ok R sess ?pid 2 s1'" and pool1: "same_pool R s s1'"
    by (rule redis.counted_twice [OF assms(1,5,6,8)])
  let ?f = "\<lambda>x. x\<lparr>vs_activity := now e, vs_worker := Some w\<rparr>"
  have row: "resolve_effective_profile R e sess (Some st) p rw s' = (Row p, s')" for rw s'
    using redis.on_own_profile [OF assms(1) ok1, of e "now e"] assms(9) by simp
  have joined: "joined = Inr \<lparr>rs_session = sess, rs_profile = Row p, rs_slot = False\<rparr>" "s2 = update_under_lock R (now e) sess ?f s1'"
    using assms(10) i2 row by (auto simp: join_existing_def claim_existing_def)
  have ok2: "session_ok R sess ?pid 2 s2" "same_pool R s1' s2"
    using redis.update_ok [OF assms(1) ok1', of ?f "now e"] joined(2) by auto
  have pool2: "same_pool R s s2" by (rule same_pool_trans [OF pool1 ok2(2)])
  obtain ok s2' where r: "check_and_reserve_profile_slot R L e p s2 = (ok, s2')" by (metis prod.collapse)
  have refused: "\<not> ok" using r assms(11) by (auto simp: check_and_reserve_profile_slot_def Let_def case_prod_unfold redis.reserve_ok [OF assms(1)])
  have pool_ok2: "pool_ok R s2" using same_pool_ok [OF pool2] assms(4) by simp
  note sr = redis.slot_reserved [OF assms(1) r pool_ok2 assms(2)]
  have ok2': "session_ok R sess ?pid 2 s2'" using sr(2) ok2(1) by simp
  obtain c rm s3' where d: "decrement_active_streams_and_check R (now e) sess s2' = ((c, rm), s3')" by (metis prod.collapse)
  have first: "first = Inl Too_many" "s3 = s3'"
    using assms(12) r refused row d one by (auto simp: claim_existing_def)
  have ok3: "session_ok R sess ?pid 1 s3" "same_pool R s2' s3"
    using redis.counted_out [OF assms(1) ok2' _ d] first by auto
  have used3: "pid_used R s3 ?pid = pid_used R s ?pid" and pool3: "pool_ok R s3"
    using same_pool_used [OF ok3(2)] same_pool_used [OF pool2] sr(1,3) refused same_pool_ok [OF ok3(2)] by simp_all
  have "active_field R sess s3 = Some 1" by (rule redis.session_active [OF assms(1) ok3(1)])
  then show ?thesis
    using one joined(1) first(1) used3 redis.last_one_ends [OF assms(1) pool3 ok3(1) _ assms(3)] assms(7) by simp
qed


section \<open>The theorems at work\<close>

context redis
begin

text \<open>A movie nobody watches, with a slot free and a provider that answers, plays.\<close>

lemma fresh_movie_plays:
  assumes "find_matching_idle_session R rq found s = None" "r_hash R s (Vod_connection (mr_session rq)) = []"
    "has_room R L e p 0 None s" "r_get R s (vod_lock_key (mr_session rq)) = None" "mr_range rq = None"
    "prov (mr_url rq) None True = Some rp" "rp_status rp < 400"
  shows "fst (stream_content_with_session R L e prov guess w p rq found s) = Playing (mr_session rq) (prof_id p) None rp"
proof -
  let ?sess = "mr_session rq"
  obtain s1 where r: "check_and_reserve_profile_slot R L e p s = (True, s1)"
    and s1: "r_hash R s1 (Vod_connection ?sess) = []" "r_get R s1 (vod_lock_key ?sess) = None"
    using assms(2-4) reserved_keeps [of "Vod_connection ?sess" L e p 0 None s] reserved_keeps [of "vod_lock_key ?sess" L e p 0 None s]
    by (auto simp: check_and_reserve_profile_slot_def Let_def case_prod_unfold reserve_ok vod_lock_key_def)
  let ?s2 = "snd (acquire_vod_lock R ?sess s1)"
  let ?new = "new_vod_state (now e) w ?sess (prof_id p) rq"
  let ?s3 = "release_vod_lock R ?sess (snd (save_connection_state R ?sess ?new True ?s2))"
  have "fst (acquire_vod_lock R ?sess s1)" using s1(2) by (simp add: acquire_vod_lock_def r_setnx_def)
  moreover have "get_connection_state R t ?sess ?s2 = None" for t using s1(1) by (simp add: get_connection_state_def)
  ultimately have c: "create_vod_connection R (now e) w ?sess (prof_id p) rq s1 = (Created, ?s3)"
    by (simp add: create_vod_connection_def case_prod_unfold Let_def)
  have "r_hash R ?s3 (Vod_connection ?sess) = r_hash R (snd (save_connection_state R ?sess ?new True ?s2)) (Vod_connection ?sess)"
    by (simp add: release_vod_lock_def)
  then have g: "get_connection_state R (now e) ?sess ?s3 = Some (normal_state ?new)"
    using read_back [of ?s2 ?sess "now e" ?new] s1(1) by (simp add: get_connection_state_def)
  have "reserve_movie R L e w p rq found s = (Inr \<lparr>rs_session = ?sess, rs_profile = Row p, rs_slot = True\<rparr>, ?s3)"
    using assms(1,2) r c by (simp add: reserve_movie_def claim_session_def get_connection_state_def open_new_session_def)
  moreover have "fst (get_vod_stream R prov guess (now e) ?sess None ?s3) = Upstream None rp"
    using assms(6,7) g by (simp add: get_vod_stream_def Let_def provider_range_def text_or_none_def ask_provider_def
        normal_state_def new_vod_state_def case_prod_unfold)
  ultimately show ?thesis
    using assms(5) by (auto simp: stream_content_with_session_def Let_def split: prod.split)
qed

end

definition ex_request :: movie_request where
  "ex_request = \<lparr>mr_session = ''m1'', mr_content_type = ''movie'', mr_uuid = ''film'', mr_name = ''Film'',
     mr_url = ''http://p/film.mp4'', mr_headers = ''{}'', mr_ip = ''10.0.0.5'', mr_agent = ''VLC'', mr_utc_start = None,
     mr_utc_end = None, mr_offset = None, mr_range = None, mr_user = Some 3\<rparr>"

definition ex_reply :: vod_reply where
  "ex_reply = \<lparr>rp_status = 200, rp_range = None, rp_length = Some ''6'', rp_type = Some ''video/mp4'', rp_url = ''http://cdn/film.mp4''\<rparr>"

definition ex_played :: "movie_answer \<times> bool \<times> mem" where
  "ex_played = stream_content_with_session mem_redis ex_logins ex_env (\<lambda>u r f. Some ex_reply) (\<lambda>u. None) ''w1''
     ex_profile ex_request [] mem_empty"

theorem movie_request_slots_witness:
  "active_field mem_redis ''m1'' (snd (snd ex_played)) = Some 1 \<and> pid_used mem_redis (snd (snd ex_played)) 1 = 1 \<and>
   pid_used mem_redis (snd (end_movie_stream mem_redis 105 ''m1'' 1 False (snd (snd ex_played)))) 1 = 0"
proof -
  have "fst ex_played = Playing ''m1'' 1 None ex_reply"
    using mem.fresh_movie_plays [of ex_request "[]" mem_empty ex_logins ex_env ex_profile "\<lambda>u r f. Some ex_reply" ex_reply "\<lambda>u. None" "''w1''"]
    by (simp add: ex_played_def ex_request_def ex_reply_def find_matching_idle_session_def)
  then have p: "stream_content_with_session mem_redis ex_logins ex_env (\<lambda>u r f. Some ex_reply) (\<lambda>u. None) ''w1'' ex_profile
      ex_request [] mem_empty = (Playing ''m1'' 1 None ex_reply, fst (snd ex_played), snd (snd ex_played))"
    by (simp add: ex_played_def [symmetric] prod_eq_iff)
  have s: "session_ok mem_redis ''m1'' (prof_id ex_profile) (int 0) mem_empty" by (simp add: session_ok_def)
  from movie_request_slots [OF mem.redis_axioms _ _ ex_pool_ok s _ _ _ p, of 105 False]
  show ?thesis by (simp add: ex_request_def pid_used_def slots_def Let_def)
qed

definition ex_idle_movie :: mem where
  "ex_idle_movie = mem_empty\<lparr>m_count := (\<lambda>_. 0)(Profile_connections 1 := 2),
     m_hash := [(Vod_connection ''m1'', to_dict ((new_vod_state 100 ''w1'' ''m1'' 1 ex_request)\<lparr>vs_active := 0\<rparr>))]\<rparr>"

lemma ex_idle_movie_facts:
  "map_option (\<lambda>st. (vs_profile st, vs_active st)) (get_connection_state mem_redis 0 ''m1'' ex_idle_movie) = Some (Some 1, 0)"
  "find_matching_idle_session mem_redis ex_request [''m0'', ''m1''] ex_idle_movie = Some ''m1''"
  by code_simp+

theorem movie_slots_exact_witness:
  "pid_used mem_redis (snd (check_and_reserve_profile_slot mem_redis ex_logins ex_env ex_profile mem_empty)) 1 = 1"
proof -
  obtain ok s1 where r: "check_and_reserve_profile_slot mem_redis ex_logins ex_env ex_profile mem_empty = (ok, s1)"
    by (metis prod.collapse)
  have ok: "ok" using r by (auto simp: check_and_reserve_profile_slot_def Let_def case_prod_unfold mem.reserve_ok)
  have s: "session_ok mem_redis ''m1'' (prof_id ex_profile) 0 mem_empty" by (simp add: session_ok_def)
  have "(movie_step mem_redis ex_logins ex_env ex_profile ''m1'')\<^sup>*\<^sup>* (mem_empty, idle_tally 0 0)
      (s1, (idle_tally 0 0)\<lparr>holding := 1\<rparr>)"
    using movie_step.hold [OF r, of "''m1''" "idle_tally 0 0"] ok by (simp add: idle_tally_def r_into_rtranclp)
  from movie_slots_exact [OF mem.redis_axioms _ ex_pool_ok s _ this] r
  show ?thesis by (simp add: idle_tally_def pid_used_def slots_def)
qed

theorem saved_session_read_back_witness:
  "get_connection_state mem_redis 200 ''m1''
     (snd (save_connection_state mem_redis ''m1'' (new_vod_state 100 ''w1'' ''m1'' 1 ex_request) True mem_empty)) =
   Some (new_vod_state 100 ''w1'' ''m1'' 1 ex_request)"
proof -
  have "normal_state (new_vod_state 100 ''w1'' ''m1'' 1 ex_request) = new_vod_state 100 ''w1'' ''m1'' 1 ex_request"
    by (simp add: normal_state_def new_vod_state_def ex_request_def text_or_none_def)
  with saved_session_read_back [OF mem.redis_axioms, of mem_empty "''m1''" 200 "new_vod_state 100 ''w1'' ''m1'' 1 ex_request"]
  show ?thesis by simp
qed

theorem range_asked_in_movie_witness:
  "validate_range_header (client_range_text 2 (Some 9)) 6 = Some (client_range_text 2 (Some 5)) \<and>
   validate_range_header (client_range_text 6 None) 6 = None"
  using range_asked_in_movie [of 2 6 9] range_asked_in_movie [of 6 6 9] by simp

definition ex_connections :: "nat connection list" where
  "ex_connections = [Connection [[2, 3]] True, Connection [] True, Connection [[4], [5, 6]] False]"

lemma ex_stream: "stream_bytes (\<lambda>n. False) (Some ''bytes=1-'') ex_connections 0 [] 0 =
    Some ([''bytes=3-'', ''bytes=3-''], [2, 3, 4, 5, 6], Finished)"
  "list_all2 (from_where_asked [1, 2, 3, 4, 5, 6]) (map Some [''bytes=1-'', ''bytes=3-'', ''bytes=3-'']) ex_connections"
  by code_simp+

theorem movie_bytes_unbroken_witness:
  "prefix [2, 3, 4, 5, 6] (drop (nat (range_start_byte (Some ''bytes=1-''))) [1, 2, 3, 4, 5, 6 :: nat])"
  using movie_bytes_unbroken [OF ex_stream(1), of "[1, 2, 3, 4, 5, 6]"] ex_stream(2) by (simp add: ex_connections_def)

theorem idle_session_is_the_viewers_witness:
  "\<not> has_active_streams mem_redis ''m1'' ex_idle_movie"
  using idle_session_is_the_viewers [OF ex_idle_movie_facts(2)] by simp

subsection \<open>A slot lost\<close>

definition ex_joined :: "(movie_answer + reserved) \<times> mem" where
  "ex_joined =
     (let s1 = snd (increment_active_streams mem_redis 100 ''m1'' ex_idle_movie)
      in join_existing mem_redis ex_logins ex_env ''w1'' ex_profile ''m1'' (the (get_connection_state mem_redis 100 ''m1'' s1)) 0 s1)"

definition ex_lost :: mem where
  "ex_lost =
     (let s1 = snd (increment_active_streams mem_redis 100 ''m1'' ex_idle_movie)
      in snd (claim_existing mem_redis ex_logins ex_env ex_profile ''m1'' (the (get_connection_state mem_redis 100 ''m1'' s1)) 1
           (snd ex_joined)))"

lemma ex_idle_movie_ok:
  "pool_ok mem_redis ex_idle_movie" "session_ok mem_redis ''m1'' 1 0 ex_idle_movie" "pid_used mem_redis ex_idle_movie 1 = 2"
proof -
  show "pool_ok mem_redis ex_idle_movie"
    by (auto simp: pool_ok_def slots_def ex_idle_movie_def mem_redis_def mem_empty_def credential_key.simps)
  obtain st where "get_connection_state mem_redis 0 ''m1'' ex_idle_movie = Some st" "vs_profile st = Some 1" "vs_active st = 0"
    using ex_idle_movie_facts(1) by auto
  then show "session_ok mem_redis ''m1'' 1 0 ex_idle_movie"
    by (auto simp: session_ok_def get_connection_state_def Let_def ex_idle_movie_def mem_redis_def mem_empty_def split: if_splits)
  show "pid_used mem_redis ex_idle_movie 1 = 2"
    by (simp add: pid_used_def slots_def ex_idle_movie_def mem_redis_def)
qed

lemma ex_lost_run:
  obtains s1 st where "increment_active_streams mem_redis 100 ''m1'' ex_idle_movie = (1, s1)"
    "get_connection_state mem_redis 100 ''m1'' s1 = Some st"
    "join_existing mem_redis ex_logins ex_env ''w1'' ex_profile ''m1'' st 0 s1 = ex_joined"
    "ex_lost = snd (claim_existing mem_redis ex_logins ex_env ex_profile ''m1'' st 1 (snd ex_joined))"
    "\<not> has_room mem_redis ex_logins ex_env ex_profile 0 None (snd ex_joined)"
proof -
  have h: "r_hash mem_redis ex_idle_movie (Vod_connection ''m1'') \<noteq> []"
    using ex_idle_movie_facts(1) by (auto simp: get_connection_state_def Let_def)
  obtain n s1 where i: "increment_active_streams mem_redis 100 ''m1'' ex_idle_movie = (n, s1)" by fastforce
  obtain s2 where t: "n = 1" "session_ok mem_redis ''m1'' 1 1 s1" by (rule mem.counted_twice [OF ex_idle_movie_ok(2) h i]) simp
  obtain st where st: "get_connection_state mem_redis 100 ''m1'' s1 = Some st"
    using mem.session_state(1) [OF t(2), of 100] t(2) by (cases "get_connection_state mem_redis 100 ''m1'' s1") (auto simp: session_ok_def)
  let ?m = "(idle_tally 0 2)\<lparr>claiming := 1\<rparr>"
  have ok: "movie_ok mem_redis ex_profile ''m1'' (ex_idle_movie, idle_tally 0 2)"
    using ex_idle_movie_ok by (simp add: movie_ok_def active_requests_def slots_due_def idle_tally_def)
  have ok1: "movie_ok mem_redis ex_profile ''m1'' (s1, ?m)"
    using mem.count_in_ok [OF ok i] t(1) by (simp add: idle_tally_def)
  note j = mem.join_existing_steps [OF ok1 st, of 1 0 s1 ex_env ex_logins "''w1''"]
  have joined: "join_existing mem_redis ex_logins ex_env ''w1'' ex_profile ''m1'' st 0 s1 = ex_joined"
    using i st by (simp add: ex_joined_def Let_def)
  have "pid_used mem_redis (snd ex_joined) 1 = 2"
  proof (cases "fst ex_joined")
    case (Inl a)
    then have "movie_ok mem_redis ex_profile ''m1'' (snd ex_joined, ?m)"
      using mem.movie_run_ok [OF _ ok1] j t(2) joined by (auto simp: request_done_def)
    from mem.movie_okD(4) [OF this] show ?thesis by (simp add: slots_due_def active_requests_def idle_tally_def)
  next
    case (Inr x)
    then have "movie_ok mem_redis ex_profile ''m1'' (snd ex_joined, ?m\<lparr>playing := 1\<rparr>)"
      using mem.movie_run_ok [OF _ ok1] j t(2) joined by (auto simp: request_done_def idle_tally_def)
    from mem.movie_okD(4) [OF this] show ?thesis by (simp add: slots_due_def active_requests_def idle_tally_def)
  qed
  then have "\<not> has_room mem_redis ex_logins ex_env ex_profile 0 None (snd ex_joined)"
    using mem.room_below_limit [of ex_logins ex_env ex_profile 0 None "snd ex_joined"] by (auto simp: pid_used_def)
  with that i t(1) st joined show thesis by (simp add: ex_lost_def Let_def)
qed

theorem refused_claim_takes_anothers_slot_witness:
  "active_field mem_redis ''m1'' ex_lost = Some 1 \<and> pid_used mem_redis ex_lost 1 = 2 \<and>
   pid_used mem_redis (snd (end_movie_stream mem_redis 105 ''m1'' 1 False ex_lost)) 1 = 1"
proof -
  obtain s1 st where r: "increment_active_streams mem_redis 100 ''m1'' ex_idle_movie = (1, s1)"
    "get_connection_state mem_redis 100 ''m1'' s1 = Some st"
    "join_existing mem_redis ex_logins ex_env ''w1'' ex_profile ''m1'' st 0 s1 = (fst ex_joined, snd ex_joined)"
    "ex_lost = snd (claim_existing mem_redis ex_logins ex_env ex_profile ''m1'' st 1 (snd ex_joined))"
    "\<not> has_room mem_redis ex_logins ex_env ex_profile 0 None (snd ex_joined)"
    by (rule ex_lost_run) simp
  have h: "r_hash mem_redis ex_idle_movie (Vod_connection ''m1'') \<noteq> []"
    using ex_idle_movie_facts(1) by (auto simp: get_connection_state_def Let_def)
  obtain x where x: "claim_existing mem_redis ex_logins ex_env ex_profile ''m1'' st 1 (snd ex_joined) = (x, ex_lost)"
    using r(4) by (metis prod.collapse)
  show ?thesis
    using refused_claim_takes_anothers_slot [OF mem.redis_axioms _ _ ex_idle_movie_ok(1) _ h _ _ _ r(3,5) x, of 105 False] r(1,2)
      ex_idle_movie_ok(2,3) by simp
qed

end
