(* ===== verification/Stream_Switch.thy ===== *)
theory Stream_Switch
  imports Failover
begin

text \<open>
  A channel told to play another stream (\<open>ChannelService.change_stream_url\<close>, its event in
  \<^verbatim>\<open>live_proxy/server.py\<close> and the views \<open>change_stream\<close> and \<open>next_stream\<close>): done at once by the worker
  that runs the channel, or published for it and waited for.
\<close>

section \<open>What is asked for\<close>

record switch_order =
  sw_url :: string
  sw_agent :: "string option"
  sw_stream :: "int option"
  sw_profile :: "int option"
  sw_name :: "string option"

text \<open>An id that is there and not zero.\<close>

definition given_id :: "int option \<Rightarrow> int list" where
  "given_id i = (case i of None \<Rightarrow> [] | Some n \<Rightarrow> if n = 0 then [] else [n])"

definition order_name :: "site \<Rightarrow> switch_order \<Rightarrow> int \<Rightarrow> string" where
  "order_name X ord i =
     (let n = text_or [] (sw_name ord)
      in if n \<noteq> [] then n else case stream_by_id X i of None \<Rightarrow> [] | Some st \<Rightarrow> str_name st)"

definition order_fields :: "site \<Rightarrow> real \<Rightarrow> switch_order \<Rightarrow> (string \<times> rval) list" where
  "order_fields X t ord =
     [(''url'', VStr (sw_url ord))] @
     (let a = text_or [] (sw_agent ord) in if a = [] then [] else [(''user_agent'', VStr a)]) @
     map (\<lambda>i. (''stream_id'', VInt i)) (given_id (sw_stream ord)) @
     map (\<lambda>i. (''stream_name'', VStr (order_name X ord i)))
         (filter (\<lambda>i. order_name X ord i \<noteq> []) (given_id (sw_stream ord))) @
     map (\<lambda>i. (''m3u_profile'', VInt i)) (given_id (sw_profile ord)) @
     [(''stream_switch_time'', VTime t)]"

text \<open>The metadata key is a hash, or not there yet: no key is used as two types.\<close>

definition update_channel_metadata :: "'s redis_api \<Rightarrow> site \<Rightarrow> real \<Rightarrow> string \<Rightarrow> switch_order \<Rightarrow> 's \<Rightarrow> 's" where
  "update_channel_metadata R X t c ord s =
     r_setex R (hset_all R (metadata c) (order_fields X t ord) s) (Live (Switch_request c)) 30 (VStr (sw_url ord))"

section \<open>The manager told\<close>

text \<open>
  \<open>update_url\<close> with all it may meet: a channel that is no row has no slot to move, and where the old
  connection cannot be closed the URL stays (\<open>closes\<close>).
\<close>

definition switch_upstream ::
  "'s redis_api \<Rightarrow> logins \<Rightarrow> env \<Rightarrow> site \<Rightarrow> string \<Rightarrow> bool \<Rightarrow> switch_order \<Rightarrow> manager \<Rightarrow> 's \<Rightarrow> bool \<times> manager \<times> 's" where
  "switch_upstream R L e X c closes ord m s =
     (if sw_url ord = m_url m then (False, m, s)
      else
        (let s1 = (case channel_by_uuid X c of
                     None \<Rightarrow> s | Some ch \<Rightarrow> move_slot R L e ch (sw_stream ord) (sw_profile ord) m s);
             m1 = m\<lparr>m_stalls := []\<rparr>
         in if \<not> closes then (False, m1, s1)
            else
              (let m2 = m1\<lparr>m_url := sw_url ord, m_connected := False\<rparr>;
                   m3 = (if known_stream (sw_stream ord)
                         then m2\<lparr>m_stream := sw_stream ord, m_tried := m_tried m2 \<union> set_option (sw_stream ord)\<rparr>
                         else m2)
               in (True, clear_connection_failure_history m3, s1))))"

text \<open>The same URL is no failure here.\<close>

definition take_order ::
  "'s redis_api \<Rightarrow> logins \<Rightarrow> env \<Rightarrow> site \<Rightarrow> string \<Rightarrow> bool \<Rightarrow> switch_order \<Rightarrow> manager \<Rightarrow> 's \<Rightarrow> bool \<times> manager \<times> 's" where
  "take_order R L e X c closes ord m s =
     (let (ok, m1, s1) = (if sw_url ord = m_url m then (True, m, s) else switch_upstream R L e X c closes ord m s)
      in (ok, if ok then reset_failover_rotation_state m1 else m1, s1))"

text \<open>By the worker that runs the channel and was asked.\<close>

definition direct_switch ::
  "'s redis_api \<Rightarrow> logins \<Rightarrow> env \<Rightarrow> site \<Rightarrow> string \<Rightarrow> bool \<Rightarrow> switch_order \<Rightarrow> manager \<Rightarrow> 's \<Rightarrow> bool \<times> manager \<times> 's" where
  "direct_switch R L e X c closes ord m s =
     (let (ok, m1, s1) = take_order R L e X c closes ord m s;
          told = (if ok then ord
                  else \<lparr>sw_url = m_url m1, sw_agent = sw_agent ord, sw_stream = None, sw_profile = None, sw_name = None\<rparr>)
      in (ok, m1, update_channel_metadata R X (now e) c told s1))"

text \<open>By the worker that runs the channel and was told by another one.\<close>

definition handle_stream_switch ::
  "'s redis_api \<Rightarrow> logins \<Rightarrow> env \<Rightarrow> site \<Rightarrow> bool \<Rightarrow> worker \<Rightarrow> string \<Rightarrow> switch_order \<Rightarrow> manager \<Rightarrow> 's \<Rightarrow> manager \<times> 's" where
  "handle_stream_switch R L e X closes w c ord m s =
     (if \<not> am_i_owner R s w c \<or> sw_url ord = [] \<or> c \<notin> set (stream_managers w) then (m, s)
      else
        (let s1 = r_setex R s (Live (Switch_status c)) 60 (VStr ''switching'');
             (ok, m1, s2) = take_order R L e X c closes ord m s1;
             s3 = (if ok then update_channel_metadata R X (now e) c ord s2
                   else r_hset R s2 (metadata c) ''url'' (VStr (m_url m1)))
         in (m1, r_setex R s3 (Live (Switch_status c)) 60 (VStr (if ok then ''switched'' else ''failed'')))))"

section \<open>Asking for a switch\<close>

datatype switch_answer = Switch_error | Switch_done | Switch_failed | Switch_unconfirmed

text \<open>
  What is around a switch: the keys Redis finds, what a start of the channel here comes to, whether
  the old connection can be closed, and the worker that takes the message before the wait is over.
\<close>

record 's switch_run =
  sr_scan :: "'s \<Rightarrow> string \<Rightarrow> rkey list"
  sr_keys :: "'s \<Rightarrow> string \<Rightarrow> rkey list"
  sr_ended :: bool
  sr_answered :: bool
  sr_starts :: bool
  sr_closes :: bool
  sr_heard :: "worker option"

text \<open>A stream given without its URL is looked up.\<close>

definition resolve_order ::
  "'s redis_api \<Rightarrow> logins \<Rightarrow> env \<Rightarrow> site \<Rightarrow> sources \<Rightarrow> string \<Rightarrow> switch_order \<Rightarrow> 's \<Rightarrow> switch_order option \<times> 's" where
  "resolve_order R L e X src c ord s =
     (if sw_url ord = [] \<and> known_stream (sw_stream ord) then
        (case channel_by_uuid X c of
           None \<Rightarrow> (None, s)
         | Some ch \<Rightarrow>
             (case get_stream_info_for_switch R L e X src ch (sw_stream ord) None s of
                (Inl err, s1) \<Rightarrow> (None, s1)
              | (Inr i, s1) \<Rightarrow>
                  (Some \<lparr>sw_url = info_url i, sw_agent = Some (info_agent i), sw_stream = sw_stream ord,
                         sw_profile = Some (info_m3u_profile i),
                         sw_name = map_option str_name (Option.bind (sw_stream ord) (stream_by_id X))\<rparr>, s1)))
      else (Some ord, s))"

definition DEFAULT_USER_AGENT :: string where "DEFAULT_USER_AGENT = ''VLC/3.0.20 LibVLC/3.0.20''"

text \<open>A channel of which only keys are left is started; its manager is a new one where it starts here.\<close>

definition recover_channel ::
  "'s redis_api \<Rightarrow> env \<Rightarrow> site \<Rightarrow> 's switch_run \<Rightarrow> worker \<Rightarrow> string \<Rightarrow> switch_order \<Rightarrow> manager \<Rightarrow> 's \<Rightarrow>
   worker \<times> manager \<times> 's" where
  "recover_channel R e X r w c ord m s =
     (let (_, w1, s1) = initialize_channel R e X (sr_scan r) (sr_ended r) (sr_answered r) (sr_starts r) w c
                          \<lparr>rq_url = Some (sw_url ord), rq_agent = sw_agent ord, rq_stream = None,
                           rq_channel_name = None, rq_stream_name = None\<rparr> s;
          agent = text_or [] (sw_agent ord)
      in (w1,
          if c \<in> set (stream_managers w1)
          then new_manager R s c (now e) (sw_url ord) (if agent = [] then DEFAULT_USER_AGENT else agent) False None
          else m, s1))"

text \<open>What the status the owner left says.\<close>

definition confirmed_answer :: "'s redis_api \<Rightarrow> string \<Rightarrow> 's \<Rightarrow> switch_answer" where
  "confirmed_answer R c s =
     (let status = Option.bind (r_get R s (Live (Switch_status c))) val_text
      in if status = Some ''switched'' then Switch_done
         else if status = Some ''failed'' then Switch_failed else Switch_unconfirmed)"

text \<open>\<open>m\<close>: the manager of the channel, on whichever worker runs it.\<close>

definition change_stream_url ::
  "'s redis_api \<Rightarrow> logins \<Rightarrow> env \<Rightarrow> site \<Rightarrow> sources \<Rightarrow> 's switch_run \<Rightarrow> string \<Rightarrow> switch_order \<Rightarrow> worker \<times> manager \<Rightarrow> 's \<Rightarrow>
   switch_answer \<times> (worker \<times> manager) \<times> 's" where
  "change_stream_url R L e X src r c given wm s =
     (case resolve_order R L e X src c given s of
        (None, s1) \<Rightarrow> (Switch_error, wm, s1)
      | (Some ord, s1) \<Rightarrow>
          (let keys = sr_keys r s1 c; (there, s2) = check_if_channel_exists R e X (sr_scan r) (fst wm) c s1 in
           if \<not> there \<and> keys = [] then (Switch_error, wm, s2)
           else
             (let (w, m, s3) = (if there then (fst wm, snd wm, s2) else recover_channel R e X r (fst wm) c ord (snd wm) s2) in
              if am_i_owner R s3 w c \<and> c \<in> set (stream_managers w) then
                (let (ok, m1, s4) = direct_switch R L e X c (sr_closes r) ord m s3
                 in (if ok then Switch_done else Switch_failed, (w, m1), s4))
              else
                (let s4 = r_del R s3 (Live (Switch_status c));
                     (m1, s5) = (case sr_heard r of
                                   None \<Rightarrow> (m, s4)
                                 | Some other \<Rightarrow> handle_stream_switch R L e X (sr_closes r) other c ord m s4)
                 in (confirmed_answer R c s5, (w, m1), s5)))))"

section \<open>The views\<close>

text \<open>What comes back: the status of an error, or of success.\<close>

definition answer_status :: "switch_answer \<Rightarrow> nat" where
  "answer_status a =
     (case a of Switch_done \<Rightarrow> 200 | Switch_error \<Rightarrow> 404 | Switch_failed \<Rightarrow> 502 | Switch_unconfirmed \<Rightarrow> 504)"

text \<open>Whether the device plays the channel on a stream of its own, asked of arrTV alone.\<close>

definition on_its_own_stream :: "'s redis_api \<Rightarrow> env \<Rightarrow> string \<Rightarrow> string \<Rightarrow> viewer \<Rightarrow> string \<Rightarrow> 's \<Rightarrow> bool" where
  "on_its_own_stream R e declared agent v c s \<longleftrightarrow>
     switch_on (app_settings e) ''own_stream'' \<and>
     (declared \<noteq> [] \<or> contains ''arrtv'' (lower agent) \<or> aerio_arr (lower agent)) \<and>
     session_for R s (Some v) c \<noteq> []"

definition change_stream_view ::
  "'s redis_api \<Rightarrow> logins \<Rightarrow> env \<Rightarrow> site \<Rightarrow> sources \<Rightarrow> 's switch_run \<Rightarrow> string \<Rightarrow> string \<Rightarrow> viewer \<Rightarrow> string \<Rightarrow>
   switch_order \<Rightarrow> worker \<times> manager \<Rightarrow> 's \<Rightarrow> nat \<times> (worker \<times> manager) \<times> 's" where
  "change_stream_view R L e X src r declared agent v c body wm s =
     (if on_its_own_stream R e declared agent v c s then (409, wm, s)
      else
        (let given = body\<lparr>sw_profile := None, sw_name := None\<rparr> in
         case (if known_stream (sw_stream body)
               then resolve_order R L e X src c (given\<lparr>sw_url := []\<rparr>) s else (Some given, s)) of
           (None, s1) \<Rightarrow> (404, wm, s1)
         | (Some ord, s1) \<Rightarrow>
             (if sw_url ord = [] then (400, wm, s1)
              else
                (let (a, wm1, s2) = change_stream_url R L e X src r c ord wm s1 in (answer_status a, wm1, s2)))))"

text \<open>The stream after the one that plays, in the channel's order and round to its first.\<close>

definition next_in_rotation :: "stream list \<Rightarrow> int \<Rightarrow> stream option" where
  "next_in_rotation sts cur =
     (case position_of (map str_id sts) cur of
        Some i \<Rightarrow> Some (sts ! ((i + 1) mod length sts))
      | None \<Rightarrow> List.find (\<lambda>st. str_id st \<noteq> cur) sts)"

definition next_stream_view ::
  "'s redis_api \<Rightarrow> logins \<Rightarrow> env \<Rightarrow> site \<Rightarrow> sources \<Rightarrow> 's switch_run \<Rightarrow> string \<Rightarrow> worker \<times> manager \<Rightarrow> 's \<Rightarrow>
   nat \<times> (worker \<times> manager) \<times> 's" where
  "next_stream_view R L e X src r c wm s =
     (if channel_by_uuid X c = None \<and> streams_with_hash X c = [] then (404, wm, s)
      else
        (let playing = r_hget R s (metadata c) ''stream_id'' in
         if \<not> truthy playing then (404, wm, s)
         else case Option.bind playing val_int of
                None \<Rightarrow> (500, wm, s)
              | Some cur \<Rightarrow>
                  (if truthy (r_hget R s (metadata c) ''m3u_profile'') \<and>
                      Option.bind (r_hget R s (metadata c) ''m3u_profile'') val_int = None then (500, wm, s)
                   else if cur = 0 then (404, wm, s)
                   else case channel_by_uuid X c of
                          None \<Rightarrow> (500, wm, s)
                        | Some ch \<Rightarrow>
                            (if length (ch_streams ch) \<le> 1 then (404, wm, s)
                             else case next_in_rotation (ch_streams ch) cur of
                                    None \<Rightarrow> (404, wm, s)
                                  | Some st \<Rightarrow>
                                      (case resolve_order R L e X src c
                                              \<lparr>sw_url = [], sw_agent = None, sw_stream = Some (str_id st),
                                               sw_profile = None, sw_name = None\<rparr> s of
                                         (None, s1) \<Rightarrow> (404, wm, s1)
                                       | (Some ord, s1) \<Rightarrow>
                                           (let (a, wm1, s2) = change_stream_url R L e X src r c ord wm s1
                                            in (answer_status a, wm1, s2)))))))"

end
