(* ===== verification/Stutter.thy ===== *)
theory Stutter
  imports Stream_Switch
begin

text \<open>
  A channel whose picture stutters on a device moves to another stream (\<^verbatim>\<open>live_proxy/app_stalls.py\<close>).
\<close>

definition SETTLE_SECONDS :: real where "SETTLE_SECONDS = 10"
definition LEFT_TTL :: int where "LEFT_TTL = 10 * 60"
definition MAX_SWITCHES :: nat where "MAX_SWITCHES = 2"
definition STALLED_TOGETHER_SECONDS :: real where "STALLED_TOGETHER_SECONDS = 30"
definition SWITCHING_TTL :: int where "SWITCHING_TTL = 10"
definition HELD_TTL :: int where "HELD_TTL = 24 * 3600"

section \<open>What was reported\<close>

text \<open>The channel by its UUID or its number, the empty text for none.\<close>

definition stutter_channel :: "site \<Rightarrow> string \<Rightarrow> string" where
  "stutter_channel X given =
     (let g = strip given in
      if \<not> id_of_length 1 80 g then []
      else if \<not> list_all is_digit g then g
      else case Option.bind (parse_int g) (\<lambda>i. List.find (\<lambda>ch. ch_id ch = i) (channel_rows X)) of
             None \<Rightarrow> [] | Some ch \<Rightarrow> ch_uuid ch)"

definition hold_quality :: "'s redis_api \<Rightarrow> env \<Rightarrow> viewer \<Rightarrow> string \<Rightarrow> 's \<Rightarrow> 's" where
  "hold_quality R e v label s =
     (case server_device v of
        Some d \<Rightarrow> if label \<in> set QUALITY_LIMITS then r_setex R s (Stalls_held d (where_is e v)) HELD_TTL (VStr label) else s
      | None \<Rightarrow> s)"

section \<open>The stream to move to\<close>

text \<open>Whether one quality is better than, or below, another; nothing is told of one that says nothing.\<close>

definition better_picture :: "stream \<Rightarrow> stream option \<Rightarrow> bool" where
  "better_picture st cur \<longleftrightarrow>
     (case (Option.bind cur quality_of, quality_of st) of (Some c, Some r) \<Rightarrow> r < c | _ \<Rightarrow> False)"

definition lower_picture :: "stream \<Rightarrow> stream option \<Rightarrow> bool" where
  "lower_picture st cur \<longleftrightarrow>
     (case (Option.bind cur quality_of, quality_of st) of (Some c, Some r) \<Rightarrow> c < r | _ \<Rightarrow> False)"

definition label_of :: "stream option \<Rightarrow> string" where
  "label_of st = (case Option.bind st quality_of of None \<Rightarrow> [] | Some r \<Rightarrow> QUALITY_LABELS ! r)"

definition fits_stutter :: "stream option \<Rightarrow> stream \<Rightarrow> bool" where
  "fits_stutter cur st \<longleftrightarrow> \<not> is_custom st \<and> \<not> better_picture st cur"

text \<open>The first of those that come first.\<close>

definition pick_stream :: "stream option \<Rightarrow> bool \<Rightarrow> stream list \<Rightarrow> stream option" where
  "pick_stream cur lower_first fitting =
     (case List.find (\<lambda>st. lower_picture st cur \<or> \<not> lower_first) fitting of
        Some st \<Rightarrow> Some st
      | None \<Rightarrow> (case fitting of [] \<Rightarrow> None | st # _ \<Rightarrow> Some st))"

definition stream_after_stutter ::
  "'s redis_api \<Rightarrow> logins \<Rightarrow> env \<Rightarrow> site \<Rightarrow> string \<Rightarrow> int option \<Rightarrow> string set \<Rightarrow> bool \<Rightarrow> 's \<Rightarrow>
   stream option \<times> 's" where
  "stream_after_stutter R L e X c cur left lower_first s =
     (case channel_by_uuid X c of
        None \<Rightarrow> (None, s)
      | Some ch \<Rightarrow>
          (let (alternates, s1) = get_alternate_streams R L e ch cur None s;
               offered = filter (\<lambda>a. dec (fst a) \<notin> left) alternates;
               current = (if known_stream cur then Option.bind cur (stream_by_id X) else None);
               fitting = filter (fits_stutter current) (List.map_filter (\<lambda>a. stream_by_id X (fst a)) offered)
           in (pick_stream current lower_first fitting, s1)))"

section \<open>Moving\<close>

datatype stutter_answer =
    No_device
  | No_channel
  | Own_stream
  | Not_playing
  | Not_watching
  | Just_started
  | Someone_watches
  | Already_changing
  | Twice_already
  | Nowhere_to_go
  | Could_not_change
  | Switched stream

definition streams_left :: "'s redis_api \<Rightarrow> string \<Rightarrow> 's \<Rightarrow> string set" where
  "streams_left R c s = set (r_members R s (Stalls_left c))"

definition note_left :: "'s redis_api \<Rightarrow> string \<Rightarrow> int option \<Rightarrow> 's \<Rightarrow> 's" where
  "note_left R c cur s =
     (if known_stream cur
      then (case cur of None \<Rightarrow> s | Some i \<Rightarrow> r_expire R (r_sadd R s (Stalls_left c) (dec i)) (Stalls_left c) LEFT_TTL)
      else s)"

definition note_move :: "'s redis_api \<Rightarrow> string \<Rightarrow> int option \<Rightarrow> 's \<Rightarrow> 's" where
  "note_move R c cur s = r_hset R (note_left R c cur s) (metadata c) ''stream_switch_reason'' (VStr ''arrtv_stutter'')"

text \<open>The stream alone is given; its URL is looked up there.\<close>

definition stream_order :: "int \<Rightarrow> switch_order" where
  "stream_order i = \<lparr>sw_url = [], sw_agent = None, sw_stream = Some i, sw_profile = None, sw_name = None\<rparr>"

definition switch_for_stutter ::
  "'s redis_api \<Rightarrow> logins \<Rightarrow> env \<Rightarrow> site \<Rightarrow> sources \<Rightarrow> 's switch_run \<Rightarrow> viewer \<Rightarrow> string \<Rightarrow> worker \<times> manager \<Rightarrow> 's \<Rightarrow>
   stutter_answer \<times> (worker \<times> manager) \<times> 's" where
  "switch_for_stutter R L e X src r v c wm s =
     (let left = streams_left R c s; cur = stream_field R s c; again = left \<noteq> {} in
      if MAX_SWITCHES \<le> card left then (Twice_already, wm, s)
      else case stream_after_stutter R L e X c cur left again s of
             (None, s1) \<Rightarrow> (Nowhere_to_go, wm, s1)
           | (Some st, s1) \<Rightarrow>
               (let (a, wm2, s2) = change_stream_url R L e X src r c (stream_order (str_id st)) wm s1 in
                if a \<noteq> Switch_done then (Could_not_change, wm2, s2)
                else
                  (let s3 = note_move R c cur s2;
                       current = label_of (if known_stream cur then Option.bind cur (stream_by_id X) else None);
                       label = label_of (Some st)
                   in (Switched st, wm2,
                       if again \<and> label \<in> set QUALITY_LIMITS \<and> current \<noteq> [] \<and> label \<noteq> current
                       then hold_quality R e v label s3 else s3))))"

section \<open>A report\<close>

definition moment_of :: "'s redis_api \<Rightarrow> 's \<Rightarrow> string \<Rightarrow> string \<Rightarrow> real" where
  "moment_of R s c f = (case Option.bind (r_hget R s (metadata c) f) val_real of None \<Rightarrow> 0 | Some t \<Rightarrow> t)"

definition stream_began :: "'s redis_api \<Rightarrow> 's \<Rightarrow> string \<Rightarrow> real" where
  "stream_began R s c = max (moment_of R s c ''init_time'') (moment_of R s c ''stream_switch_time'')"

text \<open>When a device last stuttered on the channel.\<close>

definition stalled_at :: "'s redis_api \<Rightarrow> 's \<Rightarrow> string \<Rightarrow> string option \<Rightarrow> real" where
  "stalled_at R s c d =
     (case Option.bind d (r_hget R s (Stalls_stalled c)) of
        None \<Rightarrow> 0 | Some x \<Rightarrow> (case val_real x of None \<Rightarrow> 0 | Some t \<Rightarrow> t))"

definition stutters_too :: "'s redis_api \<Rightarrow> env \<Rightarrow> 's \<Rightarrow> string \<Rightarrow> string \<Rightarrow> client \<Rightarrow> bool" where
  "stutters_too R e s c d cl \<longleftrightarrow>
     (let other = server_device (client_viewer e cl) in
      is_caption_client (client_field cl ''user_agent'') \<or> other = Some d \<or>
      is_declared other \<and> now e - stalled_at R s c other \<le> STALLED_TOGETHER_SECONDS)"

definition note_stall_of :: "'s redis_api \<Rightarrow> env \<Rightarrow> string \<Rightarrow> string \<Rightarrow> 's \<Rightarrow> 's" where
  "note_stall_of R e c d s = r_expire R (r_hset R s (Stalls_stalled c) d (VTime (now e))) (Stalls_stalled c) LEFT_TTL"

definition report_stutter ::
  "'s redis_api \<Rightarrow> logins \<Rightarrow> env \<Rightarrow> site \<Rightarrow> sources \<Rightarrow> 's switch_run \<Rightarrow> viewer \<Rightarrow> string \<Rightarrow> worker \<times> manager \<Rightarrow> 's \<Rightarrow>
   stutter_answer \<times> (worker \<times> manager) \<times> 's" where
  "report_stutter R L e X src r v given wm s =
     (case (if is_declared (server_device v) then server_device v else None) of
        None \<Rightarrow> (No_device, wm, s)
      | Some d \<Rightarrow>
          (let c = stutter_channel X given; clients = channel_clients R s c in
           if c = [] then (No_channel, wm, s)
           else if session_for R s (Some v) c \<noteq> [] then (Own_stream, wm, s)
           else if r_hash R s (metadata c) = [] then (Not_playing, wm, s)
           else if \<not> list_ex (\<lambda>cl. server_device (client_viewer e cl) = Some d) clients then (Not_watching, wm, s)
           else
             (let s1 = note_stall_of R e c d s; began = stream_began R s c in
              if began \<noteq> 0 \<and> now e - began < SETTLE_SECONDS then (Just_started, wm, s1)
              else if \<not> list_all (stutters_too R e s1 c d) clients then (Someone_watches, wm, s1)
              else
                (let (got, s2) = r_setnx R s1 (Stalls_switching c) SWITCHING_TTL (VStr ''1'') in
                 if \<not> got then (Already_changing, wm, s2)
                 else
                   (let (a, wm3, s3) = switch_for_stutter R L e X src r v c wm s2
                    in (a, wm3, case a of Switched st \<Rightarrow> s3 | _ \<Rightarrow> r_del R s3 (Stalls_switching c)))))))"

end
