(* ===== verification/Switch_Facts.thy ===== *)
theory Switch_Facts
  imports Stream_Switch Failover_Facts
begin

text \<open>
  What a switch that was asked for leaves: the metadata tells what the manager plays, and where it
  does not.
\<close>

section \<open>What moving slots leaves alone\<close>

text \<open>The live keys and the streams left for stuttering: nothing that counts or holds a slot.\<close>

definition live_part :: "'s redis_api \<Rightarrow> 's \<Rightarrow> (live_key \<Rightarrow> rval option) \<times> (live_key \<Rightarrow> (string \<times> rval) list) \<times> (string \<Rightarrow> string list)" where
  "live_part R s = (\<lambda>k. r_get R s (Live k), \<lambda>k. r_hash R s (Live k), \<lambda>c. r_members R s (Stalls_left c))"

lemma live_partD:
  assumes "live_part R s' = live_part R s"
  shows "r_get R s' (Live k) = r_get R s (Live k)" "r_hash R s' (Live k) = r_hash R s (Live k)"
    "r_members R s' (Stalls_left c) = r_members R s (Stalls_left c)"
  using assms by (auto simp: live_part_def dest: fun_cong)

context redis
begin

lemma live_part_commands [simp]:
  "live_part R (r_incr R s k) = live_part R s"
  "live_part R (r_decr R s k) = live_part R s"
  "live_part R (r_setcount R s k n) = live_part R s"
  "live_part R (r_expire R s k t) = live_part R s"
  by (simp_all add: live_part_def)

lemma live_part_holds [simp]:
  "live_part R (foldl (\<lambda>t f. r_hdel R t (held_key p cred) f) s fs) = live_part R s"
  by (induction fs arbitrary: s) (auto simp: live_part_def held_key_def fun_eq_iff split: option.splits)

lemma live_part_held [simp]: "live_part R (snd (slots_held_for_others R e p v cred s)) = live_part R s"
  by (simp add: slots_held_for_others_def Let_def)

lemma live_part_capacity [simp]: "live_part R (snd (pool_has_capacity_for_profile R L e p v s)) = live_part R s"
  by (simp add: pool_has_capacity_for_profile_def profile_has_capacity_for_selection_def group_has_capacity_for_profile_def
      Let_def case_prod_unfold split: option.split)

lemma live_part_slot_keys [simp]:
  "live_part R (r_set R s (Profile_credential_release i) x) = live_part R s"
  "live_part R (r_set R s (Stream_profile i) x) = live_part R s"
  "live_part R (r_del R s (Profile_credential_release i)) = live_part R s"
  by (simp_all add: live_part_def)

lemma live_part_login [simp]:
  "live_part R (snd (release_credential_slot_by_profile_id R pid s)) = live_part R s"
  "live_part R (snd (reserve_server_group_slot_for_profile R L e p x v b s)) = live_part R s"
  "live_part R (remember_credential_release_key R pid k s) = live_part R s"
  by (simp_all add: release_credential_slot_by_profile_id_def reserve_server_group_slot_for_profile_def
      remember_credential_release_key_def safe_decr_def Let_def case_prod_unfold split: option.split)

lemma live_part_move_login [simp]: "live_part R (snd (move_credential_slot_on_profile_switch R L e old new s)) = live_part R s"
  by (simp add: move_credential_slot_on_profile_switch_def Let_def case_prod_unfold split: option.split)

lemma live_part_update_profile [simp]: "live_part R (snd (update_stream_profile R L e ch pid s)) = live_part R s"
  by (simp add: update_stream_profile_def Let_def case_prod_unfold split: option.split)

lemma live_part_move_slot [simp]: "live_part R (move_slot R L e ch sid pid m s) = live_part R s"
  by (simp add: move_slot_def split: option.split)

lemma live_part_select [simp]: "live_part R (snd (select_profile R L e ch ps s)) = live_part R s"
  by (induction ps arbitrary: s) (auto simp: Let_def case_prod_unfold profile_available_for_channel_switch_def)

lemma live_part_collect [simp]: "live_part R (snd (collect_alternates R L e ch allowed cur sts s)) = live_part R s"
  using live_part_select
  by (induction sts arbitrary: s) (fastforce simp: case_prod_unfold Let_def split: option.split prod.split)+

lemma live_part_alternates [simp]: "live_part R (snd (get_alternate_streams R L e ch cur allowed s)) = live_part R s"
  by (simp add: get_alternate_streams_def case_prod_unfold Let_def)

lemma live_part_target:
  "known_stream target \<Longrightarrow> live_part R (snd (switch_target R L e X ch target prof s)) = live_part R s"
  by (auto simp: switch_target_def case_prod_unfold Let_def split: option.split)

end

section \<open>The order carried out\<close>

lemma switched_to_given:
  "known_stream target \<Longrightarrow> fst (switch_target R L e X ch target prof s) = Inr (sid, pid, b) \<Longrightarrow> target = Some sid \<and> \<not> b"
  by (auto simp: switch_target_def known_stream_def stream_by_id_def find_Some_iff case_prod_unfold
      split: option.splits if_splits)

context redis
begin

lemma live_part_info:
  assumes "known_stream target"
  shows "live_part R (snd (get_stream_info_for_switch R L e X src ch target prof s)) = live_part R s"
proof -
  obtain x s1 where t: "switch_target R L e X ch target prof s = (x, s1)" by (cases "switch_target R L e X ch target prof s")
  have s1: "live_part R s1 = live_part R s" using live_part_target [OF assms, of L e X ch prof s] t by simp
  have "x = Inr (sid, pid, b) \<Longrightarrow> \<not> b" for sid pid b using switched_to_given [OF assms] t by (metis fst_conv)
  then show ?thesis
    by (cases x) (auto simp: get_stream_info_for_switch_def t s1 Let_def split: option.split)
qed

lemma live_part_resolve [simp]: "live_part R (snd (resolve_order R L e X src c ord s)) = live_part R s"
  by (simp add: resolve_order_def case_prod_unfold live_part_info split: option.split sum.split)

end

lemma resolved_stream:
  "fst (resolve_order R L e X src c ord s) = Some ord' \<Longrightarrow> sw_stream ord' = sw_stream ord"
  by (auto simp: resolve_order_def split: if_splits option.splits sum.splits prod.splits)

lemma order_url: "map_of (rev (order_fields X t ord)) ''url'' = Some (VStr (sw_url ord))"
  by (auto simp: order_fields_def given_id_def Let_def split: option.splits)

lemma order_stream:
  "map_of (rev (order_fields X t ord)) ''stream_id'' =
     (if known_stream (sw_stream ord) then map_option VInt (sw_stream ord) else None)"
  by (auto simp: order_fields_def given_id_def known_stream_def Let_def split: option.splits)

lemma order_agent:
  "map_of (rev (order_fields X t ord)) ''user_agent'' =
     (if text_or [] (sw_agent ord) = [] then None else Some (VStr (text_or [] (sw_agent ord))))"
  by (auto simp: order_fields_def given_id_def Let_def split: option.splits)

lemma order_leaves:
  "map_of (rev (order_fields X t ord)) ''state'' = None" "map_of (rev (order_fields X t ord)) ''owner'' = None"
  by (auto simp: order_fields_def given_id_def Let_def split: option.splits)

context redis
begin

lemma told_fields:
  "r_hget R (update_channel_metadata R X t c ord s) (metadata c) f =
     (case map_of (rev (order_fields X t ord)) f of None \<Rightarrow> r_hget R s (metadata c) f | Some v \<Rightarrow> Some v)"
  by (simp add: update_channel_metadata_def hget_hset_all)

lemma told_else [simp]:
  "r_get R (update_channel_metadata R X t c ord s) k = (if k = Live (Switch_request c) then Some (VStr (sw_url ord)) else r_get R s k)"
  "r_members R (update_channel_metadata R X t c ord s) = r_members R s"
  by (simp_all add: update_channel_metadata_def)

text \<open>What the manager is left with, and what its move leaves alone.\<close>

lemma taken_order:
  assumes "take_order R L e X c closes ord m s = (ok, m1, s1)"
  shows "live_part R s1 = live_part R s" "m_agent m1 = m_agent m"
    "ok \<Longrightarrow> m_url m1 = sw_url ord" "\<not> ok \<Longrightarrow> m_url m1 = m_url m"
    "ok \<Longrightarrow> sw_url ord \<noteq> m_url m \<Longrightarrow> known_stream (sw_stream ord) \<Longrightarrow> m_stream m1 = sw_stream ord"
    "sw_url ord = m_url m \<Longrightarrow> m_stream m1 = m_stream m \<and> s1 = s"
  using assms
  by (auto simp: take_order_def switch_upstream_def reset_failover_rotation_state_def
      clear_connection_failure_history_def Let_def split: if_splits option.splits)

end

section \<open>A switch that was answered\<close>

text \<open>What the worker that runs the channel makes of an order.\<close>

definition carried_out ::
  "'s redis_api \<Rightarrow> string \<Rightarrow> switch_order \<Rightarrow> bool \<Rightarrow> manager \<Rightarrow> manager \<Rightarrow> 's \<Rightarrow> 's \<Rightarrow> bool" where
  "carried_out R c ord ok m m1 s s' \<longleftrightarrow>
     m_agent m1 = m_agent m \<and>
     r_hget R s' (metadata c) ''url'' = Some (VStr (m_url m1)) \<and>
     (\<forall>f \<in> {''state'', ''owner''}. r_hget R s' (metadata c) f = r_hget R s (metadata c) f) \<and>
     (\<forall>w. r_get R s' (Live (Worker_heartbeat w)) = r_get R s (Live (Worker_heartbeat w))) \<and>
     (\<forall>c'. r_members R s' (Stalls_left c') = r_members R s (Stalls_left c')) \<and>
     (if ok
      then m_url m1 = sw_url ord \<and> r_get R s' (Live (Switch_request c)) = Some (VStr (sw_url ord)) \<and>
        (known_stream (sw_stream ord) \<longrightarrow> stream_field R s' c = sw_stream ord) \<and>
        (text_or [] (sw_agent ord) \<noteq> [] \<longrightarrow>
           r_hget R s' (metadata c) ''user_agent'' = Some (VStr (text_or [] (sw_agent ord))))
      else m_url m1 = m_url m \<and> stream_field R s' c = stream_field R s c)"

context redis
begin

lemma told_carried_out:
  assumes "take_order R L e X c closes ord m s = (ok, m1, s1)"
    and "told = (if ok then ord else \<lparr>sw_url = m_url m1, sw_agent = a, sw_stream = None, sw_profile = None, sw_name = None\<rparr>)"
  shows "carried_out R c ord ok m m1 s (update_channel_metadata R X t c told s1)"
proof -
  note taken = taken_order [OF assms(1)]
  note same = live_partD [OF taken(1)]
  have "stream_field R (update_channel_metadata R X t c told s1) c =
      (if ok \<and> known_stream (sw_stream ord) then sw_stream ord else stream_field R s c)"
    by (auto simp: stream_field_def told_fields order_stream assms(2) known_stream_def same split: option.splits)
  then show ?thesis
    using taken(2-4) by (auto simp: carried_out_def told_fields order_url order_agent order_leaves same assms(2))
qed

lemma directly_switched:
  "direct_switch R L e X c closes ord m s = (ok, m1, s') \<Longrightarrow> carried_out R c ord ok m m1 s s'"
  using told_carried_out by (fastforce simp: direct_switch_def Let_def split: prod.splits)

lemma carried_out_frame:
  assumes "carried_out R c ord ok m m1 s s'" "r_hash R s'' = r_hash R s'"
    "\<And>k. k \<noteq> Live (Switch_status c) \<Longrightarrow> r_get R s'' k = r_get R s' k" "r_members R s'' = r_members R s'"
  shows "carried_out R c ord ok m m1 s s''"
proof -
  have "stream_field R s'' c = stream_field R s' c" by (simp add: stream_field_def assms(2))
  then show ?thesis using assms by (simp add: carried_out_def)
qed

lemma carried_out_from:
  assumes "carried_out R c ord ok m m1 s s'" "r_hash R s = r_hash R s0"
    "\<And>k. k \<noteq> Live (Switch_status c) \<Longrightarrow> r_get R s k = r_get R s0 k" "r_members R s = r_members R s0"
  shows "carried_out R c ord ok m m1 s0 s'"
proof -
  have "stream_field R s c = stream_field R s0 c" by (simp add: stream_field_def assms(2))
  then show ?thesis using assms by (simp add: carried_out_def)
qed

lemma handled_switch:
  assumes "handle_stream_switch R L e X closes w c ord m s = (m1, s')"
    and "am_i_owner R s w c" "sw_url ord \<noteq> []" "c \<in> set (stream_managers w)"
  obtains ok where "carried_out R c ord ok m m1 s s'"
    "r_get R s' (Live (Switch_status c)) = Some (VStr (if ok then ''switched'' else ''failed''))"
proof -
  let ?s1 = "r_setex R s (Live (Switch_status c)) 60 (VStr ''switching'')"
  obtain ok m2 s2 where t: "take_order R L e X c closes ord m ?s1 = (ok, m2, s2)"
    by (cases "take_order R L e X c closes ord m ?s1")
  let ?s3 = "if ok then update_channel_metadata R X (now e) c ord s2 else r_hset R s2 (metadata c) ''url'' (VStr (m_url m2))"
  have s': "m1 = m2" "s' = r_setex R ?s3 (Live (Switch_status c)) 60 (VStr (if ok then ''switched'' else ''failed''))"
    using assms t by (simp_all add: handle_stream_switch_def Let_def)
  note taken = taken_order [OF t]
  note same = live_partD [OF taken(1)]
  have "carried_out R c ord ok m m2 ?s1 ?s3"
  proof (cases ok)
    case True
    then show ?thesis using told_carried_out [OF t refl, where t = "now e"] True by simp
  next
    case False
    then show ?thesis using taken(2,4) by (simp add: carried_out_def hget_hset same stream_field_def)
  qed
  then have "carried_out R c ord ok m m2 s ?s3" by (rule carried_out_from) simp_all
  then have "carried_out R c ord ok m m2 s s'" unfolding s'(2) by (rule carried_out_frame) simp_all
  then show thesis using that s' by simp
qed

end

section \<open>Asking\<close>

text \<open>The metadata shows a channel on air by a worker that is alive.\<close>

definition on_air :: "'s redis_api \<Rightarrow> 's \<Rightarrow> string \<Rightarrow> bool" where
  "on_air R s c \<longleftrightarrow>
     (case channel_state_of R s c of
        None \<Rightarrow> False
      | Some st \<Rightarrow> st \<in> set (map state_text [Active, Waiting_for_clients, Connecting, Buffering, Initializing, Stopping])) \<and>
     (case Option.bind (r_hget R s (metadata c) ''owner'') val_text of
        None \<Rightarrow> False | Some w \<Rightarrow> r_get R s (Live (Worker_heartbeat w)) \<noteq> None)"

lemma on_air_exists:
  assumes "on_air R s c"
  shows "check_if_channel_exists R e X scan w c s = (True, s)"
proof -
  obtain st where st: "channel_state_of R s c = Some st"
    "st \<in> set (map state_text [Active, Waiting_for_clients, Connecting, Buffering, Initializing, Stopping])"
    using assms by (auto simp only: on_air_def split: option.splits)
  obtain own where own: "Option.bind (r_hget R s (metadata c) ''owner'') val_text = Some own"
    "r_get R s (Live (Worker_heartbeat own)) \<noteq> None"
    using assms by (auto simp only: on_air_def split: option.splits)
  have "r_hash R s (metadata c) \<noteq> []" using st(1) by (auto simp: channel_state_of_def)
  then have "r_exists R s (metadata c)" "r_exists R s (Live (Worker_heartbeat own))"
    using own(2) by (simp_all add: r_exists_def)
  then show ?thesis
    using st own(1) by (simp only: check_if_channel_exists_def Let_def option.case if_True simp_thms if_cancel)
qed

lemma on_air_same:
  assumes "on_air R s c" "\<forall>f \<in> {''state'', ''owner''}. r_hget R s' (metadata c) f = r_hget R s (metadata c) f"
    "\<forall>w. r_get R s' (Live (Worker_heartbeat w)) = r_get R s (Live (Worker_heartbeat w))"
  shows "on_air R s' c"
proof -
  have "channel_state_of R s' c = channel_state_of R s c" "r_hget R s' (metadata c) ''owner'' = r_hget R s (metadata c) ''owner''"
    using assms(2) by (simp_all add: channel_state_of_def)
  then show ?thesis using assms(1,3) by (simp only: on_air_def)
qed

context redis
begin

lemma asked_elsewhere:
  assumes "(m1, s5) = (case heard of None \<Rightarrow> (m, s4) | Some other \<Rightarrow> handle_stream_switch R L e X closes other c ord m s4)"
    and "r_get R s4 (Live (Switch_status c)) = None"
  shows "confirmed_answer R c s5 = Switch_unconfirmed \<and> (m1, s5) = (m, s4) \<or>
    (\<exists>ok. confirmed_answer R c s5 = (if ok then Switch_done else Switch_failed) \<and> carried_out R c ord ok m m1 s4 s5)"
proof (cases "\<exists>other. heard = Some other \<and> am_i_owner R s4 other c \<and> sw_url ord \<noteq> [] \<and> c \<in> set (stream_managers other)")
  case True
  then obtain other where o: "heard = Some other" "am_i_owner R s4 other c" "sw_url ord \<noteq> []" "c \<in> set (stream_managers other)"
    by blast
  have "handle_stream_switch R L e X closes other c ord m s4 = (m1, s5)" using assms(1) o(1) by simp
  from handled_switch [OF this o(2-4)] obtain ok where "carried_out R c ord ok m m1 s4 s5"
    "r_get R s5 (Live (Switch_status c)) = Some (VStr (if ok then ''switched'' else ''failed''))" .
  then show ?thesis by (intro disjI2 exI [of _ ok]) (simp add: confirmed_answer_def Let_def)
next
  case False
  then have "(m1, s5) = (m, s4)"
    using assms(1) by (auto simp: handle_stream_switch_def split: option.splits)
  then show ?thesis using assms(2) by (simp add: confirmed_answer_def)
qed

lemma change_outcome:
  assumes "change_stream_url R L e X src r c given wm s = (a, wm', s')"
  obtains (error) "a = Switch_error" "on_air R s c \<Longrightarrow> live_part R s' = live_part R s"
  | (carried) ord ok m s3 where "fst (resolve_order R L e X src c given s) = Some ord"
      "a = (if ok then Switch_done else Switch_failed)" "carried_out R c ord ok m (snd wm') s3 s'"
      "on_air R s c \<Longrightarrow> m = snd wm \<and> (s3 = snd (resolve_order R L e X src c given s) \<or>
        s3 = r_del R (snd (resolve_order R L e X src c given s)) (Live (Switch_status c)))"
  | (silent) "a = Switch_unconfirmed"
      "on_air R s c \<Longrightarrow> s' = r_del R (snd (resolve_order R L e X src c given s)) (Live (Switch_status c)) \<and> snd wm' = snd wm"
proof -
  obtain x s1 where res: "resolve_order R L e X src c given s = (x, s1)" by (cases "resolve_order R L e X src c given s")
  have live: "live_part R s1 = live_part R s" using live_part_resolve [of L e X src c given s] res by simp
  show thesis
  proof (cases x)
    case None
    then show thesis using assms res error live by (simp add: change_stream_url_def)
  next
    case (Some ord)
    obtain there s2 where chk: "check_if_channel_exists R e X (sr_scan r) (fst wm) c s1 = (there, s2)"
      by (cases "check_if_channel_exists R e X (sr_scan r) (fst wm) c s1")
    obtain w m s3 where rec: "(if there then (fst wm, snd wm, s2) else recover_channel R e X r (fst wm) c ord (snd wm) s2) = (w, m, s3)"
      by (metis prod_cases3)
    have air: "there \<and> s2 = s1 \<and> m = snd wm \<and> s3 = s1" if "on_air R s c"
    proof -
      have "on_air R s1 c" by (rule on_air_same [OF that]) (simp_all add: live_partD [OF live])
      then show ?thesis using on_air_exists [of R s1 c e X "sr_scan r" "fst wm"] chk rec by simp
    qed
    let ?s4 = "r_del R s3 (Live (Switch_status c))"
    show thesis
    proof (cases "\<not> there \<and> sr_keys r s1 c = []")
      case True
      then have "a = Switch_error" using assms res Some chk by (simp add: change_stream_url_def)
      then show thesis using True air by (intro error) auto
    next
      case False
      note u = assms [unfolded change_stream_url_def res Some, simplified]
      show thesis
      proof (cases "am_i_owner R s3 w c \<and> c \<in> set (stream_managers w)")
        case True
        obtain ok m1 s4 where d: "direct_switch R L e X c (sr_closes r) ord m s3 = (ok, m1, s4)" by (metis prod_cases3)
        have "a = (if ok then Switch_done else Switch_failed)" "wm' = (w, m1)" "s' = s4"
          using u False True chk rec d by (auto simp: Let_def)
        with directly_switched [OF d] air show thesis
          by (intro carried [of ord ok m s3]) (auto simp: res Some)
      next
        case False2: False
        obtain m1 s5 where h: "(case sr_heard r of None \<Rightarrow> (m, ?s4)
            | Some other \<Rightarrow> handle_stream_switch R L e X (sr_closes r) other c ord m ?s4) = (m1, s5)"
          by (metis prod.collapse)
        have e: "a = confirmed_answer R c s5" "wm' = (w, m1)" "s' = s5"
          using u False False2 chk rec h by (auto simp: Let_def)
        from asked_elsewhere [OF h [symmetric]]
        consider "a = Switch_unconfirmed" "(m1, s5) = (m, ?s4)"
          | ok where "a = (if ok then Switch_done else Switch_failed)" "carried_out R c ord ok m m1 ?s4 s5"
          using e(1) by auto
        then show thesis
        proof cases
          case 1
          then show thesis using silent air e res by simp
        next
          case 2
          then show thesis using air e by (intro carried [of ord ok m ?s4]) (auto simp: res Some)
        qed
      qed
    qed
  qed
qed

end

context redis
begin

lemma change_on_air:
  assumes "change_stream_url R L e X src r c given wm s = (a, wm', s')" "on_air R s c" "known_stream (sw_stream given)"
  shows "on_air R s' c" "r_members R s' (Stalls_left c') = r_members R s (Stalls_left c')"
    "stream_field R s' c = (if a = Switch_done then sw_stream given else stream_field R s c)"
proof -
  let ?s1 = "snd (resolve_order R L e X src c given s)"
  note same = live_partD [OF live_part_resolve [of L e X src c given s]]
  have field: "r_hget R t (metadata c) = r_hget R s (metadata c) \<Longrightarrow> stream_field R t c = stream_field R s c" for t
    by (simp add: stream_field_def)
  have "on_air R s' c \<and> r_members R s' (Stalls_left c') = r_members R s (Stalls_left c') \<and>
    stream_field R s' c = (if a = Switch_done then sw_stream given else stream_field R s c)"
  proof (cases rule: change_outcome [OF assms(1), case_names error carried silent])
    case error
    note l = live_partD [OF error(2) [OF assms(2)]]
    have "on_air R s' c" by (rule on_air_same [OF assms(2)]) (simp_all add: l)
    moreover have "stream_field R s' c = stream_field R s c" by (rule field) (simp add: l)
    ultimately show ?thesis using l(3) error(1) by simp
  next
    case (carried ord ok m s3)
    have s3: "r_hget R s3 (metadata c) = r_hget R s (metadata c)"
      "r_get R s3 (Live (Worker_heartbeat w)) = r_get R s (Live (Worker_heartbeat w))"
      "r_members R s3 (Stalls_left c') = r_members R s (Stalls_left c')" for w
      using carried(4) [OF assms(2)] by (auto simp: same)
    have "on_air R s' c"
      using carried(3) s3 by (intro on_air_same [OF assms(2)]) (simp_all add: carried_out_def)
    moreover have "r_members R s' (Stalls_left c') = r_members R s (Stalls_left c')"
      using carried(3) s3(3) by (simp add: carried_out_def)
    moreover have "stream_field R s' c = (if ok then sw_stream ord else stream_field R s3 c)"
      using carried(3) resolved_stream [OF carried(1)] assms(3) by (simp add: carried_out_def)
    ultimately show ?thesis using carried(2) field [OF s3(1)] resolved_stream [OF carried(1)] by simp
  next
    case silent
    have s': "s' = r_del R ?s1 (Live (Switch_status c))" using silent(2) [OF assms(2)] by simp
    have "on_air R s' c" by (rule on_air_same [OF assms(2)]) (simp_all add: s' same)
    moreover have "stream_field R s' c = stream_field R s c" by (rule field) (simp add: s' same)
    ultimately show ?thesis by (simp add: silent(1)) (simp add: s' same)
  qed
  then show "on_air R s' c" "r_members R s' (Stalls_left c') = r_members R s (Stalls_left c')"
    "stream_field R s' c = (if a = Switch_done then sw_stream given else stream_field R s c)" by auto
qed

end

lemma told_as_it_is:
  assumes "redis R" "change_stream_url R L e X src r c given wm s = (a, wm', s')" "a = Switch_done \<or> a = Switch_failed"
  shows "r_hget R s' (metadata c) ''url'' = Some (VStr (m_url (snd wm'))) \<and>
    (a = Switch_done \<longrightarrow>
      (\<exists>ord. fst (resolve_order R L e X src c given s) = Some ord \<and> m_url (snd wm') = sw_url ord \<and>
        r_get R s' (Live (Switch_request c)) = Some (VStr (sw_url ord)) \<and>
        (known_stream (sw_stream given) \<longrightarrow> stream_field R s' c = sw_stream given)))"
proof (cases rule: redis.change_outcome [OF assms(1,2), case_names error carried silent])
  case (carried ord ok m s3)
  then show ?thesis
    using resolved_stream [OF carried(1)] by (auto simp: carried_out_def split: if_splits)
qed (use assms(3) in auto)

text \<open>
  C10: Once a switch that was asked for is answered, done or failed, by whichever worker runs the
  channel, the metadata tells the URL its manager is on; where it is done that is the one asked for,
  told to every worker, and the metadata names the stream asked for.
\<close>

theorem switch_told_as_it_is:
  assumes "redis R" "change_stream_url R L e X src r c given wm s = (a, wm', s')" "a = Switch_done \<or> a = Switch_failed"
  shows "r_hget R s' (metadata c) ''url'' = Some (VStr (m_url (snd wm'))) \<and>
    (a = Switch_done \<longrightarrow>
      (\<exists>ord. fst (resolve_order R L e X src c given s) = Some ord \<and> m_url (snd wm') = sw_url ord \<and>
        r_get R s' (Live (Switch_request c)) = Some (VStr (sw_url ord)) \<and>
        (known_stream (sw_stream given) \<longrightarrow> stream_field R s' c = sw_stream given)))"
  by (rule told_as_it_is [OF assms])

text \<open>
  The manager goes on asking with the user agent it had, whatever account the new stream is of,
  while the metadata tells the new one.
\<close>

theorem switch_keeps_the_old_agent:
  assumes "redis R" "on_air R s c" "change_stream_url R L e X src r c given wm s = (Switch_done, wm', s')"
    and "fst (resolve_order R L e X src c given s) = Some ord" "text_or [] (sw_agent ord) \<noteq> []"
  shows "m_agent (snd wm') = m_agent (snd wm) \<and>
    r_hget R s' (metadata c) ''user_agent'' = Some (VStr (text_or [] (sw_agent ord)))"
proof (cases rule: redis.change_outcome [OF assms(1,3), case_names error carried silent])
  case (carried ord' ok m s3)
  then show ?thesis using assms(2,4,5) by (auto simp: carried_out_def split: if_splits)
qed auto

lemma fst_take_order: "closes \<Longrightarrow> fst (take_order R L e X c closes ord m s)"
  by (simp add: take_order_def switch_upstream_def Let_def split: option.split)

text \<open>Asked of the worker that runs the channel, a stream that can be had is switched to.\<close>

lemma switched_here:
  assumes "redis R" "on_air R s c" "fst (resolve_order R L e X src c given s) = Some ord"
    and "am_i_owner R s w c" "c \<in> set (stream_managers w)" "sr_closes r"
  shows "fst (change_stream_url R L e X src r c given (w, m) s) = Switch_done"
proof -
  obtain s1 where res: "resolve_order R L e X src c given s = (Some ord, s1)" using assms(3) by (metis fst_conv prod.collapse)
  note same = live_partD [OF redis.live_part_resolve [OF assms(1), of L e X src c given s], unfolded res snd_conv]
  have "on_air R s1 c" by (rule on_air_same [OF assms(2)]) (simp_all add: same)
  moreover have "am_i_owner R s1 w c" using assms(4) by (simp add: am_i_owner_def get_channel_owner_def same)
  moreover have "fst (direct_switch R L e X c (sr_closes r) ord m s1)"
    using fst_take_order [OF assms(6)] by (simp add: direct_switch_def Let_def case_prod_unfold)
  ultimately show ?thesis
    using assms(5) by (simp add: change_stream_url_def res on_air_exists case_prod_unfold Let_def)
qed

section \<open>The next stream\<close>

lemma position_at: "distinct ids \<Longrightarrow> i < length ids \<Longrightarrow> position_of ids (ids ! i) = Some i"
  by (induction ids arbitrary: i) (auto simp: nth_Cons split: nat.split)

lemma next_in_rotation_nth:
  "distinct (map str_id sts) \<Longrightarrow> i < length sts \<Longrightarrow>
     next_in_rotation sts (str_id (sts ! i)) = Some (sts ! ((i + 1) mod length sts))"
  using position_at [of "map str_id sts" i] by (simp add: next_in_rotation_def)

text \<open>
  C13: Asked for its next stream, a channel that plays one of its streams goes to the one after it in
  its own order, from the last to the first: the metadata names that one and the URL the manager is
  on.
\<close>

theorem next_stream_turns:
  assumes "redis R" "channel_by_uuid X c = Some ch" "distinct (map str_id (ch_streams ch))"
    and "0 \<notin> str_id ` set (ch_streams ch)" "i < length (ch_streams ch)"
    and "stream_field R s c = Some (str_id (ch_streams ch ! i))"
    and "next_stream_view R L e X src r c wm s = (200, wm', s')"
  shows "stream_field R s' c = Some (str_id (ch_streams ch ! ((i + 1) mod length (ch_streams ch)))) \<and>
    r_hget R s' (metadata c) ''url'' = Some (VStr (m_url (snd wm')))"
proof -
  let ?st = "ch_streams ch ! ((i + 1) mod length (ch_streams ch))"
  let ?ask = "\<lparr>sw_url = [], sw_agent = None, sw_stream = Some (str_id ?st), sw_profile = None, sw_name = None\<rparr>"
  obtain ord s1 where res: "resolve_order R L e X src c ?ask s = (Some ord, s1)"
    and ch: "change_stream_url R L e X src r c ord wm s1 = (Switch_done, wm', s')"
    using assms(2,6,7) next_in_rotation_nth [OF assms(3,5)]
    by (auto simp: next_stream_view_def stream_field_def answer_status_def Let_def
        split: if_splits option.splits prod.splits switch_answer.splits)
  have st: "sw_stream ord = Some (str_id ?st)" using resolved_stream [of R L e X src c ?ask s ord] res by simp
  have "?st \<in> set (ch_streams ch)" using assms(5) by (intro nth_mem mod_less_divisor) (cases "ch_streams ch", auto)
  then have "known_stream (sw_stream ord)" using st assms(4) by (auto simp: known_stream_def)
  then show ?thesis using told_as_it_is [OF assms(1) ch] st by auto
qed

end
