(* ===== verification/Stutter_Facts.thy ===== *)
theory Stutter_Facts
  imports Stutter Switch_Facts
begin

text \<open>
  What a report of a stutter may do: whose picture it may change, which stream it may choose, and how
  often it moves a channel.
\<close>

section \<open>The stream chosen\<close>

lemma pick_stream_in: "pick_stream cur lf fitting = Some st \<Longrightarrow> st \<in> set fitting"
  by (auto simp: pick_stream_def find_Some_iff split: option.splits list.splits)

lemma pick_stream_lower:
  "pick_stream cur True fitting = Some st \<Longrightarrow> x \<in> set fitting \<Longrightarrow> lower_picture x cur \<Longrightarrow> lower_picture st cur"
  by (auto simp: pick_stream_def find_Some_iff find_None_iff split: option.splits list.splits)

lemma stream_by_id_id: "stream_by_id X i = Some st \<Longrightarrow> str_id st = i"
  by (auto simp: stream_by_id_def find_Some_iff)

lemma chosen_stream:
  assumes "stream_after_stutter R L e X c cur left lf s = (Some st, s')"
  shows "\<not> is_custom st \<and> dec (str_id st) \<notin> left \<and>
    \<not> better_picture st (if known_stream cur then Option.bind cur (stream_by_id X) else None) \<and>
    (\<exists>ch. channel_by_uuid X c = Some ch \<and> str_id st \<in> str_id ` set (ch_streams ch)) \<and>
    \<not> (known_stream cur \<and> cur = Some (str_id st))"
proof -
  obtain ch where ch: "channel_by_uuid X c = Some ch"
    using assms by (auto simp: stream_after_stutter_def split: option.splits)
  let ?alts = "fst (get_alternate_streams R L e ch cur None s)"
  let ?current = "if known_stream cur then Option.bind cur (stream_by_id X) else None"
  have "pick_stream ?current lf (filter (fits_stutter ?current)
      (List.map_filter (\<lambda>a. stream_by_id X (fst a)) (filter (\<lambda>a. dec (fst a) \<notin> left) ?alts))) = Some st"
    using assms ch by (simp add: stream_after_stutter_def case_prod_unfold Let_def)
  from pick_stream_in [OF this] obtain a where a: "a \<in> set ?alts" "dec (fst a) \<notin> left" "stream_by_id X (fst a) = Some st"
    and fits: "fits_stutter ?current st"
    by (auto simp: map_filter_member)
  have "str_id st = fst a" by (rule stream_by_id_id [OF a(3)])
  then show ?thesis
    using a(2) fits ch alternate_elsewhere [OF a(1)] by (auto simp: fits_stutter_def)
qed

lemma chosen_known:
  assumes "stream_after_stutter R L e X c cur left lf s = (Some st, s')" "0 \<notin> str_id ` snd ` set (stream_rows X)"
  shows "str_id st \<noteq> 0"
proof -
  obtain ch where ch: "channel_by_uuid X c = Some ch"
    using assms by (auto simp: stream_after_stutter_def split: option.splits)
  have "\<exists>i. stream_by_id X i = Some st"
    using assms(1) ch
    by (auto simp: stream_after_stutter_def case_prod_unfold Let_def map_filter_member dest!: pick_stream_in)
  then show ?thesis
    using assms(2) by (force simp: stream_by_id_def find_Some_iff in_set_conv_nth)
qed

section \<open>When it moves\<close>

context redis
begin

lemma stutter_choice_live: "live_part R (snd (stream_after_stutter R L e X c cur left lf s)) = live_part R s"
  by (simp add: stream_after_stutter_def case_prod_unfold Let_def split: option.split)

lemma stall_noted_hash:
  "r_hash R (snd (r_setnx R (note_stall_of R e c d s) (Stalls_switching c) ttl v)) (Live k) = r_hash R s (Live k)"
  "r_get R (snd (r_setnx R (note_stall_of R e c d s) (Stalls_switching c) ttl v)) (Live k) = r_get R s (Live k)"
  "r_members R (snd (r_setnx R (note_stall_of R e c d s) (Stalls_switching c) ttl v)) j = r_members R s j"
  by (simp_all add: note_stall_of_def r_setnx_def split: option.split)

lemma stalled_at_noted:
  "other \<noteq> Some d \<Longrightarrow> stalled_at R (note_stall_of R e c d s) c other = stalled_at R s c other"
  by (cases other) (auto simp: stalled_at_def note_stall_of_def hget_hset)

lemma left_noted:
  "set (r_members R (note_left R c cur s) (Stalls_left c)) =
     (if known_stream cur then insert (dec (the cur)) (streams_left R c s) else streams_left R c s)"
  by (auto simp: note_left_def streams_left_def known_stream_def members_sadd split: option.split)

lemma reason_noted:
  "f \<noteq> ''stream_switch_reason'' \<Longrightarrow> r_hget R (note_move R c cur s) (metadata c) f = r_hget R s (metadata c) f"
  "r_get R (note_move R c cur s) (Live k) = r_get R s (Live k)"
  "streams_left R c (note_move R c cur s) =
      (if known_stream cur then insert (dec (the cur)) (streams_left R c s) else streams_left R c s)"
  using left_noted [of c cur s]
  by (auto simp: note_move_def note_left_def hget_hset known_stream_def streams_left_def split: option.split)

lemma hold_quality_frame [simp]:
  "r_hash R (hold_quality R e v l s) = r_hash R s" "r_members R (hold_quality R e v l s) = r_members R s"
  "r_get R (hold_quality R e v l s) (Live k) = r_get R s (Live k)"
  by (auto simp: hold_quality_def split: option.split)

text \<open>What a move for stutter does to a channel on air.\<close>

lemma moved_on_air:
  assumes "switch_for_stutter R L e X src r v c wm s = (a, wm', s')" "on_air R s c"
    and "0 \<notin> str_id ` snd ` set (stream_rows X)"
  shows "on_air R s' c \<and>
    (case a of
       Switched st \<Rightarrow>
         card (streams_left R c s) < MAX_SWITCHES \<and> str_id st \<noteq> 0 \<and> stream_field R s' c = Some (str_id st) \<and>
         dec (str_id st) \<notin> streams_left R c s \<and>
         \<not> (known_stream (stream_field R s c) \<and> stream_field R s c = Some (str_id st)) \<and>
         streams_left R c s' = (if known_stream (stream_field R s c)
           then insert (dec (the (stream_field R s c))) (streams_left R c s) else streams_left R c s)
     | _ \<Rightarrow> stream_field R s' c = stream_field R s c \<and> streams_left R c s' = streams_left R c s)"
proof -
  let ?left = "streams_left R c s" and ?cur = "stream_field R s c"
  obtain choice s1 where ch: "stream_after_stutter R L e X c ?cur ?left (?left \<noteq> {}) s = (choice, s1)"
    by (cases "stream_after_stutter R L e X c ?cur ?left (?left \<noteq> {}) s")
  note same = live_partD [OF stutter_choice_live [of L e X c ?cur ?left "?left \<noteq> {}" s, unfolded ch snd_conv]]
  have air1: "on_air R s1 c" by (rule on_air_same [OF assms(2)]) (simp_all add: same)
  have f1: "stream_field R s1 c = ?cur" "streams_left R c s1 = ?left" by (simp_all add: stream_field_def streams_left_def same)
  show ?thesis
  proof (cases "MAX_SWITCHES \<le> card ?left \<or> choice = None")
    case True
    then show ?thesis
      using assms(1,2) ch air1 f1 by (auto simp: switch_for_stutter_def Let_def split: if_splits)
  next
    case False
    then obtain st where st: "choice = Some st" by auto
    have st0: "str_id st \<noteq> 0" by (rule chosen_known [OF ch [unfolded st] assms(3)])
    obtain b wm2 s2 where chg: "change_stream_url R L e X src r c (stream_order (str_id st)) wm s1 = (b, wm2, s2)"
      by (metis prod_cases3)
    have known: "known_stream (sw_stream (stream_order (str_id st)))"
      using st0 by (simp add: stream_order_def known_stream_def)
    note run = change_on_air [OF chg air1 known]
    have l2: "streams_left R c s2 = ?left" using run(2) f1(2) by (simp add: streams_left_def)
    show ?thesis
    proof (cases "b = Switch_done")
      case False2: False
      then show ?thesis
        using assms(1) False ch st chg run(1,3) f1(1) l2 by (auto simp: switch_for_stutter_def Let_def)
    next
      case True
      define s3 where "s3 = note_move R c ?cur s2"
      note n = reason_noted [where c = c and cur = ?cur and s = s2, folded s3_def]
      have a: "a = Switched st" and s': "s' = s3 \<or> s' = hold_quality R e v (label_of (Some st)) s3"
        using assms(1) False ch st chg True by (auto simp: switch_for_stutter_def Let_def s3_def split: if_splits)
      have e: "r_hash R s' = r_hash R s3" "r_members R s' = r_members R s3"
        "r_get R s' (Live k) = r_get R s3 (Live k)" for k
        using s' by auto
      have "on_air R s' c" by (rule on_air_same [OF run(1)]) (simp_all add: e n)
      moreover have "stream_field R s' c = Some (str_id st)"
        using run(3) True by (simp add: stream_field_def e n stream_order_def)
      moreover have "streams_left R c s' = (if known_stream ?cur then insert (dec (the ?cur)) ?left else ?left)"
        using n(3) l2 by (simp add: streams_left_def e)
      ultimately show ?thesis
        using chosen_stream [OF ch [unfolded st]] False st0 by (simp add: a)
    qed
  qed
qed

end

section \<open>A report\<close>

lemma reported_move:
  assumes "report_stutter R L e X src r v given wm s = (a, wm', s')"
  defines "c \<equiv> stutter_channel X given"
  obtains (early) d where "\<And>st. a \<noteq> Switched st" "s' = s \<or> s' = note_stall_of R e c d s \<or>
      s' = snd (r_setnx R (note_stall_of R e c d s) (Stalls_switching c) SWITCHING_TTL (VStr ''1''))"
  | (tried) d s3 where "server_device v = Some d" "is_declared (Some d)" "session_for R s (Some v) c = []"
      "\<exists>cl \<in> set (channel_clients R s c). server_device (client_viewer e cl) = Some d"
      "\<forall>cl \<in> set (channel_clients R s c). stutters_too R e (note_stall_of R e c d s) c d cl"
      "stream_began R s c = 0 \<or> SETTLE_SECONDS \<le> now e - stream_began R s c"
      "switch_for_stutter R L e X src r v c wm
         (snd (r_setnx R (note_stall_of R e c d s) (Stalls_switching c) SWITCHING_TTL (VStr ''1''))) = (a, wm', s3)"
      "s' = s3 \<or> s' = r_del R s3 (Stalls_switching c)" "(\<exists>st. a = Switched st) \<Longrightarrow> s' = s3"
proof (cases "is_declared (server_device v)")
  case False
  then show thesis using assms(1) early by (auto simp: report_stutter_def)
next
  case True
  then obtain d where d: "server_device v = Some d" by (cases "server_device v") (auto simp: is_declared_def)
  let ?s1 = "note_stall_of R e c d s"
  obtain got s2 where nx: "r_setnx R ?s1 (Stalls_switching c) SWITCHING_TTL (VStr ''1'') = (got, s2)" by (metis prod.collapse)
  obtain b wm3 s3 where sw: "switch_for_stutter R L e X src r v c wm s2 = (b, wm3, s3)" by (metis prod_cases3)
  let ?go = "c \<noteq> [] \<and> session_for R s (Some v) c = [] \<and> r_hash R s (metadata c) \<noteq> [] \<and>
    list_ex (\<lambda>cl. server_device (client_viewer e cl) = Some d) (channel_clients R s c) \<and>
    \<not> (stream_began R s c \<noteq> 0 \<and> now e - stream_began R s c < SETTLE_SECONDS) \<and>
    list_all (stutters_too R e ?s1 c d) (channel_clients R s c) \<and> got"
  note u = assms(1) [unfolded report_stutter_def Let_def, folded c_def]
  show thesis
  proof (cases ?go)
    case False
    have "(\<forall>st. a \<noteq> Switched st) \<and> (s' = s \<or> s' = ?s1 \<or> s' = s2)"
      using u True d nx False by (auto split: if_splits)
    then show thesis using early [of d] nx by simp
  next
    case go: True
    have "a = b" "wm' = wm3" "s' = (case b of Switched st \<Rightarrow> s3 | _ \<Rightarrow> r_del R s3 (Stalls_switching c))"
      using u True d nx sw go by (auto split: if_splits)
    then show thesis
      using True d go nx sw by (intro tried [of d s3]) (auto simp: list_ex_iff list_all_iff split: stutter_answer.splits)
  qed
qed

text \<open>
  C11: A channel is moved for a stutter only when the device that reported it is on it, on no stream of
  its own, and the stream has run for ten seconds; when everybody else on it but the server's own
  helpers is a known device that stuttered in the last half minute; and when fewer than two of its
  streams were left. It moves to another stream of the channel that is neither the fallback nor one
  that was left, and whose picture is not better.
\<close>

theorem stutter_moves_rightly:
  assumes "redis R" "report_stutter R L e X src r v given wm s = (Switched st, wm', s')"
    and "c = stutter_channel X given"
  shows "(\<exists>d. server_device v = Some d \<and> is_declared (Some d) \<and>
      (\<exists>cl \<in> set (channel_clients R s c). server_device (client_viewer e cl) = Some d) \<and>
      (\<forall>cl \<in> set (channel_clients R s c).
         is_caption_client (client_field cl ''user_agent'') \<or> server_device (client_viewer e cl) = Some d \<or>
         is_declared (server_device (client_viewer e cl)) \<and>
         now e - stalled_at R s c (server_device (client_viewer e cl)) \<le> STALLED_TOGETHER_SECONDS)) \<and>
    session_for R s (Some v) c = [] \<and>
    (stream_began R s c = 0 \<or> SETTLE_SECONDS \<le> now e - stream_began R s c) \<and>
    card (streams_left R c s) < MAX_SWITCHES \<and>
    (\<exists>ch. channel_by_uuid X c = Some ch \<and> str_id st \<in> str_id ` set (ch_streams ch)) \<and>
    \<not> is_custom st \<and> dec (str_id st) \<notin> streams_left R c s \<and>
    (known_stream (stream_field R s c) \<longrightarrow>
       stream_field R s c \<noteq> Some (str_id st) \<and> \<not> better_picture st (Option.bind (stream_field R s c) (stream_by_id X)))"
proof (cases rule: reported_move [OF assms(2), folded assms(3), case_names early tried])
  case (early d)
  then show ?thesis by blast
next
  case (tried d s3)
  let ?s2 = "snd (r_setnx R (note_stall_of R e c d s) (Stalls_switching c) SWITCHING_TTL (VStr ''1''))"
  have same: "streams_left R c ?s2 = streams_left R c s" "stream_field R ?s2 c = stream_field R s c"
    by (simp_all add: streams_left_def stream_field_def redis.stall_noted_hash [OF assms(1)])
  obtain s1 where w: "card (streams_left R c ?s2) < MAX_SWITCHES"
    "stream_after_stutter R L e X c (stream_field R ?s2 c) (streams_left R c ?s2) (streams_left R c ?s2 \<noteq> {}) ?s2 = (Some st, s1)"
    using tried(7) by (auto simp: switch_for_stutter_def Let_def split: if_splits option.splits prod.splits)
  note ch = chosen_stream [OF w(2), unfolded same]
  have "\<forall>cl \<in> set (channel_clients R s c).
         is_caption_client (client_field cl ''user_agent'') \<or> server_device (client_viewer e cl) = Some d \<or>
         is_declared (server_device (client_viewer e cl)) \<and>
         now e - stalled_at R s c (server_device (client_viewer e cl)) \<le> STALLED_TOGETHER_SECONDS"
    using tried(5) redis.stalled_at_noted [OF assms(1)] unfolding stutters_too_def Let_def by metis
  then show ?thesis using tried(1-4,6) w(1) ch same by auto
qed

section \<open>How often\<close>

text \<open>
  What happens to a channel: reports, with the moment, the worker and the viewer of each, and in
  between whatever else changes the channel (a failover, an order to switch).
\<close>

datatype 's stutter_event =
    Report env "'s switch_run" worker viewer string
  | Elsewhere "manager \<times> 's \<Rightarrow> manager \<times> 's"

text \<open>The channel is on a known stream that it did not leave for a stutter before.\<close>

definition on_new_stream :: "'s redis_api \<Rightarrow> string \<Rightarrow> 's \<Rightarrow> bool" where
  "on_new_stream R c s \<longleftrightarrow>
     (case stream_field R s c of None \<Rightarrow> False | Some i \<Rightarrow> i \<noteq> 0 \<and> dec i \<notin> streams_left R c s)"

text \<open>How many reports moved it, and how often something else left it on no such stream.\<close>

fun stutter_moves ::
  "'s redis_api \<Rightarrow> logins \<Rightarrow> site \<Rightarrow> sources \<Rightarrow> string \<Rightarrow> 's stutter_event list \<Rightarrow> manager \<Rightarrow> 's \<Rightarrow> nat \<times> nat" where
  "stutter_moves R L X src c [] m s = (0, 0)"
| "stutter_moves R L X src c (Report e r w v given # events) m s =
     (let (a, wm, s1) = report_stutter R L e X src r v given (w, m) s;
          (n, again) = stutter_moves R L X src c events (snd wm) s1
      in (if \<exists>st. a = Switched st then Suc n else n, again))"
| "stutter_moves R L X src c (Elsewhere f # events) m s =
     (let (m1, s1) = f (m, s);
          (n, again) = stutter_moves R L X src c events m1 s1
      in (n, if on_new_stream R c s1 then again else Suc again))"

text \<open>The reports are about the channel; anything else leaves it on air and its record as it is.\<close>

fun event_about :: "'s redis_api \<Rightarrow> site \<Rightarrow> string \<Rightarrow> 's stutter_event \<Rightarrow> bool" where
  "event_about R X c (Report e r w v given) \<longleftrightarrow> stutter_channel X given = c"
| "event_about R X c (Elsewhere f) \<longleftrightarrow>
     (\<forall>m s. on_air R s c \<longrightarrow>
        on_air R (snd (f (m, s))) c \<and> streams_left R c (snd (f (m, s))) = streams_left R c s)"

context redis
begin

lemma unswitched_case:
  "\<nexists>st. a = Switched st \<Longrightarrow> (case a of Switched st \<Rightarrow> P st | _ \<Rightarrow> Q) \<Longrightarrow> Q"
  by (cases a) auto

lemma report_on_air:
  assumes "report_stutter R L e X src r v given wm s = (a, wm', s')" "stutter_channel X given = c" "on_air R s c"
    and "0 \<notin> str_id ` snd ` set (stream_rows X)"
  shows "on_air R s' c \<and>
    (if \<exists>st. a = Switched st
     then card (streams_left R c s) < MAX_SWITCHES \<and> on_new_stream R c s' \<and>
          card (streams_left R c s') = (if on_new_stream R c s then 1 else 0) + card (streams_left R c s)
     else stream_field R s' c = stream_field R s c \<and> streams_left R c s' = streams_left R c s)"
proof (cases rule: reported_move [OF assms(1), unfolded assms(2), case_names early tried])
  case (early d)
  have same: "r_hash R s' (Live k) = r_hash R s (Live k)" "r_get R s' (Live k) = r_get R s (Live k)"
    "r_members R s' = r_members R s" for k
    using early(2) by (auto simp: note_stall_of_def r_setnx_def split: option.splits)
  have "on_air R s' c" by (rule on_air_same [OF assms(3)]) (simp_all add: same)
  then show ?thesis using early(1) by (simp add: stream_field_def streams_left_def same)
next
  case (tried d s3)
  let ?s2 = "snd (r_setnx R (note_stall_of R e c d s) (Stalls_switching c) SWITCHING_TTL (VStr ''1''))"
  have air2: "on_air R ?s2 c" by (rule on_air_same [OF assms(3)]) (simp_all del: hash_setnx members_setnx add: stall_noted_hash)
  have f2: "stream_field R ?s2 c = stream_field R s c" "streams_left R c ?s2 = streams_left R c s"
    by (simp_all del: hash_setnx members_setnx add: stream_field_def streams_left_def stall_noted_hash)
  note moved = moved_on_air [OF tried(7) air2 assms(4), unfolded f2]
  show ?thesis
  proof (cases "\<exists>st. a = Switched st")
    case True
    then obtain st where a: "a = Switched st" by blast
    have s': "s' = s3" by (rule tried(9) [OF True])
    have "finite (streams_left R c s)" by (simp add: streams_left_def)
    then show ?thesis using moved a s'
      by (cases "stream_field R s c")
        (auto simp: known_stream_def on_new_stream_def card_insert_if split: if_splits)
  next
    case False
    have "on_air R s3 c \<and> stream_field R s3 c = stream_field R s c \<and> streams_left R c s3 = streams_left R c s"
      by (rule conjI [OF conjunct1 [OF moved] unswitched_case [OF False conjunct2 [OF moved]]])
    then have s3: "on_air R s3 c" "stream_field R s3 c = stream_field R s c" "streams_left R c s3 = streams_left R c s" by blast+
    have "on_air R s' c" by (rule on_air_same [OF s3(1)]) (use tried(8) in auto)
    moreover have "stream_field R s' c = stream_field R s3 c" "streams_left R c s' = streams_left R c s3"
      using tried(8) by (elim disjE; simp add: stream_field_def streams_left_def)+
    ultimately show ?thesis using False s3(2,3) by simp
  qed
qed

lemma moves_bounded:
  assumes "\<forall>x\<in>set events. event_about R X c x" "on_air R s c" "0 \<notin> str_id ` snd ` set (stream_rows X)"
    and "stutter_moves R L X src c events m s = (n, again)"
  shows "n \<le> (MAX_SWITCHES - card (streams_left R c s)) + (if on_new_stream R c s then 0 else 1) + again"
  using assms
proof (induction events arbitrary: m s n again)
  case Nil
  then show ?case by simp
next
  case (Cons x events)
  show ?case
  proof (cases x)
    case (Report e r w v given)
    obtain a wm s1 where rep: "report_stutter R L e X src r v given (w, m) s = (a, wm, s1)" by (metis prod_cases3)
    obtain k b where later: "stutter_moves R L X src c events (snd wm) s1 = (k, b)"
      by (metis prod.collapse)
    have nb: "n = (if \<exists>st. a = Switched st then Suc k else k)" "again = b"
      using Cons.prems(4) by (simp_all add: Report rep later)
    have "stutter_channel X given = c" using Cons.prems(1) Report by simp
    note step = report_on_air [OF rep this Cons.prems(2,3)]
    have "k \<le> (MAX_SWITCHES - card (streams_left R c s1)) + (if on_new_stream R c s1 then 0 else 1) + b"
      using Cons.IH [OF _ _ Cons.prems(3) later] Cons.prems(1) step by simp
    moreover have "\<nexists>st. a = Switched st \<Longrightarrow> on_new_stream R c s1 = on_new_stream R c s"
      using step by (auto simp: on_new_stream_def split: option.split)
    ultimately show ?thesis using step nb by (auto split: if_splits)
  next
    case (Elsewhere f)
    obtain m1 s1 where f: "f (m, s) = (m1, s1)" by (cases "f (m, s)")
    obtain k b where later: "stutter_moves R L X src c events m1 s1 = (k, b)" by (metis prod.collapse)
    have nb: "n = k" "again = (if on_new_stream R c s1 then b else Suc b)"
      using Cons.prems(4) by (simp_all add: Elsewhere f later)
    have "event_about R X c (Elsewhere f)" using Cons.prems(1) Elsewhere by simp
    then have s1: "on_air R s1 c" "streams_left R c s1 = streams_left R c s"
      using Cons.prems(2) f by (metis event_about.simps(2) snd_conv)+
    have "k \<le> (MAX_SWITCHES - card (streams_left R c s1)) + (if on_new_stream R c s1 then 0 else 1) + b"
      using Cons.IH [OF _ s1(1) Cons.prems(3) later] Cons.prems(1) by simp
    then show ?thesis using s1(2) nb by (simp split: if_splits)
  qed
qed

end

text \<open>
  C12: However often the devices on a channel report a stutter, and whatever else switches it
  meanwhile, while it stays on air and its record of the streams it left lasts it is moved for a
  stutter at most twice, less the streams in the record already, and once more for each time it was
  on a stream that is not known or that it had left before: at the start, or because something
  other than a report (a failover, an order to switch) had brought it there.
\<close>

theorem stutter_moves_bounded:
  assumes "redis R" "\<forall>x\<in>set events. event_about R X c x" "on_air R s c"
    and "0 \<notin> str_id ` snd ` set (stream_rows X)"
    and "stutter_moves R L X src c events m s = (n, again)"
  shows "n \<le> (MAX_SWITCHES - card (streams_left R c s)) + (if on_new_stream R c s then 0 else 1) + again"
  by (rule redis.moves_bounded [OF assms])

text \<open>
  A channel that came back to a stream it had left (a failover knows nothing of the record) is moved
  once more without that being counted.
\<close>

theorem move_from_a_left_stream_not_counted:
  assumes "redis R" "report_stutter R L e X src r v given wm s = (Switched st, wm', s')" "stutter_channel X given = c"
    and "on_air R s c" "0 \<notin> str_id ` snd ` set (stream_rows X)" "stream_field R s c = Some cur" "dec cur \<in> streams_left R c s"
  shows "streams_left R c s' = streams_left R c s"
proof (cases rule: reported_move [OF assms(2), unfolded assms(3), case_names early tried])
  case (early d)
  then show ?thesis by blast
next
  case (tried d s3)
  let ?s2 = "snd (r_setnx R (note_stall_of R e c d s) (Stalls_switching c) SWITCHING_TTL (VStr ''1''))"
  note noted = redis.stall_noted_hash [OF assms(1)]
  have air2: "on_air R ?s2 c" by (rule on_air_same [OF assms(4)]) (simp_all add: noted)
  have f2: "stream_field R ?s2 c = Some cur" "streams_left R c ?s2 = streams_left R c s"
    using assms(6) by (simp_all add: stream_field_def streams_left_def noted)
  show ?thesis
    using redis.moved_on_air [OF assms(1) tried(7) air2 assms(5), unfolded f2] tried(9) assms(7) by auto
qed

end
