(* ===== verification/Stutter_Cases.thy ===== *)
theory Stutter_Cases
  imports Stutter_Facts Channel_Facts
begin

text \<open>
  The properties of switches and stutters at concrete values: a channel on the first of its two
  streams, watched by one device that says who it is.
\<close>

definition st_viewer :: viewer where
  "st_viewer = ex_viewer\<lparr>server_device := Some ''app|tv''\<rparr>"

definition st_env :: env where
  "st_env = fo_env\<lparr>now := 1000\<rparr>"

definition st_run :: "mem switch_run" where
  "st_run = \<lparr>sr_scan = \<lambda>_ _. [], sr_keys = \<lambda>_ _. [], sr_ended = True, sr_answered = True, sr_starts = True,
             sr_closes = True, sr_heard = None\<rparr>"

definition st_mem :: mem where
  "st_mem = fo_playing\<lparr>
     m_get := (m_get fo_playing)(Live (Worker_heartbeat ''w1'') \<mapsto> VStr ''1'', owner_key ''c5'' \<mapsto> VStr ''w1''),
     m_hash := [(metadata ''c5'', [(''url'', VStr ''login1''), (''stream_id'', VInt 10), (''state'', VStr ''active''),
                                   (''owner'', VStr ''w1'')]),
                (Live (Client_metadata ''c5'' ''k1''), [(''server_device'', VStr ''app|tv'')])],
     m_members := (\<lambda>_. [])(Live (Clients ''c5'') := [''k1''])\<rparr>"

abbreviation st_report :: "stutter_answer \<times> (worker \<times> manager) \<times> mem" where
  "st_report \<equiv> report_stutter mem_redis ex_logins st_env fo_site fo_sources st_run st_viewer ''c5'' (ex_worker ''w1'', fo_manager) st_mem"

lemma st_channel: "stutter_channel fo_site ''c5'' = ''c5''"
  by code_simp


definition st_mem2 :: mem where
  "st_mem2 = snd (r_setnx mem_redis (note_stall_of mem_redis st_env ''c5'' ''app|tv'' st_mem) (Stalls_switching ''c5'') SWITCHING_TTL (VStr ''1''))"

lemma st_a: "server_device st_viewer = Some ''app|tv''" "is_declared (Some ''app|tv'')"
  by code_simp+

lemma st_b: "session_for mem_redis st_mem (Some st_viewer) ''c5'' = []"
  by code_simp

lemma st_c: "r_hash mem_redis st_mem (metadata ''c5'') \<noteq> []"
  by code_simp

lemma st_d: "list_ex (\<lambda>cl. server_device (client_viewer st_env cl) = Some ''app|tv'') (channel_clients mem_redis st_mem ''c5'')"
  by code_simp

lemma st_e: "stream_began mem_redis st_mem ''c5'' = 0"
  by (simp add: stream_began_def moment_of_def) code_simp

lemma st_f: "list_all (stutters_too mem_redis st_env (note_stall_of mem_redis st_env ''c5'' ''app|tv'' st_mem) ''c5'' ''app|tv'') (channel_clients mem_redis st_mem ''c5'')"
  by code_simp

lemma st_g: "fst (r_setnx mem_redis (note_stall_of mem_redis st_env ''c5'' ''app|tv'' st_mem) (Stalls_switching ''c5'') SWITCHING_TTL (VStr ''1''))"
  by code_simp

lemma st_h: "streams_left mem_redis ''c5'' st_mem2 = {}" "stream_field mem_redis st_mem2 ''c5'' = Some 10"
  by code_simp+

lemma st_i: "fst (stream_after_stutter mem_redis ex_logins st_env fo_site ''c5'' (Some 10) {} False st_mem2) = Some fo_stream"
  by code_simp


lemma st_quiet: "snd (stream_after_stutter mem_redis ex_logins st_env fo_site ''c5'' (Some 10) {} False st_mem2) = st_mem2"
proof -
  have c: "channel_by_uuid fo_site ''c5'' = Some fo_channel" by code_simp
  have "snd (get_alternate_streams mem_redis ex_logins st_env fo_channel (Some 10) None st_mem2) = st_mem2"
    by (rule mem.alternates_quiet) (simp add: st_env_def fo_env_def)
  then show ?thesis by (simp add: stream_after_stutter_def c case_prod_unfold Let_def)
qed

lemma st_order: "fst (resolve_order mem_redis ex_logins st_env fo_site fo_sources ''c5'' (stream_order 20) st_mem2) \<noteq> None"
  by code_simp

lemma st_air: "on_air mem_redis st_mem2 ''c5''" "on_air mem_redis st_mem ''c5''"
  by code_simp+

lemma st_owner: "am_i_owner mem_redis st_mem2 (ex_worker ''w1'') ''c5''"
  by code_simp

lemma st_changed:
  "fst (change_stream_url mem_redis ex_logins st_env fo_site fo_sources st_run ''c5'' (stream_order 20) (ex_worker ''w1'', m) st_mem2) =
     Switch_done"
proof -
  obtain ord where "fst (resolve_order mem_redis ex_logins st_env fo_site fo_sources ''c5'' (stream_order 20) st_mem2) = Some ord"
    using st_order by auto
  from switched_here [OF mem.redis_axioms st_air(1) this st_owner] show ?thesis by (simp add: st_run_def)
qed

lemma st_moved:
  "fst (switch_for_stutter mem_redis ex_logins st_env fo_site fo_sources st_run st_viewer ''c5'' (ex_worker ''w1'', m) st_mem2) =
     Switched fo_stream"
proof -
  have id: "str_id fo_stream = 20" by (simp add: fo_stream_def)
  obtain wm s where "change_stream_url mem_redis ex_logins st_env fo_site fo_sources st_run ''c5'' (stream_order 20) (ex_worker ''w1'', m) st_mem2 =
      (Switch_done, wm, s)" using st_changed by (metis prod.collapse)
  moreover have "stream_after_stutter mem_redis ex_logins st_env fo_site ''c5'' (Some 10) {} False st_mem2 = (Some fo_stream, st_mem2)"
    using st_i st_quiet by (metis prod.collapse)
  ultimately show ?thesis by (simp add: switch_for_stutter_def st_h id MAX_SWITCHES_def)
qed

lemma st_switched: "fst st_report = Switched fo_stream"
proof -
  obtain wm s where "switch_for_stutter mem_redis ex_logins st_env fo_site fo_sources st_run st_viewer ''c5'' (ex_worker ''w1'', fo_manager) st_mem2 =
      (Switched fo_stream, wm, s)" using st_moved by (metis prod.collapse)
  moreover have "r_setnx mem_redis (note_stall_of mem_redis st_env ''c5'' ''app|tv'' st_mem) (Stalls_switching ''c5'') SWITCHING_TTL (VStr ''1'') =
      (True, st_mem2)" using st_g by (simp add: st_mem2_def prod_eq_iff)
  ultimately show ?thesis
    using st_b st_c st_d st_f by (simp add: report_stutter_def st_channel st_a st_e)
qed

lemma stutter_moves_rightly_witness:
  "card (streams_left mem_redis ''c5'' st_mem) < MAX_SWITCHES \<and> str_id fo_stream \<noteq> 10"
proof -
  obtain wm s where "st_report = (Switched fo_stream, wm, s)" using st_switched by (metis prod.collapse)
  from stutter_moves_rightly [OF mem.redis_axioms this st_channel [symmetric]]
  have "card (streams_left mem_redis ''c5'' st_mem) < MAX_SWITCHES" by blast
  then show ?thesis by (simp add: fo_stream_def)
qed

text \<open>Two reports, and in between a failover back to the stream the first had left.\<close>

definition st_events :: "mem stutter_event list" where
  "st_events =
     [Report st_env st_run (ex_worker ''w1'') st_viewer ''c5'',
      Elsewhere (\<lambda>(m, s). (m, r_hset mem_redis s (metadata ''c5'') ''stream_id'' (VInt 10))),
      Report st_env st_run (ex_worker ''w1'') st_viewer ''c5'']"

lemma st_back_keeps:
  "on_air mem_redis s ''c5'' \<Longrightarrow>
     on_air mem_redis (r_hset mem_redis s (metadata ''c5'') ''stream_id'' (VInt 10)) ''c5'' \<and>
     streams_left mem_redis ''c5'' (r_hset mem_redis s (metadata ''c5'') ''stream_id'' (VInt 10)) =
       streams_left mem_redis ''c5'' s"
  by (auto simp: on_air_def streams_left_def mem.hget_hset channel_state_of_def split: option.splits)

lemma stutter_moves_bounded_witness:
  "fst (stutter_moves mem_redis ex_logins fo_site fo_sources ''c5'' st_events fo_manager st_mem) \<le>
     2 + snd (stutter_moves mem_redis ex_logins fo_site fo_sources ''c5'' st_events fo_manager st_mem)"
proof -
  have ids: "0 \<notin> str_id ` snd ` set (stream_rows fo_site)" by code_simp
  have new: "on_new_stream mem_redis ''c5'' st_mem" "streams_left mem_redis ''c5'' st_mem = {}" by code_simp+
  have about: "\<forall>x\<in>set st_events. event_about mem_redis fo_site ''c5'' x"
    by (simp add: st_events_def st_channel st_back_keeps)
  obtain n again where "stutter_moves mem_redis ex_logins fo_site fo_sources ''c5'' st_events fo_manager st_mem = (n, again)"
    by (metis prod.collapse)
  with stutter_moves_bounded [OF mem.redis_axioms about st_air(2) ids this] show ?thesis
    by (simp add: new MAX_SWITCHES_def)
qed

lemma switch_told_as_it_is_witness:
  "\<exists>wm s. change_stream_url mem_redis ex_logins st_env fo_site fo_sources st_run ''c5'' (stream_order 20) (ex_worker ''w1'', fo_manager) st_mem2 =
      (Switch_done, wm, s) \<and> stream_field mem_redis s ''c5'' = Some 20"
proof -
  obtain wm s where c: "change_stream_url mem_redis ex_logins st_env fo_site fo_sources st_run ''c5'' (stream_order 20) (ex_worker ''w1'', fo_manager) st_mem2 =
      (Switch_done, wm, s)" using st_changed by (metis prod.collapse)
  from switch_told_as_it_is [OF mem.redis_axioms c] have "stream_field mem_redis s ''c5'' = Some 20"
    by (auto simp: stream_order_def known_stream_def)
  with c show ?thesis by blast
qed

lemma st_resolved:
  "fst (resolve_order mem_redis ex_logins st_env fo_site fo_sources ''c5'' (stream_order 20) st_mem2) =
     Some \<lparr>sw_url = ''login21'', sw_agent = Some ''agent'', sw_stream = Some 20, sw_profile = Some 21, sw_name = Some ''News HD''\<rparr>"
  by code_simp

lemma st_next:
  "fst (next_stream_view mem_redis ex_logins st_env fo_site fo_sources st_run ''c5'' (ex_worker ''w1'', m) st_mem2) = 200"
proof -
  let ?ord = "\<lparr>sw_url = ''login21'', sw_agent = Some ''agent'', sw_stream = Some 20, sw_profile = Some 21, sw_name = Some ''News HD''\<rparr>"
  obtain s1 where res: "resolve_order mem_redis ex_logins st_env fo_site fo_sources ''c5'' (stream_order 20) st_mem2 = (Some ?ord, s1)"
    using st_resolved by (metis prod.collapse)
  note same = live_partD [OF mem.live_part_resolve [of ex_logins st_env fo_site fo_sources "''c5''" "stream_order 20" st_mem2],
      unfolded res snd_conv]
  have air: "on_air mem_redis s1 ''c5''" by (rule on_air_same [OF st_air(1)]) (simp_all only: same ball_simps simp_thms)
  have own: "am_i_owner mem_redis s1 (ex_worker ''w1'') ''c5''"
    using st_owner by (simp only: am_i_owner_def get_channel_owner_def same)
  have "fst (change_stream_url mem_redis ex_logins st_env fo_site fo_sources st_run ''c5'' ?ord (ex_worker ''w1'', m) s1) = Switch_done"
    by (rule switched_here [OF mem.redis_axioms air _ own]) (simp_all add: resolve_order_def st_run_def)
  then obtain wm s2 where chg: "change_stream_url mem_redis ex_logins st_env fo_site fo_sources st_run ''c5'' ?ord (ex_worker ''w1'', m) s1 =
      (Switch_done, wm, s2)" by (metis prod.collapse)
  have ch: "channel_by_uuid fo_site ''c5'' = Some fo_channel" by code_simp
  have f: "r_hget mem_redis st_mem2 (metadata ''c5'') ''stream_id'' = Some (VInt 10)"
    "r_hget mem_redis st_mem2 (metadata ''c5'') ''m3u_profile'' = None" by code_simp+
  have nx: "next_in_rotation (ch_streams fo_channel) 10 = Some fo_stream" "length (ch_streams fo_channel) = 2" "str_id fo_stream = 20"
    by code_simp+
  show ?thesis
    by (simp add: next_stream_view_def ch f nx res [unfolded stream_order_def] chg answer_status_def)
qed

lemma next_stream_turns_witness:
  "\<exists>wm s. next_stream_view mem_redis ex_logins st_env fo_site fo_sources st_run ''c5'' (ex_worker ''w1'', fo_manager) st_mem2 =
      (200, wm, s) \<and> stream_field mem_redis s ''c5'' = Some 20"
proof -
  obtain wm s where v: "next_stream_view mem_redis ex_logins st_env fo_site fo_sources st_run ''c5'' (ex_worker ''w1'', fo_manager) st_mem2 =
      (200, wm, s)" using st_next by (metis prod.collapse)
  have ch: "channel_by_uuid fo_site ''c5'' = Some fo_channel" by code_simp
  have ids: "map str_id (ch_streams fo_channel) = [10, 20]" by code_simp
  then have "distinct (map str_id (ch_streams fo_channel))" "0 \<notin> str_id ` set (ch_streams fo_channel)" "length (ch_streams fo_channel) = 2"
    "str_id (ch_streams fo_channel ! 0) = 10" "str_id (ch_streams fo_channel ! 1) = 20"
    by (auto simp: fo_channel_def)
  then have "stream_field mem_redis s ''c5'' = Some 20"
    using next_stream_turns [OF mem.redis_axioms ch _ _ _ _ v, of 0] st_h(2) by simp
  with v show ?thesis by blast
qed

end
