(* ===== verification/Pool_Commands.thy ===== *)
theory Pool_Commands
  imports Connection_Pool "HOL-Library.Multiset"
begin

text \<open>
  The same reservations and releases (\<^verbatim>\<open>apps/m3u/connection_pool.py\<close>), one Redis command at a
  time: the workers share nothing but the store, so between any two commands of one request the
  commands of others may come. A task is a reservation or a release under way, or a stream that
  plays on its slot; a step takes the next command of any one of them, lets a new request arrive
  or a stream end, or changes something that is no slot counter (holds, for instance).
\<close>

section \<open>The commands\<close>

datatype pool_task =
    Slot_wanted profile int "viewer option"
  | Holds_read profile int "viewer option" int
  | Profile_over profile
  | Profile_counted profile int "viewer option"
  | Login_holds_read profile int rkey int
  | Login_over profile rkey
  | Login_refused profile
  | Login_counted profile rkey
  | On_slot int
  | Slot_left int
  | Login_key_read int rkey
  | Login_in_use int rkey
  | Login_below_zero int rkey
  | Login_given_back int
  | Login_released int
  | Profile_in_use int

text \<open>
  \<open>reserve_profile_slot\<close> and the reservation of the login's slot, command by command:
  the holds are read, the counter is raised (\<open>INCR\<close>), and lowered again when it was too high.
\<close>

fun reserve_command ::
  "'s redis_api \<Rightarrow> logins \<Rightarrow> env \<Rightarrow> pool_task \<Rightarrow> 's \<Rightarrow> pool_task option \<times> 's" where
  "reserve_command R L e (Slot_wanted p x v) s =
     (if 0 < max_streams p
      then (let (h, s1) = slots_held_for_others R e p v None s in (Some (Holds_read p x v h), s1))
      else (Some (Profile_counted p x v), s))"
| "reserve_command R L e (Holds_read p x v h) s =
     (let key = Profile_connections (prof_id p);
          s1 = r_incr R s key
      in if max_streams p + x - h < r_count R s1 key
         then (Some (Profile_over p), s1) else (Some (Profile_counted p x v), s1))"
| "reserve_command R L e (Profile_over p) s =
     (None, r_decr R s (Profile_connections (prof_id p)))"
| "reserve_command R L e (Profile_counted p x v) s =
     (case get_enforced_server_group_for_profile p of
        None \<Rightarrow> (Some (On_slot (prof_id p)), s)
      | Some g \<Rightarrow>
          (if max_streams p = 0 then (Some (On_slot (prof_id p)), s)
           else case credential_counter_key L p g of
                  None \<Rightarrow> (Some (Login_refused p), s)
                | Some k \<Rightarrow>
                    (let (h, s1) = slots_held_for_others R e p v (Some k) s
                     in (Some (Login_holds_read p x k h), s1))))"
| "reserve_command R L e (Login_holds_read p x k h) s =
     (let s1 = r_incr R s k
      in if r_count R s1 k \<le> max_streams p + x - h
         then (Some (Login_counted p k), s1) else (Some (Login_over p k), s1))"
| "reserve_command R L e (Login_over p k) s = (Some (Login_refused p), r_decr R s k)"
| "reserve_command R L e (Login_refused p) s =
     (None, if 0 < max_streams p then r_decr R s (Profile_connections (prof_id p)) else s)"
| "reserve_command R L e (Login_counted p k) s =
     (Some (On_slot (prof_id p)), remember_credential_release_key R (prof_id p) k s)"
| "reserve_command R L e t s = (Some t, s)"

text \<open>
  \<open>release_profile_slot\<close>, \<open>_release_credential_slot_by_profile_id\<close> and \<open>_safe_decr\<close>: the
  login to release is read, its counter read and lowered (set to zero when another release was
  faster), the key forgotten, then the profile's counter read and lowered.
\<close>

fun release_command :: "'s redis_api \<Rightarrow> pool_task \<Rightarrow> 's \<Rightarrow> pool_task option \<times> 's" where
  "release_command R (Slot_left i) s =
     (case credential_key (r_get R s (Profile_credential_release i)) of
        None \<Rightarrow> (Some (Login_released i), s)
      | Some k \<Rightarrow> (Some (Login_key_read i k), s))"
| "release_command R (Login_key_read i k) s =
     (if r_count R s k \<le> 0 then (Some (Login_given_back i), s) else (Some (Login_in_use i k), s))"
| "release_command R (Login_in_use i k) s =
     (let s1 = r_decr R s k
      in (if r_count R s1 k < 0 then Some (Login_below_zero i k) else Some (Login_given_back i), s1))"
| "release_command R (Login_below_zero i k) s = (Some (Login_given_back i), r_setcount R s k 0)"
| "release_command R (Login_given_back i) s =
     (Some (Login_released i), r_del R s (Profile_credential_release i))"
| "release_command R (Login_released i) s =
     (if 0 < r_count R s (Profile_connections i) then (Some (Profile_in_use i), s) else (None, s))"
| "release_command R (Profile_in_use i) s = (None, r_decr R s (Profile_connections i))"
| "release_command R t s = (Some t, s)"

fun releasing :: "pool_task \<Rightarrow> bool" where
  "releasing (Slot_left _) = True"
| "releasing (Login_key_read _ _) = True"
| "releasing (Login_in_use _ _) = True"
| "releasing (Login_below_zero _ _) = True"
| "releasing (Login_given_back _) = True"
| "releasing (Login_released _) = True"
| "releasing (Profile_in_use _) = True"
| "releasing _ = False"

definition next_command ::
  "'s redis_api \<Rightarrow> logins \<Rightarrow> env \<Rightarrow> pool_task \<Rightarrow> 's \<Rightarrow> pool_task option \<times> 's" where
  "next_command R L e t s = (if releasing t then release_command R t s else reserve_command R L e t s)"

text \<open>
  All workers together. \<open>X\<close> is the most extra capacity any request asks for; a request names a
  profile as the database has it.
\<close>

inductive pool_step ::
  "'s redis_api \<Rightarrow> logins \<Rightarrow> env \<Rightarrow> int \<Rightarrow> 's \<times> pool_task multiset \<Rightarrow> 's \<times> pool_task multiset \<Rightarrow> bool"
  for R L e X where
  arrives: "profile_by_id e (prof_id p) = Some p \<Longrightarrow> x \<le> X \<Longrightarrow>
     pool_step R L e X (s, M) (s, add_mset (Slot_wanted p x v) M)"
| goes_on: "next_command R L e t s = (Some t', s') \<Longrightarrow>
     pool_step R L e X (s, add_mset t M) (s', add_mset t' M)"
| is_done: "next_command R L e t s = (None, s') \<Longrightarrow>
     pool_step R L e X (s, add_mset t M) (s', M)"
| ends: "pool_step R L e X (s, add_mset (On_slot i) M) (s, add_mset (Slot_left i) M)"
| elsewhere: "(\<And>k. is_counter k \<Longrightarrow> r_count R s' k = r_count R s k) \<Longrightarrow>
     (\<And>i. r_get R s' (Profile_credential_release i) = r_get R s (Profile_credential_release i)) \<Longrightarrow>
     pool_step R L e X (s, M) (s', M)"

inductive pool_steps ::
  "'s redis_api \<Rightarrow> logins \<Rightarrow> env \<Rightarrow> int \<Rightarrow> 's \<times> pool_task multiset \<Rightarrow> 's \<times> pool_task multiset \<Rightarrow> bool"
  for R L e X where
  none: "pool_steps R L e X c c"
| more: "pool_step R L e X c c' \<Longrightarrow> pool_steps R L e X c' c'' \<Longrightarrow> pool_steps R L e X c c''"

section \<open>What a task counts for\<close>

fun task_profile :: "pool_task \<Rightarrow> int" where
  "task_profile (Slot_wanted p _ _) = prof_id p"
| "task_profile (Holds_read p _ _ _) = prof_id p"
| "task_profile (Profile_over p) = prof_id p"
| "task_profile (Profile_counted p _ _) = prof_id p"
| "task_profile (Login_holds_read p _ _ _) = prof_id p"
| "task_profile (Login_over p _) = prof_id p"
| "task_profile (Login_refused p) = prof_id p"
| "task_profile (Login_counted p _) = prof_id p"
| "task_profile (On_slot i) = i"
| "task_profile (Slot_left i) = i"
| "task_profile (Login_key_read i _) = i"
| "task_profile (Login_in_use i _) = i"
| "task_profile (Login_below_zero i _) = i"
| "task_profile (Login_given_back i) = i"
| "task_profile (Login_released i) = i"
| "task_profile (Profile_in_use i) = i"

text \<open>The tasks of a profile that raised its counter and have not lowered it again.\<close>

fun raised :: "pool_task \<Rightarrow> bool" where
  "raised (Slot_wanted _ _ _) = False"
| "raised (Holds_read _ _ _ _) = False"
| "raised _ = True"

definition counts_on :: "int \<Rightarrow> pool_task \<Rightarrow> bool" where
  "counts_on i t \<longleftrightarrow> task_profile t = i \<and> raised t"

text \<open>Those among them the profile's limit let in: all but a request on its way out again.\<close>

fun let_in :: "pool_task \<Rightarrow> bool" where
  "let_in (Profile_over _) = False"
| "let_in t = raised t"

definition has_slot :: "int \<Rightarrow> pool_task \<Rightarrow> bool" where
  "has_slot i t \<longleftrightarrow> task_profile t = i \<and> let_in t"

definition tasks_on :: "int \<Rightarrow> pool_task multiset \<Rightarrow> int" where
  "tasks_on i M = int (size (filter_mset (counts_on i) M))"

definition slots_of :: "int \<Rightarrow> pool_task multiset \<Rightarrow> int" where
  "slots_of i M = int (size (filter_mset (has_slot i) M))"

section \<open>One command\<close>

text \<open>What holds of every task: its profile is the database's, and login keys are login counters.\<close>

fun login_key :: "rkey \<Rightarrow> bool" where
  "login_key (Server_group_connections _ _) = True"
| "login_key _ = False"

fun task_ok :: "env \<Rightarrow> int \<Rightarrow> pool_task \<Rightarrow> bool" where
  "task_ok e X (Slot_wanted p x v) \<longleftrightarrow> profile_by_id e (prof_id p) = Some p \<and> x \<le> X"
| "task_ok e X (Holds_read p x v h) \<longleftrightarrow> profile_by_id e (prof_id p) = Some p \<and> x \<le> X \<and> 0 \<le> h"
| "task_ok e X (Profile_over p) \<longleftrightarrow> profile_by_id e (prof_id p) = Some p"
| "task_ok e X (Profile_counted p x v) \<longleftrightarrow> profile_by_id e (prof_id p) = Some p"
| "task_ok e X (Login_holds_read p x k h) \<longleftrightarrow> profile_by_id e (prof_id p) = Some p \<and> login_key k"
| "task_ok e X (Login_over p k) \<longleftrightarrow> profile_by_id e (prof_id p) = Some p \<and> login_key k"
| "task_ok e X (Login_refused p) \<longleftrightarrow> profile_by_id e (prof_id p) = Some p"
| "task_ok e X (Login_counted p k) \<longleftrightarrow> profile_by_id e (prof_id p) = Some p \<and> login_key k"
| "task_ok e X (Login_key_read i k) \<longleftrightarrow> login_key k"
| "task_ok e X (Login_in_use i k) \<longleftrightarrow> login_key k"
| "task_ok e X (Login_below_zero i k) \<longleftrightarrow> login_key k"
| "task_ok e X t \<longleftrightarrow> True"

definition release_keys_ok :: "'s redis_api \<Rightarrow> 's \<Rightarrow> bool" where
  "release_keys_ok R s \<longleftrightarrow>
     (\<forall>i k. credential_key (r_get R s (Profile_credential_release i)) = Some k \<longrightarrow> login_key k)"

lemma login_key_not_profile [simp]: "login_key k \<Longrightarrow> k \<noteq> Profile_connections i"
  by auto

lemma counter_key_login: "credential_counter_key L p g = Some k \<Longrightarrow> login_key k"
  by (auto simp: credential_counter_key_def)

fun on_it :: "int \<Rightarrow> pool_task option \<Rightarrow> int" where
  "on_it i None = 0"
| "on_it i (Some t) = (if counts_on i t then 1 else 0)"

fun in_it :: "int \<Rightarrow> pool_task option \<Rightarrow> int" where
  "in_it i None = 0"
| "in_it i (Some t) = (if has_slot i t then 1 else 0)"

lemma pid_used_count: "pid_used R s i = r_count R s (Profile_connections i)"
  by (simp add: pid_used_def slots_def)

context redis
begin

text \<open>A command leaves task and remembered keys as they must be.\<close>

lemma reserve_command_keys:
  assumes "release_keys_ok R s" and "task_ok e X t"
  shows "release_keys_ok R (snd (reserve_command R L e t s))"
proof (cases t)
  case (Login_counted p k)
  with assms show ?thesis
    by (simp add: release_keys_ok_def remember_credential_release_key_def)
qed (use assms(1) in \<open>simp_all add: Let_def case_prod_unfold release_keys_ok_def split: option.split\<close>)

lemma reserve_command_task:
  assumes "task_ok e X t"
  shows "case fst (reserve_command R L e t s) of None \<Rightarrow> True | Some u \<Rightarrow> task_ok e X u"
proof (cases t)
  case (Slot_wanted p x v)
  then show ?thesis using assms by (simp add: Let_def case_prod_unfold slots_held_nonneg)
next
  case (Holds_read p x v h)
  then show ?thesis using assms by (simp add: Let_def)
next
  case (Profile_counted p x v)
  then show ?thesis
    using assms counter_key_login [of L p "the (get_enforced_server_group_for_profile p)"]
    by (simp add: Let_def case_prod_unfold split: option.split)
next
  case (Login_holds_read p x k h)
  then show ?thesis using assms by (simp add: Let_def)
qed (use assms in simp_all)

lemma release_command_ok:
  assumes "release_keys_ok R s" and "task_ok e X t"
  shows "release_keys_ok R (snd (release_command R t s))"
    and "case fst (release_command R t s) of None \<Rightarrow> True | Some u \<Rightarrow> task_ok e X u"
proof -
  show "release_keys_ok R (snd (release_command R t s))"
    using assms(1)
    by (cases t) (simp_all add: Let_def release_keys_ok_def split: option.split)
  show "case fst (release_command R t s) of None \<Rightarrow> True | Some u \<Rightarrow> task_ok e X u"
  proof (cases t)
    case (Slot_left i)
    then show ?thesis using assms(1) by (simp add: release_keys_ok_def split: option.split)
  qed (use assms(2) in \<open>simp_all add: Let_def\<close>)
qed

text \<open>
  The profile's counter moves as the task does: it is raised when the task begins to count and
  lowered when it no longer does, and no other command of any task touches it.
\<close>

lemma reserve_command_count:
  assumes ok: "task_ok e X t" and p: "profile_by_id e i = Some p" "0 < max_streams p"
  shows "pid_used R (snd (reserve_command R L e t s)) i =
         pid_used R s i + on_it i (fst (reserve_command R L e t s)) - on_it i (Some t)"
proof (cases t)
  case (Slot_wanted q x v)
  with ok p show ?thesis
    by (cases "prof_id q = i") (simp_all add: Let_def case_prod_unfold pid_used_count counts_on_def)
next
  case (Profile_counted q x v)
  then show ?thesis
    by (simp add: Let_def case_prod_unfold pid_used_count counts_on_def split: option.split)
next
  case (Login_holds_read q x k h)
  with ok have "login_key k" by simp
  then have "k \<noteq> Profile_connections i" by simp
  with Login_holds_read show ?thesis
    by (simp add: Let_def pid_used_count counts_on_def)
next
  case (Login_over q k)
  with ok have "login_key k" by simp
  then have "k \<noteq> Profile_connections i" by simp
  with Login_over show ?thesis
    by (simp add: pid_used_count counts_on_def)
next
  case (Login_refused q)
  with ok p show ?thesis
    by (cases "prof_id q = i") (simp_all add: pid_used_count counts_on_def)
qed (use p in \<open>simp_all add: Let_def pid_used_count counts_on_def remember_credential_release_key_def\<close>)

lemma release_command_count:
  assumes ok: "task_ok e X t" and keys: "release_keys_ok R s"
    and used: "counts_on i t \<Longrightarrow> 0 < pid_used R s i"
  shows "pid_used R (snd (release_command R t s)) i =
         pid_used R s i + on_it i (fst (release_command R t s)) - on_it i (Some t)"
proof (cases t)
  case (Slot_left j)
  then show ?thesis by (simp add: pid_used_count counts_on_def split: option.split)
next
  case (Login_in_use j k)
  with ok have "login_key k" by simp
  then have "k \<noteq> Profile_connections i" by simp
  with Login_in_use show ?thesis by (simp add: Let_def pid_used_count counts_on_def)
next
  case (Login_below_zero j k)
  with ok have "login_key k" by simp
  then have "k \<noteq> Profile_connections i" by simp
  with Login_below_zero show ?thesis by (simp add: pid_used_count counts_on_def)
next
  case (Login_released j)
  with used show ?thesis by (cases "j = i") (simp_all add: pid_used_count counts_on_def)
qed (simp_all add: pid_used_count counts_on_def)

text \<open>A task is let in only below its limit.\<close>

lemma reserve_command_let_in:
  assumes ok: "task_ok e X t" and p: "profile_by_id e i = Some p"
    and new: "in_it i (Some t) < in_it i (fst (reserve_command R L e t s))"
    and lim: "0 < max_streams p"
  shows "pid_used R s i < max_streams p + X"
proof (cases t)
  case (Slot_wanted q x v)
  then have "0 < max_streams q \<or> prof_id q \<noteq> i" using ok p lim by auto
  with Slot_wanted new show ?thesis
    by (cases "0 < max_streams q") (simp_all add: Let_def case_prod_unfold has_slot_def)
next
  case (Holds_read q x v h)
  with ok p new show ?thesis
    by (cases "prof_id q = i") (simp_all add: Let_def pid_used_count has_slot_def split: if_splits)
next
  case (Profile_counted q x v)
  with new show ?thesis
    by (simp add: Let_def case_prod_unfold has_slot_def split: option.splits if_splits)
qed (use new in \<open>simp_all add: Let_def has_slot_def split: if_splits\<close>)

lemma release_command_let_in: "in_it i (fst (release_command R t s)) \<le> in_it i (Some t)"
proof (cases t)
  case (Slot_left j)
  then show ?thesis by (simp add: has_slot_def split: option.split)
qed (simp_all add: Let_def has_slot_def)

end

section \<open>Any interleaving\<close>

text \<open>
  What every state of the pool has: the counter of a limited profile is the number of tasks that
  count on it, and no more of them were let in than the limit and the extra capacity allow.
\<close>

definition pool_kept ::
  "'s redis_api \<Rightarrow> env \<Rightarrow> int \<Rightarrow> profile \<Rightarrow> 's \<times> pool_task multiset \<Rightarrow> bool" where
  "pool_kept R e X p c \<longleftrightarrow>
     release_keys_ok R (fst c) \<and> (\<forall>t \<in># snd c. task_ok e X t) \<and>
     pid_used R (fst c) (prof_id p) = tasks_on (prof_id p) (snd c) \<and>
     slots_of (prof_id p) (snd c) \<le> max_streams p + X"

lemma tasks_on_add: "tasks_on i (add_mset t M) = on_it i (Some t) + tasks_on i M"
  by (simp add: tasks_on_def)

lemma slots_of_add: "slots_of i (add_mset t M) = in_it i (Some t) + slots_of i M"
  by (simp add: slots_of_def)

lemma has_slot_counts: "has_slot i t \<Longrightarrow> counts_on i t"
  by (cases t) (simp_all add: has_slot_def counts_on_def)

lemma slots_of_tasks: "slots_of i M \<le> tasks_on i M"
  by (induction M) (auto simp: slots_of_def tasks_on_def dest: has_slot_counts)

context redis
begin

lemma next_command_ok:
  assumes "next_command R L e t s = (t', s')" and "release_keys_ok R s" and "task_ok e X t"
  shows "release_keys_ok R s'" and "t' = Some u \<Longrightarrow> task_ok e X u"
  using assms reserve_command_keys [of s e X t L] reserve_command_task [of e X t L s]
    release_command_ok [of s e X t]
  by (auto simp: next_command_def split: if_splits)

lemma next_command_count:
  assumes "next_command R L e t s = (t', s')" and "release_keys_ok R s" and "task_ok e X t"
    and "profile_by_id e i = Some p" and "0 < max_streams p"
    and "counts_on i t \<Longrightarrow> 0 < pid_used R s i"
  shows "pid_used R s' i = pid_used R s i + on_it i t' - on_it i (Some t)"
  using assms(1) reserve_command_count [OF assms(3-5), of L s]
    release_command_count [OF assms(3,2,6)]
  by (auto simp: next_command_def split: if_splits)

lemma next_command_let_in:
  assumes "next_command R L e t s = (t', s')" and "task_ok e X t"
    and "profile_by_id e i = Some p" and "0 < max_streams p"
    and "in_it i (Some t) < in_it i t'"
  shows "pid_used R s i < max_streams p + X"
  using assms(1,5) reserve_command_let_in [OF assms(2,3) _ assms(4), of L s]
    release_command_let_in [of i t s]
  by (auto simp: next_command_def split: if_splits)

text \<open>A task that goes on, or is done: what the step keeps, \<open>M'\<close> being the tasks afterwards.\<close>

lemma command_keeps:
  assumes kept: "pool_kept R e X p (s, add_mset t M)"
    and cmd: "next_command R L e t s = (t', s')"
    and p: "profile_by_id e (prof_id p) = Some p" "0 < max_streams p"
    and M': "M' = (case t' of None \<Rightarrow> M | Some u \<Rightarrow> add_mset u M)"
  shows "pool_kept R e X p (s', M')"
proof -
  let ?i = "prof_id p"
  from kept have keys: "release_keys_ok R s" and ok: "task_ok e X t"
    and oks: "\<forall>u \<in># M. task_ok e X u"
    and used: "pid_used R s ?i = on_it ?i (Some t) + tasks_on ?i M"
    and lim: "in_it ?i (Some t) + slots_of ?i M \<le> max_streams p + X"
    by (simp_all add: pool_kept_def tasks_on_add slots_of_add)
  have "0 \<le> tasks_on ?i M" by (simp add: tasks_on_def)
  then have "counts_on ?i t \<Longrightarrow> 0 < pid_used R s ?i" using used by simp
  from next_command_count [OF cmd keys ok p this] used
  have used': "pid_used R s' ?i = on_it ?i t' + tasks_on ?i M" by simp
  have lim': "in_it ?i t' + slots_of ?i M \<le> max_streams p + X"
  proof (cases "in_it ?i (Some t) < in_it ?i t'")
    case True
    have "pid_used R s ?i < max_streams p + X" by (rule next_command_let_in [OF cmd ok p True])
    moreover have "in_it ?i t' \<le> 1" by (cases t') auto
    moreover have "0 \<le> on_it ?i (Some t)" by simp
    ultimately show ?thesis using used slots_of_tasks [of ?i M] by linarith
  next
    case False
    with lim show ?thesis by linarith
  qed
  show ?thesis
    using next_command_ok [OF cmd keys ok] oks used' lim'
    by (cases t') (simp_all add: pool_kept_def M' tasks_on_add slots_of_add)
qed

lemma pool_step_keeps:
  assumes "pool_step R L e X c c'" and "pool_kept R e X p c"
    and p: "profile_by_id e (prof_id p) = Some p" "0 < max_streams p"
  shows "pool_kept R e X p c'"
  using assms(1,2)
proof cases
  case (arrives q x s M v)
  with assms(2) show ?thesis
    by (simp add: pool_kept_def tasks_on_add slots_of_add counts_on_def has_slot_def)
next
  case (goes_on t s t' s' M)
  with command_keeps [OF _ goes_on(3) p] assms(2) show ?thesis by simp
next
  case (is_done t s s' M)
  with command_keeps [OF _ is_done(3) p] assms(2) show ?thesis by simp
next
  case (ends s i M)
  with assms(2) show ?thesis
    by (simp add: pool_kept_def tasks_on_add slots_of_add counts_on_def has_slot_def)
next
  case (elsewhere s' s M)
  with assms(2) show ?thesis
    by (simp add: pool_kept_def release_keys_ok_def pid_used_count)
qed

lemma pool_steps_keep:
  assumes "pool_steps R L e X c c'" and "pool_kept R e X p c"
    and p: "profile_by_id e (prof_id p) = Some p" "0 < max_streams p"
  shows "pool_kept R e X p c'"
  using assms(1,2)
  by (induction rule: pool_steps.induct) (auto intro: pool_step_keeps [OF _ _ p])

text \<open>When a request is let in: exactly while the counter is below what it may count to.\<close>

lemma let_in_exact:
  "fst (next_command R L e (Holds_read p x v h) s) =
     (if pid_used R s (prof_id p) < max_streams p + x - h
      then Some (Profile_counted p x v) else Some (Profile_over p))"
  by (simp add: next_command_def Let_def pid_used_count)

end

text \<open>Streams that play, and nothing under way.\<close>

lemma playing_tasks:
  assumes "\<forall>t \<in># T. \<exists>i. t = On_slot i"
  shows "tasks_on i T = int (count T (On_slot i))" and "slots_of i T = int (count T (On_slot i))"
proof -
  from assms have "tasks_on i T = int (count T (On_slot i)) \<and> slots_of i T = int (count T (On_slot i))"
    by (induction T) (auto simp: tasks_on_def slots_of_def counts_on_def has_slot_def)
  then show "tasks_on i T = int (count T (On_slot i))" "slots_of i T = int (count T (On_slot i))"
    by blast+
qed

lemma playing_kept:
  assumes "release_keys_ok R s" and playing: "\<forall>t \<in># T. \<exists>i. t = On_slot i"
    and "pid_used R s (prof_id p) = int (count T (On_slot (prof_id p)))"
    and "pid_used R s (prof_id p) \<le> max_streams p + X"
  shows "pool_kept R e X p (s, T)"
proof -
  have "\<forall>t \<in># T. task_ok e X t" using playing by fastforce
  with assms show ?thesis by (simp add: pool_kept_def playing_tasks)
qed

section \<open>A request alone\<close>

text \<open>
  The commands of one request with nobody between them are the operations of
  \<open>Connection_Pool\<close>: a reservation needs at most six, a release at most seven.
\<close>

fun commands ::
  "'s redis_api \<Rightarrow> logins \<Rightarrow> env \<Rightarrow> nat \<Rightarrow> pool_task option \<times> 's \<Rightarrow> pool_task option \<times> 's" where
  "commands R L e (Suc n) (Some t, s) = commands R L e n (next_command R L e t s)"
| "commands R L e n c = c"

lemma commands_none [simp]: "commands R L e n (None, s) = (None, s)"
  by (cases n) simp_all

lemma commands_on_slot [simp]: "commands R L e n (Some (On_slot i), s) = (Some (On_slot i), s)"
  by (induction n) (simp_all add: next_command_def)

lemma commands_numeral:
  "commands R L e (numeral n) (Some t, s) = commands R L e (pred_numeral n) (next_command R L e t s)"
  by (simp add: numeral_eq_Suc)

context redis
begin

lemma commands_login:
  "commands R L e 4 (Some (Profile_counted p x v), s) =
     (let ((ok, _), s') = reserve_credential_part R L e p x v n s
      in (if ok then Some (On_slot (prof_id p)) else None, s'))"
  by (simp add: commands_numeral next_command_def reserve_credential_part_def
      reserve_server_group_slot_for_profile_def Let_def case_prod_unfold split: option.split)

lemma commands_over:
  "commands R L e 4 (Some (Profile_over p), s) =
     (None, r_decr R s (Profile_connections (prof_id p)))"
  by (simp add: commands_numeral next_command_def)

lemma commands_reserve:
  "commands R L e 6 (Some (Slot_wanted p x v), s) =
     (if fst (fst (reserve_profile_slot R L e p x v s)) then Some (On_slot (prof_id p)) else None,
      snd (reserve_profile_slot R L e p x v s))"
proof (cases "0 < max_streams p")
  case True
  have six: "commands R L e 6 (Some (Slot_wanted p x v), s) =
      commands R L e 4
        (reserve_command R L e (Holds_read p x v (fst (slots_held_for_others R e p v None s)))
          (snd (slots_held_for_others R e p v None s)))"
    using True by (simp add: commands_numeral next_command_def case_prod_unfold Let_def)
  show ?thesis
    unfolding six using True
    by (simp add: Let_def case_prod_unfold reserve_profile_slot_def commands_over
        commands_login [where n = "r_count R s (Profile_connections (prof_id p)) + 1"])
next
  case False
  then have "commands R L e 6 (Some (Slot_wanted p x v), s) =
      commands R L e 5 (Some (Profile_counted p x v), s)"
    by (simp add: commands_numeral next_command_def)
  also have "\<dots> = commands R L e 4 (Some (Profile_counted p x v), s)"
    using False
    by (simp add: commands_numeral next_command_def Let_def case_prod_unfold split: option.split)
  finally show ?thesis
    using False
    by (simp add: commands_login [where n = 0] reserve_profile_slot_def Let_def case_prod_unfold)
qed

lemma commands_release:
  "commands R L e 7 (Some (Slot_left i), s) = (None, release_profile_slot R i s)"
  by (simp add: commands_numeral next_command_def release_profile_slot_def
      release_credential_slot_by_profile_id_def safe_decr_def Let_def split: option.split)

end

text \<open>Nor does it take more of its own commands when others come between.\<close>

fun commands_left :: "pool_task \<Rightarrow> nat" where
  "commands_left (Slot_wanted _ _ _) = 6"
| "commands_left (Holds_read _ _ _ _) = 5"
| "commands_left (Profile_counted _ _ _) = 4"
| "commands_left (Login_holds_read _ _ _ _) = 3"
| "commands_left (Login_over _ _) = 2"
| "commands_left (Profile_over _) = 1"
| "commands_left (Login_refused _) = 1"
| "commands_left (Login_counted _ _) = 1"
| "commands_left (On_slot _) = 0"
| "commands_left (Slot_left _) = 7"
| "commands_left (Login_key_read _ _) = 6"
| "commands_left (Login_in_use _ _) = 5"
| "commands_left (Login_below_zero _ _) = 4"
| "commands_left (Login_given_back _) = 3"
| "commands_left (Login_released _) = 2"
| "commands_left (Profile_in_use _) = 1"

lemma command_progress:
  "case fst (next_command R L e t s) of
     None \<Rightarrow> True | Some u \<Rightarrow> t = u \<and> commands_left t = 0 \<or> commands_left u < commands_left t"
  by (cases t) (simp_all add: next_command_def Let_def case_prod_unfold split: option.split)

section \<open>Properties\<close>

text \<open>
  C2: Reservations, releases and ends of streams are taken one Redis command at a time, in any
  interleaving, for any viewers, with holds coming and going and with requests for up to X slots
  of extra capacity. For every limited profile, starting from streams that play, its counter is
  always the number of requests and streams that raised it and have not lowered it (so, with
  nothing under way, the streams that play: no slot is lost and none is counted twice); never
  more streams and requests have been let in than the limit plus X; and a request's INCR lets it
  in exactly when what counts then, and the holds the request read, leave room under the limit
  and its own extra capacity. (Switching a stream to another profile is not a step here.)
\<close>

theorem profile_limit_kept:
  assumes "redis R" and "release_keys_ok R s"
    and "profile_by_id e (prof_id p) = Some p" and "0 < max_streams p"
    and "\<forall>t \<in># T. \<exists>i. t = On_slot i"
    and "pid_used R s (prof_id p) = int (count T (On_slot (prof_id p)))"
    and "pid_used R s (prof_id p) \<le> max_streams p + X"
    and "pool_steps R L e X (s, T) (s', T')"
  shows "pid_used R s' (prof_id p) = tasks_on (prof_id p) T' \<and>
         slots_of (prof_id p) T' \<le> max_streams p + X \<and>
         (\<forall>x v h. Holds_read p x v h \<in># T' \<longrightarrow>
            fst (next_command R L e (Holds_read p x v h) s') =
              (if tasks_on (prof_id p) T' < max_streams p + x - h
               then Some (Profile_counted p x v) else Some (Profile_over p)))"
proof -
  have "pool_kept R e X p (s, T)"
    by (rule playing_kept [OF assms(2,5-7)])
  from redis.pool_steps_keep [OF assms(1,8) this assms(3,4)] show ?thesis
    by (simp add: pool_kept_def redis.let_in_exact [OF assms(1)])
qed

text \<open>
  Two requests race for the last slot: both have read the holds before either raises the counter.
\<close>

definition ex_read :: mem where
  "ex_read = snd (slots_held_for_others mem_redis ex_env ex_profile None None ex_reserved)"

definition ex_read2 :: mem where
  "ex_read2 = snd (slots_held_for_others mem_redis ex_env ex_profile None None ex_read)"

definition ex_raised :: mem where
  "ex_raised = r_incr mem_redis ex_read2 (Profile_connections 1)"

definition ex_raised2 :: mem where
  "ex_raised2 = r_incr mem_redis ex_raised (Profile_connections 1)"

lemma ex_reserved_one: "r_count mem_redis ex_reserved (Profile_connections 1) = 1"
  by (simp add: ex_reserved_def mem.reserve_count profile_key_def ex_login_def)

lemma ex_holds_read:
  "next_command mem_redis L ex_env (Slot_wanted ex_profile 0 None) ex_reserved =
     (Some (Holds_read ex_profile 0 None 0), ex_read)"
  "next_command mem_redis L ex_env (Slot_wanted ex_profile 0 None) ex_read =
     (Some (Holds_read ex_profile 0 None 0), ex_read2)"
proof -
  have h: "held mem_redis ex_env ex_profile None None ex_reserved = 0"
    unfolding ex_reserved_def by code_simp
  moreover have "held mem_redis ex_env ex_profile None None ex_read =
      held mem_redis ex_env ex_profile None None ex_reserved"
    unfolding ex_read_def by (rule mem.held_holders) (rule mem.slots_held_holders)
  ultimately show
    "next_command mem_redis L ex_env (Slot_wanted ex_profile 0 None) ex_reserved =
       (Some (Holds_read ex_profile 0 None 0), ex_read)"
    "next_command mem_redis L ex_env (Slot_wanted ex_profile 0 None) ex_read =
       (Some (Holds_read ex_profile 0 None 0), ex_read2)"
    by (simp_all add: next_command_def case_prod_unfold Let_def ex_read_def ex_read2_def)
qed

lemma ex_race:
  "pool_steps mem_redis ex_logins ex_env 0 (ex_reserved, {#On_slot 1#})
     (ex_raised2, {#Profile_over ex_profile, Profile_counted ex_profile 0 None, On_slot 1#})"
proof -
  let ?step = "pool_step mem_redis ex_logins ex_env 0"
  let ?w = "Slot_wanted ex_profile 0 None" and ?h = "Holds_read ex_profile 0 None 0"
  let ?c = "Profile_counted ex_profile 0 None"
  have n: "r_count mem_redis ex_read2 (Profile_connections 1) = 1"
    by (simp add: ex_read2_def ex_read_def ex_reserved_one)
  have db: "profile_by_id ex_env (prof_id ex_profile) = Some ex_profile" by simp
  have "?step (ex_reserved, {#On_slot 1#}) (ex_reserved, {#?w, On_slot 1#})"
    by (rule pool_step.arrives [OF db]) simp
  moreover have "?step (ex_reserved, {#?w, On_slot 1#}) (ex_reserved, {#?w, ?w, On_slot 1#})"
    by (rule pool_step.arrives [OF db]) simp
  moreover have "?step (ex_reserved, {#?w, ?w, On_slot 1#}) (ex_read, {#?h, ?w, On_slot 1#})"
    by (rule pool_step.goes_on) (rule ex_holds_read)
  moreover have "?step (ex_read, {#?w, ?h, On_slot 1#}) (ex_read2, {#?h, ?h, On_slot 1#})"
    by (rule pool_step.goes_on) (rule ex_holds_read)
  moreover have "?step (ex_read2, {#?h, ?h, On_slot 1#}) (ex_raised, {#?c, ?h, On_slot 1#})"
    by (rule pool_step.goes_on) (simp add: next_command_def Let_def n ex_raised_def)
  moreover have "?step (ex_raised, {#?h, ?c, On_slot 1#})
      (ex_raised2, {#Profile_over ex_profile, ?c, On_slot 1#})"
    by (rule pool_step.goes_on) (simp add: next_command_def Let_def n ex_raised_def ex_raised2_def)
  ultimately show ?thesis
    by (simp only: add_mset_commute [of ?h ?w] add_mset_commute [of ?c ?h])
      (blast intro: pool_steps.intros)
qed

lemma profile_limit_kept_witness:
  "pid_used mem_redis ex_raised2 1 = 3 \<and>
   slots_of 1 {#Profile_over ex_profile, Profile_counted ex_profile 0 None, On_slot 1#} \<le> 2"
proof -
  have "release_keys_ok mem_redis ex_reserved"
    using ex_reserved_views(1) by (fastforce simp: release_keys_ok_def pool_ok_def)
  from profile_limit_kept [OF mem.redis_axioms this _ _ _ _ _ ex_race, of ex_profile]
  show ?thesis
    by (simp add: pid_used_count ex_reserved_one tasks_on_def counts_on_def)
qed

end
