(* ===== verification/Spec2Isabelle.thy ===== *)
theory Spec2Isabelle
  imports Sweep Stream_Buffer Catchup_Seeks Guide_Layout Compact_Numbering Watch_Groups Device_Facts Failover_End Vod_Cases Stutter_Cases Pool_Commands
begin

text \<open>
  A fork of Dispatcharr, the IPTV manager and stream proxy, seen from the resource its users
  compete for: the connections a provider account allows. Everything that plays (a channel, a
  preview, a recording, a look back) holds a slot of a profile of an M3U account; the slots are
  counters in Redis shared by all workers; and the fork's own features (switching without waiting,
  staying on an account, one slot past the limit while a viewer switches, stopping what a viewer
  left) decide when slots are taken, held, moved and given back. The development follows these
  slots through the code, from the server that owns a channel's stream and fails over from one to the
  next, to look back and movies; beside them it has the stream buffer the viewers of a channel read,
  the byte ranges of look back and movies, and the numbers of channels.

  \<^bold>\<open>Parts and theories\<close>, in the order they build on each other. A definition has the name of the
  function it models; the manifest maps each to its lines.

  \<^item> \<^verbatim>\<open>Prelude\<close>, \<^verbatim>\<open>Json\<close>: Python's strings and integers, JSON values and their coercions.
  \<^item> \<^verbatim>\<open>Redis\<close>: the server is not part of the repository, so it is a parameter: a record of commands
    on a store (\<open>redis_api\<close>) and a locale with their documented laws, interpreted on a store in
    memory. Keys are one datatype, with the strings of \<^verbatim>\<open>live_proxy/redis_keys.py\<close> and the proof that
    no two keys are written alike.
  \<^item> \<^verbatim>\<open>Lan_Subnets\<close>, \<^verbatim>\<open>Accounts\<close>, \<^verbatim>\<open>Declared_Devices\<close>, \<^verbatim>\<open>Viewers\<close>: who a viewer is
    (\<^verbatim>\<open>probation.py\<close>, \<^verbatim>\<open>app_devices.py\<close>, \<^verbatim>\<open>dispatcharr/utils.py\<close>): addresses as 32-bit words, the
    accounts' settings, what an app declares, and the identity two requests are compared by.
  \<^item> \<^verbatim>\<open>Live_Channels\<close>: the channels' and clients' hashes in Redis and what a viewer is watching.
  \<^item> \<^verbatim>\<open>Slot_Holds\<close>, \<^verbatim>\<open>Credentials\<close>, \<^verbatim>\<open>Pool_Interface\<close>, \<^verbatim>\<open>Connection_Pool\<close>, \<^verbatim>\<open>Pool_Commands\<close>: the slots
    (\<^verbatim>\<open>m3u/connection_pool.py\<close>, \<^verbatim>\<open>m3u/credentials.py\<close>): the profile's counter, the login's counter
    shared in a server group, and the slots held for viewers between two channels. The locale
    \<open>slot_pool\<close> is what users of slots rely on; \<^verbatim>\<open>Connection_Pool\<close> interprets it. There a reservation
    is one operation; \<^verbatim>\<open>Pool_Commands\<close> has the same reservations and releases one Redis command at a
    time, with any others in between (alone they are the operations: \<open>commands_reserve\<close>,
    \<open>commands_release\<close>).
  \<^item> \<^verbatim>\<open>Streams\<close>, \<^verbatim>\<open>Overlap\<close>, \<^verbatim>\<open>Channel_Streams\<close>: which stream is tried first for whom
    (\<^verbatim>\<open>channels/utils.py\<close>, \<^verbatim>\<open>probation.py\<close>), staying on an account or one slot past its limit, and a
    channel's stream and slot (\<^verbatim>\<open>channels/models.py\<close>).
  \<^item> \<^verbatim>\<open>Force_Close\<close>, \<^verbatim>\<open>Probation\<close>, \<^verbatim>\<open>Sweep\<close> (\<^verbatim>\<open>probation.py\<close>): stopping the channels a viewer left,
    the end of an overlap, and the release of slots whose channel is gone.
  \<^item> \<^verbatim>\<open>Watch_Together\<close>, \<^verbatim>\<open>Watch_Groups\<close> (\<^verbatim>\<open>app_links.py\<close>): devices that watch together, the groups
    they form and who follows whose change of channel.
  \<^item> \<^verbatim>\<open>Stream_Buffer\<close> (\<^verbatim>\<open>input/buffer.py\<close>, \<^verbatim>\<open>output/ts/generator.py\<close>): bytes into packets into chunks,
    and a client's walk over the chunks.
  \<^item> \<^verbatim>\<open>Catchup_Ranges\<close>, \<^verbatim>\<open>Catchup_Pool\<close>, \<^verbatim>\<open>Catchup_Seeks\<close> (\<^verbatim>\<open>timeshift/views.py\<close>): range headers, the
    slot a look back session keeps across requests, and the hand-over of it from stream to stream.
  \<^item> \<^verbatim>\<open>Guide_Layout\<close>, \<^verbatim>\<open>Compact_Numbering\<close> (\<^verbatim>\<open>channels/guide_layout.py\<close>,
    \<^verbatim>\<open>channels/compact_numbering.py\<close>): the numbers of an arrangement and of a packed group.
  \<^item> \<^verbatim>\<open>Channel_Server\<close>, \<^verbatim>\<open>Channel_Life\<close>, \<^verbatim>\<open>Lease_Interface\<close>, \<^verbatim>\<open>Channel_Facts\<close>
    (\<^verbatim>\<open>live_proxy/server.py\<close>, \<^verbatim>\<open>client_manager.py\<close>, \<^verbatim>\<open>services/channel_service.py\<close>): which worker owns a channel,
    by a lease in Redis, its clients, its start, its stop and the clean-up of its keys. The locale of
    the lease says what an owner may rely on and is interpreted on the server's operations.
  \<^item> \<^verbatim>\<open>Catchup_Sessions\<close>, \<^verbatim>\<open>Catchup_Views\<close> (\<^verbatim>\<open>timeshift/views.py\<close>): the sessions of look back and
    their end after a grace, and what the statistics show of them.
  \<^item> \<^verbatim>\<open>User_Limits\<close>, \<^verbatim>\<open>One_Device\<close>, \<^verbatim>\<open>Device_Facts\<close> (\<^verbatim>\<open>proxy/utils.py\<close>, \<^verbatim>\<open>app_one_device.py\<close>): how many
    streams a login may have at once and which are ended for a new one; a login's devices that
    replace each other.
  \<^item> \<^verbatim>\<open>Alternates\<close>, \<^verbatim>\<open>Failover\<close>, \<^verbatim>\<open>Failover_Run\<close>, with \<^verbatim>\<open>Failover_Cases\<close>, \<^verbatim>\<open>Failover_Facts\<close> and
    \<^verbatim>\<open>Failover_End\<close> (\<^verbatim>\<open>url_utils.py\<close>, \<^verbatim>\<open>input/manager.py\<close>, \<^verbatim>\<open>stalling.py\<close>): the streams a channel can fail over to
    and their order, the counts and cooldowns of a failing stream, and the stream manager's run from
    its first connection to its end.
  \<^item> \<^verbatim>\<open>Stream_Switch\<close>, \<^verbatim>\<open>Switch_Facts\<close>, \<^verbatim>\<open>Stutter\<close>, \<^verbatim>\<open>Stutter_Facts\<close>, \<^verbatim>\<open>Stutter_Cases\<close>
    (\<^verbatim>\<open>services/channel_service.py\<close>, \<^verbatim>\<open>server.py\<close>, \<^verbatim>\<open>views.py\<close>, \<^verbatim>\<open>app_stalls.py\<close>): a channel told to play
    another stream, by the worker that runs it or by a message to it, and the moves of a channel whose
    picture stutters on a device.
  \<^item> \<^verbatim>\<open>Vod_Sessions\<close>, \<^verbatim>\<open>Vod_Streams\<close>, with \<^verbatim>\<open>Vod_Counts\<close>, \<^verbatim>\<open>Vod_Steps\<close>, \<^verbatim>\<open>Vod_Facts\<close>, \<^verbatim>\<open>Vod_Bytes\<close> and
    \<^verbatim>\<open>Vod_Cases\<close> (\<^verbatim>\<open>vod_proxy/multi_worker_connection_manager.py\<close>, \<^verbatim>\<open>vod_proxy/views.py\<close>): a movie's session
    as it is kept in Redis, a request from the session it joins to the end of its stream, ranges and
    resumed connections, and the provider chosen.

  \<^bold>\<open>What is proved.\<close> Slots: a reservation is all or nothing; in any interleaving of the single
  commands the counter is what counts on it, and no more are let in than the limit and the extra
  slots asked for; release undoes reservation, the capacity check is exact, and held slots are counted as the
  abstract set of holders says (a refinement). Channels: getting a stream takes one slot, giving it
  back returns it, a move changes only the two profiles. Stopping: only channels nobody else is on
  are stopped, once, and the wait for it ends. Overlaps: each outcome says how the profile stands,
  the monitor ends, no probation has two monitors. The sweep releases only what was seen idle for a
  minute, and does release it. Watching together: as a step relation, every reachable store has its
  groups right, and a change of channel leaves nobody in who may not watch. Buffer: the bytes stored are the bytes that came, a reader from the
  start is sent all of them, the binary search for the oldest chunk is a scan. Look back: as an
  inductive step relation, a session has exactly one slot while a request has it or a stream runs
  that need not make way, whatever attempts fail and whatever is sought, provided the stream with
  the slot outlives those it replaced and seeks do not overlap; a range goes to the archive and back unchanged; a scrub lands inside the archive; a
  viewing that ended is not played again. The server: a channel has one owner at a time, a stop or a
  failed start, also one without a URL, leaves none of its keys and slots, and a stream whose channel was stopped ends.
  Failover: the alternates are exactly the streams that can be played, a failover goes to one not
  tried, and a channel that never plays is given up, whatever its health monitor asks for, as long as what
  it asks for is found; where it asks and nothing is found the failures are forgotten, and a silent
  channel on its only stream is never given up.
  Switches: once one is answered, the metadata tells the URL the manager is on; asking for the next
  stream goes round the channel's streams; and reports of stutter move a channel only where nobody
  loses a good picture, to a stream no better that was not left, at most twice and once more for each
  return to a stream it had left.
  Logins: at its limit a login's streams are told to make way for a request until there is room, and
  a replaced device waits. Movies: in
  every order of the atomic steps of every request for a session the profile's counter is what the
  requests hold; a request is such a sequence of steps, so it takes a slot exactly when its session
  was idle, gives it back at its end, and leaves no trace when it fails; and over interrupted
  connections the bytes sent are one unbroken run of the movie.
  Numbers: an arrangement changes as little as possible, a packed group has free numbers of its
  range in its order, and packing again changes nothing. Settings stay typed. Other properties show
  where the code does not do what it means to: they are listed as findings in the manifest.

  \<^bold>\<open>Bounds and fuel.\<close> The loops that wait on what others do take their number of turns as fuel, with
  no result where it ends first. The wait for a stop polls every tenth of a second and gives up after
  five; \<open>wait_for_stop_ends\<close> shows that 51 checks are always enough. The monitor of an
  overlap looks twice a second; \<open>monitor_ends\<close> shows that it ends within twice the seconds left of
  the recorded window and one more turn; the wait for a channel's last client has two polls more than
  the seconds of its delay. The stream manager's run is given turns and attempts:
  \<open>dead_channel_given_up\<close> shows that four turns for each switch allowed and one more, three besides
  and two for each request that finds no stream are enough, each with as many attempts as retries
  are allowed. The turns of a client's walk and the connections of a movie's stream are given
  one by one, with no result where they end before it does. The
  search for a free number is a function whose measure is the numbers in use ahead of it, and the
  other recursions are structural or measured by what is left of their input.

  \<^bold>\<open>Time, floats and concurrency.\<close> The clock is a field of the environment or an argument; floats
  are reals. Each Redis command is atomic; a section under a lock is one operation. What other
  workers do in between is a run of such operations (\<^verbatim>\<open>Pool_Interface\<close>, \<^verbatim>\<open>Catchup_Seeks\<close>), of single commands (\<^verbatim>\<open>Pool_Commands\<close>) or a
  parameter. A time to live is written as it is in the code and has no effect of its own: a key that
  runs out is removed by the environment.

  \<^bold>\<open>Parameters.\<close> The rows of the database, the answers of providers and media servers, hashes, the
  regular expressions users write, the scans of the key space, what came of each connection to a
  provider, and, where the overlap's end and Force Close call them, the stop and the stream switch of
  the proxy server, as functions that say whether they succeeded, failed or raised (the operations
  themselves are in \<^verbatim>\<open>Channel_Server\<close> and \<^verbatim>\<open>Stream_Switch\<close>). Of a switch asked of another worker,
  whether that worker takes the message before the wait of fifteen seconds is over.

  \<^bold>\<open>Not modelled.\<close> The event log and statistics (written, read by no decision here); the wrappers
  that turn an exception of Redis into the answer of an absent server; IPv6; gevent workers, sockets
  and ffmpeg. Imports of playlists, guides and movies, and the name matching of the channel manager:
  bulk operations on the database and word lists, where what is right is a matter of the data.
  Recordings: tasks around ffmpeg and the file system. Media servers and HDHomeRun: HTTP clients and
  rendering. Of the stream check, only what the failover asks of it. Of movies, the redirects and the
  statistics of the views. REST glue, plugins and backups.
\<close>

end
